(* ===== verification/Prelude.thy ===== *)
theory Prelude
  imports Main "HOL-Library.Multiset" "HOL-Library.Sublist"
begin

text \<open>
  Shared vocabulary of the development: the collections of simplification facts the
  component theories feed, the comparison and sorting functions of Go's \<open>slices\<close>
  package, insertion-ordered de-duplication with a key (the \<open>seen\<close> map idiom of the
  code), and counting lemmas.
\<close>

named_theorems go_simps \<open>unfolding of the models of the Go standard library\<close>
named_theorems filter_laws \<open>laws of passes that only drop elements of a list\<close>

section \<open>Comparison functions and sorting\<close>

text \<open>
  A Go comparison function returns a negative, zero or positive \<open>int\<close>.
  \<open>slices.SortStableFunc\<close> is the stable sort by it, modelled by insertion from the
  right. \<open>slices.SortFunc\<close> promises a sorted permutation and leaves the order of equal
  elements open: \<open>sorts\<close> is that promise, and a definition that calls \<open>SortFunc\<close> with
  a comparison that can be zero on distinct elements takes the sorter as an argument.
\<close>

type_synonym 'a go_cmp = "'a \<Rightarrow> 'a \<Rightarrow> int"

fun insert_by :: "'a go_cmp \<Rightarrow> 'a \<Rightarrow> 'a list \<Rightarrow> 'a list" where
  "insert_by cmp x [] = [x]"
| "insert_by cmp x (y # ys) =
     (if cmp x y \<le> 0 then x # y # ys else y # insert_by cmp x ys)"

fun stable_sort :: "'a go_cmp \<Rightarrow> 'a list \<Rightarrow> 'a list" where
  "stable_sort cmp [] = []"
| "stable_sort cmp (x # xs) = insert_by cmp x (stable_sort cmp xs)"

definition sorted_by :: "'a go_cmp \<Rightarrow> 'a list \<Rightarrow> bool" where
  "sorted_by cmp xs = sorted_wrt (\<lambda>a b. cmp a b \<le> 0) xs"

definition sorts :: "('a list \<Rightarrow> 'a list) \<Rightarrow> 'a go_cmp \<Rightarrow> bool" where
  "sorts srt cmp = (\<forall>xs. mset (srt xs) = mset xs \<and> sorted_by cmp (srt xs))"

definition total_cmp :: "'a go_cmp \<Rightarrow> bool" where
  "total_cmp cmp =
     ((\<forall>a b. cmp a b \<le> 0 \<or> cmp b a \<le> 0) \<and>
      (\<forall>a b c. cmp a b \<le> 0 \<longrightarrow> cmp b c \<le> 0 \<longrightarrow> cmp a c \<le> 0))"

lemma mset_insert_by [simp]: "mset (insert_by cmp x ys) = add_mset x (mset ys)"
  by (induction ys) auto

lemma mset_stable_sort [simp]: "mset (stable_sort cmp xs) = mset xs"
  by (induction xs) auto

lemma set_insert_by [simp]: "set (insert_by cmp x ys) = insert x (set ys)"
  by (induction ys) auto

lemma set_stable_sort [simp]: "set (stable_sort cmp xs) = set xs"
  by (induction xs) auto

lemma length_stable_sort [simp]: "length (stable_sort cmp xs) = length xs"
  by (metis mset_stable_sort size_mset)

lemma distinct_stable_sort [simp]: "distinct (stable_sort cmp xs) = distinct xs"
  by (rule mset_eq_imp_distinct_iff) simp

lemma sorted_insert_by:
  assumes t: "total_cmp cmp" and s: "sorted_by cmp ys"
  shows "sorted_by cmp (insert_by cmp x ys)"
  using s
proof (induction ys)
  case Nil
  then show ?case by (simp add: sorted_by_def)
next
  case (Cons y ys)
  show ?case
  proof (cases "cmp x y \<le> 0")
    case True
    with Cons.prems t show ?thesis
      by (auto simp: sorted_by_def total_cmp_def)
  next
    case False
    with t have "cmp y x \<le> 0" unfolding total_cmp_def by blast
    with False Cons show ?thesis by (auto simp: sorted_by_def)
  qed
qed

lemma sorted_stable_sort: "total_cmp cmp \<Longrightarrow> sorted_by cmp (stable_sort cmp xs)"
  by (induction xs) (auto simp: sorted_insert_by, simp add: sorted_by_def)

text \<open>Laws of a sorter, for the definitions that take one as an argument.\<close>

locale sorter =
  fixes srt :: "'a list \<Rightarrow> 'a list" and cmp :: "'a go_cmp"
  assumes sorter_perm: "mset (srt xs) = mset xs"
    and sorter_sorted: "sorted_by cmp (srt xs)"
begin

lemma sorter_set: "set (srt xs) = set xs"
  by (metis sorter_perm set_mset_mset)

lemma sorter_length: "length (srt xs) = length xs"
  by (metis sorter_perm size_mset)

lemma sorter_distinct: "distinct (srt xs) = distinct xs"
  by (rule mset_eq_imp_distinct_iff) (rule sorter_perm)

lemma sorter_sorts: "sorts srt cmp"
  by (simp add: sorts_def sorter_perm sorter_sorted)

lemma sorter_nil: "srt xs = [] \<longleftrightarrow> xs = []"
  by (metis sorter_length length_0_conv)

end

lemma sorts_sorter: "sorts srt cmp \<longleftrightarrow> sorter srt cmp"
  by (auto simp: sorts_def sorter_def)

lemma sorts_stable_sort: "total_cmp cmp \<Longrightarrow> sorts (stable_sort cmp) cmp"
  by (simp add: sorts_def sorted_stable_sort)

lemma total_cmp_diff: "total_cmp (\<lambda>a b. (key a :: int) - key b)"
  by (auto simp: total_cmp_def)

interpretation stable: sorter "stable_sort (\<lambda>a b. (key a :: int) - key b)"
    "\<lambda>a b. (key a :: int) - key b" for key :: "'a \<Rightarrow> int"
  by unfold_locales (auto intro: sorted_stable_sort total_cmp_diff)

text \<open>Two comparisons tried in order, as the \<open>if c := ...; c != 0\<close> chains of the code.\<close>

definition then_cmp :: "'a go_cmp \<Rightarrow> 'a go_cmp \<Rightarrow> 'a go_cmp" where
  "then_cmp c1 c2 = (\<lambda>a b. if c1 a b \<noteq> 0 then c1 a b else c2 a b)"

definition cmp_laws :: "'a go_cmp \<Rightarrow> bool" where
  "cmp_laws cmp =
     ((\<forall>a b. (cmp a b < 0) = (0 < cmp b a)) \<and>
      (\<forall>a b c. cmp a b \<le> 0 \<longrightarrow> cmp b c \<le> 0 \<longrightarrow> cmp a c \<le> 0))"

lemma cmp_laws_total: "cmp_laws cmp \<Longrightarrow> total_cmp cmp"
  unfolding cmp_laws_def total_cmp_def by (metis linorder_le_cases not_less)

lemma cmp_laws_diff [intro]: "cmp_laws (\<lambda>a b. (key a :: int) - key b)"
  by (auto simp: cmp_laws_def)

lemma cmp_laws_flip: "cmp_laws c \<Longrightarrow> (c a b = 0) = (c b a = 0)"
  unfolding cmp_laws_def by (metis less_irrefl linorder_neqE)

lemma cmp_laws_less_le:
  assumes l: "cmp_laws c"
  shows "c a b < 0 \<Longrightarrow> c b d \<le> 0 \<Longrightarrow> c a d < 0"
    and "c a b \<le> 0 \<Longrightarrow> c b d < 0 \<Longrightarrow> c a d < 0"
  using l unfolding cmp_laws_def by (smt (verit))+

lemma cmp_laws_then [intro]:
  assumes l1: "cmp_laws c1" and l2: "cmp_laws c2"
  shows "cmp_laws (then_cmp c1 c2)"
proof -
  have anti: "(then_cmp c1 c2 a b < 0) = (0 < then_cmp c1 c2 b a)" for a b
    using l1 l2 unfolding then_cmp_def cmp_laws_def by (smt (verit))
  have trans: "then_cmp c1 c2 a d \<le> 0"
    if ab: "then_cmp c1 c2 a b \<le> 0" and bd: "then_cmp c1 c2 b d \<le> 0" for a b d
  proof (cases "c1 a b = 0 \<and> c1 b d = 0")
    case True
    then have "c1 a d \<le> 0" "c1 d a \<le> 0"
      using l1 cmp_laws_flip [OF l1] unfolding cmp_laws_def by (metis order_refl)+
    then have "c1 a d = 0" using l1 unfolding cmp_laws_def by (smt (verit))
    with True ab bd l2 show ?thesis unfolding then_cmp_def cmp_laws_def by auto
  next
    case False
    then have "c1 a d < 0"
      using ab bd cmp_laws_less_le [OF l1] unfolding then_cmp_def by (smt (verit))
    then show ?thesis by (simp add: then_cmp_def)
  qed
  from anti trans show ?thesis unfolding cmp_laws_def by blast
qed

text \<open>A symmetric pairwise property does not depend on the order of the list.\<close>

lemma sorted_wrt_mset:
  assumes sym: "\<And>a b. R a b \<Longrightarrow> R b a"
  shows "mset xs = mset ys \<Longrightarrow> sorted_wrt R xs \<Longrightarrow> sorted_wrt R ys"
proof (induction xs arbitrary: ys)
  case Nil
  then show ?case by simp
next
  case (Cons x xs)
  then have "x \<in> set ys" by (metis list.set_intros(1) set_mset_mset)
  then obtain us vs where ys: "ys = us @ x # vs" by (meson split_list)
  with Cons.prems have m: "mset xs = mset (us @ vs)" by simp
  with Cons have "sorted_wrt R (us @ vs)" by simp
  moreover have "\<forall>y\<in>set us \<union> set vs. R x y"
    using Cons.prems(2) m by (metis set_append set_mset_mset sorted_wrt.simps(2))
  ultimately show ?case using sym by (auto simp: ys sorted_wrt_append)
qed

section \<open>De-duplication with a seen set\<close>

text \<open>
  \<open>keep_first key seen xs\<close> walks \<open>xs\<close> and keeps an element when its key has not
  been seen, recording it: the loop with a \<open>seen\<close> map the code writes in many places.
\<close>

fun keep_first :: "('a \<Rightarrow> 'k) \<Rightarrow> 'k set \<Rightarrow> 'a list \<Rightarrow> 'a list" where
  "keep_first key seen [] = []"
| "keep_first key seen (x # xs) =
     (if key x \<in> seen then keep_first key seen xs
      else x # keep_first key (insert (key x) seen) xs)"

lemma keep_first_keys:
  "key ` set (keep_first key seen xs) = key ` set xs - seen"
  by (induction xs arbitrary: seen) auto

lemma keep_first_distinct: "distinct (map key (keep_first key seen xs))"
proof (induction xs arbitrary: seen)
  case Nil
  show ?case by simp
next
  case (Cons x xs)
  have "key x \<notin> key ` set (keep_first key (insert (key x) seen) xs)"
    by (simp add: keep_first_keys)
  with Cons show ?case by simp
qed

lemma keep_first_subseq [filter_laws]: "subseq (keep_first key seen xs) xs"
  by (induction xs arbitrary: seen) auto

lemma keep_first_id:
  "distinct (map key xs) \<Longrightarrow> key ` set xs \<inter> seen = {} \<Longrightarrow> keep_first key seen xs = xs"
  by (induction xs arbitrary: seen) auto

lemma keep_first_idem: "keep_first key {} (keep_first key {} xs) = keep_first key {} xs"
  by (rule keep_first_id) (auto intro: keep_first_distinct)

text \<open>\<open>all_distinct_by\<close> is the same loop used as a check: reject on a repeated key.\<close>

fun no_repeat :: "'k set \<Rightarrow> 'k list \<Rightarrow> bool" where
  "no_repeat seen [] = True"
| "no_repeat seen (k # ks) = (k \<notin> seen \<and> no_repeat (insert k seen) ks)"

lemma no_repeat_iff: "no_repeat seen ks \<longleftrightarrow> distinct ks \<and> set ks \<inter> seen = {}"
  by (induction ks arbitrary: seen) auto

lemma no_repeat_distinct [simp]: "no_repeat {} ks \<longleftrightarrow> distinct ks"
  by (simp add: no_repeat_iff)

section \<open>Counting\<close>

lemma count_list_filter_le: "count_list (map f (filter P xs)) k \<le> count_list (map f xs) k"
  by (induction xs) auto

lemma length_filter_partition:
  "length (filter P xs) + length (filter (\<lambda>x. \<not> P x) xs) = length xs"
  by (induction xs) auto

lemma subseq_filter_list [filter_laws]: "subseq (filter P xs) xs"
  by (rule subseq_filter_left)

lemma subseq_set_mono: "subseq xs ys \<Longrightarrow> set xs \<subseteq> set ys"
  by (induction rule: list_emb.induct) auto

lemma subseq_distinct: "subseq xs ys \<Longrightarrow> distinct ys \<Longrightarrow> distinct xs"
  by (induction rule: list_emb.induct) (auto dest: subseq_set_mono)

end
