(* ===== verification/Go_Strings.thy ===== *)
theory Go_Strings
  imports Prelude
begin

text \<open>
  What the code uses of Go's strings. A Go string is a byte string, so it is a
  \<open>char list\<close> (a \<open>char\<close> is a byte). The functions are those of the packages
  \<open>strings\<close>, \<open>strconv\<close> and \<open>unicode/utf8\<close>; a rune is a code point as a \<open>nat\<close>.
\<close>

abbreviation byte_at :: "char \<Rightarrow> nat" where
  "byte_at c \<equiv> of_char c"

section \<open>Comparison\<close>

text \<open>\<open>strings.Compare\<close>: bytewise lexicographic, with values -1, 0 and 1.\<close>

fun str_compare :: "string \<Rightarrow> string \<Rightarrow> int" where
  "str_compare [] [] = 0"
| "str_compare [] (b # bs) = -1"
| "str_compare (a # as) [] = 1"
| "str_compare (a # as) (b # bs) =
     (if byte_at a < byte_at b then -1
      else if byte_at b < byte_at a then 1
      else str_compare as bs)"

lemma byte_eq: "\<not> byte_at a < byte_at b \<Longrightarrow> \<not> byte_at b < byte_at a \<Longrightarrow> a = b"
  by (metis linorder_neqE_nat of_char_eq_iff)

lemma str_compare_eq: "str_compare s t = 0 \<longleftrightarrow> s = t"
proof (induction s t rule: str_compare.induct)
  case (4 a as b bs)
  show ?case
  proof (cases "byte_at a < byte_at b \<or> byte_at b < byte_at a")
    case True
    then show ?thesis by auto
  next
    case False
    then have "a = b" using byte_eq by blast
    with 4 show ?thesis by simp
  qed
qed simp_all

lemma str_compare_anti: "str_compare s t < 0 \<longleftrightarrow> 0 < str_compare t s"
  by (induction s t rule: str_compare.induct) auto

lemma three_way_le:
  "(if (m::nat) < n then - 1 else if n < m then 1 else r) \<le> (0::int) \<longleftrightarrow> m < n \<or> m = n \<and> r \<le> 0"
  by auto

lemma str_compare_trans: "str_compare s t \<le> 0 \<Longrightarrow> str_compare t u \<le> 0 \<Longrightarrow> str_compare s u \<le> 0"
proof (induction s t arbitrary: u rule: str_compare.induct)
  case (1 u)
  then show ?case by simp
next
  case (2 b bs u)
  then show ?case by (cases u) (simp_all del: of_char_eq_iff)
next
  case (3 a as u)
  then show ?case by simp
next
  case (4 a as b bs u)
  show ?case
  proof (cases u)
    case Nil
    with "4.prems" show ?thesis by simp
  next
    case (Cons c cs)
    from "4.prems" Cons have
      ab: "byte_at a < byte_at b \<or> byte_at a = byte_at b \<and> str_compare as bs \<le> 0" and
      bc: "byte_at b < byte_at c \<or> byte_at b = byte_at c \<and> str_compare bs cs \<le> 0"
      by (simp_all only: str_compare.simps three_way_le)
    have "byte_at a < byte_at c \<or> byte_at a = byte_at c \<and> str_compare as cs \<le> 0"
    proof (cases "byte_at a = byte_at b \<and> byte_at b = byte_at c")
      case True
      then show ?thesis using "4.IH" ab bc by (metis less_irrefl)
    next
      case False
      then show ?thesis using ab bc by (metis less_trans)
    qed
    then show ?thesis by (simp only: Cons str_compare.simps three_way_le)
  qed
qed

lemma cmp_laws_str [intro]: "cmp_laws (\<lambda>a b. str_compare (key a) (key b))"
  unfolding cmp_laws_def using str_compare_anti str_compare_trans by blast

section \<open>Prefixes, search and splitting\<close>

fun has_prefix :: "string \<Rightarrow> string \<Rightarrow> bool" where
  "has_prefix s [] = True"
| "has_prefix [] (p # ps) = False"
| "has_prefix (c # cs) (p # ps) = (c = p \<and> has_prefix cs ps)"

definition has_suffix :: "string \<Rightarrow> string \<Rightarrow> bool" where
  "has_suffix s p = has_prefix (rev s) (rev p)"

definition trim_prefix :: "string \<Rightarrow> string \<Rightarrow> string" where
  "trim_prefix s p = (if has_prefix s p then drop (length p) s else s)"

definition cut_suffix :: "string \<Rightarrow> string \<Rightarrow> string option" where
  "cut_suffix s p = (if has_suffix s p then Some (take (length s - length p) s) else None)"

definition cut_prefix :: "string \<Rightarrow> string \<Rightarrow> string option" where
  "cut_prefix s p = (if has_prefix s p then Some (drop (length p) s) else None)"

lemma has_prefix_iff: "has_prefix s p \<longleftrightarrow> (\<exists>t. s = p @ t)"
  by (induction s p rule: has_prefix.induct) auto

lemma has_prefix_append [simp]: "has_prefix (p @ t) p"
  by (auto simp: has_prefix_iff)

lemma has_suffix_iff: "has_suffix s p \<longleftrightarrow> (\<exists>t. s = t @ p)"
  unfolding has_suffix_def has_prefix_iff
  by (metis rev_append rev_rev_ident)

text \<open>\<open>strings.Cut(s, sep)\<close>: the text before and after the first occurrence, if any.\<close>

fun str_cut :: "string \<Rightarrow> string \<Rightarrow> (string \<times> string) option" where
  "str_cut [] sep = (if sep = [] then Some ([], []) else None)"
| "str_cut (c # cs) sep =
     (if has_prefix (c # cs) sep then Some ([], drop (length sep) (c # cs))
      else map_option (\<lambda>(b, a). (c # b, a)) (str_cut cs sep))"

definition str_contains :: "string \<Rightarrow> string \<Rightarrow> bool" where
  "str_contains s sub = (str_cut s sub \<noteq> None)"

lemma str_cut_Some: "str_cut s sep = Some (b, a) \<Longrightarrow> s = b @ sep @ a"
proof (induction s arbitrary: b)
  case Nil
  then show ?case by (auto split: if_splits)
next
  case (Cons c cs)
  then show ?case by (auto split: if_splits simp: has_prefix_iff)
qed

lemma str_cut_None: "str_cut s sep = None \<Longrightarrow> s \<noteq> b @ sep @ a"
proof (induction s arbitrary: b)
  case Nil
  then show ?case by (auto split: if_splits)
next
  case (Cons c cs)
  from Cons.prems have "\<not> has_prefix (c # cs) sep" and n: "str_cut cs sep = None"
    by (auto split: if_splits)
  then show ?case
    using Cons.IH [OF n] by (cases b) (auto simp: has_prefix_iff)
qed

lemma str_contains_iff: "str_contains s sub \<longleftrightarrow> (\<exists>b a. s = b @ sub @ a)"
proof (cases "str_cut s sub")
  case None
  then show ?thesis using str_cut_None [OF None] by (simp add: str_contains_def)
next
  case (Some p)
  then have "s = fst p @ sub @ snd p" by (intro str_cut_Some) simp
  with Some show ?thesis unfolding str_contains_def by blast
qed

text \<open>\<open>strings.Count\<close> for a non-empty separator (non-overlapping occurrences).\<close>

function str_count :: "string \<Rightarrow> string \<Rightarrow> nat" where
  "str_count s sep =
     (if sep = [] then Suc (length s)
      else case str_cut s sep of None \<Rightarrow> 0 | Some (b, a) \<Rightarrow> Suc (str_count a sep))"
  by pat_completeness auto
termination
  by (relation "measure (\<lambda>(s, sep). length s)") (auto dest: str_cut_Some)

declare str_count.simps [simp del]

text \<open>\<open>strings.SplitSeq(s, c)\<close> for a one-byte separator; the empty string gives one part.\<close>

fun split_on :: "char \<Rightarrow> string \<Rightarrow> string list" where
  "split_on c [] = [[]]"
| "split_on c (x # xs) =
     (if x = c then [] # split_on c xs
      else case split_on c xs of [] \<Rightarrow> [[x]] | p # ps \<Rightarrow> (x # p) # ps)"

fun join_with :: "string \<Rightarrow> string list \<Rightarrow> string" where
  "join_with sep [] = []"
| "join_with sep [x] = x"
| "join_with sep (x # y # zs) = x @ sep @ join_with sep (y # zs)"

lemma split_on_not_Nil [simp]: "split_on c s \<noteq> []"
  by (induction s) (auto split: list.splits)

lemma join_split: "join_with [c] (split_on c s) = s"
proof (induction s)
  case Nil
  show ?case by simp
next
  case (Cons x xs)
  obtain p ps where s: "split_on c xs = p # ps"
    using split_on_not_Nil by (metis list.exhaust)
  with Cons show ?case by (cases ps) auto
qed

lemma split_on_no_sep: "p \<in> set (split_on c s) \<Longrightarrow> c \<notin> set p"
  by (induction s arbitrary: p) (auto split: list.splits if_splits)

text \<open>\<open>strings.FieldsFunc\<close> for a separator given on bytes (all separators used are ASCII).\<close>

lemma field_shrinks:
  assumes "dropWhile sp s \<noteq> []"
  shows "length (dropWhile (\<lambda>c. \<not> sp c) (dropWhile sp s)) < length s"
proof -
  have "\<not> sp (hd (dropWhile sp s))" using assms by (rule hd_dropWhile)
  then have "length (dropWhile (\<lambda>c. \<not> sp c) (dropWhile sp s)) < length (dropWhile sp s)"
    using assms by (cases "dropWhile sp s") (auto simp: length_dropWhile_le less_Suc_eq_le)
  also have "\<dots> \<le> length s" by (rule length_dropWhile_le)
  finally show ?thesis .
qed

function fields_by :: "(char \<Rightarrow> bool) \<Rightarrow> string \<Rightarrow> string list" where
  "fields_by sp s =
     (let t = dropWhile sp s in
      if t = [] then []
      else takeWhile (\<lambda>c. \<not> sp c) t # fields_by sp (dropWhile (\<lambda>c. \<not> sp c) t))"
  by pat_completeness auto
termination
  by (relation "measure (\<lambda>(sp, s). length s)") (simp_all add: field_shrinks del: dropWhile_eq_Nil_conv)

declare fields_by.simps [simp del]

text \<open>The index of the last occurrence of a byte, \<open>strings.LastIndexByte\<close>.\<close>

fun last_index :: "char \<Rightarrow> string \<Rightarrow> nat option" where
  "last_index c [] = None"
| "last_index c (x # xs) =
     (case last_index c xs of
        Some i \<Rightarrow> Some (Suc i)
      | None \<Rightarrow> (if x = c then Some 0 else None))"

lemma last_index_None: "last_index c s = None \<longleftrightarrow> c \<notin> set s"
  by (induction s) (auto split: option.splits)

lemma last_index_Some:
  "last_index c s = Some i \<Longrightarrow> i < length s \<and> s ! i = c \<and> c \<notin> set (drop (Suc i) s)"
proof (induction s arbitrary: i)
  case Nil
  then show ?case by simp
next
  case (Cons x xs)
  show ?case
  proof (cases "last_index c xs")
    case None
    with Cons.prems show ?thesis by (auto simp: last_index_None split: if_splits)
  next
    case (Some j)
    with Cons show ?thesis by auto
  qed
qed

section \<open>Runes: UTF-8 decoding\<close>

text \<open>
  \<open>utf8.DecodeRuneInString\<close> at the head of a string: the rune and its width. An invalid
  sequence is the rune U+FFFD of width one. The ranges of the second byte are those of the
  package's accept table (overlong forms, surrogates and values past U+10FFFF rejected).
\<close>

definition cont_byte :: "nat \<Rightarrow> nat \<Rightarrow> char \<Rightarrow> bool" where
  "cont_byte lo hi c = (lo \<le> byte_at c \<and> byte_at c \<le> hi)"

definition second_range :: "nat \<Rightarrow> nat \<times> nat" where
  "second_range b =
     (if b = 0xE0 then (0xA0, 0xBF) else if b = 0xED then (0x80, 0x9F)
      else if b = 0xF0 then (0x90, 0xBF) else if b = 0xF4 then (0x80, 0x8F)
      else (0x80, 0xBF))"

definition low6 :: "char \<Rightarrow> nat" where
  "low6 c = byte_at c mod 64"

fun decode_rune :: "string \<Rightarrow> (nat \<times> nat) option" where
  "decode_rune [] = None"
| "decode_rune (c # cs) =
     (let b = byte_at c; (lo, hi) = second_range b; bad = Some (0xFFFD, 1) in
      if b < 0x80 then Some (b, 1)
      else if 0xC2 \<le> b \<and> b \<le> 0xDF then
        (case cs of
           c1 # _ \<Rightarrow> if cont_byte lo hi c1 then Some ((b mod 32) * 64 + low6 c1, 2) else bad
         | _ \<Rightarrow> bad)
      else if 0xE0 \<le> b \<and> b \<le> 0xEF then
        (case cs of
           c1 # c2 # _ \<Rightarrow>
             if cont_byte lo hi c1 \<and> cont_byte 0x80 0xBF c2
             then Some (((b mod 16) * 64 + low6 c1) * 64 + low6 c2, 3) else bad
         | _ \<Rightarrow> bad)
      else if 0xF0 \<le> b \<and> b \<le> 0xF4 then
        (case cs of
           c1 # c2 # c3 # _ \<Rightarrow>
             if cont_byte lo hi c1 \<and> cont_byte 0x80 0xBF c2 \<and> cont_byte 0x80 0xBF c3
             then Some ((((b mod 8) * 64 + low6 c1) * 64 + low6 c2) * 64 + low6 c3, 4) else bad
         | _ \<Rightarrow> bad)
      else bad)"

lemma decode_rune_width: "decode_rune s = Some (r, w) \<Longrightarrow> 1 \<le> w"
  by (cases s) (auto simp: Let_def split: if_splits list.splits prod.splits)

text \<open>\<open>for _, r := range s\<close>: the runes of a string.\<close>

function runes :: "string \<Rightarrow> nat list" where
  "runes s = (case decode_rune s of None \<Rightarrow> [] | Some (r, w) \<Rightarrow> r # runes (drop w s))"
  by pat_completeness auto
termination
proof (relation "measure length", simp)
  fix s p r w
  assume "decode_rune s = Some p" "(r, w) = p"
  then have "decode_rune s = Some (r, w)" by simp
  moreover from this have "s \<noteq> []" by auto
  ultimately show "(drop w s, s) \<in> measure length"
    using decode_rune_width by (cases s) fastforce+
qed

declare runes.simps [simp del]

text \<open>
  \<open>strings.TrimSpace\<close>. The white space of \<open>unicode.IsSpace\<close> is a finite set, given here as
  the UTF-8 byte strings; a string starts (ends) with a space rune exactly when one of
  them is its prefix (suffix).
\<close>

definition space_seqs :: "string list" where
  "space_seqs =
     [[CHR 0x09], [CHR 0x0A], [CHR 0x0B], [CHR 0x0C], [CHR 0x0D], [CHR 0x20],
      [CHR 0xC2, CHR 0x85], [CHR 0xC2, CHR 0xA0], [CHR 0xE1, CHR 0x9A, CHR 0x80],
      [CHR 0xE2, CHR 0x80, CHR 0x80], [CHR 0xE2, CHR 0x80, CHR 0x81],
      [CHR 0xE2, CHR 0x80, CHR 0x82], [CHR 0xE2, CHR 0x80, CHR 0x83],
      [CHR 0xE2, CHR 0x80, CHR 0x84], [CHR 0xE2, CHR 0x80, CHR 0x85],
      [CHR 0xE2, CHR 0x80, CHR 0x86], [CHR 0xE2, CHR 0x80, CHR 0x87],
      [CHR 0xE2, CHR 0x80, CHR 0x88], [CHR 0xE2, CHR 0x80, CHR 0x89],
      [CHR 0xE2, CHR 0x80, CHR 0x8A], [CHR 0xE2, CHR 0x80, CHR 0xA8],
      [CHR 0xE2, CHR 0x80, CHR 0xA9], [CHR 0xE2, CHR 0x80, CHR 0xAF],
      [CHR 0xE2, CHR 0x81, CHR 0x9F], [CHR 0xE3, CHR 0x80, CHR 0x80]]"

text \<open>The code point set itself, \<open>unicode.IsSpace\<close>, and \<open>unicode.IsControl\<close>.\<close>

definition rune_is_space :: "nat \<Rightarrow> bool" where
  "rune_is_space r =
     (9 \<le> r \<and> r \<le> 13 \<or> r = 32 \<or> r = 0x85 \<or> r = 0xA0 \<or> r = 0x1680 \<or>
      0x2000 \<le> r \<and> r \<le> 0x200A \<or> r = 0x2028 \<or> r = 0x2029 \<or> r = 0x202F \<or>
      r = 0x205F \<or> r = 0x3000)"

definition rune_is_control :: "nat \<Rightarrow> bool" where
  "rune_is_control r = (r \<le> 0x1F \<or> 0x7F \<le> r \<and> r \<le> 0x9F)"

definition strip_one :: "string list \<Rightarrow> string \<Rightarrow> string option" where
  "strip_one seqs s =
     (case List.find (\<lambda>q. has_prefix s q) seqs of
        None \<Rightarrow> None | Some q \<Rightarrow> Some (drop (length q) s))"

fun strip_all :: "nat \<Rightarrow> string list \<Rightarrow> string \<Rightarrow> string" where
  "strip_all 0 seqs s = s"
| "strip_all (Suc n) seqs s =
     (case strip_one seqs s of None \<Rightarrow> s | Some t \<Rightarrow> strip_all n seqs t)"

definition trim_left :: "string \<Rightarrow> string" where
  "trim_left s = strip_all (length s) space_seqs s"

definition trim_right :: "string \<Rightarrow> string" where
  "trim_right s = rev (strip_all (length s) (map rev space_seqs) (rev s))"

definition trim_space :: "string \<Rightarrow> string" where
  "trim_space s = trim_right (trim_left s)"

lemma strip_one_length: "strip_one seqs s = Some t \<Longrightarrow> [] \<notin> set seqs \<Longrightarrow> length t < length s"
proof -
  assume "strip_one seqs s = Some t" and ne: "[] \<notin> set seqs"
  then obtain q where q: "List.find (\<lambda>q. has_prefix s q) seqs = Some q" and t: "t = drop (length q) s"
    by (auto simp: strip_one_def split: option.splits)
  from q have "has_prefix s q" "q \<in> set seqs" by (auto simp: find_Some_iff)
  with ne t show ?thesis by (cases q) (auto simp: has_prefix_iff)
qed

text \<open>The fuel, the length of the string, is enough: nothing is left to strip.\<close>

lemma strip_all_done:
  "[] \<notin> set seqs \<Longrightarrow> length s \<le> n \<Longrightarrow> strip_one seqs (strip_all n seqs s) = None"
proof (induction n arbitrary: s)
  case 0
  then show ?case
    by (cases "strip_one seqs s") (auto dest: strip_one_length)
next
  case (Suc n)
  then show ?case
    by (auto split: option.splits dest!: strip_one_length)
qed

lemma trim_left_no_space: "q \<in> set space_seqs \<Longrightarrow> \<not> has_prefix (trim_left s) q"
proof -
  assume q: "q \<in> set space_seqs"
  have "strip_one space_seqs (trim_left s) = None"
    unfolding trim_left_def by (rule strip_all_done) (auto simp: space_seqs_def)
  with q show ?thesis
    by (auto simp: strip_one_def find_None_iff split: option.splits)
qed

section \<open>Decimal numerals\<close>

text \<open>\<open>strconv.Itoa\<close>.\<close>

definition digit_char :: "nat \<Rightarrow> char" where
  "digit_char d = char_of (48 + d)"

function itoa_nat :: "nat \<Rightarrow> string" where
  "itoa_nat n = (if n < 10 then [digit_char n] else itoa_nat (n div 10) @ [digit_char (n mod 10)])"
  by pat_completeness auto
termination by (relation "measure id") auto

declare itoa_nat.simps [simp del]

definition itoa :: "int \<Rightarrow> string" where
  "itoa i = (if i < 0 then CHR ''-'' # itoa_nat (nat (- i)) else itoa_nat (nat i))"

lemma digit_char_inj: "d < 10 \<Longrightarrow> e < 10 \<Longrightarrow> digit_char d = digit_char e \<longleftrightarrow> d = e"
  by (auto simp: digit_char_def of_char_of
      dest!: arg_cong [where f = "of_char :: char \<Rightarrow> nat"])

lemma itoa_nat_not_Nil [simp]: "itoa_nat n \<noteq> []"
  by (subst itoa_nat.simps) simp

lemma digit_byte: "d < 10 \<Longrightarrow> byte_at (digit_char d) = 48 + d"
  by (simp add: digit_char_def)

lemma itoa_nat_digits: "c \<in> set (itoa_nat n) \<Longrightarrow> 48 \<le> byte_at c \<and> byte_at c \<le> 57"
proof (induction n rule: itoa_nat.induct)
  case (1 n)
  show ?case
  proof (cases "n < 10")
    case True
    with "1.prems" show ?thesis
      by (subst (asm) itoa_nat.simps) (simp add: digit_byte)
  next
    case False
    from "1.prems" False have "c \<in> set (itoa_nat (n div 10)) \<or> c = digit_char (n mod 10)"
      by (subst (asm) itoa_nat.simps) auto
    moreover have "byte_at (digit_char (n mod 10)) = 48 + n mod 10"
      by (rule digit_byte) simp
    moreover have "n mod 10 < 10" by simp
    ultimately show ?thesis using "1.IH" [OF False] by auto
  qed
qed

lemma itoa_nat_inj: "itoa_nat m = itoa_nat n \<Longrightarrow> m = n"
proof (induction m arbitrary: n rule: itoa_nat.induct)
  case (1 m)
  show ?case
  proof (cases "m < 10")
    case True
    then have "itoa_nat n = [digit_char m]"
      using "1.prems" by (metis itoa_nat.simps)
    then have "n < 10" "digit_char n = digit_char m"
      by (metis append_is_Nil_conv butlast_snoc butlast.simps(2) itoa_nat.simps itoa_nat_not_Nil list.inject)+
    with True show ?thesis by (simp add: digit_char_inj)
  next
    case False
    then have m: "itoa_nat m = itoa_nat (m div 10) @ [digit_char (m mod 10)]"
      by (subst itoa_nat.simps) simp
    then have ge: "\<not> n < 10"
      using "1.prems" by (metis append_is_Nil_conv butlast_snoc butlast.simps(2) itoa_nat.simps itoa_nat_not_Nil)
    then have "itoa_nat n = itoa_nat (n div 10) @ [digit_char (n mod 10)]"
      by (subst itoa_nat.simps) simp
    with m "1.prems" have "itoa_nat (m div 10) = itoa_nat (n div 10)"
      and d: "digit_char (m mod 10) = digit_char (n mod 10)" by auto
    with "1.IH" [OF False] have "m div 10 = n div 10" by blast
    moreover from d have "m mod 10 = n mod 10" by (simp add: digit_char_inj)
    ultimately show ?thesis by (metis div_mult_mod_eq)
  qed
qed

lemma minus_byte: "byte_at (CHR ''-'') = 45"
  by simp

lemma itoa_inj: "itoa i = itoa j \<Longrightarrow> i = j"
proof -
  assume e: "itoa i = itoa j"
  have hd_ne: "hd (itoa_nat n) \<noteq> CHR ''-''" for n
    using itoa_nat_digits [of "hd (itoa_nat n)" n] by auto
  show ?thesis
    using e hd_ne
    by (auto simp: itoa_def dest!: itoa_nat_inj split: if_splits)
      (metis list.sel(1))+
qed

lemma itoa_chars: "c \<in> set (itoa i) \<Longrightarrow> c = CHR ''-'' \<or> 48 \<le> byte_at c \<and> byte_at c \<le> 57"
  by (auto simp: itoa_def dest: itoa_nat_digits split: if_splits)

lemma itoa_no_colon [simp]: "CHR '':'' \<notin> set (itoa i)"
  using itoa_chars [of "CHR '':''" i] by auto

end
