(* ===== verification/Lint.thy ===== *)
theory Lint
  imports Go_Strings
begin

text \<open>
  The check metadata of \<open>lint/lint.go\<close>. The \<open>analysis.Analyzer\<close> a check wraps is a
  third-party struct; the model keeps its name and the identities of its fact types, the
  two fields the runner reads, and running it is a parameter of the runner.
\<close>

type_synonym level = int

definition LevelIdiomatic :: level where "LevelIdiomatic = 1"
definition LevelStructured :: level where "LevelStructured = 2"
definition LevelAggressive :: level where "LevelAggressive = 3"

lemmas level_defs [simp] = LevelIdiomatic_def LevelStructured_def LevelAggressive_def

definition level_string :: "level \<Rightarrow> string" where
  "level_string l =
     (if l = LevelIdiomatic then ''L1'' else if l = LevelStructured then ''L2''
      else if l = LevelAggressive then ''L3'' else ''L?'')"

record documentation =
  doc_title :: string
  doc_text :: string
  doc_before :: string
  doc_after :: string
  doc_measured_win :: string

record analyzer =
  an_name :: string
  an_fact_types :: "string list"

record check =
  chk_analyzer :: analyzer
  chk_id :: string
  chk_category :: string
  chk_slug :: string
  chk_level :: level
  chk_auto_fix :: bool
  chk_needs_config :: bool
  chk_vocab :: "string list"
  chk_doc :: documentation

text \<open>A check as the tests of the repository build one: an identifier, a level, no vocabulary.\<close>

definition plain_check :: "string \<Rightarrow> level \<Rightarrow> check" where
  "plain_check i l =
     \<lparr>chk_analyzer = \<lparr>an_name = i, an_fact_types = []\<rparr>, chk_id = i, chk_category = ''allocation'',
      chk_slug = ''x'', chk_level = l, chk_auto_fix = True, chk_needs_config = False,
      chk_vocab = [], chk_doc = \<lparr>doc_title = ''t'', doc_text = '''', doc_before = '''',
      doc_after = '''', doc_measured_win = ''''\<rparr>\<rparr>"

lemma level_string_known:
  "level_string l \<noteq> ''L?'' \<longleftrightarrow> LevelIdiomatic \<le> l \<and> l \<le> LevelAggressive"
  by (auto simp: level_string_def)

end
