(* ===== verification/Select.thy ===== *)
theory Select
  imports Lint
begin

text \<open>
  Check selection: \<open>matchCheck\<close> and \<open>selectChecks\<close> of \<open>internal/runner/runner.go\<close>.
  The three maps \<open>include\<close>,
  \<open>exclude\<close> and \<open>explicit\<close> are sets of identifiers.
\<close>

definition match_check :: "string \<Rightarrow> string \<Rightarrow> bool" where
  "match_check i pat =
     (if pat = ''all'' then True
      else case cut_suffix pat ''*'' of
             Some pre \<Rightarrow> has_prefix i pre
           | None \<Rightarrow> i = pat)"

record selection =
  sel_include :: "string set"
  sel_exclude :: "string set"
  sel_explicit :: "string set"

definition empty_selection :: selection where
  "empty_selection = \<lparr>sel_include = {}, sel_exclude = {}, sel_explicit = {}\<rparr>"

text \<open>One token of the selector: the body of the loop over \<open>strings.SplitSeq(sel, ",")\<close>.\<close>

definition select_token ::
    "check list \<Rightarrow> string \<Rightarrow> selection \<Rightarrow> string + selection" where
  "select_token all_checks raw st =
     (let tok = trim_space raw in
      if tok = [] then Inr st
      else
        let neg = has_prefix tok ''-'';
            pat = trim_prefix tok ''-'';
            hits = filter (\<lambda>c. match_check (chk_id c) pat) all_checks;
            ids = set (map chk_id hits)
        in if hits = [] \<and> pat \<noteq> ''all'' then Inl tok
           else if neg then Inr (st\<lparr>sel_exclude := sel_exclude st \<union> ids\<rparr>)
           else Inr (st\<lparr>sel_include := sel_include st \<union> ids,
                       sel_explicit := sel_explicit st \<union> (ids \<inter> {pat})\<rparr>))"

fun select_tokens :: "check list \<Rightarrow> string list \<Rightarrow> selection \<Rightarrow> string + selection" where
  "select_tokens all_checks [] st = Inr st"
| "select_tokens all_checks (t # ts) st =
     (case select_token all_checks t st of
        Inl e \<Rightarrow> Inl e
      | Inr st' \<Rightarrow> select_tokens all_checks ts st')"

definition select_keeps :: "selection \<Rightarrow> level \<Rightarrow> check \<Rightarrow> bool" where
  "select_keeps st max_level c =
     (\<not> (sel_include st \<noteq> {} \<and> chk_id c \<notin> sel_include st) \<and>
      \<not> (chk_id c \<in> sel_exclude st \<or> chk_level c > max_level))"

definition select_checks ::
    "check list \<Rightarrow> string \<Rightarrow> level \<Rightarrow> string + check list \<times> string set" where
  "select_checks all_checks sel max_level =
     (let sel' = (if sel = [] then ''all'' else sel) in
      case select_tokens all_checks (split_on (CHR '','') sel') empty_selection of
        Inl tok \<Rightarrow> Inl tok
      | Inr st \<Rightarrow> Inr (filter (select_keeps st max_level) all_checks, sel_explicit st))"

section \<open>The declarative reading of a selector\<close>

text \<open>
  A selector is read token by token: a token is positive or (with a leading minus)
  negative, and its pattern names checks.
\<close>

definition sel_toks :: "string \<Rightarrow> string list" where
  "sel_toks sel = filter (\<lambda>t. t \<noteq> [])
     (map trim_space (split_on (CHR '','') (if sel = [] then ''all'' else sel)))"

definition positive :: "string list \<Rightarrow> string list" where
  "positive ts = filter (\<lambda>t. \<not> has_prefix t ''-'') ts"

definition negative :: "string list \<Rightarrow> string list" where
  "negative ts = map (\<lambda>t. drop 1 t) (filter (\<lambda>t. has_prefix t ''-'') ts)"

definition pattern_of :: "string \<Rightarrow> string" where
  "pattern_of t = (if has_prefix t ''-'' then drop 1 t else t)"

definition unmatched :: "check list \<Rightarrow> string \<Rightarrow> bool" where
  "unmatched cs t =
     (pattern_of t \<noteq> ''all'' \<and> (\<forall>c\<in>set cs. \<not> match_check (chk_id c) (pattern_of t)))"

definition hits :: "check list \<Rightarrow> string \<Rightarrow> string set" where
  "hits cs p = {chk_id c | c. c \<in> set cs \<and> match_check (chk_id c) p}"

definition named_by :: "check list \<Rightarrow> string list \<Rightarrow> string set" where
  "named_by cs pats = {chk_id c | c. c \<in> set cs \<and> (\<exists>p\<in>set pats. match_check (chk_id c) p)}"

lemma trim_prefix_minus: "trim_prefix t ''-'' = pattern_of t"
  by (auto simp: trim_prefix_def pattern_of_def)

lemma select_token_blank: "trim_space raw = [] \<Longrightarrow> select_token cs raw st = Inr st"
  by (simp add: select_token_def)

lemma select_token_error:
  "trim_space raw \<noteq> [] \<Longrightarrow> unmatched cs (trim_space raw) \<Longrightarrow>
     select_token cs raw st = Inl (trim_space raw)"
  by (auto simp: select_token_def unmatched_def trim_prefix_minus Let_def filter_empty_conv)

lemma select_token_ok:
  assumes "trim_space raw \<noteq> []" and "\<not> unmatched cs (trim_space raw)"
  shows "select_token cs raw st = Inr
    (let t = trim_space raw; ids = hits cs (pattern_of t) in
     if has_prefix t ''-'' then st\<lparr>sel_exclude := sel_exclude st \<union> ids\<rparr>
     else st\<lparr>sel_include := sel_include st \<union> ids,
             sel_explicit := sel_explicit st \<union> (ids \<inter> {t})\<rparr>)"
proof -
  let ?t = "trim_space raw"
  have ids: "set (map chk_id (filter (\<lambda>c. match_check (chk_id c) (pattern_of ?t)) cs))
      = hits cs (pattern_of ?t)"
    by (auto simp: hits_def)
  have m: "\<not> (filter (\<lambda>c. match_check (chk_id c) (pattern_of ?t)) cs = [] \<and> pattern_of ?t \<noteq> ''all'')"
    using assms(2) by (auto simp: unmatched_def filter_empty_conv)
  have pat: "\<not> has_prefix ?t ''-'' \<Longrightarrow> pattern_of ?t = ?t"
    by (simp add: pattern_of_def)
  show ?thesis
    using assms(1) m pat unfolding select_token_def trim_prefix_minus Let_def ids by auto
qed

lemma named_by_Cons [simp]: "named_by cs (p # ps) = hits cs p \<union> named_by cs ps"
  by (auto simp: named_by_def hits_def)

lemma named_by_Nil [simp]: "named_by cs [] = {}"
  by (simp add: named_by_def)

definition explicit_of :: "check list \<Rightarrow> string list \<Rightarrow> string set" where
  "explicit_of cs pos = {chk_id c | c. c \<in> set cs \<and> chk_id c \<in> set pos}"

lemma match_check_self [simp]: "match_check i i"
proof (cases "cut_suffix i ''*''")
  case None
  then show ?thesis by (simp add: match_check_def)
next
  case (Some pre)
  then have "i = pre @ ''*''" by (auto simp: cut_suffix_def has_suffix_iff split: if_splits)
  with Some show ?thesis by (simp add: match_check_def)
qed

lemma explicit_of_Cons [simp]:
  "explicit_of cs (t # ts) = (hits cs t \<inter> {t}) \<union> explicit_of cs ts"
  by (auto simp: explicit_of_def hits_def)

lemma select_tokens_spec:
  "select_tokens cs raws st =
     (let ts = filter (\<lambda>t. t \<noteq> []) (map trim_space raws) in
      case List.find (unmatched cs) ts of
        Some t \<Rightarrow> Inl t
      | None \<Rightarrow> Inr \<lparr>sel_include = sel_include st \<union> named_by cs (positive ts),
                   sel_exclude = sel_exclude st \<union> named_by cs (negative ts),
                   sel_explicit = sel_explicit st \<union> explicit_of cs (positive ts)\<rparr>)"
proof (induction raws arbitrary: st)
  case Nil
  show ?case by (simp add: positive_def negative_def explicit_of_def)
next
  case (Cons raw raws)
  let ?t = "trim_space raw"
  consider (blank) "?t = []" | (bad) "?t \<noteq> []" "unmatched cs ?t"
    | (neg) "?t \<noteq> []" "\<not> unmatched cs ?t" "has_prefix ?t ''-''"
    | (pos) "?t \<noteq> []" "\<not> unmatched cs ?t" "\<not> has_prefix ?t ''-''" by blast
  then show ?case
  proof cases
    case blank
    with Cons.IH show ?thesis by (simp add: select_token_blank)
  next
    case bad
    then show ?thesis by (simp add: select_token_error)
  next
    case neg
    then show ?thesis
      by (simp add: Cons.IH select_token_ok Let_def positive_def negative_def pattern_of_def
          Un_assoc split: option.split)
  next
    case pos
    then show ?thesis
      by (simp add: Cons.IH select_token_ok Let_def positive_def negative_def pattern_of_def
          Un_assoc split: option.split)
  qed
qed

text \<open>
  C9: \<open>selectChecks\<close> reports exactly the declarative selection. If some token matches no
  check (and is not \<open>all\<close>) the first such token is the error. Otherwise the result is
  the registry in order, restricted to the checks whose level is at most the maximum,
  which no negative token matches and which, if the positive tokens match anything at all,
  some positive token matches; the explicit set is the checks named by their exact
  identifier in a positive token.
\<close>

theorem select_checks_spec:
  "select_checks cs sel lvl =
     (let ts = sel_toks sel; pos = positive ts; neg = negative ts in
      case List.find (unmatched cs) ts of
        Some t \<Rightarrow> Inl t
      | None \<Rightarrow> Inr (filter (\<lambda>c. (named_by cs pos = {} \<or> chk_id c \<in> named_by cs pos) \<and>
                              chk_id c \<notin> named_by cs neg \<and> chk_level c \<le> lvl) cs,
                   explicit_of cs pos))"
proof -
  have keeps: "select_keeps \<lparr>sel_include = A, sel_exclude = B, sel_explicit = E\<rparr> lvl =
      (\<lambda>c. (A = {} \<or> chk_id c \<in> A) \<and> chk_id c \<notin> B \<and> chk_level c \<le> lvl)" for A B E
    by (auto simp: select_keeps_def)
  show ?thesis
    unfolding select_checks_def select_tokens_spec sel_toks_def
    by (simp add: Let_def empty_selection_def keeps split: option.split)
qed

end
