(* ===== verification/Findings.thy ===== *)
theory Findings
  imports Lint
begin

text \<open>
  Findings and the passes of \<open>Run\<close> (\<open>internal/runner/runner.go\<close>) that order and filter
  them: the report order, \<open>dedup\<close>, \<open>filterIgnored\<close>, \<open>filterGenerated\<close> and
  \<open>filterExcluded\<close>. Positions are \<open>go/token\<close> positions; a file set is the list of its
  files, each with a base and a size.
\<close>

section \<open>Positions, edits and findings\<close>

record position =
  pos_filename :: string
  pos_offset :: int
  pos_line :: int
  pos_column :: int

record token_file =
  tf_name :: string
  tf_base :: int
  tf_size :: int

type_synonym file_set = "token_file list"

text \<open>
  \<open>FileSet.File(p)\<close>: the file whose range holds the position, none for the zero
  position; \<open>File.Offset(p)\<close> clamps to the file.
\<close>

definition fset_file :: "file_set \<Rightarrow> int \<Rightarrow> token_file option" where
  "fset_file fset p =
     (if p = 0 then None
      else List.find (\<lambda>f. tf_base f \<le> p \<and> p \<le> tf_base f + tf_size f) fset)"

definition file_offset :: "token_file \<Rightarrow> int \<Rightarrow> int" where
  "file_offset f p =
     (if p - tf_base f < 0 then 0
      else if p - tf_base f > tf_size f then tf_size f
      else p - tf_base f)"

record text_edit =
  te_pos :: int
  te_end :: int
  te_new_text :: string

record suggested_fix =
  fix_message :: string
  fix_edits :: "text_edit list"

record finding =
  fnd_check :: check
  fnd_pos :: position
  fnd_end :: position
  fnd_message :: string
  fnd_fixes :: "suggested_fix list"
  fnd_fset :: file_set

lemma file_offset_range: "0 \<le> tf_size f \<Longrightarrow> 0 \<le> file_offset f p \<and> file_offset f p \<le> tf_size f"
  by (simp add: file_offset_def)

section \<open>Report order\<close>

text \<open>
  The comparison \<open>Run\<close> gives to \<open>slices.SortFunc\<close>: file name, line, column, check ID.
  Lines and columns are far below \<open>2 ^ 62\<close>, so the subtractions do not wrap.
\<close>

definition finding_cmp :: "finding go_cmp" where
  "finding_cmp =
     then_cmp (\<lambda>a b. str_compare (pos_filename (fnd_pos a)) (pos_filename (fnd_pos b)))
     (then_cmp (\<lambda>a b. pos_line (fnd_pos a) - pos_line (fnd_pos b))
     (then_cmp (\<lambda>a b. pos_column (fnd_pos a) - pos_column (fnd_pos b))
       (\<lambda>a b. str_compare (chk_id (fnd_check a)) (chk_id (fnd_check b)))))"

text \<open>The site of a finding: what the comparison and \<open>dedup\<close> look at.\<close>

definition site :: "finding \<Rightarrow> string \<times> int \<times> int \<times> string" where
  "site f = (pos_filename (fnd_pos f), pos_line (fnd_pos f), pos_column (fnd_pos f),
     chk_id (fnd_check f))"

lemma cmp_laws_finding: "cmp_laws finding_cmp"
  unfolding finding_cmp_def by (intro cmp_laws_then cmp_laws_str cmp_laws_diff)

lemma finding_cmp_zero: "finding_cmp a b = 0 \<longleftrightarrow> site a = site b"
  by (auto simp: finding_cmp_def then_cmp_def site_def str_compare_eq)

interpretation report: sorter "stable_sort finding_cmp" finding_cmp
  by unfold_locales (simp_all add: sorted_stable_sort cmp_laws_total cmp_laws_finding)

section \<open>Duplicates\<close>

definition find_key :: "finding \<Rightarrow> string" where
  "find_key f = pos_filename (fnd_pos f) @ '':'' @ itoa (pos_line (fnd_pos f)) @ '':'' @
     itoa (pos_column (fnd_pos f)) @ '':'' @ chk_id (fnd_check f)"

definition dedup :: "finding list \<Rightarrow> finding list" where
  "dedup fs = keep_first find_key {} fs"

text \<open>
  The key joins its parts with colons. It determines the site as long as check IDs hold no
  colon (they are \<open>PS\<close> and four digits): the last three colons delimit the ID, the column
  and the line, whatever the file name is.
\<close>

lemma split_last_sep:
  "a @ c # b = a' @ c # b' \<Longrightarrow> c \<notin> set b \<Longrightarrow> c \<notin> set b' \<Longrightarrow> a = a' \<and> b = b'"
proof (induction a arbitrary: a')
  case Nil
  then show ?case by (cases a') auto
next
  case (Cons x xs)
  then show ?case by (cases a') auto
qed

definition plain_id :: "finding \<Rightarrow> bool" where
  "plain_id f = (CHR '':'' \<notin> set (chk_id (fnd_check f)))"

lemma find_key_site:
  assumes "plain_id f" and "plain_id g"
  shows "find_key f = find_key g \<longleftrightarrow> site f = site g"
proof
  assume e: "find_key f = find_key g"
  let ?n = "\<lambda>f. pos_filename (fnd_pos f)" and ?l = "\<lambda>f. itoa (pos_line (fnd_pos f))"
  let ?c = "\<lambda>f. itoa (pos_column (fnd_pos f))" and ?i = "\<lambda>f. chk_id (fnd_check f)"
  have shape: "find_key f = (?n f @ CHR '':'' # ?l f @ CHR '':'' # ?c f) @ CHR '':'' # ?i f" for f
    by (simp add: find_key_def)
  have "?n f @ CHR '':'' # ?l f @ CHR '':'' # ?c f = ?n g @ CHR '':'' # ?l g @ CHR '':'' # ?c g \<and> ?i f = ?i g"
    using e assms unfolding shape plain_id_def by (rule split_last_sep)
  moreover from this have "?n f @ CHR '':'' # ?l f = ?n g @ CHR '':'' # ?l g \<and> ?c f = ?c g"
    using split_last_sep [of "?n f @ CHR '':'' # ?l f" "CHR '':''" "?c f"
        "?n g @ CHR '':'' # ?l g" "?c g"] by simp
  moreover from this have "?n f = ?n g \<and> ?l f = ?l g"
    using split_last_sep [of "?n f" "CHR '':''" "?l f" "?n g" "?l g"] by simp
  ultimately show "site f = site g"
    by (auto simp: site_def dest: itoa_inj)
next
  assume "site f = site g"
  then show "find_key f = find_key g" by (simp add: site_def find_key_def)
qed

lemma keep_first_cong:
  assumes "\<And>x y. x \<in> set xs \<Longrightarrow> y \<in> set xs \<union> ys \<Longrightarrow> (k x = k y) = (k' x = k' y)"
  shows "keep_first k (k ` ys) xs = keep_first k' (k' ` ys) xs"
  using assms
proof (induction xs arbitrary: ys)
  case Nil
  show ?case by simp
next
  case (Cons x xs)
  have "(k x \<in> k ` ys) = (k' x \<in> k' ` ys)"
    using Cons.prems [of x] by (auto simp: image_iff)
  moreover have "keep_first k (k ` ys) xs = keep_first k' (k' ` ys) xs"
    by (rule Cons.IH) (use Cons.prems in auto)
  moreover have "keep_first k (k ` insert x ys) xs = keep_first k' (k' ` insert x ys) xs"
    by (rule Cons.IH) (use Cons.prems in auto)
  ultimately show ?case by simp
qed

lemma dedup_site:
  assumes "\<forall>f\<in>set fs. plain_id f"
  shows "dedup fs = keep_first site {} fs"
  using keep_first_cong [of fs "{}" find_key site] find_key_site assms
  by (auto simp: dedup_def)

section \<open>Suppression directives\<close>

text \<open>
  The files of a run: \<open>os.ReadFile\<close> as a partial map from paths to contents.
\<close>

type_synonym files = "string \<Rightarrow> string option"

definition file_lines :: "files \<Rightarrow> string \<Rightarrow> string list" where
  "file_lines rd path =
     (case rd path of None \<Rightarrow> [] | Some b \<Rightarrow> split_on (CHR 0x0A) b)"

definition directive :: string where
  "directive = ''//perfscan:ignore''"

definition token_sep :: "char \<Rightarrow> bool" where
  "token_sep c = (c = CHR '','' \<or> c = CHR '' '' \<or> c = CHR 0x09)"

text \<open>The loop over the tokens of a directive: it stops at the first token that is no ID.\<close>

fun names_check :: "string \<Rightarrow> string list \<Rightarrow> bool" where
  "names_check i [] = False"
| "names_check i (t # ts) =
     (if t = i then True
      else if \<not> has_prefix t ''PS'' then False
      else names_check i ts)"

definition line_suppresses :: "string \<Rightarrow> string \<Rightarrow> bool" where
  "line_suppresses txt i =
     (case str_cut txt directive of
        None \<Rightarrow> False
      | Some (_, after) \<Rightarrow>
          let rest = trim_space after in
          if rest = [] then True else names_check i (fields_by token_sep rest))"

definition covered :: "files \<Rightarrow> finding \<Rightarrow> int \<Rightarrow> bool" where
  "covered rd f line =
     (let l = file_lines rd (pos_filename (fnd_pos f)) in
      if line < 1 \<or> line > int (length l) then False
      else line_suppresses (l ! nat (line - 1)) (chk_id (fnd_check f)))"

definition filter_ignored :: "files \<Rightarrow> finding list \<Rightarrow> finding list" where
  "filter_ignored rd fs =
     filter (\<lambda>f. \<not> (covered rd f (pos_line (fnd_pos f)) \<or>
                    covered rd f (pos_line (fnd_pos f) - 1))) fs"

lemma names_check_iff:
  "names_check i ts \<longleftrightarrow>
     (\<exists>us vs. ts = us @ i # vs \<and> (\<forall>u\<in>set us. u \<noteq> i \<and> has_prefix u ''PS''))"
proof (induction ts)
  case Nil
  show ?case by simp
next
  case (Cons t ts)
  let ?P = "\<lambda>ts. \<exists>us vs. ts = us @ i # vs \<and> (\<forall>u\<in>set us. u \<noteq> i \<and> has_prefix u ''PS'')"
  consider (eq) "t = i" | (stop) "t \<noteq> i" "\<not> has_prefix t ''PS''"
    | (more) "t \<noteq> i" "has_prefix t ''PS''" by blast
  then show ?case
  proof cases
    case eq
    then have "t # ts = [] @ i # ts" by simp
    then have "?P (t # ts)" by (metis empty_iff list.set(1))
    with eq show ?thesis by simp
  next
    case stop
    then show ?thesis by (auto simp: Cons_eq_append_conv)
  next
    case more
    have "?P (t # ts) \<longleftrightarrow> ?P ts"
    proof
      assume "?P (t # ts)"
      with more show "?P ts" by (auto simp: Cons_eq_append_conv) blast
    next
      assume "?P ts"
      then obtain us vs where "ts = us @ i # vs" "\<forall>u\<in>set us. u \<noteq> i \<and> has_prefix u ''PS''" by blast
      with more show "?P (t # ts)" by (intro exI [of _ "t # us"] exI [of _ vs]) simp
    qed
    with more Cons show ?thesis by simp
  qed
qed

section \<open>Generated and excluded files\<close>

text \<open>
  \<open>filterGenerated\<close> asks \<open>go/parser\<close> and \<open>ast.IsGenerated\<close> whether a file is
  generated; the answer (false when the file does not parse) is the parameter \<open>gen\<close>.
  \<open>filepath.ToSlash\<close> is the identity on the Unix paths modelled here.
\<close>

definition filter_generated :: "(string \<Rightarrow> bool) \<Rightarrow> finding list \<Rightarrow> bool \<Rightarrow> finding list" where
  "filter_generated gen fs incl =
     (if incl then fs else filter (\<lambda>f. \<not> gen (pos_filename (fnd_pos f))) fs)"

definition to_slash :: "string \<Rightarrow> string" where
  "to_slash p = p"

definition path_excluded :: "string \<Rightarrow> string list \<Rightarrow> bool" where
  "path_excluded p excludes =
     (if excludes = [] then False
      else list_ex (\<lambda>e. str_contains (to_slash p) e) excludes)"

definition filter_excluded :: "finding list \<Rightarrow> string list \<Rightarrow> finding list" where
  "filter_excluded fs excludes =
     (if excludes = [] then fs
      else filter (\<lambda>f. \<not> path_excluded (pos_filename (fnd_pos f)) excludes) fs)"

section \<open>The contract of a pass\<close>

text \<open>
  Every pass drops findings and does nothing else: it is the filter by a predicate on one
  finding. What \<open>Run\<close> relies on follows once from that: order is kept, passes commute,
  a second application changes nothing, and a finding's fate does not depend on the
  others.
\<close>

locale finding_pass =
  fixes pass :: "finding list \<Rightarrow> finding list" and keep :: "finding \<Rightarrow> bool"
  assumes pass_filter: "pass fs = filter keep fs"
begin

lemma pass_subseq: "subseq (pass fs) fs"
  by (simp add: pass_filter subseq_filter_left)

lemma pass_idem: "pass (pass fs) = pass fs"
  by (simp add: pass_filter)

lemma pass_append: "pass (fs @ gs) = pass fs @ pass gs"
  by (simp add: pass_filter)

lemma pass_in: "f \<in> set (pass fs) \<longleftrightarrow> f \<in> set fs \<and> keep f"
  by (auto simp: pass_filter)

lemma pass_sorted: "sorted_by cmp fs \<Longrightarrow> sorted_by cmp (pass fs)"
  by (simp add: pass_filter sorted_by_def sorted_wrt_filter)

lemma pass_length: "length (pass fs) \<le> length fs"
  by (simp add: pass_filter)

lemma pass_dropped: "length fs - length (pass fs) = length (filter (\<lambda>f. \<not> keep f) fs)"
  using length_filter_partition [of keep fs] by (simp add: pass_filter)

lemma pass_commute:
  assumes "finding_pass pass2 keep2"
  shows "pass (pass2 fs) = pass2 (pass fs)"
  by (simp add: pass_filter finding_pass.pass_filter [OF assms] conj_commute)

end

interpretation ignored: finding_pass "filter_ignored rd"
    "\<lambda>f. \<not> (covered rd f (pos_line (fnd_pos f)) \<or> covered rd f (pos_line (fnd_pos f) - 1))" for rd
  by unfold_locales (simp add: filter_ignored_def)

interpretation generated: finding_pass "\<lambda>fs. filter_generated gen fs incl"
    "\<lambda>f. incl \<or> \<not> gen (pos_filename (fnd_pos f))" for gen incl
  by unfold_locales (simp add: filter_generated_def)

interpretation excluded: finding_pass "\<lambda>fs. filter_excluded fs excludes"
    "\<lambda>f. \<not> path_excluded (pos_filename (fnd_pos f)) excludes" for excludes
  by unfold_locales (simp add: filter_excluded_def path_excluded_def)

end
