(* ===== verification/Go_Path.thy ===== *)
theory Go_Path
  imports Go_Strings
begin

text \<open>
  The lexical part of Go's \<open>path/filepath\<close> for Unix paths (separator \<open>/\<close>, no volume
  names): \<open>IsAbs\<close>, \<open>Clean\<close>, \<open>Join\<close>, \<open>Dir\<close>, \<open>Base\<close>, \<open>Rel\<close>, and
  \<open>Abs\<close> over a given working directory.
\<close>

definition sep :: char where "sep = CHR ''/''"

definition comps :: "string \<Rightarrow> string list" where
  "comps p = filter (\<lambda>c. c \<noteq> []) (split_on sep p)"

definition is_abs :: "string \<Rightarrow> bool" where
  "is_abs p = has_prefix p [sep]"

text \<open>One element of the scan of \<open>Clean\<close>.\<close>

definition clean_step :: "bool \<Rightarrow> string list \<Rightarrow> string \<Rightarrow> string list" where
  "clean_step rooted out c =
     (if c = ''.'' then out
      else if c = ''..'' then
        (if out \<noteq> [] \<and> last out \<noteq> ''..'' then butlast out
         else if rooted then out else out @ [''..''])
      else out @ [c])"

definition clean_comps :: "bool \<Rightarrow> string list \<Rightarrow> string list" where
  "clean_comps rooted cs = foldl (clean_step rooted) [] cs"

definition path_clean :: "string \<Rightarrow> string" where
  "path_clean p =
     (if p = [] then ''.''
      else let cs = clean_comps (is_abs p) (comps p) in
           if is_abs p then sep # join_with [sep] cs
           else if cs = [] then ''.'' else join_with [sep] cs)"

definition path_join :: "string list \<Rightarrow> string" where
  "path_join es =
     (let ne = filter (\<lambda>e. e \<noteq> []) es in
      if ne = [] then [] else path_clean (join_with [sep] ne))"

definition path_dir :: "string \<Rightarrow> string" where
  "path_dir p =
     (case last_index sep p of None \<Rightarrow> path_clean [] | Some i \<Rightarrow> path_clean (take (Suc i) p))"

definition path_base :: "string \<Rightarrow> string" where
  "path_base p =
     (if p = [] then ''.''
      else let cs = comps p in if cs = [] then [sep] else last cs)"

fun drop_common :: "string list \<Rightarrow> string list \<Rightarrow> string list \<times> string list" where
  "drop_common (b # bs) (t # ts) = (if b = t then drop_common bs ts else (b # bs, t # ts))"
| "drop_common bs ts = (bs, ts)"

definition path_rel :: "string \<Rightarrow> string \<Rightarrow> string option" where
  "path_rel basepath targpath =
     (let b = path_clean basepath; t = path_clean targpath in
      if t = b then Some ''.''
      else let b' = (if b = ''.'' then [] else b) in
        if is_abs b' \<noteq> is_abs t then None
        else let (bs, ts) = drop_common (comps b') (comps t) in
          if bs \<noteq> [] \<and> hd bs = ''..'' then None
          else Some (join_with [sep] (replicate (length bs) ''..'' @ ts)))"

text \<open>\<open>Abs\<close> with \<open>os.Getwd\<close> as an optional value: none when it fails.\<close>

definition path_abs :: "string option \<Rightarrow> string \<Rightarrow> string option" where
  "path_abs wd p =
     (if is_abs p then Some (path_clean p) else map_option (\<lambda>w. path_join [w, p]) wd)"

section \<open>Components of cleaned paths\<close>

definition good_comp :: "string \<Rightarrow> bool" where
  "good_comp c = (c \<noteq> [] \<and> sep \<notin> set c \<and> c \<noteq> ''.'' \<and> c \<noteq> ''..'')"

lemma comps_no_sep: "c \<in> set (comps p) \<Longrightarrow> c \<noteq> [] \<and> sep \<notin> set c"
  by (auto simp: comps_def dest: split_on_no_sep)

lemma split_on_append:
  "sep \<notin> set c \<Longrightarrow> split_on sep (c @ sep # r) = c # split_on sep r"
  by (induction c) auto

lemma split_on_single: "sep \<notin> set c \<Longrightarrow> split_on sep c = [c]"
  by (induction c) auto

lemma comps_join:
  "\<forall>c\<in>set cs. c \<noteq> [] \<and> sep \<notin> set c \<Longrightarrow> comps (join_with [sep] cs) = cs"
proof (induction cs)
  case Nil
  show ?case by (simp add: comps_def)
next
  case (Cons x xs)
  then show ?case
    by (cases xs) (simp_all add: comps_def split_on_single split_on_append)
qed

lemma comps_sep [simp]: "comps (sep # p) = comps p"
  by (simp add: comps_def)

lemma clean_step_rooted_good:
  assumes "d \<noteq> [] \<and> sep \<notin> set d" and "\<forall>c\<in>set out. good_comp c"
    and "c \<in> set (clean_step True out d)"
  shows "good_comp c"
proof -
  from assms(3) have "c \<in> set out \<or> c = d \<and> d \<noteq> ''.'' \<and> d \<noteq> ''..''"
    by (auto simp: clean_step_def dest: in_set_butlastD split: if_splits)
  with assms(1,2) show ?thesis by (auto simp: good_comp_def)
qed

lemma clean_rooted_good:
  "\<forall>c\<in>set cs. c \<noteq> [] \<and> sep \<notin> set c \<Longrightarrow> \<forall>c\<in>set out. good_comp c \<Longrightarrow>
     c \<in> set (foldl (clean_step True) out cs) \<Longrightarrow> good_comp c"
proof (induction cs arbitrary: out)
  case Nil
  then show ?case by simp
next
  case (Cons d ds)
  have "\<forall>c\<in>set (clean_step True out d). good_comp c"
    using Cons.prems(1,2) clean_step_rooted_good by (metis list.set_intros(1))
  with Cons.IH [of "clean_step True out d"] Cons.prems show ?case by simp
qed

lemma clean_comps_good: "c \<in> set (clean_comps True (comps p)) \<Longrightarrow> good_comp c"
  unfolding clean_comps_def by (rule clean_rooted_good [of "comps p" "[]"]) (auto dest: comps_no_sep)

definition abs_comps :: "string \<Rightarrow> string list" where
  "abs_comps p = clean_comps True (comps p)"

lemma is_abs_not_Nil: "is_abs p \<Longrightarrow> p \<noteq> []"
  by (auto simp: is_abs_def)

lemma path_clean_abs: "is_abs p \<Longrightarrow> path_clean p = sep # join_with [sep] (abs_comps p)"
  by (simp add: path_clean_def Let_def is_abs_not_Nil abs_comps_def)

lemma is_abs_clean: "is_abs p \<Longrightarrow> is_abs (path_clean p)"
  by (simp add: path_clean_abs is_abs_def)

lemma comps_clean_abs: "is_abs p \<Longrightarrow> comps (path_clean p) = abs_comps p"
proof -
  assume "is_abs p"
  moreover have "comps (join_with [sep] (abs_comps p)) = abs_comps p"
    by (rule comps_join) (auto simp: abs_comps_def good_comp_def dest: clean_comps_good)
  ultimately show ?thesis by (simp add: path_clean_abs)
qed

lemma clean_step_good: "good_comp c \<Longrightarrow> clean_step r out c = out @ [c]"
  by (simp add: clean_step_def good_comp_def)

lemma clean_good_id: "\<forall>c\<in>set cs. good_comp c \<Longrightarrow> foldl (clean_step r) out cs = out @ cs"
  by (induction cs arbitrary: out) (auto simp: clean_step_good)

lemma path_clean_idem: "is_abs p \<Longrightarrow> path_clean (path_clean p) = path_clean p"
proof -
  assume a: "is_abs p"
  have "abs_comps (path_clean p) = abs_comps p"
    using clean_good_id [of "abs_comps p" True "[]"] clean_comps_good
    by (auto simp: abs_comps_def [of "path_clean p"] comps_clean_abs [OF a] clean_comps_def abs_comps_def)
  then show ?thesis
    using path_clean_abs [OF is_abs_clean [OF a]] path_clean_abs [OF a] by metis
qed

lemma abs_comps_clean: "is_abs p \<Longrightarrow> abs_comps (path_clean p) = abs_comps p"
  using path_clean_idem comps_clean_abs is_abs_clean by metis

lemma path_clean_eq_iff:
  "is_abs p \<Longrightarrow> is_abs q \<Longrightarrow> path_clean p = path_clean q \<longleftrightarrow> abs_comps p = abs_comps q"
  by (metis comps_clean_abs path_clean_abs)

lemma drop_common_spec:
  "drop_common bs ts = (bs', ts') \<Longrightarrow>
     \<exists>cs. bs = cs @ bs' \<and> ts = cs @ ts' \<and> (bs' = [] \<or> ts' = [] \<or> hd bs' \<noteq> hd ts')"
proof (induction bs ts rule: drop_common.induct)
  case (1 b bs t ts)
  show ?case
  proof (cases "b = t")
    case True
    with 1 obtain cs where "bs = cs @ bs'" "ts = cs @ ts'" "bs' = [] \<or> ts' = [] \<or> hd bs' \<noteq> hd ts'"
      by auto
    with True show ?thesis by (intro exI [of _ "b # cs"]) simp
  next
    case False
    with 1 show ?thesis by auto
  qed
qed auto

lemma drop_common_Nil: "fst (drop_common bs ts) = [] \<longleftrightarrow> prefix bs ts"
proof (induction bs ts rule: drop_common.induct)
  case (1 b bs t ts)
  then show ?case by auto
qed auto

text \<open>
  The relative path between absolute paths: always defined; it climbs (starts with
  \<open>..\<close>) exactly when the target is not below the base.
\<close>

lemma path_rel_abs:
  assumes "is_abs b" and "is_abs t"
  shows "path_rel b t =
    Some (if abs_comps t = abs_comps b then ''.''
          else let (bs, ts) = drop_common (abs_comps b) (abs_comps t) in
               join_with [sep] (replicate (length bs) ''..'' @ ts))"
proof -
  have nd: "path_clean b \<noteq> ''.''"
    using assms(1) by (simp add: path_clean_abs sep_def)
  have nodots: "\<not> (bs \<noteq> [] \<and> hd bs = ''..'')"
    if "drop_common (abs_comps b) (abs_comps t) = (bs, ts)" for bs ts
  proof -
    from drop_common_spec [OF that] have "set bs \<subseteq> set (abs_comps b)" by auto
    then show ?thesis
      using clean_comps_good hd_in_set unfolding abs_comps_def good_comp_def by blast
  qed
  show ?thesis
    using assms nd nodots path_clean_eq_iff [OF assms(2,1)]
    by (auto simp: path_rel_def Let_def is_abs_clean comps_clean_abs split: prod.splits)
qed

definition climbs :: "string \<Rightarrow> bool" where
  "climbs r = (r = ''..'' \<or> has_prefix r [CHR ''.'', CHR ''.'', sep])"

lemma climbs_join:
  assumes "\<forall>c\<in>set ts. good_comp c"
  shows "climbs (join_with [sep] (replicate n ''..'' @ ts)) \<longleftrightarrow> 0 < n"
proof (cases n)
  case 0
  have "\<not> climbs (join_with [sep] ts)"
  proof (cases ts)
    case Nil
    then show ?thesis by (simp add: climbs_def)
  next
    case (Cons c cs)
    with assms have g: "c \<noteq> ''..''" "sep \<notin> set c" by (auto simp: good_comp_def)
    show ?thesis
    proof
      assume cl: "climbs (join_with [sep] ts)"
      have "comps (join_with [sep] ts) = ts"
        using assms by (intro comps_join) (auto simp: good_comp_def)
      moreover have "\<exists>r. comps (join_with [sep] ts) = ''..'' # r"
        using cl split_on_append [of "''..''"]
        by (auto simp: climbs_def has_prefix_iff comps_def sep_def)
      ultimately show False using Cons g by auto
    qed
  qed
  with 0 show ?thesis by simp
next
  case (Suc m)
  then show ?thesis
    by (cases "replicate m ''..'' @ ts") (auto simp: climbs_def)
qed

end
