(* ===== verification/Write_Guard.thy ===== *)
theory Write_Guard
  imports Go_Path
begin

text \<open>
  The guards of \<open>internal/runner/writeguard.go\<close> that keep fixes out of caches and out of
  generated files. The process environment is a record: variables (an unset variable reads
  as the empty string, as \<open>os.Getenv\<close>), the user cache and home directories when they
  can be determined, and the working directory.
\<close>

record os_env =
  env_var :: "string \<Rightarrow> string"
  env_cache_dir :: "string option"
  env_home_dir :: "string option"
  env_cwd :: "string option"

section \<open>Forbidden roots\<close>

definition add_root :: "os_env \<Rightarrow> string \<Rightarrow> string list \<Rightarrow> string list" where
  "add_root env p roots =
     (if p = [] then roots
      else case path_abs (env_cwd env) p of
             Some a \<Rightarrow> roots @ [path_clean a]
           | None \<Rightarrow> roots)"

definition forbidden_write_roots :: "os_env \<Rightarrow> string list" where
  "forbidden_write_roots env =
     (let r1 =
            (if env_var env ''GOCACHE'' \<noteq> [] then add_root env (env_var env ''GOCACHE'') []
             else case env_cache_dir env of
                    Some d \<Rightarrow> add_root env (path_join [d, ''go-build'']) []
                  | None \<Rightarrow> []);
          r2 =
            (if env_var env ''GOMODCACHE'' \<noteq> [] then add_root env (env_var env ''GOMODCACHE'') r1
             else
               let gp = (if env_var env ''GOPATH'' \<noteq> [] then env_var env ''GOPATH''
                         else case env_home_dir env of
                                Some h \<Rightarrow> path_join [h, ''go'']
                              | None \<Rightarrow> [])
               in if gp \<noteq> [] then add_root env (path_join [gp, ''pkg'', ''mod'']) r1 else r1)
      in add_root env (env_var env ''GOROOT'') r2)"

definition has_dot_dot_prefix :: "string \<Rightarrow> bool" where
  "has_dot_dot_prefix rel =
     (length rel \<ge> 3 \<and> rel ! 0 = CHR ''.'' \<and> rel ! 1 = CHR ''.'' \<and> rel ! 2 = sep)"

fun under_some_root :: "string list \<Rightarrow> string \<Rightarrow> bool" where
  "under_some_root [] a = False"
| "under_some_root (root # roots) a =
     (case path_rel root a of
        None \<Rightarrow> under_some_root roots a
      | Some rel \<Rightarrow>
          if rel \<noteq> ''..'' \<and> \<not> has_dot_dot_prefix rel then True
          else under_some_root roots a)"

definition outside_work_tree :: "os_env \<Rightarrow> string \<Rightarrow> bool" where
  "outside_work_tree env path =
     (case path_abs (env_cwd env) path of
        None \<Rightarrow> False
      | Some a \<Rightarrow> under_some_root (forbidden_write_roots env) (path_clean a))"

section \<open>Generated sources\<close>

definition generated_marker :: "string \<Rightarrow> bool" where
  "generated_marker t =
     (has_prefix t ''// Code generated '' \<and> has_suffix t '' DO NOT EDIT.'' \<and>
      length ''// Code generated '' + length '' DO NOT EDIT.'' \<le> length t)"

definition src_lines :: "string \<Rightarrow> string list" where
  "src_lines src =
     (let ls = split_on (CHR 0x0A) src in if last ls = [] then butlast ls else ls)"

fun marked_before_package :: "string list \<Rightarrow> bool" where
  "marked_before_package [] = False"
| "marked_before_package (line # rest) =
     (let t = trim_space line in
      if has_prefix t ''package '' then False
      else if generated_marker t then True
      else marked_before_package rest)"

definition is_generated_source :: "string \<Rightarrow> bool" where
  "is_generated_source src = marked_before_package (src_lines src)"

section \<open>Lemmas\<close>

lemma climbs_iff: "climbs rel \<longleftrightarrow> rel = ''..'' \<or> has_dot_dot_prefix rel"
proof -
  have "has_prefix rel [CHR ''.'', CHR ''.'', sep] = has_dot_dot_prefix rel"
    unfolding has_dot_dot_prefix_def
    by (cases rel rule: list.exhaust; cases "tl rel"; cases "tl (tl rel)") auto
  then show ?thesis by (simp add: climbs_def)
qed

text \<open>\<open>hasDotDotPrefix\<close> never indexes past the end: the length test guards the reads.\<close>

lemma rel_inside:
  assumes "is_abs root" and "is_abs a" and "path_rel root a = Some rel"
  shows "\<not> climbs rel \<longleftrightarrow> prefix (abs_comps root) (abs_comps a)"
proof (cases "abs_comps a = abs_comps root")
  case True
  with assms path_rel_abs [OF assms(1,2)] show ?thesis by (auto simp: climbs_def)
next
  case False
  obtain bs ts where d: "drop_common (abs_comps root) (abs_comps a) = (bs, ts)" by fastforce
  with False assms path_rel_abs [OF assms(1,2)]
  have rel: "rel = join_with [sep] (replicate (length bs) ''..'' @ ts)" by simp
  from drop_common_spec [OF d] have "set ts \<subseteq> set (abs_comps a)" by auto
  then have "\<forall>c\<in>set ts. good_comp c" using clean_comps_good by (auto simp: abs_comps_def)
  then have "climbs rel \<longleftrightarrow> 0 < length bs" using climbs_join rel by simp
  also have "\<dots> \<longleftrightarrow> \<not> prefix (abs_comps root) (abs_comps a)"
    using drop_common_Nil [of "abs_comps root" "abs_comps a"] d by simp
  finally show ?thesis by blast
qed

lemma under_some_root_iff:
  assumes "\<forall>r\<in>set roots. is_abs r" and "is_abs a"
  shows "under_some_root roots a \<longleftrightarrow> (\<exists>r\<in>set roots. prefix (abs_comps r) (abs_comps a))"
  using assms(1)
proof (induction roots)
  case Nil
  show ?case by simp
next
  case (Cons r rs)
  then obtain rel where rel: "path_rel r a = Some rel"
    using path_rel_abs [of r a] assms(2) by auto
  have "rel \<noteq> ''..'' \<and> \<not> has_dot_dot_prefix rel \<longleftrightarrow> prefix (abs_comps r) (abs_comps a)"
    using rel_inside [OF _ assms(2) rel] Cons.prems climbs_iff by auto
  with Cons rel show ?case by auto
qed

lemma path_abs_is_abs:
  assumes "path_abs (env_cwd env) p = Some a" and "\<And>w. env_cwd env = Some w \<Longrightarrow> is_abs w"
  shows "is_abs a"
proof (cases "is_abs p")
  case True
  with assms show ?thesis by (auto simp: path_abs_def is_abs_clean)
next
  case False
  with assms obtain w where w: "env_cwd env = Some w" "a = path_join [w, p]"
    by (auto simp: path_abs_def)
  then have "is_abs w" using assms(2) by blast
  then have wn: "w \<noteq> []" and ab: "is_abs (w @ r)" for r
    by (auto simp: is_abs_def has_prefix_iff)
  show ?thesis
    using w wn ab [of "[]"] ab [of "[sep] @ p"]
    by (cases "p = []") (simp_all add: path_join_def Let_def is_abs_clean)
qed

lemma forbidden_abs:
  assumes "\<And>w. env_cwd env = Some w \<Longrightarrow> is_abs w"
  shows "\<forall>r\<in>set (forbidden_write_roots env). is_abs r"
proof -
  have cl: "path_abs (env_cwd env) p = Some a \<Longrightarrow> is_abs (path_clean a)" for p a
    using path_abs_is_abs [of env p a] assms is_abs_clean by blast
  have add: "list_all is_abs (add_root env p rs)" if "list_all is_abs rs" for p rs
    using that by (auto simp: add_root_def dest: cl split: option.splits)
  have "list_all is_abs (forbidden_write_roots env)"
    unfolding forbidden_write_roots_def Let_def
    by (intro add) (simp add: add split: option.split)
  then show ?thesis by (simp add: list_all_iff)
qed

lemma forbidden_gocache:
  assumes "env_var env ''GOCACHE'' \<noteq> []" and "path_abs (env_cwd env) (env_var env ''GOCACHE'') = Some a"
  shows "path_clean a \<in> set (forbidden_write_roots env)"
proof -
  have mono: "r \<in> set rs \<Longrightarrow> r \<in> set (add_root env p rs)" for r rs p
    by (auto simp: add_root_def split: option.splits)
  have "path_clean a \<in> set (add_root env (env_var env ''GOCACHE'') [])"
    using assms by (simp add: add_root_def)
  with assms(1) show ?thesis
    by (auto simp: forbidden_write_roots_def Let_def intro!: mono split: option.splits)
qed

text \<open>
  C10: the write guard is containment. With an absolute working directory, a path
  is refused exactly when one of the forbidden roots is an ancestor of it (or the path
  itself), component by component; a sibling that only shares a name prefix
  (\<open>/cache/go-build2\<close>) is not refused, and neither is a file whose name starts with two
  dots.
\<close>

theorem outside_work_tree_iff:
  assumes "\<And>w. env_cwd env = Some w \<Longrightarrow> is_abs w" and "path_abs (env_cwd env) path = Some a"
  shows "outside_work_tree env path \<longleftrightarrow>
    (\<exists>r\<in>set (forbidden_write_roots env). prefix (abs_comps r) (abs_comps a))"
proof -
  have a: "is_abs a" using path_abs_is_abs assms by blast
  have "outside_work_tree env path = under_some_root (forbidden_write_roots env) (path_clean a)"
    by (simp add: outside_work_tree_def assms(2))
  then show ?thesis
    using under_some_root_iff [OF forbidden_abs [OF assms(1)] is_abs_clean [OF a]]
    by (simp add: abs_comps_clean [OF a])
qed

definition sample_env :: os_env where
  "sample_env =
     \<lparr>env_var = (\<lambda>v. if v = ''GOCACHE'' then ''/c/go-build'' else []), env_cache_dir = None,
      env_home_dir = Some ''/h'', env_cwd = Some ''/w''\<rparr>"

lemma sample_roots: "forbidden_write_roots sample_env = [''/c/go-build'', ''/h/go/pkg/mod'']"
  by code_simp

theorem outside_work_tree_witness:
  "outside_work_tree sample_env ''/c/go-build/ab/x.go'' \<and>
   \<not> outside_work_tree sample_env ''/c/go-build2/x.go''"
proof -
  have cwd: "\<And>w. env_cwd sample_env = Some w \<Longrightarrow> is_abs w"
    by (simp add: sample_env_def is_abs_def sep_def)
  have p1: "path_abs (env_cwd sample_env) ''/c/go-build/ab/x.go'' = Some ''/c/go-build/ab/x.go''"
    by code_simp
  have p2: "path_abs (env_cwd sample_env) ''/c/go-build2/x.go'' = Some ''/c/go-build2/x.go''"
    by code_simp
  have c: "abs_comps ''/c/go-build'' = [''c'', ''go-build'']"
    "abs_comps ''/h/go/pkg/mod'' = [''h'', ''go'', ''pkg'', ''mod'']"
    "abs_comps ''/c/go-build/ab/x.go'' = [''c'', ''go-build'', ''ab'', ''x.go'']"
    "abs_comps ''/c/go-build2/x.go'' = [''c'', ''go-build2'', ''x.go'']"
    by code_simp+
  show ?thesis
    using outside_work_tree_iff [OF cwd p1] outside_work_tree_iff [OF cwd p2]
    by (simp add: sample_roots c)
qed

end
