(* ===== verification/Edits.thy ===== *)
theory Edits
  imports Findings Write_Guard
begin

text \<open>
  \<open>patchedFiles\<close> of \<open>internal/runner/runner.go\<close>: the suggested fixes of the findings are
  grouped per file, resolved against each other at the level of a whole fix, and the
  accepted edits are spliced into the file's bytes back to front. What happens after the
  splice (the import passes and gofmt) is the parameter \<open>pe_post\<close>, a function of the
  spliced and of the original bytes.
\<close>

section \<open>Data\<close>

record edit =
  ed_start :: int
  ed_end :: int
  ed_text :: string

type_synonym file_fix = "edit list"

record patched_file =
  pf_orig :: string
  pf_fixed :: string

record fix_counts =
  n_applied :: nat
  n_overlapping :: nat
  n_failed :: nat

definition no_counts :: fix_counts where
  "no_counts = \<lparr>n_applied = 0, n_overlapping = 0, n_failed = 0\<rparr>"

definition add_counts :: "fix_counts \<Rightarrow> fix_counts \<Rightarrow> fix_counts" where
  "add_counts a b =
     \<lparr>n_applied = n_applied a + n_applied b, n_overlapping = n_overlapping a + n_overlapping b,
      n_failed = n_failed a + n_failed b\<rparr>"

text \<open>
  The surroundings of a run: the process environment, the files, the sorter that
  \<open>slices.SortFunc\<close> is on the accepted edits, and the passes after the splice.
\<close>

record patch_env =
  pe_os :: os_env
  pe_read :: files
  pe_sort :: "edit list \<Rightarrow> edit list"
  pe_post :: "string \<Rightarrow> string \<Rightarrow> string"

section \<open>Grouping the edits of a fix by file\<close>

text \<open>A map from file names to lists, filled by \<open>m[k] = append(m[k], v)\<close>.\<close>

fun append_at :: "string \<Rightarrow> 'v \<Rightarrow> (string \<times> 'v list) list \<Rightarrow> (string \<times> 'v list) list" where
  "append_at k v [] = [(k, [v])]"
| "append_at k v ((k', vs) # m) =
     (if k = k' then (k', vs @ [v]) # m else (k', vs) # append_at k v m)"

fun group_edits ::
    "file_set \<Rightarrow> text_edit list \<Rightarrow> (string \<times> edit list) list \<Rightarrow> (string \<times> edit list) list option" where
  "group_edits fset [] m = Some m"
| "group_edits fset (te # tes) m =
     (case fset_file fset (te_pos te) of
        None \<Rightarrow> None
      | Some f \<Rightarrow>
          group_edits fset tes
            (append_at (tf_name f)
              \<lparr>ed_start = file_offset f (te_pos te), ed_end = file_offset f (te_end te),
               ed_text = te_new_text te\<rparr> m))"

text \<open>
  The first loop of \<open>patchedFiles\<close>: only the first fix of an auto-fixable finding is
  taken; a fix with an edit in no file of its file set fails as a whole.
\<close>

fun collect_fixes ::
    "finding list \<Rightarrow> (string \<times> file_fix list) list \<Rightarrow> nat \<Rightarrow> (string \<times> file_fix list) list \<times> nat" where
  "collect_fixes [] per_file failed = (per_file, failed)"
| "collect_fixes (f # fs) per_file failed =
     (if \<not> chk_auto_fix (fnd_check f) \<or> fnd_fixes f = [] then collect_fixes fs per_file failed
      else case group_edits (fnd_fset f) (fix_edits (hd (fnd_fixes f))) [] of
             None \<Rightarrow> collect_fixes fs per_file (Suc failed)
           | Some by_file \<Rightarrow>
               collect_fixes fs (fold (\<lambda>(name, es). append_at name es) by_file per_file) failed)"

section \<open>Resolving overlaps\<close>

definition overlaps :: "edit \<Rightarrow> edit \<Rightarrow> bool" where
  "overlaps e a = (ed_start e < ed_end a \<and> ed_start a < ed_end e)"

definition fix_min_start :: "file_fix \<Rightarrow> int" where
  "fix_min_start f = foldl (\<lambda>m e. if ed_start e < m then ed_start e else m) (ed_start (hd f)) (tl f)"

definition conflicts :: "edit list \<Rightarrow> edit list \<Rightarrow> bool" where
  "conflicts es accepted = list_ex (\<lambda>e. list_ex (\<lambda>a. overlaps e a) accepted) es"

fun self_overlaps :: "edit list \<Rightarrow> bool" where
  "self_overlaps [] = False"
| "self_overlaps (e # es) = (list_ex (\<lambda>e'. overlaps e e') es \<or> self_overlaps es)"

definition fix_cmp :: "file_fix go_cmp" where
  "fix_cmp a b = fix_min_start a - fix_min_start b"

fun resolve :: "file_fix list \<Rightarrow> edit list \<Rightarrow> fix_counts \<Rightarrow> edit list \<times> fix_counts" where
  "resolve [] accepted n = (accepted, n)"
| "resolve (f # fs) accepted n =
     (if self_overlaps f then resolve fs accepted (n\<lparr>n_failed := Suc (n_failed n)\<rparr>)
      else if conflicts f accepted then
        resolve fs accepted (n\<lparr>n_overlapping := Suc (n_overlapping n)\<rparr>)
      else resolve fs (accepted @ f) (n\<lparr>n_applied := Suc (n_applied n)\<rparr>))"

section \<open>Splicing\<close>

text \<open>
  \<open>slices.Concat(src[:e.start], e.text, src[e.end:])\<close>; none when a slice bound is out of
  range, where Go panics.
\<close>

definition apply_edit :: "string \<Rightarrow> edit \<Rightarrow> string option" where
  "apply_edit src e =
     (if 0 \<le> ed_start e \<and> ed_start e \<le> int (length src) \<and> 0 \<le> ed_end e \<and>
         ed_end e \<le> int (length src)
      then Some (take (nat (ed_start e)) src @ ed_text e @ drop (nat (ed_end e)) src)
      else None)"

fun apply_edits :: "string \<Rightarrow> edit list \<Rightarrow> string option" where
  "apply_edits src [] = Some src"
| "apply_edits src (e # es) =
     (case apply_edit src e of None \<Rightarrow> None | Some src' \<Rightarrow> apply_edits src' es)"

definition edit_cmp :: "edit go_cmp" where
  "edit_cmp a b = ed_start b - ed_start a"

definition out_of_range :: "string \<Rightarrow> file_fix list \<Rightarrow> bool" where
  "out_of_range src fixes =
     list_ex (list_ex (\<lambda>e. ed_start e < 0 \<or> ed_start e > ed_end e \<or>
       ed_end e > int (length src))) fixes"

text \<open>
  The body of the loop over the files: the result is the patched file, if the file is
  rewritten, and the counts; none when a slice panics.
\<close>

definition patch_file ::
    "patch_env \<Rightarrow> string \<Rightarrow> file_fix list \<Rightarrow> (patched_file option \<times> fix_counts) option" where
  "patch_file env path fixes =
     (let all_failed = no_counts\<lparr>n_failed := length fixes\<rparr> in
      if outside_work_tree (pe_os env) path then Some (None, all_failed)
      else case pe_read env path of
             None \<Rightarrow> Some (None, all_failed)
           | Some src \<Rightarrow>
               if is_generated_source src then Some (None, all_failed)
               else if out_of_range src fixes then Some (None, all_failed)
               else
                 let (accepted, n) = resolve (stable_sort fix_cmp fixes) [] no_counts in
                 if accepted = [] then Some (None, n)
                 else case apply_edits src (pe_sort env accepted) of
                        None \<Rightarrow> None
                      | Some out \<Rightarrow>
                          Some (Some \<lparr>pf_orig = src, pf_fixed = pe_post env out src\<rparr>, n))"

fun patch_files ::
    "patch_env \<Rightarrow> (string \<times> file_fix list) list \<Rightarrow> ((string \<times> patched_file) list \<times> fix_counts) option" where
  "patch_files env [] = Some ([], no_counts)"
| "patch_files env ((path, fixes) # rest) =
     (case patch_file env path fixes of
        None \<Rightarrow> None
      | Some (r, n) \<Rightarrow>
          (case patch_files env rest of
             None \<Rightarrow> None
           | Some (files, m) \<Rightarrow>
               Some (case r of None \<Rightarrow> files | Some pf \<Rightarrow> (path, pf) # files, add_counts n m)))"

definition patched_files ::
    "patch_env \<Rightarrow> finding list \<Rightarrow> ((string \<times> patched_file) list \<times> fix_counts) option" where
  "patched_files env fs =
     (let (per_file, failed) = collect_fixes fs [] 0 in
      case patch_files env per_file of
        None \<Rightarrow> None
      | Some (files, n) \<Rightarrow> Some (files, n\<lparr>n_failed := n_failed n + failed\<rparr>))"

text \<open>
  \<open>applyFixes\<close>: write every patched file. The file system after the run is the map of
  paths to contents; \<open>wr\<close> says which writes succeed.
\<close>

fun write_files ::
    "(string \<Rightarrow> bool) \<Rightarrow> (string \<times> patched_file) list \<Rightarrow> files \<Rightarrow> nat \<Rightarrow> files \<times> nat" where
  "write_files wr [] fs failed = (fs, failed)"
| "write_files wr ((p, pf) # rest) fs failed =
     (if wr p then write_files wr rest (fs(p \<mapsto> pf_fixed pf)) failed
      else write_files wr rest fs (Suc failed))"

definition apply_fixes ::
    "patch_env \<Rightarrow> (string \<Rightarrow> bool) \<Rightarrow> finding list \<Rightarrow> (files \<times> fix_counts) option" where
  "apply_fixes env wr fs =
     (case patched_files env fs of
        None \<Rightarrow> None
      | Some (files, n) \<Rightarrow>
          (let (fs', failed) = write_files wr files (pe_read env) (n_failed n)
           in Some (fs', n\<lparr>n_failed := failed\<rparr>)))"

end
