(* ===== verification/Edits_Props.thy ===== *)
theory Edits_Props
  imports Edits
begin

text \<open>
  Correctness of the fix engine: which fxs are accepted, that splicing them never
  panics, and when the result is the simultaneous replacement of the accepted ranges.
\<close>

section \<open>Overlap resolution\<close>

definition disjoint_edits :: "edit list \<Rightarrow> bool" where
  "disjoint_edits es = sorted_wrt (\<lambda>a b. \<not> overlaps a b) es"

lemma overlaps_sym: "overlaps a b = overlaps b a"
  by (auto simp: overlaps_def)

lemma self_overlaps_iff: "self_overlaps es \<longleftrightarrow> \<not> disjoint_edits es"
  by (induction es) (auto simp: disjoint_edits_def list_ex_iff)

lemma conflicts_iff: "conflicts es acc \<longleftrightarrow> (\<exists>e\<in>set es. \<exists>a\<in>set acc. overlaps e a)"
  by (auto simp: conflicts_def list_ex_iff)

lemma disjoint_append:
  "disjoint_edits (acc @ f) \<longleftrightarrow> disjoint_edits acc \<and> disjoint_edits f \<and> \<not> conflicts f acc"
  using overlaps_sym by (auto simp: disjoint_edits_def sorted_wrt_append conflicts_iff)

lemma disjoint_mset: "mset es = mset fs \<Longrightarrow> disjoint_edits es \<Longrightarrow> disjoint_edits fs"
  unfolding disjoint_edits_def by (rule sorted_wrt_mset) (simp_all add: overlaps_sym)

definition total_count :: "fix_counts \<Rightarrow> nat" where
  "total_count n = n_applied n + n_overlapping n + n_failed n"

text \<open>
  What the greedy loop does: it keeps a sub-list of the fxs, each whole; the kept edits
  are pairwise disjoint; a fix that is not kept is malformed or meets a kept edit; and
  every fix is counted once.
\<close>

definition resolved :: "file_fix list \<Rightarrow> edit list \<Rightarrow> file_fix list \<Rightarrow> edit list \<Rightarrow> bool" where
  "resolved fs acc kept acc' =
     (subseq kept fs \<and> acc' = acc @ concat kept \<and>
      (disjoint_edits acc \<longrightarrow> disjoint_edits acc') \<and>
      (\<forall>f\<in>set fs. f \<in> set kept \<or> self_overlaps f \<or> conflicts f acc'))"

lemma resolve_spec:
  "resolve fs acc n = (acc', n') \<Longrightarrow>
     \<exists>kept. resolved fs acc kept acc' \<and> n_applied n' = n_applied n + length kept \<and>
       n_failed n' = n_failed n + length (filter self_overlaps fs) \<and>
       total_count n' = total_count n + length fs"
proof (induction fs arbitrary: acc n)
  case Nil
  then show ?case by (auto simp: resolved_def)
next
  case (Cons f fs)
  consider (bad) "self_overlaps f" | (over) "\<not> self_overlaps f" "conflicts f acc"
    | (ok) "\<not> self_overlaps f" "\<not> conflicts f acc" by blast
  then show ?case
  proof cases
    case bad
    with Cons.prems have "resolve fs acc (n\<lparr>n_failed := Suc (n_failed n)\<rparr>) = (acc', n')" by simp
    from Cons.IH [OF this] obtain kept where "resolved fs acc kept acc'"
      "n_applied n' = n_applied n + length kept"
      "n_failed n' = Suc (n_failed n) + length (filter self_overlaps fs)"
      "total_count n' = Suc (total_count n) + length fs"
      by (auto simp: total_count_def)
    with bad show ?thesis by (intro exI [of _ kept]) (auto simp: resolved_def)
  next
    case over
    with Cons.prems have "resolve fs acc (n\<lparr>n_overlapping := Suc (n_overlapping n)\<rparr>) = (acc', n')"
      by simp
    from Cons.IH [OF this] obtain kept where k: "resolved fs acc kept acc'"
      "n_applied n' = n_applied n + length kept"
      "n_failed n' = n_failed n + length (filter self_overlaps fs)"
      "total_count n' = Suc (total_count n) + length fs"
      by (auto simp: total_count_def)
    moreover from k(1) over have "conflicts f acc'" by (auto simp: resolved_def conflicts_iff)
    ultimately show ?thesis using over by (intro exI [of _ kept]) (auto simp: resolved_def)
  next
    case ok
    with Cons.prems have "resolve fs (acc @ f) (n\<lparr>n_applied := Suc (n_applied n)\<rparr>) = (acc', n')"
      by simp
    from Cons.IH [OF this] obtain kept where k: "resolved fs (acc @ f) kept acc'"
      "n_applied n' = Suc (n_applied n) + length kept"
      "n_failed n' = n_failed n + length (filter self_overlaps fs)"
      "total_count n' = Suc (total_count n) + length fs"
      by (auto simp: total_count_def)
    from k(1) ok have "resolved (f # fs) acc (f # kept) acc'"
      by (auto simp: resolved_def disjoint_append self_overlaps_iff)
    with k ok show ?thesis by (intro exI [of _ "f # kept"]) auto
  qed
qed

section \<open>Splicing never panics\<close>

definition in_range :: "string \<Rightarrow> edit list \<Rightarrow> bool" where
  "in_range src es =
     (\<forall>e\<in>set es. 0 \<le> ed_start e \<and> ed_start e \<le> ed_end e \<and> ed_end e \<le> int (length src))"

lemma out_of_range_iff: "\<not> out_of_range src fxs \<longleftrightarrow> in_range src (concat fxs)"
  by (force simp: out_of_range_def in_range_def list_ex_iff)

lemma apply_edit_in_range:
  "in_range src [e] \<Longrightarrow>
     apply_edit src e = Some (take (nat (ed_start e)) src @ ed_text e @ drop (nat (ed_end e)) src)"
  by (auto simp: apply_edit_def in_range_def)

text \<open>After one edit, the edits at or before its start are still in range.\<close>

lemma in_range_after:
  assumes "in_range src (p # es)" and "sorted_by edit_cmp (p # es)" and "disjoint_edits (p # es)"
    and "apply_edit src p = Some out"
  shows "in_range out es"
  unfolding in_range_def
proof
  fix e
  assume e: "e \<in> set es"
  from assms e have p: "0 \<le> ed_start p" "ed_start p \<le> ed_end p" "ed_end p \<le> int (length src)"
    and r: "0 \<le> ed_start e" "ed_start e \<le> ed_end e" "ed_end e \<le> int (length src)"
    and s: "ed_start e \<le> ed_start p"
    and d: "\<not> (ed_start p < ed_end e \<and> ed_start e < ed_end p)"
    by (auto simp: in_range_def sorted_by_def edit_cmp_def disjoint_edits_def overlaps_def)
  have out: "int (length out) = int (length src) - (ed_end p - ed_start p) + int (length (ed_text p))"
    using assms(1,4) p by (auto simp: apply_edit_def split: if_splits)
  have "ed_end e \<le> int (length out)"
  proof (cases "ed_end e \<le> ed_start p")
    case True
    with out p show ?thesis by linarith
  next
    case False
    with d s p have "ed_end p = ed_start p" by linarith
    with out r show ?thesis by linarith
  qed
  with r show "0 \<le> ed_start e \<and> ed_start e \<le> ed_end e \<and> ed_end e \<le> int (length out)" by simp
qed

lemma apply_edits_total:
  "in_range src es \<Longrightarrow> sorted_by edit_cmp es \<Longrightarrow> disjoint_edits es \<Longrightarrow>
     \<exists>out. apply_edits src es = Some out"
proof (induction es arbitrary: src)
  case Nil
  then show ?case by simp
next
  case (Cons p es)
  have "in_range src [p]" using Cons.prems(1) by (simp add: in_range_def)
  then obtain out where out: "apply_edit src p = Some out" using apply_edit_in_range by blast
  have "in_range out es" using in_range_after Cons.prems out by blast
  moreover have "sorted_by edit_cmp es" "disjoint_edits es"
    using Cons.prems by (auto simp: sorted_by_def disjoint_edits_def)
  ultimately show ?case using Cons.IH out by simp
qed

section \<open>Splicing is simultaneous replacement\<close>

text \<open>
  The reference: walk the original text once, left to right, copying what lies between the
  edits. \<open>splice i s es\<close> has consumed the first \<open>i\<close> bytes; \<open>s\<close> is the rest.
\<close>

fun splice :: "nat \<Rightarrow> string \<Rightarrow> edit list \<Rightarrow> string" where
  "splice i s [] = s"
| "splice i s (e # es) =
     take (nat (ed_start e) - i) s @ ed_text e @
     splice (nat (ed_end e)) (drop (nat (ed_end e) - i) s) es"

text \<open>Edits in ascending order, each ending before the next one starts.\<close>

definition separated :: "edit list \<Rightarrow> bool" where
  "separated es = sorted_wrt (\<lambda>a b. ed_end a \<le> ed_start b) es"

lemma splice_snoc:
  assumes "in_range src (es @ [e])" and "separated (es @ [e])" and "\<forall>a\<in>set (es @ [e]). int i \<le> ed_start a"
    and "i \<le> length src"
  shows "splice i (drop i src) (es @ [e]) =
    splice i (drop i (take (nat (ed_start e)) src @ ed_text e @ drop (nat (ed_end e)) src)) es"
  using assms
proof (induction es arbitrary: i)
  case Nil
  then have "i \<le> nat (ed_start e)" "nat (ed_start e) \<le> length src" "nat (ed_end e) \<ge> i"
    by (auto simp: in_range_def)
  then show ?case
    by (simp add: take_drop [symmetric] add.commute drop_take)
next
  case (Cons a es)
  have r: "0 \<le> ed_start a" "ed_start a \<le> ed_end a" "ed_end a \<le> int (length src)"
    "0 \<le> ed_start e" "ed_start e \<le> ed_end e" "ed_end e \<le> int (length src)" "ed_end a \<le> ed_start e"
    "int i \<le> ed_start a"
    using Cons.prems by (auto simp: in_range_def separated_def)
  let ?j = "nat (ed_end a)" and ?s = "nat (ed_start e)" and ?t = "nat (ed_end e)"
  have j: "?j \<le> length src" "i \<le> ?j" "?j \<le> ?s" "?s \<le> length src" "nat (ed_start a) \<le> ?j"
    using r by auto
  have IH: "splice ?j (drop ?j src) (es @ [e]) =
      splice ?j (drop ?j (take ?s src @ ed_text e @ drop ?t src)) es"
    using Cons.IH [of ?j] Cons.prems j r
    by (auto simp: in_range_def separated_def)
  have tk: "take (nat (ed_start a) - i) (drop i src) =
      take (nat (ed_start a) - i) (drop i (take ?s src @ ed_text e @ drop ?t src))"
  proof -
    let ?a = "nat (ed_start a)"
    have "i \<le> ?a" "?a \<le> ?s" using j r by auto
    then have td: "take (?a - i) (drop i xs) = drop i (take ?a xs)" for xs :: string
      by (simp add: take_drop)
    have tt: "take ?a (take ?s src @ ys) = take ?a src" for ys
      using \<open>?a \<le> ?s\<close> j(4) by simp
    show ?thesis by (simp only: td tt)
  qed
  have d: "drop (?j - i) (drop i xs) = drop ?j xs" for xs :: string
    using j(2) by simp
  show ?case by (simp only: append_Cons splice.simps d IH tk)
qed

lemma apply_edits_splice:
  "in_range src es \<Longrightarrow> separated (rev es) \<Longrightarrow>
     apply_edits src es = Some (splice 0 src (rev es))"
proof (induction es arbitrary: src)
  case Nil
  then show ?case by simp
next
  case (Cons e es)
  have e: "in_range src [e]" using Cons.prems(1) by (simp add: in_range_def)
  let ?out = "take (nat (ed_start e)) src @ ed_text e @ drop (nat (ed_end e)) src"
  have ap: "apply_edit src e = Some ?out" by (rule apply_edit_in_range [OF e])
  have le: "ed_end a \<le> ed_start e" if "a \<in> set es" for a
    using Cons.prems(2) that by (auto simp: separated_def sorted_wrt_append)
  have "in_range ?out es"
    using Cons.prems(1) le by (fastforce simp: in_range_def)
  moreover have "separated (rev es)"
    using Cons.prems(2) by (simp add: separated_def sorted_wrt_append)
  ultimately have "apply_edits ?out es = Some (splice 0 ?out (rev es))" by (rule Cons.IH)
  moreover have "splice 0 (drop 0 src) (rev es @ [e]) = splice 0 (drop 0 ?out) (rev es)"
    by (rule splice_snoc) (use Cons.prems in \<open>auto simp: in_range_def\<close>)
  ultimately show ?case using ap by simp
qed

text \<open>
  When no two accepted edits start at the same offset, unless both are pure insertions,
  every sorter puts them into separated order.
\<close>

definition no_shared_start :: "edit list \<Rightarrow> bool" where
  "no_shared_start es =
     sorted_wrt (\<lambda>a b. ed_start a = ed_start b \<longrightarrow>
       ed_end a = ed_start a \<and> ed_end b = ed_start b) es"

lemma separated_sorted:
  assumes "in_range src es" and "disjoint_edits es" and "no_shared_start es"
    and "sorted_by edit_cmp es"
  shows "separated (rev es)"
proof -
  have "sorted_wrt (\<lambda>a b. ed_end b \<le> ed_start a) es"
    using assms
  proof (induction es)
    case Nil
    then show ?case by simp
  next
    case (Cons a es)
    have "ed_end b \<le> ed_start a" if "b \<in> set es" for b
      using Cons.prems that
      by (fastforce simp: in_range_def disjoint_edits_def no_shared_start_def sorted_by_def
          edit_cmp_def overlaps_def)
    with Cons show ?case
      by (auto simp: in_range_def disjoint_edits_def no_shared_start_def sorted_by_def)
  qed
  then show ?thesis by (simp add: separated_def sorted_wrt_rev)
qed

lemma no_shared_start_mset:
  "mset es = mset fs \<Longrightarrow> no_shared_start es \<Longrightarrow> no_shared_start fs"
  unfolding no_shared_start_def by (rule sorted_wrt_mset) auto

lemma in_range_mset: "mset es = mset fs \<Longrightarrow> in_range src es \<Longrightarrow> in_range src fs"
  unfolding in_range_def by (metis set_mset_mset)

section \<open>Properties of the fix engine\<close>

definition accepted_edits :: "file_fix list \<Rightarrow> edit list" where
  "accepted_edits fxs = fst (resolve (stable_sort fix_cmp fxs) [] no_counts)"

definition fix_result :: "file_fix list \<Rightarrow> fix_counts" where
  "fix_result fxs = snd (resolve (stable_sort fix_cmp fxs) [] no_counts)"

lemma resolve_pair: "resolve (stable_sort fix_cmp fxs) [] no_counts = (accepted_edits fxs, fix_result fxs)"
  by (simp add: accepted_edits_def fix_result_def)

lemma accepted_kept:
  "\<exists>kept. resolved (stable_sort fix_cmp fxs) [] kept (accepted_edits fxs) \<and>
     n_applied (fix_result fxs) = length kept \<and>
     n_failed (fix_result fxs) = length (filter self_overlaps (stable_sort fix_cmp fxs)) \<and>
     total_count (fix_result fxs) = length fxs"
  using resolve_spec [OF resolve_pair, of fxs] by (simp add: no_counts_def total_count_def)

lemma accepted_disjoint: "disjoint_edits (accepted_edits fxs)"
  using accepted_kept [of fxs] by (auto simp: resolved_def disjoint_edits_def)

lemma accepted_in_range:
  assumes "\<not> out_of_range src fxs"
  shows "in_range src (accepted_edits fxs)"
proof -
  obtain kept where "resolved (stable_sort fix_cmp fxs) [] kept (accepted_edits fxs)"
    using accepted_kept by blast
  then have "subseq kept (stable_sort fix_cmp fxs)" and a: "accepted_edits fxs = concat kept"
    by (auto simp: resolved_def)
  then have "set kept \<subseteq> set fxs" by (metis set_stable_sort subseq_set_mono)
  moreover have "in_range src (concat fxs)" using assms out_of_range_iff by simp
  ultimately show ?thesis unfolding a by (auto simp: in_range_def)
qed

text \<open>
  C8: the greedy resolution. The accepted edits are pairwise disjoint and are the
  edits of whole fxs; every fix is counted exactly once, as applied, overlapping or
  failed; the failed ones are the malformed fxs; and the set of accepted fxs is
  maximal, since a well-formed fix that was not accepted overlaps an accepted edit.
\<close>

theorem resolve_maximal:
  "\<exists>kept. set kept \<subseteq> set fxs \<and> accepted_edits fxs = concat kept \<and>
     disjoint_edits (accepted_edits fxs) \<and>
     n_applied (fix_result fxs) = length kept \<and>
     n_failed (fix_result fxs) = length (filter self_overlaps fxs) \<and>
     n_applied (fix_result fxs) + n_overlapping (fix_result fxs) + n_failed (fix_result fxs)
       = length fxs \<and>
     (\<forall>f\<in>set fxs. f \<in> set kept \<or> self_overlaps f \<or> conflicts f (accepted_edits fxs))"
proof -
  obtain kept where k: "resolved (stable_sort fix_cmp fxs) [] kept (accepted_edits fxs)"
    "n_applied (fix_result fxs) = length kept"
    "n_failed (fix_result fxs) = length (filter self_overlaps (stable_sort fix_cmp fxs))"
    "total_count (fix_result fxs) = length fxs"
    using accepted_kept by blast
  have f: "length (filter self_overlaps (stable_sort fix_cmp fxs)) = length (filter self_overlaps fxs)"
    by (metis mset_filter mset_stable_sort size_mset)
  have "set kept \<subseteq> set fxs" using k(1) by (metis resolved_def subseq_set_mono set_stable_sort)
  then show ?thesis
    using k f accepted_disjoint [of fxs] unfolding resolved_def total_count_def
    by (intro exI [of _ kept]) auto
qed

definition mk_edit :: "int \<Rightarrow> int \<Rightarrow> string \<Rightarrow> edit" where
  "mk_edit s e t = \<lparr>ed_start = s, ed_end = e, ed_text = t\<rparr>"

theorem resolve_maximal_witness:
  "\<exists>kept. set kept \<subseteq> {[mk_edit 2 4 ''x''], [mk_edit 3 5 ''y'']} \<and>
     concat kept = [mk_edit 2 4 ''x''] \<and>
     conflicts [mk_edit 3 5 ''y''] [mk_edit 2 4 ''x'']"
proof -
  let ?fx = "[[mk_edit 2 4 ''x''], [mk_edit 3 5 ''y'']]"
  have a: "accepted_edits ?fx = [mk_edit 2 4 ''x'']"
    by (simp add: accepted_edits_def fix_cmp_def fix_min_start_def mk_edit_def conflicts_def overlaps_def)
  have c: "conflicts [mk_edit 3 5 ''y''] [mk_edit 2 4 ''x'']"
    by (simp add: conflicts_def overlaps_def mk_edit_def)
  show ?thesis using resolve_maximal [of ?fx] a c by auto
qed

lemma patch_file_total:
  assumes "sorts (pe_sort env) edit_cmp"
  shows "\<exists>r. patch_file env path fxs = Some r"
proof -
  have "\<exists>out. apply_edits src (pe_sort env (accepted_edits fxs)) = Some out"
    if "\<not> out_of_range src fxs" for src
  proof (rule apply_edits_total)
    have m: "mset (pe_sort env (accepted_edits fxs)) = mset (accepted_edits fxs)"
      and s: "sorted_by edit_cmp (pe_sort env (accepted_edits fxs))"
      using assms by (auto simp: sorts_def)
    show "in_range src (pe_sort env (accepted_edits fxs))"
      using in_range_mset [OF m [symmetric]] accepted_in_range [OF that] by blast
    show "disjoint_edits (pe_sort env (accepted_edits fxs))"
      using disjoint_mset [OF m [symmetric]] accepted_disjoint by blast
    show "sorted_by edit_cmp (pe_sort env (accepted_edits fxs))" by (rule s)
  qed
  then show ?thesis
    unfolding patch_file_def Let_def resolve_pair by (fastforce split: option.splits)
qed

text \<open>
  C6: applying fxs never panics. Whatever the findings and the files, and however
  \<open>slices.SortFunc\<close> orders edits with equal offsets, no slice expression of the splice
  is out of range, so \<open>patchedFiles\<close> returns.
\<close>

theorem patched_files_total:
  assumes "sorts (pe_sort env) edit_cmp"
  shows "\<exists>r. patched_files env fs = Some r"
proof -
  have "\<exists>r. patch_files env pfs = Some r" for pfs
  proof (induction pfs)
    case Nil
    show ?case by simp
  next
    case (Cons pf pfs)
    obtain path fxs where pf: "pf = (path, fxs)" by fastforce
    obtain r n where "patch_file env path fxs = Some (r, n)"
      using patch_file_total [OF assms] by fastforce
    with Cons pf show ?case by auto
  qed
  then show ?thesis
    by (metis (no_types, lifting) patched_files_def old.prod.case option.simps(5) surj_pair)
qed

lemma sorts_edit_cmp: "sorts (stable_sort edit_cmp) edit_cmp"
proof (rule sorts_stable_sort)
  show "total_cmp edit_cmp" by (auto simp: total_cmp_def edit_cmp_def)
qed

definition sample_patch_env :: "string \<Rightarrow> patch_env" where
  "sample_patch_env src =
     \<lparr>pe_os = sample_env, pe_read = [''/w/a.go'' \<mapsto> src], pe_sort = stable_sort edit_cmp,
      pe_post = (\<lambda>out orig. out)\<rparr>"

theorem patched_files_total_witness:
  "sorts (pe_sort (sample_patch_env ''abcdef'')) edit_cmp \<and>
   (\<exists>r. patched_files (sample_patch_env ''abcdef'') [] = Some r)"
proof -
  have s: "sorts (pe_sort (sample_patch_env ''abcdef'')) edit_cmp"
    by (simp add: sample_patch_env_def sorts_edit_cmp)
  show ?thesis using s patched_files_total [OF s, of "[]"] by blast
qed

text \<open>
  C7: the patched bytes. When a file is rewritten, and no two accepted edits start
  at one offset unless both are pure insertions, the bytes handed to the later passes are
  the simultaneous replacement of the accepted ranges of the original text: the back to
  front splicing changes no offset an earlier edit uses.
\<close>

theorem patch_file_simultaneous:
  assumes "sorts (pe_sort env) edit_cmp" and "patch_file env path fxs = Some (Some pf, n)"
    and "no_shared_start (accepted_edits fxs)"
  shows "\<exists>asc. mset asc = mset (accepted_edits fxs) \<and> separated asc \<and>
    pe_read env path = Some (pf_orig pf) \<and>
    pf_fixed pf = pe_post env (splice 0 (pf_orig pf) asc) (pf_orig pf)"
proof -
  let ?es = "pe_sort env (accepted_edits fxs)"
  from assms(2) obtain src out where r: "pe_read env path = Some src" "\<not> out_of_range src fxs"
    and o: "apply_edits src ?es = Some out" and pf: "pf = \<lparr>pf_orig = src, pf_fixed = pe_post env out src\<rparr>"
    unfolding patch_file_def Let_def resolve_pair by (auto split: if_splits option.splits)
  have m: "mset ?es = mset (accepted_edits fxs)" and s: "sorted_by edit_cmp ?es"
    using assms(1) by (auto simp: sorts_def)
  have rng: "in_range src ?es"
    using in_range_mset [OF m [symmetric]] accepted_in_range [OF r(2)] by blast
  have "separated (rev ?es)"
    using separated_sorted rng disjoint_mset [OF m [symmetric] accepted_disjoint]
      no_shared_start_mset [OF m [symmetric] assms(3)] s by blast
  moreover from this have "out = splice 0 src (rev ?es)"
    using apply_edits_splice [OF rng] o by simp
  ultimately show ?thesis
    using m r pf by (intro exI [of _ "rev ?es"]) simp
qed

lemma sample_inside: "\<not> outside_work_tree sample_env ''/w/a.go''"
  by code_simp

lemma sample_not_generated: "\<not> is_generated_source ''abcdef''"
  by code_simp

theorem patch_file_simultaneous_witness:
  "\<exists>asc. mset asc = {#mk_edit 1 2 ''XYZ'', mk_edit 4 5 []#} \<and> separated asc"
proof -
  let ?env = "sample_patch_env ''abcdef''" and ?fx = "[[mk_edit 4 5 []], [mk_edit 1 2 ''XYZ'']]"
  have a: "accepted_edits ?fx = [mk_edit 1 2 ''XYZ'', mk_edit 4 5 []]"
    by (simp add: accepted_edits_def fix_cmp_def fix_min_start_def mk_edit_def conflicts_def overlaps_def)
  have r: "stable_sort edit_cmp [mk_edit 1 2 ''XYZ'', mk_edit 4 5 []] =
      [mk_edit 4 5 [], mk_edit 1 2 ''XYZ'']"
    by (simp add: edit_cmp_def mk_edit_def)
  have o: "apply_edits ''abcdef'' [mk_edit 4 5 [], mk_edit 1 2 ''XYZ''] = Some ''aXYZcdf''"
    by (simp add: apply_edit_def mk_edit_def)
  have g: "\<not> out_of_range ''abcdef'' ?fx"
    by (simp add: out_of_range_def mk_edit_def)
  have p: "patch_file ?env ''/w/a.go'' ?fx =
      Some (Some \<lparr>pf_orig = ''abcdef'', pf_fixed = ''aXYZcdf''\<rparr>, fix_result ?fx)"
    using sample_inside sample_not_generated
    by (simp del: stable_sort.simps insert_by.simps apply_edits.simps resolve.simps
        add: patch_file_def Let_def resolve_pair sample_patch_env_def a r o g)
  have s: "sorts (pe_sort ?env) edit_cmp" by (simp add: sample_patch_env_def sorts_edit_cmp)
  have n: "no_shared_start (accepted_edits ?fx)"
    unfolding a by (simp add: no_shared_start_def mk_edit_def)
  show ?thesis
    using patch_file_simultaneous [OF s p n] a by auto
qed


lemma patch_file_guards:
  assumes "patch_file env path fxs = Some (Some pf, n)"
  shows "\<not> outside_work_tree (pe_os env) path \<and> pe_read env path = Some (pf_orig pf) \<and>
    \<not> is_generated_source (pf_orig pf)"
  using assms unfolding patch_file_def
  by (auto simp: Let_def split: if_splits option.splits prod.splits)

lemma patch_files_guards:
  "patch_files env pfs = Some (files, n) \<Longrightarrow> (p, pf) \<in> set files \<Longrightarrow>
     \<not> outside_work_tree (pe_os env) p \<and> pe_read env p = Some (pf_orig pf) \<and>
     \<not> is_generated_source (pf_orig pf)"
proof (induction pfs arbitrary: files n)
  case Nil
  then show ?case by simp
next
  case (Cons x pfs)
  obtain path fxs where x: "x = (path, fxs)" by fastforce
  with Cons.prems obtain r k fls m where r: "patch_file env path fxs = Some (r, k)"
    and rest: "patch_files env pfs = Some (fls, m)"
    and files: "files = (case r of None \<Rightarrow> fls | Some q \<Rightarrow> (path, q) # fls)"
    by (auto split: option.splits prod.splits)
  from Cons.prems(2) files have "(p, pf) \<in> set fls \<or> p = path \<and> r = Some pf"
    by (auto split: option.splits)
  then show ?case using Cons.IH [OF rest] patch_file_guards r by blast
qed

lemma write_files_frame:
  "write_files wr files fs k = (fs', k') \<Longrightarrow> fs' p \<noteq> fs p \<Longrightarrow> wr p \<and> p \<in> fst ` set files"
proof (induction files arbitrary: fs k)
  case Nil
  then show ?case by simp
next
  case (Cons x files)
  obtain q pf where x: "x = (q, pf)" by fastforce
  show ?case
  proof (cases "wr q \<and> p = q")
    case True
    with x show ?thesis by auto
  next
    case False
    with Cons x show ?thesis by (fastforce split: if_splits)
  qed
qed

text \<open>
  \<open>-fix\<close> only touches user sources. A path whose contents change was readable,
  is not below a forbidden root (build cache, module cache, GOROOT), and held no generated
  source.
\<close>

theorem apply_fixes_frame:
  assumes "apply_fixes env wr fs = Some (fs', n)" and "fs' p \<noteq> pe_read env p"
  shows "\<not> outside_work_tree (pe_os env) p \<and>
    (\<exists>src. pe_read env p = Some src \<and> \<not> is_generated_source src)"
proof -
  from assms(1) obtain files m k where f: "patched_files env fs = Some (files, m)"
    and w: "write_files wr files (pe_read env) (n_failed m) = (fs', k)"
    by (auto simp: apply_fixes_def split: option.splits prod.splits)
  from write_files_frame [OF w assms(2)] obtain pf where "(p, pf) \<in> set files" by auto
  moreover from f obtain pfs c where "patch_files env pfs = Some (files, c)"
    by (auto simp: patched_files_def Let_def split: option.splits prod.splits)
  ultimately show ?thesis using patch_files_guards by blast
qed

definition sample_finding :: "text_edit list \<Rightarrow> finding" where
  "sample_finding tes =
     \<lparr>fnd_check = plain_check ''PS2005'' 1,
      fnd_pos = \<lparr>pos_filename = ''/w/a.go'', pos_offset = 1, pos_line = 1, pos_column = 2\<rparr>,
      fnd_end = \<lparr>pos_filename = ''/w/a.go'', pos_offset = 2, pos_line = 1, pos_column = 3\<rparr>,
      fnd_message = ''m'', fnd_fixes = [\<lparr>fix_message = ''f'', fix_edits = tes\<rparr>],
      fnd_fset = [\<lparr>tf_name = ''/w/a.go'', tf_base = 1, tf_size = 6\<rparr>]\<rparr>"

definition sample_findings :: "finding list" where
  "sample_findings = [sample_finding [\<lparr>te_pos = 2, te_end = 3, te_new_text = ''XY''\<rparr>]]"

lemma sample_patched:
  "patched_files (sample_patch_env ''abcdef'') sample_findings =
     Some ([(''/w/a.go'', \<lparr>pf_orig = ''abcdef'', pf_fixed = ''aXYcdef''\<rparr>)],
       \<lparr>n_applied = 1, n_overlapping = 0, n_failed = 0\<rparr>)"
  using sample_inside sample_not_generated
  by (simp add: patched_files_def sample_findings_def sample_finding_def plain_check_def fset_file_def
      file_offset_def patch_file_def sample_patch_env_def out_of_range_def no_counts_def
      fix_min_start_def conflicts_def apply_edit_def add_counts_def)

lemma sample_applied:
  "apply_fixes (sample_patch_env ''abcdef'') (\<lambda>p. True) sample_findings =
     Some ((pe_read (sample_patch_env ''abcdef''))(''/w/a.go'' \<mapsto> ''aXYcdef''),
       \<lparr>n_applied = 1, n_overlapping = 0, n_failed = 0\<rparr>)"
  by (simp add: apply_fixes_def sample_patched)

theorem apply_fixes_frame_witness:
  "\<exists>fs' n. apply_fixes (sample_patch_env ''abcdef'') (\<lambda>p. True) sample_findings = Some (fs', n) \<and>
     fs' ''/w/a.go'' = Some ''aXYcdef'' \<and>
     \<not> outside_work_tree (pe_os (sample_patch_env ''abcdef'')) ''/w/a.go''"
proof -
  have "((pe_read (sample_patch_env ''abcdef''))(''/w/a.go'' \<mapsto> ''aXYcdef'')) ''/w/a.go'' \<noteq>
      pe_read (sample_patch_env ''abcdef'') ''/w/a.go''"
    by (simp add: sample_patch_env_def)
  from apply_fixes_frame [OF sample_applied this] sample_applied show ?thesis by auto
qed

end
