(* ===== verification/Diff.thy ===== *)
theory Diff
  imports Edits
begin

text \<open>
  The dry-run mode, \<open>internal/runner/diff.go\<close>: line splitting, the alignment of two files
  by a longest-common-subsequence table, the grouping of the changes into hunks, the text
  of a unified diff, and the exit code of \<open>-diff\<close>.
\<close>

section \<open>Lines\<close>

text \<open>\<open>strings.SplitAfter(s, sep)\<close> for a one-byte separator.\<close>

fun split_after :: "char \<Rightarrow> string \<Rightarrow> string list" where
  "split_after c [] = [[]]"
| "split_after c (x # xs) =
     (if x = c then [x] # split_after c xs
      else case split_after c xs of
             [] \<Rightarrow> [[x]]
           | l # ls \<Rightarrow> (x # l) # ls)"

definition split_lines :: "string \<Rightarrow> string list" where
  "split_lines b =
     (if b = [] then []
      else let ls = split_after (CHR 0x0A) b in
           if last ls = [] then butlast ls else ls)"

section \<open>Alignment\<close>

datatype op_tag = Equal | Delete | Insert

record diff_op =
  op_tag :: op_tag
  op_ai :: nat
  op_bi :: nat

definition mk_op :: "op_tag \<Rightarrow> nat \<Rightarrow> nat \<Rightarrow> diff_op" where
  "mk_op t i j = \<lparr>op_tag = t, op_ai = i, op_bi = j\<rparr>"

text \<open>The two counting loops for the common prefix and the common suffix.\<close>

function common_prefix :: "'a list \<Rightarrow> 'a list \<Rightarrow> nat \<Rightarrow> nat" where
  "common_prefix a b p =
     (if p < length a \<and> p < length b \<and> a ! p = b ! p then common_prefix a b (Suc p) else p)"
  by pat_completeness auto
termination by (relation "measure (\<lambda>(a, b, p). length a - p)") auto

function common_suffix :: "'a list \<Rightarrow> 'a list \<Rightarrow> nat \<Rightarrow> nat \<Rightarrow> nat" where
  "common_suffix a b p s =
     (if s < length a - p \<and> s < length b - p \<and>
         a ! (length a - 1 - s) = b ! (length b - 1 - s)
      then common_suffix a b p (Suc s) else s)"
  by pat_completeness auto
termination by (relation "measure (\<lambda>(a, b, p, s). length a - s)") auto

declare common_prefix.simps [simp del] common_suffix.simps [simp del]

text \<open>
  The table: row \<open>i\<close> is computed from right to left out of row \<open>i + 1\<close>, the rows from
  the last to the first. Row \<open>n\<close> and column \<open>m\<close> are the zeros of the slab.
\<close>

fun dp_row :: "'a \<Rightarrow> 'a list \<Rightarrow> nat list \<Rightarrow> nat list" where
  "dp_row x [] below = [0]"
| "dp_row x (y # ys) below =
     (let row = dp_row x ys (tl below) in
      (if x = y then hd (tl below) + 1 else max (hd below) (hd row)) # row)"

fun dp_table :: "'a list \<Rightarrow> 'a list \<Rightarrow> nat list list" where
  "dp_table [] mb = [replicate (length mb + 1) 0]"
| "dp_table (x # xs) mb = (let t = dp_table xs mb in dp_row x mb (hd t) # t)"

text \<open>The walk through the table, and the two loops that flush what is left.\<close>

function walk ::
    "'a list \<Rightarrow> 'a list \<Rightarrow> nat list list \<Rightarrow> nat \<Rightarrow> nat \<Rightarrow> nat \<Rightarrow> diff_op list" where
  "walk ma mb dp p i j =
     (if i < length ma \<and> j < length mb then
        if ma ! i = mb ! j then mk_op Equal (p + i) (p + j) # walk ma mb dp p (Suc i) (Suc j)
        else if dp ! Suc i ! j \<ge> dp ! i ! Suc j then
          mk_op Delete (p + i) 0 # walk ma mb dp p (Suc i) j
        else mk_op Insert 0 (p + j) # walk ma mb dp p i (Suc j)
      else map (\<lambda>i. mk_op Delete (p + i) 0) [i..<length ma] @
           map (\<lambda>j. mk_op Insert 0 (p + j)) [j..<length mb])"
  by pat_completeness auto
termination
  by (relation "measure (\<lambda>(ma, mb, dp, p, i, j). (length ma - i) + (length mb - j))") auto

declare walk.simps [simp del]

definition diff_lines :: "'a list \<Rightarrow> 'a list \<Rightarrow> diff_op list" where
  "diff_lines a b =
     (let p = common_prefix a b 0;
          s = common_suffix a b p 0;
          ma = drop p (take (length a - s) a);
          mb = drop p (take (length b - s) b)
      in map (\<lambda>i. mk_op Equal i i) [0..<p] @
         walk ma mb (dp_table ma mb) p 0 0 @
         map (\<lambda>k. mk_op Equal (length a - s + k) (length b - s + k)) [0..<s])"

section \<open>Hunks\<close>

definition diff_context :: nat where "diff_context = 3"

record hunk =
  hk_a_start :: nat
  hk_a_count :: nat
  hk_b_start :: nat
  hk_b_count :: nat
  hk_lines :: "(op_tag \<times> string) list"

text \<open>
  The arrays \<open>aOff\<close> and \<open>bOff\<close>: entry \<open>k\<close> counts the operations before \<open>k\<close> that
  consume a line.
\<close>

fun offsets :: "op_tag \<Rightarrow> nat \<Rightarrow> diff_op list \<Rightarrow> nat list" where
  "offsets skip n [] = [n]"
| "offsets skip n (x # xs) = n # offsets skip (if op_tag x \<noteq> skip then Suc n else n) xs"

definition is_change :: "diff_op list \<Rightarrow> nat \<Rightarrow> bool" where
  "is_change ops k = (k < length ops \<and> op_tag (ops ! k) \<noteq> Equal)"

function run_end :: "diff_op list \<Rightarrow> nat \<Rightarrow> nat" where
  "run_end ops run =
     (if run < length ops \<and> op_tag (ops ! run) = Equal then run_end ops (Suc run) else run)"
  by pat_completeness auto
termination by (relation "measure (\<lambda>(ops, run). length ops - run)") auto

declare run_end.simps [simp del]

lemma run_end_ge: "run \<le> run_end ops run"
proof (induction ops run rule: run_end.induct)
  case (1 ops run)
  then show ?case using run_end.simps [of ops run] Suc_leD by auto
qed

function group_last :: "diff_op list \<Rightarrow> nat \<Rightarrow> nat \<Rightarrow> nat" where
  "group_last ops lst nxt =
     (if nxt < length ops then
        if op_tag (ops ! nxt) \<noteq> Equal then group_last ops nxt (Suc nxt)
        else
          let run = run_end ops nxt in
          if run < length ops \<and> run - nxt \<le> 2 * diff_context then group_last ops lst run
          else lst
      else lst)"
  by pat_completeness auto

lemma run_end_gt:
  "nxt < length ops \<Longrightarrow> op_tag (ops ! nxt) = Equal \<Longrightarrow> nxt < run_end ops nxt"
  using run_end_ge [of "Suc nxt" ops] run_end.simps [of ops nxt] by simp

termination group_last
  by (relation "measure (\<lambda>(ops, lst, nxt). length ops - nxt)")
    (auto intro: diff_less_mono2 dest: run_end_gt)

declare group_last.simps [simp del]

lemma group_last_ge: "lst < nxt \<Longrightarrow> lst \<le> group_last ops lst nxt"
proof (induction ops lst nxt rule: group_last.induct)
  case (1 ops lst nxt)
  have r: "lst < run_end ops nxt"
    using run_end_ge [of nxt ops] 1(3) by linarith
  have s: "lst \<le> group_last ops nxt (Suc nxt)" if "nxt < length ops" "op_tag (ops ! nxt) \<noteq> Equal"
    using 1(1) [OF that] 1(3) by linarith
  show ?case
    using s 1(2) [OF _ _ refl] r
    by (subst group_last.simps) (simp add: Let_def)
qed

definition op_line :: "string list \<Rightarrow> string list \<Rightarrow> diff_op \<Rightarrow> op_tag \<times> string" where
  "op_line a b x =
     (op_tag x, case op_tag x of Insert \<Rightarrow> b ! op_bi x | _ \<Rightarrow> a ! op_ai x)"

text \<open>The hunk of the operations from \<open>lo\<close> to before \<open>hi\<close>, with its header.\<close>

definition mk_hunk :: "string list \<Rightarrow> string list \<Rightarrow> diff_op list \<Rightarrow> nat \<Rightarrow> nat \<Rightarrow> hunk" where
  "mk_hunk a b ops lo hi =
     (let a_off = offsets Insert 0 ops; b_off = offsets Delete 0 ops;
          a_count = a_off ! hi - a_off ! lo; b_count = b_off ! hi - b_off ! lo
      in \<lparr>hk_a_start = (if a_count = 0 then a_off ! lo else a_off ! lo + 1), hk_a_count = a_count,
          hk_b_start = (if b_count = 0 then b_off ! lo else b_off ! lo + 1), hk_b_count = b_count,
          hk_lines = map (op_line a b) (take (hi - lo) (drop lo ops))\<rparr>)"

function hunks_from :: "string list \<Rightarrow> string list \<Rightarrow> diff_op list \<Rightarrow> nat \<Rightarrow> hunk list" where
  "hunks_from a b ops k =
     (if k < length ops then
        if op_tag (ops ! k) = Equal then hunks_from a b ops (Suc k)
        else
          let lst = group_last ops k (Suc k);
              lo = k - diff_context;
              hi = min (lst + diff_context + 1) (length ops)
          in mk_hunk a b ops lo hi # hunks_from a b ops hi
      else [])"
  by pat_completeness auto
termination
proof (relation "measure (\<lambda>(a, b, ops, k). length ops - k)", goal_cases)
  case (3 a b ops k l lo hi)
  then show ?case using group_last_ge [of k "Suc k" ops] by (auto simp: diff_context_def)
qed auto

declare hunks_from.simps [simp del]

section \<open>Text\<close>

definition newline :: string where "newline = [CHR 0x0A]"

definition tag_byte :: "op_tag \<Rightarrow> char" where
  "tag_byte t = (case t of Equal \<Rightarrow> CHR '' '' | Delete \<Rightarrow> CHR ''-'' | Insert \<Rightarrow> CHR ''+'')"

definition emit_line :: "op_tag \<times> string \<Rightarrow> string" where
  "emit_line l =
     tag_byte (fst l) # snd l @
     (if has_suffix (snd l) newline then []
      else newline @ [CHR 0x5C] @ '' No newline at end of file'' @ newline)"

definition hunk_text :: "hunk \<Rightarrow> string" where
  "hunk_text h =
     ''@@ -'' @ itoa (int (hk_a_start h)) @ '','' @ itoa (int (hk_a_count h)) @ '' +'' @
     itoa (int (hk_b_start h)) @ '','' @ itoa (int (hk_b_count h)) @ '' @@'' @ newline @
     concat (map emit_line (hk_lines h))"

definition render_hunks :: "string list \<Rightarrow> string list \<Rightarrow> diff_op list \<Rightarrow> string" where
  "render_hunks a b ops = concat (map hunk_text (hunks_from a b ops 0))"

definition unified_diff :: "string \<Rightarrow> string \<Rightarrow> string \<Rightarrow> string" where
  "unified_diff path a b =
     (if a = b then []
      else let al = split_lines a; bl = split_lines b in
           ''--- a/'' @ path @ newline @ ''+++ b/'' @ path @ newline @
           render_hunks al bl (diff_lines al bl))"

section \<open>The dry run\<close>

text \<open>
  \<open>relPath\<close>: the path relative to the working directory \<open>cacheWd\<close> captured, when there
  is one and the path is below it.
\<close>

definition rel_path :: "string option \<Rightarrow> string \<Rightarrow> string" where
  "rel_path wd p =
     (case wd of
        None \<Rightarrow> p
      | Some w \<Rightarrow>
          (case path_rel w p of
             Some r \<Rightarrow> if has_prefix r ''..'' then p else r
           | None \<Rightarrow> p))"

text \<open>
  \<open>diffFixes\<close>: standard output and exit code; none when \<open>patchedFiles\<close> panics. Nothing
  is written to a file.
\<close>

definition diff_fixes ::
    "patch_env \<Rightarrow> bool \<Rightarrow> finding list \<Rightarrow> (string \<times> int) option" where
  "diff_fixes env exit_zero fs =
     (case patched_files env fs of
        None \<Rightarrow> None
      | Some (fls, _) \<Rightarrow>
          let changed = stable_sort (\<lambda>x y. str_compare (fst x) (fst y))
                (filter (\<lambda>(_, pf). pf_orig pf \<noteq> pf_fixed pf) fls)
          in Some (concat (map (\<lambda>(path, pf).
                 unified_diff (rel_path (env_cwd (pe_os env)) path) (pf_orig pf) (pf_fixed pf)) changed),
               if changed \<noteq> [] \<and> \<not> exit_zero then 1 else 0))"

end
