(* ===== verification/Diff_Props.thy ===== *)
theory Diff_Props
  imports Diff Edits_Props
begin

text \<open>
  Correctness of the dry run: the alignment turns one file into the other and keeps a
  longest common subsequence of lines, the hunks are a patch that applies, and the exit
  code agrees with what \<open>-fix\<close> would do.
\<close>

section \<open>Longest common subsequences\<close>

fun lcs :: "'a list \<Rightarrow> 'a list \<Rightarrow> nat" where
  "lcs [] b = 0"
| "lcs a [] = 0"
| "lcs (x # xs) (y # ys) =
     (if x = y then Suc (lcs xs ys) else max (lcs xs (y # ys)) (lcs (x # xs) ys))"

definition longest_common :: "'a list \<Rightarrow> 'a list \<Rightarrow> nat \<Rightarrow> bool" where
  "longest_common a b n =
     ((\<exists>zs. subseq zs a \<and> subseq zs b \<and> length zs = n) \<and>
      (\<forall>zs. subseq zs a \<and> subseq zs b \<longrightarrow> length zs \<le> n))"

lemma lcs_Nil2 [simp]: "lcs a [] = 0"
  by (cases a) auto

lemma lcs_common: "\<exists>zs. subseq zs a \<and> subseq zs b \<and> length zs = lcs a b"
proof (induction a b rule: lcs.induct)
  case (3 x xs y ys)
  show ?case
  proof (cases "x = y")
    case True
    with 3(1) obtain zs where "subseq zs xs" "subseq zs ys" "length zs = lcs xs ys" by blast
    with True show ?thesis by (intro exI [of _ "x # zs"]) simp
  next
    case False
    with 3 obtain us vs where "subseq us xs" "subseq us (y # ys)" "length us = lcs xs (y # ys)"
      and "subseq vs (x # xs)" "subseq vs ys" "length vs = lcs (x # xs) ys" by blast
    moreover from this have "subseq us (x # xs)" "subseq vs (y # ys)" by auto
    ultimately show ?thesis
      using False by (cases "lcs (x # xs) ys \<le> lcs xs (y # ys)") (auto simp: max_def)
  qed
qed auto

lemma lcs_bound: "subseq zs a \<Longrightarrow> subseq zs b \<Longrightarrow> length zs \<le> lcs a b"
proof (induction a b arbitrary: zs rule: lcs.induct)
  case (3 x xs y ys)
  show ?case
  proof (cases zs)
    case Nil
    then show ?thesis by simp
  next
    case (Cons z zs')
    consider "x = y" "z = x" | "x = y" "z \<noteq> x" | "x \<noteq> y" "z \<noteq> x" | "x \<noteq> y" "z \<noteq> y" by blast
    then show ?thesis
    proof cases
      case 1
      with 3(1) [of zs'] 3(4,5) Cons show ?thesis by simp
    next
      case 2
      with 3(1) [of zs] 3(4,5) Cons show ?thesis by simp
    next
      case 3
      with "3.IH"(2) [of zs] "3.prems" Cons have "length zs \<le> lcs xs (y # ys)"
        by (simp split: if_splits)
      with 3(1) show ?thesis by simp
    next
      case 4
      with "3.IH"(3) [of zs] "3.prems" Cons have "length zs \<le> lcs (x # xs) ys"
        by (simp split: if_splits)
      with 4(1) show ?thesis by simp
    qed
  qed
qed auto

lemma lcs_longest: "longest_common a b n \<longleftrightarrow> n = lcs a b"
  unfolding longest_common_def using lcs_common [of a b] lcs_bound [of _ a b] le_antisym by metis

lemma lcs_prefix: "lcs (ps @ a) (ps @ b) = length ps + lcs a b"
  by (induction ps) auto

lemma subseq_rev: "subseq xs ys \<Longrightarrow> subseq (rev xs) (rev ys)"
  by (induction rule: list_emb.induct) (auto intro: list_emb_append_mono)

lemma lcs_rev: "lcs (rev a) (rev b) = lcs a b"
proof -
  have "lcs a b \<le> lcs (rev a) (rev b)" for a b :: "'a list"
    using lcs_common [of a b] lcs_bound by (metis length_rev subseq_rev)
  from this [of a b] this [of "rev a" "rev b"] show ?thesis by simp
qed

lemma lcs_suffix: "lcs (a @ ss) (b @ ss) = length ss + lcs a b"
  using lcs_prefix [of "rev ss" "rev a" "rev b"] lcs_rev [of "a @ ss" "b @ ss"] lcs_rev [of a b] by simp

section \<open>The table\<close>

fun suffix_lcs :: "'a list \<Rightarrow> 'a list \<Rightarrow> nat list" where
  "suffix_lcs xs [] = [lcs xs []]"
| "suffix_lcs xs (y # ys) = lcs xs (y # ys) # suffix_lcs xs ys"

lemma suffix_lcs_hd [simp]: "hd (suffix_lcs xs ys) = lcs xs ys"
  by (cases ys) auto

lemma suffix_lcs_Nil: "suffix_lcs [] ys = replicate (length ys + 1) 0"
  by (induction ys) auto

lemma suffix_lcs_nth: "j \<le> length ys \<Longrightarrow> suffix_lcs xs ys ! j = lcs xs (drop j ys)"
  by (induction ys arbitrary: j) (auto simp: nth_Cons split: nat.split)

lemma dp_row_lcs: "dp_row x ys (suffix_lcs xs ys) = suffix_lcs (x # xs) ys"
  by (induction ys) (auto simp: Let_def)

lemma dp_table_lcs: "dp_table xs mb = map (\<lambda>i. suffix_lcs (drop i xs) mb) [0..<Suc (length xs)]"
proof (induction xs)
  case Nil
  show ?case by (simp add: suffix_lcs_Nil)
next
  case (Cons x xs)
  have h: "hd (map (\<lambda>i. suffix_lcs (drop i xs) mb) [0..<Suc (length xs)]) = suffix_lcs xs mb"
    by (simp add: hd_map upt_conv_Cons del: upt_Suc)
  have "map (\<lambda>i. suffix_lcs (drop i (x # xs)) mb) [0..<Suc (Suc (length xs))] =
      suffix_lcs (x # xs) mb # map (\<lambda>i. suffix_lcs (drop i xs) mb) [0..<Suc (length xs)]"
    using map_Suc_upt [of 0 "Suc (length xs)"]
    by (simp add: upt_conv_Cons [of 0] del: upt_Suc flip: map_Suc_upt)
  then show ?case by (simp add: Cons.IH Let_def h dp_row_lcs del: upt_Suc)
qed

lemma dp_table_nth:
  "i \<le> length ma \<Longrightarrow> j \<le> length mb \<Longrightarrow> dp_table ma mb ! i ! j = lcs (drop i ma) (drop j mb)"
  by (simp add: dp_table_lcs suffix_lcs_nth del: upt_Suc)

section \<open>Alignments\<close>

definition kept_ops :: "diff_op list \<Rightarrow> diff_op list" where
  "kept_ops ops = filter (\<lambda>x. op_tag x = Equal) ops"

definition a_ops :: "diff_op list \<Rightarrow> diff_op list" where
  "a_ops ops = filter (\<lambda>x. op_tag x \<noteq> Insert) ops"

definition b_ops :: "diff_op list \<Rightarrow> diff_op list" where
  "b_ops ops = filter (\<lambda>x. op_tag x \<noteq> Delete) ops"

lemma ops_append [simp]:
  "kept_ops (xs @ ys) = kept_ops xs @ kept_ops ys"
  "a_ops (xs @ ys) = a_ops xs @ a_ops ys"
  "b_ops (xs @ ys) = b_ops xs @ b_ops ys"
  by (simp_all add: kept_ops_def a_ops_def b_ops_def)

lemma mk_op_sel [simp]:
  "op_tag (mk_op t i j) = t" "op_ai (mk_op t i j) = i" "op_bi (mk_op t i j) = j"
  by (simp_all add: mk_op_def)

lemma a_ops_simps [simp]:
  "a_ops [] = []" "a_ops (mk_op Insert i j # r) = a_ops r"
  "a_ops (mk_op Delete i j # r) = mk_op Delete i j # a_ops r"
  "a_ops (mk_op Equal i j # r) = mk_op Equal i j # a_ops r"
  by (simp_all add: a_ops_def)

lemma b_ops_simps [simp]:
  "b_ops [] = []" "b_ops (mk_op Insert i j # r) = mk_op Insert i j # b_ops r"
  "b_ops (mk_op Delete i j # r) = b_ops r"
  "b_ops (mk_op Equal i j # r) = mk_op Equal i j # b_ops r"
  by (simp_all add: b_ops_def)

lemma kept_ops_simps [simp]:
  "kept_ops [] = []" "kept_ops (mk_op Insert i j # r) = kept_ops r"
  "kept_ops (mk_op Delete i j # r) = kept_ops r"
  "kept_ops (mk_op Equal i j # r) = mk_op Equal i j # kept_ops r"
  by (simp_all add: kept_ops_def)

lemma ops_of_map [simp]:
  "a_ops (map (\<lambda>i. mk_op Delete (f i) (g i)) is) = map (\<lambda>i. mk_op Delete (f i) (g i)) is"
  "a_ops (map (\<lambda>i. mk_op Insert (f i) (g i)) is) = []"
  "a_ops (map (\<lambda>i. mk_op Equal (f i) (g i)) is) = map (\<lambda>i. mk_op Equal (f i) (g i)) is"
  "b_ops (map (\<lambda>i. mk_op Delete (f i) (g i)) is) = []"
  "b_ops (map (\<lambda>i. mk_op Insert (f i) (g i)) is) = map (\<lambda>i. mk_op Insert (f i) (g i)) is"
  "b_ops (map (\<lambda>i. mk_op Equal (f i) (g i)) is) = map (\<lambda>i. mk_op Equal (f i) (g i)) is"
  "kept_ops (map (\<lambda>i. mk_op Delete (f i) (g i)) is) = []"
  "kept_ops (map (\<lambda>i. mk_op Insert (f i) (g i)) is) = []"
  "kept_ops (map (\<lambda>i. mk_op Equal (f i) (g i)) is) = map (\<lambda>i. mk_op Equal (f i) (g i)) is"
  by (induction "is") auto

text \<open>
  An alignment consumes the lines of both files once each and in order, and keeps only
  lines that are equal.
\<close>

definition aligned :: "'a list \<Rightarrow> 'a list \<Rightarrow> diff_op list \<Rightarrow> bool" where
  "aligned a b ops =
     (map op_ai (a_ops ops) = [0..<length a] \<and> map op_bi (b_ops ops) = [0..<length b] \<and>
      list_all (\<lambda>x. a ! op_ai x = b ! op_bi x) (kept_ops ops))"

lemma walk_a: "i \<le> length ma \<Longrightarrow> j \<le> length mb \<Longrightarrow>
    map op_ai (a_ops (walk ma mb dp p i j)) = map ((+) p) [i..<length ma]"
proof (induction ma mb dp p i j rule: walk.induct)
  case (1 ma mb dp p i j)
  then show ?case
    by (subst walk.simps) (auto simp: upt_conv_Cons comp_def)
qed

lemma walk_b: "i \<le> length ma \<Longrightarrow> j \<le> length mb \<Longrightarrow>
    map op_bi (b_ops (walk ma mb dp p i j)) = map ((+) p) [j..<length mb]"
proof (induction ma mb dp p i j rule: walk.induct)
  case (1 ma mb dp p i j)
  then show ?case
    by (subst walk.simps) (auto simp: upt_conv_Cons comp_def)
qed

lemma walk_kept:
  "x \<in> set (kept_ops (walk ma mb dp p i j)) \<Longrightarrow>
     \<exists>u v. op_ai x = p + u \<and> op_bi x = p + v \<and> u < length ma \<and> v < length mb \<and> ma ! u = mb ! v"
proof (induction ma mb dp p i j rule: walk.induct)
  case (1 ma mb dp p i j)
  show ?case
  proof (cases "i < length ma \<and> j < length mb")
    case True
    then show ?thesis
      using 1 walk.simps [of ma mb dp p i j] by (fastforce split: if_splits)
  next
    case False
    then show ?thesis using 1(4) walk.simps [of ma mb dp p i j] by auto
  qed
qed

lemma walk_count:
  assumes "\<And>i j. i \<le> length ma \<Longrightarrow> j \<le> length mb \<Longrightarrow> dp ! i ! j = lcs (drop i ma) (drop j mb)"
  shows "i \<le> length ma \<Longrightarrow> j \<le> length mb \<Longrightarrow>
    length (kept_ops (walk ma mb dp p i j)) = lcs (drop i ma) (drop j mb)"
  using assms
proof (induction ma mb dp p i j rule: walk.induct)
  case (1 ma mb dp p i j)
  show ?case
  proof (cases "i < length ma \<and> j < length mb")
    case True
    then have d: "drop i ma = ma ! i # drop (Suc i) ma" "drop j mb = mb ! j # drop (Suc j) mb"
      by (simp_all add: Cons_nth_drop_Suc)
    have t: "dp ! Suc i ! j = lcs (drop (Suc i) ma) (drop j mb)"
      "dp ! i ! Suc j = lcs (drop i ma) (drop (Suc j) mb)"
      using True 1(6) by simp_all
    consider "ma ! i = mb ! j" | "ma ! i \<noteq> mb ! j" "dp ! i ! Suc j \<le> dp ! Suc i ! j"
      | "ma ! i \<noteq> mb ! j" "\<not> dp ! i ! Suc j \<le> dp ! Suc i ! j" by blast
    then show ?thesis
    proof cases
      case 1
      with "1.IH"(1) "1.prems" True d show ?thesis by (simp add: walk.simps [of ma mb dp p i j])
    next
      case 2
      with "1.IH"(2) "1.prems" True have "length (kept_ops (walk ma mb dp p i j)) =
          lcs (drop (Suc i) ma) (drop j mb)" by (simp add: walk.simps [of ma mb dp p i j])
      with 2 t d show ?thesis by (simp add: max_def)
    next
      case 3
      with "1.IH"(3) "1.prems" True have "length (kept_ops (walk ma mb dp p i j)) =
          lcs (drop i ma) (drop (Suc j) mb)" by (simp add: walk.simps [of ma mb dp p i j])
      with 3 t d show ?thesis by (simp add: max_def)
    qed
  next
    case False
    then have "i = length ma \<or> j = length mb" using 1 by auto
    with False show ?thesis by (auto simp: walk.simps [of ma mb dp p i j])
  qed
qed

lemma common_prefix_spec:
  "k \<le> length a \<Longrightarrow> k \<le> length b \<Longrightarrow> take k a = take k b \<Longrightarrow> common_prefix a b k = p \<Longrightarrow>
     p \<le> length a \<and> p \<le> length b \<and> take p a = take p b"
proof (induction a b k rule: common_prefix.induct)
  case (1 a b k)
  then show ?case
    using common_prefix.simps [of a b k] by (auto simp: take_Suc_conv_app_nth split: if_splits)
qed

lemma drop_last: "k < length a \<Longrightarrow> drop (length a - Suc k) a = a ! (length a - 1 - k) # drop (length a - k) a"
  using Cons_nth_drop_Suc [of "length a - Suc k" a] by (simp add: Suc_diff_Suc)

lemma common_suffix_spec:
  "k \<le> length a - p \<Longrightarrow> k \<le> length b - p \<Longrightarrow>
     drop (length a - k) a = drop (length b - k) b \<Longrightarrow> common_suffix a b p k = s \<Longrightarrow>
     s \<le> length a - p \<and> s \<le> length b - p \<and> drop (length a - s) a = drop (length b - s) b"
proof (induction a b p k rule: common_suffix.induct)
  case (1 a b p k)
  show ?case
  proof (cases "k < length a - p \<and> k < length b - p \<and> a ! (length a - 1 - k) = b ! (length b - 1 - k)")
    case True
    then have "k < length a" "k < length b" by linarith+
    with True have "drop (length a - Suc k) a = drop (length b - Suc k) b"
      using 1(4) drop_last [of k a] drop_last [of k b] by simp
    moreover have "common_suffix a b p (Suc k) = s"
      using 1(5) True by (subst (asm) common_suffix.simps) simp
    ultimately show ?thesis using 1(1) [OF True] True by simp
  next
    case False
    then have "s = k" using 1(5) by (subst (asm) common_suffix.simps) auto
    with 1 show ?thesis by simp
  qed
qed

text \<open>The three parts of the alignment.\<close>

lemma diff_parts:
  obtains ps ma mb ss where "a = ps @ ma @ ss" and "b = ps @ mb @ ss"
    and "diff_lines a b = map (\<lambda>i. mk_op Equal i i) [0..<length ps] @
      walk ma mb (dp_table ma mb) (length ps) 0 0 @
      map (\<lambda>k. mk_op Equal (length ps + length ma + k) (length ps + length mb + k)) [0..<length ss]"
proof -
  let ?p = "common_prefix a b 0"
  let ?s = "common_suffix a b ?p 0"
  have p: "?p \<le> length a" "?p \<le> length b" "take ?p a = take ?p b"
    using common_prefix_spec [of 0 a b] by simp_all
  have s: "?s \<le> length a - ?p" "?s \<le> length b - ?p" "drop (length a - ?s) a = drop (length b - ?s) b"
    using common_suffix_spec [of 0 a ?p b] by simp_all
  let ?ma = "drop ?p (take (length a - ?s) a)" and ?mb = "drop ?p (take (length b - ?s) b)"
  have split: "c = take ?p c @ drop ?p (take (length c - ?s) c) @ drop (length c - ?s) c"
    if "?p \<le> length c" "?s \<le> length c - ?p" for c
  proof -
    have "?p \<le> length c - ?s" using that by linarith
    then have "take ?p (take (length c - ?s) c) = take ?p c" by (simp add: min_def)
    then show ?thesis by (metis append.assoc append_take_drop_id)
  qed
  show ?thesis
  proof
    show "a = take ?p a @ ?ma @ drop (length a - ?s) a" using split p s by blast
    show "b = take ?p a @ ?mb @ drop (length a - ?s) a" using split [of b] p s by simp
    show "diff_lines a b = map (\<lambda>i. mk_op Equal i i) [0..<length (take ?p a)] @
      walk ?ma ?mb (dp_table ?ma ?mb) (length (take ?p a)) 0 0 @
      map (\<lambda>k. mk_op Equal (length (take ?p a) + length ?ma + k) (length (take ?p a) + length ?mb + k))
        [0..<length (drop (length a - ?s) a)]"
      using p s by (simp add: diff_lines_def Let_def)
  qed
qed

lemma upt_shift: "map ((+) n) [0..<m] = [n..<n + m]"
  by (induction m) auto

lemma upt_glue: "[0..<n] @ [n..<n + m] @ [n + m..<n + m + k] = [0..<n + (m + k)]"
  by (metis add.assoc le_add1 upt_add_eq_append zero_le append.assoc)

lemma diff_aligned: "aligned a b (diff_lines a b)"
proof -
  obtain ps ma mb ss where a: "a = ps @ ma @ ss" and b: "b = ps @ mb @ ss"
    and d: "diff_lines a b = map (\<lambda>i. mk_op Equal i i) [0..<length ps] @
      walk ma mb (dp_table ma mb) (length ps) 0 0 @
      map (\<lambda>k. mk_op Equal (length ps + length ma + k) (length ps + length mb + k)) [0..<length ss]"
    by (rule diff_parts)
  have "map op_ai (a_ops (diff_lines a b)) = [0..<length ps] @
      [length ps..<length ps + length ma] @ [length ps + length ma..<length ps + length ma + length ss]"
    unfolding d by (simp add: walk_a comp_def upt_shift)
  also have "\<dots> = [0..<length a]" unfolding upt_glue a by simp
  finally have "map op_ai (a_ops (diff_lines a b)) = [0..<length a]" .
  moreover have "map op_bi (b_ops (diff_lines a b)) = [0..<length ps] @
      [length ps..<length ps + length mb] @ [length ps + length mb..<length ps + length mb + length ss]"
    unfolding d by (simp add: walk_b comp_def upt_shift)
  then have "map op_bi (b_ops (diff_lines a b)) = [0..<length b]" unfolding upt_glue b by simp
  moreover have "a ! op_ai x = b ! op_bi x" if "x \<in> set (kept_ops (diff_lines a b))" for x
  proof -
    from that have "(\<exists>i<length ps. x = mk_op Equal i i) \<or>
        x \<in> set (kept_ops (walk ma mb (dp_table ma mb) (length ps) 0 0)) \<or>
        (\<exists>k<length ss. x = mk_op Equal (length ps + length ma + k) (length ps + length mb + k))"
      unfolding d by auto
    then show ?thesis
      by (auto simp: a b nth_append dest!: walk_kept)
  qed
  then have "list_all (\<lambda>x. a ! op_ai x = b ! op_bi x) (kept_ops (diff_lines a b))"
    by (simp add: list_all_iff)
  ultimately show ?thesis by (simp add: aligned_def)
qed

lemma diff_kept: "length (kept_ops (diff_lines a b)) = lcs a b"
proof -
  obtain ps ma mb ss where a: "a = ps @ ma @ ss" and b: "b = ps @ mb @ ss"
    and d: "diff_lines a b = map (\<lambda>i. mk_op Equal i i) [0..<length ps] @
      walk ma mb (dp_table ma mb) (length ps) 0 0 @
      map (\<lambda>k. mk_op Equal (length ps + length ma + k) (length ps + length mb + k)) [0..<length ss]"
    by (rule diff_parts)
  have "length (kept_ops (walk ma mb (dp_table ma mb) (length ps) 0 0)) = lcs ma mb"
    using walk_count [of ma mb "dp_table ma mb" 0 0] dp_table_nth [of _ ma _ mb] by simp
  then show ?thesis
    unfolding d by (simp add: a b lcs_prefix lcs_suffix)
qed

text \<open>
  C14: the alignment is correct and minimal. It consumes every line of both files
  exactly once and in order, keeps only pairs of equal lines, and the number of lines it
  keeps is the length of a longest common subsequence: no shorter edit script exists, in
  spite of the trimming of a common prefix and suffix.
\<close>

theorem diff_lines_optimal:
  "aligned a b (diff_lines a b) \<and> longest_common a b (length (kept_ops (diff_lines a b)))"
  by (simp add: diff_aligned lcs_longest diff_kept)

section \<open>Hunks form a patch\<close>

text \<open>
  What \<open>patch\<close> does with hunks: it copies lines up to the start of a hunk, checks that
  the counts of the header are those of the lines, that the old side is what the file has
  there and that the new side lands on the announced line, and emits the new side. The
  first argument is the file from line \<open>pos\<close> on, and \<open>out\<close> lines were emitted so far.
\<close>

definition hunk_old :: "hunk \<Rightarrow> string list" where
  "hunk_old h = map snd (filter (\<lambda>l. fst l \<noteq> Insert) (hk_lines h))"

definition hunk_new :: "hunk \<Rightarrow> string list" where
  "hunk_new h = map snd (filter (\<lambda>l. fst l \<noteq> Delete) (hk_lines h))"

definition hunk_line :: "nat \<Rightarrow> nat \<Rightarrow> nat" where
  "hunk_line start n = (if n = 0 then start else start - 1)"

fun apply_hunks :: "string list \<Rightarrow> nat \<Rightarrow> nat \<Rightarrow> hunk list \<Rightarrow> string list option" where
  "apply_hunks rest pos out [] = Some rest"
| "apply_hunks rest pos out (h # hs) =
     (let at = hunk_line (hk_a_start h) (hk_a_count h); skip = at - pos in
      if at < pos \<or> length rest < skip + hk_a_count h \<or>
         take (hk_a_count h) (drop skip rest) \<noteq> hunk_old h \<or>
         length (hunk_new h) \<noteq> hk_b_count h \<or>
         hunk_line (hk_b_start h) (hk_b_count h) \<noteq> out + skip
      then None
      else map_option (\<lambda>r. take skip rest @ hunk_new h @ r)
             (apply_hunks (drop (skip + hk_a_count h) rest) (at + hk_a_count h)
               (out + skip + hk_b_count h) hs))"

text \<open>The old and the new text of a stretch of operations.\<close>

definition old_text :: "string list \<Rightarrow> string list \<Rightarrow> diff_op list \<Rightarrow> string list" where
  "old_text a b ops = map (\<lambda>x. a ! op_ai x) (a_ops ops)"

definition new_text :: "string list \<Rightarrow> string list \<Rightarrow> diff_op list \<Rightarrow> string list" where
  "new_text a b ops =
     map (\<lambda>x. if op_tag x = Insert then b ! op_bi x else a ! op_ai x) (b_ops ops)"

lemma text_append [simp]:
  "old_text a b (xs @ ys) = old_text a b xs @ old_text a b ys"
  "new_text a b (xs @ ys) = new_text a b xs @ new_text a b ys"
  by (simp_all add: old_text_def new_text_def)

lemma map_nth_filter:
  assumes "map f xs = [0..<length a]"
  shows "map (\<lambda>x. a ! f x) xs = a"
proof -
  have "map (\<lambda>x. a ! f x) xs = map ((!) a) (map f xs)" by simp
  then show ?thesis unfolding assms map_nth .
qed

lemma aligned_old: "aligned a b ops \<Longrightarrow> old_text a b ops = a"
  unfolding aligned_def old_text_def by (rule map_nth_filter) blast

lemma aligned_new:
  assumes "aligned a b ops"
  shows "new_text a b ops = b"
proof -
  have "(if op_tag x = Insert then b ! op_bi x else a ! op_ai x) = b ! op_bi x"
    if "x \<in> set (b_ops ops)" for x
  proof -
    have "\<forall>y\<in>set (kept_ops ops). a ! op_ai y = b ! op_bi y"
      using assms unfolding aligned_def list_all_iff by blast
    then show ?thesis using that by (cases "op_tag x") (simp_all add: kept_ops_def b_ops_def)
  qed
  then have "new_text a b ops = map (\<lambda>x. b ! op_bi x) (b_ops ops)"
    unfolding new_text_def by (intro map_cong refl)
  then show ?thesis
    using assms map_nth_filter [of op_bi "b_ops ops" b] unfolding aligned_def by metis
qed

definition all_equal :: "diff_op list \<Rightarrow> bool" where
  "all_equal ops = (\<forall>x\<in>set ops. op_tag x = Equal)"

lemma all_equal_text: "all_equal ops \<Longrightarrow> old_text a b ops = new_text a b ops"
  by (induction ops) (auto simp: all_equal_def old_text_def new_text_def a_ops_def b_ops_def)

lemma offsets_nth:
  "k \<le> length ops \<Longrightarrow>
     offsets skip n ops ! k = n + length (filter (\<lambda>x. op_tag x \<noteq> skip) (take k ops))"
proof (induction ops arbitrary: n k)
  case (Cons x xs)
  then show ?case by (cases k) auto
qed simp

lemma offsets_a: "k \<le> length ops \<Longrightarrow> offsets Insert 0 ops ! k = length (old_text a b (take k ops))"
  by (simp add: offsets_nth old_text_def a_ops_def)

lemma offsets_b: "k \<le> length ops \<Longrightarrow> offsets Delete 0 ops ! k = length (new_text a b (take k ops))"
  by (simp add: offsets_nth new_text_def b_ops_def)

lemma hunk_lines_old: "map snd (filter (\<lambda>l. fst l \<noteq> Insert) (map (op_line a b) ops)) = old_text a b ops"
  by (induction ops) (auto simp: old_text_def a_ops_def op_line_def split: op_tag.splits)

lemma hunk_lines_new: "map snd (filter (\<lambda>l. fst l \<noteq> Delete) (map (op_line a b) ops)) = new_text a b ops"
  by (induction ops) (auto simp: new_text_def b_ops_def op_line_def split: op_tag.splits)

text \<open>A stretch of operations split in four: before, unchanged, the hunk, after.\<close>

lemma mk_hunk_parts:
  fixes a b :: "string list"
  assumes "ops = pre @ eqs @ seg @ post"
  defines "h \<equiv> mk_hunk a b ops (length (pre @ eqs)) (length (pre @ eqs @ seg))"
  shows "hunk_old h = old_text a b seg" and "hunk_new h = new_text a b seg"
    and "hk_a_count h = length (old_text a b seg)" and "hk_b_count h = length (new_text a b seg)"
    and "hunk_line (hk_a_start h) (hk_a_count h) = length (old_text a b (pre @ eqs))"
    and "hunk_line (hk_b_start h) (hk_b_count h) = length (new_text a b (pre @ eqs))"
proof -
  have o: "offsets Insert 0 ops ! length (pre @ eqs) = length (old_text a b (pre @ eqs))"
    "offsets Insert 0 ops ! length (pre @ eqs @ seg) = length (old_text a b (pre @ eqs @ seg))"
    "offsets Delete 0 ops ! length (pre @ eqs) = length (new_text a b (pre @ eqs))"
    "offsets Delete 0 ops ! length (pre @ eqs @ seg) = length (new_text a b (pre @ eqs @ seg))"
    by (subst offsets_a offsets_b; simp add: assms(1))+
  show "hunk_old h = old_text a b seg" "hunk_new h = new_text a b seg"
    by (simp_all add: h_def mk_hunk_def hunk_old_def hunk_new_def hunk_lines_old hunk_lines_new assms(1) Let_def)
  show "hk_a_count h = length (old_text a b seg)" "hk_b_count h = length (new_text a b seg)"
    "hunk_line (hk_a_start h) (hk_a_count h) = length (old_text a b (pre @ eqs))"
    "hunk_line (hk_b_start h) (hk_b_count h) = length (new_text a b (pre @ eqs))"
    using o by (simp_all add: h_def mk_hunk_def hunk_line_def Let_def)
qed

lemma apply_hunk_step:
  assumes "ops = pre @ eqs @ seg @ post" and "all_equal eqs"
    and "apply_hunks (old_text a b post) (length (old_text a b (pre @ eqs @ seg)))
      (length (new_text a b (pre @ eqs @ seg))) hs = Some r"
  shows "apply_hunks (old_text a b (eqs @ seg @ post)) (length (old_text a b pre))
    (length (new_text a b pre))
    (mk_hunk a b ops (length (pre @ eqs)) (length (pre @ eqs @ seg)) # hs) =
    Some (new_text a b (eqs @ seg) @ r)"
proof -
  define h where "h = mk_hunk a b ops (length (pre @ eqs)) (length (pre @ eqs @ seg))"
  note parts = mk_hunk_parts [OF assms(1), of a b, folded h_def]
  show ?thesis
    unfolding h_def [symmetric] using assms(3) all_equal_text [OF assms(2), of a b]
    by (simp add: parts parts(5) [unfolded parts(3)] parts(6) [unfolded parts(4)] Let_def add.assoc)
qed

lemma run_end_spec:
  "n \<le> length ops \<Longrightarrow> run_end ops n = r \<Longrightarrow>
     r \<le> length ops \<and> (\<forall>i. n \<le> i \<longrightarrow> i < r \<longrightarrow> \<not> is_change ops i) \<and> (r < length ops \<longrightarrow> is_change ops r)"
proof (induction ops n rule: run_end.induct)
  case (1 ops n)
  show ?case
  proof (cases "n < length ops \<and> op_tag (ops ! n) = Equal")
    case True
    then have "run_end ops (Suc n) = r" using 1(3) by (subst (asm) run_end.simps) simp
    with 1(1) [OF True] True
    have IH: "r \<le> length ops" "\<forall>i. Suc n \<le> i \<longrightarrow> i < r \<longrightarrow> \<not> is_change ops i"
      "r < length ops \<longrightarrow> is_change ops r" by auto
    moreover have "\<not> is_change ops n" using True by (simp add: is_change_def)
    ultimately show ?thesis by (metis le_antisym not_less_eq_eq)
  next
    case False
    then have "r = n" using 1(3) by (subst (asm) run_end.simps) auto
    with 1(2) False show ?thesis by (auto simp: is_change_def)
  qed
qed

lemma group_last_spec:
  "is_change ops lst \<Longrightarrow> lst < nxt \<Longrightarrow> nxt \<le> length ops \<Longrightarrow> nxt = Suc lst \<or> is_change ops nxt \<Longrightarrow>
     group_last ops lst nxt = g \<Longrightarrow>
     lst \<le> g \<and> is_change ops g \<and> (\<forall>c. g < c \<longrightarrow> is_change ops c \<longrightarrow> g + 8 \<le> c)"
proof (induction ops lst nxt rule: group_last.induct)
  case (1 ops lst nxt)
  consider (stop) "nxt = length ops" | (change) "nxt < length ops" "op_tag (ops ! nxt) \<noteq> Equal"
    | (eq) "nxt < length ops" "op_tag (ops ! nxt) = Equal" using 1(5) by linarith
  then show ?case
  proof cases
    case stop
    then have "g = lst" using 1(7) by (subst (asm) group_last.simps) simp
    moreover have "Suc lst = length ops" using stop 1(6) by (auto simp: is_change_def)
    ultimately show ?thesis using 1(3) by (auto simp: is_change_def)
  next
    case change
    then have "group_last ops nxt (Suc nxt) = g" using 1(7) by (subst (asm) group_last.simps) simp
    with 1(1) [OF change] change 1(4) show ?thesis by (auto simp: is_change_def)
  next
    case eq
    let ?r = "run_end ops nxt"
    have r: "?r \<le> length ops" "\<forall>i. nxt \<le> i \<longrightarrow> i < ?r \<longrightarrow> \<not> is_change ops i"
      "?r < length ops \<longrightarrow> is_change ops ?r"
      using run_end_spec [of nxt ops ?r] 1(5) by blast+
    have n: "nxt = Suc lst" using 1(6) eq by (simp add: is_change_def)
    show ?thesis
    proof (cases "?r < length ops \<and> ?r - nxt \<le> 2 * diff_context")
      case True
      then have "group_last ops lst ?r = g"
        using 1(7) eq by (subst (asm) group_last.simps) (simp add: Let_def)
      then show ?thesis
        using 1(2) [OF eq(1) _ refl True] eq r True 1(3,4) run_end_gt [OF eq] by simp
    next
      case False
      then have g: "g = lst" using 1(7) eq by (subst (asm) group_last.simps) (auto simp: Let_def)
      have "g + 8 \<le> c" if "g < c" "is_change ops c" for c
      proof -
        have "?r \<le> c" using that r(2) n g by (meson Suc_leI not_le)
        moreover have "c < length ops" using that by (simp add: is_change_def)
        ultimately show ?thesis using False n g by (simp add: diff_context_def)
      qed
      with g 1(3) show ?thesis by blast
    qed
  qed
qed

lemma all_equal_slice:
  "(\<forall>i. lo \<le> i \<longrightarrow> i < hi \<longrightarrow> \<not> is_change ops i) \<Longrightarrow> all_equal (take (hi - lo) (drop lo ops))"
  by (auto simp: all_equal_def is_change_def in_set_conv_nth)

lemma slice4:
  assumes "base \<le> lo" and "lo \<le> hi" and "hi \<le> length ops"
  shows "ops = take base ops @ take (lo - base) (drop base ops) @ take (hi - lo) (drop lo ops) @ drop hi ops"
    and "take base ops @ take (lo - base) (drop base ops) = take lo ops"
    and "take base ops @ take (lo - base) (drop base ops) @ take (hi - lo) (drop lo ops) = take hi ops"
    and "drop base ops = take (lo - base) (drop base ops) @ take (hi - lo) (drop lo ops) @ drop hi ops"
proof -
  have t: "take i ops @ take (j - i) (drop i ops) = take j ops" if "i \<le> j" for i j
    using that by (metis le_add_diff_inverse take_add)
  show a: "take base ops @ take (lo - base) (drop base ops) = take lo ops" using t assms by blast
  show b: "take base ops @ take (lo - base) (drop base ops) @ take (hi - lo) (drop lo ops) = take hi ops"
    using t [of lo hi] a assms by (metis append.assoc)
  then show c: "ops = take base ops @ take (lo - base) (drop base ops) @ take (hi - lo) (drop lo ops) @ drop hi ops"
    by (metis append.assoc append_take_drop_id)
  then show "drop base ops = take (lo - base) (drop base ops) @ take (hi - lo) (drop lo ops) @ drop hi ops"
    by (metis append_same_eq append_take_drop_id same_append_eq)
qed

lemma hunks_apply:
  "base \<le> k \<Longrightarrow> k \<le> length ops \<Longrightarrow> (\<forall>i. base \<le> i \<longrightarrow> i < k \<longrightarrow> \<not> is_change ops i) \<Longrightarrow>
     (\<forall>c. k \<le> c \<longrightarrow> is_change ops c \<longrightarrow> base \<le> c - diff_context) \<Longrightarrow>
     apply_hunks (old_text a b (drop base ops)) (length (old_text a b (take base ops)))
       (length (new_text a b (take base ops))) (hunks_from a b ops k) =
     Some (new_text a b (drop base ops))"
proof (induction a b ops k arbitrary: base rule: hunks_from.induct)
  case (1 a b ops k)
  consider (stop) "k = length ops" | (eq) "k < length ops" "op_tag (ops ! k) = Equal"
    | (change) "k < length ops" "op_tag (ops ! k) \<noteq> Equal" using 1(4) by linarith
  then show ?case
  proof cases
    case stop
    then have "all_equal (drop base ops)"
      using all_equal_slice [of base k ops] 1(5) by simp
    moreover have "hunks_from a b ops k = []" using stop by (subst hunks_from.simps) simp
    ultimately show ?thesis by (simp add: all_equal_text)
  next
    case eq
    then have h: "hunks_from a b ops k = hunks_from a b ops (Suc k)"
      by (subst hunks_from.simps) simp
    have "\<not> is_change ops k" using eq by (simp add: is_change_def)
    then have "\<forall>i. base \<le> i \<longrightarrow> i < Suc k \<longrightarrow> \<not> is_change ops i"
      using 1(5) less_Suc_eq by auto
    then show ?thesis
      unfolding h using 1(1) [OF eq, of base] eq 1(3,6) by simp
  next
    case change
    let ?g = "group_last ops k (Suc k)"
    let ?lo = "k - diff_context" and ?hi = "min (?g + diff_context + 1) (length ops)"
    have ck: "is_change ops k" using change by (simp add: is_change_def)
    have g: "k \<le> ?g" "is_change ops ?g" "\<forall>c. ?g < c \<longrightarrow> is_change ops c \<longrightarrow> ?g + 8 \<le> c"
      using group_last_spec [OF ck, of "Suc k" ?g] change by auto
    have h: "hunks_from a b ops k = mk_hunk a b ops ?lo ?hi # hunks_from a b ops ?hi"
      using change by (subst hunks_from.simps) (simp add: Let_def)
    have b: "base \<le> ?lo" using 1(6) ck by blast
    have lohi: "?lo \<le> ?hi" "?hi \<le> length ops" using g(1) change by (auto simp: diff_context_def)
    note s = slice4 [OF b lohi]
    have len: "length (take base ops @ take (?lo - base) (drop base ops)) = ?lo"
      "length (take base ops @ take (?lo - base) (drop base ops) @ take (?hi - ?lo) (drop ?lo ops)) = ?hi"
      unfolding s(2,3) using lohi by (auto simp: min_def)
    have e: "all_equal (take (?lo - base) (drop base ops))"
      using 1(5) by (intro all_equal_slice) auto
    have "apply_hunks (old_text a b (drop ?hi ops)) (length (old_text a b (take ?hi ops)))
        (length (new_text a b (take ?hi ops))) (hunks_from a b ops ?hi) =
        Some (new_text a b (drop ?hi ops))"
    proof (rule 1(2) [OF change refl refl refl])
      show "\<forall>c. ?hi \<le> c \<longrightarrow> is_change ops c \<longrightarrow> ?hi \<le> c - diff_context"
      proof (intro allI impI)
        fix c assume c: "?hi \<le> c" "is_change ops c"
        then have "c < length ops" by (simp add: is_change_def)
        with c g(3) have "?g + 8 \<le> c" by (auto simp: diff_context_def)
        then show "?hi \<le> c - diff_context" by (simp add: diff_context_def)
      qed
    qed (use lohi in auto)
    from apply_hunk_step [OF s(1) e, unfolded len, unfolded s(3), OF this]
    show ?thesis
      unfolding h s(4) [symmetric]
      by (subst (2) s(4)) (simp only: text_append append.assoc)
  qed
qed

lemma concat_split_after: "concat (split_after c s) = s"
  by (induction s) (auto split: list.splits)

lemma concat_split_lines: "concat (split_lines s) = s"
proof (cases "split_after (CHR 0x0A) s = []")
  case True
  then show ?thesis using concat_split_after [of "CHR 0x0A" s] by (simp add: split_lines_def)
next
  case False
  let ?ls = "split_after (CHR 0x0A) s"
  have "concat (butlast ?ls) @ last ?ls = s"
    using concat_split_after [of "CHR 0x0A" s] False
    by (metis append_butlast_last_id concat.simps concat_append append_Nil2)
  then show ?thesis
    by (auto simp: split_lines_def Let_def concat_split_after)
qed

text \<open>
  C12: what \<open>-diff\<close> prints is a patch. Applied to the lines of the original file, with
  the headers checked against the positions and the counts, the hunks give the bytes of
  the fixed file. In particular no two hunks overlap, none is lost when changes are close
  to each other or to an end of the file, and the off-by-one of an empty side is right.
\<close>

theorem unified_diff_applies:
  "map_option concat
     (apply_hunks (split_lines orig) 0 0
       (hunks_from (split_lines orig) (split_lines fixed)
         (diff_lines (split_lines orig) (split_lines fixed)) 0)) = Some fixed"
proof -
  let ?a = "split_lines orig" and ?b = "split_lines fixed"
  let ?ops = "diff_lines ?a ?b"
  have "apply_hunks (old_text ?a ?b (drop 0 ?ops)) (length (old_text ?a ?b (take 0 ?ops)))
      (length (new_text ?a ?b (take 0 ?ops))) (hunks_from ?a ?b ?ops 0) =
      Some (new_text ?a ?b (drop 0 ?ops))"
    by (rule hunks_apply) auto
  then have "apply_hunks ?a 0 0 (hunks_from ?a ?b ?ops 0) = Some ?b"
    by (simp add: aligned_old [OF diff_aligned] aligned_new [OF diff_aligned]
        old_text_def [of _ _ "[]"] new_text_def [of _ _ "[]"])
  then show ?thesis by (simp add: concat_split_lines)
qed

section \<open>The dry run agrees with the fix\<close>

lemma append_at_keys:
  "map fst (append_at k v m) = (if k \<in> set (map fst m) then map fst m else map fst m @ [k])"
  by (induction k v m rule: append_at.induct) auto

lemma append_at_distinct: "distinct (map fst m) \<Longrightarrow> distinct (map fst (append_at k v m))"
  by (simp add: append_at_keys)

lemma fold_append_distinct:
  "distinct (map fst m) \<Longrightarrow> distinct (map fst (fold (\<lambda>(k, v). append_at k v) kvs m))"
  by (induction kvs arbitrary: m) (auto simp: append_at_distinct)

lemma collect_fixes_distinct:
  "distinct (map fst m) \<Longrightarrow> distinct (map fst (fst (collect_fixes fs m k)))"
proof (induction fs arbitrary: m k)
  case Nil
  then show ?case by simp
next
  case (Cons f fs)
  then show ?case by (simp add: fold_append_distinct split: option.split)
qed

lemma patch_files_keys:
  "patch_files env pfs = Some (fls, n) \<Longrightarrow> subseq (map fst fls) (map fst pfs)"
proof (induction pfs arbitrary: fls n)
  case Nil
  then show ?case by simp
next
  case (Cons x pfs)
  then show ?case
    by (cases x) (fastforce split: option.splits prod.splits)
qed

lemma patched_files_distinct:
  assumes "patched_files env fs = Some (fls, n)"
  shows "distinct (map fst fls)"
proof -
  from assms obtain m where "patch_files env (fst (collect_fixes fs [] 0)) = Some (fls, m)"
    by (auto simp: patched_files_def Let_def split: option.splits prod.splits)
  from patch_files_keys [OF this] show ?thesis
    using collect_fixes_distinct [of "[]" fs 0] subseq_distinct by simp
qed

lemma patched_files_orig:
  assumes "patched_files env fs = Some (fls, n)" and "(p, pf) \<in> set fls"
  shows "pe_read env p = Some (pf_orig pf)"
proof -
  from assms obtain pfs m where "patch_files env pfs = Some (fls, m)"
    by (auto simp: patched_files_def Let_def split: option.splits prod.splits)
  with patch_files_guards assms(2) show ?thesis by blast
qed

lemma write_files_all:
  "write_files (\<lambda>_. True) fls fs k = (fs', k') \<Longrightarrow> distinct (map fst fls) \<Longrightarrow>
     fs' p = (case map_of fls p of None \<Rightarrow> fs p | Some pf \<Rightarrow> Some (pf_fixed pf))"
proof (induction fls arbitrary: fs)
  case Nil
  then show ?case by simp
next
  case (Cons x fls)
  obtain q pf where x: "x = (q, pf)" by fastforce
  with Cons.prems(2) have "map_of fls q = None" by (force simp: map_of_eq_None_iff)
  moreover have "fs' p = (case map_of fls p of None \<Rightarrow> (fs(q \<mapsto> pf_fixed pf)) p | Some pf \<Rightarrow> Some (pf_fixed pf))"
  proof (rule Cons.IH)
    show "write_files (\<lambda>_. True) fls (fs(q \<mapsto> pf_fixed pf)) k = (fs', k')"
      using Cons.prems(1) x by simp
    show "distinct (map fst fls)" using Cons.prems(2) by simp
  qed
  ultimately show ?case using x by (auto split: option.splits)
qed

lemma unified_diff_Nil: "unified_diff path a b = [] \<longleftrightarrow> a = b"
  by (simp add: unified_diff_def Let_def)

text \<open>
  \<open>-diff\<close> predicts \<open>-fix\<close>. The dry run exits with 1, and prints something,
  exactly when writing the fixes to writable files changes the contents of some file.
\<close>

theorem diff_predicts_fix:
  assumes "diff_fixes env False fs = Some (out, code)"
    and "apply_fixes env (\<lambda>_. True) fs = Some (fs', n)"
  shows "(code = 1) = (fs' \<noteq> pe_read env) \<and> (out = []) = (fs' = pe_read env) \<and> code \<in> {0, 1}"
proof -
  from assms(2) obtain fls m k where p: "patched_files env fs = Some (fls, m)"
    and w: "write_files (\<lambda>_. True) fls (pe_read env) (n_failed m) = (fs', k)"
    by (auto simp: apply_fixes_def split: option.splits prod.splits)
  define changed where "changed = stable_sort (\<lambda>x y. str_compare (fst x) (fst y))
    (filter (\<lambda>(_, pf). pf_orig pf \<noteq> pf_fixed pf) fls)"
  have out: "out = concat (map (\<lambda>(path, pf). unified_diff (rel_path (env_cwd (pe_os env)) path)
      (pf_orig pf) (pf_fixed pf)) changed)"
    and code: "code = (if changed \<noteq> [] then 1 else 0)"
    using assms(1) p by (auto simp: diff_fixes_def changed_def Let_def)
  have set: "set changed = {(q, pf). (q, pf) \<in> set fls \<and> pf_orig pf \<noteq> pf_fixed pf}"
    by (auto simp: changed_def)
  have d: "distinct (map fst fls)" by (rule patched_files_distinct [OF p])
  have f: "fs' q = (case map_of fls q of None \<Rightarrow> pe_read env q | Some pf \<Rightarrow> Some (pf_fixed pf))" for q
    by (rule write_files_all [OF w d])
  have same: "fs' = pe_read env \<longleftrightarrow> changed = []"
  proof
    assume "changed = []"
    with set have e: "\<And>q pf. (q, pf) \<in> set fls \<Longrightarrow> pf_orig pf = pf_fixed pf" by auto
    show "fs' = pe_read env"
    proof
      fix q
      show "fs' q = pe_read env q"
        using f [of q] e [of q] patched_files_orig [OF p, of q]
        by (auto split: option.splits dest!: map_of_SomeD)
    qed
  next
    assume fs': "fs' = pe_read env"
    have "pf_orig pf = pf_fixed pf" if "(q, pf) \<in> set fls" for q pf
      using f [of q] map_of_is_SomeI [OF d that] patched_files_orig [OF p that] fs' by simp
    with set show "changed = []" by (metis (mono_tags, lifting) case_prodE last_in_set mem_Collect_eq)
  qed
  have "out = [] \<longleftrightarrow> changed = []"
  proof
    assume "out = []"
    then have "unified_diff (rel_path (env_cwd (pe_os env)) q) (pf_orig pf) (pf_fixed pf) = []"
      if "(q, pf) \<in> set changed" for q pf using that by (auto simp: out)
    then have "(q, pf) \<notin> set changed" for q pf
      using set unified_diff_Nil by blast
    then show "changed = []" by (metis last_in_set surj_pair)
  qed (simp add: out)
  with same code show ?thesis by auto
qed

theorem diff_predicts_fix_witness:
  "\<exists>out. diff_fixes (sample_patch_env ''abcdef'') False sample_findings = Some (out, 1) \<and> out \<noteq> []"
proof -
  let ?env = "sample_patch_env ''abcdef''"
  obtain out code where d: "diff_fixes ?env False sample_findings = Some (out, code)"
    by (simp add: diff_fixes_def sample_patched Let_def)
  have "(pe_read ?env)(''/w/a.go'' \<mapsto> ''aXYcdef'') \<noteq> pe_read ?env"
    by (auto simp: sample_patch_env_def fun_eq_iff)
  with diff_predicts_fix [OF d sample_applied] d show ?thesis by auto
qed

end
