(* ===== verification/Go_Text.thy ===== *)
theory Go_Text
  imports Go_Path
begin

text \<open>
  More of the Go standard library that the program uses on text: \<open>strings.Fields\<close>,
  \<open>strings.EqualFold\<close> against an ASCII word, ASCII lower case, \<open>strconv.Quote\<close>, decimal
  digits, \<open>filepath.Ext\<close> and \<open>go/version.Lang\<close>; and that \<open>filepath.Dir\<close> climbs.
\<close>

section \<open>Fields\<close>

fun take_word :: "string \<Rightarrow> string \<times> string" where
  "take_word [] = ([], [])"
| "take_word (c # cs) =
     (if strip_one space_seqs (c # cs) \<noteq> None then ([], c # cs)
      else let (w, r) = take_word cs in (c # w, r))"

lemma take_word_append: "take_word s = (w, r) \<Longrightarrow> s = w @ r"
  by (induction s arbitrary: w r) (auto split: if_splits prod.splits)

text \<open>Fuel: each round consumes at least one byte, so the length of the string is enough.\<close>

fun fields_fuel :: "nat \<Rightarrow> string \<Rightarrow> string list" where
  "fields_fuel 0 s = []"
| "fields_fuel (Suc n) s =
     (let t = trim_left s in
      if t = [] then [] else let (w, r) = take_word t in w # fields_fuel n r)"

definition str_fields :: "string \<Rightarrow> string list" where
  "str_fields s = fields_fuel (Suc (length s)) s"

section \<open>Letters and digits\<close>

definition is_digit :: "char \<Rightarrow> bool" where
  "is_digit c = (48 \<le> byte_at c \<and> byte_at c \<le> 57)"

definition lower_byte :: "char \<Rightarrow> char" where
  "lower_byte c = (if 65 \<le> byte_at c \<and> byte_at c \<le> 90 then char_of (byte_at c + 32) else c)"

definition ascii_lower :: "string \<Rightarrow> string" where
  "ascii_lower s = map lower_byte s"

text \<open>
  \<open>strings.EqualFold(s, t)\<close> for a \<open>t\<close> of lower-case ASCII: besides the ASCII letters, the
  simple folding maps U+017F to \<open>s\<close> and U+212A to \<open>k\<close>.
\<close>

fun equal_fold :: "string \<Rightarrow> string \<Rightarrow> bool" where
  "equal_fold [] t = (t = [])"
| "equal_fold s [] = False"
| "equal_fold (c # cs) (x # xs) =
     (if lower_byte c = x then equal_fold cs xs
      else if x = CHR ''s'' \<and> c = CHR 0xC5 \<and> has_prefix cs [CHR 0xBF]
        then equal_fold (drop 1 cs) xs
      else if x = CHR ''k'' \<and> c = CHR 0xE2 \<and> has_prefix cs [CHR 0x84, CHR 0xAA]
        then equal_fold (drop 2 cs) xs
      else False)"

fun nat_of_digits :: "nat \<Rightarrow> string \<Rightarrow> nat" where
  "nat_of_digits acc [] = acc"
| "nat_of_digits acc (c # cs) = nat_of_digits (acc * 10 + (byte_at c - 48)) cs"

definition all_digits :: "string \<Rightarrow> bool" where
  "all_digits s = (s \<noteq> [] \<and> list_all is_digit s)"

text \<open>\<open>filepath.Ext\<close>: the suffix from the last dot of the last element.\<close>

definition path_ext :: "string \<Rightarrow> string" where
  "path_ext p =
     (let name = (case last_index sep p of None \<Rightarrow> p | Some i \<Rightarrow> drop (Suc i) p)
      in case last_index (CHR ''.'') name of None \<Rightarrow> [] | Some i \<Rightarrow> drop i name)"

section \<open>Quoting\<close>

definition hex_digit :: "nat \<Rightarrow> char" where
  "hex_digit d = (if d < 10 then char_of (48 + d) else char_of (87 + d))"

fun hex_digits :: "nat \<Rightarrow> nat \<Rightarrow> string" where
  "hex_digits 0 n = []"
| "hex_digits (Suc w) n = hex_digits w (n div 16) @ [hex_digit (n mod 16)]"

definition backslash :: char where "backslash = CHR 0x5C"

text \<open>
  \<open>strconv.Quote\<close>. Which runes above ASCII are printable (\<open>strconv.IsPrint\<close>, a Unicode
  table) is the parameter \<open>printable\<close>.
\<close>

definition quote_rune :: "(nat \<Rightarrow> bool) \<Rightarrow> nat \<Rightarrow> string \<Rightarrow> string" where
  "quote_rune printable r enc =
     (if r = 0xFFFD \<and> length enc = 1 then backslash # CHR ''x'' # hex_digits 2 (byte_at (hd enc))
      else if r = 34 \<or> r = 92 then backslash # enc
      else if 32 \<le> r \<and> r < 127 \<or> 127 < r \<and> printable r then enc
      else if r = 7 then [backslash, CHR ''a'']
      else if r = 8 then [backslash, CHR ''b'']
      else if r = 12 then [backslash, CHR ''f'']
      else if r = 10 then [backslash, CHR ''n'']
      else if r = 13 then [backslash, CHR ''r'']
      else if r = 9 then [backslash, CHR ''t'']
      else if r = 11 then [backslash, CHR ''v'']
      else if r < 32 \<or> r = 127 then backslash # CHR ''x'' # hex_digits 2 r
      else if r < 0x10000 then backslash # CHR ''u'' # hex_digits 4 r
      else backslash # CHR ''U'' # hex_digits 8 r)"

fun quote_fuel :: "nat \<Rightarrow> (nat \<Rightarrow> bool) \<Rightarrow> string \<Rightarrow> string" where
  "quote_fuel 0 printable s = []"
| "quote_fuel (Suc n) printable s =
     (case decode_rune s of
        None \<Rightarrow> []
      | Some (r, w) \<Rightarrow> quote_rune printable r (take w s) @ quote_fuel n printable (drop w s))"

definition go_quote :: "(nat \<Rightarrow> bool) \<Rightarrow> string \<Rightarrow> string" where
  "go_quote printable s = CHR 0x22 # quote_fuel (length s) printable s @ [CHR 0x22]"

section \<open>Versions of the go command\<close>

text \<open>\<open>internal/gover.cutInt\<close>: a decimal number without leading zeros.\<close>

definition cut_int :: "string \<Rightarrow> (string \<times> string) option" where
  "cut_int x =
     (let d = takeWhile is_digit x in
      if d = [] \<or> hd d = CHR ''0'' \<and> length d \<noteq> 1 then None
      else Some (d, dropWhile is_digit x))"

definition lower_letter :: "char \<Rightarrow> bool" where
  "lower_letter c = (97 \<le> byte_at c \<and> byte_at c \<le> 122)"

text \<open>What follows the minor number: nothing, a patch number, or a prerelease.\<close>

definition version_rest_ok :: "string \<Rightarrow> bool" where
  "version_rest_ok x =
     (if x = [] then True
      else if hd x = CHR ''.'' then
        (case cut_int (tl x) of Some (_, r) \<Rightarrow> r = [] | None \<Rightarrow> False)
      else
        let kind = takeWhile (\<lambda>c. \<not> is_digit c) x; r = dropWhile (\<lambda>c. \<not> is_digit c) x in
        kind \<noteq> [] \<and> list_all lower_letter kind \<and>
        (r = [] \<or> (case cut_int r of Some (_, q) \<Rightarrow> q = [] | None \<Rightarrow> False)))"

text \<open>\<open>internal/gover.Lang\<close>: the language version, empty for a malformed version.\<close>

definition gover_lang :: "string \<Rightarrow> string" where
  "gover_lang x =
     (case cut_int x of
        None \<Rightarrow> []
      | Some (major, r) \<Rightarrow>
          if r = [] then if major = ''1'' then major else major @ ''.0''
          else if hd r \<noteq> CHR ''.'' then []
          else (case cut_int (tl r) of
                  None \<Rightarrow> []
                | Some (minor, q) \<Rightarrow>
                    if \<not> version_rest_ok q then []
                    else if major = ''1'' \<and> minor = ''0'' then major
                    else major @ ''.'' @ minor))"

text \<open>\<open>go/version.Lang\<close>.\<close>

definition version_lang :: "string \<Rightarrow> string" where
  "version_lang x =
     (let v = (case str_cut x ''-'' of None \<Rightarrow> x | Some (b, _) \<Rightarrow> b);
          l = (if has_prefix v ''go'' then gover_lang (drop 2 v) else [])
      in if l = [] then [] else ''go'' @ l)"

section \<open>Climbing to the parent directory ends\<close>

definition comps_size :: "string list \<Rightarrow> nat" where
  "comps_size cs = sum_list (map (\<lambda>c. Suc (length c)) cs)"

lemma comps_size_simps [simp]:
  "comps_size [] = 0" "comps_size (c # cs) = Suc (length c) + comps_size cs"
  "comps_size (xs @ ys) = comps_size xs + comps_size ys"
  by (simp_all add: comps_size_def)

lemma comps_size_butlast: "comps_size (butlast cs) \<le> comps_size cs"
  by (induction cs) auto

lemma clean_step_size: "comps_size (clean_step r out c) \<le> comps_size out + Suc (length c)"
  using comps_size_butlast [of out] by (auto simp: clean_step_def)

lemma clean_comps_size: "comps_size (clean_comps r cs) \<le> comps_size cs"
proof -
  have "comps_size (foldl (clean_step r) out cs) \<le> comps_size out + comps_size cs" for out
  proof (induction cs arbitrary: out)
    case (Cons c cs)
    have "comps_size (foldl (clean_step r) (clean_step r out c) cs)
        \<le> comps_size (clean_step r out c) + comps_size cs" by (rule Cons)
    also have "\<dots> \<le> comps_size out + Suc (length c) + comps_size cs"
      using clean_step_size [of r out c] by simp
    finally show ?case by simp
  qed simp
  from this [of "[]"] show ?thesis by (simp add: clean_comps_def)
qed

lemma join_size: "cs \<noteq> [] \<Longrightarrow> Suc (length (join_with [sep] cs)) = comps_size cs"
proof (induction cs)
  case (Cons x xs)
  then show ?case by (cases xs) auto
qed simp

lemma split_size: "comps_size (split_on c p) = Suc (length p)"
  by (induction p) (auto split: list.splits)

lemma filter_size: "comps_size (filter P cs) \<le> comps_size cs"
  by (induction cs) auto

lemma comps_size_comps: "comps_size (comps p) \<le> Suc (length p)"
  using filter_size [of "\<lambda>c. c \<noteq> []" "split_on sep p"] by (simp add: comps_def split_size)

lemma split_on_snoc: "split_on c (p @ [c]) = split_on c p @ [[]]"
  by (induction p) (auto split: list.splits)

lemma comps_snoc_sep: "comps (p @ [sep]) = comps p"
  by (simp add: comps_def split_on_snoc)

lemma path_dir_shrinks: "path_dir p = p \<or> path_dir p = ''.'' \<or> length (path_dir p) < length p"
proof (cases "last_index sep p")
  case None
  then show ?thesis by (simp add: path_dir_def path_clean_def)
next
  case (Some i)
  define q where "q = take i p"
  from last_index_Some [OF Some] have i: "i < length p" "p ! i = sep" by auto
  then have t: "take (Suc i) p = q @ [sep]" and lp: "length q < length p"
    by (simp_all add: q_def take_Suc_conv_app_nth)
  let ?cs = "clean_comps (is_abs (q @ [sep])) (comps (q @ [sep]))"
  have d: "path_dir p = (if is_abs (q @ [sep]) then sep # join_with [sep] ?cs
      else if ?cs = [] then ''.'' else join_with [sep] ?cs)"
    by (simp add: path_dir_def Some t path_clean_def Let_def)
  have sz: "comps_size ?cs \<le> comps_size (comps q)"
    using clean_comps_size comps_snoc_sep by metis
  have join: "length (join_with [sep] ?cs) \<le> comps_size (comps q) - 1"
    using join_size [of ?cs] sz by (cases "?cs = []") auto
  show ?thesis
  proof (cases q)
    case Nil
    then have "path_dir p = [sep]"
      using d by (simp add: comps_def is_abs_def clean_comps_def)
    moreover have "p \<noteq> []" "hd p = sep" using i Nil by (auto simp: q_def hd_conv_nth)
    ultimately show ?thesis using i by (cases p; cases "tl p") auto
  next
    case (Cons c q')
    show ?thesis
    proof (cases "c = sep")
      case True
      then have "comps_size (comps q) \<le> length q"
        using Cons comps_sep [of q'] comps_size_comps [of q'] by simp
      moreover have "length (path_dir p) = Suc (length (join_with [sep] ?cs))"
        using d Cons True by (simp add: is_abs_def)
      moreover have "0 < length q" using Cons by simp
      ultimately show ?thesis using join lp by linarith
    next
      case False
      then show ?thesis using d join lp Cons comps_size_comps [of q] by (auto simp: is_abs_def)
    qed
  qed
qed

text \<open>The measure of a loop that climbs with \<open>filepath.Dir\<close> until nothing changes.\<close>

definition climb_measure :: "string \<Rightarrow> nat" where
  "climb_measure p = length p + (if p = ''.'' then 0 else 2)"

lemma path_dir_dot: "path_dir ''.'' = ''.''"
  by code_simp

lemma climb_measure_less: "path_dir p \<noteq> p \<Longrightarrow> climb_measure (path_dir p) < climb_measure p"
  using path_dir_shrinks [of p] path_dir_dot by (cases "p = []") (auto simp: climb_measure_def)

lemma clean_comps_not_empty:
  assumes "\<forall>c\<in>set cs. c \<noteq> []"
  shows "[] \<notin> set (clean_comps r cs)"
proof -
  have "[] \<notin> set (foldl (clean_step r) out cs)" if "[] \<notin> set out" for out
    using that assms
  proof (induction cs arbitrary: out)
    case (Cons c cs)
    then have "[] \<notin> set (clean_step r out c)"
      by (auto simp: clean_step_def dest: in_set_butlastD)
    with Cons show ?case by simp
  qed simp
  then show ?thesis by (simp add: clean_comps_def)
qed

lemma path_clean_not_Nil [simp]: "path_clean p \<noteq> []"
proof -
  let ?cs = "clean_comps (is_abs p) (comps p)"
  have "?cs \<noteq> [] \<Longrightarrow> join_with [sep] ?cs \<noteq> []"
    using clean_comps_not_empty [of "comps p" "is_abs p"] comps_no_sep
    by (cases ?cs; cases "tl ?cs") auto
  then show ?thesis by (cases "is_abs p") (simp_all add: path_clean_def Let_def)
qed

lemma path_dir_not_Nil [simp]: "path_dir p \<noteq> []"
  by (simp add: path_dir_def split: option.split)

lemma is_abs_join: "is_abs p \<Longrightarrow> is_abs (path_join [p, q])"
proof -
  assume p: "is_abs p"
  then have "is_abs (p @ r)" for r by (cases p) (auto simp: is_abs_def)
  then show ?thesis
    using p is_abs_clean is_abs_not_Nil [OF p] by (auto simp: path_join_def Let_def)
qed

end
