(* ===== verification/Evidence.thy ===== *)
theory Evidence
  imports Go_Text Write_Guard "HOL-Library.AList"
begin

text \<open>
  \<open>internal/runner/evidence.go\<close>: the toolchain fingerprint of a scan, the search for the
  repository that owns the workflows, the literal reading of \<open>actions/setup-go\<close> inputs,
  and the warnings. The \<open>go\<close> command, the file system, the YAML parser and the module file
  parsers of \<open>golang.org/x/mod\<close> are the fields of an environment record.
\<close>

section \<open>Data\<close>

record fingerprint =
  tc_go_version :: string
  tc_goos :: string
  tc_goarch :: string
  tc_module_go :: string

record evidence_warning =
  ew_code :: string
  ew_message :: string
  ew_file :: string
  ew_line :: int

record evidence_metadata =
  em_toolchain :: fingerprint
  em_warnings :: "evidence_warning list"

definition setup_go_conflict_warning :: string where
  "setup_go_conflict_warning = ''toolchain-setup-go-conflict''"

definition baseline_toolchain_warning :: string where
  "baseline_toolchain_warning = ''baseline-toolchain-changed''"

text \<open>The fields of \<open>packages.Module\<close> and \<open>packages.Package\<close> that the program reads.\<close>

record go_module =
  mod_path :: string
  mod_dir :: string
  mod_main :: bool
  mod_go_mod :: string
  mod_go_version :: string

record go_package =
  pkg_path :: string
  pkg_module :: "go_module option"

text \<open>A YAML node, and the two directives of a module or workspace file.\<close>

datatype yaml_kind = DocumentNode | SequenceNode | MappingNode | ScalarNode | AliasNode

datatype yaml_node =
  Yaml_Node (yn_kind: yaml_kind) (yn_value: string) (yn_line: int) (yn_content: "yaml_node list")

record mod_file =
  mf_go :: "string option"
  mf_toolchain :: "string option"

record evid_env =
  ev_os :: os_env
  ev_go_env :: "(string \<times> string \<times> string) option"
  ev_runtime :: "string \<times> string \<times> string"
  ev_exists :: "string \<Rightarrow> bool"
  ev_read :: "string \<Rightarrow> string option"
  ev_dir :: "string \<Rightarrow> (string \<times> bool) list option"
  ev_links :: "string \<Rightarrow> string option"
  ev_yaml :: "string \<Rightarrow> yaml_node option"
  ev_mod_lax :: "string \<Rightarrow> string \<Rightarrow> mod_file option"
  ev_mod :: "string \<Rightarrow> string \<Rightarrow> mod_file option"
  ev_work :: "string \<Rightarrow> string \<Rightarrow> mod_file option"
  ev_sort :: "evidence_warning list \<Rightarrow> evidence_warning list"
  ev_print :: "nat \<Rightarrow> bool"

section \<open>The toolchain of the package load\<close>

definition package_load_toolchain :: "evid_env \<Rightarrow> string \<times> string \<times> string" where
  "package_load_toolchain env =
     (let (rv, ros, rarch) = ev_runtime env;
          goos = env_var (ev_os env) ''GOOS''; goarch = env_var (ev_os env) ''GOARCH'';
          fallback = (rv, if goos = [] then ros else goos, if goarch = [] then rarch else goarch)
      in case ev_go_env env of
           Some (v, os, arch) \<Rightarrow>
             if v \<noteq> [] \<and> os \<noteq> [] \<and> arch \<noteq> [] then (v, os, arch) else fallback
         | None \<Rightarrow> fallback)"

text \<open>
  \<open>mainModuleGo\<close>: the map from keys to module identities is an association list, updated
  in place; only its single entry is ever used.
\<close>

definition module_key :: "go_module \<Rightarrow> string" where
  "module_key m = (if mod_go_mod m = [] then mod_dir m else mod_go_mod m)"

fun main_modules :: "go_package option list \<Rightarrow> (string \<times> go_module) list \<Rightarrow> (string \<times> go_module) list" where
  "main_modules [] ms = ms"
| "main_modules (p # ps) ms =
     (case p of
        None \<Rightarrow> main_modules ps ms
      | Some pkg \<Rightarrow>
          (case pkg_module pkg of
             None \<Rightarrow> main_modules ps ms
           | Some m \<Rightarrow>
               if mod_main m then main_modules ps (AList.update (module_key m) m ms)
               else main_modules ps ms))"

definition main_module_go :: "evid_env \<Rightarrow> go_package option list \<Rightarrow> string \<times> string" where
  "main_module_go env pkgs =
     (case main_modules pkgs [] of
        [(_, m)] \<Rightarrow>
          (let root = (if mod_dir m = [] \<and> mod_go_mod m \<noteq> [] then path_dir (mod_go_mod m)
                       else mod_dir m);
               directive =
                 (if mod_go_mod m \<noteq> [] then
                    (case ev_read env (mod_go_mod m) of
                       None \<Rightarrow> None
                     | Some contents \<Rightarrow>
                         (case ev_mod_lax env (mod_go_mod m) contents of
                            None \<Rightarrow> None | Some mf \<Rightarrow> mf_go mf))
                  else None)
           in (case directive of Some v \<Rightarrow> v | None \<Rightarrow> mod_go_version m, root))
      | _ \<Rightarrow> ([], []))"

section \<open>The root of the repository\<close>

text \<open>The loop over the ancestors, with the two candidates found so far.\<close>

function workflow_loop :: "(string \<Rightarrow> bool) \<Rightarrow> string \<Rightarrow> string \<Rightarrow> string \<Rightarrow> string + string \<times> string" where
  "workflow_loop ex dir flow work =
     (if ex (path_join [dir, ''.git'']) then Inl dir
      else
        let flow' = (if flow = [] \<and> ex (path_join [dir, ''.github'', ''workflows'']) then dir else flow);
            work' = (if work = [] \<and> ex (path_join [dir, ''go.work'']) then dir else work)
        in if path_dir dir = dir then Inr (flow', work')
           else workflow_loop ex (path_dir dir) flow' work')"
  by pat_completeness auto
termination
  by (relation "measure (\<lambda>(ex, dir, flow, work). climb_measure dir)") (auto dest: climb_measure_less)

declare workflow_loop.simps [simp del]

definition repository_workflow_root :: "evid_env \<Rightarrow> string \<Rightarrow> string" where
  "repository_workflow_root env module_root =
     (let root = (case path_abs (env_cwd (ev_os env)) module_root of
                    Some a \<Rightarrow> a | None \<Rightarrow> path_clean module_root)
      in case workflow_loop (ev_exists env) root [] [] of
           Inl dir \<Rightarrow> dir
         | Inr (flow, work) \<Rightarrow> if flow \<noteq> [] then flow else if work \<noteq> [] then work else root)"

section \<open>Generations of Go versions\<close>

text \<open>
  \<open>literalGoVersion\<close>: an optional \<open>go\<close>, a major number without leading zero, a minor
  number, and optionally a patch number or \<open>x\<close>.
\<close>

definition go_generation :: "string \<Rightarrow> string option" where
  "go_generation value =
     (let t = trim_prefix (trim_space value) ''go'';
          major = takeWhile is_digit t; r = dropWhile is_digit t
      in if major = [] \<or> hd major = CHR ''0'' \<or> r = [] \<or> hd r \<noteq> CHR ''.'' then None
         else
           let minor = takeWhile is_digit (tl r); q = dropWhile is_digit (tl r) in
           if minor \<noteq> [] \<and> (q = [] \<or> hd q = CHR ''.'' \<and> (tl q = ''x'' \<or> all_digits (tl q)))
           then Some (major @ ''.'' @ minor) else None)"

definition go_command_generation :: "string \<Rightarrow> string option" where
  "go_command_generation v =
     (let language = version_lang v in
      if language = [] then None else Some (trim_prefix language ''go''))"

section \<open>Inputs of actions/setup-go\<close>

datatype toolchain_mode = ToolchainUnknown | ToolchainIgnored | ToolchainPreferred

record setup_go_input =
  sg_version :: "yaml_node option"
  sg_version_file :: "yaml_node option"
  sg_toolchain :: toolchain_mode

text \<open>
  \<open>setupGoToolchainBehavior\<close>: the regular expression for \<open>v\<close>, a major number and then the
  end, a dot or a dash; \<open>strconv.Atoi\<close> fails beyond 63 bits.
\<close>

definition setup_go_toolchain_behavior :: "string \<Rightarrow> toolchain_mode" where
  "setup_go_toolchain_behavior ref =
     (let t = trim_space ref; major = takeWhile is_digit (drop 1 t); r = dropWhile is_digit (drop 1 t) in
      if \<not> has_prefix t ''v'' \<or> major = [] \<or> hd major = CHR ''0'' \<or>
         (r \<noteq> [] \<and> hd r \<noteq> CHR ''.'' \<and> hd r \<noteq> CHR ''-'') then ToolchainUnknown
      else if nat_of_digits 0 major \<ge> 2 ^ 63 then ToolchainUnknown
      else if nat_of_digits 0 major \<ge> 6 then ToolchainPreferred
      else ToolchainIgnored)"

text \<open>The children of a mapping node are keys and values in turn.\<close>

fun pair_value :: "yaml_node list \<Rightarrow> string \<Rightarrow> yaml_node option" where
  "pair_value (k # v # rest) key = (if yn_value k = key then Some v else pair_value rest key)"
| "pair_value _ key = None"

definition yaml_mapping_value :: "yaml_node option \<Rightarrow> string \<Rightarrow> yaml_node option" where
  "yaml_mapping_value mapping key =
     (case mapping of
        None \<Rightarrow> None
      | Some n \<Rightarrow> if yn_kind n \<noteq> MappingNode then None else pair_value (yn_content n) key)"

fun odd_elements :: "'a list \<Rightarrow> 'a list" where
  "odd_elements (_ # v # rest) = v # odd_elements rest"
| "odd_elements _ = []"

definition step_input :: "yaml_node \<Rightarrow> setup_go_input option" where
  "step_input step =
     (case yaml_mapping_value (Some step) ''uses'' of
        None \<Rightarrow> None
      | Some uses \<Rightarrow>
          if yn_kind uses \<noteq> ScalarNode then None
          else case str_cut (trim_space (yn_value uses)) ''@'' of
            None \<Rightarrow> None
          | Some (action, ref) \<Rightarrow>
              if \<not> equal_fold action ''actions/setup-go'' then None
              else case yaml_mapping_value (Some step) ''with'' of
                None \<Rightarrow> None
              | Some wth \<Rightarrow>
                  if yn_kind wth \<noteq> MappingNode then None
                  else
                    let v = yaml_mapping_value (Some wth) ''go-version'';
                        f = yaml_mapping_value (Some wth) ''go-version-file''
                    in if v \<noteq> None \<or> f \<noteq> None
                       then Some \<lparr>sg_version = v, sg_version_file = f,
                                  sg_toolchain = setup_go_toolchain_behavior ref\<rparr>
                       else None)"

definition setup_go_inputs :: "yaml_node option \<Rightarrow> setup_go_input list" where
  "setup_go_inputs document =
     (case document of
        None \<Rightarrow> []
      | Some d \<Rightarrow>
          if yn_kind d = DocumentNode \<and> length (yn_content d) \<noteq> 1 then []
          else
            let root = (if yn_kind d = DocumentNode then hd (yn_content d) else d) in
            case yaml_mapping_value (Some root) ''jobs'' of
              None \<Rightarrow> []
            | Some jobs \<Rightarrow>
                if yn_kind jobs \<noteq> MappingNode then []
                else concat (map (\<lambda>job.
                  case yaml_mapping_value (Some job) ''steps'' of
                    None \<Rightarrow> []
                  | Some steps \<Rightarrow>
                      if yn_kind steps \<noteq> SequenceNode then []
                      else List.map_filter step_input (yn_content steps))
                  (odd_elements (yn_content jobs))))"

section \<open>The version a go-version-file names\<close>

text \<open>The two directives of \<open>go.mod\<close> or \<open>go.work\<close>, by the behaviour of the action.\<close>

definition mod_directive :: "mod_file option \<Rightarrow> toolchain_mode \<Rightarrow> string option" where
  "mod_directive parsed mode =
     (case parsed of
        None \<Rightarrow> None
      | Some mf \<Rightarrow>
          if mf_toolchain mf \<noteq> None \<and> mode = ToolchainUnknown then None
          else if mf_toolchain mf \<noteq> None \<and> mode = ToolchainPreferred then mf_toolchain mf
          else mf_go mf)"

text \<open>The lines of \<open>.tool-versions\<close>: exactly one \<open>golang\<close> line with one version.\<close>

fun tool_version :: "string list \<Rightarrow> string \<Rightarrow> string option" where
  "tool_version [] v = (if v \<noteq> [] then Some v else None)"
| "tool_version (line # lines) v =
     (let fs = str_fields line in
      if fs = [] \<or> has_prefix (hd fs) ''#'' \<or> hd fs \<noteq> ''golang'' then tool_version lines v
      else if length fs < 2 \<or> v \<noteq> [] \<or> length fs > 2 \<and> \<not> has_prefix (fs ! 2) ''#'' then None
      else tool_version lines (fs ! 1))"

definition version_of_contents :: "evid_env \<Rightarrow> string \<Rightarrow> string \<Rightarrow> toolchain_mode \<Rightarrow> string option" where
  "version_of_contents env path contents mode =
     (let base = path_base path in
      if base = ''go.mod'' then mod_directive (ev_mod env path contents) mode
      else if base = ''go.work'' then mod_directive (ev_work env path contents) mode
      else if base = ''.go-version'' then
        (case str_fields contents of [v] \<Rightarrow> Some v | _ \<Rightarrow> None)
      else if base = ''.tool-versions'' then tool_version (split_on (CHR 0x0A) contents) []
      else None)"

text \<open>The file a \<open>go-version-file\<close> input names, when it is inside the repository.\<close>

definition version_file_path :: "evid_env \<Rightarrow> string \<Rightarrow> string \<Rightarrow> string option" where
  "version_file_path env repo value =
     (let v = trim_space value in
      if v = [] \<or> str_contains v ''${{'' \<or> is_abs v then None
      else case path_abs (env_cwd (ev_os env)) repo of
        None \<Rightarrow> None
      | Some r \<Rightarrow>
          (case ev_links env r of
             None \<Rightarrow> None
           | Some real_root \<Rightarrow>
               (case ev_links env (path_join [real_root, v]) of
                  None \<Rightarrow> None
                | Some path \<Rightarrow>
                    (case path_rel real_root path of
                       None \<Rightarrow> None
                     | Some rel \<Rightarrow>
                         if rel = ''..'' \<or> has_prefix rel [CHR ''.'', CHR ''.'', sep] then None
                         else Some path))))"

definition setup_go_version_from_file ::
    "evid_env \<Rightarrow> string \<Rightarrow> string \<Rightarrow> toolchain_mode \<Rightarrow> string option" where
  "setup_go_version_from_file env repo value mode =
     (case version_file_path env repo value of
        None \<Rightarrow> None
      | Some path \<Rightarrow>
          (case ev_read env path of
             None \<Rightarrow> None
           | Some contents \<Rightarrow> version_of_contents env path contents mode))"

section \<open>Conflict warnings\<close>

definition node_is_literal :: "yaml_node option \<Rightarrow> bool" where
  "node_is_literal n = (case n of None \<Rightarrow> False | Some x \<Rightarrow> yn_kind x = ScalarNode)"

text \<open>
  The literal version of one input: the node it comes from, the version and the words that
  describe it; none when the input is dynamic or cannot be read.
\<close>

definition input_version ::
    "evid_env \<Rightarrow> string \<Rightarrow> setup_go_input \<Rightarrow> (yaml_node \<times> string \<times> string) option" where
  "input_version env repo inp =
     (let from_file =
        (case sg_version_file inp of
           None \<Rightarrow> None
         | Some f \<Rightarrow>
             if yn_kind f \<noteq> ScalarNode then None
             else map_option (\<lambda>v. (f, v, ''go-version-file '' @ go_quote (ev_print env) (yn_value f) @ '' resolving to''))
                    (setup_go_version_from_file env repo (yn_value f) (sg_toolchain inp)))
      in case sg_version inp of
           None \<Rightarrow> from_file
         | Some n \<Rightarrow>
             if yn_kind n \<noteq> ScalarNode then None
             else if trim_space (yn_value n) = [] then from_file
             else Some (n, yn_value n, ''go-version''))"

definition conflict_warning ::
    "evid_env \<Rightarrow> string \<Rightarrow> string \<Rightarrow> string \<Rightarrow> setup_go_input \<Rightarrow> evidence_warning option" where
  "conflict_warning env repo module_gen path inp =
     (case input_version env repo inp of
        None \<Rightarrow> None
      | Some (node, v, descr) \<Rightarrow>
          (case go_generation v of
             None \<Rightarrow> None
           | Some gen \<Rightarrow>
               if gen = module_gen then None
               else Some \<lparr>ew_code = setup_go_conflict_warning,
                 ew_message = ''actions/setup-go '' @ descr @ '' '' @ go_quote (ev_print env) v @
                   '' selects Go '' @ gen @ '', conflicting with go.mod generation '' @ module_gen @
                   ''; regenerate performance baselines or explicitly carry them across the compiler-generation change'',
                 ew_file = (case path_rel repo path of Some r \<Rightarrow> r | None \<Rightarrow> path),
                 ew_line = yn_line node\<rparr>))"

text \<open>The warnings of one entry of the workflow directory.\<close>

definition workflow_warnings ::
    "evid_env \<Rightarrow> string \<Rightarrow> string \<Rightarrow> string \<Rightarrow> string \<times> bool \<Rightarrow> evidence_warning list" where
  "workflow_warnings env repo module_gen dir entry =
     (let (name, is_dir) = entry; ext = ascii_lower (path_ext name); path = path_join [dir, name] in
      if is_dir \<or> ext \<noteq> ''.yml'' \<and> ext \<noteq> ''.yaml'' then []
      else case ev_read env path of
        None \<Rightarrow> []
      | Some contents \<Rightarrow>
          (case ev_yaml env contents of
             None \<Rightarrow> []
           | Some document \<Rightarrow>
               List.map_filter (conflict_warning env repo module_gen path)
                 (setup_go_inputs (Some document))))"

definition setup_go_warnings :: "evid_env \<Rightarrow> string \<Rightarrow> string \<Rightarrow> evidence_warning list" where
  "setup_go_warnings env repo module_go =
     (case go_generation module_go of
        None \<Rightarrow> []
      | Some module_gen \<Rightarrow>
          let dir = path_join [repo, ''.github'', ''workflows''] in
          (case ev_dir env dir of
             None \<Rightarrow> []
           | Some entries \<Rightarrow>
               ev_sort env (concat (map (workflow_warnings env repo module_gen dir) entries))))"

definition warning_cmp :: "evidence_warning go_cmp" where
  "warning_cmp =
     then_cmp (\<lambda>a b. str_compare (ew_file a) (ew_file b)) (\<lambda>a b. ew_line a - ew_line b)"

definition scan_evidence_metadata :: "evid_env \<Rightarrow> go_package option list \<Rightarrow> evidence_metadata" where
  "scan_evidence_metadata env pkgs =
     (let (v, os, arch) = package_load_toolchain env;
          (module_go, module_root) = main_module_go env pkgs
      in \<lparr>em_toolchain = \<lparr>tc_go_version = v, tc_goos = os, tc_goarch = arch, tc_module_go = module_go\<rparr>,
          em_warnings =
            (if module_go \<noteq> [] \<and> module_root \<noteq> []
             then setup_go_warnings env (repository_workflow_root env module_root) module_go
             else [])\<rparr>)"

section \<open>Reporting\<close>

definition evidence_warning_location :: "evidence_warning \<Rightarrow> string" where
  "evidence_warning_location w =
     (if ew_line w = 0 then ew_file w else ew_file w @ '':'' @ itoa (ew_line w))"

definition emit_evidence_warnings :: "evidence_warning list \<Rightarrow> string" where
  "emit_evidence_warnings ws =
     concat (map (\<lambda>w.
       ''perfscan: WARNING ['' @ ew_code w @ ''] '' @
       (if evidence_warning_location w \<noteq> [] then evidence_warning_location w @ '': '' else []) @
       ew_message w @ [CHR 0x0A]) ws)"

text \<open>The differences \<open>baselineMetadataWarnings\<close> names, in its order.\<close>

definition generation_change :: "string \<Rightarrow> string option \<Rightarrow> string option \<Rightarrow> string list" where
  "generation_change what old cur =
     (case (old, cur) of
        (Some o', Some c') \<Rightarrow> if o' \<noteq> c' then [what @ o' @ '' -> '' @ c'] else []
      | _ \<Rightarrow> [])"

definition toolchain_changes :: "fingerprint \<Rightarrow> fingerprint \<Rightarrow> string list" where
  "toolchain_changes old cur =
     generation_change ''compiler '' (go_command_generation (tc_go_version old))
       (go_command_generation (tc_go_version cur)) @
     generation_change ''go.mod '' (go_generation (tc_module_go old)) (go_generation (tc_module_go cur)) @
     (if tc_goos old \<noteq> [] \<and> tc_goarch old \<noteq> [] \<and> tc_goos cur \<noteq> [] \<and> tc_goarch cur \<noteq> [] \<and>
         (tc_goos old \<noteq> tc_goos cur \<or> tc_goarch old \<noteq> tc_goarch cur)
      then [''target '' @ tc_goos old @ ''/'' @ tc_goarch old @ '' -> '' @ tc_goos cur @ ''/'' @ tc_goarch cur]
      else [])"

definition toolchain_warning :: "string \<Rightarrow> evidence_warning" where
  "toolchain_warning msg =
     \<lparr>ew_code = baseline_toolchain_warning, ew_message = msg, ew_file = [], ew_line = 0\<rparr>"

definition baseline_metadata_warnings ::
    "evidence_metadata \<Rightarrow> evidence_metadata \<Rightarrow> evidence_warning list" where
  "baseline_metadata_warnings stored current =
     (let old = em_toolchain stored; cur = em_toolchain current; changes = toolchain_changes old cur in
      if tc_go_version old = [] then
        [toolchain_warning ''baseline has no toolchain fingerprint; regenerate it or explicitly carry it forward after verifying the compiler generation'']
      else if changes = [] then []
      else [toolchain_warning (''baseline toolchain changed ('' @ join_with '', '' changes @
        ''); regenerate performance baselines or explicitly carry them across after validating the new compiler generation'')])"

end
