(* ===== verification/Go_Int.thy ===== *)
theory Go_Int
  imports Main
begin

text \<open>
  The integers of Go: \<open>int\<close> and \<open>int64\<close> with their wrap-around, truncating division, and the bound
  on the length of a slice.
\<close>

section \<open>Integers\<close>

text \<open>
  \<open>int\<close> and \<open>int64\<close> are 64 bits wide: sums and products that may leave the range are
  wrapped. Division truncates towards zero.
\<close>

definition wrap64 :: "int \<Rightarrow> int" where
  "wrap64 x = (x + 2 ^ 63) mod 2 ^ 64 - 2 ^ 63"

definition int64 :: "int \<Rightarrow> bool" where
  "int64 x = (- (2 ^ 63) \<le> x \<and> x < 2 ^ 63)"

definition go_quo :: "int \<Rightarrow> int \<Rightarrow> int" where
  "go_quo a b = (if (a < 0) = (b < 0) then \<bar>a\<bar> div \<bar>b\<bar> else - (\<bar>a\<bar> div \<bar>b\<bar>))"

definition go_rem :: "int \<Rightarrow> int \<Rightarrow> int" where
  "go_rem a b = a - b * go_quo a b"

lemma wrap64_id: "int64 x \<Longrightarrow> wrap64 x = x"
  by (simp add: wrap64_def int64_def)

lemma wrap64_range: "int64 (wrap64 x)"
proof -
  have "0 \<le> (x + 2 ^ 63) mod 2 ^ 64" "(x + 2 ^ 63) mod 2 ^ 64 < (2::int) ^ 64" by simp_all
  then show ?thesis unfolding wrap64_def int64_def by simp
qed

lemma wrap64_add_left: "wrap64 (wrap64 x + y) = wrap64 (x + y)"
proof -
  have "((x + 2 ^ 63) mod 2 ^ 64 - 2 ^ 63 + y + 2 ^ 63) mod 2 ^ 64 = ((x + 2 ^ 63) mod 2 ^ 64 + y) mod (2 ^ 64 :: int)"
    by (simp add: algebra_simps)
  also have "\<dots> = ((x + 2 ^ 63) + y) mod 2 ^ 64"
    by (rule mod_add_left_eq)
  also have "\<dots> = (x + y + 2 ^ 63) mod 2 ^ 64"
    by (simp only: ac_simps)
  finally show ?thesis unfolding wrap64_def by simp
qed

lemma int64_nonneg: "0 \<le> x \<Longrightarrow> x \<le> 2 ^ 63 - 1 \<Longrightarrow> int64 x"
  by (simp add: int64_def)

lemma go_quo_pos: "0 \<le> a \<Longrightarrow> 0 < b \<Longrightarrow> go_quo a b = a div b"
  by (simp add: go_quo_def)

lemma go_rem_pos: "0 \<le> a \<Longrightarrow> 0 < b \<Longrightarrow> go_rem a b = a mod b"
  by (simp add: go_rem_def go_quo_pos minus_mult_div_eq_mod)

lemma le_div_mult: "0 < (b::int) \<Longrightarrow> a \<le> c div b \<Longrightarrow> a * b \<le> c"
proof -
  assume b: "0 < b" and le: "a \<le> c div b"
  have "a * b \<le> c div b * b" using b le by (simp add: mult_right_mono)
  also have "\<dots> \<le> c" using b by (metis minus_mod_eq_div_mult diff_ge_0_iff_ge minus_div_mult_eq_mod pos_mod_sign)
  finally show ?thesis .
qed

text \<open>Wrapped values are determined by the value modulo \<open>2 ^ 64\<close>, so a sum may be wrapped at any step.\<close>

lemma wrap64_add_right: "wrap64 (x + wrap64 y) = wrap64 (x + y)"
  using wrap64_add_left [of y x] by (simp add: add.commute)

text \<open>The length of a slice is an \<open>int\<close>: a list that is longer stands for no slice.\<close>

definition fits_slice :: "'a list \<Rightarrow> bool" where
  "fits_slice xs = (int (length xs) < 2 ^ 63)"

lemma fits_slice_wrap: "fits_slice xs \<Longrightarrow> wrap64 (int (length xs)) = int (length xs)"
  by (simp add: fits_slice_def wrap64_id int64_def)

lemma fits_slice_le: "fits_slice xs \<Longrightarrow> length ys \<le> length xs \<Longrightarrow> fits_slice ys"
  by (simp add: fits_slice_def)

end
