(* ===== verification/Baseline.thy ===== *)
theory Baseline
  imports Findings Evidence Go_Int
begin

text \<open>
  \<open>internal/runner/baseline.go\<close>: the accepted findings of a code base, keyed by module,
  file, check and message, with a count per key. Counts are of Go's type \<open>int\<close>, with its
  wrap-around. The YAML encoding of the file is a pair of parameters; the maps from keys to
  entries and budgets are association lists and functions.
\<close>

section \<open>Data\<close>

record baseline_entry =
  be_module :: string
  be_file :: string
  be_id :: string
  be_message :: string
  be_count :: int

record baseline_file =
  bf_version :: int
  bf_metadata :: evidence_metadata
  bf_entries :: "baseline_entry list"

text \<open>
  The surroundings of one baseline operation: the process environment, the YAML encoder
  and decoder, and the sorter that \<open>slices.SortFunc\<close> is on the modules.
\<close>

record baseline_env =
  bl_os :: os_env
  bl_marshal :: "baseline_file \<Rightarrow> string"
  bl_unmarshal :: "string \<Rightarrow> baseline_file option"
  bl_sort :: "go_module list \<Rightarrow> go_module list"

section \<open>Paths and keys\<close>

definition baseline_anchor :: "os_env \<Rightarrow> string \<Rightarrow> string" where
  "baseline_anchor env path =
     (case path_abs (env_cwd env) path of
        Some a \<Rightarrow> path_dir a
      | None \<Rightarrow> path_dir path)"

definition baseline_rel_path :: "os_env \<Rightarrow> string \<Rightarrow> string \<Rightarrow> string" where
  "baseline_rel_path env p anchor =
     (case path_abs (env_cwd env) p of
        None \<Rightarrow> to_slash p
      | Some a \<Rightarrow>
          (case path_rel anchor a of Some rel \<Rightarrow> to_slash rel | None \<Rightarrow> to_slash a))"

definition nul :: char where "nul = CHR 0x00"

definition entry_key :: "baseline_entry \<Rightarrow> string" where
  "entry_key e = be_module e @ [nul] @ be_file e @ [nul] @ be_id e @ [nul] @ be_message e"

text \<open>
  The loop over the modules: the first module that contains the file decides; if its
  identity is ambiguous the loop stops without one.
\<close>

fun module_entry :: "string \<Rightarrow> go_module list \<Rightarrow> (string \<times> string) option" where
  "module_entry name [] = None"
| "module_entry name (m # ms) =
     (case path_rel (mod_dir m) name of
        None \<Rightarrow> module_entry name ms
      | Some rel \<Rightarrow>
          if rel = ''..'' \<or> has_prefix rel [CHR ''.'', CHR ''.'', sep] \<or> is_abs rel
          then module_entry name ms
          else if mod_path m = [] then None
          else Some (mod_path m, to_slash rel))"

definition baseline_finding_entry ::
    "os_env \<Rightarrow> finding \<Rightarrow> string \<Rightarrow> int \<Rightarrow> go_module list \<Rightarrow> baseline_entry" where
  "baseline_finding_entry env f anchor version modules =
     (let entry = \<lparr>be_module = [], be_file = [], be_id = chk_id (fnd_check f),
                   be_message = fnd_message f, be_count = 1\<rparr>;
          scoped =
            (if version \<ge> 2 then
               (case path_abs (env_cwd env) (pos_filename (fnd_pos f)) of
                  None \<Rightarrow> None | Some name \<Rightarrow> module_entry name modules)
             else None)
      in case scoped of
           Some (mp, file) \<Rightarrow> entry\<lparr>be_module := mp, be_file := file\<rparr>
         | None \<Rightarrow> entry\<lparr>be_file := baseline_rel_path env (pos_filename (fnd_pos f)) anchor\<rparr>)"

section \<open>Modules\<close>

definition ambiguous_module :: "string \<Rightarrow> go_module" where
  "ambiguous_module dir =
     \<lparr>mod_path = [], mod_dir = dir, mod_main = False, mod_go_mod = [], mod_go_version = []\<rparr>"

fun modules_by_dir :: "go_package list \<Rightarrow> (string \<times> go_module) list \<Rightarrow> (string \<times> go_module) list" where
  "modules_by_dir [] by_dir = by_dir"
| "modules_by_dir (p # ps) by_dir =
     (case pkg_module p of
        None \<Rightarrow> modules_by_dir ps by_dir
      | Some m \<Rightarrow>
          if mod_dir m = [] \<or> mod_path m = [] then modules_by_dir ps by_dir
          else
            modules_by_dir ps
              (AList.update (mod_dir m)
                (case map_of by_dir (mod_dir m) of
                   Some prior \<Rightarrow>
                     if mod_path prior \<noteq> mod_path m then ambiguous_module (mod_dir m) else m
                 | None \<Rightarrow> m) by_dir))"

definition module_cmp :: "go_module go_cmp" where
  "module_cmp a b = int (length (mod_dir b)) - int (length (mod_dir a))"

definition baseline_modules :: "(go_module list \<Rightarrow> go_module list) \<Rightarrow> go_package list \<Rightarrow> go_module list" where
  "baseline_modules srt pkgs = srt (map snd (modules_by_dir pkgs []))"

section \<open>Writing\<close>

text \<open>The map of counts: a new key starts with the entry, a known key is incremented.\<close>

fun count_entry :: "baseline_entry \<Rightarrow> (string \<times> baseline_entry) list \<Rightarrow> (string \<times> baseline_entry) list" where
  "count_entry e [] = [(entry_key e, e)]"
| "count_entry e ((k, c) # m) =
     (if k = entry_key e then (k, c\<lparr>be_count := wrap64 (be_count c + 1)\<rparr>) # m else (k, c) # count_entry e m)"

definition entry_cmp :: "baseline_entry go_cmp" where
  "entry_cmp =
     then_cmp (\<lambda>a b. str_compare (be_module a) (be_module b))
     (then_cmp (\<lambda>a b. str_compare (be_file a) (be_file b))
     (then_cmp (\<lambda>a b. str_compare (be_id a) (be_id b))
       (\<lambda>a b. str_compare (be_message a) (be_message b))))"

definition baseline_of ::
    "baseline_env \<Rightarrow> string \<Rightarrow> finding list \<Rightarrow> evidence_metadata \<Rightarrow> go_package list \<Rightarrow> baseline_file" where
  "baseline_of env path fs metadata pkgs =
     (let anchor = baseline_anchor (bl_os env) path;
          modules = baseline_modules (bl_sort env) pkgs;
          counts = foldl (\<lambda>m f. count_entry (baseline_finding_entry (bl_os env) f anchor 2 modules) m) [] fs
      in \<lparr>bf_version = 2, bf_metadata = metadata, bf_entries = stable_sort entry_cmp (map snd counts)\<rparr>)"

text \<open>
  \<open>writeBaseline\<close>: the files after the write; none when the directory cannot be made or
  the file cannot be written, which \<open>mkdir\<close> and \<open>wr\<close> say. The first thing the function does is to
  make a map of \<open>len(findings)\<close> entries: a list that is too long for a slice of Go is no argument of it.
\<close>

definition write_baseline ::
    "baseline_env \<Rightarrow> (string \<Rightarrow> bool) \<Rightarrow> (string \<Rightarrow> bool) \<Rightarrow> string \<Rightarrow> finding list \<Rightarrow>
     evidence_metadata \<Rightarrow> go_package list \<Rightarrow> files \<Rightarrow> files option" where
  "write_baseline env mkdir wr path fs metadata pkgs fls =
     (if \<not> fits_slice fs then None
      else if path_dir path \<noteq> ''.'' \<and> \<not> mkdir (path_dir path) then None
      else if \<not> wr path then None
      else Some (fls(path \<mapsto> bl_marshal env (baseline_of env path fs metadata pkgs))))"

section \<open>Applying\<close>

datatype baseline_error = Read_Error | Parse_Error | Version_Error int

definition clear_module :: "int \<Rightarrow> baseline_entry \<Rightarrow> baseline_entry" where
  "clear_module version e = (if version = 1 then e\<lparr>be_module := []\<rparr> else e)"

definition add_budget :: "int \<Rightarrow> baseline_entry \<Rightarrow> (string \<Rightarrow> int) \<Rightarrow> string \<Rightarrow> int" where
  "add_budget version e budget =
     (let k = entry_key (clear_module version e) in budget(k := wrap64 (budget k + be_count e)))"

definition budget_of :: "baseline_file \<Rightarrow> string \<Rightarrow> int" where
  "budget_of bf = foldl (\<lambda>b e. add_budget (bf_version bf) e b) (\<lambda>_. 0) (bf_entries bf)"

fun consume :: "(finding \<Rightarrow> string) \<Rightarrow> (string \<Rightarrow> int) \<Rightarrow> finding list \<Rightarrow> finding list \<times> nat" where
  "consume key budget [] = ([], 0)"
| "consume key budget (f # fs) =
     (if budget (key f) > 0 then
        let (out, n) = consume key (budget(key f := budget (key f) - 1)) fs in (out, Suc n)
      else let (out, n) = consume key budget fs in (f # out, n))"

definition apply_baseline ::
    "baseline_env \<Rightarrow> files \<Rightarrow> string \<Rightarrow> finding list \<Rightarrow> evidence_metadata \<Rightarrow> go_package list \<Rightarrow>
     baseline_error + finding list \<times> nat \<times> evidence_warning list" where
  "apply_baseline env fls path fs metadata pkgs =
     (case fls path of
        None \<Rightarrow> Inl Read_Error
      | Some raw \<Rightarrow>
          (case bl_unmarshal env raw of
             None \<Rightarrow> Inl Parse_Error
           | Some bf \<Rightarrow>
               if bf_version bf \<noteq> 1 \<and> bf_version bf \<noteq> 2 then Inl (Version_Error (bf_version bf))
               else
                 let anchor = baseline_anchor (bl_os env) path;
                     modules = baseline_modules (bl_sort env) pkgs;
                     key = (\<lambda>f. entry_key (baseline_finding_entry (bl_os env) f anchor (bf_version bf) modules));
                     (out, suppressed) = consume key (budget_of bf) fs
                 in Inr (out, suppressed, baseline_metadata_warnings (bf_metadata bf) metadata)))"

end
