(* ===== verification/Baseline_Props.thy ===== *)
theory Baseline_Props
  imports Baseline
begin

text \<open>
  Properties of baselines: what a baseline suppresses, that a fresh baseline suppresses
  everything it was written from, that line numbers and the working directory do not
  matter, and that the module a finding is keyed by does not depend on the iteration order
  of a Go map.
\<close>

section \<open>Budgets\<close>

definition with_key :: "('a \<Rightarrow> 'k) \<Rightarrow> 'k \<Rightarrow> 'a list \<Rightarrow> 'a list" where
  "with_key key k xs = filter (\<lambda>x. key x = k) xs"

lemma with_key_simps [simp]:
  "with_key key k [] = []"
  "with_key key k (x # xs) = (if key x = k then x # with_key key k xs else with_key key k xs)"
  by (simp_all add: with_key_def)

lemma consume_spec:
  "consume key budget fs = (out, n) \<Longrightarrow>
     subseq out fs \<and> n + length out = length fs \<and>
     with_key key k out = drop (nat (budget k)) (with_key key k fs)"
proof (induction fs arbitrary: budget out n)
  case Nil
  then show ?case by simp
next
  case (Cons f fs)
  show ?case
  proof (cases "budget (key f) > 0")
    case True
    let ?b = "budget(key f := budget (key f) - 1)"
    obtain o' n' where c: "consume key ?b fs = (o', n')" by fastforce
    with Cons.prems True have on: "out = o'" "n = Suc n'" by (auto simp: Let_def)
    have "nat (budget (key f)) = Suc (nat (budget (key f) - 1))" using True by simp
    with Cons.IH [OF c] on show ?thesis by auto
  next
    case False
    obtain o' n' where c: "consume key budget fs = (o', n')" by fastforce
    with Cons.prems False have "out = f # o'" "n = n'" by (auto simp: Let_def)
    with Cons.IH [OF c] False show ?thesis by auto
  qed
qed

lemma consume_all:
  assumes "\<And>k. int (length (with_key key k fs)) \<le> budget k"
  shows "consume key budget fs = ([], length fs)"
proof -
  obtain out n where c: "consume key budget fs = (out, n)" by fastforce
  have "with_key key (key f) out = []" for f
    using consume_spec [OF c, of "key f"] assms [of "key f"] by simp
  then have "out = []" by (cases out) (simp, metis list.distinct(1) with_key_simps(2))
  with c consume_spec [OF c] show ?thesis by simp
qed

lemma consume_map:
  assumes "\<And>f. key' (g f) = key f"
  shows "consume key' budget (map g fs) = map_prod (map g) id (consume key budget fs)"
  by (induction fs arbitrary: budget) (auto simp: assms Let_def split: prod.split)

text \<open>The sum of the counts of the entries with a key.\<close>

definition key_sum :: "baseline_entry list \<Rightarrow> string \<Rightarrow> int" where
  "key_sum es k = sum_list (map be_count (with_key entry_key k es))"

lemma fold_budget:
  "wrap64 (budget k) = budget k \<Longrightarrow>
     foldl (\<lambda>b e. add_budget v e b) budget es k = wrap64 (budget k + key_sum (map (clear_module v) es) k)"
proof (induction es arbitrary: budget)
  case (Cons e es)
  let ?b = "add_budget v e budget"
  have b: "?b k = (if entry_key (clear_module v e) = k then wrap64 (budget k + be_count e) else budget k)"
    by (simp add: add_budget_def Let_def)
  then have "wrap64 (?b k) = ?b k" using Cons.prems wrap64_id [OF wrap64_range] by simp
  with Cons.IH [of ?b] b show ?case
    by (simp add: key_sum_def clear_module_def wrap64_add_left add.assoc)
qed (simp add: key_sum_def)

lemma budget_of_sum: "budget_of bf k = wrap64 (key_sum (map (clear_module (bf_version bf)) (bf_entries bf)) k)"
  using fold_budget [of "\<lambda>_. 0" k] by (simp add: budget_of_def wrap64_def)

text \<open>Two entries of the largest count give a negative budget, which suppresses nothing.\<close>

lemma budget_wraps:
  assumes "bf_version bf = 2"
    and "bf_entries bf = [e\<lparr>be_count := 2 ^ 63 - 1\<rparr>, e\<lparr>be_count := 2 ^ 63 - 1\<rparr>]"
  shows "budget_of bf (entry_key e) = - 2"
  by (simp add: budget_of_sum assms key_sum_def clear_module_def entry_key_def wrap64_def)

lemma key_sum_mset: "mset es = mset es' \<Longrightarrow> key_sum es k = key_sum es' k"
proof -
  have "key_sum es k = sum_mset (image_mset be_count (filter_mset (\<lambda>e. entry_key e = k) (mset es)))" for es
    by (simp add: key_sum_def with_key_def sum_mset_sum_list [symmetric])
  then show "mset es = mset es' \<Longrightarrow> key_sum es k = key_sum es' k" by simp
qed

text \<open>The map of counts holds, per key, the number of findings with the key.\<close>

definition keyed :: "(string \<times> baseline_entry) list \<Rightarrow> bool" where
  "keyed m = (\<forall>(k, e)\<in>set m. entry_key e = k)"

lemma entry_key_count [simp]: "entry_key (e\<lparr>be_count := n\<rparr>) = entry_key e"
  by (simp add: entry_key_def)

lemma count_entry_sum:
  "keyed m \<Longrightarrow> be_count e = 1 \<Longrightarrow>
     keyed (count_entry e m) \<and>
     wrap64 (key_sum (map snd (count_entry e m)) k) =
       wrap64 (key_sum (map snd m) k + (if entry_key e = k then 1 else 0))"
proof (induction e m rule: count_entry.induct)
  case (2 e k' c m)
  show ?case
  proof (cases "k' = entry_key e")
    case True
    with 2 show ?thesis
      by (simp add: keyed_def key_sum_def wrap64_add_left) (simp add: ac_simps)
  next
    case False
    from "2.IH" [OF this] "2.prems" have "keyed (count_entry e m)"
      and s: "wrap64 (key_sum (map snd (count_entry e m)) k) =
        wrap64 (key_sum (map snd m) k + (if entry_key e = k then 1 else 0))"
      by (simp_all add: keyed_def)
    moreover have "wrap64 (be_count c + key_sum (map snd (count_entry e m)) k) =
        wrap64 (be_count c + (key_sum (map snd m) k + (if entry_key e = k then 1 else 0)))"
      by (metis s wrap64_add_right)
    ultimately show ?thesis using "2.prems" False by (simp add: keyed_def key_sum_def ac_simps)
  qed
qed (simp add: keyed_def key_sum_def)

lemma count_entries_sum:
  assumes "\<And>f. be_count (ent f) = 1"
  shows "keyed m \<Longrightarrow>
    wrap64 (key_sum (map snd (foldl (\<lambda>m f. count_entry (ent f) m) m fs)) k) =
      wrap64 (key_sum (map snd m) k + int (length (with_key (\<lambda>f. entry_key (ent f)) k fs)))"
proof (induction fs arbitrary: m)
  case (Cons f fs)
  let ?n = "int (length (with_key (\<lambda>f. entry_key (ent f)) k fs))"
  from count_entry_sum [OF Cons.prems assms, of f k] have m: "keyed (count_entry (ent f) m)"
    and s: "wrap64 (key_sum (map snd (count_entry (ent f) m)) k) =
      wrap64 (key_sum (map snd m) k + (if entry_key (ent f) = k then 1 else 0))"
    by blast+
  have "wrap64 (key_sum (map snd (count_entry (ent f) m)) k + ?n) =
      wrap64 (key_sum (map snd m) k + (if entry_key (ent f) = k then 1 else 0) + ?n)"
    by (metis s wrap64_add_left)
  also have "\<dots> = wrap64 (key_sum (map snd m) k + int (length (with_key (\<lambda>f. entry_key (ent f)) k (f # fs))))"
    by (simp add: ac_simps)
  finally show ?case using Cons.IH [OF m] by simp
qed simp

lemma finding_entry_count [simp]: "be_count (baseline_finding_entry env f anchor v ms) = 1"
  by (simp add: baseline_finding_entry_def Let_def split: option.split prod.split)

text \<open>The key of a finding in a run.\<close>

definition finding_key ::
    "baseline_env \<Rightarrow> string \<Rightarrow> int \<Rightarrow> go_package list \<Rightarrow> finding \<Rightarrow> string" where
  "finding_key env path version pkgs f =
     entry_key (baseline_finding_entry (bl_os env) f (baseline_anchor (bl_os env) path) version
       (baseline_modules (bl_sort env) pkgs))"

lemma apply_baseline_eq:
  assumes "fls path = Some raw" and "bl_unmarshal env raw = Some bf" and "bf_version bf \<in> {1, 2}"
  shows "apply_baseline env fls path fs metadata pkgs =
    (let (out, n) = consume (finding_key env path (bf_version bf) pkgs) (budget_of bf) fs
     in Inr (out, n, baseline_metadata_warnings (bf_metadata bf) metadata))"
proof -
  have k: "finding_key env path (bf_version bf) pkgs =
      (\<lambda>f. entry_key (baseline_finding_entry (bl_os env) f (baseline_anchor (bl_os env) path)
        (bf_version bf) (baseline_modules (bl_sort env) pkgs)))"
    by (simp add: finding_key_def fun_eq_iff)
  from assms(3) have v: "(bf_version bf \<noteq> 1 \<and> bf_version bf \<noteq> 2) = False" by auto
  show ?thesis unfolding apply_baseline_def assms(1,2) option.case Let_def k v if_False ..
qed

lemma baseline_budget:
  assumes "fits_slice fs"
  shows "budget_of (baseline_of env path fs metadata pkgs) k =
     int (length (with_key (finding_key env path 2 pkgs) k fs))"
proof -
  let ?counts = "foldl (\<lambda>m f. count_entry (baseline_finding_entry (bl_os env) f
      (baseline_anchor (bl_os env) path) 2 (baseline_modules (bl_sort env) pkgs)) m) [] fs"
  have c: "map (clear_module 2) es = es" for es by (induction es) (simp_all add: clear_module_def)
  have f: "finding_key env path 2 pkgs = (\<lambda>f. entry_key (baseline_finding_entry (bl_os env) f
      (baseline_anchor (bl_os env) path) 2 (baseline_modules (bl_sort env) pkgs)))"
    by (simp add: finding_key_def fun_eq_iff)
  have "budget_of (baseline_of env path fs metadata pkgs) k = wrap64 (key_sum (map snd ?counts) k)"
    by (simp add: budget_of_sum baseline_of_def Let_def c)
      (rule arg_cong [where f = wrap64], rule key_sum_mset, simp)
  also have "\<dots> = wrap64 (int (length (with_key (finding_key env path 2 pkgs) k fs)))"
    using count_entries_sum [of "\<lambda>f. baseline_finding_entry (bl_os env) f
      (baseline_anchor (bl_os env) path) 2 (baseline_modules (bl_sort env) pkgs)" "[]" fs k]
    by (simp add: keyed_def key_sum_def f)
  also have "\<dots> = int (length (with_key (finding_key env path 2 pkgs) k fs))"
    by (rule fits_slice_wrap, rule fits_slice_le [OF assms]) (simp add: with_key_def)
  finally show ?thesis .
qed

text \<open>
  C13: what a baseline suppresses. Per key, the first findings up to the accepted
  count are dropped and all later ones survive; the survivors keep their order; and the
  number of suppressed findings is the number of missing ones. The accepted count is the sum
  of the counts of the entries with the key as Go computes it, wrapped to 64 bits: the sum
  itself when it fits an \<open>int\<close>, and otherwise a smaller or negative number, which
  suppresses less or nothing.
\<close>

theorem apply_baseline_exact:
  assumes "fls path = Some raw" and "bl_unmarshal env raw = Some bf" and "bf_version bf \<in> {1, 2}"
  shows "\<exists>out n. apply_baseline env fls path fs metadata pkgs =
      Inr (out, n, baseline_metadata_warnings (bf_metadata bf) metadata) \<and>
    subseq out fs \<and> n + length out = length fs \<and>
    (\<forall>k. with_key (finding_key env path (bf_version bf) pkgs) k out =
       drop (nat (wrap64 (key_sum (map (clear_module (bf_version bf)) (bf_entries bf)) k)))
         (with_key (finding_key env path (bf_version bf) pkgs) k fs))"
proof -
  obtain out n where c: "consume (finding_key env path (bf_version bf) pkgs) (budget_of bf) fs = (out, n)"
    by fastforce
  then have "apply_baseline env fls path fs metadata pkgs =
      Inr (out, n, baseline_metadata_warnings (bf_metadata bf) metadata)"
    unfolding apply_baseline_eq [of fls path raw env bf, OF assms] by simp
  then show ?thesis
    using consume_spec [OF c] by (metis budget_of_sum)
qed

text \<open>
  The ratchet. A baseline written from the findings of a run suppresses every
  one of them, in any number, when it is applied to the same findings; so a repository at
  its baseline is clean, with no stale-toolchain warning under the same toolchain.
\<close>

theorem baseline_roundtrip:
  assumes codec: "bl_unmarshal env (bl_marshal env (baseline_of env path fs metadata pkgs)) =
      Some (baseline_of env path fs metadata pkgs)"
    and w: "write_baseline env mkdir wr path fs metadata pkgs fls = Some fls'"
  shows "\<exists>ws. apply_baseline env fls' path fs metadata pkgs = Inr ([], length fs, ws) \<and>
    (tc_go_version (em_toolchain metadata) = [] \<or> ws = [])"
proof -
  let ?bf = "baseline_of env path fs metadata pkgs"
  have v: "bf_version ?bf = 2" "bf_metadata ?bf = metadata" by (simp_all add: baseline_of_def Let_def)
  from w have fits: "fits_slice fs" by (simp add: write_baseline_def split: if_splits)
  from w have "fls' path = Some (bl_marshal env ?bf)"
    by (auto simp: write_baseline_def split: if_splits)
  then have "apply_baseline env fls' path fs metadata pkgs =
      (let (out, n) = consume (finding_key env path 2 pkgs) (budget_of ?bf) fs
       in Inr (out, n, baseline_metadata_warnings metadata metadata))"
    using apply_baseline_eq [of fls' path _ env ?bf, OF _ codec] v by simp
  moreover have "consume (finding_key env path 2 pkgs) (budget_of ?bf) fs = ([], length fs)"
    by (rule consume_all) (simp add: baseline_budget [OF fits])
  moreover have "tc_go_version (em_toolchain metadata) = [] \<or> baseline_metadata_warnings metadata metadata = []"
    by (auto simp: baseline_metadata_warnings_def toolchain_changes_def generation_change_def Let_def
        split: option.split)
  ultimately show ?thesis by simp
qed

text \<open>
  Line independence. Findings that keep their file, check and message are
  treated alike, wherever they moved in the file: moving all findings of a run and then
  applying a baseline is the same as applying it and moving the survivors.
\<close>

theorem baseline_line_independent:
  assumes move: "\<And>f. pos_filename (fnd_pos (move f)) = pos_filename (fnd_pos f)"
      "\<And>f. fnd_check (move f) = fnd_check f" "\<And>f. fnd_message (move f) = fnd_message f"
    and a: "apply_baseline env fls path fs metadata pkgs = Inr (out, n, ws)"
  shows "apply_baseline env fls path (map move fs) metadata pkgs = Inr (map move out, n, ws)"
proof -
  from a obtain raw bf where r: "fls path = Some raw" "bl_unmarshal env raw = Some bf"
    and v: "bf_version bf \<in> {1, 2}"
    by (auto simp: apply_baseline_def split: option.splits if_splits)
  have k: "finding_key env path v pkgs (move f) = finding_key env path v pkgs f" for v f
    unfolding finding_key_def baseline_finding_entry_def move ..
  show ?thesis
    using a unfolding apply_baseline_eq [of fls path raw env bf, OF r v]
      consume_map [of "finding_key env path (bf_version bf) pkgs" move, OF k]
    by (auto simp: Let_def split: prod.splits)
qed

section \<open>Module identity\<close>

definition clean_dir :: "go_module \<Rightarrow> bool" where
  "clean_dir m = (is_abs (mod_dir m) \<and> path_clean (mod_dir m) = mod_dir m)"

definition contains_file :: "string \<Rightarrow> go_module \<Rightarrow> bool" where
  "contains_file name m = prefix (abs_comps (mod_dir m)) (abs_comps name)"

text \<open>What the module loop answers for the first module that contains the file.\<close>

definition entry_in :: "string \<Rightarrow> go_module \<Rightarrow> (string \<times> string) option" where
  "entry_in name m =
     (if mod_path m = [] then None
      else map_option (\<lambda>rel. (mod_path m, to_slash rel)) (path_rel (mod_dir m) name))"

lemma join_not_abs:
  assumes "\<forall>c\<in>set cs. c \<noteq> [] \<and> sep \<notin> set c"
  shows "\<not> is_abs (join_with [sep] cs)"
proof (cases cs)
  case (Cons c cs')
  with assms obtain x xs where "c = x # xs" "x \<noteq> sep" by (cases c) auto
  with Cons show ?thesis by (cases cs') (auto simp: is_abs_def)
qed (simp add: is_abs_def)

lemma rel_not_abs:
  assumes "is_abs b" and "is_abs t" and "path_rel b t = Some rel"
  shows "\<not> is_abs rel"
proof -
  obtain bs ts where d: "drop_common (abs_comps b) (abs_comps t) = (bs, ts)" by fastforce
  from drop_common_spec [OF d] have "set ts \<subseteq> set (abs_comps t)" by auto
  then have "\<forall>c\<in>set (replicate (length bs) ''..'' @ ts). c \<noteq> [] \<and> sep \<notin> set c"
    using clean_comps_good by (auto simp: abs_comps_def good_comp_def sep_def)
  then have "\<not> is_abs (join_with [sep] (replicate (length bs) ''..'' @ ts))" by (rule join_not_abs)
  with path_rel_abs [OF assms(1,2)] assms(3) d show ?thesis
    by (auto simp: is_abs_def sep_def split: if_splits)
qed

lemma module_entry_find:
  assumes "is_abs name" and "\<forall>m\<in>set ms. clean_dir m"
  shows "module_entry name ms =
    (case List.find (contains_file name) ms of None \<Rightarrow> None | Some m \<Rightarrow> entry_in name m)"
  using assms(2)
proof (induction ms)
  case (Cons m ms)
  then have a: "is_abs (mod_dir m)" by (simp add: clean_dir_def)
  then obtain rel where r: "path_rel (mod_dir m) name = Some rel"
    using path_rel_abs [OF a assms(1)] by simp
  have "rel = ''..'' \<or> has_prefix rel [CHR ''.'', CHR ''.'', sep] \<or> is_abs rel \<longleftrightarrow>
      \<not> contains_file name m"
    using rel_inside [OF a assms(1) r] rel_not_abs [OF a assms(1) r]
    by (auto simp: climbs_def contains_file_def)
  with Cons r show ?case by (simp add: entry_in_def)
qed simp

lemma join_prefix_length:
  "prefix xs ys \<Longrightarrow> length (join_with [sep] xs) = length (join_with [sep] ys) \<Longrightarrow>
     [] \<notin> set ys \<Longrightarrow> xs = ys"
proof (rule ccontr)
  assume "prefix xs ys" and l: "length (join_with [sep] xs) = length (join_with [sep] ys)"
    and ne: "[] \<notin> set ys" and "xs \<noteq> ys"
  then obtain zs where ys: "ys = xs @ zs" and zs: "zs \<noteq> []" by (auto simp: prefix_def)
  have "0 < comps_size zs" using zs by (cases zs) auto
  have "Suc (length (join_with [sep] ys)) = comps_size xs + comps_size zs"
    using join_size [of ys] ys zs by simp
  moreover have "xs \<noteq> [] \<Longrightarrow> Suc (length (join_with [sep] xs)) = comps_size xs"
    by (rule join_size)
  moreover have "xs = [] \<Longrightarrow> 1 < comps_size zs" using zs ne ys by (cases zs) auto
  ultimately show False using l \<open>0 < comps_size zs\<close> by (cases "xs = []") auto
qed

lemma same_length_dirs:
  assumes "clean_dir m" and "clean_dir m'" and "contains_file name m" and "contains_file name m'"
    and "length (mod_dir m) = length (mod_dir m')"
  shows "mod_dir m = mod_dir m'"
proof -
  have d: "mod_dir k = sep # join_with [sep] (abs_comps (mod_dir k))" if "clean_dir k" for k
    using that path_clean_abs [of "mod_dir k"] by (simp add: clean_dir_def)
  have l: "length (join_with [sep] (abs_comps (mod_dir m))) = length (join_with [sep] (abs_comps (mod_dir m')))"
    using assms(5) d [OF assms(1)] d [OF assms(2)] by (metis length_Cons nat.inject)
  have ne: "[] \<notin> set (abs_comps p)" for p
    using clean_comps_good by (auto simp: abs_comps_def good_comp_def)
  from assms(3,4) have "prefix (abs_comps (mod_dir m)) (abs_comps (mod_dir m')) \<or>
      prefix (abs_comps (mod_dir m')) (abs_comps (mod_dir m))"
    unfolding contains_file_def by (metis prefix_same_cases)
  then have "abs_comps (mod_dir m) = abs_comps (mod_dir m')"
    using join_prefix_length l ne by metis
  with d [OF assms(1)] d [OF assms(2)] show ?thesis by metis
qed

lemma find_sorted:
  assumes "sorted_by module_cmp ms" and "distinct (map mod_dir ms)" and "\<forall>m\<in>set ms. clean_dir m"
  shows "List.find (contains_file name) ms = Some m \<longleftrightarrow>
    m \<in> set ms \<and> contains_file name m \<and>
    (\<forall>m'\<in>set ms. contains_file name m' \<longrightarrow> length (mod_dir m') \<le> length (mod_dir m))"
  using assms
proof (induction ms)
  case Nil
  then show ?case by simp
next
  case (Cons x ms)
  have le: "\<forall>y\<in>set ms. length (mod_dir y) \<le> length (mod_dir x)"
    using Cons.prems(1) by (auto simp: sorted_by_def module_cmp_def)
  have IH: "List.find (contains_file name) ms = Some m \<longleftrightarrow>
    m \<in> set ms \<and> contains_file name m \<and>
    (\<forall>m'\<in>set ms. contains_file name m' \<longrightarrow> length (mod_dir m') \<le> length (mod_dir m))"
    using Cons by (simp add: sorted_by_def)
  show ?case
  proof (cases "contains_file name x")
    case False
    with IH show ?thesis by auto
  next
    case True
    have "m = x" if m: "m \<in> set ms" "contains_file name m" "length (mod_dir x) \<le> length (mod_dir m)"
    proof -
      have "mod_dir m = mod_dir x"
        using same_length_dirs [of m x name] m True le Cons.prems(3) by (simp add: le_antisym)
      with m(1) Cons.prems(2) show "m = x" by (auto simp: image_iff)
    qed
    with True le show ?thesis by auto
  qed
qed

text \<open>
  Module identity is deterministic. The module a finding is keyed by does not
  depend on the order in which the Go map of modules is iterated nor on how the unstable
  sort orders directories of one length: any two arrangements of the modules, longest
  directory first, give the same answer, the innermost module that contains the file.
\<close>

theorem module_entry_deterministic:
  assumes "mset ms = mset ms'" and "sorted_by module_cmp ms" and "sorted_by module_cmp ms'"
    and "distinct (map mod_dir ms)" and "\<forall>m\<in>set ms. clean_dir m" and "is_abs name"
  shows "module_entry name ms = module_entry name ms'"
proof -
  have s: "set ms = set ms'" using assms(1) by (rule mset_eq_setD)
  have d: "distinct (map mod_dir ms')"
    using assms(1,4) by (metis mset_eq_imp_distinct_iff mset_map)
  have c: "\<forall>m\<in>set ms'. clean_dir m" using assms(5) s by simp
  have "List.find (contains_file name) ms = Some m \<longleftrightarrow> List.find (contains_file name) ms' = Some m" for m
    unfolding find_sorted [OF assms(2,4,5)] find_sorted [OF assms(3) d c] s ..
  then have "List.find (contains_file name) ms = List.find (contains_file name) ms'"
    by (metis option.exhaust)
  then show ?thesis
    unfolding module_entry_find [OF assms(6,5)] module_entry_find [OF assms(6) c] by simp
qed

section \<open>Concrete runs\<close>

definition at_line :: "int \<Rightarrow> finding" where
  "at_line l =
     \<lparr>fnd_check = plain_check ''PS2005'' 1,
      fnd_pos = \<lparr>pos_filename = ''/w/a.go'', pos_offset = 1, pos_line = l, pos_column = 2\<rparr>,
      fnd_end = \<lparr>pos_filename = ''/w/a.go'', pos_offset = 2, pos_line = l, pos_column = 3\<rparr>,
      fnd_message = ''m'', fnd_fixes = [], fnd_fset = []\<rparr>"

definition sample_metadata :: evidence_metadata where
  "sample_metadata =
     \<lparr>em_toolchain = \<lparr>tc_go_version = ''go1.25'', tc_goos = ''linux'', tc_goarch = ''amd64'', tc_module_go = ''1.25''\<rparr>,
      em_warnings = []\<rparr>"

definition sample_module :: "string \<Rightarrow> string \<Rightarrow> go_module" where
  "sample_module path dir =
     \<lparr>mod_path = path, mod_dir = dir, mod_main = True, mod_go_mod = [], mod_go_version = ''1.25''\<rparr>"

definition sample_file :: baseline_file where
  "sample_file =
     \<lparr>bf_version = 2, bf_metadata = sample_metadata,
      bf_entries = [\<lparr>be_module = [], be_file = ''a.go'', be_id = ''PS2005'', be_message = ''m'', be_count = 1\<rparr>]\<rparr>"

definition sample_bl :: "baseline_env" where
  "sample_bl =
     \<lparr>bl_os = sample_env, bl_marshal = (\<lambda>bf. if bf = sample_file then ''b'' else ''c''),
      bl_unmarshal = (\<lambda>s. if s = ''b'' then Some sample_file else None),
      bl_sort = stable_sort module_cmp\<rparr>"

lemma sample_abs: "path_abs (env_cwd sample_env) ''/w/b.yml'' = Some ''/w/b.yml''"
  "path_abs (env_cwd sample_env) ''/w/a.go'' = Some ''/w/a.go''"
  "path_dir ''/w/b.yml'' = ''/w''" "path_rel ''/w'' ''/w/a.go'' = Some ''a.go''"
  by code_simp+

lemma sample_entry:
  "baseline_finding_entry sample_env (at_line l) (baseline_anchor sample_env ''/w/b.yml'') 2 [] =
     \<lparr>be_module = [], be_file = ''a.go'', be_id = ''PS2005'', be_message = ''m'', be_count = 1\<rparr>"
  by (simp add: baseline_finding_entry_def baseline_anchor_def baseline_rel_path_def at_line_def
      sample_abs plain_check_def to_slash_def)

lemma sample_modules: "baseline_modules (bl_sort sample_bl) [] = []"
  by (simp add: baseline_modules_def sample_bl_def)

lemma sample_finding_key:
  "finding_key sample_bl ''/w/b.yml'' 2 [] (at_line l) =
     entry_key \<lparr>be_module = [], be_file = ''a.go'', be_id = ''PS2005'', be_message = ''m'', be_count = 1\<rparr>"
  by (simp add: finding_key_def sample_modules) (simp add: sample_bl_def sample_entry)

lemma sample_bl_file: "bl_unmarshal sample_bl ''b'' = Some sample_file" "bf_version sample_file = 2"
  by (simp_all add: sample_bl_def sample_file_def)

lemma sample_apply:
  "apply_baseline sample_bl [''/w/b.yml'' \<mapsto> ''b''] ''/w/b.yml'' [at_line 3, at_line 8] sample_metadata [] =
     Inr ([at_line 8], 1, [])"
proof -
  let ?e = "\<lparr>be_module = [], be_file = ''a.go'', be_id = ''PS2005'', be_message = ''m'', be_count = 1\<rparr>"
  have b: "budget_of sample_file (entry_key ?e) = 1"
    by (simp add: budget_of_def sample_file_def add_budget_def clear_module_def wrap64_def)
  have w: "baseline_metadata_warnings (bf_metadata sample_file) sample_metadata = []"
    by code_simp
  have r: "[''/w/b.yml'' \<mapsto> ''b''] ''/w/b.yml'' = Some ''b''" by simp
  have v: "bf_version sample_file \<in> {1, 2}" by (simp add: sample_bl_file)
  show ?thesis
    unfolding apply_baseline_eq [of "[''/w/b.yml'' \<mapsto> ''b'']" "''/w/b.yml''" "''b''" sample_bl sample_file,
        OF r sample_bl_file(1) v] sample_bl_file(2)
    by (simp add: sample_finding_key b w)
qed

theorem apply_baseline_exact_witness:
  "\<exists>out n. apply_baseline sample_bl [''/w/b.yml'' \<mapsto> ''b''] ''/w/b.yml'' [at_line 3, at_line 8]
       sample_metadata [] = Inr (out, n, []) \<and> out = [at_line 8] \<and> n + length out = 2"
proof -
  have r: "[''/w/b.yml'' \<mapsto> ''b''] ''/w/b.yml'' = Some ''b''" by simp
  have v: "bf_version sample_file \<in> {1, 2}" by (simp add: sample_bl_file)
  show ?thesis
    using apply_baseline_exact [of "[''/w/b.yml'' \<mapsto> ''b'']" "''/w/b.yml''" "''b''" sample_bl sample_file
        "[at_line 3, at_line 8]" sample_metadata "[]", OF r sample_bl_file(1) v] sample_apply by auto
qed

theorem baseline_line_independent_witness:
  "apply_baseline sample_bl [''/w/b.yml'' \<mapsto> ''b''] ''/w/b.yml''
     (map (\<lambda>f. f\<lparr>fnd_pos := (fnd_pos f)\<lparr>pos_line := 99\<rparr>\<rparr>) [at_line 3, at_line 8]) sample_metadata [] =
   Inr (map (\<lambda>f. f\<lparr>fnd_pos := (fnd_pos f)\<lparr>pos_line := 99\<rparr>\<rparr>) [at_line 8], 1, [])"
  by (rule baseline_line_independent [OF _ _ _ sample_apply]) simp_all

theorem baseline_roundtrip_witness:
  "\<exists>fls. write_baseline sample_bl (\<lambda>_. True) (\<lambda>_. True) ''/w/b.yml'' [at_line 3] sample_metadata []
       (\<lambda>_. None) = Some fls \<and>
     (\<exists>ws. apply_baseline sample_bl fls ''/w/b.yml'' [at_line 3] sample_metadata [] = Inr ([], 1, ws))"
proof -
  have b: "baseline_of sample_bl ''/w/b.yml'' [at_line 3] sample_metadata [] = sample_file"
    by (simp add: baseline_of_def Let_def sample_modules)
      (simp add: sample_bl_def sample_entry sample_file_def)
  have c: "bl_unmarshal sample_bl (bl_marshal sample_bl
      (baseline_of sample_bl ''/w/b.yml'' [at_line 3] sample_metadata [])) =
      Some (baseline_of sample_bl ''/w/b.yml'' [at_line 3] sample_metadata [])"
    unfolding b by (simp add: sample_bl_def)
  obtain fls where w: "write_baseline sample_bl (\<lambda>_. True) (\<lambda>_. True) ''/w/b.yml'' [at_line 3]
      sample_metadata [] (\<lambda>_. None) = Some fls"
    by (simp add: write_baseline_def fits_slice_def)
  from baseline_roundtrip [OF c w] w show ?thesis by auto
qed

theorem module_entry_deterministic_witness:
  "module_entry ''/w/a.go'' [sample_module ''m'' ''/w'', sample_module ''n'' ''/v''] =
   module_entry ''/w/a.go'' [sample_module ''n'' ''/v'', sample_module ''m'' ''/w'']"
proof (rule module_entry_deterministic)
  have c: "path_clean ''/w'' = ''/w''" "path_clean ''/v'' = ''/v''" by code_simp+
  show "\<forall>m\<in>set [sample_module ''m'' ''/w'', sample_module ''n'' ''/v'']. clean_dir m"
    by (simp add: clean_dir_def sample_module_def c is_abs_def sep_def)
qed (simp_all add: sorted_by_def module_cmp_def sample_module_def is_abs_def sep_def)

end
