(* ===== verification/Evidence_Props.thy ===== *)
theory Evidence_Props
  imports Evidence
begin

text \<open>
  Properties of the evidence metadata: which directory is taken as the repository root,
  that a \<open>go-version-file\<close> is never read outside of it, that a conflict warning reports a
  real conflict, and when a baseline is reported as stale.
\<close>

section \<open>The repository root\<close>

text \<open>A directory and its ancestors, nearest first.\<close>

function ancestors :: "string \<Rightarrow> string list" where
  "ancestors dir = dir # (if path_dir dir = dir then [] else ancestors (path_dir dir))"
  by pat_completeness auto
termination by (relation "measure climb_measure") (auto dest: climb_measure_less)

declare ancestors.simps [simp del]

definition has_git :: "(string \<Rightarrow> bool) \<Rightarrow> string \<Rightarrow> bool" where
  "has_git ex d = ex (path_join [d, ''.git''])"

definition has_workflows :: "(string \<Rightarrow> bool) \<Rightarrow> string \<Rightarrow> bool" where
  "has_workflows ex d = ex (path_join [d, ''.github'', ''workflows''])"

definition has_go_work :: "(string \<Rightarrow> bool) \<Rightarrow> string \<Rightarrow> bool" where
  "has_go_work ex d = ex (path_join [d, ''go.work''])"

definition or_first :: "string \<Rightarrow> (string \<Rightarrow> bool) \<Rightarrow> string list \<Rightarrow> string" where
  "or_first d P ds = (if d \<noteq> [] then d else case List.find P ds of Some e \<Rightarrow> e | None \<Rightarrow> [])"

lemma workflow_loop_spec:
  "dir \<noteq> [] \<Longrightarrow> workflow_loop ex dir flow work =
     (case List.find (has_git ex) (ancestors dir) of
        Some d \<Rightarrow> Inl d
      | None \<Rightarrow> Inr (or_first flow (has_workflows ex) (ancestors dir),
                   or_first work (has_go_work ex) (ancestors dir)))"
proof (induction ex dir flow work rule: workflow_loop.induct)
  case (1 ex dir flow work)
  show ?case
  proof (cases "has_git ex dir")
    case True
    then show ?thesis
      by (subst workflow_loop.simps, subst ancestors.simps) (simp add: has_git_def)
  next
    case False
    let ?flow = "if flow = [] \<and> has_workflows ex dir then dir else flow"
    let ?work = "if work = [] \<and> has_go_work ex dir then dir else work"
    have l: "workflow_loop ex dir flow work =
        (if path_dir dir = dir then Inr (?flow, ?work) else workflow_loop ex (path_dir dir) ?flow ?work)"
      using False by (subst workflow_loop.simps)
        (simp add: Let_def has_git_def has_workflows_def has_go_work_def)
    show ?thesis
    proof (cases "path_dir dir = dir")
      case True
      then have "ancestors dir = [dir]" by (subst ancestors.simps) simp
      with l True False show ?thesis by (simp add: or_first_def)
    next
      case step: False
      then have a: "ancestors dir = dir # ancestors (path_dir dir)" by (subst ancestors.simps) simp
      have "workflow_loop ex (path_dir dir) ?flow ?work =
          (case List.find (has_git ex) (ancestors (path_dir dir)) of
             Some d \<Rightarrow> Inl d
           | None \<Rightarrow> Inr (or_first ?flow (has_workflows ex) (ancestors (path_dir dir)),
                        or_first ?work (has_go_work ex) (ancestors (path_dir dir))))"
        by (rule 1(1) [OF False [unfolded has_git_def] refl refl step path_dir_not_Nil,
              folded has_workflows_def has_go_work_def])
      with l step False 1(2) show ?thesis
        unfolding a by (auto simp: or_first_def split: option.split)
    qed
  qed
qed

text \<open>
  The repository root. It is the nearest ancestor with a \<open>.git\<close> entry, whatever
  lies below it; without one, the nearest with a workflow directory; without either, the
  nearest with a \<open>go.work\<close>; and otherwise the module root itself.
\<close>

theorem workflow_root_spec:
  assumes "\<And>w. env_cwd (ev_os env) = Some w \<Longrightarrow> is_abs w"
  shows "repository_workflow_root env module_root =
     (let start = (case path_abs (env_cwd (ev_os env)) module_root of
                     Some a \<Rightarrow> a | None \<Rightarrow> path_clean module_root);
          dirs = ancestors start; ex = ev_exists env
      in case List.find (has_git ex) dirs of Some d \<Rightarrow> d
         | None \<Rightarrow> (case List.find (has_workflows ex) dirs of Some d \<Rightarrow> d
         | None \<Rightarrow> (case List.find (has_go_work ex) dirs of Some d \<Rightarrow> d
         | None \<Rightarrow> start)))"
proof -
  define start where "start = (case path_abs (env_cwd (ev_os env)) module_root of
                     Some a \<Rightarrow> a | None \<Rightarrow> path_clean module_root)"
  have start: "start \<noteq> []"
    using assms path_abs_is_abs [of "ev_os env" module_root] is_abs_not_Nil
    by (fastforce simp: start_def split: option.splits)
  have found: "List.find P (ancestors start) = Some d \<Longrightarrow> d \<noteq> []" for P d
  proof -
    have "[] \<notin> set (ancestors e)" if "e \<noteq> []" for e
      using that
    proof (induction e rule: ancestors.induct)
      case (1 e)
      then show ?case by (subst ancestors.simps) simp
    qed
    then show "List.find P (ancestors start) = Some d \<Longrightarrow> d \<noteq> []"
      using start by (auto simp: find_Some_iff dest: nth_mem)
  qed
  show ?thesis
    unfolding repository_workflow_root_def start_def [symmetric] Let_def
      workflow_loop_spec [OF start] or_first_def
    by (auto split: option.split dest: found)
qed

section \<open>Version files stay inside the repository\<close>

text \<open>
  A \<open>go-version-file\<close> input never reads a file outside the repository. If
  resolving symbolic links keeps absolute paths absolute, the file whose contents give the
  version lies below the resolved repository root, component by component; a value with
  \<open>..\<close> or a link that leaves the repository gives no version.
\<close>

theorem version_file_contained:
  assumes links: "\<And>p q. is_abs p \<Longrightarrow> ev_links env p = Some q \<Longrightarrow> is_abs q"
    and cwd: "\<And>w. env_cwd (ev_os env) = Some w \<Longrightarrow> is_abs w"
    and v: "setup_go_version_from_file env repo value mode = Some ver"
  shows "\<exists>r real_root path contents. path_abs (env_cwd (ev_os env)) repo = Some r \<and>
    ev_links env r = Some real_root \<and> ev_read env path = Some contents \<and>
    version_of_contents env path contents mode = Some ver \<and>
    prefix (abs_comps real_root) (abs_comps path)"
proof -
  from v obtain path contents where p: "version_file_path env repo value = Some path"
    and c: "ev_read env path = Some contents" "version_of_contents env path contents mode = Some ver"
    by (auto simp: setup_go_version_from_file_def split: option.splits)
  from p obtain r real_root rel where r: "path_abs (env_cwd (ev_os env)) repo = Some r"
    "ev_links env r = Some real_root" "ev_links env (path_join [real_root, trim_space value]) = Some path"
    "path_rel real_root path = Some rel" "rel \<noteq> ''..''" "\<not> has_prefix rel [CHR ''.'', CHR ''.'', sep]"
    by (auto simp: version_file_path_def Let_def split: option.splits if_splits)
  have a: "is_abs real_root" using links r(1,2) path_abs_is_abs cwd by blast
  have "is_abs (path_join [real_root, trim_space value])"
  proof (rule is_abs_join)
    show "is_abs real_root" by (rule a)
  qed
  then have "is_abs path" using links r(3) by blast
  with rel_inside [OF a _ r(4)] r(5,6) have "prefix (abs_comps real_root) (abs_comps path)"
    by (simp add: climbs_def)
  with c r show ?thesis by blast
qed

text \<open>A checkout at \<open>/r\<close> with the module below it, and a workflow directory in the module.\<close>

definition sample_evid :: evid_env where
  "sample_evid =
     \<lparr>ev_os = sample_env, ev_go_env = None, ev_runtime = (''go1.25'', ''linux'', ''amd64''),
      ev_exists = (\<lambda>p. p = ''/r/.git'' \<or> p = ''/r/m/.github/workflows''),
      ev_read = [''/r/.go-version'' \<mapsto> ''1.24''], ev_dir = (\<lambda>d. None), ev_links = Some,
      ev_yaml = (\<lambda>s. None), ev_mod_lax = (\<lambda>p s. None), ev_mod = (\<lambda>p s. None),
      ev_work = (\<lambda>p s. None), ev_sort = stable_sort warning_cmp, ev_print = (\<lambda>r. True)\<rparr>"

lemma sample_evid_cwd: "env_cwd (ev_os sample_evid) = Some w \<Longrightarrow> is_abs w"
  by (auto simp: sample_evid_def sample_env_def is_abs_def sep_def)

theorem workflow_root_spec_witness:
  "repository_workflow_root sample_evid ''/r/m'' = ''/r''"
proof -
  have p: "path_abs (env_cwd (ev_os sample_evid)) ''/r/m'' = Some ''/r/m''"
    by code_simp
  have d: "path_dir ''/r/m'' = ''/r''" "path_dir ''/r'' = ''/''" "path_dir ''/'' = ''/''"
    by code_simp+
  have a: "ancestors ''/r/m'' = [''/r/m'', ''/r'', ''/'']"
    by (simp add: ancestors.simps d)
  have g: "\<not> has_git (ev_exists sample_evid) ''/r/m''" "has_git (ev_exists sample_evid) ''/r''"
    by code_simp+
  show ?thesis
    using workflow_root_spec [of sample_evid "''/r/m''", OF sample_evid_cwd] by (simp add: p a g)
qed

theorem version_file_contained_witness:
  "setup_go_version_from_file sample_evid ''/r'' ''.go-version'' ToolchainIgnored = Some ''1.24'' \<and>
   (\<exists>path. ev_read sample_evid path = Some ''1.24'' \<and> prefix (abs_comps ''/r'') (abs_comps path))"
proof -
  have links: "\<And>p q. is_abs p \<Longrightarrow> ev_links sample_evid p = Some q \<Longrightarrow> is_abs q"
    by (simp add: sample_evid_def)
  have p: "path_abs (env_cwd (ev_os sample_evid)) ''/r'' = Some ''/r''" by code_simp
  have v: "setup_go_version_from_file sample_evid ''/r'' ''.go-version'' ToolchainIgnored = Some ''1.24''"
    by code_simp
  have "\<exists>r real_root path contents. path_abs (env_cwd (ev_os sample_evid)) ''/r'' = Some r \<and>
      ev_links sample_evid r = Some real_root \<and> ev_read sample_evid path = Some contents \<and>
      version_of_contents sample_evid path contents ToolchainIgnored = Some ''1.24'' \<and>
      prefix (abs_comps real_root) (abs_comps path)"
    by (rule version_file_contained [OF links sample_evid_cwd v])
  then obtain r real_root path contents where
    "path_abs (env_cwd (ev_os sample_evid)) ''/r'' = Some r" "ev_links sample_evid r = Some real_root"
    "ev_read sample_evid path = Some contents" "prefix (abs_comps real_root) (abs_comps path)"
    by blast
  with p v show ?thesis by (auto simp: sample_evid_def split: if_splits)
qed

section \<open>Stale baselines\<close>

lemma generation_change_Nil:
  "generation_change what old cur = [] \<longleftrightarrow> old = None \<or> cur = None \<or> old = cur"
  by (auto simp: generation_change_def split: option.split)

definition comparable_and_different :: "string option \<Rightarrow> string option \<Rightarrow> bool" where
  "comparable_and_different a b = (a \<noteq> None \<and> b \<noteq> None \<and> a \<noteq> b)"

text \<open>
  A baseline is reported as stale exactly when it has no fingerprint or the
  compiler generation, the module's Go generation or the target provably changed; unknown
  values are never held against it, and there is at most one warning.
\<close>

theorem baseline_warning_iff:
  "length (baseline_metadata_warnings stored cur) =
     (let old = em_toolchain stored; new = em_toolchain cur in
      if tc_go_version old = [] \<or>
         comparable_and_different (go_command_generation (tc_go_version old))
           (go_command_generation (tc_go_version new)) \<or>
         comparable_and_different (go_generation (tc_module_go old)) (go_generation (tc_module_go new)) \<or>
         [] \<notin> {tc_goos old, tc_goarch old, tc_goos new, tc_goarch new} \<and>
         (tc_goos old, tc_goarch old) \<noteq> (tc_goos new, tc_goarch new)
      then 1 else 0)"
proof -
  have c: "toolchain_changes old new = [] \<longleftrightarrow>
      \<not> (comparable_and_different (go_command_generation (tc_go_version old))
           (go_command_generation (tc_go_version new)) \<or>
         comparable_and_different (go_generation (tc_module_go old)) (go_generation (tc_module_go new)) \<or>
         [] \<notin> {tc_goos old, tc_goarch old, tc_goos new, tc_goarch new} \<and>
         (tc_goos old, tc_goarch old) \<noteq> (tc_goos new, tc_goarch new))" for old new
    by (auto simp: toolchain_changes_def generation_change_Nil comparable_and_different_def)
  show ?thesis
    using c [of "em_toolchain stored" "em_toolchain cur"]
    by (simp add: baseline_metadata_warnings_def Let_def)
qed

end
