(* ===== verification/Report.thy ===== *)
theory Report
  imports Diff Evidence
begin

text \<open>
  The reports of a run: the text lines and the JSON document of
  \<open>internal/runner/runner.go\<close>, and the SARIF log of \<open>internal/runner/sarif.go\<close>. The
  documents are the values handed to \<open>encoding/json\<close>.
\<close>

section \<open>JSON\<close>

record json_edit =
  je_file :: string
  je_line :: int
  je_col :: int
  je_end_line :: int
  je_end_col :: int
  je_start :: int
  je_end :: int
  je_new_text :: string

record json_fix =
  jx_message :: string
  jx_edits :: "json_edit list"

record json_finding =
  jf_id :: string
  jf_category :: string
  jf_level :: string
  jf_auto_fix :: bool
  jf_file :: string
  jf_line :: int
  jf_col :: int
  jf_end_line :: int
  jf_end_col :: int
  jf_message :: string
  jf_fixes :: "json_fix list"
  jf_metadata :: evidence_metadata

text \<open>
  \<open>FileSet.Position\<close>, which honours \<open>//line\<close> directives, is the parameter \<open>position\<close>; the
  working directory is the one \<open>cacheWd\<close> captured.
\<close>

definition json_edit_of ::
    "(file_set \<Rightarrow> int \<Rightarrow> position) \<Rightarrow> string option \<Rightarrow> file_set \<Rightarrow> text_edit \<Rightarrow> json_edit option" where
  "json_edit_of position wd fset te =
     (case fset_file fset (te_pos te) of
        None \<Rightarrow> None
      | Some f \<Rightarrow>
          let p = position fset (te_pos te); e = position fset (te_end te) in
          Some \<lparr>je_file = rel_path wd (pos_filename p), je_line = pos_line p, je_col = pos_column p,
                je_end_line = pos_line e, je_end_col = pos_column e,
                je_start = file_offset f (te_pos te), je_end = file_offset f (te_end te),
                je_new_text = te_new_text te\<rparr>)"

definition json_finding_of ::
    "(file_set \<Rightarrow> int \<Rightarrow> position) \<Rightarrow> string option \<Rightarrow> evidence_metadata \<Rightarrow> finding \<Rightarrow> json_finding" where
  "json_finding_of position wd metadata f =
     \<lparr>jf_id = chk_id (fnd_check f), jf_category = chk_category (fnd_check f),
      jf_level = level_string (chk_level (fnd_check f)), jf_auto_fix = chk_auto_fix (fnd_check f),
      jf_file = rel_path wd (pos_filename (fnd_pos f)), jf_line = pos_line (fnd_pos f),
      jf_col = pos_column (fnd_pos f), jf_end_line = pos_line (fnd_end f),
      jf_end_col = pos_column (fnd_end f), jf_message = fnd_message f,
      jf_fixes = map (\<lambda>fx. \<lparr>jx_message = fix_message fx,
        jx_edits = List.map_filter (json_edit_of position wd (fnd_fset f)) (fix_edits fx)\<rparr>) (fnd_fixes f),
      jf_metadata = metadata\<rparr>"

definition emit_json ::
    "(file_set \<Rightarrow> int \<Rightarrow> position) \<Rightarrow> string option \<Rightarrow> finding list \<Rightarrow> evidence_metadata \<Rightarrow> json_finding list" where
  "emit_json position wd fs metadata = map (json_finding_of position wd metadata) fs"

section \<open>Text\<close>

definition finding_line :: "string option \<Rightarrow> finding \<Rightarrow> string" where
  "finding_line wd f =
     rel_path wd (pos_filename (fnd_pos f)) @ '':'' @ itoa (pos_line (fnd_pos f)) @ '':'' @
     itoa (pos_column (fnd_pos f)) @ '': '' @ fnd_message f @ '' ('' @ chk_id (fnd_check f) @ '' '' @
     level_string (chk_level (fnd_check f)) @ '')'' @ newline"

definition emit_text :: "string option \<Rightarrow> finding list \<Rightarrow> string" where
  "emit_text wd fs = concat (map (finding_line wd) fs)"

section \<open>SARIF\<close>

record sarif_rule =
  sr_id :: string
  sr_short_description :: string
  sr_help_uri :: string
  sr_level :: string
  sr_properties :: "(string \<times> string) list"

record sarif_region =
  rg_start_line :: int
  rg_start_column :: int
  rg_end_line :: int
  rg_end_column :: int

record sarif_result =
  re_rule_id :: string
  re_rule_index :: nat
  re_level :: string
  re_message :: string
  re_uri :: string
  re_region :: sarif_region

record sarif_log =
  sl_version :: string
  sl_schema :: string
  sl_tool :: string
  sl_tool_version :: string
  sl_information_uri :: string
  sl_rules :: "sarif_rule list"
  sl_results :: "sarif_result list"
  sl_properties :: evidence_metadata

definition sarif_level :: "level \<Rightarrow> string" where
  "sarif_level l = (if l \<ge> LevelAggressive then ''note'' else ''warning'')"

definition sarif_rule_of :: "check \<Rightarrow> sarif_rule" where
  "sarif_rule_of c =
     \<lparr>sr_id = chk_id c, sr_short_description = doc_title (chk_doc c),
      sr_help_uri = ''https://github.com/jxsl13/perfscan/blob/main/docs/checks/'' @ chk_id c @ ''.md'',
      sr_level = sarif_level (chk_level c),
      sr_properties = [(''category'', chk_category c), (''fixLevel'', level_string (chk_level c))]\<rparr>"

definition sarif_result_of :: "string option \<Rightarrow> nat \<Rightarrow> finding \<Rightarrow> sarif_result" where
  "sarif_result_of wd i f =
     \<lparr>re_rule_id = chk_id (fnd_check f), re_rule_index = i, re_level = sarif_level (chk_level (fnd_check f)),
      re_message = fnd_message f, re_uri = rel_path wd (pos_filename (fnd_pos f)),
      re_region = \<lparr>rg_start_line = pos_line (fnd_pos f), rg_start_column = pos_column (fnd_pos f),
                   rg_end_line = pos_line (fnd_end f), rg_end_column = pos_column (fnd_end f)\<rparr>\<rparr>"

text \<open>The loop over the findings, with the map from IDs to indices and the two lists.\<close>

fun sarif_loop ::
    "string option \<Rightarrow> finding list \<Rightarrow> (string \<rightharpoonup> nat) \<Rightarrow> sarif_rule list \<Rightarrow> sarif_result list \<Rightarrow>
     sarif_rule list \<times> sarif_result list" where
  "sarif_loop wd [] idx rules results = (rules, results)"
| "sarif_loop wd (f # fs) idx rules results =
     (case idx (chk_id (fnd_check f)) of
        Some i \<Rightarrow> sarif_loop wd fs idx rules (results @ [sarif_result_of wd i f])
      | None \<Rightarrow>
          sarif_loop wd fs (idx(chk_id (fnd_check f) \<mapsto> length rules))
            (rules @ [sarif_rule_of (fnd_check f)])
            (results @ [sarif_result_of wd (length rules) f]))"

definition emit_sarif ::
    "string \<Rightarrow> string option \<Rightarrow> finding list \<Rightarrow> evidence_metadata \<Rightarrow> sarif_log" where
  "emit_sarif version wd fs metadata =
     (let (rules, results) = sarif_loop wd fs (\<lambda>_. None) [] [] in
      \<lparr>sl_version = ''2.1.0'',
       sl_schema = ''https://raw.githubusercontent.com/oasis-tcs/sarif-spec/master/Schemata/sarif-schema-2.1.0.json'',
       sl_tool = ''perfscan'', sl_tool_version = version,
       sl_information_uri = ''https://github.com/jxsl13/perfscan'',
       sl_rules = rules, sl_results = results, sl_properties = metadata\<rparr>)"

section \<open>Rules and results agree\<close>

text \<open>
  The invariant of the loop: the map gives, for every ID seen, the index of the rule with
  that ID; the rules are distinct and cover exactly the IDs seen; and the results are the
  findings in order, each with the index of its own rule.
\<close>

definition sarif_inv ::
    "string option \<Rightarrow> finding list \<Rightarrow> (string \<rightharpoonup> nat) \<Rightarrow> sarif_rule list \<Rightarrow> sarif_result list \<Rightarrow> bool" where
  "sarif_inv wd seen idx rules results =
     ((\<forall>i k. idx i = Some k \<longleftrightarrow> k < length rules \<and> sr_id (rules ! k) = i) \<and>
      distinct (map sr_id rules) \<and> set (map sr_id rules) = (\<lambda>f. chk_id (fnd_check f)) ` set seen \<and>
      set rules \<subseteq> (\<lambda>f. sarif_rule_of (fnd_check f)) ` set seen \<and>
      results = map (\<lambda>f. sarif_result_of wd (the (idx (chk_id (fnd_check f)))) f) seen)"

lemma sarif_inv_step:
  assumes inv: "sarif_inv wd seen idx rules results" and new: "idx (chk_id (fnd_check f)) = None"
  shows "sarif_inv wd (seen @ [f]) (idx(chk_id (fnd_check f) \<mapsto> length rules))
    (rules @ [sarif_rule_of (fnd_check f)]) (results @ [sarif_result_of wd (length rules) f])"
proof -
  let ?i = "chk_id (fnd_check f)"
  have idx: "idx j = Some k \<longleftrightarrow> k < length rules \<and> sr_id (rules ! k) = j" for j k
    using inv by (simp add: sarif_inv_def)
  have notin: "?i \<notin> set (map sr_id rules)"
  proof
    assume "?i \<in> set (map sr_id rules)"
    then obtain k where "k < length rules" "sr_id (rules ! k) = ?i"
      unfolding in_set_conv_nth by auto
    with idx new show False by (metis option.distinct(1))
  qed
  then have not_nth: "k < length rules \<Longrightarrow> sr_id (rules ! k) \<noteq> ?i" for k by (metis length_map nth_map nth_mem)
  have id: "sr_id (sarif_rule_of (fnd_check f)) = ?i" by (simp add: sarif_rule_of_def)
  have seen: "chk_id (fnd_check g) \<noteq> ?i" if "g \<in> set seen" for g
  proof -
    have "chk_id (fnd_check g) \<in> set (map sr_id rules)" using inv that by (simp add: sarif_inv_def)
    with notin show ?thesis by metis
  qed
  have "(idx(?i \<mapsto> length rules)) j = Some k \<longleftrightarrow>
      k < length (rules @ [sarif_rule_of (fnd_check f)]) \<and>
      sr_id ((rules @ [sarif_rule_of (fnd_check f)]) ! k) = j" for j k
    using not_nth [of k] id idx [of j k] by (cases "k < length rules") (auto simp: nth_append less_Suc_eq)
  moreover have "map (\<lambda>g. sarif_result_of wd (the ((idx(?i \<mapsto> length rules)) (chk_id (fnd_check g)))) g) seen =
      results"
    using inv seen by (auto simp: sarif_inv_def)
  ultimately show ?thesis
    using inv notin id by (auto simp: sarif_inv_def)
qed

lemma sarif_loop_inv:
  "sarif_inv wd seen idx rules results \<Longrightarrow> sarif_loop wd fs idx rules results = (rules', results') \<Longrightarrow>
     \<exists>idx'. sarif_inv wd (seen @ fs) idx' rules' results'"
proof (induction fs arbitrary: seen idx rules results)
  case Nil
  then show ?case by auto
next
  case (Cons f fs)
  show ?case
  proof (cases "idx (chk_id (fnd_check f))")
    case None
    have "sarif_loop wd fs (idx(chk_id (fnd_check f) \<mapsto> length rules))
        (rules @ [sarif_rule_of (fnd_check f)]) (results @ [sarif_result_of wd (length rules) f]) =
        (rules', results')"
      using Cons.prems(2) None by (simp del: fun_upd_apply)
    from Cons.IH [OF sarif_inv_step [OF Cons.prems(1) None] this] show ?thesis by simp
  next
    case (Some i)
    note inv = Cons.prems(1) [unfolded sarif_inv_def]
    have the: "the (idx (chk_id (fnd_check f))) = i" using Some by simp
    from inv Some have "i < length rules" "sr_id (rules ! i) = chk_id (fnd_check f)" by blast+
    then have "chk_id (fnd_check f) \<in> set (map sr_id rules)" by (metis length_map nth_map nth_mem)
    with inv have "chk_id (fnd_check f) \<in> (\<lambda>f. chk_id (fnd_check f)) ` set seen" by metis
    then have "(\<lambda>f. chk_id (fnd_check f)) ` set (seen @ [f]) = (\<lambda>f. chk_id (fnd_check f)) ` set seen"
      by auto
    then have "sarif_inv wd (seen @ [f]) idx rules (results @ [sarif_result_of wd i f])"
      unfolding sarif_inv_def using inv the by (intro conjI) (simp_all, blast)
    from Cons.IH [OF this] Cons.prems(2) Some show ?thesis by simp
  qed
qed

text \<open>
  The SARIF log is well formed. The rules are distinct and are those of the
  findings; there is one result per finding, in order; every rule index is in range and
  points to the rule with the result's own ID; and no rule is unused.
\<close>

theorem sarif_rules_resolve:
  "let log = emit_sarif version wd fs metadata; rules = sl_rules log; results = sl_results log in
     distinct (map sr_id rules) \<and> set (map sr_id rules) = (\<lambda>f. chk_id (fnd_check f)) ` set fs \<and>
     length results = length fs \<and>
     list_all2 (\<lambda>r f. re_rule_id r = chk_id (fnd_check f) \<and> re_rule_index r < length rules \<and>
       sr_id (rules ! re_rule_index r) = re_rule_id r \<and> re_message r = fnd_message f) results fs"
proof -
  obtain rules results where l: "sarif_loop wd fs (\<lambda>_. None) [] [] = (rules, results)" by fastforce
  have "sarif_inv wd [] (\<lambda>_. None) [] []" by (simp add: sarif_inv_def)
  from sarif_loop_inv [OF this l] obtain idx where inv: "sarif_inv wd fs idx rules results" by auto
  have f: "the (idx (chk_id (fnd_check f))) < length rules \<and>
      sr_id (rules ! the (idx (chk_id (fnd_check f)))) = chk_id (fnd_check f)" if "f \<in> set fs" for f
  proof -
    have "chk_id (fnd_check f) \<in> set (map sr_id rules)" using inv that by (simp add: sarif_inv_def)
    then obtain k where "k < length rules" "sr_id (rules ! k) = chk_id (fnd_check f)"
      by (auto simp: in_set_conv_nth)
    moreover from this have "idx (chk_id (fnd_check f)) = Some k" using inv by (simp add: sarif_inv_def)
    ultimately show ?thesis by simp
  qed
  from inv f show ?thesis
    by (auto simp: emit_sarif_def l Let_def sarif_inv_def list_all2_conv_all_nth sarif_result_of_def)
qed

end
