(* ===== verification/Imports.thy ===== *)
theory Imports
  imports Edits
begin

text \<open>
  The import passes of \<open>internal/runner/runner.go\<close> that run after the splice:
  \<open>dedupeImports\<close>, \<open>addReferencedStdlibImports\<close> and \<open>pruneOrphanedImports\<close>. A file is
  the part of \<open>ast.File\<close> the passes look at. Parsing, formatting, \<open>strconv.Unquote\<close> and
  the operations of \<open>golang.org/x/tools/go/ast/astutil\<close> are the fields of an environment.
\<close>

section \<open>Syntax trees\<close>

record import_spec =
  im_name :: "string option"
  im_lit :: string

text \<open>The nodes \<open>missingFixableImports\<close> distinguishes; every other node is \<open>Other_Node\<close>.\<close>

datatype go_node =
    Ident string
  | SelectorExpr go_node string
  | FuncDecl string "go_node list"
  | Field "string list" "go_node list"
  | ValueSpec "string list" "go_node list"
  | TypeSpec string "go_node list"
  | AssignStmt bool "go_node list" "go_node list"
  | RangeStmt "go_node option" "go_node option" "go_node list"
  | LabeledStmt string "go_node list"
  | Other_Node "go_node list"

datatype go_decl =
    Import_Decl (id_doc: bool) (id_specs: "import_spec list") (id_pos: int) (id_end: int)
  | Other_Decl go_node

record go_file =
  gf_imports :: "import_spec list"
  gf_decls :: "go_decl list"
  gf_comments :: "(int \<times> int) list"
  gf_root :: go_node

record imports_env =
  ie_parse :: "string \<Rightarrow> go_file option"
  ie_format :: "go_file \<Rightarrow> string option"
  ie_format_source :: "string \<Rightarrow> string option"
  ie_unquote :: "string \<Rightarrow> string option"
  ie_delete :: "go_file \<Rightarrow> string \<Rightarrow> string \<Rightarrow> go_file \<times> bool"
  ie_add :: "go_file \<Rightarrow> string \<Rightarrow> string \<Rightarrow> go_file"
  ie_uses :: "go_file \<Rightarrow> string \<Rightarrow> bool"

definition line_directive :: "string \<Rightarrow> bool" where
  "line_directive src = (str_contains src ''//line '' \<or> str_contains src ''/*line '')"

definition c_literal :: string where "c_literal = [CHR 0x22, CHR ''C'', CHR 0x22]"

definition uses_cgo :: "go_file \<Rightarrow> bool" where
  "uses_cgo f = list_ex (\<lambda>s. im_lit s = c_literal) (gf_imports f)"

section \<open>Duplicate imports\<close>

definition blank_or_dot :: "import_spec \<Rightarrow> bool" where
  "blank_or_dot s = (im_name s = Some ''_'' \<or> im_name s = Some ''.'')"

definition local_name :: "import_spec \<Rightarrow> string" where
  "local_name s = (case im_name s of None \<Rightarrow> [] | Some n \<Rightarrow> n)"

text \<open>
  The loop that counts the pairs of name and path; none when a path cannot be unquoted. A
  pair is recorded when its count reaches two.
\<close>

fun find_dups ::
    "(string \<Rightarrow> string option) \<Rightarrow> import_spec list \<Rightarrow> (string \<times> string \<Rightarrow> nat) \<Rightarrow>
     (string \<times> string) list \<Rightarrow> (string \<times> string) list option" where
  "find_dups unq [] cnt dups = Some dups"
| "find_dups unq (s # ss) cnt dups =
     (if blank_or_dot s then find_dups unq ss cnt dups
      else case unq (im_lit s) of
             None \<Rightarrow> None
           | Some path \<Rightarrow>
               let k = (local_name s, path); n = Suc (cnt k) in
               find_dups unq ss (cnt(k := n)) (if n = 2 then dups @ [k] else dups))"

text \<open>
  \<open>for astutil.DeleteNamedImport(...) {}\<close>: with as much fuel as there are imports, plus one
  for the call that answers false.
\<close>

fun delete_all :: "nat \<Rightarrow> imports_env \<Rightarrow> go_file \<Rightarrow> string \<Rightarrow> string \<Rightarrow> go_file" where
  "delete_all 0 env f n p = f"
| "delete_all (Suc k) env f n p =
     (let (f', deleted) = ie_delete env f n p in
      if deleted then delete_all k env f' n p else f')"

definition collapse_import :: "imports_env \<Rightarrow> string \<times> string \<Rightarrow> go_file \<Rightarrow> go_file" where
  "collapse_import env k f =
     ie_add env (delete_all (Suc (length (gf_imports f))) env f (fst k) (snd k)) (fst k) (snd k)"

definition dedupe_file :: "imports_env \<Rightarrow> go_file \<Rightarrow> go_file option" where
  "dedupe_file env f =
     (if uses_cgo f then None
      else case find_dups (ie_unquote env) (gf_imports f) (\<lambda>_. 0) [] of
             None \<Rightarrow> None
           | Some dups \<Rightarrow> if dups = [] then None else Some (fold (collapse_import env) dups f))"

text \<open>A pass rewrites the source or, on any obstacle, returns it unchanged.\<close>

definition rewrite_source ::
    "imports_env \<Rightarrow> (go_file \<Rightarrow> go_file option) \<Rightarrow> string \<Rightarrow> string" where
  "rewrite_source env pass src =
     (if line_directive src then src
      else case ie_parse env src of
             None \<Rightarrow> src
           | Some f \<Rightarrow>
               (case pass f of
                  None \<Rightarrow> src
                | Some f' \<Rightarrow> (case ie_format env f' of None \<Rightarrow> src | Some out \<Rightarrow> out)))"

definition dedupe_imports :: "imports_env \<Rightarrow> string \<Rightarrow> string" where
  "dedupe_imports env src = rewrite_source env (dedupe_file env) src"

section \<open>Missing imports\<close>

definition fixable_stdlib_imports :: "(string \<times> string) list" where
  "fixable_stdlib_imports =
     [(''slices'', ''slices''), (''cmp'', ''cmp''), (''io'', ''io''), (''strconv'', ''strconv''),
      (''bytes'', ''bytes''), (''fmt'', ''fmt''), (''sort'', ''sort''), (''strings'', ''strings''),
      (''errors'', ''errors''), (''runtime'', ''runtime''), (''utf8'', ''unicode/utf8''),
      (''hex'', ''encoding/hex'')]"

definition last_segment :: "string \<Rightarrow> string" where
  "last_segment path =
     (case last_index (CHR ''/'') path of None \<Rightarrow> path | Some i \<Rightarrow> drop (Suc i) path)"

definition imported_names :: "(string \<Rightarrow> string option) \<Rightarrow> import_spec list \<Rightarrow> string set" where
  "imported_names unq specs =
     set (List.map_filter (\<lambda>s.
       case unq (im_lit s) of
         None \<Rightarrow> None
       | Some path \<Rightarrow>
           (case im_name s of
              None \<Rightarrow> Some (last_segment path)
            | Some n \<Rightarrow> if n = ''_'' \<or> n = ''.'' then None else Some n)) specs)"

text \<open>\<open>ast.Inspect\<close> with a visitor that never prunes: the nodes in pre-order.\<close>

fun inspect :: "go_node \<Rightarrow> go_node list" where
  "inspect (Ident n) = [Ident n]"
| "inspect (SelectorExpr x s) = SelectorExpr x s # inspect x @ [Ident s]"
| "inspect (FuncDecl n cs) = FuncDecl n cs # concat (map inspect cs)"
| "inspect (Field ns cs) = Field ns cs # concat (map inspect cs)"
| "inspect (ValueSpec ns cs) = ValueSpec ns cs # concat (map inspect cs)"
| "inspect (TypeSpec n cs) = TypeSpec n cs # concat (map inspect cs)"
| "inspect (AssignStmt d ls rs) = AssignStmt d ls rs # concat (map inspect (ls @ rs))"
| "inspect (RangeStmt k v cs) =
     RangeStmt k v cs # (case k of None \<Rightarrow> [] | Some x \<Rightarrow> inspect x) @
     (case v of None \<Rightarrow> [] | Some x \<Rightarrow> inspect x) @ concat (map inspect cs)"
| "inspect (LabeledStmt l cs) = LabeledStmt l cs # concat (map inspect cs)"
| "inspect (Other_Node cs) = Other_Node cs # concat (map inspect cs)"

definition ident_names :: "go_node list \<Rightarrow> string list" where
  "ident_names ns = List.map_filter (\<lambda>n. case n of Ident i \<Rightarrow> Some i | _ \<Rightarrow> None) ns"

definition option_list :: "'a option \<Rightarrow> 'a list" where
  "option_list x = (case x of None \<Rightarrow> [] | Some y \<Rightarrow> [y])"

fun node_declares :: "go_node \<Rightarrow> string list" where
  "node_declares (FuncDecl n _) = [n]"
| "node_declares (Field ns _) = ns"
| "node_declares (ValueSpec ns _) = ns"
| "node_declares (TypeSpec n _) = [n]"
| "node_declares (AssignStmt d ls _) = (if d then ident_names ls else [])"
| "node_declares (RangeStmt k v _) = ident_names (option_list k @ option_list v)"
| "node_declares (LabeledStmt l _) = [l]"
| "node_declares _ = []"

definition declared_names :: "go_node \<Rightarrow> string set" where
  "declared_names root = set (filter (\<lambda>n. n \<noteq> ''_'') (concat (map node_declares (inspect root))))"

fun qualifier :: "go_node \<Rightarrow> string option" where
  "qualifier (SelectorExpr (Ident n) _) = Some n"
| "qualifier _ = None"

definition qualifiers :: "go_node \<Rightarrow> string list" where
  "qualifiers root = List.map_filter qualifier (inspect root)"

text \<open>The second traversal, over the qualifiers in first-use order.\<close>

fun collect_missing :: "string set \<Rightarrow> string set \<Rightarrow> string list \<Rightarrow> string list" where
  "collect_missing skip seen [] = []"
| "collect_missing skip seen (q # qs) =
     (case map_of fixable_stdlib_imports q of
        None \<Rightarrow> collect_missing skip seen qs
      | Some path \<Rightarrow>
          if q \<in> skip \<or> q \<in> seen then collect_missing skip seen qs
          else path # collect_missing skip (insert q seen) qs)"

definition missing_fixable_imports :: "(string \<Rightarrow> string option) \<Rightarrow> go_file \<Rightarrow> string list" where
  "missing_fixable_imports unq f =
     collect_missing (imported_names unq (gf_imports f) \<union> declared_names (gf_root f)) {}
       (qualifiers (gf_root f))"

definition add_missing_file :: "imports_env \<Rightarrow> string \<Rightarrow> go_file \<Rightarrow> go_file option" where
  "add_missing_file env orig f =
     (let missing = missing_fixable_imports (ie_unquote env) f in
      if missing = [] \<or> uses_cgo f then None
      else
        let left = (case ie_parse env orig of
                      None \<Rightarrow> missing
                    | Some g \<Rightarrow>
                        let preexisting = missing_fixable_imports (ie_unquote env) g in
                        filter (\<lambda>p. p \<notin> set preexisting) missing)
        in if left = [] then None else Some (fold (\<lambda>p g. ie_add env g [] p) left f))"

definition add_referenced_stdlib_imports :: "imports_env \<Rightarrow> string \<Rightarrow> string \<Rightarrow> string" where
  "add_referenced_stdlib_imports env src orig = rewrite_source env (add_missing_file env orig) src"

section \<open>Orphaned imports\<close>

definition is_version_segment :: "string \<Rightarrow> bool" where
  "is_version_segment s =
     (2 \<le> length s \<and> hd s = CHR ''v'' \<and> (\<forall>c\<in>set (tl s). 48 \<le> byte_at c \<and> byte_at c \<le> 57))"

text \<open>The guards of the loop: whether one import is an orphan, and which.\<close>

definition orphan_of :: "imports_env \<Rightarrow> go_file \<Rightarrow> import_spec \<Rightarrow> (string \<times> string) option" where
  "orphan_of env f s =
     (if blank_or_dot s then None
      else case ie_unquote env (im_lit s) of
             None \<Rightarrow> None
           | Some path \<Rightarrow>
               if is_version_segment (last_segment path) then None
               else if CHR ''.'' \<in> set path then None
               else if ie_uses env f path then None
               else Some (local_name s, path))"

definition orphans :: "imports_env \<Rightarrow> go_file \<Rightarrow> (string \<times> string) list" where
  "orphans env f = List.map_filter (orphan_of env f) (gf_imports f)"

definition import_decl_has_comment :: "go_file \<Rightarrow> go_decl \<Rightarrow> bool" where
  "import_decl_has_comment f d =
     (id_doc d \<or> list_ex (\<lambda>(p, e). p \<ge> id_pos d \<and> e \<le> id_end d) (gf_comments f))"

fun droppable_decl :: "go_file \<Rightarrow> go_decl \<Rightarrow> bool" where
  "droppable_decl f (Import_Decl doc specs p e) =
     (specs = [] \<and> \<not> import_decl_has_comment f (Import_Decl doc specs p e))"
| "droppable_decl f (Other_Decl _) = False"

definition drop_empty_import_decls :: "go_file \<Rightarrow> go_file \<times> bool" where
  "drop_empty_import_decls f =
     (f\<lparr>gf_decls := filter (\<lambda>d. \<not> droppable_decl f d) (gf_decls f)\<rparr>,
      list_ex (droppable_decl f) (gf_decls f))"

definition prune_file :: "imports_env \<Rightarrow> go_file \<Rightarrow> go_file option" where
  "prune_file env f =
     (if uses_cgo f then None
      else
        let os = orphans env f;
            f1 = fold (\<lambda>(n, p) g. fst (ie_delete env g n p)) os f;
            (f2, dropped) = drop_empty_import_decls f1
        in if os = [] \<and> \<not> dropped then None else Some f2)"

definition prune_orphaned_imports :: "imports_env \<Rightarrow> string \<Rightarrow> string" where
  "prune_orphaned_imports env src = rewrite_source env (prune_file env) src"

section \<open>The passes after the splice\<close>

definition post_passes :: "imports_env \<Rightarrow> string \<Rightarrow> string \<Rightarrow> string" where
  "post_passes env out orig =
     (let s1 = dedupe_imports env out;
          s2 = add_referenced_stdlib_imports env s1 orig;
          s3 = prune_orphaned_imports env s2
      in case ie_format_source env s3 of Some formatted \<Rightarrow> formatted | None \<Rightarrow> s3)"

end
