(* ===== verification/Imports_Props.thy ===== *)
theory Imports_Props
  imports Imports
begin

text \<open>
  Correctness of the import passes under the documented behaviour of
  \<open>astutil.DeleteNamedImport\<close> and \<open>astutil.AddNamedImport\<close>.
\<close>

section \<open>The documented behaviour of astutil\<close>

definition matches :: "imports_env \<Rightarrow> string \<times> string \<Rightarrow> import_spec \<Rightarrow> bool" where
  "matches env k s = (local_name s = fst k \<and> ie_unquote env (im_lit s) = Some (snd k))"

text \<open>
  Deleting removes every import with the name and the path, touches no other, and reports
  whether there was one. Adding an absent import adds one specification for it.
\<close>

definition delete_law :: "imports_env \<Rightarrow> bool" where
  "delete_law env =
     (\<forall>f n p. gf_imports (fst (ie_delete env f n p)) = filter (\<lambda>s. \<not> matches env (n, p) s) (gf_imports f) \<and>
        snd (ie_delete env f n p) = list_ex (matches env (n, p)) (gf_imports f))"

definition add_law :: "imports_env \<Rightarrow> bool" where
  "add_law env =
     (\<forall>f n p. \<not> list_ex (matches env (n, p)) (gf_imports f) \<longrightarrow>
        (\<exists>s. matches env (n, p) s \<and>
           mset (gf_imports (ie_add env f n p)) = add_mset s (mset (gf_imports f))))"

section \<open>Pruning\<close>

lemma blank_or_dot_name: "blank_or_dot s \<longleftrightarrow> local_name s \<in> {''_'', ''.''}"
  by (cases "im_name s") (auto simp: blank_or_dot_def local_name_def)

lemma orphan_of_Some:
  "orphan_of env f s = Some k \<longleftrightarrow>
     matches env k s \<and> fst k \<notin> {''_'', ''.''} \<and> \<not> is_version_segment (last_segment (snd k)) \<and>
     CHR ''.'' \<notin> set (snd k) \<and> \<not> ie_uses env f (snd k)"
  by (cases k) (auto simp: orphan_of_def blank_or_dot_name matches_def split: option.split)

lemma matches_orphan:
  "orphan_of env f s = Some k \<Longrightarrow> matches env k t \<Longrightarrow> orphan_of env f t = Some k"
  by (auto simp: orphan_of_Some)

lemma in_map_filter: "y \<in> set (List.map_filter h xs) \<longleftrightarrow> (\<exists>x\<in>set xs. h x = Some y)"
  by (induction xs) (auto simp: List.map_filter_simps split: option.split)

lemma fold_delete:
  assumes "delete_law env"
  shows "gf_imports (fold (\<lambda>(n, p) g. fst (ie_delete env g n p)) ks f) =
    filter (\<lambda>s. \<forall>k\<in>set ks. \<not> matches env k s) (gf_imports f)"
proof (induction ks arbitrary: f)
  case (Cons k ks)
  obtain n p where k: "k = (n, p)" by fastforce
  have "gf_imports (fst (ie_delete env f n p)) = filter (\<lambda>s. \<not> matches env (n, p) s) (gf_imports f)"
    using assms by (simp add: delete_law_def)
  with Cons k show ?case by (simp add: conj_commute)
qed simp

lemma drop_empty_imports [simp]: "gf_imports (fst (drop_empty_import_decls f)) = gf_imports f"
  by (simp add: drop_empty_import_decls_def)

text \<open>
  Pruning removes exactly the orphans. After the pass the imports are those of
  the file, in order, without the ones that are unused, from the standard library (no dot
  in the path), unversioned and neither blank nor dot imports; a file that uses cgo is
  left alone.
\<close>

theorem prune_exact:
  assumes "delete_law env" and "prune_file env f = Some f'"
  shows "\<not> uses_cgo f \<and>
    gf_imports f' = filter (\<lambda>s. orphan_of env f s = None) (gf_imports f)"
proof -
  let ?g = "fold (\<lambda>(n, p) g. fst (ie_delete env g n p)) (orphans env f) f"
  from assms(2) have c: "\<not> uses_cgo f" and f': "f' = fst (drop_empty_import_decls ?g)"
    by (auto simp: prune_file_def Let_def split: if_splits prod.splits)
  have "(\<forall>k\<in>set (orphans env f). \<not> matches env k s) \<longleftrightarrow> orphan_of env f s = None"
    if "s \<in> set (gf_imports f)" for s
  proof
    assume n: "\<forall>k\<in>set (orphans env f). \<not> matches env k s"
    show "orphan_of env f s = None"
    proof (cases "orphan_of env f s")
      case (Some k)
      then have "k \<in> set (orphans env f)" using that by (auto simp: orphans_def in_map_filter)
      moreover have "matches env k s" using Some by (simp add: orphan_of_Some)
      ultimately show ?thesis using n by blast
    qed
  next
    assume none: "orphan_of env f s = None"
    show "\<forall>k\<in>set (orphans env f). \<not> matches env k s"
    proof
      fix k
      assume "k \<in> set (orphans env f)"
      then obtain t where "orphan_of env f t = Some k" by (auto simp: orphans_def in_map_filter)
      with none show "\<not> matches env k s" by (metis matches_orphan option.distinct(1))
    qed
  qed
  then have "gf_imports f' = filter (\<lambda>s. orphan_of env f s = None) (gf_imports f)"
    unfolding f' drop_empty_imports fold_delete [OF assms(1)] by (rule filter_cong [OF refl])
  with c show ?thesis by blast
qed

section \<open>Duplicates\<close>

text \<open>The keys of the imports that are neither blank nor dot imports.\<close>

definition key_of :: "imports_env \<Rightarrow> import_spec \<Rightarrow> (string \<times> string) option" where
  "key_of env s =
     (if blank_or_dot s then None else map_option (\<lambda>p. (local_name s, p)) (ie_unquote env (im_lit s)))"

definition named_keys :: "imports_env \<Rightarrow> go_file \<Rightarrow> (string \<times> string) list" where
  "named_keys env f = List.map_filter (key_of env) (gf_imports f)"

definition key_count :: "imports_env \<Rightarrow> string \<times> string \<Rightarrow> import_spec multiset \<Rightarrow> nat" where
  "key_count env k M = size (filter_mset (\<lambda>s. key_of env s = Some k) M)"

lemma key_of_Some: "key_of env s = Some k \<longleftrightarrow> matches env k s \<and> fst k \<notin> {''_'', ''.''}"
  by (cases k) (auto simp: key_of_def matches_def blank_or_dot_name)

lemma key_count_mset: "key_count env k (mset ss) = count_list (List.map_filter (key_of env) ss) k"
  by (induction ss) (auto simp: key_count_def List.map_filter_simps split: option.split)

lemma find_dups_spec:
  "find_dups (ie_unquote env) ss cnt dups = Some dups' \<Longrightarrow>
     (\<forall>k. k \<in> set dups \<longleftrightarrow> 2 \<le> cnt k) \<Longrightarrow> distinct dups \<Longrightarrow>
     distinct dups' \<and>
     (\<forall>k. k \<in> set dups' \<longleftrightarrow> 2 \<le> cnt k + count_list (List.map_filter (key_of env) ss) k)"
proof (induction ss arbitrary: cnt dups)
  case Nil
  then show ?case by (simp add: List.map_filter_simps)
next
  case (Cons s ss)
  show ?case
  proof (cases "blank_or_dot s")
    case True
    then show ?thesis using Cons by (simp add: List.map_filter_simps key_of_def)
  next
    case False
    with Cons.prems(1) obtain p where p: "ie_unquote env (im_lit s) = Some p"
      by (auto split: option.splits)
    let ?k = "(local_name s, p)"
    let ?n = "Suc (cnt ?k)"
    let ?dups = "if ?n = 2 then dups @ [?k] else dups"
    have key: "key_of env s = Some ?k" using False p by (simp add: key_of_def)
    have f: "find_dups (ie_unquote env) ss (cnt(?k := ?n)) ?dups = Some dups'"
      using Cons.prems(1) False p by (simp add: Let_def)
    have "\<forall>k. k \<in> set ?dups \<longleftrightarrow> 2 \<le> (cnt(?k := ?n)) k"
      using Cons.prems(2) by auto
    moreover have "distinct ?dups" using Cons.prems(2,3) by auto
    ultimately show ?thesis
      using Cons.IH [OF f] key by (auto simp: List.map_filter_simps)
  qed
qed

lemma delete_all_spec:
  assumes "delete_law env"
  shows "gf_imports (delete_all (Suc (length (gf_imports f))) env f n p) =
    filter (\<lambda>s. \<not> matches env (n, p) s) (gf_imports f)"
proof -
  let ?P = "\<lambda>s. \<not> matches env (n, p) s"
  have d: "gf_imports (fst (ie_delete env g n p)) = filter ?P (gf_imports g)"
    "snd (ie_delete env g n p) = list_ex (matches env (n, p)) (gf_imports g)" for g
    using assms by (simp_all add: delete_law_def)
  show ?thesis
  proof (cases "list_ex (matches env (n, p)) (gf_imports f)")
    case False
    then show ?thesis using d [of f] by (auto simp: Let_def split: prod.split)
  next
    case True
    then obtain m where m: "length (gf_imports f) = Suc m" by (cases "gf_imports f") auto
    obtain g where g: "ie_delete env f n p = (g, True)"
      using d(2) [of f] True by (metis prod.collapse)
    have "gf_imports g = filter ?P (gf_imports f)" using d(1) [of f] g by simp
    then have "\<not> list_ex (matches env (n, p)) (gf_imports g)" by (auto simp: list_ex_iff)
    then obtain h where h: "ie_delete env g n p = (h, False)"
      using d(2) [of g] by (metis prod.collapse)
    have "delete_all (Suc (length (gf_imports f))) env f n p = h"
      by (simp add: m g h)
    moreover have "gf_imports h = filter ?P (gf_imports f)"
      using d(1) [of g] h \<open>gf_imports g = filter ?P (gf_imports f)\<close> by simp
    ultimately show ?thesis by simp
  qed
qed

lemma collapse_import_spec:
  assumes "delete_law env" and "add_law env"
  obtains s where "matches env k s" and
    "mset (gf_imports (collapse_import env k f)) =
      add_mset s (filter_mset (\<lambda>s. \<not> matches env k s) (mset (gf_imports f)))"
proof -
  obtain n p where k: "k = (n, p)" by fastforce
  let ?g = "delete_all (Suc (length (gf_imports f))) env f n p"
  have g: "gf_imports ?g = filter (\<lambda>s. \<not> matches env (n, p) s) (gf_imports f)"
    by (rule delete_all_spec [OF assms(1)])
  then have "\<not> list_ex (matches env (n, p)) (gf_imports ?g)" by (auto simp: list_ex_iff)
  then obtain s where "matches env (n, p) s"
    "mset (gf_imports (ie_add env ?g n p)) = add_mset s (mset (gf_imports ?g))"
    using assms(2) unfolding add_law_def by blast
  then show ?thesis using that [of s] g k by (simp add: collapse_import_def del: delete_all.simps)
qed

lemma collapse_import_count:
  assumes "delete_law env" and "add_law env" and "fst k \<notin> {''_'', ''.''}"
  shows "key_count env j (mset (gf_imports (collapse_import env k f))) =
      (if j = k then 1 else key_count env j (mset (gf_imports f)))"
    and "filter_mset blank_or_dot (mset (gf_imports (collapse_import env k f))) =
      filter_mset blank_or_dot (mset (gf_imports f))"
proof -
  obtain s where s: "matches env k s" and m: "mset (gf_imports (collapse_import env k f)) =
      add_mset s (filter_mset (\<lambda>s. \<not> matches env k s) (mset (gf_imports f)))"
    using collapse_import_spec assms(1,2) by blast
  have key: "key_of env t = Some j \<Longrightarrow> matches env k t \<longleftrightarrow> j = k" for t
    by (cases k) (auto simp: key_of_Some matches_def)
  have ks: "key_of env s = Some k" using s assms(3) by (simp add: key_of_Some)
  have "filter_mset (\<lambda>t. key_of env t = Some j) (add_mset s (filter_mset (\<lambda>s. \<not> matches env k s) M)) =
      (if j = k then {#s#} else filter_mset (\<lambda>t. key_of env t = Some j) M)" for M
    using key ks by (induction M) auto
  then show "key_count env j (mset (gf_imports (collapse_import env k f))) =
      (if j = k then 1 else key_count env j (mset (gf_imports f)))"
    unfolding key_count_def m by simp
  have nb: "\<not> blank_or_dot t" if "matches env k t" for t
    using that assms(3) by (auto simp: blank_or_dot_name matches_def)
  have "filter_mset blank_or_dot (filter_mset (\<lambda>s. \<not> matches env k s) M) = filter_mset blank_or_dot M" for M
    using nb by (induction M) auto
  then show "filter_mset blank_or_dot (mset (gf_imports (collapse_import env k f))) =
      filter_mset blank_or_dot (mset (gf_imports f))"
    using nb [OF s] by (simp add: m)
qed

lemma collapse_all:
  assumes "delete_law env" and "add_law env"
  shows "\<forall>k\<in>set ks. fst k \<notin> {''_'', ''.''} \<Longrightarrow>
    (\<forall>j. key_count env j (mset (gf_imports (fold (collapse_import env) ks f))) =
       (if j \<in> set ks then 1 else key_count env j (mset (gf_imports f)))) \<and>
    filter_mset blank_or_dot (mset (gf_imports (fold (collapse_import env) ks f))) =
      filter_mset blank_or_dot (mset (gf_imports f))"
proof (induction ks arbitrary: f)
  case (Cons k ks)
  note c = collapse_import_count [OF assms, of k]
  show ?case using Cons c by auto
qed simp

lemma distinct_by_count:
  assumes "\<And>j. count_list xs j \<le> 1"
  shows "distinct xs"
proof -
  have "count (mset xs) j = (if j \<in> set xs then 1 else 0)" for j
    using assms [of j] count_list_0_iff [of xs j] by (auto simp: count_mset)
  then show ?thesis by (simp add: distinct_count_atmost_1)
qed

text \<open>
  De-duplication. When the pass rewrites a file, no pair of local name and path
  is imported twice any more, exactly the pairs that were imported still are, and the
  blank and dot imports, duplicates included, are untouched.
\<close>

theorem dedupe_distinct:
  assumes "delete_law env" and "add_law env" and "dedupe_file env f = Some f'"
  shows "distinct (named_keys env f') \<and> set (named_keys env f') = set (named_keys env f) \<and>
    mset (filter blank_or_dot (gf_imports f')) = mset (filter blank_or_dot (gf_imports f))"
proof -
  from assms(3) obtain dups where d: "find_dups (ie_unquote env) (gf_imports f) (\<lambda>_. 0) [] = Some dups"
    and f': "f' = fold (collapse_import env) dups f"
    by (auto simp: dedupe_file_def split: if_splits option.splits)
  have c: "k \<in> set dups \<longleftrightarrow> 2 \<le> count_list (named_keys env f) k" for k
    using find_dups_spec [OF d] by (simp add: named_keys_def del: split_paired_All)
  have names: "\<forall>k\<in>set dups. fst k \<notin> {''_'', ''.''}"
  proof
    fix k
    assume "k \<in> set dups"
    with c have "k \<in> set (named_keys env f)" by (metis count_list_0_iff not_numeral_le_zero)
    then show "fst k \<notin> {''_'', ''.''}" by (auto simp: named_keys_def in_map_filter key_of_Some)
  qed
  have k: "count_list (named_keys env f') j = (if j \<in> set dups then 1 else count_list (named_keys env f) j)" for j
    using collapse_all [OF assms(1,2) names, of f]
    unfolding f' named_keys_def key_count_mset [symmetric] by blast
  have le: "count_list (named_keys env f') j \<le> 1" for j
    using k [of j] c [of j] by (simp split: if_splits)
  then have "distinct (named_keys env f')"
    by (rule distinct_by_count)
  moreover have "set (named_keys env f') = set (named_keys env f)"
  proof -
    have "count_list (named_keys env f') j = 0 \<longleftrightarrow> count_list (named_keys env f) j = 0" for j
      using k [of j] c [of j] by auto
    then show ?thesis by (auto simp: count_list_0_iff)
  qed
  moreover have "mset (filter blank_or_dot (gf_imports f')) = mset (filter blank_or_dot (gf_imports f))"
    using collapse_all [OF assms(1,2) names, of f] by (simp add: f')
  ultimately show ?thesis by blast
qed

section \<open>Missing imports\<close>

lemma fixable_distinct: "distinct (map fst fixable_stdlib_imports)" "distinct (map snd fixable_stdlib_imports)"
  by (simp_all add: fixable_stdlib_imports_def)

lemma fixable_inj:
  assumes "map_of fixable_stdlib_imports q = Some p" and "map_of fixable_stdlib_imports r = Some p"
  shows "q = r"
proof -
  have "inj_on snd (set fixable_stdlib_imports)" using fixable_distinct(2) by (simp add: distinct_map)
  then have "(q, p) = (r, p)"
    using assms by (intro inj_onD [of snd "set fixable_stdlib_imports"]) (auto dest: map_of_SomeD)
  then show ?thesis by simp
qed

lemma collect_missing_spec:
  "distinct (collect_missing skip seen qs) \<and>
     set (collect_missing skip seen qs) =
       {p. \<exists>q. map_of fixable_stdlib_imports q = Some p \<and> q \<in> set qs \<and> q \<notin> skip \<and> q \<notin> seen}"
proof (induction qs arbitrary: seen)
  case (Cons q qs)
  show ?case
  proof (cases "map_of fixable_stdlib_imports q = None \<or> q \<in> skip \<or> q \<in> seen")
    case True
    then have "collect_missing skip seen (q # qs) = collect_missing skip seen qs"
      by (auto split: option.split)
    moreover have "(\<exists>r. map_of fixable_stdlib_imports r = Some p \<and> r \<in> set (q # qs) \<and> r \<notin> skip \<and> r \<notin> seen) \<longleftrightarrow>
        (\<exists>r. map_of fixable_stdlib_imports r = Some p \<and> r \<in> set qs \<and> r \<notin> skip \<and> r \<notin> seen)" for p
      using True by auto
    ultimately show ?thesis using Cons [of seen] by simp
  next
    case False
    then obtain p where p: "map_of fixable_stdlib_imports q = Some p" by auto
    with False have c: "collect_missing skip seen (q # qs) = p # collect_missing skip (insert q seen) qs"
      by simp
    have "p \<notin> set (collect_missing skip (insert q seen) qs)"
      using Cons [of "insert q seen"] fixable_inj [OF p] by auto
    moreover have "(\<exists>r. map_of fixable_stdlib_imports r = Some p' \<and> r \<in> set (q # qs) \<and> r \<notin> skip \<and> r \<notin> seen) \<longleftrightarrow>
        p' = p \<or> (\<exists>r. map_of fixable_stdlib_imports r = Some p' \<and> r \<in> set qs \<and> r \<notin> skip \<and> r \<notin> insert q seen)" for p'
      using False p by auto
    ultimately show ?thesis
      unfolding c using Cons [of "insert q seen"] by (simp add: set_eq_iff)
  qed
qed simp

text \<open>
  C15: which imports are added. The pass asks for exactly the packages of the
  allow list whose name the file uses as a qualifier and neither imports (under any
  alias) nor declares anywhere, each once; so a local that shadows a package name never
  gets an import, and no third-party path is ever added.
\<close>

theorem missing_imports_exact:
  "distinct (missing_fixable_imports unq f) \<and>
   set (missing_fixable_imports unq f) =
     {path. \<exists>q. (q, path) \<in> set fixable_stdlib_imports \<and> q \<in> set (qualifiers (gf_root f)) \<and>
       q \<notin> imported_names unq (gf_imports f) \<and> q \<notin> declared_names (gf_root f)}"
  using collect_missing_spec [of "imported_names unq (gf_imports f) \<union> declared_names (gf_root f)" "{}"
      "qualifiers (gf_root f)"] fixable_distinct(1)
  by (auto simp: missing_fixable_imports_def)

section \<open>Concrete runs\<close>

definition quoted :: "string \<Rightarrow> string" where
  "quoted p = CHR 0x22 # p @ [CHR 0x22]"

text \<open>The documented behaviour of \<open>astutil\<close> on the list of imports.\<close>

definition sample_matches :: "string \<Rightarrow> string \<Rightarrow> import_spec \<Rightarrow> bool" where
  "sample_matches n p s = (local_name s = n \<and> im_lit s = quoted p)"

definition sample_imports_env :: imports_env where
  "sample_imports_env =
     \<lparr>ie_parse = (\<lambda>s. None), ie_format = (\<lambda>f. None), ie_format_source = (\<lambda>s. None),
      ie_unquote = (\<lambda>l. if length l < 2 \<or> l \<noteq> quoted (butlast (tl l)) then None else Some (butlast (tl l))),
      ie_delete = (\<lambda>f n p. (f\<lparr>gf_imports := filter (\<lambda>s. \<not> sample_matches n p s) (gf_imports f)\<rparr>,
        list_ex (sample_matches n p) (gf_imports f))),
      ie_add = (\<lambda>f n p. f\<lparr>gf_imports := gf_imports f @
        [\<lparr>im_name = (if n = [] then None else Some n), im_lit = quoted p\<rparr>]\<rparr>),
      ie_uses = (\<lambda>f p. last_segment p \<in> set (qualifiers (gf_root f)))\<rparr>"

lemma sample_imports_matches: "matches sample_imports_env k s \<longleftrightarrow> sample_matches (fst k) (snd k) s"
  by (auto simp: matches_def sample_matches_def sample_imports_env_def quoted_def)

lemma sample_imports_laws: "delete_law sample_imports_env" "add_law sample_imports_env"
  unfolding delete_law_def add_law_def sample_imports_matches
  by (simp_all add: sample_imports_env_def sample_matches_def local_name_def)

definition imp :: "string \<Rightarrow> import_spec" where
  "imp p = \<lparr>im_name = None, im_lit = quoted p\<rparr>"

text \<open>A file that imports \<open>slices\<close> twice and \<open>sort\<close>, and uses \<open>slices.Sort\<close>.\<close>

definition sample_go_file :: go_file where
  "sample_go_file =
     \<lparr>gf_imports = [imp ''sort'', imp ''slices'', imp ''slices''], gf_decls = [], gf_comments = [],
      gf_root = Other_Node [SelectorExpr (Ident ''slices'') ''Sort'']\<rparr>"

theorem prune_exact_witness:
  "\<exists>f'. prune_file sample_imports_env sample_go_file = Some f' \<and>
     gf_imports f' = [imp ''slices'', imp ''slices'']"
proof -
  have o: "orphan_of sample_imports_env sample_go_file (imp ''sort'') = Some ([], ''sort'')"
    "orphan_of sample_imports_env sample_go_file (imp ''slices'') = None"
    by code_simp+
  have imps: "gf_imports sample_go_file = [imp ''sort'', imp ''slices'', imp ''slices'']"
    by (simp add: sample_go_file_def)
  have "orphans sample_imports_env sample_go_file \<noteq> []"
    by (simp add: orphans_def imps List.map_filter_simps o)
  moreover have "\<not> uses_cgo sample_go_file" by code_simp
  ultimately obtain f' where "prune_file sample_imports_env sample_go_file = Some f'"
    by (cases "drop_empty_import_decls (fold (\<lambda>(n, p) g. fst (ie_delete sample_imports_env g n p))
        (orphans sample_imports_env sample_go_file) sample_go_file)") (simp add: prune_file_def Let_def)
  with prune_exact [OF sample_imports_laws(1) this] show ?thesis by (simp add: imps o)
qed

theorem dedupe_distinct_witness:
  "\<exists>f'. dedupe_file sample_imports_env sample_go_file = Some f' \<and>
     distinct (named_keys sample_imports_env f') \<and>
     set (named_keys sample_imports_env f') = {([], ''sort''), ([], ''slices'')}"
proof -
  have d: "find_dups (ie_unquote sample_imports_env) (gf_imports sample_go_file) (\<lambda>_. 0) [] = Some [([], ''slices'')]"
    by code_simp
  have n: "named_keys sample_imports_env sample_go_file = [([], ''sort''), ([], ''slices''), ([], ''slices'')]"
    by code_simp
  have "\<not> uses_cgo sample_go_file" by code_simp
  with d obtain f' where f': "dedupe_file sample_imports_env sample_go_file = Some f'"
    by (simp add: dedupe_file_def)
  from dedupe_distinct [OF sample_imports_laws f'] f' show ?thesis by (simp add: n)
qed

end
