(* ===== verification/Facts.thy ===== *)
theory Facts
  imports Findings Evidence
begin

text \<open>
  Running one analyzer: \<open>factStore\<close>, \<open>runCheckWithScope\<close>, \<open>runFactCheckWithScope\<close> and
  \<open>sourceOtherFiles\<close> of \<open>internal/runner/runner.go\<close>, and the load target of
  \<open>internal/scanscope\<close>. The code of an analyzer is a parameter: a tree of the calls it makes
  on its pass, whose branches are the answers it gets. Panics are values.
\<close>

section \<open>The load target\<close>

record scan_target =
  tg_go_version :: string
  tg_goos :: string
  tg_goarch :: string
  tg_context_sha256 :: string

definition hex_char :: "char \<Rightarrow> bool" where
  "hex_char c = (is_digit c \<or> 97 \<le> byte_at c \<and> byte_at c \<le> 102 \<or> 65 \<le> byte_at c \<and> byte_at c \<le> 70)"

text \<open>\<open>go/version.IsValid\<close>, and \<open>hex.DecodeString\<close>'s condition on 64 characters.\<close>

definition version_is_valid :: "string \<Rightarrow> bool" where
  "version_is_valid v = (version_lang v \<noteq> [])"

definition target_known :: "scan_target \<Rightarrow> bool" where
  "target_known t =
     (version_is_valid (tg_go_version t) \<and> tg_goos t \<noteq> [] \<and> tg_goarch t \<noteq> [] \<and>
      length (tg_context_sha256 t) = 64 \<and> list_all hex_char (tg_context_sha256 t))"

section \<open>Packages and diagnostics\<close>

record loaded_package = go_package +
  lp_id :: string
  lp_fset :: file_set
  lp_has_syntax :: bool
  lp_types_path :: "string option"
  lp_other_files :: "string list"
  lp_embed_files :: "string list"
  lp_errors :: "string list"

record diagnostic =
  dg_pos :: int
  dg_end :: int
  dg_message :: string
  dg_fixes :: "suggested_fix list"

definition source_other_files :: "string list \<Rightarrow> string list \<Rightarrow> string list" where
  "source_other_files other embedded = keep_first (\<lambda>n. n) {} (other @ embedded)"

section \<open>The fact store\<close>

record object =
  ob_name :: string
  ob_pkg :: "string option"

text \<open>A fact is its registered type and its value; the store keeps encoded bytes.\<close>

type_synonym fact = "string \<times> string"

record fact_store =
  fs_allowed :: "string set"
  fs_objects :: "object \<Rightarrow> string \<Rightarrow> string option"
  fs_packages :: "string \<Rightarrow> string \<Rightarrow> string option"

definition new_fact_store :: "analyzer \<Rightarrow> fact_store" where
  "new_fact_store a =
     \<lparr>fs_allowed = set (an_fact_types a), fs_objects = (\<lambda>_ _. None), fs_packages = (\<lambda>_ _. None)\<rparr>"

text \<open>\<open>encoding/gob\<close>: encoding and decoding of a value at its type, each of which may fail.\<close>

record gob_codec =
  gob_encode :: "fact \<Rightarrow> string option"
  gob_decode :: "string \<Rightarrow> string \<Rightarrow> string option"

datatype panic = Unregistered string | Encode_Failed string | Decode_Failed string | Foreign_Object string

text \<open>\<open>importFact\<close>: the decoded value when there is one.\<close>

definition import_fact ::
    "gob_codec \<Rightarrow> fact_store \<Rightarrow> (string \<Rightarrow> string option) \<Rightarrow> string \<Rightarrow> panic + string option" where
  "import_fact gob st encoded ty =
     (if ty \<notin> fs_allowed st then Inl (Unregistered ty)
      else case encoded ty of
             None \<Rightarrow> Inr None
           | Some data \<Rightarrow>
               (case gob_decode gob ty data of
                  None \<Rightarrow> Inl (Decode_Failed ty)
                | Some v \<Rightarrow> Inr (Some v)))"

text \<open>\<open>exportFact\<close> on one of the two maps of the store.\<close>

definition export_fact ::
    "gob_codec \<Rightarrow> fact_store \<Rightarrow> ('k \<Rightarrow> string \<Rightarrow> string option) \<Rightarrow> 'k \<Rightarrow> fact \<Rightarrow>
     panic + ('k \<Rightarrow> string \<Rightarrow> string option)" where
  "export_fact gob st dest key fct =
     (if fst fct \<notin> fs_allowed st then Inl (Unregistered (fst fct))
      else case gob_encode gob fct of
             None \<Rightarrow> Inl (Encode_Failed (fst fct))
           | Some bytes \<Rightarrow> Inr (dest(key := (dest key)(fst fct \<mapsto> bytes))))"

section \<open>Analyzer code\<close>

datatype script =
    Return "string option"
  | Report diagnostic script
  | Import_Object object string "string option \<Rightarrow> script"
  | Import_Package string string "string option \<Rightarrow> script"
  | Export_Object object fact script
  | Export_Package fact script

record pass_input =
  ps_package :: loaded_package
  ps_other_files :: "string list"
  ps_scope :: "scan_target option"

type_synonym code = "string \<Rightarrow> pass_input \<Rightarrow> script"

text \<open>
  The environment of a run of analyzers: the code of each by name, the codec, the
  position table and the traversal \<open>packages.Visit\<close> in post-order.
\<close>

record run_env =
  rn_code :: code
  rn_gob :: gob_codec
  rn_position :: "file_set \<Rightarrow> int \<Rightarrow> position"
  rn_visit :: "loaded_package list \<Rightarrow> loaded_package list"

definition finding_of :: "run_env \<Rightarrow> check \<Rightarrow> loaded_package \<Rightarrow> diagnostic \<Rightarrow> finding" where
  "finding_of env c pkg d =
     (let e = (if dg_end d = 0 then dg_pos d else dg_end d) in
      \<lparr>fnd_check = c, fnd_pos = rn_position env (lp_fset pkg) (dg_pos d),
       fnd_end = rn_position env (lp_fset pkg) e, fnd_message = dg_message d,
       fnd_fixes = dg_fixes d, fnd_fset = lp_fset pkg\<rparr>)"

datatype run_failure = Panicked panic | Failed string

text \<open>
  The interpreter of the calls. Without a store (\<open>facts == nil\<close>) an analyzer has no fact
  functions and must not call them; a call is then the panic of a nil function, which the
  model gives as an unregistered type.
\<close>

primrec run_script ::
    "run_env \<Rightarrow> check \<Rightarrow> loaded_package \<Rightarrow> script \<Rightarrow> fact_store option \<Rightarrow> finding list \<Rightarrow>
     run_failure + finding list \<times> fact_store option" where
  "run_script env c pkg (Return e) st out =
     (case e of None \<Rightarrow> Inr (out, st) | Some msg \<Rightarrow> Inl (Failed msg))"
| "run_script env c pkg (Report d k) st out = run_script env c pkg k st (out @ [finding_of env c pkg d])"
| "run_script env c pkg (Import_Object ob ty k) st out =
     (case st of
        None \<Rightarrow> Inl (Panicked (Unregistered ty))
      | Some s \<Rightarrow>
          (case import_fact (rn_gob env) s (fs_objects s ob) ty of
             Inl p \<Rightarrow> Inl (Panicked p)
           | Inr v \<Rightarrow> run_script env c pkg (k v) st out))"
| "run_script env c pkg (Import_Package p ty k) st out =
     (case st of
        None \<Rightarrow> Inl (Panicked (Unregistered ty))
      | Some s \<Rightarrow>
          (case import_fact (rn_gob env) s (fs_packages s p) ty of
             Inl e \<Rightarrow> Inl (Panicked e)
           | Inr v \<Rightarrow> run_script env c pkg (k v) st out))"
| "run_script env c pkg (Export_Object ob fct k) st out =
     (case st of
        None \<Rightarrow> Inl (Panicked (Unregistered (fst fct)))
      | Some s \<Rightarrow>
          if ob_pkg ob \<noteq> lp_types_path pkg \<or> ob_pkg ob = None then Inl (Panicked (Foreign_Object (ob_name ob)))
          else (case export_fact (rn_gob env) s (fs_objects s) ob fct of
                  Inl e \<Rightarrow> Inl (Panicked e)
                | Inr objs \<Rightarrow> run_script env c pkg k (Some (s\<lparr>fs_objects := objs\<rparr>)) out))"
| "run_script env c pkg (Export_Package fct k) st out =
     (case st of
        None \<Rightarrow> Inl (Panicked (Unregistered (fst fct)))
      | Some s \<Rightarrow>
          (case lp_types_path pkg of
             None \<Rightarrow> Inl (Panicked (Foreign_Object []))
           | Some p \<Rightarrow>
               (case export_fact (rn_gob env) s (fs_packages s) p fct of
                  Inl e \<Rightarrow> Inl (Panicked e)
                | Inr pkgs \<Rightarrow> run_script env c pkg k (Some (s\<lparr>fs_packages := pkgs\<rparr>)) out)))"

definition pass_of :: "loaded_package \<Rightarrow> scan_target option \<Rightarrow> pass_input" where
  "pass_of pkg scope =
     \<lparr>ps_package = pkg, ps_other_files = source_other_files (lp_other_files pkg) (lp_embed_files pkg),
      ps_scope = (case scope of None \<Rightarrow> None | Some t \<Rightarrow> if target_known t then Some t else None)\<rparr>"

definition run_check_with_scope ::
    "run_env \<Rightarrow> check \<Rightarrow> loaded_package \<Rightarrow> fact_store option \<Rightarrow> scan_target option \<Rightarrow>
     run_failure + finding list \<times> fact_store option" where
  "run_check_with_scope env c pkg facts scope =
     (case run_script env c pkg (rn_code env (an_name (chk_analyzer c)) (pass_of pkg scope)) facts [] of
        Inl (Failed msg) \<Rightarrow> Inl (Failed (chk_id c @ '' on '' @ pkg_path pkg @ '': '' @ msg))
      | r \<Rightarrow> r)"

text \<open>The loop over the packages in dependency order; only requested packages report.\<close>

fun fact_loop ::
    "run_env \<Rightarrow> check \<Rightarrow> string set \<Rightarrow> scan_target option \<Rightarrow> loaded_package list \<Rightarrow> fact_store \<Rightarrow>
     finding list \<Rightarrow> run_failure + finding list \<times> fact_store" where
  "fact_loop env c roots scope [] st fs = Inr (fs, st)"
| "fact_loop env c roots scope (pkg # pkgs) st fs =
     (case run_check_with_scope env c pkg (Some st) scope of
        Inl e \<Rightarrow> Inl e
      | Inr (current, st') \<Rightarrow>
          fact_loop env c roots scope pkgs (case st' of Some s \<Rightarrow> s | None \<Rightarrow> st)
            (if lp_id pkg \<in> roots then fs @ current else fs))"

definition run_fact_check_with_scope ::
    "run_env \<Rightarrow> check \<Rightarrow> loaded_package list \<Rightarrow> scan_target option \<Rightarrow> run_failure + finding list" where
  "run_fact_check_with_scope env c roots scope =
     (let order = filter lp_has_syntax (rn_visit env roots) in
      case fact_loop env c (set (map lp_id roots)) scope order (new_fact_store (chk_analyzer c)) [] of
        Inl e \<Rightarrow> Inl e
      | Inr (fs, _) \<Rightarrow> Inr fs)"

section \<open>Facts travel unchanged\<close>

text \<open>
  Facts are copied, not shared. Under a codec that decodes what it encodes, a
  fact exported on a key is what an import of its type on that key gives, whatever was
  there before; every other key and every other type is unchanged; and a fact type the
  analyzer did not register can be neither exported nor imported.
\<close>

theorem fact_roundtrip:
  assumes "gob_encode gob (ty, v) = Some bytes" and "gob_decode gob ty bytes = Some v"
    and "ty \<in> fs_allowed st"
  shows "\<exists>dest'. export_fact gob st dest key (ty, v) = Inr dest' \<and>
    import_fact gob st (dest' key) ty = Inr (Some v) \<and>
    (\<forall>k t. (k, t) \<noteq> (key, ty) \<longrightarrow> import_fact gob st (dest' k) t = import_fact gob st (dest k) t) \<and>
    (\<forall>t k d. t \<notin> fs_allowed st \<longrightarrow>
       import_fact gob st d t = Inl (Unregistered t) \<and>
       export_fact gob st dest k (t, v) = Inl (Unregistered t))"
  using assms by (auto simp: export_fact_def import_fact_def)

definition plain_gob :: gob_codec where
  "plain_gob = \<lparr>gob_encode = (\<lambda>(t, v). Some v), gob_decode = (\<lambda>t b. Some b)\<rparr>"

definition sample_store :: fact_store where
  "sample_store = new_fact_store \<lparr>an_name = ''PS1'', an_fact_types = [''T'']\<rparr>"

theorem fact_roundtrip_witness:
  "\<exists>d. export_fact plain_gob sample_store (fs_packages sample_store) ''p'' (''T'', ''x'') = Inr d \<and>
     import_fact plain_gob sample_store (d ''p'') ''T'' = Inr (Some ''x'') \<and>
     import_fact plain_gob sample_store (d ''q'') ''T'' = Inr None"
proof -
  have e: "gob_encode plain_gob (''T'', ''x'') = Some ''x''" and d: "gob_decode plain_gob ''T'' ''x'' = Some ''x''"
    by (simp_all add: plain_gob_def)
  have a: "''T'' \<in> fs_allowed sample_store" by (simp add: sample_store_def new_fact_store_def)
  have q: "import_fact plain_gob sample_store (fs_packages sample_store ''q'') ''T'' = Inr None"
    using a by (simp add: import_fact_def) (simp add: sample_store_def new_fact_store_def)
  from fact_roundtrip [OF e d a, of "fs_packages sample_store" "''p''"] obtain dest where
    "export_fact plain_gob sample_store (fs_packages sample_store) ''p'' (''T'', ''x'') = Inr dest"
    "import_fact plain_gob sample_store (dest ''p'') ''T'' = Inr (Some ''x'')"
    "import_fact plain_gob sample_store (dest ''q'') ''T'' =
       import_fact plain_gob sample_store (fs_packages sample_store ''q'') ''T''"
    by auto
  with q show ?thesis by auto
qed

section \<open>Only the packages of the traversal publish facts\<close>

text \<open>The packages a store has facts about, directly or about their objects.\<close>

definition publishers :: "fact_store \<Rightarrow> string set" where
  "publishers st =
     {p. \<exists>ob t b. ob_pkg ob = Some p \<and> fs_objects st ob t = Some b} \<union>
     {p. \<exists>t b. fs_packages st p t = Some b}"

definition unowned :: "fact_store \<Rightarrow> bool" where
  "unowned st = (\<exists>ob t b. ob_pkg ob = None \<and> fs_objects st ob t = Some b)"

lemma run_script_store:
  "run_script env c pkg s st out = Inr (out', st') \<Longrightarrow>
     (case (st, st') of
        (None, None) \<Rightarrow> True
      | (Some a, Some b) \<Rightarrow> publishers b \<subseteq> publishers a \<union> set_option (lp_types_path pkg) \<and>
          (unowned b \<longrightarrow> unowned a)
      | _ \<Rightarrow> False)"
proof (induction s arbitrary: st out)
  case (Return e)
  then show ?case by (auto split: option.splits)
next
  case (Report d k)
  then show ?case by simp
next
  case (Import_Object ob ty k)
  from Import_Object.prems obtain v where r: "run_script env c pkg (k v) st out = Inr (out', st')"
    by (auto split: option.splits sum.splits)
  show ?case by (rule Import_Object.IH [OF rangeI r])
next
  case (Import_Package p ty k)
  from Import_Package.prems obtain v where r: "run_script env c pkg (k v) st out = Inr (out', st')"
    by (auto split: option.splits sum.splits)
  show ?case by (rule Import_Package.IH [OF rangeI r])
next
  case (Export_Object ob fct k)
  from Export_Object.prems obtain s objs where s: "st = Some s" and p: "ob_pkg ob = lp_types_path pkg" "ob_pkg ob \<noteq> None"
    and e: "export_fact (rn_gob env) s (fs_objects s) ob fct = Inr objs"
    and r: "run_script env c pkg k (Some (s\<lparr>fs_objects := objs\<rparr>)) out = Inr (out', st')"
    by (auto split: option.splits sum.splits if_splits)
  from e obtain b where "objs = (fs_objects s)(ob := (fs_objects s ob)(fst fct \<mapsto> b))"
    by (auto simp: export_fact_def split: option.splits if_splits)
  then have "publishers (s\<lparr>fs_objects := objs\<rparr>) \<subseteq> publishers s \<union> set_option (lp_types_path pkg)"
    and "unowned (s\<lparr>fs_objects := objs\<rparr>) \<longrightarrow> unowned s"
    using p by (auto simp: publishers_def unowned_def split: if_splits)
  with Export_Object.IH [OF r] s show ?case by (auto split: option.splits)
next
  case (Export_Package fct k)
  from Export_Package.prems obtain s p pkgs where s: "st = Some s" and p: "lp_types_path pkg = Some p"
    and e: "export_fact (rn_gob env) s (fs_packages s) p fct = Inr pkgs"
    and r: "run_script env c pkg k (Some (s\<lparr>fs_packages := pkgs\<rparr>)) out = Inr (out', st')"
    by (auto split: option.splits sum.splits)
  from e obtain b where "pkgs = (fs_packages s)(p := (fs_packages s p)(fst fct \<mapsto> b))"
    by (auto simp: export_fact_def split: option.splits if_splits)
  then have "publishers (s\<lparr>fs_packages := pkgs\<rparr>) \<subseteq> publishers s \<union> set_option (lp_types_path pkg)"
    and "unowned (s\<lparr>fs_packages := pkgs\<rparr>) \<longrightarrow> unowned s"
    using p by (auto simp: publishers_def unowned_def split: if_splits)
  with Export_Package.IH [OF r] s show ?case by (auto split: option.splits)
qed

text \<open>Whatever holds of every finding the analyzer can report holds of those it did report.\<close>

lemma run_script_all:
  assumes "\<And>d. P (finding_of env c pkg d)"
  shows "run_script env c pkg s st out = Inr (out', st') \<Longrightarrow> list_all P out \<Longrightarrow> list_all P out'"
proof (induction s arbitrary: st out)
  case (Return e)
  then show ?case by (auto split: option.splits)
next
  case (Report d k)
  then show ?case using assms by simp
next
  case (Import_Object ob ty k)
  from Import_Object.prems(1) obtain v where r: "run_script env c pkg (k v) st out = Inr (out', st')"
    by (auto split: option.splits sum.splits)
  show ?case by (rule Import_Object.IH [OF rangeI r Import_Object.prems(2)])
next
  case (Import_Package p ty k)
  from Import_Package.prems(1) obtain v where r: "run_script env c pkg (k v) st out = Inr (out', st')"
    by (auto split: option.splits sum.splits)
  show ?case by (rule Import_Package.IH [OF rangeI r Import_Package.prems(2)])
next
  case (Export_Object ob fct k)
  from Export_Object.prems(1) obtain s where r: "run_script env c pkg k s out = Inr (out', st')"
    by (auto split: option.splits sum.splits if_splits)
  show ?case by (rule Export_Object.IH [OF r Export_Object.prems(2)])
next
  case (Export_Package fct k)
  from Export_Package.prems(1) obtain s where r: "run_script env c pkg k s out = Inr (out', st')"
    by (auto split: option.splits sum.splits)
  show ?case by (rule Export_Package.IH [OF r Export_Package.prems(2)])
qed

lemma run_script_findings:
  assumes "run_script env c pkg s st [] = Inr (out', st')"
  shows "\<forall>f\<in>set out'. fnd_fset f = lp_fset pkg \<and> fnd_check f = c"
  using run_script_all [of "\<lambda>f. fnd_fset f = lp_fset pkg \<and> fnd_check f = c" env c pkg, OF _ assms]
  by (simp add: finding_of_def Let_def list_all_iff)

lemma run_check_Inr:
  "run_check_with_scope env c pkg facts scope = Inr r \<longleftrightarrow>
     run_script env c pkg (rn_code env (an_name (chk_analyzer c)) (pass_of pkg scope)) facts [] = Inr r"
  by (auto simp: run_check_with_scope_def split: sum.splits run_failure.splits)

lemma run_check_all:
  assumes "\<And>d. P (finding_of env c pkg d)" and "run_check_with_scope env c pkg facts scope = Inr (out, st)"
  shows "list_all P out"
  by (rule run_script_all [of P, OF assms(1) assms(2) [unfolded run_check_Inr]]) simp

lemma fact_loop_all:
  assumes "\<And>pkg d. P (finding_of env c pkg d)"
  shows "fact_loop env c roots scope pkgs st fs = Inr (fs', st') \<Longrightarrow> list_all P fs \<Longrightarrow> list_all P fs'"
proof (induction pkgs arbitrary: st fs)
  case (Cons pkg pkgs)
  from Cons.prems(1) obtain current s where r: "run_check_with_scope env c pkg (Some st) scope = Inr (current, s)"
    and l: "fact_loop env c roots scope pkgs (case s of Some s \<Rightarrow> s | None \<Rightarrow> st)
      (if lp_id pkg \<in> roots then fs @ current else fs) = Inr (fs', st')"
    by (auto split: sum.splits)
  show ?case using Cons.IH [OF l] Cons.prems(2) run_check_all [of P, OF assms r] by simp
qed simp

text \<open>The loop is a chain of passes, each on the store the one before it left.\<close>

lemma fact_loop_trace:
  "fact_loop env c roots scope pkgs st fs = Inr (fs', st') \<Longrightarrow>
     \<exists>stores reports. length reports = length pkgs \<and> length stores = Suc (length pkgs) \<and> stores ! 0 = st \<and>
       (\<forall>i<length pkgs.
          run_check_with_scope env c (pkgs ! i) (Some (stores ! i)) scope = Inr (reports ! i, Some (stores ! Suc i))) \<and>
       fs' = fs @ concat (map snd (filter (\<lambda>(pkg, _). lp_id pkg \<in> roots) (zip pkgs reports)))"
proof (induction pkgs arbitrary: st fs)
  case Nil
  then show ?case by (intro exI [of _ "[st]"] exI [of _ "[]"]) simp
next
  case (Cons pkg pkgs)
  from Cons.prems obtain current s where r: "run_check_with_scope env c pkg (Some st) scope = Inr (current, s)"
    and l: "fact_loop env c roots scope pkgs (case s of Some s \<Rightarrow> s | None \<Rightarrow> st)
      (if lp_id pkg \<in> roots then fs @ current else fs) = Inr (fs', st')"
    by (auto split: sum.splits)
  from run_script_store [OF r [unfolded run_check_Inr]] obtain st1 where s: "s = Some st1"
    by (auto split: option.splits)
  from Cons.IH [OF l] s obtain stores reports where
    t: "length reports = length pkgs" "length stores = Suc (length pkgs)" "stores ! 0 = st1"
      "\<forall>i<length pkgs. run_check_with_scope env c (pkgs ! i) (Some (stores ! i)) scope =
         Inr (reports ! i, Some (stores ! Suc i))"
    and f: "fs' = (if lp_id pkg \<in> roots then fs @ current else fs) @
      concat (map snd (filter (\<lambda>(pkg, _). lp_id pkg \<in> roots) (zip pkgs reports)))"
    by auto
  show ?case
    using t f r s
    by (intro exI [of _ "st # stores"] exI [of _ "current # reports"]) (auto simp: less_Suc_eq_0_disj)
qed

definition types_paths :: "loaded_package list \<Rightarrow> string set" where
  "types_paths pkgs = {p. \<exists>pkg\<in>set pkgs. lp_types_path pkg = Some p}"

text \<open>Along a chain of passes only the packages passed so far have facts.\<close>

lemma chain_publishers:
  assumes "\<forall>i<length pkgs.
      run_check_with_scope env c (pkgs ! i) (Some (stores ! i)) scope = Inr (reports ! i, Some (stores ! Suc i))"
    and "publishers (stores ! 0) = {}" and "\<not> unowned (stores ! 0)" and "i \<le> length pkgs"
  shows "publishers (stores ! i) \<subseteq> types_paths (take i pkgs) \<and> \<not> unowned (stores ! i)"
  using assms(4)
proof (induction i)
  case 0
  then show ?case using assms(2,3) by simp
next
  case (Suc i)
  then have "run_check_with_scope env c (pkgs ! i) (Some (stores ! i)) scope = Inr (reports ! i, Some (stores ! Suc i))"
    using assms(1) by simp
  from run_script_store [OF this [unfolded run_check_Inr]]
  have "publishers (stores ! Suc i) \<subseteq> publishers (stores ! i) \<union> set_option (lp_types_path (pkgs ! i))"
    "unowned (stores ! Suc i) \<longrightarrow> unowned (stores ! i)" by simp_all
  moreover have "types_paths (take (Suc i) pkgs) = types_paths (take i pkgs) \<union> set_option (lp_types_path (pkgs ! i))"
    using Suc.prems by (auto simp: types_paths_def take_Suc_conv_app_nth)
  ultimately show ?case using Suc by auto
qed

lemma new_store_empty: "publishers (new_fact_store a) = {}" "\<not> unowned (new_fact_store a)"
  by (simp_all add: publishers_def unowned_def new_fact_store_def)

text \<open>
  C23: the scope of a fact run. The run of a check with facts is one pass per package of the dependency order that
  has syntax, each on the store the pass before it left, the first on an empty store. When a pass starts, only packages
  passed before it have facts, and every object with a fact belongs to a package. What the run reports are the reports of the
  passes over the requested packages, in order and complete: passes over mere dependencies
  publish facts and report nothing. Each finding carries the check and is about a requested package.
\<close>

theorem fact_run_scoped:
  assumes "run_fact_check_with_scope env c requested scope = Inr fs"
  shows "let visited = filter lp_has_syntax (rn_visit env requested); asked = lp_id ` set requested in
    \<exists>stores reports. length reports = length visited \<and> length stores = Suc (length visited) \<and>
      stores ! 0 = new_fact_store (chk_analyzer c) \<and>
      (\<forall>i<length visited.
         publishers (stores ! i) \<subseteq> types_paths (take i visited) \<and> \<not> unowned (stores ! i) \<and>
         run_check_with_scope env c (visited ! i) (Some (stores ! i)) scope = Inr (reports ! i, Some (stores ! Suc i))) \<and>
      fs = concat (map snd (filter (\<lambda>(pkg, _). lp_id pkg \<in> asked) (zip visited reports))) \<and>
      list_all (\<lambda>f. \<exists>pkg\<in>set visited. lp_id pkg \<in> asked \<and> fnd_fset f = lp_fset pkg \<and> fnd_check f = c) fs"
proof -
  let ?v = "filter lp_has_syntax (rn_visit env requested)" and ?a = "lp_id ` set requested"
  from assms obtain st where "fact_loop env c ?a scope ?v (new_fact_store (chk_analyzer c)) [] = Inr (fs, st)"
    by (auto simp: run_fact_check_with_scope_def Let_def split: sum.splits)
  from fact_loop_trace [OF this] obtain stores reports where
    l: "length reports = length ?v" "length stores = Suc (length ?v)"
    and s: "stores ! 0 = new_fact_store (chk_analyzer c)"
    and p: "\<forall>i<length ?v. run_check_with_scope env c (?v ! i) (Some (stores ! i)) scope =
      Inr (reports ! i, Some (stores ! Suc i))"
    and f: "fs = concat (map snd (filter (\<lambda>(pkg, _). lp_id pkg \<in> ?a) (zip ?v reports)))"
    by auto
  have "\<exists>pkg\<in>set ?v. lp_id pkg \<in> ?a \<and> fnd_fset g = lp_fset pkg \<and> fnd_check g = c" if "g \<in> set fs" for g
  proof -
    from that f obtain i where i: "i < length ?v" "lp_id (?v ! i) \<in> ?a" "g \<in> set (reports ! i)"
      using l(1) by (auto simp: set_zip)
    then have "run_check_with_scope env c (?v ! i) (Some (stores ! i)) scope = Inr (reports ! i, Some (stores ! Suc i))"
      using p by blast
    from run_script_findings [OF this [unfolded run_check_Inr]] i show ?thesis by (metis nth_mem)
  qed
  moreover have "publishers (stores ! i) \<subseteq> types_paths (take i ?v) \<and> \<not> unowned (stores ! i)" if "i < length ?v" for i
    using chain_publishers [OF p] new_store_empty s that by (metis less_imp_le)
  ultimately show ?thesis
    unfolding Let_def using l s p f
    by (intro exI [of _ stores] exI [of _ reports]) (simp only: list_all_iff, blast)
qed

definition sample_package :: "string \<Rightarrow> loaded_package" where
  "sample_package p =
     \<lparr>pkg_path = p, pkg_module = None, lp_id = p, lp_fset = [], lp_has_syntax = True,
      lp_types_path = Some p, lp_other_files = [], lp_embed_files = [], lp_errors = []\<rparr>"

text \<open>An analyzer that publishes a fact on its package and reports at the start of the file.\<close>

definition sample_run :: run_env where
  "sample_run =
     \<lparr>rn_code = (\<lambda>_ _. Export_Package (''T'', ''x'')
        (Report \<lparr>dg_pos = 1, dg_end = 0, dg_message = ''m'', dg_fixes = []\<rparr> (Return None))),
      rn_gob = plain_gob,
      rn_position = (\<lambda>_ p. \<lparr>pos_filename = ''a.go'', pos_offset = p, pos_line = 1, pos_column = p\<rparr>),
      rn_visit = (\<lambda>ps. ps)\<rparr>"

text \<open>The same with a dependency \<open>p\<close> that is visited before what was asked for.\<close>

definition sample_graph :: run_env where
  "sample_graph = sample_run\<lparr>rn_visit := \<lambda>ps. sample_package ''p'' # ps\<rparr>"

definition sample_asked :: loaded_package where
  "sample_asked = (sample_package ''q'')\<lparr>lp_fset := [\<lparr>tf_name = ''q.go'', tf_base = 1, tf_size = 6\<rparr>]\<rparr>"

definition sample_fact_check :: check where
  "sample_fact_check = (plain_check ''PS1'' 1)\<lparr>chk_analyzer := \<lparr>an_name = ''PS1'', an_fact_types = [''T'']\<rparr>\<rparr>"

theorem fact_run_scoped_witness:
  "\<exists>fs. run_fact_check_with_scope sample_graph sample_fact_check [sample_asked] None = Inr fs \<and> length fs = 1 \<and>
     list_all (\<lambda>f. fnd_fset f = lp_fset sample_asked) fs"
proof -
  have v: "filter lp_has_syntax (rn_visit sample_graph [sample_asked]) = [sample_package ''p'', sample_asked]"
    by (simp add: sample_graph_def sample_asked_def sample_package_def)
  obtain fs where r: "run_fact_check_with_scope sample_graph sample_fact_check [sample_asked] None = Inr fs"
    and l: "length fs = 1"
    unfolding run_fact_check_with_scope_def Let_def v
    by (simp add: run_check_with_scope_def sample_graph_def sample_run_def sample_package_def sample_asked_def
        sample_fact_check_def plain_check_def export_fact_def new_fact_store_def plain_gob_def)
  have ids: "lp_id (sample_package ''p'') = ''p''" "lp_id sample_asked = ''q''"
    by (simp_all add: sample_package_def sample_asked_def)
  have "list_all (\<lambda>f. \<exists>pkg\<in>set [sample_package ''p'', sample_asked]. lp_id pkg \<in> lp_id ` set [sample_asked] \<and>
      fnd_fset f = lp_fset pkg \<and> fnd_check f = sample_fact_check) fs"
    using fact_run_scoped [OF r] unfolding v Let_def by blast
  then have "list_all (\<lambda>f. fnd_fset f = lp_fset sample_asked) fs" by (auto simp: list_all_iff ids)
  with r l show ?thesis by blast
qed

end
