(* ===== verification/Contract_Ids.thy ===== *)
theory Contract_Ids
  imports Go_Int Go_Strings Go_Path
begin

text \<open>
  What the configuration contracts of package \<open>config\<close> share: the early-return loops with a \<open>seen\<close> map, the identifiers of
  functions, methods and types (\<open>psTopK*\<close>, \<open>ps6109*\<close>, \<open>psShared*\<close>), and the policy that
  makes two contracts with the same claim unusable.
\<close>

section \<open>Loops with an early return\<close>

text \<open>
  \<open>for _, x := range xs { if ... { return false }; ... }\<close> with the variables the body
  assigns as the state: \<open>None\<close> is the early return.
\<close>

fun go_each :: "('s \<Rightarrow> 'a \<Rightarrow> 's option) \<Rightarrow> 's \<Rightarrow> 'a list \<Rightarrow> 's option" where
  "go_each body s [] = Some s"
| "go_each body s (x # xs) = (case body s x of None \<Rightarrow> None | Some s' \<Rightarrow> go_each body s' xs)"

text \<open>The loop that collects keys in a \<open>seen\<close> map and rejects a bad element or a repeated key.\<close>

lemma go_each_seen:
  assumes "\<And>s x. x \<in> set xs \<Longrightarrow>
    body s x = (if ok x \<and> key x \<notin> s then Some (insert (key x) s) else None)"
  shows "go_each body s xs =
    (if list_all ok xs \<and> distinct (map key xs) \<and> key ` set xs \<inter> s = {}
     then Some (key ` set xs \<union> s) else None)"
  using assms
proof (induction xs arbitrary: s)
  case Nil
  then show ?case by simp
next
  case (Cons x xs)
  have b: "body s x = (if ok x \<and> key x \<notin> s then Some (insert (key x) s) else None)"
    by (rule Cons.prems) simp
  have "go_each body (insert (key x) s) xs =
    (if list_all ok xs \<and> distinct (map key xs) \<and> key ` set xs \<inter> insert (key x) s = {}
     then Some (key ` set xs \<union> insert (key x) s) else None)"
    by (rule Cons.IH) (simp add: Cons.prems)
  with b show ?case by auto
qed

lemma go_each_invariant:
  assumes "go_each body s xs = Some s'"
    and "Q s"
    and "\<And>s x t. x \<in> set xs \<Longrightarrow> Q s \<Longrightarrow> body s x = Some t \<Longrightarrow> Q t \<and> R x"
  shows "Q s' \<and> list_all R xs"
  using assms
proof (induction xs arbitrary: s)
  case Nil
  then show ?case by simp
next
  case (Cons x xs)
  then obtain t where t: "body s x = Some t" and rest: "go_each body t xs = Some s'"
    by (auto split: option.splits)
  have "Q t \<and> R x" by (rule Cons.prems(3) [OF _ Cons.prems(2) t]) simp
  moreover from this have "Q s' \<and> list_all R xs"
    using Cons.IH [OF rest] Cons.prems(3) by (metis list.set_intros(2))
  ultimately show ?case by simp
qed

section \<open>Identifiers and import paths\<close>

text \<open>
  The tables of \<open>unicode.IsLetter\<close> and \<open>unicode.IsDigit\<close> outside ASCII and
  \<open>module.CheckImportPath\<close> of \<open>golang.org/x/mod\<close> are parameters.
\<close>

record id_env =
  ie_letter :: "nat \<Rightarrow> bool"
  ie_digit :: "nat \<Rightarrow> bool"
  ie_import_path :: "string \<Rightarrow> bool"

definition go_keywords :: "string list" where
  "go_keywords =
     [''break'', ''case'', ''chan'', ''const'', ''continue'', ''default'', ''defer'', ''else'',
      ''fallthrough'', ''for'', ''func'', ''go'', ''goto'', ''if'', ''import'', ''interface'',
      ''map'', ''package'', ''range'', ''return'', ''select'', ''struct'', ''switch'', ''type'', ''var'']"

definition letter_rune :: "id_env \<Rightarrow> nat \<Rightarrow> bool" where
  "letter_rune E r =
     (if r < 0x80 then 65 \<le> r \<and> r \<le> 90 \<or> 97 \<le> r \<and> r \<le> 122 else ie_letter E r)"

definition digit_rune :: "id_env \<Rightarrow> nat \<Rightarrow> bool" where
  "digit_rune E r = (if r < 0x80 then 48 \<le> r \<and> r \<le> 57 else ie_digit E r)"

definition is_identifier :: "id_env \<Rightarrow> string \<Rightarrow> bool" where
  "is_identifier E s =
     (s \<noteq> [] \<and> s \<notin> set go_keywords \<and>
      (case runes s of
         [] \<Rightarrow> True
       | r # rs \<Rightarrow> (letter_rune E r \<or> r = 95) \<and>
           list_all (\<lambda>r. letter_rune E r \<or> r = 95 \<or> digit_rune E r) rs))"

definition ps_top_k_identifier_valid :: "id_env \<Rightarrow> string \<Rightarrow> bool" where
  "ps_top_k_identifier_valid E s = (s \<noteq> ''_'' \<and> is_identifier E s)"

definition ps_top_k_import_path_valid :: "id_env \<Rightarrow> string \<Rightarrow> bool" where
  "ps_top_k_import_path_valid E p =
     (if list_ex (\<lambda>part. part = [] \<or> list_ex (\<lambda>dot_part. dot_part = []) (split_on (CHR ''.'') part))
           (split_on (CHR ''/'') p)
      then False else ie_import_path E p)"

definition last_dot :: "string \<Rightarrow> int" where
  "last_dot s = (case last_index (CHR ''.'') s of None \<Rightarrow> -1 | Some i \<Rightarrow> int i)"

definition ps_top_k_function_id_valid :: "id_env \<Rightarrow> string \<Rightarrow> bool" where
  "ps_top_k_function_id_valid E i =
     (let separator = last_dot i in
      separator > 0 \<and> ps_top_k_identifier_valid E (drop (nat separator + 1) i) \<and>
      ps_top_k_import_path_valid E (take (nat separator) i))"

definition ps_top_k_method_id_valid :: "id_env \<Rightarrow> string \<Rightarrow> bool" where
  "ps_top_k_method_id_valid E i =
     (let method_separator = last_dot i in
      if method_separator \<le> 0 \<or> \<not> ps_top_k_identifier_valid E (drop (nat method_separator + 1) i)
      then False
      else
        let receiver_separator = last_dot (take (nat method_separator) i) in
        receiver_separator > 0 \<and>
        ps_top_k_identifier_valid E
          (drop (nat receiver_separator + 1) (take (nat method_separator) i)) \<and>
        ps_top_k_import_path_valid E (take (nat receiver_separator) i))"

definition ps6109_callable_id_valid :: "id_env \<Rightarrow> string \<Rightarrow> bool" where
  "ps6109_callable_id_valid E i = (ps_top_k_function_id_valid E i \<or> ps_top_k_method_id_valid E i)"

definition ps6109_type_id_valid :: "id_env \<Rightarrow> string \<Rightarrow> bool" where
  "ps6109_type_id_valid E i =
     (let separator = last_dot i in
      separator > 0 \<and> ps_top_k_identifier_valid E (drop (nat separator + 1) i) \<and>
      ps_top_k_import_path_valid E (take (nat separator) i))"

text \<open>\<open>hex.DecodeString\<close> succeeds on an even number of hexadecimal digits.\<close>

definition hex_ok :: "string \<Rightarrow> bool" where
  "hex_ok s = (even (length s) \<and>
     list_all (\<lambda>c. 48 \<le> byte_at c \<and> byte_at c \<le> 57 \<or> 97 \<le> byte_at c \<and> byte_at c \<le> 102 \<or>
                   65 \<le> byte_at c \<and> byte_at c \<le> 70) s)"

definition nul_join :: "string list \<Rightarrow> string" where
  "nul_join parts = join_with [CHR 0x00] parts"

section \<open>Argument positions and paths\<close>

text \<open>
  \<open>psSharedPositiveUnique\<close> and the local copies of it: the sorted clone of the list is
  scanned for a value that is not positive or equals its predecessor.
\<close>

fun sorted_scan :: "int option \<Rightarrow> int list \<Rightarrow> bool" where
  "sorted_scan before [] = True"
| "sorted_scan before (v # vs) =
     (if v \<le> 0 \<or> before = Some v then False else sorted_scan (Some v) vs)"

definition unique_positive :: "int list \<Rightarrow> bool" where
  "unique_positive values = sorted_scan None (sort values)"

definition ps_shared_positive_unique :: "int list \<Rightarrow> bool" where
  "ps_shared_positive_unique values = (if values = [] then False else unique_positive values)"

definition ps_shared_positions_valid :: "int list \<Rightarrow> bool" where
  "ps_shared_positions_valid values = (values = [] \<or> ps_shared_positive_unique values)"

definition ps_shared_path_valid :: "id_env \<Rightarrow> string \<Rightarrow> bool \<Rightarrow> bool" where
  "ps_shared_path_valid E path optional =
     (if path = [] then optional
      else if list_ex (\<lambda>part. \<not> ps_top_k_identifier_valid E part) (split_on (CHR ''.'') path)
      then False else True)"

definition ps_shared_paths_valid :: "id_env \<Rightarrow> string list \<Rightarrow> bool" where
  "ps_shared_paths_valid E paths =
     (case go_each (\<lambda>seen path.
          if \<not> ps_shared_path_valid E path False \<or> path \<in> seen then None
          else Some (insert path seen)) {} paths of
        None \<Rightarrow> False | Some _ \<Rightarrow> True)"

lemma sorted_scan_iff:
  "sorted vs \<Longrightarrow> sorted_scan before vs \<longleftrightarrow>
     (\<forall>v\<in>set vs. 0 < v) \<and> distinct vs \<and> (\<forall>b v vs'. before = Some b \<longrightarrow> vs = v # vs' \<longrightarrow> v \<noteq> b)"
proof (induction vs arbitrary: before)
  case Nil
  then show ?case by simp
next
  case (Cons v vs)
  have le: "\<forall>w\<in>set vs. v \<le> w" and s: "sorted vs" using Cons.prems by simp_all
  have "v \<in> set vs \<longleftrightarrow> (\<exists>vs'. vs = v # vs')"
  proof
    assume m: "v \<in> set vs"
    then obtain w ws where w: "vs = w # ws" by (cases vs) auto
    with s m have "w \<le> v" by auto
    moreover from w le have "v \<le> w" by simp
    ultimately show "\<exists>vs'. vs = v # vs'" using w by simp
  qed auto
  with Cons.IH [OF s] show ?case by auto
qed

lemma unique_positive_iff: "unique_positive vs \<longleftrightarrow> (\<forall>v\<in>set vs. 0 < v) \<and> distinct vs"
  by (simp add: unique_positive_def sorted_scan_iff)

lemma ps_shared_positive_unique_iff:
  "ps_shared_positive_unique vs \<longleftrightarrow> vs \<noteq> [] \<and> (\<forall>v\<in>set vs. 0 < v) \<and> distinct vs"
  by (simp add: ps_shared_positive_unique_def unique_positive_iff)

lemma ps_shared_paths_valid_iff:
  "ps_shared_paths_valid E paths \<longleftrightarrow>
     list_all (\<lambda>p. ps_shared_path_valid E p False) paths \<and> distinct paths"
proof -
  have "go_each (\<lambda>seen path. if \<not> ps_shared_path_valid E path False \<or> path \<in> seen then None
          else Some (insert path seen)) {} paths =
    (if list_all (\<lambda>p. ps_shared_path_valid E p False) paths \<and> distinct (map id paths) \<and>
        id ` set paths \<inter> {} = {} then Some (id ` set paths \<union> {}) else None)"
    by (rule go_each_seen) simp
  then show ?thesis by (simp add: ps_shared_paths_valid_def)
qed

text \<open>Roles that must be the indices of an array, each used once: a permutation of them.\<close>

definition index_roles :: "int list \<Rightarrow> bool" where
  "index_roles roles =
     (case go_each (\<lambda>seen role.
          if role < 0 \<or> role \<ge> int (length roles) \<or> role \<in> seen then None
          else Some (insert role seen)) {} roles of
        None \<Rightarrow> False | Some _ \<Rightarrow> True)"

lemma index_roles_iff: "index_roles roles \<longleftrightarrow> mset roles = mset (map int [0..<length roles])"
proof -
  let ?n = "length roles"
  have e: "go_each (\<lambda>seen role. if role < 0 \<or> role \<ge> int ?n \<or> role \<in> seen then None
          else Some (insert role seen)) {} roles =
    (if list_all (\<lambda>r. 0 \<le> r \<and> r < int ?n) roles \<and> distinct (map id roles) \<and>
        id ` set roles \<inter> {} = {} then Some (id ` set roles \<union> {}) else None)"
    by (rule go_each_seen) auto
  have c: "card {0..<int ?n} = ?n" by simp
  have m: "set (map int [0..<?n]) = {0..<int ?n}"
    by (simp add: image_int_atLeastLessThan)
  show ?thesis
  proof
    assume "index_roles roles"
    with e have d: "distinct roles" and r: "set roles \<subseteq> {0..<int ?n}"
      by (auto simp: index_roles_def list_all_iff split: if_splits)
    from d have "card (set roles) = ?n" by (rule distinct_card)
    with r c have "set roles = {0..<int ?n}" by (metis card_subset_eq finite_atLeastLessThan_int)
    moreover have "distinct (map int [0..<?n])" by (simp add: distinct_map)
    ultimately show "mset roles = mset (map int [0..<?n])"
      using d m by (metis set_eq_iff_mset_eq_distinct)
  next
    assume q: "mset roles = mset (map int [0..<?n])"
    then have "set roles = {0..<int ?n}" using m by (metis set_mset_mset)
    moreover from q have "distinct roles"
      by (metis mset_eq_imp_distinct_iff distinct_map distinct_upt inj_on_of_nat)
    ultimately show "index_roles roles"
      using e by (simp add: index_roles_def list_all_iff)
  qed
qed

section \<open>Kinds of callables, targets and build tags\<close>

text \<open>
  The kinds are Go string types; their constants are written out. \<open>callable_kind_valid\<close> is
  the body shared by \<open>psStateExpandedCallableValid\<close>, \<open>psSharedCallableValid\<close> and
  \<open>psTypedFunctionIDValid\<close>.
\<close>

definition callable_kind_valid :: "id_env \<Rightarrow> string \<Rightarrow> string \<Rightarrow> bool" where
  "callable_kind_valid E i kind =
     (if kind = ''function'' then ps_top_k_function_id_valid E i
      else if kind = ''method'' then ps_top_k_method_id_valid E i
      else False)"

definition native_snapshot_callable_valid :: "id_env \<Rightarrow> string \<Rightarrow> string \<Rightarrow> bool \<Rightarrow> bool" where
  "native_snapshot_callable_valid E i kind allow_cgo =
     (if kind = ''function'' then ps_top_k_function_id_valid E i
      else if kind = ''method'' then ps_top_k_method_id_valid E i
      else if kind = ''cgo'' then
        allow_cgo \<and> has_prefix i ''C.'' \<and> ps_top_k_identifier_valid E (trim_prefix i ''C.'')
      else False)"

definition native_snapshot_field_valid :: "id_env \<Rightarrow> string \<Rightarrow> bool \<Rightarrow> bool" where
  "native_snapshot_field_valid E field optional =
     (optional \<and> field = [] \<or> ps_top_k_identifier_valid E field)"

definition ps_tiny_cgo_id_valid :: "id_env \<Rightarrow> string \<Rightarrow> bool" where
  "ps_tiny_cgo_id_valid E i =
     (has_prefix i ''C.'' \<and> ps_top_k_identifier_valid E (trim_prefix i ''C.''))"

definition ps_tiny_goos :: "string \<Rightarrow> bool" where
  "ps_tiny_goos value =
     (value \<in> set [''aix'', ''android'', ''darwin'', ''dragonfly'', ''freebsd'', ''illumos'', ''ios'',
        ''js'', ''linux'', ''netbsd'', ''openbsd'', ''plan9'', ''solaris'', ''wasip1'', ''windows''])"

definition ps_tiny_goarch :: "string \<Rightarrow> bool" where
  "ps_tiny_goarch value =
     (value \<in> set [''386'', ''amd64'', ''arm'', ''arm64'', ''loong64'', ''mips'', ''mips64'',
        ''mips64le'', ''mipsle'', ''ppc64'', ''ppc64le'', ''riscv64'', ''s390x'', ''wasm''])"

definition scheduler_tile_callable_package :: "string \<Rightarrow> string" where
  "scheduler_tile_callable_package i =
     (let ix = last_dot i in if ix \<le> 0 then [] else take (nat ix) i)"

definition tag_character :: "nat \<Rightarrow> bool" where
  "tag_character r =
     (r = 95 \<or> r = 46 \<or> 48 \<le> r \<and> r \<le> 57 \<or> 65 \<le> r \<and> r \<le> 90 \<or> 97 \<le> r \<and> r \<le> 122)"

definition scheduler_tile_build_tags_valid :: "string list \<Rightarrow> bool" where
  "scheduler_tile_build_tags_valid tags =
     (case go_each (\<lambda>seen tag.
          if tag = [] \<or> tag \<in> seen then None
          else if list_ex (\<lambda>r. \<not> tag_character r) (runes tag) then None
          else Some (insert tag seen)) {} tags of
        None \<Rightarrow> False | Some _ \<Rightarrow> True)"

definition all_contract_names_valid :: "id_env \<Rightarrow> string list \<Rightarrow> bool" where
  "all_contract_names_valid E names =
     (if list_ex (\<lambda>name. \<not> ps6109_callable_id_valid E name) names then False else True)"

text \<open>\<open>slices.Sort\<close> and \<open>strings.Join\<close> on build tags, and the searches for single bytes.\<close>

definition sort_tags :: "string list \<Rightarrow> string list" where
  "sort_tags tags = stable_sort str_compare tags"

definition join_tags :: "string list \<Rightarrow> string" where
  "join_tags tags = join_with '','' tags"

definition has_control :: "string \<Rightarrow> bool" where
  "has_control s = list_ex rune_is_control (runes s)"

definition has_backslash :: "string \<Rightarrow> bool" where
  "has_backslash s = (CHR 0x5C \<in> set s)"

definition max_state_expanded_lookup_bytes :: int where
  "max_state_expanded_lookup_bytes = 8 * 2 ^ 20"

definition max_receiver_staging_bytes :: int where
  "max_receiver_staging_bytes = 64 * 2 ^ 20"

end
