(* ===== verification/Contracts_Lookup.thy ===== *)
theory Contracts_Lookup
  imports Contract_Ids
begin

text \<open>
  The contracts behind PS6085 (state-expanded lookup tables) and PS6081 (shared fan-out) of
  \<open>config/config.go\<close>: one record per struct, one \<open>*_valid\<close> function per method \<open>Valid\<close>.
\<close>

record state_expanded_lookup_contract =
  sx_name :: string
  sx_owner_site :: string
  sx_owner_kind :: string
  sx_table_object :: string
  sx_max_state_cardinality :: int
  sx_max_expanded_bytes :: int
  sx_hot_path_evidence :: bool
  sx_table_immutable_after_initialization :: bool
  sx_initialization_reproduces_exact_dtype :: bool
  sx_initialization_order_validation_required :: bool
  sx_cache_footprint_review_required :: bool
  sx_exact_output_validation_required :: bool
  sx_paired_benchmark_required :: bool

definition state_expanded_lookup_contract_valid :: "id_env \<Rightarrow> state_expanded_lookup_contract \<Rightarrow> bool" where
  "state_expanded_lookup_contract_valid E c =
    (if sx_name c = [] \<or> trim_space (sx_name c) \<noteq> sx_name c \<or>
        has_control (sx_name c) \<or>
        \<not> callable_kind_valid E (sx_owner_site c) (sx_owner_kind c) \<or>
        \<not> ps_top_k_function_id_valid E (sx_table_object c) \<or>
        sx_max_state_cardinality c < 2 \<or> sx_max_state_cardinality c > 8 \<or>
        sx_max_expanded_bytes c \<le> 0 \<or>
        sx_max_expanded_bytes c > max_state_expanded_lookup_bytes
     then False
     else sx_hot_path_evidence c \<and> sx_table_immutable_after_initialization c \<and>
     sx_initialization_reproduces_exact_dtype c \<and>
     sx_initialization_order_validation_required c \<and>
     sx_cache_footprint_review_required c \<and> sx_exact_output_validation_required c \<and>
     sx_paired_benchmark_required c)"

record shared_fan_out_callable =
  sfg_callable :: string
  sfg_kind :: string

record shared_fan_out_route_step =
  sfr_callable :: string
  sfr_kind :: string
  sfr_domain_arguments :: "int list"
  sfr_work_argument :: int
  sfr_callback_argument :: int

record shared_fan_out_producer =
  sfp_callable :: string
  sfp_kind :: string
  sfp_receiver_path :: string
  sfp_input_argument :: int
  sfp_weight_argument :: int
  sfp_weight_receiver_field :: string
  sfp_metadata_arguments :: "int list"
  sfp_metadata_receiver_fields :: "string list"
  sfp_domain_arguments :: "int list"
  sfp_domain_receiver_fields :: "string list"
  sfp_work_argument :: int
  sfp_work_receiver_field :: string
  sfp_data_result :: int
  sfp_error_result :: int
  sfp_route :: "shared_fan_out_route_step list"

record shared_fan_out_consumer =
  sfc_callable :: string
  sfc_kind :: string
  sfc_result_mode :: string
  sfc_receiver_path :: string
  sfc_operand_arguments :: "int list"
  sfc_collection_argument :: int
  sfc_collection_indexes :: "int list"
  sfc_result_collection_indexes :: "int list"
  sfc_operation_argument :: int
  sfc_operation_constant :: string
  sfc_operation_constant_value :: string
  sfc_data_result :: int
  sfc_error_result :: int

definition shared_fan_out_consumer_valid :: "id_env \<Rightarrow> shared_fan_out_consumer \<Rightarrow> bool" where
  "shared_fan_out_consumer_valid E c =
    (let constant_absent = sfc_operation_argument c = 0 \<and>
                           sfc_operation_constant c = [] \<and>
                           sfc_operation_constant_value c = [] in
     let constant_present = sfc_operation_argument c > 0 \<and>
                            ps_top_k_function_id_valid E (sfc_operation_constant c) \<and>
                            sfc_operation_constant_value c \<noteq> [] \<and>
                            trim_space (sfc_operation_constant_value c) =
                                sfc_operation_constant_value c in
     let collection_absent = sfc_collection_argument c = 0 \<and> sfc_collection_indexes c = [] in
     let collection_present = sfc_collection_argument c > 0 \<and>
                              ps_shared_positive_unique (sfc_collection_indexes c) in
     let operands_valid = sfc_operand_arguments c \<noteq> [] \<and> collection_absent \<or>
                          sfc_operand_arguments c = [] \<and> collection_present in
     let callable_role_valid = sfc_kind c \<noteq> ''function'' \<or> sfc_receiver_path c = [] in
     let operation_role_valid = sfc_operation_argument c = 0 \<or>
                                (sfc_operation_argument c \<noteq> sfc_collection_argument c \<and>
                                 \<not> sfc_operation_argument c \<in> set (sfc_operand_arguments c)) in
     let results_valid = False in
     let results_valid = (if sfc_result_mode c = ''data-error''
         then sfc_data_result c > 0 \<and> sfc_error_result c > 0 \<and>
              sfc_data_result c \<noteq> sfc_error_result c \<and>
              sfc_result_collection_indexes c = []
         else if sfc_result_mode c = ''collection-error''
         then sfc_data_result c > 0 \<and> sfc_error_result c > 0 \<and>
              sfc_data_result c \<noteq> sfc_error_result c \<and>
              ps_shared_positive_unique (sfc_result_collection_indexes c)
         else if sfc_result_mode c = ''bool-condition'' \<or> sfc_result_mode c = ''direct-return''
         then sfc_data_result c = 0 \<and> sfc_error_result c = 0 \<and>
              sfc_result_collection_indexes c = []
         else results_valid) in
     callable_kind_valid E (sfc_callable c) (sfc_kind c) \<and> callable_role_valid \<and>
     operation_role_valid \<and> ps_shared_path_valid E (sfc_receiver_path c) True \<and>
     ps_shared_positions_valid (sfc_operand_arguments c) \<and>
     (constant_absent \<or> constant_present) \<and> operands_valid \<and> results_valid)"

record shared_fan_out_contract =
  sf_name :: string
  sf_owner_site :: string
  sf_owner_kind :: string
  sf_producers :: "shared_fan_out_producer list"
  sf_fan_out_helper :: string
  sf_fan_out_helper_kind :: string
  sf_fan_out_domain_arguments :: "int list"
  sf_fan_out_work_argument :: int
  sf_fan_out_callback_argument :: int
  sf_transform_consumers :: "shared_fan_out_consumer list"
  sf_composite_consumer :: shared_fan_out_consumer
  sf_final_consumer :: shared_fan_out_consumer
  sf_alternate_consumers :: "shared_fan_out_consumer list"
  sf_allowed_eligibility_guards :: "shared_fan_out_callable list"
  sf_inputs_immutable :: bool
  sf_weights_immutable :: bool
  sf_producers_side_effect_free :: bool
  sf_fresh_owned_nonescaping_outputs :: bool
  sf_disjoint_writes :: bool
  sf_synchronous_completion :: bool
  sf_composite_meaning_preserved :: bool
  sf_error_parity :: bool
  sf_panic_parity :: bool
  sf_backend_selection_parity :: bool
  sf_fallback_parity :: bool
  sf_exact_shape_compatibility :: bool
  sf_exact_dtype_compatibility :: bool
  sf_exact_backend_compatibility :: bool
  sf_exact_fan_out_domain_mapping :: bool
  sf_exact_output_validation_required :: bool
  sf_odd_tail_validation_required :: bool
  sf_paired_benchmark_required :: bool

definition shared_fan_out_contract_valid :: "id_env \<Rightarrow> shared_fan_out_contract \<Rightarrow> bool" where
  "shared_fan_out_contract_valid E c =
    (if sf_name c = [] \<or> trim_space (sf_name c) \<noteq> sf_name c \<or>
        sf_owner_kind c \<noteq> ''method'' \<or>
        \<not> callable_kind_valid E (sf_owner_site c) (sf_owner_kind c) \<or>
        \<not> callable_kind_valid E (sf_fan_out_helper c) (sf_fan_out_helper_kind c) \<or>
        int (length (sf_producers c)) \<noteq> 2 \<or> sf_transform_consumers c = [] \<or>
        sf_alternate_consumers c = [] \<or> sf_fan_out_work_argument c \<le> 0 \<or>
        sf_fan_out_callback_argument c \<le> 0 \<or>
        sf_fan_out_callback_argument c = sf_fan_out_work_argument c \<or>
        sf_fan_out_callback_argument c \<in> set (sf_fan_out_domain_arguments c) \<or>
        \<not> ps_shared_positive_unique (sf_fan_out_domain_arguments c) \<or>
        \<not> sf_inputs_immutable c \<or> \<not> sf_weights_immutable c \<or>
        \<not> sf_producers_side_effect_free c \<or>
        \<not> sf_fresh_owned_nonescaping_outputs c \<or> \<not> sf_disjoint_writes c \<or>
        \<not> sf_synchronous_completion c \<or> \<not> sf_composite_meaning_preserved c \<or>
        \<not> sf_error_parity c \<or> \<not> sf_panic_parity c \<or>
        \<not> sf_backend_selection_parity c \<or> \<not> sf_fallback_parity c \<or>
        \<not> sf_exact_shape_compatibility c \<or> \<not> sf_exact_dtype_compatibility c \<or>
        \<not> sf_exact_backend_compatibility c \<or>
        \<not> sf_exact_fan_out_domain_mapping c \<or>
        \<not> sf_exact_output_validation_required c \<or>
        \<not> sf_odd_tail_validation_required c \<or> \<not> sf_paired_benchmark_required c
     then False
     else case go_each (\<lambda>seen producer.
           let claim = sfp_callable producer @ [CHR 0x00] @ sfp_kind producer @ [CHR 0x00] @
               sfp_receiver_path producer in
           let function_roles = sfp_kind producer = ''function'' \<and>
                                sfp_receiver_path producer = [] \<and>
                                sfp_weight_argument producer > 0 \<and>
                                sfp_weight_receiver_field producer = [] \<and>
                                sfp_metadata_receiver_fields producer = [] \<and>
                                sfp_domain_receiver_fields producer = [] \<and>
                                sfp_work_argument producer > 0 \<and>
                                sfp_work_receiver_field producer = [] in
           let method_roles = sfp_kind producer = ''method'' \<and>
                              sfp_weight_argument producer = 0 \<and>
                              sfp_weight_receiver_field producer \<noteq> [] \<and>
                              sfp_work_argument producer = 0 \<and>
                              sfp_work_receiver_field producer \<noteq> [] in
           let position_conflict = sfp_input_argument producer = sfp_weight_argument producer \<or>
                                   sfp_input_argument producer = sfp_work_argument producer \<or>
                                   (sfp_weight_argument producer > 0 \<and>
                                    sfp_weight_argument producer = sfp_work_argument producer) \<or>
                                   sfp_input_argument producer \<in> set (sfp_domain_arguments producer) \<or>
                                   sfp_weight_argument producer \<in> set (sfp_domain_arguments producer) in
           let receiver_type_conflict = sfp_kind producer = ''method'' \<and>
                                        (sfp_weight_receiver_field producer =
                                            sfp_work_receiver_field producer \<or>
                                         sfp_weight_receiver_field producer \<in> set (sfp_domain_receiver_fields producer)) in
           if \<not> callable_kind_valid E (sfp_callable producer) (sfp_kind producer) \<or>
              claim \<in> seen \<or> sfp_input_argument producer \<le> 0 \<or>
              \<not> function_roles \<and> \<not> method_roles \<or> position_conflict \<or>
              receiver_type_conflict \<or>
              (sfp_weight_argument producer > 0) = (sfp_weight_receiver_field producer \<noteq> []) \<or>
              (sfp_work_argument producer > 0) = (sfp_work_receiver_field producer \<noteq> []) \<or>
              sfp_data_result producer \<le> 0 \<or> sfp_error_result producer \<le> 0 \<or>
              sfp_data_result producer = sfp_error_result producer \<or>
              \<not> ps_shared_path_valid E (sfp_receiver_path producer) True \<or>
              \<not> ps_shared_path_valid E (sfp_weight_receiver_field producer) True \<or>
              \<not> ps_shared_positions_valid (sfp_metadata_arguments producer) \<or>
              \<not> ps_shared_paths_valid E (sfp_metadata_receiver_fields producer) \<or>
              int (length (sfp_domain_arguments producer)) + int (length (sfp_domain_receiver_fields producer)) = 0 \<or>
              \<not> ps_shared_positions_valid (sfp_domain_arguments producer) \<or>
              \<not> ps_shared_paths_valid E (sfp_domain_receiver_fields producer) \<or>
              \<not> ps_shared_path_valid E (sfp_work_receiver_field producer) True \<or>
              sfp_route producer = []
           then None
           else let seen = insert claim seen in
           if list_ex (\<lambda>(route_index, step). let is_last = int route_index =
               int (length (sfp_route producer)) - 1 in
                 \<not> callable_kind_valid E (sfr_callable step) (sfr_kind step) \<or>
                 \<not> ps_shared_positive_unique (sfr_domain_arguments step) \<or>
                 sfr_work_argument step \<le> 0 \<or>
                 is_last \<noteq> (sfr_callable step = sf_fan_out_helper c \<and> sfr_kind step =
                     sf_fan_out_helper_kind c) \<or>
                 (is_last \<and>
                  (sfr_work_argument step \<noteq> sf_fan_out_work_argument c \<or>
                   sfr_callback_argument step \<noteq> sf_fan_out_callback_argument c \<or>
                   \<not> sfr_domain_arguments step = sf_fan_out_domain_arguments c)) \<or>
                 \<not> is_last \<and> sfr_callback_argument step \<noteq> 0) (enumerate 0 (sfp_route producer))
           then None
           else Some seen) {} (sf_producers c) of
       None \<Rightarrow> False
     | Some seen \<Rightarrow>
         if int (length (sfp_metadata_arguments ((sf_producers c) ! 0))) \<noteq>
             int (length (sfp_metadata_arguments ((sf_producers c) ! 1))) \<or>
            int (length (sfp_domain_arguments ((sf_producers c) ! 0))) \<noteq>
                int (length (sfp_domain_arguments ((sf_producers c) ! 1))) \<or>
            sfp_weight_receiver_field ((sf_producers c) ! 0) \<noteq>
                sfp_weight_receiver_field ((sf_producers c) ! 1) \<or>
            sfp_work_receiver_field ((sf_producers c) ! 0) \<noteq>
                sfp_work_receiver_field ((sf_producers c) ! 1) \<or>
            \<not> sfp_metadata_receiver_fields ((sf_producers c) ! 0) =
                sfp_metadata_receiver_fields ((sf_producers c) ! 1) \<or>
            \<not> sfp_domain_receiver_fields ((sf_producers c) ! 0) =
                sfp_domain_receiver_fields ((sf_producers c) ! 1)
         then False
         else case go_each (\<lambda>seen_transforms consumer.
               let direct = int (length (sfc_operand_arguments consumer)) = 1 \<and>
                            sfc_collection_argument consumer = 0 in
               let collection = sfc_operand_arguments consumer = [] \<and>
                                int (length (sfc_collection_indexes consumer)) = 1 in
               let key = sfc_callable consumer @ [CHR 0x00] @ sfc_kind consumer in
               let mode_supported = sfc_result_mode consumer = ''data-error'' \<or>
                                    sfc_result_mode consumer = ''collection-error'' in
               if \<not> shared_fan_out_consumer_valid E consumer \<or>
                  \<not> mode_supported \<or> \<not> direct \<and> \<not> collection \<or>
                  key \<in> seen_transforms
               then None
               else Some (insert key seen_transforms)) {} (sf_transform_consumers c) of
           None \<Rightarrow> False
         | Some seen_transforms \<Rightarrow>
             let composite_direct = int (length (sfc_operand_arguments (sf_composite_consumer c))) = 2 \<and>
                                    sfc_collection_argument (sf_composite_consumer c) = 0 in
             let composite_collection = sfc_operand_arguments (sf_composite_consumer c) = [] \<and>
                                        int (length (sfc_collection_indexes (sf_composite_consumer c))) = 2 in
             let final_direct = int (length (sfc_operand_arguments (sf_final_consumer c))) = 1 \<and>
                                sfc_collection_argument (sf_final_consumer c) = 0 in
             let final_collection = sfc_operand_arguments (sf_final_consumer c) = [] \<and>
                                    int (length (sfc_collection_indexes (sf_final_consumer c))) = 1 in
             let composite_mode_supported = sfc_result_mode (sf_composite_consumer c) = ''data-error'' \<or>
                                            sfc_result_mode (sf_composite_consumer c) =
                                                ''collection-error'' in
             if \<not> shared_fan_out_consumer_valid E (sf_composite_consumer c) \<or>
                \<not> composite_mode_supported \<or>
                \<not> composite_direct \<and> \<not> composite_collection \<or>
                \<not> shared_fan_out_consumer_valid E (sf_final_consumer c) \<or>
                sfc_result_mode (sf_final_consumer c) \<noteq> ''direct-return'' \<or>
                \<not> final_direct \<and> \<not> final_collection
             then False
             else case go_each (\<lambda>seen_alternates consumer.
                   let direct = int (length (sfc_operand_arguments consumer)) = 2 \<and>
                                sfc_collection_argument consumer = 0 in
                   let collection = sfc_operand_arguments consumer = [] \<and>
                                    int (length (sfc_collection_indexes consumer)) = 2 in
                   let key = sfc_callable consumer @ [CHR 0x00] @ sfc_kind consumer @ [CHR 0x00] @
                       sfc_receiver_path consumer in
                   if \<not> shared_fan_out_consumer_valid E consumer \<or>
                      sfc_result_mode consumer \<noteq> ''bool-condition'' \<or>
                      \<not> direct \<and> \<not> collection \<or> key \<in> seen_alternates
                   then None
                   else Some (insert key seen_alternates)) {} (sf_alternate_consumers c) of
               None \<Rightarrow> False
             | Some seen_alternates \<Rightarrow>
                 let composite_key = sfc_callable (sf_composite_consumer c) @ [CHR 0x00] @
                     sfc_kind (sf_composite_consumer c) @ [CHR 0x00] @
                     sfc_receiver_path (sf_composite_consumer c) in
                 let final_key = sfc_callable (sf_final_consumer c) @ [CHR 0x00] @
                     sfc_kind (sf_final_consumer c) @ [CHR 0x00] @
                     sfc_receiver_path (sf_final_consumer c) in
                 if composite_key \<in> seen \<or> final_key \<in> seen \<or>
                    composite_key = final_key
                 then False
                 else if list_ex (\<lambda>alternate. let alternate_key = sfc_callable alternate @
                     [CHR 0x00] @ sfc_kind alternate @ [CHR 0x00] @ sfc_receiver_path alternate in
                       alternate_key \<in> seen \<or> alternate_key = composite_key \<or>
                       alternate_key = final_key) (sf_alternate_consumers c)
                 then False
                 else let has_representable_transform = False in
                 let has_representable_transform = list_ex (\<lambda>transform. let transform_key =
                     sfc_callable transform @ [CHR 0x00] @ sfc_kind transform @ [CHR 0x00] @
                     sfc_receiver_path transform in
                       \<not> transform_key \<in> seen \<and>
                       transform_key \<noteq> final_key \<and>
                       \<not> transform_key \<in> seen_alternates) (sf_transform_consumers c) in
                 if \<not> has_representable_transform
                 then False
                 else case go_each (\<lambda>seen_guards guard.
                       let key = sfg_callable guard @ [CHR 0x00] @ sfg_kind guard in
                       if \<not> callable_kind_valid E (sfg_callable guard) (sfg_kind guard) \<or>
                          key \<in> seen_guards
                       then None
                       else Some (insert key seen_guards)) {} (sf_allowed_eligibility_guards c) of
                   None \<Rightarrow> False
                 | Some seen_guards \<Rightarrow>
                     True)"

end
