(* ===== verification/Contracts_Accelerator.thy ===== *)
theory Contracts_Accelerator
  imports Contract_Ids
begin

text \<open>
  The accelerator contracts of \<open>config/config.go\<close>: PS6116 (forward/loss/backward graphs),
  PS6117 (fragmented objectives), PS6120 (resident codebooks), PS6118 (cross-step residency),
  PS6119 (resident weights) and PS6115 (tiny synchronous screens).
\<close>

record forward_loss_backward_graph_contract =
  fl_name :: string
  fl_objective_site :: string
  fl_recorder_factory_callable :: string
  fl_recorder_binding_callable :: string
  fl_forward_callable :: string
  fl_loss_callable :: string
  fl_backward_callable :: string
  fl_parameter_order_callable :: string
  fl_gradient_callable :: string
  fl_recorder_factory_backend_argument :: int
  fl_recorder_binding_argument :: int
  fl_forward_recorder_argument :: int
  fl_loss_recorder_argument :: int
  fl_loss_forward_argument :: int
  fl_backward_loss_argument :: int
  fl_gradient_parameter_argument :: int
  fl_loss_reduction_argument :: int
  fl_loss_reduction_constant :: string
  fl_loss_reduction_constant_value :: string
  fl_configured_geometry :: string
  fl_configured_gradient_count :: int
  fl_configured_current_submission_count :: int
  fl_configured_candidate_submissions :: int
  fl_max_cache_entries :: int
  fl_configured_evidence :: string
  fl_existing_whole_objective_capability :: bool
  fl_intentional_multi_submission_route :: bool
  fl_recreates_forward_work :: bool
  fl_stable_geometry :: bool
  fl_exact_scalar_loss_reduction :: bool
  fl_stable_complete_gradient_order :: bool
  fl_private_recorder_ownership :: bool
  fl_custom_hooks_excluded :: bool
  fl_mutation_excluded :: bool
  fl_dtype_layout_backend_constrained :: bool
  fl_cache_key_covers_geometry :: bool
  fl_cache_key_covers_dtype_layout_objective :: bool
  fl_bounded_cache :: bool
  fl_portable_fallback_preserved :: bool
  fl_forward_parity :: bool
  fl_scalar_loss_parity :: bool
  fl_all_gradient_parity :: bool
  fl_input_and_parameter_immutability :: bool
  fl_error_and_panic_parity :: bool
  fl_recorder_isolation :: bool
  fl_per_operation_and_layer_routes_excluded :: bool
  fl_private_tape_preserves_backend_routes :: bool
  fl_backend_selection_parity :: bool
  fl_paired_numerical_validation_required :: bool
  fl_paired_end_to_end_validation_required :: bool

definition forward_loss_backward_graph_contract_valid :: "id_env \<Rightarrow> forward_loss_backward_graph_contract \<Rightarrow> bool" where
  "forward_loss_backward_graph_contract_valid E c =
    (let callables = [fl_objective_site c, fl_recorder_factory_callable c,
         fl_recorder_binding_callable c, fl_forward_callable c, fl_loss_callable c,
         fl_backward_callable c, fl_parameter_order_callable c, fl_gradient_callable c] in
     case go_each (\<lambda>seen callable.
           if \<not> ps6109_callable_id_valid E callable \<or> callable \<in> seen
           then None
           else Some (insert callable seen)) {} callables of
       None \<Rightarrow> False
     | Some seen \<Rightarrow>
         let reduction_absent = fl_loss_reduction_argument c = 0 \<and>
                                fl_loss_reduction_constant c = [] \<and>
                                fl_loss_reduction_constant_value c = [] in
         let reduction_present = fl_loss_reduction_argument c > 0 \<and>
                                 ps_top_k_function_id_valid E (fl_loss_reduction_constant c) \<and>
                                 fl_loss_reduction_constant_value c \<noteq> [] \<and>
                                 trim_space (fl_loss_reduction_constant_value c) =
                                     fl_loss_reduction_constant_value c in
         if fl_name c = [] \<or> trim_space (fl_name c) \<noteq> fl_name c \<or>
            fl_configured_geometry c = [] \<or>
            trim_space (fl_configured_geometry c) \<noteq> fl_configured_geometry c \<or>
            fl_configured_evidence c = [] \<or>
            trim_space (fl_configured_evidence c) \<noteq> fl_configured_evidence c \<or>
            fl_recorder_factory_backend_argument c \<le> 0 \<or>
            fl_recorder_binding_argument c \<le> 0 \<or>
            fl_forward_recorder_argument c \<le> 0 \<or>
            fl_loss_recorder_argument c \<le> 0 \<or> fl_loss_forward_argument c \<le> 0 \<or>
            fl_backward_loss_argument c \<le> 0 \<or>
            fl_gradient_parameter_argument c \<le> 0 \<or>
            \<not> reduction_absent \<and> \<not> reduction_present \<or>
            fl_configured_gradient_count c \<le> 0 \<or>
            fl_configured_current_submission_count c < 2 \<or>
            fl_configured_candidate_submissions c \<noteq> 1 \<or>
            fl_max_cache_entries c \<le> 0
         then False
         else fl_recreates_forward_work c \<and> fl_stable_geometry c \<and>
         fl_exact_scalar_loss_reduction c \<and> fl_stable_complete_gradient_order c \<and>
         fl_private_recorder_ownership c \<and> fl_custom_hooks_excluded c \<and>
         fl_mutation_excluded c \<and> fl_dtype_layout_backend_constrained c \<and>
         fl_cache_key_covers_geometry c \<and>
         fl_cache_key_covers_dtype_layout_objective c \<and> fl_bounded_cache c \<and>
         fl_portable_fallback_preserved c \<and> fl_forward_parity c \<and>
         fl_scalar_loss_parity c \<and> fl_all_gradient_parity c \<and>
         fl_input_and_parameter_immutability c \<and> fl_error_and_panic_parity c \<and>
         fl_recorder_isolation c \<and> fl_per_operation_and_layer_routes_excluded c \<and>
         fl_private_tape_preserves_backend_routes c \<and> fl_backend_selection_parity c \<and>
         fl_paired_numerical_validation_required c \<and>
         fl_paired_end_to_end_validation_required c)"

record fragmented_accelerator_objective_call =
  frc_configured_site :: string
  frc_accelerator_callable :: string
  frc_operation_argument :: int
  frc_operation_constant :: string
  frc_operation_constant_value :: string
  frc_expected_occurrences :: int

record fragmented_accelerator_objective_contract =
  fr_name :: string
  fr_objective_site :: string
  fr_calls :: "fragmented_accelerator_objective_call list"
  fr_configured_accelerator_call_count :: int
  fr_configured_synchronous_boundary_count :: int
  fr_candidate_submission_count :: int
  fr_scalar_objective_result :: int
  fr_parameter_gradients_result :: int
  fr_error_result :: int
  fr_geometry_cache_key :: string
  fr_configured_evidence :: string
  fr_existing_whole_objective_route :: bool
  fr_intentional_retained_fragmented_route :: bool
  fr_complete_forward_loss_reverse_mode :: bool
  fr_stable_objective_geometry :: bool
  fr_geometry_cache_key_complete :: bool
  fr_cache_reused_across_objectives :: bool
  fr_each_accelerator_call_submits :: bool
  fr_each_accelerator_call_synchronizes_before_return :: bool
  fr_candidate_returns_scalar_and_all_parameter_gradients :: bool
  fr_no_other_materialized_results :: bool
  fr_no_dynamic_dispatch :: bool
  fr_no_custom_hooks :: bool
  fr_inputs_and_parameters_immutable :: bool
  fr_outputs_do_not_alias_inputs :: bool
  fr_no_preexisting_device_residency :: bool
  fr_no_post_objective_device_residency :: bool
  fr_exact_dtype_layout_attributes_reduction :: bool
  fr_floating_point_parity_required :: bool
  fr_error_panic_parity_required :: bool
  fr_recorder_autograd_backend_parity_required :: bool
  fr_per_operation_backend_route_preservation_required :: bool
  fr_true_causal_mask_semantics_required :: bool
  fr_paired_application_benchmark_required :: bool
  fr_numerical_validation_required :: bool
  fr_shape_aware_embedding_gradient_validation_required :: bool
  fr_repeated_index_gradient_parity_required :: bool
  fr_scatter_nd_not_assumed_faster :: bool

definition fragmented_accelerator_objective_contract_valid :: "id_env \<Rightarrow> fragmented_accelerator_objective_contract \<Rightarrow> bool" where
  "fragmented_accelerator_objective_contract_valid E c =
    (if fr_name c = [] \<or> trim_space (fr_name c) \<noteq> fr_name c \<or>
        \<not> ps6109_callable_id_valid E (fr_objective_site c) \<or>
        int (length (fr_calls c)) < 2 \<or> fr_configured_accelerator_call_count c < 4 \<or>
        fr_configured_synchronous_boundary_count c \<noteq> fr_configured_accelerator_call_count c \<or>
        fr_candidate_submission_count c \<noteq> 1 \<or>
        fr_scalar_objective_result c \<le> 0 \<or> fr_parameter_gradients_result c \<le> 0 \<or>
        fr_error_result c \<le> 0 \<or>
        fr_scalar_objective_result c = fr_parameter_gradients_result c \<or>
        fr_scalar_objective_result c = fr_error_result c \<or>
        fr_parameter_gradients_result c = fr_error_result c \<or>
        fr_geometry_cache_key c = [] \<or>
        trim_space (fr_geometry_cache_key c) \<noteq> fr_geometry_cache_key c \<or>
        fr_configured_evidence c = [] \<or>
        trim_space (fr_configured_evidence c) \<noteq> fr_configured_evidence c
     then False
     else let total = 0 in
     case go_each (\<lambda>(seen, total) call.
           let operation_absent = frc_operation_argument call = 0 \<and>
                                  frc_operation_constant call = [] \<and>
                                  frc_operation_constant_value call = [] in
           let operation_present = frc_operation_argument call > 0 \<and>
                                   ps_top_k_function_id_valid E (frc_operation_constant call) \<and>
                                   frc_operation_constant_value call \<noteq> [] \<and>
                                   trim_space (frc_operation_constant_value call) =
                                       frc_operation_constant_value call in
           let key = frc_configured_site call @ [CHR 0x00] @ frc_accelerator_callable call @
               [CHR 0x00] @ frc_operation_constant call in
           if \<not> ps6109_callable_id_valid E (frc_configured_site call) \<or>
              \<not> ps6109_callable_id_valid E (frc_accelerator_callable call) \<or>
              frc_expected_occurrences call \<le> 0 \<or>
              \<not> operation_absent \<and> \<not> operation_present \<or> key \<in> seen
           then None
           else let seen = insert key seen in
           let total = wrap64 (total + frc_expected_occurrences call) in
           Some (seen, total)) ({}, total) (fr_calls c) of
       None \<Rightarrow> False
     | Some (seen, total) \<Rightarrow>
         if total \<noteq> fr_configured_accelerator_call_count c
         then False
         else fr_complete_forward_loss_reverse_mode c \<and> fr_stable_objective_geometry c \<and>
         fr_geometry_cache_key_complete c \<and> fr_cache_reused_across_objectives c \<and>
         fr_each_accelerator_call_submits c \<and>
         fr_each_accelerator_call_synchronizes_before_return c \<and>
         fr_candidate_returns_scalar_and_all_parameter_gradients c \<and>
         fr_no_other_materialized_results c \<and> fr_no_dynamic_dispatch c \<and>
         fr_no_custom_hooks c \<and> fr_inputs_and_parameters_immutable c \<and>
         fr_outputs_do_not_alias_inputs c \<and> fr_no_preexisting_device_residency c \<and>
         fr_no_post_objective_device_residency c \<and>
         fr_exact_dtype_layout_attributes_reduction c \<and>
         fr_floating_point_parity_required c \<and> fr_error_panic_parity_required c \<and>
         fr_recorder_autograd_backend_parity_required c \<and>
         fr_per_operation_backend_route_preservation_required c \<and>
         fr_true_causal_mask_semantics_required c \<and>
         fr_paired_application_benchmark_required c \<and>
         fr_numerical_validation_required c \<and>
         fr_shape_aware_embedding_gradient_validation_required c \<and>
         fr_repeated_index_gradient_parity_required c \<and> fr_scatter_nd_not_assumed_faster c)"

record resident_codebook_contract =
  rc_name :: string
  rc_configured_site :: string
  rc_producer_callable :: string
  rc_upload_callable :: string
  rc_dispatch_callable :: string
  rc_upload_data_argument :: int
  rc_dispatch_buffer_argument :: int
  rc_wide_element_bytes :: int
  rc_packed_bits_per_symbol :: int
  rc_symbol_count :: int
  rc_distinct_value_count :: int
  rc_row_count :: int
  rc_symbols_per_packed_word :: int
  rc_packed_word_bits :: int
  rc_max_codebook_bytes :: int
  rc_configured_evidence :: string
  rc_native_boundary_evidence :: string
  rc_producer_returns_fresh_wide_codebook :: bool
  rc_producer_exact_and_invariant :: bool
  rc_upload_copies_synchronously :: bool
  rc_upload_does_not_retain_host_slice :: bool
  rc_device_buffer_immutable_during_dispatch :: bool
  rc_host_packing_matches_native_decode :: bool
  rc_native_decode_exact_and_cheap :: bool
  rc_paired_resident_and_host_benchmark_required :: bool
  rc_numerical_parity_required :: bool
  rc_lifetime_and_synchronization_validation_required :: bool

definition resident_codebook_contract_valid :: "id_env \<Rightarrow> resident_codebook_contract \<Rightarrow> bool" where
  "resident_codebook_contract_valid E c =
    (let producer = rc_producer_callable c = [] \<or>
                    ps6109_callable_id_valid E (rc_producer_callable c) in
     producer \<and> rc_name c \<noteq> [] \<and> trim_space (rc_name c) = rc_name c \<and>
     ps6109_callable_id_valid E (rc_configured_site c) \<and>
     ps6109_callable_id_valid E (rc_upload_callable c) \<and>
     ps6109_callable_id_valid E (rc_dispatch_callable c) \<and>
     rc_upload_callable c \<noteq> rc_dispatch_callable c \<and>
     rc_upload_data_argument c > 0 \<and> rc_dispatch_buffer_argument c > 0 \<and>
     (rc_wide_element_bytes c = 4 \<or> rc_wide_element_bytes c = 8) \<and>
     rc_packed_bits_per_symbol c > 0 \<and> rc_packed_bits_per_symbol c \<le> 16 \<and>
     rc_packed_bits_per_symbol c < wrap64 (8 * rc_wide_element_bytes c) \<and>
     rc_symbol_count c \<ge> 2 \<and> rc_distinct_value_count c \<ge> 2 \<and>
     rc_distinct_value_count c \<le> wrap64 (1 * 2 ^ (nat (rc_packed_bits_per_symbol c))) \<and>
     rc_row_count c \<ge> 1 \<and> rc_symbols_per_packed_word c \<ge> 1 \<and>
     rc_packed_word_bits c \<ge> 8 \<and> go_rem (rc_packed_word_bits c) 8 = 0 \<and>
     go_rem (rc_symbol_count c) (rc_symbols_per_packed_word c) = 0 \<and>
     rc_row_count c = go_quo (rc_symbol_count c) (rc_symbols_per_packed_word c) \<and>
     rc_symbols_per_packed_word c \<le> go_quo (rc_packed_word_bits c) (rc_packed_bits_per_symbol c) \<and>
     rc_row_count c \<le> go_quo (wrap64 (rc_max_codebook_bytes c * 8)) (rc_packed_word_bits c) \<and>
     rc_max_codebook_bytes c > 0 \<and> rc_max_codebook_bytes c \<le> 64 * 2 ^ 10 \<and>
     rc_configured_evidence c \<noteq> [] \<and>
     trim_space (rc_configured_evidence c) = rc_configured_evidence c \<and>
     rc_native_boundary_evidence c \<noteq> [] \<and>
     trim_space (rc_native_boundary_evidence c) = rc_native_boundary_evidence c \<and>
     (rc_producer_callable c = [] \<or>
      rc_producer_returns_fresh_wide_codebook c \<and> rc_producer_exact_and_invariant c) \<and>
     rc_upload_copies_synchronously c \<and> rc_upload_does_not_retain_host_slice c \<and>
     rc_device_buffer_immutable_during_dispatch c \<and>
     rc_host_packing_matches_native_decode c \<and> rc_native_decode_exact_and_cheap c \<and>
     rc_paired_resident_and_host_benchmark_required c \<and>
     rc_numerical_parity_required c \<and> rc_lifetime_and_synchronization_validation_required c)"

record cross_step_accelerator_residency_contract =
  cs_name :: string
  cs_configured_site :: string
  cs_objective_callable :: string
  cs_optimizer_callable :: string
  cs_scalar_observer_callable :: string
  cs_objective_scalar_result :: int
  cs_objective_gradient_result :: int
  cs_objective_error_result :: int
  cs_optimizer_gradient_callback_argument :: int
  cs_optimizer_error_result :: int
  cs_scalar_observer_argument :: int
  cs_objective_error_control_flow :: string
  cs_optimizer_error_control_flow :: string
  cs_configured_loop_iterations :: int
  cs_configured_parameter_bytes :: int
  cs_configured_gradient_bytes :: int
  cs_configured_avoidable_bytes :: int
  cs_target_goos :: string
  cs_target_goarch :: string
  cs_memory_model :: string
  cs_configured_evidence :: string
  cs_existing_resident_session :: bool
  cs_intentional_host_optimizer :: bool
  cs_objective_receiver_owns_parameters :: bool
  cs_optimizer_receiver_owns_parameters :: bool
  cs_receiver_parameter_sets_identical :: bool
  cs_gradient_callback_maps_receiver_parameter :: bool
  cs_dense_gradient_per_parameter :: bool
  cs_stable_parameter_gradient_order :: bool
  cs_parameter_upload_every_step :: bool
  cs_gradient_host_materialized_every_step :: bool
  cs_host_optimizer_every_step :: bool
  cs_parameters_reuploaded_next_step :: bool
  cs_only_scalar_observed_between_steps :: bool
  cs_scalar_result_is_host_metric :: bool
  cs_scalar_observation_does_not_synchronize_state :: bool
  cs_no_intermediate_checkpoint_required :: bool
  cs_objective_and_optimizer_synchronous :: bool
  cs_objective_does_not_retain_arguments :: bool
  cs_optimizer_does_not_retain_arguments :: bool
  cs_no_custom_hooks :: bool
  cs_no_aliases_or_escapes :: bool
  cs_no_concurrent_session_access :: bool
  cs_resident_session_construction_serialized :: bool
  cs_device_storage_and_transfers_known :: bool
  cs_resident_session_opportunity_confirmed :: bool
  cs_exact_dtype_coverage :: bool
  cs_exact_layout_coverage :: bool
  cs_exact_optimizer_coverage :: bool
  cs_lifetime_parity :: bool
  cs_numerical_parity :: bool
  cs_checkpoint_parity :: bool
  cs_error_and_panic_parity :: bool
  cs_mutation_parity :: bool
  cs_ownership_parity :: bool
  cs_autograd_parity :: bool
  cs_backend_selection_parity :: bool
  cs_explicit_sync_required :: bool
  cs_explicit_checkpoint_required :: bool
  cs_paired_end_to_end_validation_required :: bool

definition cross_step_accelerator_residency_contract_valid :: "id_env \<Rightarrow> cross_step_accelerator_residency_contract \<Rightarrow> bool" where
  "cross_step_accelerator_residency_contract_valid E c =
    (let callables = cs_objective_callable c \<noteq> cs_optimizer_callable c \<and>
                     cs_objective_callable c \<noteq> cs_scalar_observer_callable c \<and>
                     cs_optimizer_callable c \<noteq> cs_scalar_observer_callable c in
     let positions = cs_objective_scalar_result c > 0 \<and>
                     cs_objective_scalar_result c \<le> 3 \<and>
                     cs_objective_gradient_result c > 0 \<and>
                     cs_objective_gradient_result c \<le> 3 \<and>
                     cs_objective_error_result c > 0 \<and>
                     cs_objective_error_result c \<le> 3 \<and>
                     cs_objective_scalar_result c \<noteq> cs_objective_gradient_result c \<and>
                     cs_objective_scalar_result c \<noteq> cs_objective_error_result c \<and>
                     cs_objective_gradient_result c \<noteq> cs_objective_error_result c \<and>
                     cs_optimizer_gradient_callback_argument c = 1 \<and>
                     cs_optimizer_error_result c = 1 \<and> cs_scalar_observer_argument c = 1 in
     let bytes_valid = cs_configured_parameter_bytes c > 0 \<and>
                       cs_configured_gradient_bytes c > 0 \<and>
                       cs_configured_parameter_bytes c \<le> wrap64 (2 ^ 63 - 1 - cs_configured_gradient_bytes c) \<and>
                       cs_configured_avoidable_bytes c =
                           wrap64 (cs_configured_parameter_bytes c + cs_configured_gradient_bytes c) \<and>
                       cs_configured_loop_iterations c \<le> go_quo (2 ^ 63 - 1) (cs_configured_avoidable_bytes c) in
     if cs_name c = [] \<or> trim_space (cs_name c) \<noteq> cs_name c \<or>
        \<not> ps6109_callable_id_valid E (cs_configured_site c) \<or>
        \<not> ps6109_callable_id_valid E (cs_objective_callable c) \<or>
        \<not> ps6109_callable_id_valid E (cs_optimizer_callable c) \<or>
        \<not> ps6109_callable_id_valid E (cs_scalar_observer_callable c) \<or>
        \<not> callables \<or> \<not> positions \<or>
        cs_objective_error_control_flow c \<noteq> ''return'' \<or>
        cs_optimizer_error_control_flow c \<noteq> ''return'' \<or>
        cs_configured_evidence c = [] \<or>
        trim_space (cs_configured_evidence c) \<noteq> cs_configured_evidence c \<or>
        cs_configured_loop_iterations c < 2 \<or> \<not> bytes_valid \<or>
        \<not> ps_tiny_goos (cs_target_goos c) \<or>
        \<not> ps_tiny_goarch (cs_target_goarch c) \<or>
        (cs_memory_model c \<noteq> ''unified'' \<and>
         cs_memory_model c \<noteq> ''shared'' \<and> cs_memory_model c \<noteq> ''discrete'')
     then False
     else cs_objective_receiver_owns_parameters c \<and>
     cs_optimizer_receiver_owns_parameters c \<and>
     cs_receiver_parameter_sets_identical c \<and>
     cs_gradient_callback_maps_receiver_parameter c \<and>
     cs_dense_gradient_per_parameter c \<and> cs_stable_parameter_gradient_order c \<and>
     cs_parameter_upload_every_step c \<and> cs_gradient_host_materialized_every_step c \<and>
     cs_host_optimizer_every_step c \<and> cs_parameters_reuploaded_next_step c \<and>
     cs_only_scalar_observed_between_steps c \<and> cs_scalar_result_is_host_metric c \<and>
     cs_scalar_observation_does_not_synchronize_state c \<and>
     cs_no_intermediate_checkpoint_required c \<and>
     cs_objective_and_optimizer_synchronous c \<and>
     cs_objective_does_not_retain_arguments c \<and>
     cs_optimizer_does_not_retain_arguments c \<and> cs_no_custom_hooks c \<and>
     cs_no_aliases_or_escapes c \<and> cs_no_concurrent_session_access c \<and>
     cs_resident_session_construction_serialized c \<and>
     cs_device_storage_and_transfers_known c \<and>
     cs_resident_session_opportunity_confirmed c \<and> cs_exact_dtype_coverage c \<and>
     cs_exact_layout_coverage c \<and> cs_exact_optimizer_coverage c \<and>
     cs_lifetime_parity c \<and> cs_numerical_parity c \<and> cs_checkpoint_parity c \<and>
     cs_error_and_panic_parity c \<and> cs_mutation_parity c \<and> cs_ownership_parity c \<and>
     cs_autograd_parity c \<and> cs_backend_selection_parity c \<and>
     cs_explicit_sync_required c \<and> cs_explicit_checkpoint_required c \<and>
     cs_paired_end_to_end_validation_required c)"

record resident_weight_benchmark_contract =
  rw_accelerator_callable :: string
  rw_weight_argument :: int
  rw_weight_receiver :: bool

definition resident_weight_benchmark_contract_valid :: "id_env \<Rightarrow> resident_weight_benchmark_contract \<Rightarrow> bool" where
  "resident_weight_benchmark_contract_valid E c =
    (ps6109_callable_id_valid E (rw_accelerator_callable c) \<and>
     (rw_weight_argument c > 0 \<and> \<not> rw_weight_receiver c \<or>
      rw_weight_argument c = 0 \<and> rw_weight_receiver c))"

record tiny_synchronous_accelerator_screen_call =
  tyc_configured_site :: string
  tyc_accelerator_callable :: string
  tyc_host_alternative_callable :: string
  tyc_rows_argument :: int
  tyc_columns_argument :: int
  tyc_operation_argument :: int
  tyc_operation_constant :: string
  tyc_operation_constant_value :: string

record tiny_synchronous_accelerator_screen_contract =
  ty_name :: string
  ty_calls :: "tiny_synchronous_accelerator_screen_call list"
  ty_configured_rows :: int
  ty_configured_columns :: int
  ty_configured_working_set_bytes :: int
  ty_max_elements :: int
  ty_max_working_set_bytes :: int
  ty_configured_submission_count :: int
  ty_target_goos :: string
  ty_target_goarch :: string
  ty_memory_model :: string
  ty_configured_evidence :: string
  ty_existing_measured_host_selector :: bool
  ty_intentional_retained_accelerator_route :: bool
  ty_blocking_completion :: bool
  ty_host_accessible_inputs :: bool
  ty_host_accessible_output :: bool
  ty_no_transfer_required :: bool
  ty_no_preexisting_device_residency :: bool
  ty_no_post_device_residency :: bool
  ty_no_graph_context :: bool
  ty_no_recorder_context :: bool
  ty_no_command_buffer_context :: bool
  ty_exact_dtype_coverage :: bool
  ty_exact_layout_coverage :: bool
  ty_exact_attributes_coverage :: bool
  ty_exact_reduction_coverage :: bool
  ty_forward_parity :: bool
  ty_gradient_parity :: bool
  ty_floating_point_parity :: bool
  ty_error_parity :: bool
  ty_panic_parity :: bool
  ty_mutation_parity :: bool
  ty_alias_parity :: bool
  ty_ownership_parity :: bool
  ty_recorder_parity :: bool
  ty_autograd_parity :: bool
  ty_backend_selection_parity :: bool
  ty_paired_end_to_end_validation_required :: bool

definition tiny_synchronous_accelerator_screen_contract_valid :: "id_env \<Rightarrow> tiny_synchronous_accelerator_screen_contract \<Rightarrow> bool" where
  "tiny_synchronous_accelerator_screen_contract_valid E c =
    (if ty_name c = [] \<or> trim_space (ty_name c) \<noteq> ty_name c \<or>
        int (length (ty_calls c)) < 1 \<or> int (length (ty_calls c)) > 2 \<or>
        ty_configured_rows c \<le> 0 \<or> ty_configured_columns c \<le> 0 \<or>
        ty_configured_rows c > go_quo (2 ^ 63 - 1) (ty_configured_columns c) \<or>
        ty_configured_working_set_bytes c \<le> 0 \<or> ty_max_elements c < 0 \<or>
        ty_max_working_set_bytes c < 0 \<or>
        ty_max_elements c = 0 \<and> ty_max_working_set_bytes c = 0 \<or>
        (ty_max_elements c > 0 \<and>
         wrap64 (ty_configured_rows c * ty_configured_columns c) > ty_max_elements c) \<or>
        (ty_max_working_set_bytes c > 0 \<and>
         ty_configured_working_set_bytes c > ty_max_working_set_bytes c) \<or>
        ty_configured_submission_count c \<noteq> int (length (ty_calls c)) \<or>
        \<not> ps_tiny_goos (ty_target_goos c) \<or>
        \<not> ps_tiny_goarch (ty_target_goarch c) \<or>
        ty_memory_model c \<noteq> ''unified'' \<and> ty_memory_model c \<noteq> ''shared''
     then False
     else case go_each (\<lambda>seen call.
           let accelerator_valid = ps6109_callable_id_valid E (tyc_accelerator_callable call) \<or>
                                   ps_tiny_cgo_id_valid E (tyc_accelerator_callable call) in
           let operation_absent = tyc_operation_argument call = 0 \<and>
                                  tyc_operation_constant call = [] \<and>
                                  tyc_operation_constant_value call = [] in
           let operation_present = tyc_operation_argument call > 0 \<and>
                                   ps_top_k_function_id_valid E (tyc_operation_constant call) \<and>
                                   tyc_operation_constant_value call \<noteq> [] \<and>
                                   trim_space (tyc_operation_constant_value call) =
                                       tyc_operation_constant_value call in
           let key = tyc_configured_site call @ [CHR 0x00] @ tyc_accelerator_callable call @
               [CHR 0x00] @ tyc_operation_constant call in
           if \<not> ps6109_callable_id_valid E (tyc_configured_site call) \<or>
              \<not> accelerator_valid \<or>
              \<not> ps6109_callable_id_valid E (tyc_host_alternative_callable call) \<or>
              tyc_accelerator_callable call = tyc_host_alternative_callable call \<or>
              tyc_rows_argument call \<le> 0 \<or> tyc_columns_argument call \<le> 0 \<or>
              tyc_rows_argument call = tyc_columns_argument call \<or>
              \<not> operation_absent \<and> \<not> operation_present \<or>
              (operation_present \<and>
               (tyc_operation_argument call = tyc_rows_argument call \<or>
                tyc_operation_argument call = tyc_columns_argument call)) \<or>
              key \<in> seen
           then None
           else Some (insert key seen)) {} (ty_calls c) of
       None \<Rightarrow> False
     | Some seen \<Rightarrow>
         ty_blocking_completion c \<and> ty_host_accessible_inputs c \<and>
         ty_host_accessible_output c \<and> ty_no_transfer_required c \<and>
         ty_no_preexisting_device_residency c \<and> ty_no_post_device_residency c \<and>
         ty_no_graph_context c \<and> ty_no_recorder_context c \<and>
         ty_no_command_buffer_context c \<and> ty_exact_dtype_coverage c \<and>
         ty_exact_layout_coverage c \<and> ty_exact_attributes_coverage c \<and>
         ty_exact_reduction_coverage c \<and> ty_forward_parity c \<and>
         ty_gradient_parity c \<and> ty_floating_point_parity c \<and> ty_error_parity c \<and>
         ty_panic_parity c \<and> ty_mutation_parity c \<and> ty_alias_parity c \<and>
         ty_ownership_parity c \<and> ty_recorder_parity c \<and> ty_autograd_parity c \<and>
         ty_backend_selection_parity c \<and> ty_paired_end_to_end_validation_required c)"

end
