(* ===== verification/Contracts_Calls.thy ===== *)
theory Contracts_Calls
  imports Contract_Ids
begin

text \<open>
  The contracts of \<open>config/config.go\<close> about call shapes and lifetimes: PS6114, PS6113,
  PS6111, PS6106, PS6107, PS6110, PS6112, PS6109, PS6087, PS6124, PS6127 and PS6128.
\<close>

record row_local_sparse_gather_contract =
  rg_name :: string
  rg_configured_site :: string
  rg_transform :: string
  rg_gather :: string
  rg_concat :: string
  rg_slice_operation :: string
  rg_slice_operation_value :: string
  rg_concat_operation :: string
  rg_concat_operation_value :: string
  rg_slice_attrs_type :: string
  rg_slice_axis_field :: string
  rg_slice_start_field :: string
  rg_slice_end_field :: string
  rg_concat_attrs_type :: string
  rg_concat_axis_field :: string
  rg_transform_input_argument :: int
  rg_gather_operation_argument :: int
  rg_gather_attrs_argument :: int
  rg_gather_input_argument :: int
  rg_concat_operation_argument :: int
  rg_concat_collection_argument :: int
  rg_concat_attrs_argument :: int
  rg_existing_fused_capability_fallback :: bool
  rg_configured_evidence :: string
  rg_packed_rows_equal_batch_times_stride :: bool
  rg_batch_positive :: bool
  rg_stride_greater_than_one :: bool
  rg_native_int_arithmetic_no_overflow :: bool
  rg_transform_rows_independent :: bool
  rg_transform_preserves_row_order_and_width :: bool
  rg_transform_parameters_immutable :: bool
  rg_transform_does_not_mutate_input :: bool
  rg_transform_input_output_do_not_alias :: bool
  rg_transform_does_not_retain_arguments :: bool
  rg_calls_execute_synchronously :: bool
  rg_discarded_rows_have_no_effects_state_or_rng :: bool
  rg_gather_deterministic_and_value_independent :: bool
  rg_gather_and_concat_do_not_mutate_or_retain :: bool
  rg_selected_first_equivalent :: bool
  rg_fused_forward_parity :: bool
  rg_floating_point_policy_preserved :: bool
  rg_error_and_panic_parity :: bool
  rg_partial_output_parity :: bool
  rg_recorder_order_parity :: bool
  rg_vjp_all_input_gradients_parity :: bool
  rg_supported_dtypes_layouts_backends :: bool
  rg_equivalent_fallback_unless_forward_and_backward_available :: bool

definition row_local_sparse_gather_contract_valid :: "id_env \<Rightarrow> row_local_sparse_gather_contract \<Rightarrow> bool" where
  "row_local_sparse_gather_contract_valid E c =
    (if rg_name c = [] \<or> trim_space (rg_name c) \<noteq> rg_name c \<or>
        \<not> ps6109_callable_id_valid E (rg_configured_site c) \<or>
        \<not> ps_top_k_method_id_valid E (rg_transform c) \<or>
        \<not> ps_top_k_function_id_valid E (rg_gather c) \<or>
        \<not> ps_top_k_function_id_valid E (rg_concat c) \<or> rg_gather c = rg_concat c \<or>
        \<not> ps_top_k_function_id_valid E (rg_slice_operation c) \<or>
        \<not> ps_top_k_function_id_valid E (rg_concat_operation c) \<or>
        rg_slice_operation c = rg_concat_operation c \<or> rg_slice_operation_value c = [] \<or>
        rg_concat_operation_value c = [] \<or>
        \<not> ps_top_k_function_id_valid E (rg_slice_attrs_type c) \<or>
        \<not> ps_top_k_method_id_valid E (rg_slice_axis_field c) \<or>
        \<not> ps_top_k_method_id_valid E (rg_slice_start_field c) \<or>
        \<not> ps_top_k_method_id_valid E (rg_slice_end_field c) \<or>
        rg_slice_axis_field c = rg_slice_start_field c \<or>
        rg_slice_axis_field c = rg_slice_end_field c \<or>
        rg_slice_start_field c = rg_slice_end_field c \<or>
        \<not> ps_top_k_function_id_valid E (rg_concat_attrs_type c) \<or>
        \<not> ps_top_k_method_id_valid E (rg_concat_axis_field c)
     then False
     else unique_positive [rg_gather_operation_argument c, rg_gather_attrs_argument c,
         rg_gather_input_argument c] \<and>
     unique_positive [rg_concat_operation_argument c, rg_concat_collection_argument c,
         rg_concat_attrs_argument c] \<and>
     rg_transform_input_argument c > 0 \<and> rg_packed_rows_equal_batch_times_stride c \<and>
     rg_batch_positive c \<and> rg_stride_greater_than_one c \<and>
     rg_native_int_arithmetic_no_overflow c \<and> rg_transform_rows_independent c \<and>
     rg_transform_preserves_row_order_and_width c \<and>
     rg_transform_parameters_immutable c \<and> rg_transform_does_not_mutate_input c \<and>
     rg_transform_input_output_do_not_alias c \<and>
     rg_transform_does_not_retain_arguments c \<and> rg_calls_execute_synchronously c \<and>
     rg_discarded_rows_have_no_effects_state_or_rng c \<and>
     rg_gather_deterministic_and_value_independent c \<and>
     rg_gather_and_concat_do_not_mutate_or_retain c \<and> rg_selected_first_equivalent c \<and>
     rg_fused_forward_parity c \<and> rg_floating_point_policy_preserved c \<and>
     rg_error_and_panic_parity c \<and> rg_partial_output_parity c \<and>
     rg_recorder_order_parity c \<and> rg_vjp_all_input_gradients_parity c \<and>
     rg_supported_dtypes_layouts_backends c \<and>
     rg_equivalent_fallback_unless_forward_and_backward_available c)"

record recorder_residual_add_implementation =
  rai_projection :: string
  rai_accumulate :: string

record recorder_residual_add_contract =
  ra_name :: string
  ra_projection :: string
  ra_accumulate :: string
  ra_recorder_binary :: string
  ra_eager_sequence :: string
  ra_add_operation :: string
  ra_add_operation_value :: string
  ra_configured_site :: string
  ra_projection_recorder_argument :: int
  ra_projection_source_argument :: int
  ra_projection_temporary_argument :: int
  ra_binary_destination_argument :: int
  ra_binary_temporary_argument :: int
  ra_binary_output_argument :: int
  ra_binary_operation_argument :: int
  ra_accumulate_recorder_argument :: int
  ra_accumulate_source_argument :: int
  ra_accumulate_temporary_argument :: int
  ra_accumulate_destination_argument :: int
  ra_accumulate_destination_length_argument :: int
  ra_projection_extent_arguments :: "int list"
  ra_accumulate_extent_arguments :: "int list"
  ra_implementations :: "recorder_residual_add_implementation list"
  ra_projection_overwrites_temporary :: bool
  ra_temporary_may_serve_as_accumulate_scratch :: bool
  ra_matched_buffers_do_not_alias :: bool
  ra_temporary_unobserved_outside_matched_calls :: bool
  ra_calls_do_not_retain_arguments :: bool
  ra_calls_execute_synchronously :: bool
  ra_recorder_order_preserved :: bool
  ra_accumulate_matches_projection_and_residual_add :: bool
  ra_accumulate_preserves_errors_and_panics :: bool
  ra_accumulate_preserves_partial_output :: bool
  ra_accumulate_preserves_arithmetic_policy :: bool
  ra_accumulate_supports_configured_dtypes_layouts_backends :: bool
  ra_all_dynamic_projection_types_covered :: bool
  ra_eager_sequence_returns_first_error :: bool

definition recorder_residual_add_contract_valid :: "id_env \<Rightarrow> recorder_residual_add_contract \<Rightarrow> bool" where
  "recorder_residual_add_contract_valid E c =
    (if ra_name c = [] \<or> trim_space (ra_name c) \<noteq> ra_name c \<or>
        \<not> ps_top_k_method_id_valid E (ra_projection c) \<or>
        \<not> ps_top_k_method_id_valid E (ra_accumulate c) \<or>
        ra_projection c = ra_accumulate c \<or>
        \<not> ps_top_k_method_id_valid E (ra_recorder_binary c) \<or>
        \<not> ps_top_k_function_id_valid E (ra_add_operation c) \<or>
        ra_add_operation_value c = [] \<or>
        trim_space (ra_add_operation_value c) \<noteq> ra_add_operation_value c \<or>
        (ra_eager_sequence c \<noteq> [] \<and>
         \<not> ps_top_k_function_id_valid E (ra_eager_sequence c)) \<or>
        (ra_configured_site c \<noteq> [] \<and>
         \<not> ps6109_callable_id_valid E (ra_configured_site c)) \<or>
        \<not> ra_projection_overwrites_temporary c \<or>
        \<not> ra_temporary_may_serve_as_accumulate_scratch c \<or>
        \<not> ra_matched_buffers_do_not_alias c \<or>
        \<not> ra_temporary_unobserved_outside_matched_calls c \<or>
        \<not> ra_calls_do_not_retain_arguments c \<or>
        \<not> ra_calls_execute_synchronously c \<or> \<not> ra_recorder_order_preserved c \<or>
        \<not> ra_accumulate_matches_projection_and_residual_add c \<or>
        \<not> ra_accumulate_preserves_errors_and_panics c \<or>
        \<not> ra_accumulate_preserves_partial_output c \<or>
        \<not> ra_accumulate_preserves_arithmetic_policy c \<or>
        \<not> ra_accumulate_supports_configured_dtypes_layouts_backends c \<or>
        (ra_eager_sequence c = []) = ra_eager_sequence_returns_first_error c
     then False
     else if int (length (ra_projection_extent_arguments c)) \<noteq>
         int (length (ra_accumulate_extent_arguments c))
     then False
     else if ra_accumulate_destination_length_argument c < 0
     then False
     else let projection_positions = [ra_projection_recorder_argument c,
         ra_projection_source_argument c, ra_projection_temporary_argument c] @
         ra_projection_extent_arguments c in
     let accumulate_positions = [ra_accumulate_recorder_argument c,
         ra_accumulate_source_argument c, ra_accumulate_temporary_argument c,
         ra_accumulate_destination_argument c] @ ra_accumulate_extent_arguments c in
     let accumulate_positions =
         (if ra_accumulate_destination_length_argument c > 0 then accumulate_positions @
         [ra_accumulate_destination_length_argument c] else accumulate_positions) in
     if \<not> unique_positive projection_positions \<or>
        \<not> unique_positive [ra_binary_destination_argument c, ra_binary_temporary_argument c,
            ra_binary_output_argument c, ra_binary_operation_argument c] \<or>
        \<not> unique_positive accumulate_positions
     then False
     else if ra_implementations c = []
     then \<not> ra_all_dynamic_projection_types_covered c
     else if \<not> ra_all_dynamic_projection_types_covered c \<or> ra_configured_site c = []
     then False
     else case go_each (\<lambda>seen implementation.
           if \<not> ps_top_k_method_id_valid E (rai_projection implementation) \<or>
              \<not> ps_top_k_method_id_valid E (rai_accumulate implementation) \<or>
              rai_projection implementation = rai_accumulate implementation \<or>
              rai_projection implementation \<in> seen
           then None
           else Some (insert (rai_projection implementation) seen)) {} (ra_implementations c) of
       None \<Rightarrow> False
     | Some seen \<Rightarrow>
         True)"

record reusable_result_loop_contract =
  rl_name :: string
  rl_wrapper :: string
  rl_into :: string
  rl_result_position :: int
  rl_destination_argument :: int
  rl_shape_argument_positions :: "int list"
  rl_configured_result_elements :: int
  rl_configured_loop_iterations :: int
  rl_wrapper_returns_fresh_owned :: bool
  rl_result_length_stable_for_receiver_and_listed_args :: bool
  rl_into_overwrites_destination_on_success :: bool
  rl_into_does_not_read_destination_before_overwrite :: bool
  rl_into_ignores_destination_identity_and_extra_capacity :: bool
  rl_into_does_not_retain_destination :: bool
  rl_into_executes_synchronously :: bool
  rl_wrapper_and_into_have_identical_state_effects :: bool
  rl_wrapper_and_into_have_identical_errors_and_panics :: bool

definition reusable_result_loop_contract_valid :: "id_env \<Rightarrow> reusable_result_loop_contract \<Rightarrow> bool" where
  "reusable_result_loop_contract_valid E c =
    (if rl_name c = [] \<or> trim_space (rl_name c) \<noteq> rl_name c \<or>
        \<not> ps_top_k_method_id_valid E (rl_wrapper c) \<or>
        \<not> ps_top_k_method_id_valid E (rl_into c) \<or> rl_wrapper c = rl_into c \<or>
        rl_result_position c \<le> 0 \<or> rl_destination_argument c \<le> 0 \<or>
        \<not> rl_wrapper_returns_fresh_owned c \<or>
        \<not> rl_result_length_stable_for_receiver_and_listed_args c \<or>
        \<not> rl_into_overwrites_destination_on_success c \<or>
        \<not> rl_into_does_not_read_destination_before_overwrite c \<or>
        \<not> rl_into_ignores_destination_identity_and_extra_capacity c \<or>
        \<not> rl_into_does_not_retain_destination c \<or>
        \<not> rl_into_executes_synchronously c \<or>
        \<not> rl_wrapper_and_into_have_identical_state_effects c \<or>
        \<not> rl_wrapper_and_into_have_identical_errors_and_panics c
     then False
     else if (rl_configured_result_elements c = 0) \<noteq> (rl_configured_loop_iterations c = 0) \<or>
        rl_configured_result_elements c < 0 \<or> rl_configured_loop_iterations c < 0
     then False
     else if \<not> unique_positive (rl_shape_argument_positions c)
     then False
     else True)"

record bounded_scratch_observer_contract =
  bso_function :: string
  bso_buffer_arg :: int
  bso_active_arg :: int

record bounded_scratch_flow_contract =
  bs_name :: string
  bs_allocator :: string
  bs_allocator_capacity_arg :: int
  bs_producer :: string
  bs_producer_buffer_arg :: int
  bs_producer_active_arg :: int
  bs_consumer :: string
  bs_consumer_buffer_arg :: int
  bs_observers :: "bounded_scratch_observer_contract list"
  bs_configured_capacity_elements :: int
  bs_configured_active_elements :: int
  bs_configured_repeat_count :: int
  bs_allocator_returns_fresh_owned :: bool
  bs_producer_writes_only_active_prefix :: bool
  bs_consumer_traverses_full_capacity :: bool
  bs_observers_read_only_active_prefix :: bool
  bs_calls_do_not_retain_buffer :: bool
  bs_calls_execute_synchronously :: bool
  bs_inactive_tail_not_required :: bool
  bs_replacement :: string
  bs_replacement_matches_composition :: bool
  bs_replacement_preserves_active_prefix_bits :: bool
  bs_replacement_leaves_inactive_tail :: bool
  bs_replacement_preserves_errors_side_effects :: bool
  bs_replacement_preserves_provider_fallback :: bool
  bs_replacement_rejects_unsupported :: bool
  bs_replacement_failure_unmodified :: bool

definition bounded_scratch_flow_contract_valid :: "id_env \<Rightarrow> bounded_scratch_flow_contract \<Rightarrow> bool" where
  "bounded_scratch_flow_contract_valid E c =
    (if bs_name c = [] \<or> trim_space (bs_name c) \<noteq> bs_name c \<or>
        \<not> ps_top_k_method_id_valid E (bs_allocator c) \<or>
        \<not> ps_top_k_method_id_valid E (bs_producer c) \<or>
        \<not> ps_top_k_method_id_valid E (bs_consumer c) \<or>
        bs_allocator_capacity_arg c \<le> 0 \<or> bs_producer_buffer_arg c \<le> 0 \<or>
        bs_producer_active_arg c \<le> 0 \<or>
        bs_producer_buffer_arg c = bs_producer_active_arg c \<or>
        bs_consumer_buffer_arg c \<le> 0 \<or> bs_observers c = [] \<or>
        \<not> bs_allocator_returns_fresh_owned c \<or>
        \<not> bs_producer_writes_only_active_prefix c \<or>
        \<not> bs_consumer_traverses_full_capacity c \<or>
        \<not> bs_observers_read_only_active_prefix c \<or>
        \<not> bs_calls_do_not_retain_buffer c \<or>
        \<not> bs_calls_execute_synchronously c \<or> \<not> bs_inactive_tail_not_required c
     then False
     else if (bs_configured_capacity_elements c = 0) \<noteq> (bs_configured_active_elements c = 0) \<or>
        bs_configured_capacity_elements c < 0 \<or> bs_configured_active_elements c < 0 \<or>
        bs_configured_repeat_count c < 0 \<or>
        (bs_configured_capacity_elements c > 0 \<and>
         bs_configured_capacity_elements c \<le> bs_configured_active_elements c)
     then False
     else case go_each (\<lambda>seen observer.
           if \<not> ps_top_k_method_id_valid E (bso_function observer) \<or>
              bso_buffer_arg observer \<le> 0 \<or> bso_active_arg observer \<le> 0 \<or>
              bso_buffer_arg observer = bso_active_arg observer \<or>
              bso_function observer \<in> seen
           then None
           else Some (insert (bso_function observer) seen)) {} (bs_observers c) of
       None \<Rightarrow> False
     | Some seen \<Rightarrow>
         let replacement_promises = bs_replacement_matches_composition c \<or>
                                    bs_replacement_preserves_active_prefix_bits c \<or>
                                    bs_replacement_leaves_inactive_tail c \<or>
                                    bs_replacement_preserves_errors_side_effects c \<or>
                                    bs_replacement_preserves_provider_fallback c \<or>
                                    bs_replacement_rejects_unsupported c \<or>
                                    bs_replacement_failure_unmodified c in
         if bs_replacement c = []
         then \<not> replacement_promises
         else ps_top_k_method_id_valid E (bs_replacement c) \<and>
         bs_replacement_matches_composition c \<and>
         bs_replacement_preserves_active_prefix_bits c \<and>
         bs_replacement_leaves_inactive_tail c \<and>
         bs_replacement_preserves_errors_side_effects c \<and>
         bs_replacement_preserves_provider_fallback c \<and>
         bs_replacement_rejects_unsupported c \<and> bs_replacement_failure_unmodified c)"

record receiver_staging_contract =
  rs_name :: string
  rs_candidate_method :: string
  rs_overwrite :: string
  rs_overwrite_kind :: string
  rs_overwrite_arg :: int
  rs_consumer :: string
  rs_consumer_kind :: string
  rs_consumer_arg :: int
  rs_lifecycle_method :: string
  rs_max_retained_bytes :: int
  rs_receiver_calls_sequential :: bool
  rs_overwrite_writes_all_before_read :: bool
  rs_overwrite_completes_before_return :: bool
  rs_overwrite_does_not_retain_argument :: bool
  rs_overwrite_accesses_only_argument_length :: bool
  rs_overwrite_ignores_capacity_and_identity :: bool
  rs_overwrite_preserves_extent_inputs :: bool
  rs_extent_is_non_negative_and_non_overflowing :: bool
  rs_consumer_completes_before_return :: bool
  rs_consumer_does_not_retain_argument :: bool
  rs_lifecycle_ends_receiver_use :: bool
  rs_contents_may_persist_until_lifecycle :: bool

definition receiver_staging_contract_valid :: "id_env \<Rightarrow> receiver_staging_contract \<Rightarrow> bool" where
  "receiver_staging_contract_valid E c =
    (if rs_name c = [] \<or> \<not> ps_top_k_method_id_valid E (rs_candidate_method c) \<or>
        \<not> ps_top_k_method_id_valid E (rs_lifecycle_method c) \<or>
        rs_consumer_arg c < 0 \<or>
        \<not> callable_kind_valid E (rs_consumer c) (rs_consumer_kind c) \<or>
        rs_max_retained_bytes c \<le> 0 \<or>
        rs_max_retained_bytes c > max_receiver_staging_bytes \<or>
        \<not> rs_receiver_calls_sequential c \<or>
        \<not> rs_consumer_completes_before_return c \<or>
        \<not> rs_consumer_does_not_retain_argument c \<or>
        \<not> rs_lifecycle_ends_receiver_use c \<or>
        \<not> rs_contents_may_persist_until_lifecycle c
     then False
     else if rs_overwrite c = []
     then rs_overwrite_kind c = [] \<and> rs_overwrite_arg c = 0 \<and>
          \<not> rs_overwrite_writes_all_before_read c \<and>
          \<not> rs_overwrite_completes_before_return c \<and>
          \<not> rs_overwrite_does_not_retain_argument c \<and>
          \<not> rs_overwrite_accesses_only_argument_length c \<and>
          \<not> rs_overwrite_ignores_capacity_and_identity c \<and>
          \<not> rs_overwrite_preserves_extent_inputs c \<and>
          \<not> rs_extent_is_non_negative_and_non_overflowing c
     else rs_overwrite_arg c \<ge> 0 \<and>
     callable_kind_valid E (rs_overwrite c) (rs_overwrite_kind c) \<and>
     rs_overwrite_writes_all_before_read c \<and> rs_overwrite_completes_before_return c \<and>
     rs_overwrite_does_not_retain_argument c \<and>
     rs_overwrite_accesses_only_argument_length c \<and>
     rs_overwrite_ignores_capacity_and_identity c \<and>
     rs_overwrite_preserves_extent_inputs c \<and>
     rs_extent_is_non_negative_and_non_overflowing c)"

record native_snapshot_string_copy_contract =
  ns_name :: string
  ns_candidate_callable :: string
  ns_candidate_kind :: string
  ns_destination_result_position :: int
  ns_destination_slice_field :: string
  ns_destination_string_field :: string
  ns_acquire_callable :: string
  ns_acquire_kind :: string
  ns_records_out_argument_position :: int
  ns_count_out_argument_position :: int
  ns_acquire_status_result_position :: int
  ns_acquire_success_integer :: int
  ns_native_string_field :: string
  ns_native_length_field :: string
  ns_copy_kind :: string
  ns_copy_callable :: string
  ns_copy_pointer_argument_position :: int
  ns_copy_length_argument_position :: int
  ns_copy_string_result_position :: int
  ns_lifecycle_callable :: string
  ns_lifecycle_kind :: string
  ns_snapshot_stable_through_candidate_return :: bool
  ns_snapshot_not_mutated_during_extraction :: bool
  ns_extraction_is_synchronous :: bool
  ns_copy_returns_exact_owned_string :: bool
  ns_returned_strings_outlive_lifecycle :: bool
  ns_exact_content_check_required :: bool

definition native_snapshot_string_copy_contract_valid :: "id_env \<Rightarrow> native_snapshot_string_copy_contract \<Rightarrow> bool" where
  "native_snapshot_string_copy_contract_valid E c =
    (if ns_name c = [] \<or>
        \<not> native_snapshot_callable_valid E (ns_candidate_callable c) (ns_candidate_kind c) False \<or>
        \<not> native_snapshot_callable_valid E (ns_acquire_callable c) (ns_acquire_kind c) True \<or>
        \<not> native_snapshot_callable_valid E (ns_lifecycle_callable c) (ns_lifecycle_kind c) False \<or>
        ns_destination_result_position c \<le> 0 \<or>
        ns_records_out_argument_position c \<le> 0 \<or>
        ns_count_out_argument_position c \<le> 0 \<or>
        ns_records_out_argument_position c = ns_count_out_argument_position c \<or>
        ns_acquire_status_result_position c \<le> 0 \<or>
        ns_copy_pointer_argument_position c \<le> 0 \<or>
        ns_copy_length_argument_position c < 0 \<or>
        (ns_copy_length_argument_position c > 0 \<and>
         ns_copy_length_argument_position c = ns_copy_pointer_argument_position c) \<or>
        ns_copy_string_result_position c \<le> 0 \<or>
        \<not> native_snapshot_field_valid E (ns_destination_slice_field c) True \<or>
        \<not> native_snapshot_field_valid E (ns_destination_string_field c) False \<or>
        \<not> native_snapshot_field_valid E (ns_native_string_field c) False \<or>
        \<not> ns_snapshot_stable_through_candidate_return c \<or>
        \<not> ns_snapshot_not_mutated_during_extraction c \<or>
        \<not> ns_extraction_is_synchronous c \<or>
        \<not> ns_copy_returns_exact_owned_string c \<or>
        \<not> ns_returned_strings_outlive_lifecycle c \<or>
        \<not> ns_exact_content_check_required c
     then False
     else if ns_copy_kind c = ''c-go-string''
     then ns_copy_callable c = [] \<and> ns_copy_pointer_argument_position c = 1 \<and>
          ns_copy_length_argument_position c = 0 \<and>
          ns_copy_string_result_position c = 1 \<and> ns_native_length_field c = []
     else if ns_copy_kind c = ''c-go-string-n''
     then ns_copy_callable c = [] \<and> ns_copy_pointer_argument_position c = 1 \<and>
          ns_copy_length_argument_position c = 2 \<and>
          ns_copy_string_result_position c = 1 \<and>
          native_snapshot_field_valid E (ns_native_length_field c) False
     else if ns_copy_kind c = ''function'' \<or> ns_copy_kind c = ''method''
     then native_snapshot_callable_valid E (ns_copy_callable c) (ns_copy_kind c) False \<and>
          (ns_copy_length_argument_position c = 0) = (ns_native_length_field c = [])
     else False)"

record scheduler_tile_grain_variant =
  stv_name :: string
  stv_goos :: string
  stv_goarch :: string
  stv_build_tags :: "string list"
  stv_tile_height :: int
  stv_tile_router :: string
  stv_tile_router_rows_argument :: int
  stv_tiled_kernel :: string
  stv_scalar_fallback :: string
  stv_scalar_fallback_rows_argument :: int
  stv_kernel_entry_routes_full_tiles :: bool
  stv_scalar_fallback_handles_tile_remainder :: bool

record scheduler_tile_grain_contract =
  st_name :: string
  st_scheduler :: string
  st_grain_constant :: string
  st_band :: string
  st_band_rows_argument :: int
  st_kernel_entry :: string
  st_kernel_rows_argument :: int
  st_repeated_full_tasks :: bool
  st_synchronous_runner :: string
  st_synchronous_runner_work_argument :: int
  st_synchronous_runner_executes_before_return :: bool
  st_variants :: "scheduler_tile_grain_variant list"

definition scheduler_tile_grain_contract_valid :: "id_env \<Rightarrow> scheduler_tile_grain_contract \<Rightarrow> bool" where
  "scheduler_tile_grain_contract_valid E c =
    (if st_name c = [] \<or> trim_space (st_name c) \<noteq> st_name c \<or>
        \<not> ps_top_k_function_id_valid E (st_scheduler c) \<or>
        \<not> ps_top_k_function_id_valid E (st_grain_constant c) \<or>
        \<not> ps_top_k_function_id_valid E (st_band c) \<or>
        \<not> ps_top_k_function_id_valid E (st_kernel_entry c) \<or>
        st_band_rows_argument c \<le> 0 \<or> st_kernel_rows_argument c \<le> 0 \<or>
        \<not> st_repeated_full_tasks c \<or> int (length (st_variants c)) < 2
     then False
     else let package_path = scheduler_tile_callable_package (st_scheduler c) in
     let runner_configured = st_synchronous_runner c \<noteq> [] \<or>
                             st_synchronous_runner_work_argument c \<noteq> 0 \<or>
                             st_synchronous_runner_executes_before_return c in
     if package_path = [] \<or>
        scheduler_tile_callable_package (st_grain_constant c) \<noteq> package_path \<or>
        scheduler_tile_callable_package (st_band c) \<noteq> package_path \<or>
        scheduler_tile_callable_package (st_kernel_entry c) \<noteq> package_path \<or>
        st_scheduler c = st_band c \<or> st_scheduler c = st_kernel_entry c \<or>
        st_band c = st_kernel_entry c \<or>
        (runner_configured \<and>
         (\<not> ps_top_k_function_id_valid E (st_synchronous_runner c) \<or>
          st_synchronous_runner_work_argument c \<le> 0 \<or>
          \<not> st_synchronous_runner_executes_before_return c \<or>
          scheduler_tile_callable_package (st_synchronous_runner c) \<noteq> package_path))
     then False
     else case go_each (\<lambda>(seen_names, seen_targets, architectures) variant.
           let tags = sort_tags (stv_build_tags variant) in
           let target = stv_goos variant @ ''/'' @ stv_goarch variant @ ''/'' @ join_tags tags in
           if stv_name variant = [] \<or>
              trim_space (stv_name variant) \<noteq> stv_name variant \<or>
              stv_name variant \<in> seen_names \<or> target \<in> seen_targets \<or>
              \<not> ps_tiny_goos (stv_goos variant) \<or>
              \<not> ps_tiny_goarch (stv_goarch variant) \<or>
              stv_tile_height variant \<le> 1 \<or> stv_tile_height variant > 1024 \<or>
              \<not> ps_top_k_function_id_valid E (stv_tile_router variant) \<or>
              stv_tile_router_rows_argument variant \<le> 0 \<or>
              \<not> ps_top_k_function_id_valid E (stv_tiled_kernel variant) \<or>
              \<not> ps_top_k_function_id_valid E (stv_scalar_fallback variant) \<or>
              stv_scalar_fallback_rows_argument variant \<le> 0 \<or>
              scheduler_tile_callable_package (stv_tile_router variant) \<noteq> package_path \<or>
              scheduler_tile_callable_package (stv_tiled_kernel variant) \<noteq> package_path \<or>
              scheduler_tile_callable_package (stv_scalar_fallback variant) \<noteq> package_path \<or>
              stv_tiled_kernel variant = stv_scalar_fallback variant \<or>
              stv_tile_router variant = stv_tiled_kernel variant \<or>
              stv_tile_router variant = stv_scalar_fallback variant \<or>
              \<not> stv_kernel_entry_routes_full_tiles variant \<or>
              \<not> stv_scalar_fallback_handles_tile_remainder variant \<or>
              \<not> scheduler_tile_build_tags_valid (stv_build_tags variant)
           then None
           else let seen_names = insert (stv_name variant) seen_names in
           let seen_targets = insert target seen_targets in
           let architectures = insert (stv_goarch variant) architectures in
           Some (seen_names, seen_targets, architectures)) ({}, {}, {}) (st_variants c) of
       None \<Rightarrow> False
     | Some (seen_names, seen_targets, architectures) \<Rightarrow>
         int (card architectures) \<ge> 2)"

record reusable_one_shot_method =
  rom_static :: string
  rom_concrete :: string

definition ps6109_method_valid :: "id_env \<Rightarrow> reusable_one_shot_method \<Rightarrow> bool" where
  "ps6109_method_valid E method =
     (ps_top_k_method_id_valid E (rom_static method) \<and> ps_top_k_method_id_valid E (rom_concrete method))"

record reusable_one_shot_wrapper_contract =
  row_name :: string
  row_wrapper_type :: string
  row_provider_type :: string
  row_acquisition :: string
  row_concrete_acquisition :: string
  row_wrapper_constructor :: string
  row_terminal :: reusable_one_shot_method
  row_reset :: reusable_one_shot_method
  row_fresh_native_handle_factory :: string
  row_native_handle_field :: string
  row_mutable_state_fields :: "string list"
  row_allowed_synchronous_uses :: "reusable_one_shot_method list"
  row_acquisition_wrapper_result :: int
  row_acquisition_status_result :: int
  row_constructor_wrapper_result :: int
  row_reset_status_result :: int
  row_acquisition_failure_mode :: string
  row_reset_failure_state :: string
  row_slot_bound :: int
  row_acquisition_creates_fresh_go_wrapper :: bool
  row_acquisition_has_exact_dynamic_wrapper :: bool
  row_failed_acquisition_has_no_generation :: bool
  row_native_handle_is_one_shot :: bool
  row_reset_always_creates_fresh_handle :: bool
  row_terminal_synchronously_releases :: bool
  row_terminal_clears_handle :: bool
  row_terminal_is_idempotent :: bool
  row_reset_clears_mutable_state :: bool
  row_uses_execute_synchronously :: bool
  row_uses_do_not_retain_generation :: bool
  row_no_stale_generation_references :: bool
  row_owner_access_is_non_concurrent :: bool
  row_provider_fallback_is_preserved :: bool
  row_failures_and_panics_are_preserved :: bool

text \<open>
  The closure \<open>addRole\<close>: the map from a method to the role it has been claimed for. A
  method may be claimed again only for the same role.
\<close>

definition add_role ::
    "string \<Rightarrow> (string \<rightharpoonup> string) \<Rightarrow> string list \<Rightarrow> (string \<rightharpoonup> string) option" where
  "add_role role claimed ids =
     go_each (\<lambda>claimed i.
       if (case claimed i of None \<Rightarrow> False | Some previous \<Rightarrow> previous \<noteq> [] \<and> previous \<noteq> role)
       then None else Some (claimed(i \<mapsto> role))) claimed ids"

definition fixed_roles :: "reusable_one_shot_wrapper_contract \<Rightarrow> (string \<times> string list) list" where
  "fixed_roles c =
     [(''acquisition'', [row_acquisition c, row_concrete_acquisition c]),
      (''constructor'', [row_wrapper_constructor c]),
      (''terminal'', [rom_static (row_terminal c), rom_concrete (row_terminal c)]),
      (''reset'', [rom_static (row_reset c), rom_concrete (row_reset c)]),
      (''factory'', [row_fresh_native_handle_factory c])]"

definition one_shot_roles_ok :: "id_env \<Rightarrow> reusable_one_shot_wrapper_contract \<Rightarrow> bool" where
  "one_shot_roles_ok E c =
     (case go_each (\<lambda>claimed (role, ids). add_role role claimed ids) Map.empty (fixed_roles c) of
        None \<Rightarrow> False
      | Some claimed \<Rightarrow>
          (case go_each (\<lambda>claimed (i, use).
               if \<not> ps6109_method_valid E use then None
               else add_role (''use:'' @ itoa (int i)) claimed [rom_static use, rom_concrete use])
             claimed (enumerate 0 (row_allowed_synchronous_uses c)) of
             None \<Rightarrow> False | Some _ \<Rightarrow> True))"

definition reusable_one_shot_wrapper_contract_valid :: "id_env \<Rightarrow> reusable_one_shot_wrapper_contract \<Rightarrow> bool" where
  "reusable_one_shot_wrapper_contract_valid E c =
    (if row_name c = [] \<or> trim_space (row_name c) \<noteq> row_name c \<or>
        \<not> ps6109_type_id_valid E (row_wrapper_type c) \<or>
        \<not> ps6109_type_id_valid E (row_provider_type c) \<or>
        \<not> ps_top_k_method_id_valid E (row_acquisition c) \<or>
        \<not> ps_top_k_method_id_valid E (row_concrete_acquisition c) \<or>
        \<not> ps_top_k_function_id_valid E (row_wrapper_constructor c) \<or>
        \<not> ps6109_method_valid E (row_terminal c) \<or>
        \<not> ps6109_method_valid E (row_reset c) \<or>
        \<not> ps6109_callable_id_valid E (row_fresh_native_handle_factory c) \<or>
        \<not> ps_top_k_method_id_valid E (row_native_handle_field c) \<or>
        row_mutable_state_fields c = [] \<or> row_allowed_synchronous_uses c = [] \<or>
        row_acquisition_wrapper_result c \<le> 0 \<or>
        row_constructor_wrapper_result c \<le> 0 \<or> row_slot_bound c < 1 \<or>
        row_slot_bound c > 2 \<or> \<not> row_acquisition_creates_fresh_go_wrapper c \<or>
        \<not> row_acquisition_has_exact_dynamic_wrapper c \<or>
        \<not> row_failed_acquisition_has_no_generation c \<or>
        \<not> row_native_handle_is_one_shot c \<or>
        \<not> row_reset_always_creates_fresh_handle c \<or>
        \<not> row_terminal_synchronously_releases c \<or>
        \<not> row_terminal_clears_handle c \<or> \<not> row_terminal_is_idempotent c \<or>
        \<not> row_reset_clears_mutable_state c \<or>
        \<not> row_uses_execute_synchronously c \<or>
        \<not> row_uses_do_not_retain_generation c \<or>
        \<not> row_no_stale_generation_references c \<or>
        \<not> row_owner_access_is_non_concurrent c \<or>
        \<not> row_provider_fallback_is_preserved c \<or>
        \<not> row_failures_and_panics_are_preserved c
     then False
     else if row_terminal c = row_reset c \<or>
        (row_acquisition_wrapper_result c = row_acquisition_status_result c \<and>
         row_acquisition_status_result c \<noteq> 0)
     then False
     else if (if row_acquisition_failure_mode c = ''infallible''
         then row_acquisition_status_result c \<noteq> 0
         else if row_acquisition_failure_mode c = ''nil-error''
         then row_acquisition_status_result c \<le> 0 \<or> row_slot_bound c \<noteq> 1
         else True)
     then False
     else if (if row_reset_failure_state c = ''infallible-empty-before-reset''
         then row_reset_status_result c \<noteq> 0
         else if row_reset_failure_state c = ''error-leaves-empty-terminal-safe''
         then row_reset_status_result c \<le> 0 \<or> row_slot_bound c \<noteq> 1
         else True)
     then False
     else case go_each (\<lambda>seen_fields field.
           if \<not> ps_top_k_method_id_valid E field \<or> field \<in> seen_fields
           then None
           else Some (insert field seen_fields)) {row_native_handle_field c}
               (row_mutable_state_fields c) of
       None \<Rightarrow> False
     | Some seen_fields \<Rightarrow>
         one_shot_roles_ok E c)"

record in_place_fusion_contract =
  ipf_name :: string
  ipf_producer :: string
  ipf_activation :: string
  ipf_activation_input_arg :: int
  ipf_binary :: string
  ipf_binary_activation_arg :: int
  ipf_binary_other_arg :: int
  ipf_capability_interface :: string
  ipf_capability_method :: string
  ipf_non_recording_guard :: string
  ipf_producer_returns_fresh_owned :: bool
  ipf_activation_returns_fresh_owned :: bool
  ipf_binary_returns_fresh_owned :: bool
  ipf_capability_overwrites_first_arg :: bool
  ipf_capability_preserves_second_arg :: bool
  ipf_capability_rejects_unsupported :: bool
  ipf_capability_failure_unmodified :: bool
  ipf_capability_matches_composition :: bool
  ipf_guard_proves_non_recording :: bool

record top_k_one_contract =
  tk_name :: string
  tk_function :: string
  tk_kind :: string
  tk_k_arg_position :: int
  tk_indices_result_position :: int

text \<open>\<open>ResolvedKind\<close> returns the kind and whether it is usable.\<close>

definition resolved_kind :: "id_env \<Rightarrow> top_k_one_contract \<Rightarrow> string \<times> bool" where
  "resolved_kind E c =
     (if tk_k_arg_position c \<le> 0 \<or> tk_indices_result_position c \<le> 0 \<or>
         tk_function c = [] \<or> trim_space (tk_function c) \<noteq> tk_function c \<or>
         list_ex (\<lambda>r. rune_is_space r \<or> rune_is_control r) (runes (tk_function c))
      then ([], False)
      else
        let function_valid = ps_top_k_function_id_valid E (tk_function c);
            method_valid = ps_top_k_method_id_valid E (tk_function c)
        in if tk_kind c = ''function'' then (''function'', function_valid)
           else if tk_kind c = ''method'' then (''method'', method_valid)
           else if tk_kind c = [] then
             (if function_valid = method_valid then ([], False)
              else if function_valid then (''function'', True)
              else (''method'', True))
           else ([], False))"

definition top_k_one_contract_valid :: "id_env \<Rightarrow> top_k_one_contract \<Rightarrow> bool" where
  "top_k_one_contract_valid E c = snd (resolved_kind E c)"

record scoped_backend_routing_contract =
  sb_name :: string
  sb_configured_site :: string
  sb_backend_get :: string
  sb_context_with_backend :: string
  sb_preference :: string
  sb_set_preference :: string
  sb_selected_backend :: string
  sb_construction_callables :: "string list"
  sb_global_routers :: "string list"
  sb_process_global_writer_isolation :: bool

definition scoped_backend_routing_contract_valid :: "id_env \<Rightarrow> scoped_backend_routing_contract \<Rightarrow> bool" where
  "scoped_backend_routing_contract_valid E c =
    (sb_name c \<noteq> [] \<and> trim_space (sb_name c) = sb_name c \<and>
     ps6109_callable_id_valid E (sb_configured_site c) \<and>
     ps6109_callable_id_valid E (sb_backend_get c) \<and>
     ps6109_callable_id_valid E (sb_context_with_backend c) \<and>
     ps6109_callable_id_valid E (sb_preference c) \<and>
     ps6109_callable_id_valid E (sb_set_preference c) \<and>
     ps6109_type_id_valid E (sb_selected_backend c) \<and>
     sb_construction_callables c \<noteq> [] \<and> sb_global_routers c \<noteq> [] \<and>
     sb_process_global_writer_isolation c \<and>
     all_contract_names_valid E (sb_construction_callables c) \<and>
     all_contract_names_valid E (sb_global_routers c))"

record recursive_metadata_ignore_contract =
  rm_name :: string
  rm_builder :: string
  rm_matcher :: string
  rm_root_field :: string
  rm_ignore_field :: string
  rm_directory_name :: string
  rm_any_depth_intent :: bool
  rm_non_embedded_metadata_only :: bool

definition recursive_metadata_ignore_contract_valid :: "id_env \<Rightarrow> recursive_metadata_ignore_contract \<Rightarrow> bool" where
  "recursive_metadata_ignore_contract_valid E c =
    (rm_name c \<noteq> [] \<and> trim_space (rm_name c) = rm_name c \<and>
     ps6109_callable_id_valid E (rm_builder c) \<and>
     ps6109_callable_id_valid E (rm_matcher c) \<and> rm_root_field c \<noteq> [] \<and>
     rm_ignore_field c \<noteq> [] \<and> rm_directory_name c \<noteq> [] \<and>
     path_base (rm_directory_name c) = rm_directory_name c \<and>
     rm_directory_name c \<noteq> ''.'' \<and> rm_directory_name c \<noteq> ''..'' \<and>
     rm_any_depth_intent c \<and> rm_non_embedded_metadata_only c)"

record native_generation_dispatch_contract =
  ng_name :: string
  ng_capability_predicate :: string
  ng_dispatch_variable :: string
  ng_installed_function :: string
  ng_worker_runner :: string
  ng_worker_argument :: int
  ng_main_loop_argument :: int
  ng_native_main_loop_argument :: int
  ng_native_main_loop_parameter :: string
  ng_native_main_loop_offset :: int
  ng_native_symbol :: string
  ng_assembly_file :: string
  ng_descriptor_literal :: string
  ng_required_generations :: "string list"
  ng_worker_executes_synchronously :: bool
  ng_descriptor_meaning_reviewed :: bool

definition native_generation_dispatch_contract_valid :: "id_env \<Rightarrow> native_generation_dispatch_contract \<Rightarrow> bool" where
  "native_generation_dispatch_contract_valid E c =
    (ng_name c \<noteq> [] \<and>
     ps_top_k_function_id_valid E (ng_capability_predicate c) \<and>
     ps_top_k_function_id_valid E (ng_installed_function c) \<and>
     ps_top_k_function_id_valid E (ng_worker_runner c) \<and>
     ps_top_k_function_id_valid E (ng_native_symbol c) \<and>
     ps_top_k_function_id_valid E (ng_dispatch_variable c) \<and>
     ng_worker_argument c \<ge> 0 \<and> ng_main_loop_argument c \<ge> 0 \<and>
     ng_native_main_loop_argument c \<ge> 0 \<and>
     ps_top_k_identifier_valid E (ng_native_main_loop_parameter c) \<and>
     ng_native_main_loop_offset c \<ge> 0 \<and> ng_assembly_file c \<noteq> [] \<and>
     ng_descriptor_literal c \<noteq> [] \<and> ng_required_generations c \<noteq> [] \<and>
     ng_worker_executes_synchronously c \<and> ng_descriptor_meaning_reviewed c)"

end
