(* ===== verification/Contracts_Workspace.thy ===== *)
theory Contracts_Workspace
  imports Contract_Ids Go_Text
begin

text \<open>
  The contracts that have files of their own under \<open>config/\<close>: output workspaces, dispatch
  crossovers, unused projection scratch, causal zero GEMM, transient context workspaces,
  active-bound fallbacks, row-local strided guards, native snapshot reuse and single-use
  quantization.
\<close>

record output_workspace_leaf =
  owl_method :: string
  owl_kind :: string
  owl_buffer_arguments :: "int list"
  owl_rows_argument :: int
  owl_width_argument :: int
  owl_host_argument :: int
  owl_semantics_reviewed :: bool
  owl_implementations :: "string list"
  owl_host_storage_method :: string
  owl_host_float32_method :: string
  owl_selected_capability_absence_allowed :: bool

record output_workspace_contract =
  ow_backend_ops_field :: string
  ow_backend_recorder_field :: string
  ow_native_recorder_factory :: string
  ow_native_recorder_type :: string
  ow_recorder_wrapper_type :: string
  ow_recorder_native_field :: string
  ow_buffer_wrapper_type :: string
  ow_buffer_native_field :: string
  ow_buffer_bridge :: string
  ow_projector_type :: string
  ow_projector_weight_field :: string
  ow_projector_inner_field :: string
  ow_projector_width_field :: string
  ow_projector_record_method :: string
  ow_recorder_projection_method :: string
  ow_native_projection_method :: string
  ow_native_access_semantics_reviewed :: bool
  ow_secondary_recorder_field :: string
  ow_async_recorder_field :: string
  ow_recorder_override_method :: string
  ow_native_override_factory :: string
  ow_recorder_override_wrapper_type :: string
  ow_recorder_override_embed_field :: string
  ow_recorder_override_metadata_field :: string
  ow_drop_pending_method :: string
  ow_owner_type :: string
  ow_retained_buffer_release_method :: string
  ow_native_buffer_release_method :: string
  ow_native_lifetime_semantics_reviewed :: bool
  ow_model_type :: string
  ow_model_config_field :: string
  ow_model_head_field :: string
  ow_config_maximum_rows_field :: string
  ow_config_width_field :: string
  ow_head_shape_method :: string
  ow_workspace_field :: string
  ow_slot_buffer_field :: string
  ow_maximum_rows_field :: string
  ow_width_field :: string
  ow_projector_field :: string
  ow_retained_list_field :: string
  ow_allocation_function :: string
  ow_constructor_entries :: "string list"
  ow_factory_function :: string
  ow_backend_allocator_field :: string
  ow_backend_allocators :: "string list"
  ow_release_method :: string
  ow_common_methods :: "string list"
  ow_bulk_method :: string
  ow_leaves :: "output_workspace_leaf list"
  ow_profile_maximum_rows :: int
  ow_profile_width :: int
  ow_dominant_one_row_policy_reviewed :: bool
  ow_explicit_rare_bulk_policy_reviewed :: bool
  ow_hard_realtime_no_growth :: bool
  ow_fresh_float32_ownership_reviewed :: bool
  ow_model_projector_width_reviewed :: bool
  ow_sequential_lifecycle_reviewed :: bool
  ow_checked_shape_arithmetic_reviewed :: bool
  ow_all_provider_build_paths_reviewed :: bool
  ow_external_observations_reviewed :: bool

definition output_workspace_contract_valid :: "id_env \<Rightarrow> output_workspace_contract \<Rightarrow> bool" where
  "output_workspace_contract_valid E c =
    (if \<not> ps_top_k_method_id_valid E (ow_retained_buffer_release_method c) \<or>
        \<not> ps_top_k_method_id_valid E (ow_native_buffer_release_method c) \<or>
        \<not> ow_native_lifetime_semantics_reviewed c
     then False
     else if ow_secondary_recorder_field c \<noteq> [] \<and>
        \<not> ps_top_k_identifier_valid E (ow_secondary_recorder_field c)
     then False
     else if (if ow_recorder_override_method c \<noteq> []
          then \<not> ps_top_k_method_id_valid E (ow_recorder_override_method c) \<or>
            \<not> ps_top_k_method_id_valid E (ow_drop_pending_method c) \<or>
            \<not> ps_top_k_function_id_valid E (ow_native_override_factory c) \<or>
            \<not> ps_top_k_function_id_valid E (ow_recorder_override_wrapper_type c) \<or>
            \<not> ps_top_k_identifier_valid E (ow_recorder_override_embed_field c) \<or>
            \<not> ps_top_k_identifier_valid E (ow_recorder_override_metadata_field c) \<or>
            \<not> ps_top_k_identifier_valid E (ow_async_recorder_field c) \<or>
            ow_secondary_recorder_field c = []
          else ow_native_override_factory c \<noteq> [] \<or>
            ow_recorder_override_wrapper_type c \<noteq> [] \<or>
            ow_recorder_override_embed_field c \<noteq> [] \<or>
            ow_recorder_override_metadata_field c \<noteq> [] \<or>
            ow_async_recorder_field c \<noteq> [] \<or> ow_drop_pending_method c \<noteq> [])
     then False
     else if list_ex (\<lambda>identity. \<not> ps_top_k_function_id_valid E identity) [ow_native_recorder_type c, ow_recorder_wrapper_type c, ow_buffer_wrapper_type c, ow_projector_type c]
     then False
     else if list_ex (\<lambda>identity. \<not> ps_top_k_function_id_valid E identity) [ow_native_recorder_factory c, ow_buffer_bridge c]
     then False
     else if list_ex (\<lambda>identity. \<not> ps_top_k_method_id_valid E identity) [ow_projector_record_method c, ow_recorder_projection_method c, ow_native_projection_method c]
     then False
     else if list_ex (\<lambda>field. \<not> ps_top_k_identifier_valid E field) [ow_backend_ops_field c,
         ow_backend_recorder_field c, ow_recorder_native_field c, ow_buffer_native_field c,
         ow_projector_weight_field c, ow_projector_inner_field c, ow_projector_width_field c]
     then False
     else if \<not> ow_native_access_semantics_reviewed c \<or>
        ow_backend_recorder_field c = ow_backend_allocator_field c \<or>
        ow_projector_weight_field c = ow_projector_inner_field c \<or>
        ow_projector_weight_field c = ow_projector_width_field c \<or>
        ow_projector_inner_field c = ow_projector_width_field c
     then False
     else if \<not> ps_top_k_function_id_valid E (ow_owner_type c) \<or>
        \<not> ps_top_k_function_id_valid E (ow_model_type c) \<or>
        \<not> ps_top_k_method_id_valid E (ow_head_shape_method c) \<or>
        \<not> ps6109_callable_id_valid E (ow_allocation_function c) \<or>
        \<not> ps6109_callable_id_valid E (ow_factory_function c) \<or>
        \<not> ps_top_k_method_id_valid E (ow_release_method c) \<or>
        \<not> ps_top_k_method_id_valid E (ow_bulk_method c) \<or>
        ow_common_methods c = [] \<or> ow_leaves c = [] \<or> ow_backend_allocators c = [] \<or>
        ow_constructor_entries c = [] \<or> \<not> ow_dominant_one_row_policy_reviewed c \<or>
        \<not> ow_explicit_rare_bulk_policy_reviewed c \<or> ow_hard_realtime_no_growth c \<or>
        \<not> ow_fresh_float32_ownership_reviewed c \<or>
        \<not> ow_model_projector_width_reviewed c \<or>
        \<not> ow_sequential_lifecycle_reviewed c \<or>
        \<not> ow_checked_shape_arithmetic_reviewed c \<or>
        \<not> ow_all_provider_build_paths_reviewed c \<or>
        \<not> ow_external_observations_reviewed c \<or> ow_profile_maximum_rows c < 0 \<or>
        ow_profile_width c < 0 \<or>
        (ow_profile_maximum_rows c = 0) \<noteq> (ow_profile_width c = 0)
     then False
     else let seen_fields = [ow_workspace_field c, ow_maximum_rows_field c, ow_width_field c,
         ow_projector_field c, ow_retained_list_field c] in
     case go_each (\<lambda>seen field.
           if \<not> ps_top_k_identifier_valid E field \<or> field \<in> seen
           then None
           else Some (insert field seen)) {} seen_fields of
       None \<Rightarrow> False
     | Some seen \<Rightarrow>
         if \<not> ps_top_k_identifier_valid E (ow_slot_buffer_field c) \<or>
            \<not> ps_top_k_identifier_valid E (ow_backend_allocator_field c)
         then False
         else if list_ex (\<lambda>field. \<not> ps_top_k_identifier_valid E field) [ow_model_config_field c,
             ow_model_head_field c, ow_config_maximum_rows_field c, ow_config_width_field c]
         then False
         else if ow_model_config_field c = ow_model_head_field c \<or>
            ow_config_maximum_rows_field c = ow_config_width_field c
         then False
         else case go_each (\<lambda>entries entry.
               if \<not> ps6109_callable_id_valid E entry \<or> entry \<in> entries
               then None
               else Some (insert entry entries)) {} (ow_constructor_entries c) of
           None \<Rightarrow> False
         | Some entries \<Rightarrow>
             case go_each (\<lambda>allocators allocator.
                   if \<not> ps6109_callable_id_valid E allocator \<or>
                      allocator \<in> allocators
                   then None
                   else Some (insert allocator allocators)) {} (ow_backend_allocators c) of
               None \<Rightarrow> False
             | Some allocators \<Rightarrow>
                 case go_each (\<lambda>seen_methods method.
                       if \<not> ps_top_k_method_id_valid E method \<or>
                          method \<in> seen_methods
                       then None
                       else Some (insert method seen_methods)) {ow_bulk_method c}
                           (ow_common_methods c) of
                   None \<Rightarrow> False
                 | Some seen_methods \<Rightarrow>
                     case go_each (\<lambda>leaves leaf.
                           if \<not> ps_top_k_method_id_valid E (owl_method leaf) \<or>
                              owl_method leaf \<in> leaves \<or>
                              \<not> owl_semantics_reviewed leaf \<or>
                              owl_buffer_arguments leaf = [] \<or>
                              owl_rows_argument leaf < -1 \<or>
                              owl_width_argument leaf < -1 \<or>
                              owl_host_argument leaf < -1 \<or>
                              (owl_implementations leaf = [] \<and>
                               \<not> owl_selected_capability_absence_allowed leaf) \<or>
                              (owl_selected_capability_absence_allowed leaf \<and>
                               owl_kind leaf \<noteq> ''prefix'' \<and>
                               owl_kind leaf \<noteq> ''capacity-transfer'')
                           then None
                           else let leaves = insert (owl_method leaf) leaves in
                           case go_each (\<lambda>roles role.
                                 if role < -1 \<or> role \<in> roles
                                 then None
                                 else Some (insert role roles)) {} (owl_buffer_arguments leaf) of
                             None \<Rightarrow> None
                           | Some roles \<Rightarrow>
                               case go_each (\<lambda>implementations implementation.
                                     if \<not> ps_top_k_method_id_valid E implementation \<or>
                                        implementation \<in> implementations
                                     then None
                                     else Some (insert implementation implementations)) {}
                                         (owl_implementations leaf) of
                                 None \<Rightarrow> None
                               | Some implementations \<Rightarrow>
                                   if (if owl_kind leaf = ''projection'' \<or> owl_kind leaf = ''row-width''
                                       then -1 \<in> roles \<or>
                                            owl_rows_argument leaf < 0 \<or>
                                            owl_host_argument leaf \<noteq> -1 \<or>
                                            (owl_kind leaf = ''row-width'' \<and>
                                             owl_width_argument leaf < 0) \<or>
                                            (owl_kind leaf = ''projection'' \<and>
                                             owl_width_argument leaf \<noteq> -1)
                                       else if owl_kind leaf = ''download''
                                       then int (card roles) \<noteq> 1 \<or>
                                            \<not> -1 \<in> roles \<or>
                                            owl_rows_argument leaf \<noteq> -1 \<or>
                                            owl_width_argument leaf \<noteq> -1 \<or>
                                            owl_host_argument leaf < 0
                                       else if owl_kind leaf = ''prefix''
                                       then int (card roles) \<noteq> 1 \<or>
                                            \<not> -1 \<in> roles \<or>
                                            owl_rows_argument leaf \<noteq> -1 \<or>
                                            owl_width_argument leaf < 0 \<or>
                                            owl_host_argument leaf \<noteq> -1
                                       else if owl_kind leaf = ''capacity-transfer''
                                       then int (card roles) \<noteq> 1 \<or>
                                            \<not> -1 \<in> roles \<or>
                                            owl_rows_argument leaf \<noteq> -1 \<or>
                                            owl_width_argument leaf \<noteq> -1 \<or>
                                            owl_host_argument leaf \<noteq> -1 \<or>
                                            \<not> ps_top_k_method_id_valid E (owl_host_storage_method leaf) \<or>
                                            \<not> ps_top_k_method_id_valid E (owl_host_float32_method leaf)
                                       else True)
                                   then None
                                   else if owl_kind leaf \<noteq> ''capacity-transfer'' \<and>
                                      (owl_host_storage_method leaf \<noteq> [] \<or>
                                       owl_host_float32_method leaf \<noteq> [])
                                   then None
                                   else Some leaves) {} (ow_leaves c) of
                       None \<Rightarrow> False
                     | Some leaves \<Rightarrow>
                         True)"

record dispatch_crossover_contract =
  dc_dispatch_function :: string
  dc_threshold_constant :: string
  dc_serial_policy :: string
  dc_parallel_policy :: string
  dc_serial_operation :: string
  dc_parallel_operation :: string
  dc_worker_runner :: string
  dc_leaf_kernels :: "string list"
  dc_diagnostic_function :: string
  dc_operation_input_factory :: string
  dc_production_benchmark :: string
  dc_campaign :: string
  dc_plan_sha256 :: string
  dc_records_sha256 :: string
  dc_evidence_go_binary :: string

definition dispatch_crossover_contract_valid :: "id_env \<Rightarrow> dispatch_crossover_contract \<Rightarrow> bool" where
  "dispatch_crossover_contract_valid E c =
    (if list_ex (\<lambda>name. \<not> ps_top_k_function_id_valid E name) [dc_dispatch_function c,
         dc_threshold_constant c, dc_serial_policy c, dc_parallel_policy c, dc_worker_runner c,
         dc_operation_input_factory c, dc_diagnostic_function c]
     then False
     else if list_ex (\<lambda>name. name \<noteq> [] \<and>
         \<not> ps_top_k_function_id_valid E name) [dc_serial_operation c, dc_parallel_operation c]
     then False
     else if \<not> has_prefix (dc_production_benchmark c) ''Benchmark'' \<or>
        int (str_count (dc_production_benchmark c) ''{n}'') \<noteq> 1
     then False
     else if dc_leaf_kernels c = [] \<or> dc_campaign c = [] \<or>
        trim_space (dc_campaign c) \<noteq> dc_campaign c
     then False
     else if list_ex (\<lambda>name. \<not> ps_top_k_function_id_valid E name) (dc_leaf_kernels c)
     then False
     else True)"

record unused_projection_binding =
  upb_field :: string
  upb_concrete_type :: string

record unused_projection_scratch_contract =
  up_owner_type :: string
  up_model_type :: string
  up_constructor_entry :: string
  up_constructor_function :: string
  up_model_config_field :: string
  up_config_rows_field :: string
  up_config_width_field :: string
  up_maximum_rows_field :: string
  up_width_field :: string
  up_workspace_field :: string
  up_slot_buffer_field :: string
  up_retained_list_field :: string
  up_backend_ops_field :: string
  up_backend_allocator_field :: string
  up_backend_allocator :: string
  up_allocation_function :: string
  up_release_method :: string
  up_native_release_method :: string
  up_block_type :: string
  up_blocks_field :: string
  up_projections :: "unused_projection_binding list"
  up_class_flags :: "string list"
  up_unused_formal :: int
  up_native_allocation_count_bits :: int
  up_native_allocation_count_unit :: string
  up_native_size_bits :: int
  up_profile_rows :: int
  up_profile_width :: int
  up_fresh_independent_float32_storage_reviewed :: bool
  up_native_failure_ownership_reviewed :: bool
  up_native_input_copy_and_aliases_reviewed :: bool
  up_native_release_and_finalizer_reviewed :: bool
  up_sequential_completion_reviewed :: bool
  up_positive_checked_source_geometry_reviewed :: bool
  up_native_byte_count_range_reviewed :: bool
  up_external_owner_observations_reviewed :: bool
  up_all_provider_build_paths_reviewed :: bool

text \<open>
  The profile bound at the end of \<open>Valid\<close>: the largest element count that the native count
  argument, the native size and a signed 64-bit byte count can hold.
\<close>

definition unused_projection_maximum_elements :: "unused_projection_scratch_contract \<Rightarrow> int" where
  "unused_projection_maximum_elements c =
     (let maximum_count = (if up_native_allocation_count_bits c = 32 then 2 ^ 31 - 1 else 2 ^ 63 - 1);
          maximum_count = (if up_native_allocation_count_unit c = ''bytes'' then maximum_count div 4 else maximum_count);
          maximum_size = (if up_native_size_bits c = 32 then 2 ^ 32 - 1 else 2 ^ 64 - 1)
      in min maximum_count (min (maximum_size div 4) ((2 ^ 63 - 1) div 4)))"

definition unused_projection_profile_too_large :: "unused_projection_scratch_contract \<Rightarrow> bool" where
  "unused_projection_profile_too_large c =
     (up_profile_width c > unused_projection_maximum_elements c \<or>
      up_profile_rows c > go_quo (unused_projection_maximum_elements c) (up_profile_width c))"

definition unused_projection_scratch_contract_valid :: "id_env \<Rightarrow> unused_projection_scratch_contract \<Rightarrow> bool" where
  "unused_projection_scratch_contract_valid E c =
    (if up_unused_formal c < 0 \<or> up_projections c = [] \<or> up_class_flags c = [] \<or>
        \<not> up_fresh_independent_float32_storage_reviewed c \<or>
        \<not> up_native_failure_ownership_reviewed c \<or>
        \<not> up_native_input_copy_and_aliases_reviewed c \<or>
        \<not> up_native_release_and_finalizer_reviewed c \<or>
        \<not> up_sequential_completion_reviewed c \<or>
        \<not> up_positive_checked_source_geometry_reviewed c \<or>
        \<not> up_native_byte_count_range_reviewed c \<or>
        \<not> up_external_owner_observations_reviewed c \<or>
        \<not> up_all_provider_build_paths_reviewed c
     then False
     else if list_ex (\<lambda>identity. \<not> ps_top_k_function_id_valid E identity) [up_owner_type c,
         up_model_type c, up_block_type c, up_constructor_entry c, up_constructor_function c,
         up_backend_allocator c]
     then False
     else if \<not> ps6109_callable_id_valid E (up_allocation_function c) \<or>
        \<not> ps_top_k_method_id_valid E (up_release_method c) \<or>
        \<not> ps_top_k_method_id_valid E (up_native_release_method c) \<or>
        up_owner_type c = up_model_type c \<or> up_owner_type c = up_block_type c \<or>
        up_model_type c = up_block_type c \<or> up_config_rows_field c = up_config_width_field c
     then False
     else if list_ex (\<lambda>field. \<not> ps_top_k_identifier_valid E field) [up_model_config_field c,
         up_config_rows_field c, up_config_width_field c, up_slot_buffer_field c,
         up_backend_allocator_field c]
     then False
     else case go_each (\<lambda>owner_fields field.
           if \<not> ps_top_k_identifier_valid E field \<or> field \<in> owner_fields
           then None
           else Some (insert field owner_fields)) {} [up_maximum_rows_field c, up_width_field c,
               up_workspace_field c, up_retained_list_field c, up_backend_ops_field c,
               up_blocks_field c] of
       None \<Rightarrow> False
     | Some owner_fields \<Rightarrow>
         case go_each (\<lambda>owner_fields field.
               if \<not> ps_top_k_identifier_valid E field \<or> field \<in> owner_fields
               then None
               else Some (insert field owner_fields)) owner_fields (up_class_flags c) of
           None \<Rightarrow> False
         | Some owner_fields \<Rightarrow>
             case go_each (\<lambda>projections projection.
                   if \<not> ps_top_k_identifier_valid E (upb_field projection) \<or>
                      \<not> ps_top_k_function_id_valid E (upb_concrete_type projection) \<or>
                      upb_field projection \<in> projections
                   then None
                   else Some (insert (upb_field projection) projections)) {} (up_projections c) of
               None \<Rightarrow> False
             | Some projections \<Rightarrow>
                 if (up_native_allocation_count_bits c \<noteq> 32 \<and>
                     up_native_allocation_count_bits c \<noteq> 64) \<or>
                    up_native_size_bits c \<noteq> 32 \<and> up_native_size_bits c \<noteq> 64 \<or>
                    (up_native_allocation_count_unit c \<noteq> ''bytes'' \<and>
                     up_native_allocation_count_unit c \<noteq> ''float32-elements'') \<or>
                    up_profile_rows c < 0 \<or> up_profile_width c < 0 \<or>
                    (up_profile_rows c = 0) \<noteq> (up_profile_width c = 0)
                 then False
                 else if up_profile_rows c \<noteq> 0 \<and> unused_projection_profile_too_large c
                 then False
                 else True)"

record causal_zero_gemm_matrix =
  czm_source_binding :: string
  czm_transpose_binding :: string
  czm_probability :: bool

record causal_zero_gemm_contract =
  cz_owner_site :: string
  cz_gemm_function :: string
  cz_bounds_method :: string
  cz_probability_helper :: string
  cz_scratch_allocator :: string
  cz_scratch_release :: string
  cz_non_retaining_buffer_helpers :: "string list"
  cz_rows_binding :: string
  cz_sequence_binding :: string
  cz_query_offset_binding :: string
  cz_geometry_binding :: string
  cz_sequence_field :: string
  cz_causal_field :: string
  cz_offset_field :: string
  cz_matrices :: "causal_zero_gemm_matrix list"
  cz_bounds_semantics_reviewed :: bool
  cz_self_attention_geometry_reviewed :: bool
  cz_scratch_ownership_reviewed :: bool
  cz_helper_semantics_reviewed :: bool
  cz_probability_all_dispatch_paths_clear_reviewed :: bool

definition causal_zero_gemm_contract_valid :: "id_env \<Rightarrow> causal_zero_gemm_contract \<Rightarrow> bool" where
  "causal_zero_gemm_contract_valid E c =
    (if cz_owner_site c = [] \<or> cz_gemm_function c = [] \<or> cz_bounds_method c = [] \<or>
        cz_scratch_allocator c = [] \<or> cz_scratch_release c = [] \<or>
        \<not> cz_bounds_semantics_reviewed c \<or>
        \<not> cz_self_attention_geometry_reviewed c \<or>
        \<not> cz_scratch_ownership_reviewed c \<or> \<not> cz_helper_semantics_reviewed c \<or>
        cz_matrices c = []
     then False
     else if list_ex (\<lambda>id. \<not> ps_top_k_function_id_valid E id) [cz_owner_site c, cz_gemm_function c,
         cz_scratch_allocator c, cz_scratch_release c]
     then False
     else if \<not> ps_top_k_method_id_valid E (cz_bounds_method c)
     then False
     else if cz_probability_helper c \<noteq> [] \<and>
        \<not> ps_top_k_function_id_valid E (cz_probability_helper c)
     then False
     else if list_ex (\<lambda>id. \<not> ps_top_k_function_id_valid E id) (cz_non_retaining_buffer_helpers c)
     then False
     else case go_each (\<lambda>seen name.
           if \<not> is_identifier E name \<or> name = ''_'' \<or> name \<in> seen
           then None
           else Some (insert name seen)) {} [cz_rows_binding c, cz_sequence_binding c,
               cz_query_offset_binding c, cz_geometry_binding c] of
       None \<Rightarrow> False
     | Some seen \<Rightarrow>
         case go_each (\<lambda>seen_fields name.
               if \<not> is_identifier E name \<or> name = ''_'' \<or> name \<in> seen_fields
               then None
               else Some (insert name seen_fields)) {} [cz_sequence_field c, cz_causal_field c,
                   cz_offset_field c] of
           None \<Rightarrow> False
         | Some seen_fields \<Rightarrow>
             case go_each (\<lambda>seen mx.
                   case go_each (\<lambda>seen name.
                         if \<not> is_identifier E name \<or> name = ''_'' \<or> name \<in> seen
                         then None
                         else Some (insert name seen)) seen [czm_source_binding mx,
                             czm_transpose_binding mx] of
                     None \<Rightarrow> None
                   | Some seen \<Rightarrow>
                       if czm_probability mx \<and>
                          (cz_probability_helper c = [] \<or>
                           \<not> cz_probability_all_dispatch_paths_clear_reviewed c)
                       then None
                       else Some seen) seen (cz_matrices c) of
               None \<Rightarrow> False
             | Some seen \<Rightarrow>
                 True)"

record context_transient_workspace_contract =
  ct_allocation_method :: string
  ct_allocator_parameter :: string
  ct_maximum_rows_field :: string
  ct_scratch_fields :: "string list"
  ct_geometry_preserving_methods :: "string list"
  ct_row_method :: string
  ct_row_argument :: int
  ct_one_row_execution_method :: string
  ct_batch_execution_method :: string
  ct_batch_rows_binding :: string
  ct_constructor_only_allocation_reviewed :: bool
  ct_allocator_callback_ownership_reviewed :: bool
  ct_all_execution_paths_transient_active_rows_reviewed :: bool
  ct_recurrent_one_row_paths_reviewed :: bool
  ct_receiver_calls_sequential :: bool
  ct_checked_geometry_reviewed :: bool
  ct_synchronization_lifecycle_reviewed :: bool
  ct_external_observation_reviewed :: bool

definition context_transient_workspace_contract_valid :: "id_env \<Rightarrow> context_transient_workspace_contract \<Rightarrow> bool" where
  "context_transient_workspace_contract_valid E c =
    (if \<not> ps_top_k_method_id_valid E (ct_allocation_method c) \<or>
        \<not> ps_top_k_method_id_valid E (ct_row_method c) \<or>
        \<not> ps_top_k_method_id_valid E (ct_one_row_execution_method c) \<or>
        \<not> ps_top_k_method_id_valid E (ct_batch_execution_method c) \<or>
        ct_allocation_method c = ct_row_method c \<or>
        ct_one_row_execution_method c = ct_batch_execution_method c \<or>
        \<not> ps_top_k_identifier_valid E (ct_allocator_parameter c) \<or>
        \<not> ps_top_k_identifier_valid E (ct_maximum_rows_field c) \<or>
        \<not> ps_top_k_identifier_valid E (ct_batch_rows_binding c) \<or>
        ct_row_argument c < 0 \<or> ct_scratch_fields c = [] \<or>
        \<not> ct_constructor_only_allocation_reviewed c \<or>
        \<not> ct_allocator_callback_ownership_reviewed c \<or>
        \<not> ct_all_execution_paths_transient_active_rows_reviewed c \<or>
        \<not> ct_recurrent_one_row_paths_reviewed c \<or>
        \<not> ct_receiver_calls_sequential c \<or> \<not> ct_checked_geometry_reviewed c \<or>
        \<not> ct_synchronization_lifecycle_reviewed c \<or>
        \<not> ct_external_observation_reviewed c
     then False
     else case go_each (\<lambda>seen field.
           if \<not> ps_top_k_identifier_valid E field \<or>
              field = ct_maximum_rows_field c \<or> field \<in> seen
           then None
           else Some (insert field seen)) {} (ct_scratch_fields c) of
       None \<Rightarrow> False
     | Some seen \<Rightarrow>
         if list_ex (\<lambda>method. \<not> ps_top_k_method_id_valid E method) (ct_geometry_preserving_methods c)
         then False
         else True)"

record active_bound_fallback_contract =
  ab_wrapper_method :: string
  ab_provider_type :: string
  ab_capability_type :: string
  ab_bounded_method :: string
  ab_capacity_method :: string
  ab_provider_argument :: int
  ab_buffer_arguments :: "int list"
  ab_operation_argument :: int
  ab_rows_argument :: int
  ab_width_argument :: int
  ab_bounded_active_prefix_reviewed :: bool
  ab_fallback_capacity_wide_reviewed :: bool
  ab_same_operation_buffer_roles_reviewed :: bool
  ab_active_rows_may_be_below_capacity_reviewed :: bool
  ab_inactive_tail_unobserved_reviewed :: bool
  ab_provider_and_build_paths_reviewed :: bool
  ab_errors_shape_and_synchronization_reviewed :: bool

definition active_bound_fallback_contract_valid :: "id_env \<Rightarrow> active_bound_fallback_contract \<Rightarrow> bool" where
  "active_bound_fallback_contract_valid E c =
    (if \<not> ps_top_k_method_id_valid E (ab_wrapper_method c) \<or>
        \<not> ps_top_k_function_id_valid E (ab_provider_type c) \<or>
        \<not> ps_top_k_function_id_valid E (ab_capability_type c) \<or>
        ab_provider_type c = ab_capability_type c \<or>
        \<not> ps_top_k_identifier_valid E (ab_bounded_method c) \<or>
        \<not> ps_top_k_identifier_valid E (ab_capacity_method c) \<or>
        ab_bounded_method c = ab_capacity_method c \<or>
        int (length (ab_buffer_arguments c)) \<noteq> 3 \<or>
        \<not> ab_bounded_active_prefix_reviewed c \<or>
        \<not> ab_fallback_capacity_wide_reviewed c \<or>
        \<not> ab_same_operation_buffer_roles_reviewed c \<or>
        \<not> ab_active_rows_may_be_below_capacity_reviewed c \<or>
        \<not> ab_inactive_tail_unobserved_reviewed c \<or>
        \<not> ab_provider_and_build_paths_reviewed c \<or>
        \<not> ab_errors_shape_and_synchronization_reviewed c
     then False
     else let roles = [ab_provider_argument c, ab_operation_argument c, ab_rows_argument c,
         ab_width_argument c] @ ab_buffer_arguments c in
     if \<not> index_roles roles
     then False
     else True)"

record native_layout_evidence =
  nle_file :: string
  nle_start :: string
  nle_end :: string
  nle_sha256 :: string

record row_local_strided_guard_contract =
  sg_wrapper_method :: string
  sg_native_callable :: string
  sg_element_count_field :: string
  sg_handle_field :: string
  sg_native_arguments :: "int list"
  sg_shader_binding :: string
  sg_evidence :: "native_layout_evidence list"
  sg_row_local_band_indexing_reviewed :: bool
  sg_head_and_half_width_relation_reviewed :: bool
  sg_unshifted_backing_handle_reviewed :: bool
  sg_element_count_and_float32_storage_reviewed :: bool
  sg_native_code_generation_and_build_paths_reviewed :: bool
  sg_checked_arithmetic_and_shape_behavior_reviewed :: bool
  sg_errors_fallback_and_synchronization_reviewed :: bool

definition row_local_strided_guard_contract_valid :: "id_env \<Rightarrow> row_local_strided_guard_contract \<Rightarrow> bool" where
  "row_local_strided_guard_contract_valid E c =
    (if \<not> ps_top_k_method_id_valid E (sg_wrapper_method c) \<or>
        \<not> has_prefix (sg_native_callable c) ''C.'' \<or>
        \<not> ps_top_k_identifier_valid E (trim_prefix (sg_native_callable c) ''C.'') \<or>
        \<not> ps_top_k_identifier_valid E (sg_element_count_field c) \<or>
        \<not> ps_top_k_identifier_valid E (sg_handle_field c) \<or>
        sg_element_count_field c = sg_handle_field c \<or>
        int (length (sg_native_arguments c)) \<noteq> 12 \<or>
        int (length (sg_evidence c)) < 2 \<or>
        \<not> sg_row_local_band_indexing_reviewed c \<or>
        \<not> sg_head_and_half_width_relation_reviewed c \<or>
        \<not> sg_unshifted_backing_handle_reviewed c \<or>
        \<not> sg_native_code_generation_and_build_paths_reviewed c \<or>
        \<not> sg_checked_arithmetic_and_shape_behavior_reviewed c \<or>
        \<not> sg_errors_fallback_and_synchronization_reviewed c \<or>
        \<not> sg_element_count_and_float32_storage_reviewed c
     then False
     else if sg_shader_binding c \<noteq> [] \<and>
        \<not> ps_top_k_function_id_valid E (sg_shader_binding c)
     then False
     else let seen = insert 0 {} in
     case go_each (\<lambda>seen role.
           if role < 1 \<or> role > 14 \<or> role \<in> seen
           then None
           else Some (insert role seen)) seen (sg_native_arguments c) of
       None \<Rightarrow> False
     | Some seen \<Rightarrow>
         let want = 13 in
         let want = (if sg_shader_binding c \<noteq> [] then 15 else want) in
         if list_ex (\<lambda>role. role \<ge> want) (sg_native_arguments c)
         then False
         else if want = 15 \<and> (1 \<in> seen \<or> 2 \<in> seen)
         then False
         else let bridge = False in
         case go_each (\<lambda>(bridge, seen_files) e.
               let bridge = bridge \<or>
                            nle_start e = ''int '' @ trim_prefix (sg_native_callable c) ''C.'' @
                                ''('' in
               let key = nle_file e @ [CHR 0x00] @ nle_start e in
               if nle_file e = [] \<or> is_abs (nle_file e) \<or>
                  path_clean (nle_file e) \<noteq> nle_file e \<or>
                  has_backslash (nle_file e) \<or> has_prefix (nle_file e) ''../'' \<or>
                  nle_start e = [] \<or> nle_end e = [] \<or> nle_start e = nle_end e \<or>
                  key \<in> seen_files \<or> int (length (nle_sha256 e)) \<noteq> 64 \<or>
                  ascii_lower (nle_sha256 e) \<noteq> nle_sha256 e
               then None
               else if \<not> hex_ok (nle_sha256 e)
               then None
               else let seen_files = insert key seen_files in
               Some (bridge, seen_files)) (bridge, {}) (sg_evidence c) of
           None \<Rightarrow> False
         | Some (bridge, seen_files) \<Rightarrow>
             bridge)"

record native_snapshot_numeric_field =
  nsn_native_field :: string
  nsn_result_field :: string

record native_snapshot_reuse_contract =
  nr_candidate_method :: string
  nr_acquire_callable :: string
  nr_tokens_callable :: string
  nr_lifecycle_method :: string
  nr_receiver_handle_field :: string
  nr_result_slice_field :: string
  nr_result_string_field :: string
  nr_native_string_field :: string
  nr_fill_callable :: string
  nr_own_method :: string
  nr_into_method :: string
  nr_handle_argument :: int
  nr_pointer_out_argument :: int
  nr_count_out_argument :: int
  nr_scalar_out_arguments :: "int list"
  nr_scalar_result_fields :: "string list"
  nr_event_numeric_fields :: "native_snapshot_numeric_field list"
  nr_event_span_field :: string
  nr_event_start_field :: string
  nr_event_duration_field :: string
  nr_native_storage_lifetime_reviewed :: bool
  nr_native_record_shape_and_termination_reviewed :: bool
  nr_readonly_synchronous_extraction_reviewed :: bool
  nr_token_identity_and_content_reviewed :: bool
  nr_repeated_extraction_policy_reviewed :: bool
  nr_owned_output_and_error_semantics_reviewed :: bool

definition native_snapshot_reuse_contract_valid :: "id_env \<Rightarrow> native_snapshot_reuse_contract \<Rightarrow> bool" where
  "native_snapshot_reuse_contract_valid E c =
    (if \<not> ps_top_k_method_id_valid E (nr_candidate_method c) \<or>
        \<not> ps_top_k_method_id_valid E (nr_lifecycle_method c) \<or>
        \<not> ps_top_k_method_id_valid E (nr_own_method c) \<or>
        \<not> ps_top_k_method_id_valid E (nr_into_method c) \<or>
        \<not> ps_top_k_function_id_valid E (nr_fill_callable c) \<or>
        \<not> ps_top_k_identifier_valid E (nr_receiver_handle_field c) \<or>
        \<not> ps_top_k_identifier_valid E (nr_result_string_field c) \<or>
        \<not> ps_top_k_identifier_valid E (nr_native_string_field c) \<or>
        (nr_result_slice_field c \<noteq> [] \<and>
         \<not> ps_top_k_identifier_valid E (nr_result_slice_field c)) \<or>
        \<not> ps_top_k_function_id_valid E (nr_acquire_callable c) \<or>
        \<not> ps_top_k_function_id_valid E (nr_tokens_callable c) \<or>
        \<not> nr_native_storage_lifetime_reviewed c \<or>
        \<not> nr_native_record_shape_and_termination_reviewed c \<or>
        \<not> nr_readonly_synchronous_extraction_reviewed c \<or>
        \<not> nr_token_identity_and_content_reviewed c \<or>
        \<not> nr_repeated_extraction_policy_reviewed c \<or>
        \<not> nr_owned_output_and_error_semantics_reviewed c
     then False
     else let roles = [nr_handle_argument c, nr_pointer_out_argument c, nr_count_out_argument c] @
         nr_scalar_out_arguments c in
     let seen_methods = [nr_candidate_method c, nr_lifecycle_method c, nr_own_method c,
         nr_into_method c] in
     if list_ex (\<lambda>(i, id). if list_ex (\<lambda>other. id = other) (take i seen_methods)
           then True
           else False) (enumerate 0 seen_methods)
     then False
     else if \<not> index_roles roles
     then False
     else if int (length (nr_scalar_result_fields c)) \<noteq> int (length (nr_scalar_out_arguments c)) \<or>
        nr_event_numeric_fields c = []
     then False
     else let seen_fields = insert (nr_result_string_field c) {} in
     case go_each (\<lambda>seen_fields f.
           if \<not> ps_top_k_identifier_valid E (nsn_native_field f) \<or>
              \<not> ps_top_k_identifier_valid E (nsn_result_field f) \<or>
              nsn_result_field f \<in> seen_fields
           then None
           else Some (insert (nsn_result_field f) seen_fields)) seen_fields (nr_event_numeric_fields c) of
       None \<Rightarrow> False
     | Some seen_fields \<Rightarrow>
         if nr_event_span_field c \<noteq> [] \<and>
            (\<not> nr_event_start_field c \<in> seen_fields \<or>
             \<not> nr_event_duration_field c \<in> seen_fields \<or>
             nr_event_start_field c = nr_event_duration_field c \<or>
             nr_event_start_field c = nr_result_string_field c \<or>
             nr_event_duration_field c = nr_result_string_field c)
         then False
         else let seen_fields = (if nr_result_slice_field c \<noteq>
             [] then insert (nr_result_slice_field c) {} else {}) in
         case go_each (\<lambda>seen_fields f.
               if \<not> ps_top_k_identifier_valid E f \<or> f \<in> seen_fields
               then None
               else Some (insert f seen_fields)) seen_fields (nr_scalar_result_fields c) of
           None \<Rightarrow> False
         | Some seen_fields \<Rightarrow>
             if nr_event_span_field c \<noteq> [] \<and>
                (\<not> ps_top_k_identifier_valid E (nr_event_span_field c) \<or>
                 nr_event_span_field c \<in> seen_fields \<or>
                 \<not> ps_top_k_identifier_valid E (nr_event_start_field c) \<or>
                 \<not> ps_top_k_identifier_valid E (nr_event_duration_field c))
             then False
             else nr_result_slice_field c \<noteq> [] \<or>
             nr_scalar_result_fields c = [] \<and> nr_event_span_field c = [])"

record single_use_quantization_exemption =
  sqe_policy :: string
  sqe_sha256 :: string

record single_use_quantization_contract =
  sq_quantizer :: string
  sq_consumer :: string
  sq_float_input_argument :: int
  sq_producer_form :: string
  sq_destination_argument :: int
  sq_packed_argument :: int
  sq_rows_argument :: int
  sq_consumer_form :: string
  sq_weight_argument :: int
  sq_quantization_and_dot_meaning_reviewed :: bool
  sq_benchmark_exempt_owners :: "string list"
  sq_benchmark_exemption_reason :: string
  sq_benchmark_exemptions :: "single_use_quantization_exemption list"

definition single_use_quantization_contract_valid :: "id_env \<Rightarrow> single_use_quantization_contract \<Rightarrow> bool" where
  "single_use_quantization_contract_valid E c =
    (if sq_benchmark_exempt_owners c \<noteq> [] \<or>
        sq_benchmark_exemption_reason c \<noteq> []
     then False
     else if \<not> ps_top_k_function_id_valid E (sq_quantizer c) \<or>
        \<not> ps_top_k_function_id_valid E (sq_consumer c) \<or>
        sq_quantizer c = sq_consumer c \<or>
        \<not> sq_quantization_and_dot_meaning_reviewed c \<or> sq_packed_argument c < 0 \<or>
        sq_packed_argument c > 1
     then False
     else if (if sq_producer_form c = [] \<or> sq_producer_form c = ''return''
         then sq_float_input_argument c \<noteq> 0 \<or> sq_destination_argument c \<noteq> 0
         else if sq_producer_form c = ''destination''
         then sq_consumer_form c \<noteq> ''sourceSummary'' \<or>
              sq_float_input_argument c < 0 \<or> sq_float_input_argument c > 1 \<or>
              sq_destination_argument c < 0 \<or> sq_destination_argument c > 1 \<or>
              sq_float_input_argument c = sq_destination_argument c
         else True)
     then False
     else if (if sq_consumer_form c = [] \<or> sq_consumer_form c = ''selfDot''
         then sq_rows_argument c < 0 \<or> sq_rows_argument c > 1 \<or>
              sq_packed_argument c = sq_rows_argument c \<or> sq_weight_argument c \<noteq> 0
         else if sq_consumer_form c = ''twoInputDot'' \<or> sq_consumer_form c = ''sourceSummary'' \<or>
             sq_consumer_form c = ''packedByteDot''
         then if sq_consumer_form c = ''sourceSummary'' \<and> sq_weight_argument c = -1 \<and>
                 sq_packed_argument c = 0 \<and> sq_rows_argument c = -1
              then False
              else sq_rows_argument c \<noteq> -1 \<or> sq_weight_argument c < 0 \<or>
              sq_weight_argument c > 1 \<or> sq_packed_argument c = sq_weight_argument c
         else True)
     then False
     else case go_each (\<lambda>seen exemption.
           if sqe_policy exemption = [] \<or>
              int (length (sqe_sha256 exemption)) \<noteq> 64 \<or>
              \<not> hex_ok (sqe_sha256 exemption) \<or> sqe_policy exemption \<in> seen
           then None
           else Some (insert (sqe_policy exemption) seen)) {} (sq_benchmark_exemptions c) of
       None \<Rightarrow> False
     | Some seen \<Rightarrow>
         if (sq_benchmark_exempt_owners c = []) \<noteq> (sq_benchmark_exemption_reason c = [])
         then False
         else if list_ex (\<lambda>(i, owner). \<not> ps_top_k_function_id_valid E owner \<or>
               owner \<in> set (take i (sq_benchmark_exempt_owners c))) (enumerate 0 (sq_benchmark_exempt_owners c))
         then False
         else True)"

end
