(* ===== verification/Contract_Policy.thy ===== *)
theory Contract_Policy
  imports Contracts_Lookup Contracts_Accelerator Contracts_Calls Contracts_Workspace
begin

text \<open>
  Which configured contracts are usable: the \<open>Usable*Count\<close> functions of package
  \<open>config\<close> and the \<open>valid*Contracts\<close> functions of \<open>internal/runner/runner.go\<close>. Most of
  them refuse contracts whose claim is made twice. They tally the claims in a map first,
  some over the valid contracts only and some over all of them, and then count the valid
  contracts whose claims have the tally one.
\<close>

section \<open>Counting claims\<close>

definition tally :: "('a \<Rightarrow> bool) \<Rightarrow> ('a \<Rightarrow> 'k) \<Rightarrow> 'a list \<Rightarrow> 'k \<Rightarrow> nat" where
  "tally counted key cs k = count_list (map key (filter counted cs)) k"

definition usable_contracts ::
    "('a \<Rightarrow> bool) \<Rightarrow> ('a \<Rightarrow> bool) \<Rightarrow> ('a \<Rightarrow> 'k) list \<Rightarrow> 'a list \<Rightarrow> 'a list" where
  "usable_contracts counted valid keys cs =
     filter (\<lambda>c. valid c \<and> list_all (\<lambda>key. tally counted key cs (key c) = 1) keys) cs"

text \<open>The plain counters, without claims.\<close>

definition valid_count :: "('a \<Rightarrow> bool) \<Rightarrow> 'a list \<Rightarrow> nat" where
  "valid_count valid cs = length (filter valid cs)"

definition ps_shared_fan_out_claim :: "shared_fan_out_contract \<Rightarrow> string" where
  "ps_shared_fan_out_claim c =
     (let p = sf_producers c ! 0; q = sf_producers c ! 1 in
      sf_owner_site c @ [CHR 0x00] @ sf_owner_kind c @ [CHR 0x00] @
      sfp_callable p @ [CHR 0x00] @ sfp_kind p @ [CHR 0x00] @ sfp_receiver_path p @ [CHR 0x00] @
      sfp_callable q @ [CHR 0x00] @ sfp_kind q @ [CHR 0x00] @ sfp_receiver_path q)"

definition single_use_claim :: "single_use_quantization_contract \<Rightarrow> string" where
  "single_use_claim c = sq_quantizer c @ [CHR 0x00] @ sq_consumer c"

lemma distinct_iff_count: "distinct xs \<longleftrightarrow> (\<forall>k. count_list xs k \<le> 1)"
proof (induction xs)
  case Nil
  show ?case by simp
next
  case (Cons x xs)
  have step: "count_list (x # xs) k = (if x = k then Suc (count_list xs k) else count_list xs k)" for k
    by simp
  show ?case
  proof
    assume "distinct (x # xs)"
    then have "count_list xs x = 0" and "\<forall>k. count_list xs k \<le> 1"
      using Cons.IH by (auto simp: count_list_0_iff)
    then show "\<forall>k. count_list (x # xs) k \<le> 1" unfolding step by (metis One_nat_def order_refl)
  next
    assume c: "\<forall>k. count_list (x # xs) k \<le> 1"
    then have "count_list xs x = 0" unfolding step by (metis One_nat_def Suc_le_mono le_zero_eq)
    moreover from c have "\<forall>k. count_list xs k \<le> 1" unfolding step by (metis Suc_leD)
    ultimately show "distinct (x # xs)" using Cons.IH by (simp add: count_list_0_iff)
  qed
qed

lemma distinct_count_one: "distinct xs \<Longrightarrow> x \<in> set xs \<Longrightarrow> count_list xs x = 1"
  using distinct_iff_count [of xs] count_list_0_iff [of xs x]
  by (metis One_nat_def le_SucE le_zero_eq)

section \<open>The policy\<close>

locale claim_policy =
  fixes counted valid :: "'a \<Rightarrow> bool" and keys :: "('a \<Rightarrow> 'k) list"
  assumes valid_counted: "valid c \<Longrightarrow> counted c"
    and some_key: "keys \<noteq> []"
begin

abbreviation usable :: "'a list \<Rightarrow> 'a list" where
  "usable cs \<equiv> usable_contracts counted valid keys cs"

lemma usable_sub: "set (usable cs) \<subseteq> {c \<in> set cs. valid c}"
  by (auto simp: usable_contracts_def)

lemma usable_subseq: "subseq (usable cs) cs"
  by (simp add: usable_contracts_def)

lemma tally_perm: "mset cs = mset ds \<Longrightarrow> tally counted key cs k = tally counted key ds k"
  unfolding tally_def by (metis count_mset mset_filter mset_map)

lemma usable_perm:
  assumes "mset cs = mset ds"
  shows "mset (usable cs) = mset (usable ds)"
  unfolding usable_contracts_def mset_filter using assms by (simp add: tally_perm [OF assms])

lemma usable_length_perm: "mset cs = mset ds \<Longrightarrow> length (usable cs) = length (usable ds)"
  by (metis usable_perm size_mset)

lemma usable_distinct_claims:
  assumes "key \<in> set keys"
  shows "distinct (map key (usable cs))"
proof -
  have sub: "usable cs = filter (\<lambda>c. valid c \<and> list_all (\<lambda>key. tally counted key cs (key c) = 1) keys)
      (filter counted cs)"
    unfolding usable_contracts_def filter_filter
    by (rule filter_cong [OF refl]) (blast intro: valid_counted)
  have "count_list (map key (usable cs)) k \<le> 1" for k
  proof (cases "k \<in> key ` set (usable cs)")
    case True
    then obtain c where c: "c \<in> set (usable cs)" "k = key c" by auto
    then have "list_all (\<lambda>key. tally counted key cs (key c) = 1) keys"
      by (simp add: usable_contracts_def)
    then have one: "tally counted key cs k = 1"
      using assms c(2) by (simp add: list_all_iff)
    show ?thesis
      unfolding sub by (rule order_trans [OF count_list_filter_le]) (use one in \<open>simp add: tally_def\<close>)
  next
    case False
    then have "count_list (map key (usable cs)) k = 0" by (simp add: count_list_0_iff)
    then show ?thesis by simp
  qed
  then show ?thesis by (simp add: distinct_iff_count)
qed

text \<open>A claim made again, by any counted contract, makes every contract with it unusable.\<close>

lemma usable_fail_closed:
  assumes "key \<in> set keys" and "counted d" and "key d = key c" and "c \<in> set cs" and "counted c"
  shows "c \<notin> set (usable (d # cs))"
proof
  assume "c \<in> set (usable (d # cs))"
  then have "list_all (\<lambda>key. tally counted key (d # cs) (key c) = 1) keys"
    unfolding usable_contracts_def set_filter by blast
  then have "tally counted key (d # cs) (key c) = 1"
    using assms(1) by (simp add: list_all_iff)
  then have "count_list (map key (filter counted cs)) (key c) = 0"
    using assms(2,3) by (simp add: tally_def)
  then have "key c \<notin> key ` set (filter counted cs)" by (simp add: count_list_0_iff)
  with assms(4,5) show False by auto
qed

lemma usable_all:
  assumes "\<forall>c\<in>set cs. valid c" and "\<forall>key\<in>set keys. distinct (map key cs)"
  shows "usable cs = cs"
proof -
  have f: "filter counted cs = cs" using assms(1) valid_counted by (simp add: filter_id_conv)
  have "tally counted key cs (key c) = 1" if "key \<in> set keys" "c \<in> set cs" for key c
    using assms(2) that by (simp add: tally_def f distinct_count_one)
  then show ?thesis
    using assms(1) by (auto simp: usable_contracts_def filter_id_conv list_all_iff)
qed

lemma usable_empty: "usable [] = []"
  by (simp add: usable_contracts_def)

lemma usable_single: "usable [c] = (if valid c then [c] else [])"
  using valid_counted [of c] by (auto simp: usable_contracts_def tally_def list_all_iff)

end

section \<open>The counters\<close>

definition usable_state_expanded_lookup_contracts :: "id_env \<Rightarrow> state_expanded_lookup_contract list \<Rightarrow> state_expanded_lookup_contract list" where
  "usable_state_expanded_lookup_contracts E =
     usable_contracts (state_expanded_lookup_contract_valid E) (state_expanded_lookup_contract_valid E)
       [sx_name, \<lambda>c. sx_owner_site c @ [CHR 0x00] @ sx_owner_kind c @ [CHR 0x00] @ sx_table_object c]"

interpretation state_expanded_lookup: claim_policy "state_expanded_lookup_contract_valid E" "state_expanded_lookup_contract_valid E"
    "[sx_name, \<lambda>c. sx_owner_site c @ [CHR 0x00] @ sx_owner_kind c @ [CHR 0x00] @ sx_table_object c]" for E
  by unfold_locales simp_all

definition usable_shared_fan_out_contracts :: "id_env \<Rightarrow> shared_fan_out_contract list \<Rightarrow> shared_fan_out_contract list" where
  "usable_shared_fan_out_contracts E =
     usable_contracts (shared_fan_out_contract_valid E) (shared_fan_out_contract_valid E)
       [sf_name, ps_shared_fan_out_claim]"

interpretation shared_fan_out: claim_policy "shared_fan_out_contract_valid E" "shared_fan_out_contract_valid E"
    "[sf_name, ps_shared_fan_out_claim]" for E
  by unfold_locales simp_all

definition usable_resident_codebook_contracts :: "id_env \<Rightarrow> resident_codebook_contract list \<Rightarrow> resident_codebook_contract list" where
  "usable_resident_codebook_contracts E =
     usable_contracts (resident_codebook_contract_valid E) (resident_codebook_contract_valid E)
       [rc_name, \<lambda>c. rc_configured_site c @ [CHR 0x00] @ rc_upload_callable c @ [CHR 0x00] @ rc_dispatch_callable c]"

interpretation resident_codebook: claim_policy "resident_codebook_contract_valid E" "resident_codebook_contract_valid E"
    "[rc_name, \<lambda>c. rc_configured_site c @ [CHR 0x00] @ rc_upload_callable c @ [CHR 0x00] @ rc_dispatch_callable c]" for E
  by unfold_locales simp_all

definition usable_recursive_metadata_ignore_contracts :: "id_env \<Rightarrow> recursive_metadata_ignore_contract list \<Rightarrow> recursive_metadata_ignore_contract list" where
  "usable_recursive_metadata_ignore_contracts E =
     usable_contracts (recursive_metadata_ignore_contract_valid E) (recursive_metadata_ignore_contract_valid E)
       [rm_matcher]"

interpretation recursive_metadata_ignore: claim_policy "recursive_metadata_ignore_contract_valid E" "recursive_metadata_ignore_contract_valid E"
    "[rm_matcher]" for E
  by unfold_locales simp_all

definition usable_scoped_backend_routing_contracts :: "id_env \<Rightarrow> scoped_backend_routing_contract list \<Rightarrow> scoped_backend_routing_contract list" where
  "usable_scoped_backend_routing_contracts E =
     usable_contracts (scoped_backend_routing_contract_valid E) (scoped_backend_routing_contract_valid E)
       [sb_configured_site]"

interpretation scoped_backend_routing: claim_policy "scoped_backend_routing_contract_valid E" "scoped_backend_routing_contract_valid E"
    "[sb_configured_site]" for E
  by unfold_locales simp_all

definition usable_resident_weight_benchmark_contracts :: "id_env \<Rightarrow> resident_weight_benchmark_contract list \<Rightarrow> resident_weight_benchmark_contract list" where
  "usable_resident_weight_benchmark_contracts E =
     usable_contracts (resident_weight_benchmark_contract_valid E) (resident_weight_benchmark_contract_valid E)
       [rw_accelerator_callable]"

interpretation resident_weight_benchmark: claim_policy "resident_weight_benchmark_contract_valid E" "resident_weight_benchmark_contract_valid E"
    "[rw_accelerator_callable]" for E
  by unfold_locales simp_all

definition usable_output_workspace_contracts :: "id_env \<Rightarrow> output_workspace_contract list \<Rightarrow> output_workspace_contract list" where
  "usable_output_workspace_contracts E =
     usable_contracts (\<lambda>_. True) (output_workspace_contract_valid E)
       [\<lambda>c. ow_owner_type c @ ''.'' @ ow_workspace_field c]"

interpretation output_workspace: claim_policy "\<lambda>_. True" "output_workspace_contract_valid E"
    "[\<lambda>c. ow_owner_type c @ ''.'' @ ow_workspace_field c]" for E
  by unfold_locales simp_all

text \<open>The crossover counter also checks the two digests.\<close>

definition crossover_usable :: "id_env \<Rightarrow> dispatch_crossover_contract \<Rightarrow> bool" where
  "crossover_usable E c =
     (dispatch_crossover_contract_valid E c \<and> length (dc_plan_sha256 c) = 64 \<and>
      length (dc_records_sha256 c) = 64 \<and> hex_ok (dc_plan_sha256 c) \<and> hex_ok (dc_records_sha256 c))"

definition usable_dispatch_crossover_contracts :: "id_env \<Rightarrow> dispatch_crossover_contract list \<Rightarrow> dispatch_crossover_contract list" where
  "usable_dispatch_crossover_contracts E =
     usable_contracts (\<lambda>_. True) (crossover_usable E)
       [dc_dispatch_function]"

interpretation dispatch_crossover: claim_policy "\<lambda>_. True" "crossover_usable E"
    "[dc_dispatch_function]" for E
  by unfold_locales simp_all

definition usable_unused_projection_scratch_contracts :: "id_env \<Rightarrow> unused_projection_scratch_contract list \<Rightarrow> unused_projection_scratch_contract list" where
  "usable_unused_projection_scratch_contracts E =
     usable_contracts (\<lambda>_. True) (unused_projection_scratch_contract_valid E)
       [\<lambda>c. (up_owner_type c, up_workspace_field c, up_constructor_entry c)]"

interpretation unused_projection_scratch: claim_policy "\<lambda>_. True" "unused_projection_scratch_contract_valid E"
    "[\<lambda>c. (up_owner_type c, up_workspace_field c, up_constructor_entry c)]" for E
  by unfold_locales simp_all

definition usable_causal_zero_gemm_contracts :: "id_env \<Rightarrow> causal_zero_gemm_contract list \<Rightarrow> causal_zero_gemm_contract list" where
  "usable_causal_zero_gemm_contracts E =
     usable_contracts (\<lambda>_. True) (causal_zero_gemm_contract_valid E)
       [cz_owner_site]"

interpretation causal_zero_gemm: claim_policy "\<lambda>_. True" "causal_zero_gemm_contract_valid E"
    "[cz_owner_site]" for E
  by unfold_locales simp_all

definition usable_context_transient_workspace_contracts :: "id_env \<Rightarrow> context_transient_workspace_contract list \<Rightarrow> context_transient_workspace_contract list" where
  "usable_context_transient_workspace_contracts E =
     usable_contracts (\<lambda>_. True) (context_transient_workspace_contract_valid E)
       [ct_allocation_method]"

interpretation context_transient_workspace: claim_policy "\<lambda>_. True" "context_transient_workspace_contract_valid E"
    "[ct_allocation_method]" for E
  by unfold_locales simp_all

definition usable_active_bound_fallback_contracts :: "id_env \<Rightarrow> active_bound_fallback_contract list \<Rightarrow> active_bound_fallback_contract list" where
  "usable_active_bound_fallback_contracts E =
     usable_contracts (\<lambda>_. True) (active_bound_fallback_contract_valid E)
       [ab_wrapper_method]"

interpretation active_bound_fallback: claim_policy "\<lambda>_. True" "active_bound_fallback_contract_valid E"
    "[ab_wrapper_method]" for E
  by unfold_locales simp_all

definition usable_row_local_strided_guard_contracts :: "id_env \<Rightarrow> row_local_strided_guard_contract list \<Rightarrow> row_local_strided_guard_contract list" where
  "usable_row_local_strided_guard_contracts E =
     usable_contracts (\<lambda>_. True) (row_local_strided_guard_contract_valid E)
       [sg_wrapper_method]"

interpretation row_local_strided_guard: claim_policy "\<lambda>_. True" "row_local_strided_guard_contract_valid E"
    "[sg_wrapper_method]" for E
  by unfold_locales simp_all

definition usable_native_snapshot_reuse_contracts :: "id_env \<Rightarrow> native_snapshot_reuse_contract list \<Rightarrow> native_snapshot_reuse_contract list" where
  "usable_native_snapshot_reuse_contracts E =
     usable_contracts (\<lambda>_. True) (native_snapshot_reuse_contract_valid E)
       [nr_candidate_method]"

interpretation native_snapshot_reuse: claim_policy "\<lambda>_. True" "native_snapshot_reuse_contract_valid E"
    "[nr_candidate_method]" for E
  by unfold_locales simp_all

definition usable_single_use_quantization_contracts :: "id_env \<Rightarrow> single_use_quantization_contract list \<Rightarrow> single_use_quantization_contract list" where
  "usable_single_use_quantization_contracts E =
     usable_contracts (\<lambda>_. True) (single_use_quantization_contract_valid E)
       [single_use_claim]"

interpretation single_use_quantization: claim_policy "\<lambda>_. True" "single_use_quantization_contract_valid E"
    "[single_use_claim]" for E
  by unfold_locales simp_all

definition usable_dense_row_gemm_func_count :: "id_env \<Rightarrow> string list \<Rightarrow> nat" where
  "usable_dense_row_gemm_func_count E ids =
     card (set (filter (ps_top_k_function_id_valid E) ids))"

lemmas usable_contract_defs =
  usable_state_expanded_lookup_contracts_def
  usable_shared_fan_out_contracts_def
  usable_resident_codebook_contracts_def
  usable_recursive_metadata_ignore_contracts_def
  usable_scoped_backend_routing_contracts_def
  usable_resident_weight_benchmark_contracts_def
  usable_output_workspace_contracts_def
  usable_dispatch_crossover_contracts_def
  usable_unused_projection_scratch_contracts_def
  usable_causal_zero_gemm_contracts_def
  usable_context_transient_workspace_contracts_def
  usable_active_bound_fallback_contracts_def
  usable_row_local_strided_guard_contracts_def
  usable_native_snapshot_reuse_contracts_def
  usable_single_use_quantization_contracts_def

end
