(* ===== verification/Contract_Samples.thy ===== *)
theory Contract_Samples
  imports Contract_Policy
begin

text \<open>
  Concrete contracts on which the witnesses apply the properties: an environment in which
  every import path is accepted and no rune outside ASCII is a letter or a digit, and the
  evaluation of identifiers in it.
\<close>

definition sample_ids :: id_env where
  "sample_ids = \<lparr>ie_letter = (\<lambda>_. False), ie_digit = (\<lambda>_. False), ie_import_path = (\<lambda>_. True)\<rparr>"

lemma runes_ascii: "list_all (\<lambda>c. byte_at c < 128) s \<Longrightarrow> runes s = map byte_at s"
proof (induction s)
  case Nil
  show ?case by (simp add: runes.simps)
next
  case (Cons c s)
  then show ?case by (simp add: runes.simps [of "c # s"] Let_def split: prod.splits)
qed

lemma sample_identifier:
  "list_all (\<lambda>c. byte_at c < 128) s \<Longrightarrow> is_identifier sample_ids s = (s \<noteq> [] \<and> s \<notin> set go_keywords \<and>
     (case map byte_at s of [] \<Rightarrow> True | r # rs \<Rightarrow> (letter_rune sample_ids r \<or> r = 95) \<and>
        list_all (\<lambda>r. letter_rune sample_ids r \<or> r = 95 \<or> digit_rune sample_ids r) rs))"
  by (simp add: is_identifier_def runes_ascii)

lemma sample_path: "ie_import_path sample_ids p"
  by (simp add: sample_ids_def)

lemmas id_eval = ps_top_k_function_id_valid_def ps_top_k_method_id_valid_def ps_top_k_identifier_valid_def
  ps6109_callable_id_valid_def ps6109_type_id_valid_def sample_identifier sample_path
  ps_top_k_import_path_valid_def last_dot_def go_keywords_def letter_rune_def digit_rune_def

definition sample_projection :: unused_projection_scratch_contract where
  "sample_projection =
     \<lparr>up_owner_type = ''p.O'', up_model_type = ''p.M'', up_constructor_entry = ''p.E'',
         up_constructor_function = ''p.N'', up_model_config_field = ''c'',
         up_config_rows_field = ''r'', up_config_width_field = ''w'', up_maximum_rows_field =
         ''a'', up_width_field = ''b'', up_workspace_field = ''d'', up_slot_buffer_field =
         ''s'', up_retained_list_field = ''e'', up_backend_ops_field = ''f'',
         up_backend_allocator_field = ''g'', up_backend_allocator = ''p.A'',
         up_allocation_function = ''p.A'', up_release_method = ''p.T.R'',
         up_native_release_method = ''p.T.R'', up_block_type = ''p.B'', up_blocks_field =
         ''h'', up_projections = [\<lparr>upb_field = ''q'', upb_concrete_type = ''p.P''\<rparr>],
         up_class_flags = [''k''], up_unused_formal = 0, up_native_allocation_count_bits = 32,
         up_native_allocation_count_unit = ''bytes'', up_native_size_bits = 32,
         up_profile_rows = 1024, up_profile_width = 4096,
         up_fresh_independent_float32_storage_reviewed = True,
         up_native_failure_ownership_reviewed = True,
         up_native_input_copy_and_aliases_reviewed = True,
         up_native_release_and_finalizer_reviewed = True, up_sequential_completion_reviewed =
         True, up_positive_checked_source_geometry_reviewed = True,
         up_native_byte_count_range_reviewed = True, up_external_owner_observations_reviewed =
         True, up_all_provider_build_paths_reviewed = True\<rparr>"

definition sample_residency :: cross_step_accelerator_residency_contract where
  "sample_residency =
     \<lparr>cs_name = ''n'', cs_configured_site = ''p.S'', cs_objective_callable = ''p.O'',
         cs_optimizer_callable = ''p.T'', cs_scalar_observer_callable = ''p.R'',
         cs_objective_scalar_result = 1, cs_objective_gradient_result = 2,
         cs_objective_error_result = 3, cs_optimizer_gradient_callback_argument = 1,
         cs_optimizer_error_result = 1, cs_scalar_observer_argument = 1,
         cs_objective_error_control_flow = ''return'', cs_optimizer_error_control_flow =
         ''return'', cs_configured_loop_iterations = 100, cs_configured_parameter_bytes = 4096,
         cs_configured_gradient_bytes = 2048, cs_configured_avoidable_bytes = 6144,
         cs_target_goos = ''linux'', cs_target_goarch = ''amd64'', cs_memory_model =
         ''unified'', cs_configured_evidence = ''e'', cs_existing_resident_session = True,
         cs_intentional_host_optimizer = True, cs_objective_receiver_owns_parameters = True,
         cs_optimizer_receiver_owns_parameters = True, cs_receiver_parameter_sets_identical =
         True, cs_gradient_callback_maps_receiver_parameter = True,
         cs_dense_gradient_per_parameter = True, cs_stable_parameter_gradient_order = True,
         cs_parameter_upload_every_step = True, cs_gradient_host_materialized_every_step =
         True, cs_host_optimizer_every_step = True, cs_parameters_reuploaded_next_step = True,
         cs_only_scalar_observed_between_steps = True, cs_scalar_result_is_host_metric = True,
         cs_scalar_observation_does_not_synchronize_state = True,
         cs_no_intermediate_checkpoint_required = True, cs_objective_and_optimizer_synchronous =
         True, cs_objective_does_not_retain_arguments = True,
         cs_optimizer_does_not_retain_arguments = True, cs_no_custom_hooks = True,
         cs_no_aliases_or_escapes = True, cs_no_concurrent_session_access = True,
         cs_resident_session_construction_serialized = True,
         cs_device_storage_and_transfers_known = True,
         cs_resident_session_opportunity_confirmed = True, cs_exact_dtype_coverage = True,
         cs_exact_layout_coverage = True, cs_exact_optimizer_coverage = True,
         cs_lifetime_parity = True, cs_numerical_parity = True, cs_checkpoint_parity = True,
         cs_error_and_panic_parity = True, cs_mutation_parity = True, cs_ownership_parity =
         True, cs_autograd_parity = True, cs_backend_selection_parity = True,
         cs_explicit_sync_required = True, cs_explicit_checkpoint_required = True,
         cs_paired_end_to_end_validation_required = True\<rparr>"

definition sample_codebook :: resident_codebook_contract where
  "sample_codebook =
     \<lparr>rc_name = ''n'', rc_configured_site = ''p.S'', rc_producer_callable = [],
         rc_upload_callable = ''p.U'', rc_dispatch_callable = ''p.D'', rc_upload_data_argument =
         1, rc_dispatch_buffer_argument = 1, rc_wide_element_bytes = 4,
         rc_packed_bits_per_symbol = 4, rc_symbol_count = 1024, rc_distinct_value_count = 16,
         rc_row_count = 128, rc_symbols_per_packed_word = 8, rc_packed_word_bits = 32,
         rc_max_codebook_bytes = 4096, rc_configured_evidence = ''e'',
         rc_native_boundary_evidence = ''b'', rc_producer_returns_fresh_wide_codebook = True,
         rc_producer_exact_and_invariant = True, rc_upload_copies_synchronously = True,
         rc_upload_does_not_retain_host_slice = True,
         rc_device_buffer_immutable_during_dispatch = True,
         rc_host_packing_matches_native_decode = True, rc_native_decode_exact_and_cheap = True,
         rc_paired_resident_and_host_benchmark_required = True, rc_numerical_parity_required =
         True, rc_lifetime_and_synchronization_validation_required = True\<rparr>"

definition sample_one_shot :: reusable_one_shot_wrapper_contract where
  "sample_one_shot =
     \<lparr>row_name = ''n'', row_wrapper_type = ''p.W'', row_provider_type = ''p.P'',
         row_acquisition = ''p.P.A'', row_concrete_acquisition = ''p.Q.A'',
         row_wrapper_constructor = ''p.N'', row_terminal = \<lparr>rom_static = ''p.I.T'',
         rom_concrete = ''p.W.T''\<rparr>, row_reset = \<lparr>rom_static = ''p.I.R'', rom_concrete =
         ''p.W.R''\<rparr>, row_fresh_native_handle_factory = ''p.F'', row_native_handle_field =
         ''p.W.h'', row_mutable_state_fields = [''p.W.s''], row_allowed_synchronous_uses =
         [\<lparr>rom_static = ''p.I.U'', rom_concrete = ''p.W.U''\<rparr>], row_acquisition_wrapper_result =
         1, row_acquisition_status_result = 0, row_constructor_wrapper_result = 1,
         row_reset_status_result = 0, row_acquisition_failure_mode = ''infallible'',
         row_reset_failure_state = ''infallible-empty-before-reset'', row_slot_bound = 2,
         row_acquisition_creates_fresh_go_wrapper = True,
         row_acquisition_has_exact_dynamic_wrapper = True,
         row_failed_acquisition_has_no_generation = True, row_native_handle_is_one_shot = True,
         row_reset_always_creates_fresh_handle = True, row_terminal_synchronously_releases =
         True, row_terminal_clears_handle = True, row_terminal_is_idempotent = True,
         row_reset_clears_mutable_state = True, row_uses_execute_synchronously = True,
         row_uses_do_not_retain_generation = True, row_no_stale_generation_references = True,
         row_owner_access_is_non_concurrent = True, row_provider_fallback_is_preserved = True,
         row_failures_and_panics_are_preserved = True\<rparr>"

definition sample_guard :: row_local_strided_guard_contract where
  "sample_guard =
     \<lparr>sg_wrapper_method = ''p.W.R'', sg_native_callable = ''C.rope'', sg_element_count_field =
         ''n'', sg_handle_field = ''h'', sg_native_arguments = [2, 1, 3, 4, 5, 6, 7, 8, 9, 10,
         12, 11], sg_shader_binding = [], sg_evidence = [\<lparr>nle_file = ''a.c'', nle_start =
         ''int rope('', nle_end = ''end'', nle_sha256 = (replicate 64 (CHR ''a''))\<rparr>, \<lparr>nle_file =
         ''b.c'', nle_start = ''x'', nle_end = ''end'', nle_sha256 =
         (replicate 64 (CHR ''a''))\<rparr>], sg_row_local_band_indexing_reviewed = True,
         sg_head_and_half_width_relation_reviewed = True, sg_unshifted_backing_handle_reviewed =
         True, sg_element_count_and_float32_storage_reviewed = True,
         sg_native_code_generation_and_build_paths_reviewed = True,
         sg_checked_arithmetic_and_shape_behavior_reviewed = True,
         sg_errors_fallback_and_synchronization_reviewed = True\<rparr>"

definition sample_fragmented :: fragmented_accelerator_objective_contract where
  "sample_fragmented =
     \<lparr>fr_name = ''n'', fr_objective_site = ''p.O'', fr_calls = [\<lparr>frc_configured_site = ''p.S'',
         frc_accelerator_callable = ''p.A'', frc_operation_argument = 0,
         frc_operation_constant = [], frc_operation_constant_value = [],
         frc_expected_occurrences = 9223372036854775807\<rparr>, \<lparr>frc_configured_site = ''p.S'',
         frc_accelerator_callable = ''p.B'', frc_operation_argument = 0,
         frc_operation_constant = [], frc_operation_constant_value = [],
         frc_expected_occurrences = 9223372036854775807\<rparr>, \<lparr>frc_configured_site = ''p.S'',
         frc_accelerator_callable = ''p.C'', frc_operation_argument = 0,
         frc_operation_constant = [], frc_operation_constant_value = [],
         frc_expected_occurrences = 6\<rparr>], fr_configured_accelerator_call_count = 4,
         fr_configured_synchronous_boundary_count = 4, fr_candidate_submission_count = 1,
         fr_scalar_objective_result = 1, fr_parameter_gradients_result = 2, fr_error_result =
         3, fr_geometry_cache_key = ''k'', fr_configured_evidence = ''e'',
         fr_existing_whole_objective_route = True, fr_intentional_retained_fragmented_route =
         True, fr_complete_forward_loss_reverse_mode = True, fr_stable_objective_geometry =
         True, fr_geometry_cache_key_complete = True, fr_cache_reused_across_objectives = True,
         fr_each_accelerator_call_submits = True,
         fr_each_accelerator_call_synchronizes_before_return = True,
         fr_candidate_returns_scalar_and_all_parameter_gradients = True,
         fr_no_other_materialized_results = True, fr_no_dynamic_dispatch = True,
         fr_no_custom_hooks = True, fr_inputs_and_parameters_immutable = True,
         fr_outputs_do_not_alias_inputs = True, fr_no_preexisting_device_residency = True,
         fr_no_post_objective_device_residency = True,
         fr_exact_dtype_layout_attributes_reduction = True, fr_floating_point_parity_required =
         True, fr_error_panic_parity_required = True,
         fr_recorder_autograd_backend_parity_required = True,
         fr_per_operation_backend_route_preservation_required = True,
         fr_true_causal_mask_semantics_required = True,
         fr_paired_application_benchmark_required = True, fr_numerical_validation_required =
         True, fr_shape_aware_embedding_gradient_validation_required = True,
         fr_repeated_index_gradient_parity_required = True, fr_scatter_nd_not_assumed_faster = True\<rparr>"

lemma sample_projection_valid: "unused_projection_scratch_contract_valid sample_ids sample_projection"
  by (simp add: unused_projection_scratch_contract_valid_def sample_projection_def id_eval
      unused_projection_profile_too_large_def unused_projection_maximum_elements_def go_quo_def)

lemma sample_residency_valid: "cross_step_accelerator_residency_contract_valid sample_ids sample_residency"
  by (simp add: cross_step_accelerator_residency_contract_valid_def sample_residency_def id_eval
      ps_tiny_goos_def ps_tiny_goarch_def go_quo_def wrap64_def trim_space_def trim_left_def trim_right_def
      space_seqs_def strip_one_def)

lemma sample_codebook_valid: "resident_codebook_contract_valid sample_ids sample_codebook"
  by (simp add: resident_codebook_contract_valid_def sample_codebook_def id_eval
      go_quo_def go_rem_def wrap64_def trim_space_def trim_left_def trim_right_def space_seqs_def strip_one_def)

text \<open>The digest of a sample: 64 hexadecimal digits.\<close>

abbreviation sample_digest :: string where
  "sample_digest \<equiv> replicate 64 (CHR ''a'')"

lemma sample_digest_ok: "hex_ok sample_digest" "ascii_lower sample_digest = sample_digest"
  by (simp_all add: hex_ok_def ascii_lower_def lower_byte_def list_all_iff)

lemma clean_file: "comps f = [f] \<Longrightarrow> f \<noteq> ''.'' \<Longrightarrow> f \<noteq> ''..'' \<Longrightarrow> \<not> is_abs f \<Longrightarrow> path_clean f = f"
  by (auto simp: path_clean_def clean_comps_def clean_step_def comps_def)

lemma sample_guard_valid: "row_local_strided_guard_contract_valid sample_ids sample_guard"
proof -
  have f: "path_clean ''a.c'' = ''a.c''" "path_clean ''b.c'' = ''b.c''"
    by (rule clean_file; simp add: comps_def sep_def is_abs_def)+
  show ?thesis
    by (simp add: row_local_strided_guard_contract_valid_def sample_guard_def id_eval Let_def
        f sample_digest_ok is_abs_def sep_def has_backslash_def trim_prefix_def)
qed

lemma sample_one_shot_valid: "reusable_one_shot_wrapper_contract_valid sample_ids sample_one_shot"
  by (simp add: reusable_one_shot_wrapper_contract_valid_def sample_one_shot_def id_eval Let_def
      ps6109_method_valid_def one_shot_roles_ok_def fixed_roles_def add_role_def itoa_def
      trim_space_def trim_left_def trim_right_def space_seqs_def strip_one_def)

lemma sample_fragmented_valid:
  "fragmented_accelerator_objective_contract_valid sample_ids sample_fragmented"
  by (simp add: fragmented_accelerator_objective_contract_valid_def sample_fragmented_def id_eval Let_def
      wrap64_def trim_space_def trim_left_def trim_right_def space_seqs_def strip_one_def)

end
