(* ===== verification/Contracts_Props.thy ===== *)
theory Contracts_Props
  imports Contract_Samples
begin

text \<open>
  What a valid contract guarantees: the arithmetic of its sizes cannot overflow, the roles
  it binds are unambiguous, and conflicting claims are unusable.
\<close>

section \<open>Sizes\<close>

lemma quo_bound:
  assumes "0 \<le> m" and "0 < b" and "a \<le> go_quo m b"
  shows "a * b \<le> m"
  using assms le_div_mult [of b a m] by (simp add: go_quo_pos)

lemma profile_checked:
  assumes "unused_projection_scratch_contract_valid E c" and "up_profile_rows c \<noteq> 0"
  shows "\<not> unused_projection_profile_too_large c \<and> 0 < up_profile_rows c \<and> 0 < up_profile_width c \<and>
    up_native_allocation_count_bits c \<in> {32, 64} \<and> up_native_size_bits c \<in> {32, 64} \<and>
    up_native_allocation_count_unit c \<in> {''bytes'', ''float32-elements''}"
  using assms unfolding unused_projection_scratch_contract_valid_def
  by (simp split: if_splits option.splits)

lemma profile_elements:
  assumes "unused_projection_scratch_contract_valid E c" and "up_profile_rows c \<noteq> 0"
  shows "up_profile_rows c * up_profile_width c \<le> unused_projection_maximum_elements c"
proof -
  note v = profile_checked [OF assms]
  have "0 \<le> unused_projection_maximum_elements c"
    by (simp add: unused_projection_maximum_elements_def Let_def)
  then show ?thesis
    using v by (intro quo_bound) (simp_all add: unused_projection_profile_too_large_def not_less)
qed

text \<open>
  The profile of a valid PS6140 contract fits every native representation. Its
  byte count fits a signed 64-bit integer and the native size type, and the count handed to
  the native allocator, in bytes or in elements, fits that argument as a signed integer.
\<close>

theorem unused_projection_profile_fits:
  assumes "unused_projection_scratch_contract_valid E c" and "up_profile_rows c \<noteq> 0"
  shows "let n = up_profile_rows c * up_profile_width c in
    0 < n \<and> int64 (4 * n) \<and> 4 * n < 2 ^ nat (up_native_size_bits c) \<and>
    (if up_native_allocation_count_unit c = ''bytes'' then 4 * n else n)
      < 2 ^ (nat (up_native_allocation_count_bits c) - 1)"
proof -
  let ?n = "up_profile_rows c * up_profile_width c"
  note v = profile_checked [OF assms]
  have le: "?n \<le> unused_projection_maximum_elements c" by (rule profile_elements [OF assms])
  have pos: "0 < ?n" using v by simp
  have "up_native_allocation_count_bits c = 32 \<or> up_native_allocation_count_bits c = 64"
    and "up_native_size_bits c = 32 \<or> up_native_size_bits c = 64"
    using v by auto
  then show ?thesis
    using le pos unfolding unused_projection_maximum_elements_def Let_def int64_def
    by (elim disjE) (simp_all split: if_splits)
qed

lemma unused_projection_profile_fits_witness:
  "let n = up_profile_rows sample_projection * up_profile_width sample_projection in
    0 < n \<and> int64 (4 * n) \<and> 4 * n < 2 ^ nat (up_native_size_bits sample_projection) \<and>
    (if up_native_allocation_count_unit sample_projection = ''bytes'' then 4 * n else n)
      < 2 ^ (nat (up_native_allocation_count_bits sample_projection) - 1)"
  by (rule unused_projection_profile_fits [OF sample_projection_valid]) (simp add: sample_projection_def)

text \<open>
  The byte counts of a valid PS6118 contract are exact. The avoidable bytes are
  the sum of the parameter and gradient bytes as integers, and the traffic of the whole
  loop still fits 64 bits: none of the checks is fooled by wrap-around.
\<close>

theorem cross_step_bytes_exact:
  assumes "cross_step_accelerator_residency_contract_valid E c"
    and "int64 (cs_configured_parameter_bytes c)" and "int64 (cs_configured_gradient_bytes c)"
  shows "cs_configured_avoidable_bytes c = cs_configured_parameter_bytes c + cs_configured_gradient_bytes c \<and>
    0 < cs_configured_parameter_bytes c \<and> 0 < cs_configured_gradient_bytes c \<and>
    2 \<le> cs_configured_loop_iterations c \<and>
    int64 (cs_configured_loop_iterations c * cs_configured_avoidable_bytes c)"
proof -
  let ?p = "cs_configured_parameter_bytes c" and ?g = "cs_configured_gradient_bytes c"
  let ?a = "cs_configured_avoidable_bytes c" and ?i = "cs_configured_loop_iterations c"
  have b: "0 < ?p" "0 < ?g" "?p \<le> wrap64 (2 ^ 63 - 1 - ?g)" "?a = wrap64 (?p + ?g)"
      "?i \<le> go_quo (2 ^ 63 - 1) ?a" "2 \<le> ?i"
    using assms(1) unfolding cross_step_accelerator_residency_contract_valid_def Let_def
    by (simp_all split: if_splits)
  have "wrap64 (2 ^ 63 - 1 - ?g) = 2 ^ 63 - 1 - ?g"
    by (rule wrap64_id) (use b(2) assms(3) in \<open>simp add: int64_def\<close>)
  with b(3) have s: "?p + ?g \<le> 2 ^ 63 - 1" by simp
  have a: "?a = ?p + ?g"
    unfolding b(4) by (rule wrap64_id) (use b(1,2) s in \<open>simp add: int64_def\<close>)
  have "?i * ?a \<le> 2 ^ 63 - 1"
    by (rule quo_bound) (use b a in simp_all)
  moreover have "0 \<le> ?i * ?a" using a b by simp
  ultimately have "int64 (?i * ?a)" by (intro int64_nonneg)
  then show ?thesis using a b by simp
qed

lemma cross_step_bytes_exact_witness:
  "cs_configured_avoidable_bytes sample_residency =
     cs_configured_parameter_bytes sample_residency + cs_configured_gradient_bytes sample_residency \<and>
   int64 (cs_configured_loop_iterations sample_residency * cs_configured_avoidable_bytes sample_residency)"
  using cross_step_bytes_exact [OF sample_residency_valid]
  by (simp add: sample_residency_def int64_def)

text \<open>
  The other two contracts with sizes: the elements of a PS6115 screen, and the packed
  codebook of PS6120.
\<close>

lemma tiny_screen_elements:
  assumes "tiny_synchronous_accelerator_screen_contract_valid E c"
  shows "let n = ty_configured_rows c * ty_configured_columns c in
    0 < n \<and> int64 n \<and> (0 < ty_max_elements c \<longrightarrow> n \<le> ty_max_elements c)"
proof -
  let ?r = "ty_configured_rows c" and ?k = "ty_configured_columns c"
  have b: "0 < ?r" "0 < ?k" "?r \<le> go_quo (2 ^ 63 - 1) ?k"
      "ty_max_elements c \<le> 0 \<or> wrap64 (?r * ?k) \<le> ty_max_elements c"
    using assms unfolding tiny_synchronous_accelerator_screen_contract_valid_def Let_def
    by (simp_all add: not_le not_less split: if_splits)
  have n: "?r * ?k \<le> 2 ^ 63 - 1" by (rule quo_bound) (use b in simp_all)
  have i: "int64 (?r * ?k)" using n b by (intro int64_nonneg) simp_all
  show ?thesis using b wrap64_id [OF i] i by (auto simp: Let_def)
qed

text \<open>
  The packing of a valid PS6120 contract is consistent. The rows hold exactly the
  symbols, the symbols of a word fit its bits, the distinct values fit a symbol, and the
  packed codebook is no larger than the declared budget, which is at most 64 KiB.
\<close>

theorem resident_codebook_packing:
  assumes "resident_codebook_contract_valid E c"
  shows "rc_symbol_count c = rc_row_count c * rc_symbols_per_packed_word c \<and>
    rc_symbols_per_packed_word c * rc_packed_bits_per_symbol c \<le> rc_packed_word_bits c \<and>
    rc_distinct_value_count c \<le> 2 ^ nat (rc_packed_bits_per_symbol c) \<and>
    rc_row_count c * rc_packed_word_bits c \<le> 8 * rc_max_codebook_bytes c \<and>
    rc_max_codebook_bytes c \<le> 65536"
proof -
  let ?s = "rc_symbol_count c" and ?w = "rc_symbols_per_packed_word c" and ?r = "rc_row_count c"
  let ?b = "rc_packed_bits_per_symbol c" and ?pw = "rc_packed_word_bits c" and ?m = "rc_max_codebook_bytes c"
  have v: "0 < ?b" "?b \<le> 16" "2 \<le> ?s" "rc_distinct_value_count c \<le> wrap64 (1 * 2 ^ nat ?b)"
      "1 \<le> ?r" "1 \<le> ?w" "8 \<le> ?pw" "go_rem ?s ?w = 0" "?r = go_quo ?s ?w" "?w \<le> go_quo ?pw ?b"
      "?r \<le> go_quo (wrap64 (?m * 8)) ?pw" "0 < ?m" "?m \<le> 65536"
    using assms unfolding resident_codebook_contract_valid_def Let_def by simp_all
  have p: "(2::int) ^ nat ?b \<le> 2 ^ 16"
    by (rule power_increasing) (use v in auto)
  have "int64 (2 ^ nat ?b)"
    by (rule int64_nonneg) (simp, rule order_trans [OF p], simp)
  then have "wrap64 (1 * 2 ^ nat ?b) = 2 ^ nat ?b" by (simp add: wrap64_id)
  with v(4) have d: "rc_distinct_value_count c \<le> 2 ^ nat ?b" by simp
  have "int64 (?m * 8)" by (rule int64_nonneg) (use v(12,13) in simp_all)
  then have m: "wrap64 (?m * 8) = ?m * 8" by (rule wrap64_id)
  have "?r * ?pw \<le> ?m * 8"
    by (rule quo_bound) (use v(7,11,12) m in simp_all)
  then have k: "?r * ?pw \<le> 8 * ?m" by (simp only: mult.commute)
  have w: "?w * ?b \<le> ?pw" by (rule quo_bound) (use v(1,7,10) in simp_all)
  have "?s - ?w * ?r = 0" using v(8) unfolding go_rem_def v(9) [symmetric] .
  then have "?s = ?r * ?w" by (simp only: mult.commute [of ?r] eq_iff_diff_eq_0 [of ?s])
  with d k w v(13) show ?thesis by blast
qed

lemma resident_codebook_packing_witness:
  "rc_symbol_count sample_codebook =
     rc_row_count sample_codebook * rc_symbols_per_packed_word sample_codebook \<and>
   rc_row_count sample_codebook * rc_packed_word_bits sample_codebook \<le> 8 * rc_max_codebook_bytes sample_codebook"
  using resident_codebook_packing [OF sample_codebook_valid] by blast

section \<open>Roles\<close>

lemma go_each_distinct:
  assumes "go_each body s xs = Some s'"
    and "\<And>s x t. x \<in> set xs \<Longrightarrow> body s x = Some t \<Longrightarrow> ok x \<and> key x \<notin> s \<and> t = insert (key x) s"
  shows "list_all ok xs \<and> distinct (map key xs) \<and> key ` set xs \<inter> s = {} \<and> s' = key ` set xs \<union> s"
  using assms
proof (induction xs arbitrary: s)
  case Nil
  then show ?case by simp
next
  case (Cons x xs)
  then obtain t where t: "body s x = Some t" and r: "go_each body t xs = Some s'"
    by (auto split: option.splits)
  have b: "ok x \<and> key x \<notin> s \<and> t = insert (key x) s" by (rule Cons.prems(2) [OF _ t]) simp
  have "list_all ok xs \<and> distinct (map key xs) \<and> key ` set xs \<inter> t = {} \<and> s' = key ` set xs \<union> t"
    by (rule Cons.IH [OF r]) (use Cons.prems(2) in auto)
  with b show ?case by auto
qed

lemma permutation_of_range:
  assumes "distinct xs" and "set xs \<subseteq> {a..<b}" and "length xs = nat (b - a)"
  shows "mset xs = mset [a..b - 1]"
proof -
  have "card (set xs) = card {a..<b}" using assms distinct_card [of xs] by simp
  then have "set xs = {a..<b}" using assms(2) by (simp add: card_subset_eq)
  moreover have "set [a..b - 1] = {a..<b}" by auto
  ultimately show ?thesis
    using assms(1) by (metis distinct_upto set_eq_iff_mset_eq_distinct)
qed

text \<open>
  The twelve native arguments of a valid PS6133 contract are a permutation. For a
  direct call of the native ABI they are the positions 1 to 12, each once; for the shader
  route they are 3 to 14, so the pointer and size slots 1 and 2 are never bound.
\<close>

theorem strided_guard_arguments:
  assumes "row_local_strided_guard_contract_valid E c"
  shows "mset (sg_native_arguments c) =
    mset (if sg_shader_binding c = [] then [1..12] else [3..14])"
proof -
  let ?args = "sg_native_arguments c"
  obtain seen where len: "length ?args = 12"
    and g: "go_each (\<lambda>seen role. if role < 1 \<or> role > 14 \<or> role \<in> seen then None
        else Some (insert role seen)) {0} ?args = Some seen"
    and w: "\<not> list_ex (\<lambda>role. role \<ge> (if sg_shader_binding c \<noteq> [] then 15 else 13)) ?args"
    and s: "sg_shader_binding c \<noteq> [] \<Longrightarrow> 1 \<notin> seen \<and> 2 \<notin> seen"
    using assms unfolding row_local_strided_guard_contract_valid_def Let_def
    by (auto split: if_splits option.splits)
  have d: "list_all (\<lambda>r. 1 \<le> r \<and> r \<le> 14) ?args \<and> distinct (map id ?args) \<and>
      id ` set ?args \<inter> {0} = {} \<and> seen = id ` set ?args \<union> {0}"
    using g by (rule go_each_distinct) (auto split: if_splits)
  show ?thesis
  proof (cases "sg_shader_binding c = []")
    case True
    have "set ?args \<subseteq> {1..<13}" using d w True by (auto simp: list_all_iff list_ex_iff)
    then have "mset ?args = mset [1..13 - 1]"
      by (intro permutation_of_range) (use d len in simp_all)
    with True show ?thesis by simp
  next
    case False
    have "3 \<le> r \<and> r < 15" if r: "r \<in> set ?args" for r
    proof -
      have "1 \<le> r" "r \<le> 14" "r \<noteq> 1" "r \<noteq> 2"
        using d s [OF False] r by (auto simp: list_all_iff)
      then show ?thesis by simp
    qed
    then have "set ?args \<subseteq> {3..<15}" by auto
    then have "mset ?args = mset [3..15 - 1]"
      by (intro permutation_of_range) (use d len in simp_all)
    with False show ?thesis by simp
  qed
qed

lemma strided_guard_arguments_witness:
  "mset (sg_native_arguments sample_guard) = mset [1..12]"
  using strided_guard_arguments [OF sample_guard_valid] by (simp add: sample_guard_def)

text \<open>The seven arguments of a PS6132 wrapper are bound to the positions 0 to 6.\<close>

lemma active_bound_arguments:
  assumes "active_bound_fallback_contract_valid E c"
  shows "mset ([ab_provider_argument c, ab_operation_argument c, ab_rows_argument c, ab_width_argument c] @
      ab_buffer_arguments c) = mset (map int [0..<7])"
proof -
  let ?roles = "[ab_provider_argument c, ab_operation_argument c, ab_rows_argument c, ab_width_argument c] @
      ab_buffer_arguments c"
  have i: "index_roles ?roles" and l: "length (ab_buffer_arguments c) = 3"
    using assms unfolding active_bound_fallback_contract_valid_def Let_def
    by (simp_all split: if_splits)
  have "length ?roles = 7" using l by simp
  with i show ?thesis unfolding index_roles_iff by (simp only:)
qed

section \<open>Lifecycle roles\<close>

text \<open>
  The claims of a PS6109 contract: every method with the role it is bound to. A loop of
  \<open>addRole\<close> calls that succeeds ends in a map that records the role of every claim.
\<close>

lemma map_le_Some: "m \<subseteq>\<^sub>m m' \<Longrightarrow> m x = Some y \<Longrightarrow> m' x = Some y"
  by (metis domI map_le_def)

lemma add_role_records:
  assumes "add_role role claimed ids = Some claimed'" and "[] \<notin> ran claimed" and "role \<noteq> []"
  shows "claimed \<subseteq>\<^sub>m claimed' \<and> [] \<notin> ran claimed' \<and> (\<forall>i\<in>set ids. claimed' i = Some role)"
  using assms unfolding add_role_def
proof (induction ids arbitrary: claimed)
  case Nil
  then show ?case by simp
next
  case (Cons i ids)
  let ?clash = "case claimed i of None \<Rightarrow> False | Some previous \<Rightarrow> previous \<noteq> [] \<and> previous \<noteq> role"
  from Cons.prems(1) have ok: "\<not> ?clash"
    and rest: "go_each (\<lambda>claimed i. if case claimed i of None \<Rightarrow> False
          | Some previous \<Rightarrow> previous \<noteq> [] \<and> previous \<noteq> role then None
        else Some (claimed(i \<mapsto> role))) (claimed(i \<mapsto> role)) ids = Some claimed'"
    by (simp_all split: if_splits)
  have ne: "claimed i = None \<or> claimed i = Some role"
    using ok Cons.prems(2) by (auto simp: ran_def split: option.splits)
  have "[] \<notin> ran (claimed(i \<mapsto> role))"
    using Cons.prems(2,3) by (auto simp: ran_def)
  from Cons.IH [OF rest this Cons.prems(3)]
  have ih: "claimed(i \<mapsto> role) \<subseteq>\<^sub>m claimed'" "[] \<notin> ran claimed'" "\<forall>i\<in>set ids. claimed' i = Some role"
    by (blast, blast, blast)
  have "claimed \<subseteq>\<^sub>m claimed(i \<mapsto> role)"
    using ne by (auto simp: map_le_def)
  from this ih(1) have "claimed \<subseteq>\<^sub>m claimed'" by (rule map_le_trans)
  moreover from ih(1) have "claimed' i = Some role"
    by (rule map_le_Some) simp
  ultimately show ?case using ih by simp
qed

lemma roles_loop:
  assumes "go_each body claimed xs = Some claimed'" and "[] \<notin> ran claimed"
    and "\<And>claimed x t. x \<in> set xs \<Longrightarrow> body claimed x = Some t \<Longrightarrow>
      add_role (role x) claimed (ids x) = Some t"
    and "\<And>x. x \<in> set xs \<Longrightarrow> role x \<noteq> []"
  shows "claimed \<subseteq>\<^sub>m claimed' \<and> [] \<notin> ran claimed' \<and>
    (\<forall>x\<in>set xs. \<forall>i\<in>set (ids x). claimed' i = Some (role x))"
  using assms
proof (induction xs arbitrary: claimed)
  case Nil
  then show ?case by simp
next
  case (Cons x xs)
  then obtain t where t: "body claimed x = Some t" and r: "go_each body t xs = Some claimed'"
    by (auto split: option.splits)
  have a: "add_role (role x) claimed (ids x) = Some t" by (rule Cons.prems(3) [OF _ t]) simp
  have one: "claimed \<subseteq>\<^sub>m t \<and> [] \<notin> ran t \<and> (\<forall>i\<in>set (ids x). t i = Some (role x))"
    by (rule add_role_records [OF a Cons.prems(2)]) (simp add: Cons.prems(4))
  have ih: "t \<subseteq>\<^sub>m claimed' \<and> [] \<notin> ran claimed' \<and>
      (\<forall>x\<in>set xs. \<forall>i\<in>set (ids x). claimed' i = Some (role x))"
    by (rule Cons.IH [OF r]) (use one Cons.prems(3,4) in auto)
  then have "\<forall>i\<in>set (ids x). claimed' i = Some (role x)"
    using one by (blast intro: map_le_Some)
  with one ih show ?case by (auto intro: map_le_trans)
qed

definition one_shot_claims :: "reusable_one_shot_wrapper_contract \<Rightarrow> (string \<times> string) set" where
  "one_shot_claims c =
     {(role, i) | role ids i. (role, ids) \<in> set (fixed_roles c) \<and> i \<in> set ids} \<union>
     {(''use:'' @ itoa (int k), i) | k use i. (k, use) \<in> set (enumerate 0 (row_allowed_synchronous_uses c)) \<and>
        i \<in> {rom_static use, rom_concrete use}}"

text \<open>
  C24: the lifecycle roles of a valid PS6109 contract are unambiguous. No method is
  bound to two of the roles acquisition, constructor, terminal, reset, handle factory and
  the individual allowed uses.
\<close>

theorem one_shot_roles_unambiguous:
  assumes "reusable_one_shot_wrapper_contract_valid E c"
    and "(role, i) \<in> one_shot_claims c" and "(role', i) \<in> one_shot_claims c"
  shows "role = role'"
proof -
  have "one_shot_roles_ok E c"
    using assms(1) unfolding reusable_one_shot_wrapper_contract_valid_def
    by (simp split: if_splits option.splits)
  then obtain m m' where f: "go_each (\<lambda>claimed (role, ids). add_role role claimed ids) Map.empty
        (fixed_roles c) = Some m"
    and u: "go_each (\<lambda>claimed (k, use). if \<not> ps6109_method_valid E use then None
        else add_role (''use:'' @ itoa (int k)) claimed [rom_static use, rom_concrete use]) m
        (enumerate 0 (row_allowed_synchronous_uses c)) = Some m'"
    unfolding one_shot_roles_ok_def by (auto split: option.splits)
  have m: "Map.empty \<subseteq>\<^sub>m m \<and> [] \<notin> ran m \<and> (\<forall>x\<in>set (fixed_roles c). \<forall>i\<in>set (snd x). m i = Some (fst x))"
    by (rule roles_loop [OF f]) (auto simp: fixed_roles_def)
  have m': "m \<subseteq>\<^sub>m m' \<and> [] \<notin> ran m' \<and>
      (\<forall>x\<in>set (enumerate 0 (row_allowed_synchronous_uses c)).
         \<forall>i\<in>set [rom_static (snd x), rom_concrete (snd x)]. m' i = Some (''use:'' @ itoa (int (fst x))))"
    by (rule roles_loop [OF u]) (use m in \<open>auto split: if_splits\<close>)
  have "m' i = Some r" if "(r, i) \<in> one_shot_claims c" for r
    using that unfolding one_shot_claims_def
  proof
    assume "(r, i) \<in> {(role, i) | role ids i. (role, ids) \<in> set (fixed_roles c) \<and> i \<in> set ids}"
    then have "m i = Some r" using m by auto
    then show "m' i = Some r" using m' by (auto intro: map_le_Some)
  next
    assume "(r, i) \<in> {(''use:'' @ itoa (int k), i) | k use i.
      (k, use) \<in> set (enumerate 0 (row_allowed_synchronous_uses c)) \<and> i \<in> {rom_static use, rom_concrete use}}"
    then show "m' i = Some r" using m' by auto
  qed
  with assms(2,3) have "Some role = Some role'" by metis
  then show ?thesis by simp
qed

lemma one_shot_roles_unambiguous_witness:
  "(''terminal'', ''p.W.T'') \<in> one_shot_claims sample_one_shot \<and>
   (''reset'', ''p.W.T'') \<notin> one_shot_claims sample_one_shot"
proof
  show t: "(''terminal'', ''p.W.T'') \<in> one_shot_claims sample_one_shot"
    by (auto simp: one_shot_claims_def fixed_roles_def sample_one_shot_def)
  show "(''reset'', ''p.W.T'') \<notin> one_shot_claims sample_one_shot"
    using one_shot_roles_unambiguous [OF sample_one_shot_valid t, of "''reset''"] by auto
qed

section \<open>Occurrences\<close>

lemma occurrences_loop:
  assumes "go_each body (seen, n) calls = Some (seen', n')" and "int64 n"
    and "\<And>seen n call s. body (seen, n) call = Some s \<Longrightarrow>
      snd s = wrap64 (n + frc_expected_occurrences call)"
  shows "n' = wrap64 (n + sum_list (map frc_expected_occurrences calls))"
  using assms
proof (induction calls arbitrary: seen n)
  case Nil
  then show ?case by (simp add: wrap64_id)
next
  case (Cons call calls)
  then obtain seen1 n1 where b: "body (seen, n) call = Some (seen1, n1)"
    and r: "go_each body (seen1, n1) calls = Some (seen', n')"
    by (auto split: option.splits)
  have t1: "n1 = wrap64 (n + frc_expected_occurrences call)"
    using Cons.prems(3) [OF b] by simp
  have "n' = wrap64 (n1 + sum_list (map frc_expected_occurrences calls))"
    by (rule Cons.IH [OF r _ Cons.prems(3)]) (simp_all add: t1 wrap64_range)
  then show ?case by (simp add: t1 wrap64_add_left add.assoc)
qed

text \<open>
  The configured call count of a valid PS6117 contract is the 64-bit wrap-around
  of the sum of the expected occurrences, so it is that sum whenever the sum fits.
\<close>

theorem fragmented_call_count:
  assumes "fragmented_accelerator_objective_contract_valid E c"
  shows "fr_configured_accelerator_call_count c =
    wrap64 (sum_list (map frc_expected_occurrences (fr_calls c)))"
proof -
  obtain seen total where
    l: "go_each (\<lambda>(seen, total) call.
           let operation_absent = frc_operation_argument call = 0 \<and>
                                  frc_operation_constant call = [] \<and>
                                  frc_operation_constant_value call = [] in
           let operation_present = frc_operation_argument call > 0 \<and>
                                   ps_top_k_function_id_valid E (frc_operation_constant call) \<and>
                                   frc_operation_constant_value call \<noteq> [] \<and>
                                   trim_space (frc_operation_constant_value call) =
                                       frc_operation_constant_value call in
           let key = frc_configured_site call @ [CHR 0x00] @ frc_accelerator_callable call @
               [CHR 0x00] @ frc_operation_constant call in
           if \<not> ps6109_callable_id_valid E (frc_configured_site call) \<or>
              \<not> ps6109_callable_id_valid E (frc_accelerator_callable call) \<or>
              frc_expected_occurrences call \<le> 0 \<or>
              \<not> operation_absent \<and> \<not> operation_present \<or> key \<in> seen
           then None
           else let seen = insert key seen in
           let total = wrap64 (total + frc_expected_occurrences call) in
           Some (seen, total)) ({}, 0) (fr_calls c) = Some (seen, total)"
    and t: "total = fr_configured_accelerator_call_count c"
    using assms unfolding fragmented_accelerator_objective_contract_valid_def Let_def [of 0]
    by (simp split: if_splits option.splits prod.splits)
  have "total = wrap64 (0 + sum_list (map frc_expected_occurrences (fr_calls c)))"
    by (rule occurrences_loop [OF l]) (auto simp: int64_def Let_def split: if_splits)
  with t show ?thesis by simp
qed

lemma fragmented_call_count_witness:
  "wrap64 (sum_list (map frc_expected_occurrences (fr_calls sample_fragmented))) = 4"
  using fragmented_call_count [OF sample_fragmented_valid] by (simp add: sample_fragmented_def)

text \<open>
  The total of the expected occurrences can wrap around. There is a valid PS6117
  contract with 64-bit occurrences whose sum exceeds the configured call count.
\<close>

theorem fragmented_total_wraps:
  "\<exists>E c. fragmented_accelerator_objective_contract_valid E c \<and>
     list_all (\<lambda>call. int64 (frc_expected_occurrences call)) (fr_calls c) \<and>
     fr_configured_accelerator_call_count c < sum_list (map frc_expected_occurrences (fr_calls c))"
proof (intro exI conjI)
  show "fragmented_accelerator_objective_contract_valid sample_ids sample_fragmented"
    by (rule sample_fragmented_valid)
qed (simp_all add: sample_fragmented_def int64_def)

section \<open>Claims\<close>

text \<open>
  A claim made twice is usable by nobody, wherever the two contracts stand. Two
  valid PS6120 contracts for the same site, upload and dispatch callable exclude each
  other, and the number of usable contracts does not depend on their order.
\<close>

theorem resident_codebook_fail_closed:
  assumes "mset ds = mset (c # d # cs)"
    and "resident_codebook_contract_valid E c" and "resident_codebook_contract_valid E d"
    and "rc_configured_site c = rc_configured_site d"
    and "rc_upload_callable c = rc_upload_callable d" and "rc_dispatch_callable c = rc_dispatch_callable d"
  shows "c \<notin> set (usable_resident_codebook_contracts E ds) \<and>
    d \<notin> set (usable_resident_codebook_contracts E ds) \<and>
    length (usable_resident_codebook_contracts E ds) = length (usable_resident_codebook_contracts E (c # d # cs))"
proof -
  let ?key = "\<lambda>c. rc_configured_site c @ [CHR 0x00] @ rc_upload_callable c @ [CHR 0x00] @ rc_dispatch_callable c"
  have k: "?key c = ?key d" using assms(4-6) by simp
  note closed = resident_codebook.usable_fail_closed [of ?key, folded usable_resident_codebook_contracts_def]
  have "d \<notin> set (usable_resident_codebook_contracts E (c # d # cs))"
    by (rule closed) (use assms(2,3) k in simp_all)
  moreover have "c \<notin> set (usable_resident_codebook_contracts E (d # c # cs))"
    by (rule closed) (use assms(2,3) k in simp_all)
  moreover have p: "mset (usable_resident_codebook_contracts E ds) =
      mset (usable_resident_codebook_contracts E (c # d # cs))"
    "mset (usable_resident_codebook_contracts E ds) =
      mset (usable_resident_codebook_contracts E (d # c # cs))"
    unfolding usable_resident_codebook_contracts_def
    by (rule resident_codebook.usable_perm, simp add: assms(1))+
  ultimately show ?thesis by (metis set_mset_mset size_mset)
qed

lemma resident_codebook_fail_closed_witness:
  "let d = sample_codebook\<lparr>rc_name := ''m''\<rparr> in
     usable_resident_codebook_contracts sample_ids [d] = [d] \<and>
     d \<notin> set (usable_resident_codebook_contracts sample_ids [d, sample_codebook])"
proof -
  let ?d = "sample_codebook\<lparr>rc_name := ''m''\<rparr>"
  have v: "resident_codebook_contract_valid sample_ids ?d"
    by (simp add: resident_codebook_contract_valid_def sample_codebook_def id_eval
      go_quo_def go_rem_def wrap64_def trim_space_def trim_left_def trim_right_def space_seqs_def strip_one_def)
  have "usable_resident_codebook_contracts sample_ids [?d] = [?d]"
    unfolding usable_resident_codebook_contracts_def resident_codebook.usable_single using v by simp
  moreover have "?d \<notin> set (usable_resident_codebook_contracts sample_ids [?d, sample_codebook])"
    using resident_codebook_fail_closed [OF _ sample_codebook_valid v, of "[?d, sample_codebook]" "[]"]
    by (simp add: sample_codebook_def add_mset_commute)
  ultimately show ?thesis by (simp add: Let_def)
qed

end
