(* ===== verification/Closure.thy ===== *)
theory Closure
  imports Contract_Ids Go_Text
begin

text \<open>
  Compiler-confirmed closure evidence (\<open>internal/closureenv\<close>): the evidence of one closure,
  the comparison of two revisions (\<open>Compare\<close>), the artifact file around it, the layout of
  the environment of a closure (\<open>Layout\<close>) and its allocation class (\<open>ClassForClosure\<close>), and
  the check of an evidence against a selected toolchain (\<open>ValidateSelected\<close>). The JSON
  codec, the Go command and the file system are parameters.
\<close>

unbundle bit_operations_syntax

section \<open>Evidence\<close>

record capture =
  ca_name :: string
  ca_type :: string
  ca_size :: int
  ca_align :: int
  ca_by_reference :: bool
  ca_has_pointers :: bool

record evidence =
  ev_go_version :: string
  ev_goos :: string
  ev_goarch :: string
  ev_source_sha256 :: string
  ev_package :: string
  ev_function :: string
  ev_file :: string
  ev_line :: int
  ev_column :: int
  ev_escapes :: bool
  ev_captures :: "capture list"
  ev_environment_bytes :: int
  ev_size_class_bytes :: int
  ev_scanned :: bool
  ev_module_path :: string
  ev_module_version :: string
  ev_go_language_version :: string
  ev_build_tags :: "string list"
  ev_goflags :: string
  ev_goexperiment :: string
  ev_architecture_level :: string
  ev_cgo_enabled :: string

record growth =
  gr_before :: evidence
  gr_after :: evidence
  gr_added :: "capture list"

datatype closure_error =
    Toolchain_mismatch
  | Identity_mismatch
  | Provenance_mismatch
  | Not_escaping
  | No_class_growth
  | Bad_before_capture
  | Bad_after_capture
  | Changed_representation string
  | Capture_disappeared
  | No_added_capture
  | Decode_error
  | Trailing_value
  | Unsupported_version int

section \<open>Comparing two revisions\<close>

text \<open>The two loops of \<open>Compare\<close>; maps from capture names are association lists.\<close>

fun before_captures :: "(string \<times> capture) list \<Rightarrow> capture list \<Rightarrow> closure_error + (string \<times> capture) list" where
  "before_captures old [] = Inr old"
| "before_captures old (c # cs) =
     (if map_of old (ca_name c) \<noteq> None \<or> ca_name c = [] then Inl Bad_before_capture
      else before_captures ((ca_name c, c) # old) cs)"

fun after_captures ::
    "(string \<times> capture) list \<Rightarrow> (string \<times> capture) list \<Rightarrow> capture list \<Rightarrow> string list \<Rightarrow> capture list \<Rightarrow>
      closure_error + (string \<times> capture) list \<times> capture list" where
  "after_captures old remaining added seen [] = Inr (remaining, added)"
| "after_captures old remaining added seen (c # cs) =
     (if ca_name c = [] \<or> ca_name c \<in> set seen then Inl Bad_after_capture
      else case map_of old (ca_name c) of
        None \<Rightarrow> after_captures old remaining (added @ [c]) (ca_name c # seen) cs
      | Some previous \<Rightarrow>
          if previous \<noteq> c then Inl (Changed_representation (ca_name c))
          else after_captures old (filter (\<lambda>(name, _). name \<noteq> ca_name c) remaining) added (ca_name c # seen) cs)"

definition same_provenance :: "evidence \<Rightarrow> evidence \<Rightarrow> bool" where
  "same_provenance before after =
     (ev_module_path before = ev_module_path after \<and> ev_module_version before = ev_module_version after \<and>
      ev_go_language_version before = ev_go_language_version after \<and>
      ev_build_tags before = ev_build_tags after \<and> ev_goflags before = ev_goflags after \<and>
      ev_goexperiment before = ev_goexperiment after \<and>
      ev_architecture_level before = ev_architecture_level after \<and>
      ev_cgo_enabled before = ev_cgo_enabled after)"

definition capture_cmp :: "capture \<Rightarrow> capture \<Rightarrow> int" where
  "capture_cmp a b = str_compare (ca_name a) (ca_name b)"

definition compare :: "evidence \<Rightarrow> evidence \<Rightarrow> closure_error + growth" where
  "compare before after =
     (if ev_go_version before = [] \<or> ev_go_version before \<noteq> ev_go_version after \<or>
         ev_goos before \<noteq> ev_goos after \<or> ev_goarch before \<noteq> ev_goarch after
      then Inl Toolchain_mismatch
      else if ev_package before = [] \<or> ev_package before \<noteq> ev_package after \<or>
         ev_function before \<noteq> ev_function after
      then Inl Identity_mismatch
      else if \<not> same_provenance before after then Inl Provenance_mismatch
      else if \<not> ev_escapes before \<or> \<not> ev_escapes after then Inl Not_escaping
      else if ev_environment_bytes before \<le> 0 \<or> ev_environment_bytes after \<le> ev_environment_bytes before \<or>
         ev_size_class_bytes before \<le> 0 \<or> ev_size_class_bytes after \<le> ev_size_class_bytes before
      then Inl No_class_growth
      else case before_captures [] (ev_captures before) of
        Inl err \<Rightarrow> Inl err
      | Inr old \<Rightarrow>
          (case after_captures old old [] [] (ev_captures after) of
             Inl err \<Rightarrow> Inl err
           | Inr (remaining, added) \<Rightarrow>
               if remaining \<noteq> [] then Inl Capture_disappeared
               else if added = [] then Inl No_added_capture
               else Inr \<lparr>gr_before = before, gr_after = after, gr_added = stable_sort capture_cmp added\<rparr>))"

section \<open>The artifact\<close>

text \<open>
  The decoder of \<open>encoding/json\<close> as the code drives it: one value of the artifact type with
  the unread rest of the input, then one value of any type.
\<close>

datatype json_next = Json_eof | Json_value | Json_error

record json_codec =
  js_decode :: "string \<Rightarrow> ((int \<times> growth) \<times> string) option"
  js_next :: "string \<Rightarrow> json_next"
  js_encode :: "int \<times> growth \<Rightarrow> string"

definition artifact_version :: int where
  "artifact_version = 1"

definition write_artifact :: "json_codec \<Rightarrow> growth \<Rightarrow> string" where
  "write_artifact J g = js_encode J (artifact_version, g)"

definition read_artifact :: "json_codec \<Rightarrow> string \<Rightarrow> closure_error + growth" where
  "read_artifact J input =
     (case js_decode J input of
        None \<Rightarrow> Inl Decode_error
      | Some ((version, g), rest) \<Rightarrow>
          (case js_next J rest of
             Json_value \<Rightarrow> Inl Trailing_value
           | Json_error \<Rightarrow> Inl Decode_error
           | Json_eof \<Rightarrow>
               if version \<noteq> artifact_version then Inl (Unsupported_version version)
               else compare (gr_before g) (gr_after g)))"

section \<open>Layout\<close>

datatype layout_error =
    Missing_sizes
  | Invalid_pointer_size
  | Invalid_capture string
  | Layout_overflow

abbreviation max_int64 :: int where
  "max_int64 \<equiv> 2 ^ 63 - 1"

definition align :: "int \<Rightarrow> int \<Rightarrow> int" where
  "align value alignment = wrap64 (wrap64 (value + alignment) - 1) AND NOT (wrap64 (alignment - 1))"

fun layout_loop :: "int \<Rightarrow> int \<Rightarrow> capture list \<Rightarrow> layout_error + int \<times> int" where
  "layout_loop offset max_align [] = Inr (offset, max_align)"
| "layout_loop offset max_align (c # cs) =
     (if ca_size c < 0 \<or> ca_align c \<le> 0 \<or> (ca_align c AND (ca_align c - 1)) \<noteq> 0
      then Inl (Invalid_capture (ca_name c))
      else if offset > wrap64 (max_int64 - (ca_align c - 1)) then Inl Layout_overflow
      else let offset = align offset (ca_align c) in
        if ca_size c > wrap64 (max_int64 - offset) then Inl Layout_overflow
        else layout_loop (wrap64 (offset + ca_size c))
          (if ca_align c > max_align then ca_align c else max_align) cs)"

text \<open>\<open>sizes\<close> is the size of a pointer of the target; \<open>None\<close> is a nil \<open>types.Sizes\<close>.\<close>

definition layout :: "int option \<Rightarrow> capture list \<Rightarrow> layout_error + int" where
  "layout sizes captures =
     (case sizes of
        None \<Rightarrow> Inl Missing_sizes
      | Some pointer \<Rightarrow>
          if pointer \<le> 0 then Inl Invalid_pointer_size
          else case layout_loop pointer pointer captures of
            Inl err \<Rightarrow> Inl err
          | Inr (offset, max_align) \<Rightarrow>
              let trailing = captures \<noteq> [] \<and> ca_size (last captures) = 0 \<and> offset > 0 in
              if trailing \<and> offset = max_int64 then Inl Layout_overflow
              else let offset = (if trailing then wrap64 (offset + 1) else offset) in
                if offset > wrap64 (max_int64 - (max_align - 1)) then Inl Layout_overflow
                else Inr (align offset max_align))"

section \<open>Allocation classes\<close>

record allocator =
  al_classes :: "int list"
  al_max_small :: int
  al_min_size_for_header :: int
  al_tiny_size :: int

datatype class_error = Invalid_size | Header_bearing | Large_allocation | No_size_class

definition class_for_closure :: "allocator \<Rightarrow> int \<Rightarrow> bool \<Rightarrow> class_error + int" where
  "class_for_closure a bytes scanned =
     (if bytes \<le> 0 then Inl Invalid_size
      else if \<not> scanned \<and> bytes < al_tiny_size a then Inr (al_tiny_size a)
      else if scanned \<and> bytes > al_min_size_for_header a then Inl Header_bearing
      else if bytes > al_max_small a then Inl Large_allocation
      else case find (\<lambda>cl. cl \<ge> bytes) (al_classes a) of
        Some cl \<Rightarrow> Inr cl
      | None \<Rightarrow> Inl No_size_class)"

section \<open>The runtime of the selected toolchain\<close>

text \<open>
  The three regular expressions of \<open>runtime.go\<close>. \<open>find_match\<close> is the leftmost match;
  \<open>last_group\<close> is the greedy \<open>.*\<close> followed by a group in braces: the last brace of the line
  whose group is closed.
\<close>

definition re_space :: "char \<Rightarrow> bool" where
  "re_space c = (c \<in> {CHR '' '', CHR 0x09, CHR 0x0A, CHR 0x0C, CHR 0x0D})"

fun find_match :: "(string \<Rightarrow> 'a option) \<Rightarrow> string \<Rightarrow> 'a option" where
  "find_match m [] = m []"
| "find_match m (c # cs) = (case m (c # cs) of Some r \<Rightarrow> Some r | None \<Rightarrow> find_match m cs)"

fun last_group :: "string \<Rightarrow> string option" where
  "last_group [] = None"
| "last_group (c # cs) =
     (if c = CHR 0x0A then None
      else case last_group cs of
        Some g \<Rightarrow> Some g
      | None \<Rightarrow> if c = CHR ''{'' \<and> CHR ''}'' \<in> set cs then Some (takeWhile (\<lambda>c. c \<noteq> CHR ''}'') cs) else None)"

definition match_word_equals :: "string \<Rightarrow> string \<Rightarrow> string option" where
  "match_word_equals word s =
     (case cut_prefix s word of
        None \<Rightarrow> None
      | Some r \<Rightarrow> cut_prefix (dropWhile re_space r) ''='')"

definition match_class_pattern :: "string \<Rightarrow> string option" where
  "match_class_pattern s =
     (case match_word_equals ''SizeClassToSize'' s of None \<Rightarrow> None | Some r \<Rightarrow> last_group r)"

definition match_number :: "string \<Rightarrow> string \<Rightarrow> string option" where
  "match_number word s =
     (case match_word_equals word s of
        None \<Rightarrow> None
      | Some r \<Rightarrow>
          let digits = takeWhile is_digit (dropWhile re_space r) in
          if digits = [] then None else Some digits)"

text \<open>\<open>strconv.ParseInt(s, 10, 64)\<close>.\<close>

definition parse_int64 :: "string \<Rightarrow> int option" where
  "parse_int64 s =
     (let (negative, digits) =
        (case s of [] \<Rightarrow> (False, [])
         | c # cs \<Rightarrow> if c = CHR ''-'' then (True, cs) else if c = CHR ''+'' then (False, cs) else (False, s)) in
      if \<not> all_digits digits then None
      else let n = (if negative then - int (nat_of_digits 0 digits) else int (nat_of_digits 0 digits)) in
        if int64 n then Some n else None)"

fun parse_classes :: "string list \<Rightarrow> int list option" where
  "parse_classes [] = Some []"
| "parse_classes (w # ws) =
     (let word = trim_space w in
      if word = [] then parse_classes ws
      else case parse_int64 word of
        None \<Rightarrow> None
      | Some v \<Rightarrow> (case parse_classes ws of None \<Rightarrow> None | Some vs \<Rightarrow> Some (v # vs)))"

text \<open>
  The surroundings of a validation: files, the output of the Go command in the selected
  directory and environment, and the pointer size of \<open>types.SizesFor("gc", goarch)\<close>.
\<close>

record go_host =
  gh_read :: "string \<Rightarrow> string option"
  gh_go_env :: "string list \<Rightarrow> string option"
  gh_pointer :: "string \<Rightarrow> int option"

definition load_allocator :: "go_host \<Rightarrow> string \<Rightarrow> string \<Rightarrow> allocator option" where
  "load_allocator H goroot goarch =
     (case gh_read H (path_join [goroot, ''src'', ''internal'', ''runtime'', ''gc'', ''sizeclasses.go'']) of
        None \<Rightarrow> None
      | Some data \<Rightarrow>
     (case find_match match_class_pattern data of
        None \<Rightarrow> None
      | Some list \<Rightarrow>
     (case parse_classes (split_on (CHR '','') list) of
        None \<Rightarrow> None
      | Some classes \<Rightarrow>
     (case find_match (match_number ''MaxSmallSize'') data of
        None \<Rightarrow> None
      | Some maximum \<Rightarrow>
     (case parse_int64 maximum of
        None \<Rightarrow> None
      | Some max_small \<Rightarrow>
     (case find_match (match_number ''TinySize'') data of
        None \<Rightarrow> None
      | Some tiny_match \<Rightarrow>
     (case parse_int64 tiny_match of
        None \<Rightarrow> None
      | Some tiny \<Rightarrow>
     (case gh_read H (path_join [goroot, ''src'', ''internal'', ''runtime'', ''gc'', ''malloc.go'']) of
        None \<Rightarrow> None
      | Some malloc_source \<Rightarrow>
          if \<not> str_contains malloc_source ''MinSizeForMallocHeader = goarch.PtrSize * goarch.PtrBits'' then None
          else case gh_pointer H goarch of
            None \<Rightarrow> None
          | Some pointer \<Rightarrow>
              Some \<lparr>al_classes = classes, al_max_small = max_small,
                al_min_size_for_header = wrap64 (wrap64 (pointer * pointer) * 8),
                al_tiny_size = tiny\<rparr>))))))))"

section \<open>Targets\<close>

definition target_architecture_variable :: "string \<Rightarrow> string" where
  "target_architecture_variable architecture =
     (if architecture = ''386'' then ''GO386''
      else if architecture = ''amd64'' then ''GOAMD64''
      else if architecture = ''arm'' then ''GOARM''
      else if architecture = ''arm64'' then ''GOARM64''
      else if architecture \<in> {''mips'', ''mipsle''} then ''GOMIPS''
      else if architecture \<in> {''mips64'', ''mips64le''} then ''GOMIPS64''
      else if architecture \<in> {''ppc64'', ''ppc64le''} then ''GOPPC64''
      else if architecture = ''riscv64'' then ''GORISCV64''
      else if architecture = ''wasm'' then ''GOWASM''
      else [])"

definition target_architecture :: "go_host \<Rightarrow> string \<Rightarrow> string option" where
  "target_architecture H architecture =
     (let variable = target_architecture_variable architecture in
      if variable = [] then Some []
      else case gh_go_env H [variable] of None \<Rightarrow> None | Some output \<Rightarrow> Some (trim_space output))"

definition target_architecture_environment :: "string \<Rightarrow> string \<Rightarrow> string list option" where
  "target_architecture_environment architecture level =
     (let variable = target_architecture_variable architecture in
      if variable = [] then (if level \<noteq> [] then None else Some [])
      else if list_ex (\<lambda>c. c = CHR 0x0A \<or> c = CHR 0x0D \<or> c = CHR 0x00) level then None
      else Some [variable @ ''='' @ level])"

section \<open>Validation against the selected toolchain\<close>

datatype validation_error =
    Go_command_failed
  | Wrong_toolchain
  | Wrong_target
  | Wrong_build_context
  | Incomplete_target
  | Layout_mismatch
  | Scan_mismatch
  | Allocator_failed
  | Class_mismatch

definition validation_variables :: "string list" where
  "validation_variables =
     [''GOROOT'', ''GOVERSION'', ''GOFLAGS'', ''GOEXPERIMENT'', ''GOOS'', ''GOARCH'', ''CGO_ENABLED'']"

definition trim_newline :: "string \<Rightarrow> string" where
  "trim_newline s = (case cut_suffix s [CHR 0x0A] of None \<Rightarrow> s | Some t \<Rightarrow> t)"

text \<open>\<open>None\<close> is success.\<close>

definition validate_selected :: "go_host \<Rightarrow> evidence \<Rightarrow> validation_error option" where
  "validate_selected H ev =
     (case gh_go_env H validation_variables of
        None \<Rightarrow> Some Go_command_failed
      | Some output \<Rightarrow>
          let lines = split_on (CHR 0x0A) (trim_newline output) in
          if length lines \<noteq> 7 \<or> lines ! 0 = [] \<or> lines ! 1 \<noteq> ev_go_version ev then Some Wrong_toolchain
          else if lines ! 4 \<noteq> ev_goos ev \<or> lines ! 5 \<noteq> ev_goarch ev then Some Wrong_target
          else case target_architecture H (ev_goarch ev) of
            None \<Rightarrow> Some Go_command_failed
          | Some architecture \<Rightarrow>
              if lines ! 2 \<noteq> ev_goflags ev \<or> lines ! 3 \<noteq> ev_goexperiment ev \<or>
                 architecture \<noteq> ev_architecture_level ev \<or> lines ! 6 \<noteq> ev_cgo_enabled ev
              then Some Wrong_build_context
              else if ev_goos ev = [] \<or> ev_goarch ev = [] \<or> ev_cgo_enabled ev = [] then Some Incomplete_target
              else if layout (gh_pointer H (ev_goarch ev)) (ev_captures ev) \<noteq> Inr (ev_environment_bytes ev)
              then Some Layout_mismatch
              else
                let scanned = list_ex ca_has_pointers (ev_captures ev) in
                if scanned \<noteq> ev_scanned ev then Some Scan_mismatch
                else case load_allocator H (lines ! 0) (ev_goarch ev) of
                  None \<Rightarrow> Some Allocator_failed
                | Some a \<Rightarrow>
                    if class_for_closure a (ev_environment_bytes ev) scanned \<noteq> Inr (ev_size_class_bytes ev)
                    then Some Class_mismatch
                    else None)"

end
