(* ===== verification/Closure_Props.thy ===== *)
theory Closure_Props
  imports Closure
begin

text \<open>
  Properties of closure evidence: what a reported growth means, independently of the order
  of the captures; the layout as the exact layout over unbounded integers; the round trip of
  the artifact file; and the allocation class.
\<close>

section \<open>Growth\<close>

lemma before_captures_ok:
  "before_captures old cs = Inr old' \<longleftrightarrow>
     distinct (map ca_name cs) \<and> (\<forall>c\<in>set cs. ca_name c \<noteq> [] \<and> map_of old (ca_name c) = None) \<and>
     old' = rev (map (\<lambda>c. (ca_name c, c)) cs) @ old"
proof (induction cs arbitrary: old)
  case Nil
  show ?case by auto
next
  case (Cons c cs)
  have "(\<forall>d\<in>set cs. map_of ((ca_name c, c) # old) (ca_name d) = None) \<longleftrightarrow>
      ca_name c \<notin> ca_name ` set cs \<and> (\<forall>d\<in>set cs. map_of old (ca_name d) = None)"
    by (auto simp: image_iff)
  then show ?case by (auto simp: Cons.IH)
qed

lemma after_captures_ok:
  assumes "fst ` set remaining \<subseteq> fst ` set old"
  shows "after_captures old remaining added seen cs = Inr (remaining', added') \<longleftrightarrow>
     distinct (map ca_name cs) \<and> (\<forall>c\<in>set cs. ca_name c \<noteq> [] \<and> ca_name c \<notin> set seen) \<and>
     (\<forall>c\<in>set cs. \<forall>p. map_of old (ca_name c) = Some p \<longrightarrow> p = c) \<and>
     remaining' = filter (\<lambda>(n, _). n \<notin> ca_name ` set cs) remaining \<and>
     added' = added @ filter (\<lambda>c. map_of old (ca_name c) = None) cs"
  using assms
proof (induction cs arbitrary: remaining added seen)
  case Nil
  show ?case by auto
next
  case (Cons c cs)
  have fresh: "(\<forall>d\<in>set cs. ca_name d \<notin> set (ca_name c # seen)) \<longleftrightarrow>
      ca_name c \<notin> ca_name ` set cs \<and> (\<forall>d\<in>set cs. ca_name d \<notin> set seen)"
    by (auto simp: image_iff)
  show ?case
  proof (cases "ca_name c = [] \<or> ca_name c \<in> set seen")
    case True
    then show ?thesis by auto
  next
    case ok: False
    show ?thesis
    proof (cases "map_of old (ca_name c)")
      case None
      then have "ca_name c \<notin> fst ` set remaining"
        using Cons.prems by (auto simp: map_of_eq_None_iff)
      then have "filter (\<lambda>(n, _). n \<notin> ca_name ` set cs) remaining =
          filter (\<lambda>(n, _). n \<notin> ca_name ` set (c # cs)) remaining"
        by (intro filter_cong) (auto simp: image_iff)
      then show ?thesis
        using ok None fresh Cons.IH [OF Cons.prems, of "added @ [c]" "ca_name c # seen"]
        by (simp del: set_simps) (auto simp: list.set)
    next
      case (Some p)
      let ?rest = "filter (\<lambda>(n, _). n \<noteq> ca_name c) remaining"
      have "fst ` set ?rest \<subseteq> fst ` set old" using Cons.prems by auto
      note ih = Cons.IH [OF this, of added "ca_name c # seen"]
      have "filter (\<lambda>(n, _). n \<notin> ca_name ` set cs) ?rest =
          filter (\<lambda>(n, _). n \<notin> ca_name ` set (c # cs)) remaining"
        unfolding filter_filter by (rule filter_cong) auto
      with ok Some fresh ih show ?thesis
        by (auto simp: list.set)
    qed
  qed
qed

definition comparable :: "evidence \<Rightarrow> evidence \<Rightarrow> bool" where
  "comparable before after =
     (ev_go_version before \<noteq> [] \<and> ev_go_version before = ev_go_version after \<and>
      ev_goos before = ev_goos after \<and> ev_goarch before = ev_goarch after \<and>
      ev_package before \<noteq> [] \<and> ev_package before = ev_package after \<and>
      ev_function before = ev_function after \<and> same_provenance before after \<and>
      ev_escapes before \<and> ev_escapes after \<and>
      0 < ev_environment_bytes before \<and> ev_environment_bytes before < ev_environment_bytes after \<and>
      0 < ev_size_class_bytes before \<and> ev_size_class_bytes before < ev_size_class_bytes after)"

definition named :: "capture list \<Rightarrow> bool" where
  "named cs = (distinct (map ca_name cs) \<and> list_all (\<lambda>c. ca_name c \<noteq> []) cs)"

definition old_captures :: "capture list \<Rightarrow> (string \<times> capture) list" where
  "old_captures cs = rev (map (\<lambda>c. (ca_name c, c)) cs)"

lemma old_captures_map:
  assumes "named cs"
  shows "map_of (old_captures cs) n = Some c \<longleftrightarrow> c \<in> set cs \<and> ca_name c = n"
proof -
  have "distinct (map fst (old_captures cs))"
    using assms by (simp add: old_captures_def named_def comp_def flip: rev_map)
  then have "map_of (old_captures cs) n = Some c \<longleftrightarrow> (n, c) \<in> set (old_captures cs)"
    by simp
  then show ?thesis by (auto simp: old_captures_def)
qed

lemma name_inj: "named cs \<Longrightarrow> c \<in> set cs \<Longrightarrow> d \<in> set cs \<Longrightarrow> ca_name c = ca_name d \<Longrightarrow> c = d"
  unfolding named_def distinct_map inj_on_def by blast

lemma old_captures_names: "fst ` set (old_captures cs) = ca_name ` set cs"
  by (simp add: old_captures_def image_image)

lemma old_captures_None:
  assumes "named cs"
  shows "map_of (old_captures cs) n = None \<longleftrightarrow> n \<notin> ca_name ` set cs"
  by (simp add: map_of_eq_None_iff old_captures_names)

lemma growth_condition:
  assumes "named bs" and "named cs"
  shows "(\<forall>c\<in>set cs. \<forall>p. map_of (old_captures bs) (ca_name c) = Some p \<longrightarrow> p = c) \<and>
      filter (\<lambda>(n, _). n \<notin> ca_name ` set cs) (old_captures bs) = [] \<longleftrightarrow> set bs \<subseteq> set cs"
    (is "?same \<and> ?gone \<longleftrightarrow> _")
proof -
  have gone: "?gone \<longleftrightarrow> ca_name ` set bs \<subseteq> ca_name ` set cs"
    by (auto simp: old_captures_def filter_empty_conv)
  have same: "?same \<longleftrightarrow> (\<forall>c\<in>set cs. \<forall>p\<in>set bs. ca_name p = ca_name c \<longrightarrow> p = c)"
    by (auto simp: old_captures_map [OF assms(1)])
  show ?thesis unfolding gone same
  proof
    assume l: "(\<forall>c\<in>set cs. \<forall>p\<in>set bs. ca_name p = ca_name c \<longrightarrow> p = c) \<and>
      ca_name ` set bs \<subseteq> ca_name ` set cs"
    show "set bs \<subseteq> set cs"
    proof
      fix p assume p: "p \<in> set bs"
      then obtain c where "c \<in> set cs" "ca_name p = ca_name c" using l by (auto simp: image_iff)
      with l p show "p \<in> set cs" by metis
    qed
  next
    assume s: "set bs \<subseteq> set cs"
    have "p = c" if "c \<in> set cs" "p \<in> set bs" "ca_name p = ca_name c" for c p
      using name_inj [OF assms(2)] s that by blast
    with s show "(\<forall>c\<in>set cs. \<forall>p\<in>set bs. ca_name p = ca_name c \<longrightarrow> p = c) \<and>
      ca_name ` set bs \<subseteq> ca_name ` set cs" by blast
  qed
qed

lemma added_captures:
  assumes "named bs" and "named cs" and "set bs \<subseteq> set cs"
  shows "filter (\<lambda>c. map_of (old_captures bs) (ca_name c) = None) cs = filter (\<lambda>c. c \<notin> set bs) cs"
proof (rule filter_cong [OF refl])
  fix c assume "c \<in> set cs"
  then show "(map_of (old_captures bs) (ca_name c) = None) = (c \<notin> set bs)"
    unfolding old_captures_None [OF assms(1)]
    using name_inj [OF assms(2)] assms(3) by (metis image_iff subset_iff)
qed

text \<open>The two loops together: what \<open>Compare\<close> makes of the captures.\<close>

definition captures_grow :: "capture list \<Rightarrow> capture list \<Rightarrow> capture list option" where
  "captures_grow bs cs =
     (case before_captures [] bs of
        Inl _ \<Rightarrow> None
      | Inr old \<Rightarrow>
          (case after_captures old old [] [] cs of
             Inl _ \<Rightarrow> None
           | Inr (remaining, added) \<Rightarrow>
               if remaining \<noteq> [] \<or> added = [] then None else Some added))"

lemma captures_grow_iff:
  "captures_grow bs cs = Some added \<longleftrightarrow>
     named bs \<and> named cs \<and> set bs \<subset> set cs \<and> added = filter (\<lambda>c. c \<notin> set bs) cs"
proof (cases "named bs")
  case False
  then have no: "before_captures [] bs \<noteq> Inr old" for old
    unfolding before_captures_ok named_def list_all_iff by auto
  then obtain err where "before_captures [] bs = Inl err" by (cases "before_captures [] bs") auto
  then have "captures_grow bs cs = None" by (simp add: captures_grow_def)
  with False show ?thesis by simp
next
  case nb: True
  then have b: "before_captures [] bs = Inr (old_captures bs)"
    by (simp add: before_captures_ok named_def old_captures_def list_all_iff)
  let ?ok = "\<lambda>remaining added. after_captures (old_captures bs) (old_captures bs) [] [] cs = Inr (remaining, added)"
  let ?new = "filter (\<lambda>c. map_of (old_captures bs) (ca_name c) = None) cs"
  have "captures_grow bs cs = Some added \<longleftrightarrow> (?ok [] added \<and> added \<noteq> [])"
    by (auto simp: captures_grow_def b split: sum.splits prod.splits)
  also have "\<dots> \<longleftrightarrow> named cs \<and>
      ((\<forall>c\<in>set cs. \<forall>p. map_of (old_captures bs) (ca_name c) = Some p \<longrightarrow> p = c) \<and>
       filter (\<lambda>(n, _). n \<notin> ca_name ` set cs) (old_captures bs) = []) \<and> added = ?new \<and> added \<noteq> []"
    by (simp only: after_captures_ok [OF subset_refl]) (auto simp: named_def list_all_iff)
  also have "\<dots> \<longleftrightarrow> named cs \<and> set bs \<subseteq> set cs \<and> added = ?new \<and> added \<noteq> []"
    using growth_condition [OF nb] by (simp cong: conj_cong)
  also have "\<dots> \<longleftrightarrow> named cs \<and> set bs \<subset> set cs \<and> added = filter (\<lambda>c. c \<notin> set bs) cs"
  proof (cases "named cs \<and> set bs \<subseteq> set cs")
    case True
    then have "?new = filter (\<lambda>c. c \<notin> set bs) cs" by (intro added_captures [OF nb]) simp_all
    moreover have "filter (\<lambda>c. c \<notin> set bs) cs \<noteq> [] \<longleftrightarrow> \<not> set cs \<subseteq> set bs"
      by (auto simp: filter_empty_conv)
    ultimately show ?thesis using True by auto
  qed auto
  finally show ?thesis using nb by simp
qed

lemma compare_captures:
  "compare before after = Inr g \<longleftrightarrow> comparable before after \<and>
     (\<exists>added. captures_grow (ev_captures before) (ev_captures after) = Some added \<and>
        g = \<lparr>gr_before = before, gr_after = after, gr_added = stable_sort capture_cmp added\<rparr>)"
  unfolding compare_def comparable_def captures_grow_def
  by (auto split: sum.splits prod.splits)

text \<open>
  A growth is reported exactly when the two revisions are comparable and grew, all
  captures have distinct non-empty names, and the captures of the first revision are a
  proper subset of those of the second. The added captures are then the other ones, sorted
  by name. The order in which the compiler emits the captures does not matter.
\<close>

theorem compare_iff:
  "compare before after = Inr g \<longleftrightarrow>
     comparable before after \<and> named (ev_captures before) \<and> named (ev_captures after) \<and>
     set (ev_captures before) \<subset> set (ev_captures after) \<and>
     g = \<lparr>gr_before = before, gr_after = after,
          gr_added = stable_sort capture_cmp
            (filter (\<lambda>c. c \<notin> set (ev_captures before)) (ev_captures after))\<rparr>"
  unfolding compare_captures captures_grow_iff by auto

section \<open>Layout\<close>

text \<open>Powers of two, as the guard \<open>Align & (Align - 1) == 0\<close> tests them.\<close>

lemma and_pred_double: "(2 * b) AND (2 * b - 1) = 2 * (b AND (b - 1))" for b :: int
proof -
  have "(2 * b - 1) div 2 = b - 1" by presburger
  then show ?thesis by (simp add: and_int_rec [of "2 * b"])
qed

lemma and_pred_zero: "0 < a \<Longrightarrow> a AND (a - 1) = 0 \<longleftrightarrow> (\<exists>k. a = 2 ^ k)" for a :: int
proof (induction "nat a" arbitrary: a rule: less_induct)
  case less
  show ?case
  proof (cases "even a")
    case True
    then obtain b where b: "a = 2 * b" by blast
    with less have ih: "b AND (b - 1) = 0 \<longleftrightarrow> (\<exists>k. b = 2 ^ k)" by simp
    have "(\<exists>k. a = 2 ^ k) \<longleftrightarrow> (\<exists>k. b = 2 ^ k)"
    proof
      assume "\<exists>k. a = 2 ^ k"
      then obtain k where k: "a = 2 ^ k" by blast
      with b have "k \<noteq> 0" by (metis even_mult_iff even_numeral odd_one power_0)
      then obtain j where "k = Suc j" by (metis not0_implies_Suc)
      with k b show "\<exists>k. b = 2 ^ k" by auto
    next
      assume "\<exists>k. b = 2 ^ k"
      then show "\<exists>k. a = 2 ^ k" using b by (metis power_Suc)
    qed
    with ih b show ?thesis by (simp add: and_pred_double)
  next
    case False
    then obtain b where b: "a = 2 * b + 1" by (elim oddE)
    with less.prems have "0 \<le> b" by simp
    have "a AND (a - 1) = 2 * b" unfolding b by (simp add: and_int_rec [of "2 * b + 1"])
    moreover have "(\<exists>k. a = 2 ^ k) \<longleftrightarrow> a = 1"
    proof
      assume "\<exists>k. a = 2 ^ k"
      then obtain k where k: "a = 2 ^ k" by blast
      with False have "k = 0" by (metis even_power even_numeral not_gr0)
      with k show "a = 1" by simp
    qed (metis power_0)
    ultimately show ?thesis using b by auto
  qed
qed

lemma and_not_mask: "v AND NOT (2 ^ k - 1) = v - v mod 2 ^ k" for v :: int
proof -
  have "v - take_bit k v = v AND NOT (take_bit k v)"
    by (rule disjunctive_diff_eq_and_not) (auto simp: bit_eq_iff bit_simps)
  also have "\<dots> = v AND NOT (mask k)"
    by (auto simp: bit_eq_iff bit_simps)
  finally show ?thesis by (simp add: mask_eq_exp_minus_1 take_bit_eq_mod)
qed

definition round_up :: "int \<Rightarrow> int \<Rightarrow> int" where
  "round_up v a = (v + a - 1) div a * a"

lemma round_up_ge: "0 < a \<Longrightarrow> v \<le> round_up v a"
proof -
  assume a: "0 < a"
  have "round_up v a = v + a - 1 - (v + a - 1) mod a"
    by (simp add: round_up_def minus_mod_eq_div_mult)
  moreover have "(v + a - 1) mod a \<le> a - 1" using a pos_mod_bound [of a "v + a - 1"] by simp
  ultimately show ?thesis by simp
qed

lemma align_exact:
  assumes "0 \<le> v" and "v + 2 ^ k - 1 \<le> max_int64" and "int64 (2 ^ k)"
  shows "align v (2 ^ k) = round_up v (2 ^ k)"
proof -
  let ?a = "(2::int) ^ k"
  have a: "0 < ?a" by simp
  have "1 \<le> ?a" by simp
  with assms(1) have "0 \<le> v + ?a - 1" by linarith
  then have i: "int64 (v + ?a - 1)" using assms(2) by (rule int64_nonneg)
  have "wrap64 (wrap64 (v + ?a) - 1) = wrap64 (v + ?a - 1)"
    using wrap64_add_left [of "v + ?a" "-1"] by simp
  moreover have "wrap64 (?a - 1) = ?a - 1"
    using assms(3) a by (intro wrap64_id int64_nonneg) (simp_all add: int64_def)
  ultimately have "align v ?a = (v + ?a - 1) AND NOT (?a - 1)"
    using wrap64_id [OF i] by (simp add: align_def)
  then show ?thesis by (simp add: and_not_mask round_up_def minus_mod_eq_div_mult)
qed

lemma round_up_overflow:
  assumes "max_int64 < v + 2 ^ k - 1" and "int64 (2 ^ k)"
  shows "max_int64 < round_up v (2 ^ k)"
proof -
  have "(2::int) ^ k < 2 ^ 63" using assms(2) by (simp add: int64_def)
  then have "k < 63" by (rule power_less_imp_less_exp [rotated]) simp
  then have e: "(2::int) ^ 63 = 2 ^ (63 - k) * 2 ^ k" by (simp flip: power_add)
  have "2 ^ 63 div 2 ^ k \<le> (v + 2 ^ k - 1) div 2 ^ k"
    by (rule zdiv_mono1) (use assms(1) in simp_all)
  moreover have "(2::int) ^ 63 div 2 ^ k = 2 ^ (63 - k)" unfolding e by simp
  ultimately have "2 ^ (63 - k) * 2 ^ k \<le> (v + 2 ^ k - 1) div 2 ^ k * 2 ^ k"
    by (intro mult_right_mono) simp_all
  then show ?thesis unfolding round_up_def e [symmetric] by simp
qed

text \<open>One rounding step of the code: it fails exactly when the exact result leaves the range.\<close>

lemma round_up_step:
  assumes "0 \<le> v" and "int64 (2 ^ k)"
  shows "v > wrap64 (max_int64 - (2 ^ k - 1)) \<longleftrightarrow> max_int64 < round_up v (2 ^ k)"
    and "\<not> max_int64 < round_up v (2 ^ k) \<Longrightarrow> align v (2 ^ k) = round_up v (2 ^ k)"
proof -
  have "(1::int) \<le> 2 ^ k" by simp
  then have w: "wrap64 (max_int64 - (2 ^ k - 1)) = max_int64 - (2 ^ k - 1)"
    using assms(2) by (intro wrap64_id) (simp add: int64_def)
  have le: "round_up v (2 ^ k) \<le> v + 2 ^ k - 1"
  proof -
    have "0 \<le> (v + 2 ^ k - 1) mod 2 ^ k" by (rule pos_mod_sign) simp
    then show ?thesis unfolding round_up_def minus_mod_eq_div_mult [symmetric] by linarith
  qed
  show "v > wrap64 (max_int64 - (2 ^ k - 1)) \<longleftrightarrow> max_int64 < round_up v (2 ^ k)"
    unfolding w using le round_up_overflow [OF _ assms(2), of v] by auto
  show "align v (2 ^ k) = round_up v (2 ^ k)" if "\<not> max_int64 < round_up v (2 ^ k)"
  proof (rule align_exact [OF assms(1) _ assms(2)])
    show "v + 2 ^ k - 1 \<le> max_int64"
      using that round_up_overflow [OF _ assms(2), of v] by linarith
  qed
qed

definition well_formed :: "capture \<Rightarrow> bool" where
  "well_formed c = (0 \<le> ca_size c \<and> (\<exists>k. ca_align c = 2 ^ k))"

definition capture_int64 :: "capture \<Rightarrow> bool" where
  "capture_int64 c = (int64 (ca_size c) \<and> int64 (ca_align c))"

fun ideal_loop :: "int \<Rightarrow> capture list \<Rightarrow> int" where
  "ideal_loop offset [] = offset"
| "ideal_loop offset (c # cs) = ideal_loop (round_up offset (ca_align c) + ca_size c) cs"

definition max_align :: "int \<Rightarrow> capture list \<Rightarrow> int" where
  "max_align pointer cs = foldl max pointer (map ca_align cs)"

definition ideal_layout :: "int \<Rightarrow> capture list \<Rightarrow> int" where
  "ideal_layout pointer cs =
     round_up (ideal_loop pointer cs + (if cs \<noteq> [] \<and> ca_size (last cs) = 0 then 1 else 0)) (max_align pointer cs)"

lemma ideal_loop_ge: "list_all well_formed cs \<Longrightarrow> offset \<le> ideal_loop offset cs"
proof (induction cs arbitrary: offset)
  case Nil
  show ?case by simp
next
  case (Cons c cs)
  then obtain k where k: "ca_align c = 2 ^ k" and s: "0 \<le> ca_size c" by (auto simp: well_formed_def)
  have "offset \<le> round_up offset (ca_align c) + ca_size c"
    using round_up_ge [of "ca_align c" offset] k s by simp
  also have "\<dots> \<le> ideal_loop (round_up offset (ca_align c) + ca_size c) cs"
    by (rule Cons.IH) (use Cons.prems in simp)
  finally show ?case by simp
qed

lemma layout_loop_exact:
  assumes "0 \<le> offset" and "list_all capture_int64 cs"
  shows "layout_loop offset m cs = Inr (end, m') \<longleftrightarrow>
     list_all well_formed cs \<and> end = ideal_loop offset cs \<and> (cs \<noteq> [] \<longrightarrow> end \<le> max_int64) \<and>
     m' = max_align m cs"
  using assms
proof (induction cs arbitrary: offset m)
  case Nil
  show ?case by (auto simp: max_align_def)
next
  case (Cons c cs)
  have c: "capture_int64 c" "list_all capture_int64 cs" using Cons.prems by simp_all
  show ?case
  proof (cases "well_formed c")
    case False
    then have "ca_size c < 0 \<or> ca_align c \<le> 0 \<or> (ca_align c AND (ca_align c - 1)) \<noteq> 0"
      using and_pred_zero [of "ca_align c"] by (auto simp: well_formed_def)
    then show ?thesis using False by auto
  next
    case True
    then obtain k where k: "ca_align c = 2 ^ k" and s: "0 \<le> ca_size c" by (auto simp: well_formed_def)
    have i: "int64 (2 ^ k)" using c(1) k by (simp add: capture_int64_def)
    note step = round_up_step [OF Cons.prems(1) i]
    have ok: "\<not> (ca_size c < 0 \<or> ca_align c \<le> 0 \<or> (ca_align c AND (ca_align c - 1)) \<noteq> 0)"
      using s k and_pred_zero [of "ca_align c"] by auto
    let ?o = "round_up offset (2 ^ k)"
    have ge: "offset \<le> ?o" by (rule round_up_ge) simp
    have mono: "list_all well_formed cs \<Longrightarrow> ?o + ca_size c \<le> ideal_loop (?o + ca_size c) cs"
      by (rule ideal_loop_ge)
    show ?thesis
    proof (cases "max_int64 < ?o + ca_size c")
      case True
      have "layout_loop offset m (c # cs) \<noteq> Inr (end, m')"
      proof (cases "max_int64 < ?o")
        case True
        then show ?thesis using ok step(1) k by simp
      next
        case False
        have "wrap64 (max_int64 - ?o) = max_int64 - ?o"
          using ge False Cons.prems(1) by (intro wrap64_id int64_nonneg) simp_all
        then show ?thesis using ok step k False True by (simp add: Let_def)
      qed
      then show ?thesis using True mono k by fastforce
    next
      case False
      then have o: "\<not> max_int64 < ?o" using s by simp
      have w: "wrap64 (max_int64 - ?o) = max_int64 - ?o" "wrap64 (?o + ca_size c) = ?o + ca_size c"
        using ge o False s Cons.prems(1) by (auto intro!: wrap64_id int64_nonneg)
      have "layout_loop offset m (c # cs) = layout_loop (?o + ca_size c) (max m (ca_align c)) cs"
        using ok step o k w False by (simp add: Let_def max_def)
      moreover have "0 \<le> ?o + ca_size c" using ge s Cons.prems(1) by simp
      note ih = Cons.IH [OF this c(2), of "max m (ca_align c)"]
      ultimately show ?thesis
        using True False k by (cases cs) (auto simp: max_align_def)
    qed
  qed
qed

lemma max_align_power:
  assumes "pointer = 2 ^ k" and "int64 pointer" and "list_all well_formed cs" and "list_all capture_int64 cs"
  shows "\<exists>j. max_align pointer cs = 2 ^ j \<and> int64 (2 ^ j)"
  using assms unfolding max_align_def
proof (induction cs arbitrary: pointer k)
  case Nil
  then show ?case by auto
next
  case (Cons c cs)
  obtain j where j: "ca_align c = 2 ^ j" "int64 (2 ^ j)"
    using Cons.prems(3,4) by (auto simp: well_formed_def capture_int64_def)
  obtain l where "max pointer (ca_align c) = 2 ^ l" "int64 (2 ^ l)"
    using j Cons.prems(1,2) by (cases "pointer \<le> ca_align c") (auto simp: max_def)
  then show ?case using Cons.IH [of "max pointer (ca_align c)" l] Cons.prems(3,4) by simp
qed

lemma layout_ideal:
  assumes "pointer = 2 ^ k" and "int64 pointer" and "list_all capture_int64 cs"
  shows "layout (Some pointer) cs = Inr n \<longleftrightarrow>
    list_all well_formed cs \<and> n = ideal_layout pointer cs \<and> n \<le> max_int64"
proof -
  have p: "0 < pointer" "0 \<le> pointer" using assms(1) by simp_all
  note loop = layout_loop_exact [OF p(2) assms(3), of pointer]
  show ?thesis
  proof (cases "layout_loop pointer pointer cs")
    case (Inl err)
    then have "\<not> (list_all well_formed cs \<and> (cs \<noteq> [] \<longrightarrow> ideal_loop pointer cs \<le> max_int64))"
      using loop [of "ideal_loop pointer cs" "max_align pointer cs"] by simp
    moreover have "ideal_layout pointer cs \<le> max_int64 \<longrightarrow> ideal_loop pointer cs \<le> max_int64" if w: "list_all well_formed cs"
    proof -
      obtain j where "max_align pointer cs = 2 ^ j"
        using max_align_power [OF assms(1,2) w assms(3)] by blast
      then have "ideal_loop pointer cs + (if cs \<noteq> [] \<and> ca_size (last cs) = 0 then 1 else 0) \<le> ideal_layout pointer cs"
        unfolding ideal_layout_def by (simp only:) (rule round_up_ge, simp)
      then show ?thesis by (simp split: if_splits)
    qed
    ultimately show ?thesis using Inl p by (auto simp: layout_def)
  next
    case (Inr r)
    obtain offset m where r: "r = (offset, m)" by (cases r)
    from Inr have l: "list_all well_formed cs" "offset = ideal_loop pointer cs"
        "cs \<noteq> [] \<longrightarrow> offset \<le> max_int64" "m = max_align pointer cs"
      using loop [of offset m] unfolding r by auto
    obtain j where j: "m = 2 ^ j" "int64 (2 ^ j)"
      using max_align_power [OF assms(1,2) l(1) assms(3)] l(4) by auto
    have ge: "pointer \<le> offset" unfolding l(2) by (rule ideal_loop_ge [OF l(1)])
    let ?t = "cs \<noteq> [] \<and> ca_size (last cs) = 0"
    define e where "e = offset + (if ?t then 1 else 0)"
    have ideal: "ideal_layout pointer cs = round_up e m" by (simp add: e_def ideal_layout_def l(2,4))
    have "e \<le> round_up e m" by (rule round_up_ge) (simp add: j)
    then have big: "max_int64 < ideal_layout pointer cs" if "?t" "offset = max_int64"
      using that ideal by (simp add: e_def)
    have code: "layout (Some pointer) cs =
        (if ?t \<and> offset = max_int64 then Inl Layout_overflow
         else if e > wrap64 (max_int64 - (m - 1)) then Inl Layout_overflow else Inr (align e m))"
    proof -
      have "wrap64 (offset + 1) = offset + 1" if "?t" "offset \<noteq> max_int64"
        using that l(3) ge p by (intro wrap64_id int64_nonneg) auto
      then show ?thesis using Inr r p ge by (auto simp: layout_def Let_def e_def)
    qed
    have "0 \<le> e" using ge p by (simp add: e_def)
    note step = round_up_step [OF this j(2), folded j(1) ideal]
    show ?thesis
    proof (cases "?t \<and> offset = max_int64")
      case True
      then have "layout (Some pointer) cs = Inl Layout_overflow" unfolding code by simp
      with big True show ?thesis by auto
    next
      case False
      then have "layout (Some pointer) cs =
          (if max_int64 < ideal_layout pointer cs then Inl Layout_overflow else Inr (ideal_layout pointer cs))"
        unfolding code step(1) using step(2) by (simp only: if_False cong: if_cong)
      with l(1) show ?thesis by auto
    qed
  qed
qed

text \<open>
  The layout of a closure environment is exact. \<open>Layout\<close>, which works in 64-bit
  arithmetic with masks and guards every step against overflow, returns a size precisely
  when every capture has a non-negative size and a power of two as its alignment and the
  layout over unbounded integers fits 64 bits, and it returns that layout.
\<close>

theorem layout_exact:
  assumes "pointer = 2 ^ k" and "int64 pointer" and "list_all capture_int64 cs"
  shows "layout (Some pointer) cs = Inr n \<longleftrightarrow>
    list_all well_formed cs \<and> n = ideal_layout pointer cs \<and> n \<le> max_int64"
  using assms by (rule layout_ideal)

lemma layout_exact_witness:
  "layout (Some 8) [\<lparr>ca_name = ''x'', ca_type = ''int32'', ca_size = 4, ca_align = 4, ca_by_reference = False,
      ca_has_pointers = False\<rparr>, \<lparr>ca_name = ''y'', ca_type = ''int64'', ca_size = 8, ca_align = 8,
      ca_by_reference = False, ca_has_pointers = False\<rparr>] = Inr 24"
proof -
  have a: "\<exists>k. 2 ^ k = (4::int)" by (rule exI [of _ 2]) simp
  have b: "\<exists>k. 2 ^ k = (8::int)" by (rule exI [of _ 3]) simp
  show ?thesis
    by (subst layout_exact [of _ 3])
      (simp_all add: capture_int64_def int64_def well_formed_def a b ideal_layout_def max_align_def round_up_def)
qed

section \<open>The artifact file\<close>

text \<open>
  An artifact written for a growth that \<open>Compare\<close> reported reads back as the same
  growth, whatever revisions it came from: reading compares the two revisions again.
\<close>

theorem artifact_roundtrip:
  assumes "compare before after = Inr g"
    and codec: "js_decode J (js_encode J (1, g)) = Some ((1, g), rest)" "js_next J rest = Json_eof"
  shows "read_artifact J (write_artifact J g) = Inr g"
proof -
  have "gr_before g = before" "gr_after g = after"
    using assms(1) unfolding compare_captures by auto
  then show ?thesis
    using assms by (simp add: read_artifact_def write_artifact_def artifact_version_def)
qed

text \<open>Two revisions of a closure: the second captures one more pointer.\<close>

definition sample_evidence :: "capture list \<Rightarrow> int \<Rightarrow> int \<Rightarrow> evidence" where
  "sample_evidence captures bytes cl =
     \<lparr>ev_go_version = ''go1'', ev_goos = ''linux'', ev_goarch = ''amd64'', ev_source_sha256 = [], ev_package = ''p'',
      ev_function = ''F'', ev_file = ''f.go'', ev_line = 3, ev_column = 5, ev_escapes = True, ev_captures = captures,
      ev_environment_bytes = bytes, ev_size_class_bytes = cl, ev_scanned = True, ev_module_path = [],
      ev_module_version = [], ev_go_language_version = [], ev_build_tags = [], ev_goflags = [],
      ev_goexperiment = [], ev_architecture_level = ''v1'', ev_cgo_enabled = ''1''\<rparr>"

definition sample_capture :: "string \<Rightarrow> capture" where
  "sample_capture name = \<lparr>ca_name = name, ca_type = ''*int'', ca_size = 8, ca_align = 8,
     ca_by_reference = True, ca_has_pointers = True\<rparr>"

definition sample_growth :: growth where
  "sample_growth =
     \<lparr>gr_before = sample_evidence [sample_capture ''x''] 16 16,
      gr_after = sample_evidence [sample_capture ''y'', sample_capture ''x''] 24 32,
      gr_added = [sample_capture ''y'']\<rparr>"

lemma sample_growth_compare: "compare (gr_before sample_growth) (gr_after sample_growth) = Inr sample_growth"
  by (simp add: compare_def sample_growth_def sample_evidence_def sample_capture_def same_provenance_def)

lemma artifact_roundtrip_witness:
  "let J = \<lparr>js_decode = \<lambda>_. Some ((1, sample_growth), []), js_next = \<lambda>_. Json_eof, js_encode = \<lambda>_. ''{}''\<rparr> in
     read_artifact J (write_artifact J sample_growth) = Inr sample_growth"
  using artifact_roundtrip [OF sample_growth_compare] by (simp add: Let_def)

section \<open>Validated evidence\<close>

lemma class_fits: "class_for_closure a bytes scanned = Inr cl \<Longrightarrow> bytes \<le> cl"
  by (auto simp: class_for_closure_def find_Some_iff split: if_splits option.splits)

text \<open>
  Evidence that passes the validation is consistent. Its size is the exact layout
  of its captures, it is scanned exactly when a capture holds pointers, and it fits its
  allocation class.
\<close>

theorem validated_evidence:
  assumes "validate_selected H ev = None"
    and "gh_pointer H (ev_goarch ev) = Some (2 ^ k)" and "int64 (2 ^ k)"
    and "list_all capture_int64 (ev_captures ev)"
  shows "list_all well_formed (ev_captures ev) \<and>
    ev_environment_bytes ev = ideal_layout (2 ^ k) (ev_captures ev) \<and>
    ev_scanned ev = list_ex ca_has_pointers (ev_captures ev) \<and>
    0 < ev_environment_bytes ev \<and> ev_environment_bytes ev \<le> ev_size_class_bytes ev"
proof -
  obtain a where l: "layout (Some (2 ^ k)) (ev_captures ev) = Inr (ev_environment_bytes ev)"
    and s: "ev_scanned ev = list_ex ca_has_pointers (ev_captures ev)"
    and c: "class_for_closure a (ev_environment_bytes ev) (list_ex ca_has_pointers (ev_captures ev)) =
      Inr (ev_size_class_bytes ev)"
    using assms(1,2) unfolding validate_selected_def
    by (auto simp: Let_def split: option.splits if_splits)
  have "0 < ev_environment_bytes ev"
    using c by (simp add: class_for_closure_def split: if_splits)
  then show ?thesis
    using l s class_fits [OF c] layout_ideal [OF refl assms(3,4)] by blast
qed

definition sample_host :: go_host where
  "sample_host =
     \<lparr>gh_read = \<lambda>_. Some (''SizeClassToSize = {8, 16, 32} MaxSmallSize = 32 TinySize = 16 '' @
        ''MinSizeForMallocHeader = goarch.PtrSize * goarch.PtrBits''),
      gh_go_env = \<lambda>vars. Some (if vars = [''GOAMD64''] then ''v1''
        else join_with [CHR 0x0A] [''/g'', ''go1'', [], [], ''linux'', ''amd64'', ''1'']),
      gh_pointer = \<lambda>_. Some 8\<rparr>"

lemma sample_allocator:
  "load_allocator sample_host goroot goarch =
     Some \<lparr>al_classes = [8, 16, 32], al_max_small = 32, al_min_size_for_header = 512, al_tiny_size = 16\<rparr>"
  by (simp add: load_allocator_def sample_host_def match_class_pattern_def match_number_def match_word_equals_def
      cut_prefix_def re_space_def parse_int64_def all_digits_def is_digit_def str_contains_def Let_def
      trim_space_def trim_left_def trim_right_def space_seqs_def strip_one_def int64_def wrap64_def)

lemma sample_host_simps:
  "gh_go_env sample_host [''GOAMD64''] = Some ''v1''"
  "gh_go_env sample_host validation_variables =
     Some (join_with [CHR 0x0A] [''/g'', ''go1'', [], [], ''linux'', ''amd64'', ''1''])"
  "gh_pointer sample_host goarch = Some 8"
  by (simp_all add: sample_host_def validation_variables_def)

lemma sample_validated: "validate_selected sample_host (sample_evidence [sample_capture ''x''] 16 16) = None"
proof -
  have l: "layout (Some 8) [sample_capture ''x''] = Inr 16"
    by (simp add: layout_def sample_capture_def align_def wrap64_def Let_def)
  have p: "ca_has_pointers (sample_capture ''x'')" by (simp add: sample_capture_def)
  have t: "target_architecture sample_host ''amd64'' = Some ''v1''"
    by (simp add: target_architecture_def target_architecture_variable_def sample_host_simps
        trim_space_def trim_left_def trim_right_def space_seqs_def strip_one_def)
  show ?thesis
    by (simp add: validate_selected_def sample_evidence_def sample_allocator class_for_closure_def Let_def
        sample_host_simps l p t trim_newline_def cut_suffix_def has_suffix_def)
qed

lemma validated_evidence_witness:
  "let ev = sample_evidence [sample_capture ''x''] 16 16 in
     ev_environment_bytes ev = ideal_layout 8 (ev_captures ev) \<and> ev_environment_bytes ev \<le> ev_size_class_bytes ev"
  using validated_evidence [OF sample_validated, of 3]
  by (simp add: sample_host_def sample_evidence_def sample_capture_def capture_int64_def int64_def)

end
