(* ===== verification/Coefficient.thy ===== *)
theory Coefficient
  imports Contract_Ids Go_Text "HOL-Library.Word"
begin

text \<open>
  Evidence about coefficient loads (\<open>internal/coefficientcodegen\<close>): the decoder of ARM64
  instructions (\<open>Decode\<close>), the selection of the code of one function in an executable
  (\<open>InspectBytes\<close>), and the checks of a recorded artifact (\<open>Read\<close>). Instructions are 32-bit
  words and addresses 64-bit words. The Mach-O parser and the JSON decoder are parameters.
\<close>

unbundle bit_operations_syntax

section \<open>Instructions\<close>

record load =
  ld_pc :: "64 word"
  ld_page :: "64 word"
  ld_address :: "64 word"
  ld_symbol :: string

datatype decode_error = Truncated | Contains_call | Accesses_stack

text \<open>\<open>binary.LittleEndian.Uint32\<close> on each group of four bytes.\<close>

definition le_uint32 :: "char \<Rightarrow> char \<Rightarrow> char \<Rightarrow> char \<Rightarrow> 32 word" where
  "le_uint32 a b c d = of_nat (byte_at a + 2 ^ 8 * byte_at b + 2 ^ 16 * byte_at c + 2 ^ 24 * byte_at d)"

fun words_of :: "string \<Rightarrow> 32 word list" where
  "words_of (a # b # c # d # rest) = le_uint32 a b c d # words_of rest"
| "words_of _ = []"

definition is_call :: "32 word \<Rightarrow> bool" where
  "is_call w = (w AND 0xfc000000 = 0x94000000 \<or> w AND 0xfffffc1f = 0xd63f0000)"

definition is_stack_access :: "32 word \<Rightarrow> bool" where
  "is_stack_access w = (w AND 0x0a000000 = 0x08000000 \<and> drop_bit 5 w AND 31 = 31)"

definition is_adrp :: "32 word \<Rightarrow> bool" where
  "is_adrp w = (w AND 0x9f000000 = 0x90000000)"

text \<open>The triple ADRP, ADD-immediate and LDR-Q on one X register.\<close>

definition is_triple :: "32 word \<Rightarrow> 32 word \<Rightarrow> 32 word \<Rightarrow> bool" where
  "is_triple w add ldr =
     (let reg = w AND 31 in
      \<not> (reg = 31 \<or> add AND 0xffc00000 \<noteq> 0x91000000 \<or> add AND 31 \<noteq> reg \<or> drop_bit 5 add AND 31 \<noteq> reg \<or>
         ldr AND 0xfffffc00 \<noteq> 0x3dc00000 \<or> drop_bit 5 ldr AND 31 \<noteq> reg))"

text \<open>The page offset of an ADRP as an \<open>int64\<close>: immhi and immlo with the sign bit 20.\<close>

definition adrp_imm :: "32 word \<Rightarrow> 64 word" where
  "adrp_imm w =
     (let imm = ucast (push_bit 2 (drop_bit 5 w AND 0x7ffff) OR (drop_bit 29 w AND 3)) in
      if imm AND push_bit 20 1 \<noteq> 0 then imm - push_bit 21 1 else imm)"

definition resolve_load :: "64 word \<Rightarrow> (64 word \<Rightarrow> string) \<Rightarrow> 32 word \<Rightarrow> 32 word \<Rightarrow> load list" where
  "resolve_load pc globals w add =
     (let page = (pc AND NOT 4095) + push_bit 12 (adrp_imm w);
          address = page + ucast (drop_bit 10 add AND 4095)
      in if globals address \<noteq> []
         then [\<lparr>ld_pc = pc, ld_page = page, ld_address = address, ld_symbol = globals address\<rparr>] else [])"

fun decode_loop :: "64 word \<Rightarrow> (64 word \<Rightarrow> string) \<Rightarrow> 32 word list \<Rightarrow> decode_error + load list" where
  "decode_loop pc globals [] = Inr []"
| "decode_loop pc globals (w # ws) =
     (if is_call w then Inl Contains_call
      else if is_stack_access w then Inl Accesses_stack
      else case decode_loop (pc + 4) globals ws of
        Inl err \<Rightarrow> Inl err
      | Inr loads \<Rightarrow>
          Inr ((case ws of
                  add # ldr # _ \<Rightarrow>
                    if is_adrp w \<and> is_triple w add ldr then resolve_load pc globals w add else []
                | _ \<Rightarrow> []) @ loads))"

definition load_cmp :: "load \<Rightarrow> load \<Rightarrow> int" where
  "load_cmp a b = (if ld_pc a < ld_pc b then -1 else if ld_pc b < ld_pc a then 1 else 0)"

text \<open>
  \<open>slices.SortFunc\<close> on loads of different program counters; two loads have the same one only
  when the function is longer than the address space.
\<close>

definition decode :: "string \<Rightarrow> 64 word \<Rightarrow> (64 word \<Rightarrow> string) \<Rightarrow> decode_error + load list" where
  "decode code pc globals =
     (if length code mod 4 \<noteq> 0 then Inl Truncated
      else case decode_loop pc globals (words_of code) of
        Inl err \<Rightarrow> Inl err
      | Inr loads \<Rightarrow> Inr (stable_sort load_cmp loads))"

section \<open>The code of one function\<close>

record macho_symbol =
  sy_name :: string
  sy_value :: "64 word"

record macho_section =
  se_addr :: "64 word"
  se_size :: "64 word"
  se_data :: "string option"

record macho_file =
  mo_arm64_exec :: bool
  mo_symtab :: "macho_symbol list option"
  mo_text :: "macho_section option"

datatype inspect_error =
    Not_macho
  | Wrong_kind
  | Missing_text
  | Ambiguous_function string
  | Unreadable_text
  | Invalid_range
  | Decode_failed decode_error

text \<open>The loop over the symbols: the start and number of the matches, and the globals.\<close>

fun scan_symbols ::
    "string \<Rightarrow> 64 word \<Rightarrow> 64 word \<Rightarrow> macho_symbol list \<Rightarrow> 64 word \<times> nat \<times> (64 word \<rightharpoonup> string) \<Rightarrow>
      64 word \<times> nat \<times> (64 word \<rightharpoonup> string)" where
  "scan_symbols function lo hi [] st = st"
| "scan_symbols function lo hi (s # ss) (start, matches, globals) =
     (let (start, matches) = (if sy_name s = function then (sy_value s, Suc matches) else (start, matches)) in
      if lo \<le> sy_value s \<and> sy_value s < hi then scan_symbols function lo hi ss (start, matches, globals)
      else if sy_value s \<noteq> 0 then
        scan_symbols function lo hi ss (start, matches,
          globals(sy_value s \<mapsto> (if globals (sy_value s) \<noteq> None then [] else sy_name s)))
      else scan_symbols function lo hi ss (start, matches, globals))"

definition next_symbol :: "64 word \<Rightarrow> 64 word \<Rightarrow> macho_symbol list \<Rightarrow> 64 word" where
  "next_symbol start hi ss =
     foldl (\<lambda>hi s. if sy_value s > start \<and> sy_value s < hi then sy_value s else hi) hi ss"

definition go_slice :: "string \<Rightarrow> 64 word \<Rightarrow> 64 word \<Rightarrow> string option" where
  "go_slice data lo hi =
     (if lo \<le> hi \<and> unat hi \<le> length data then Some (take (unat hi - unat lo) (drop (unat lo) data)) else None)"

text \<open>\<open>None\<close> is the panic of a slice out of range.\<close>

definition inspect_bytes ::
    "(string \<Rightarrow> macho_file option) \<Rightarrow> string \<Rightarrow> string \<Rightarrow> (inspect_error + load list) option" where
  "inspect_bytes parse bytes function =
     (case parse bytes of
        None \<Rightarrow> Some (Inl Not_macho)
      | Some f \<Rightarrow>
     (if \<not> mo_arm64_exec f then Some (Inl Wrong_kind)
      else case mo_symtab f of
        None \<Rightarrow> Some (Inl Wrong_kind)
      | Some syms \<Rightarrow>
     (case mo_text f of
        None \<Rightarrow> Some (Inl Missing_text)
      | Some text \<Rightarrow>
          let hi = se_addr text + se_size text;
              (start, matches, globals) = scan_symbols function (se_addr text) hi syms (0, 0, Map.empty) in
          if matches \<noteq> 1 \<or> start < se_addr text \<or> start \<ge> hi then Some (Inl (Ambiguous_function function))
          else
            let hi = next_symbol start hi syms in
            case se_data text of
              None \<Rightarrow> Some (Inl Unreadable_text)
            | Some data \<Rightarrow>
                if hi - se_addr text > of_nat (length data) \<or> start mod 4 \<noteq> 0 \<or> (hi - start) mod 4 \<noteq> 0
                then Some (Inl Invalid_range)
                else case go_slice data (start - se_addr text) (hi - se_addr text) of
                  None \<Rightarrow> None
                | Some code \<Rightarrow>
                    Some (case decode code start (\<lambda>a. case globals a of None \<Rightarrow> [] | Some s \<Rightarrow> s) of
                      Inl err \<Rightarrow> Inl (Decode_failed err)
                    | Inr loads \<Rightarrow> Inr loads))))"

section \<open>Recorded artifacts\<close>

record binary_build =
  bb_package :: string
  bb_go_version :: string
  bb_goos :: string
  bb_goarch :: string
  bb_goflags :: string
  bb_goexperiment :: string
  bb_architecture_level :: string
  bb_cgo_enabled :: string
  bb_material_sha256 :: string
  bb_toolchain_sha256 :: string
  bb_binary_sha256 :: string
  bb_source_sha256 :: "(string \<times> string) list"

record artifact =
  at_build :: binary_build
  at_function :: string
  at_loads :: "load list"

datatype read_error =
    Not_json
  | Trailing_evidence
  | Incomplete_evidence
  | Invalid_inventory
  | Invalid_load

record artifact_codec =
  ac_decode :: "string \<Rightarrow> (artifact \<times> string) option"
  ac_at_end :: "string \<Rightarrow> bool"

definition valid_hash :: "string \<Rightarrow> bool" where
  "valid_hash s = (hex_ok s \<and> length s div 2 = 32 \<and> ascii_lower s = s)"

definition contains_any :: "string \<Rightarrow> char list \<Rightarrow> bool" where
  "contains_any s cs = list_ex (\<lambda>c. c \<in> set cs) s"

definition build_complete :: "artifact \<Rightarrow> bool" where
  "build_complete a =
     (let b = at_build a in
      \<not> (bb_package b = [] \<or> at_function a = [] \<or>
         contains_any (at_function a) [CHR ''.'', CHR ''/'', CHR 0x5C, CHR '' '', CHR 0x09, CHR 0x0A] \<or>
         bb_goos b \<noteq> ''darwin'' \<or> bb_goarch b \<noteq> ''arm64'' \<or> bb_cgo_enabled b \<noteq> ''0'' \<or>
         bb_go_version b = [] \<or> bb_architecture_level b = [] \<or>
         \<not> valid_hash (bb_binary_sha256 b) \<or> \<not> valid_hash (bb_material_sha256 b) \<or>
         \<not> valid_hash (bb_toolchain_sha256 b) \<or> bb_source_sha256 b = []))"

definition valid_source :: "string \<times> string \<Rightarrow> bool" where
  "valid_source = (\<lambda>(file, digest).
     \<not> (file = [] \<or> contains_any file [CHR ''/'', CHR 0x5C] \<or> \<not> valid_hash digest))"

definition valid_load :: "load \<Rightarrow> bool" where
  "valid_load l =
     (\<not> (ld_symbol l = [] \<or> ld_pc l mod 4 \<noteq> 0 \<or> ld_page l mod 4096 \<noteq> 0 \<or> ld_address l < ld_page l \<or>
         ld_address l - ld_page l \<ge> 4096))"

text \<open>The reader is limited to 4 MiB.\<close>

definition read_evidence :: "artifact_codec \<Rightarrow> string \<Rightarrow> read_error + artifact" where
  "read_evidence C input =
     (case ac_decode C (take (4 * 2 ^ 20) input) of
        None \<Rightarrow> Inl Not_json
      | Some (a, rest) \<Rightarrow>
          if \<not> ac_at_end C rest then Inl Trailing_evidence
          else if \<not> build_complete a then Inl Incomplete_evidence
          else if \<not> list_all valid_source (bb_source_sha256 (at_build a)) then Inl Invalid_inventory
          else if \<not> list_all valid_load (at_loads a) then Inl Invalid_load
          else Inr a)"

end
