(* ===== verification/Coefficient_Props.thy ===== *)
theory Coefficient_Props
  imports Coefficient
begin

text \<open>
  Properties of the load decoder: it computes the addresses of the architecture, it never
  reads outside the code of the function, and what it finds passes the checks of \<open>Read\<close>.
\<close>

section \<open>Addresses\<close>

text \<open>
  The reference: ADRP adds the 21-bit two's complement offset immhi:immlo, in pages, to the
  page of the program counter; ADD adds its 12-bit immediate.
\<close>

definition adrp_offset :: "32 word \<Rightarrow> int" where
  "adrp_offset w = signed_take_bit 20 (4 * uint (take_bit 19 (drop_bit 5 w)) + uint (take_bit 2 (drop_bit 29 w)))"

definition arm_page :: "64 word \<Rightarrow> 32 word \<Rightarrow> 64 word" where
  "arm_page pc w = of_int (4096 * (uint pc div 4096 + adrp_offset w))"

definition arm_address :: "64 word \<Rightarrow> 32 word \<Rightarrow> 32 word \<Rightarrow> 64 word" where
  "arm_address pc w add = of_int (4096 * (uint pc div 4096 + adrp_offset w) + uint (take_bit 12 (drop_bit 10 add)))"

lemma and_masks:
  "x AND 31 = take_bit 5 x" "x AND 3 = take_bit 2 x" "x AND 0x7ffff = take_bit 19 x" "x AND 4095 = take_bit 12 x"
  for x :: "'a::len word"
  by (simp_all add: take_bit_eq_mask mask_eq_exp_minus_1)

lemma imm_uint:
  "uint (ucast (push_bit 2 (take_bit 19 (drop_bit 5 w)) OR take_bit 2 (drop_bit 29 w)) :: 64 word) =
     4 * uint (take_bit 19 (drop_bit 5 w)) + uint (take_bit 2 (drop_bit 29 w))" for w :: "32 word"
proof -
  let ?hi = "uint (take_bit 19 (drop_bit 5 w))" and ?lo = "uint (take_bit 2 (drop_bit 29 w))"
  have "4 * ?hi + ?lo = push_bit 2 ?hi + ?lo" by (simp add: push_bit_eq_mult)
  also have "\<dots> = push_bit 2 ?hi OR ?lo"
    by (rule disjunctive_add_eq_or) (auto simp: bit_eq_iff bit_simps)
  also have "\<dots> = uint (ucast (push_bit 2 (take_bit 19 (drop_bit 5 w)) OR take_bit 2 (drop_bit 29 w)) :: 64 word)"
    by (rule bit_eqI) (auto simp: bit_simps)
  finally show ?thesis by simp
qed

lemma imm_range:
  "0 \<le> 4 * uint (take_bit 19 (drop_bit 5 w)) + uint (take_bit 2 (drop_bit 29 w))" (is "0 \<le> ?n")
  "4 * uint (take_bit 19 (drop_bit 5 w)) + uint (take_bit 2 (drop_bit 29 w)) < 2 ^ 21" for w :: "32 word"
proof -
  have "uint (take_bit 19 (drop_bit 5 w)) = take_bit 19 (uint (drop_bit 5 w))"
    and "uint (take_bit 2 (drop_bit 29 w)) = take_bit 2 (uint (drop_bit 29 w))"
    by (simp_all add: unsigned_take_bit_eq)
  then show "0 \<le> ?n" "?n < 2 ^ 21"
    using take_bit_int_less_exp [of 19 "uint (drop_bit 5 w)"] take_bit_int_less_exp [of 2 "uint (drop_bit 29 w)"]
    by simp_all
qed

lemma adrp_imm_offset: "adrp_imm w = of_int (adrp_offset w)"
proof -
  define n where "n = 4 * uint (take_bit 19 (drop_bit 5 w)) + uint (take_bit 2 (drop_bit 29 w))"
  define x :: "64 word" where "x = ucast (push_bit 2 (take_bit 19 (drop_bit 5 w)) OR take_bit 2 (drop_bit 29 w))"
  have x: "uint x = n" unfolding x_def n_def by (rule imm_uint)
  have xn: "x = of_int n" by (simp add: x [symmetric])
  have r: "0 \<le> n" "n < 2 ^ 21" unfolding n_def using imm_range by auto
  have b: "x AND push_bit 20 1 \<noteq> 0 \<longleftrightarrow> bit n 20"
    unfolding bit_iff_and_push_bit_not_eq_0 [symmetric] x [symmetric] by (simp add: bit_unsigned_iff)
  have "signed_take_bit 20 n = n - 2 ^ 21 * of_bool (bit n 20)"
    using r by (simp add: signed_take_bit_eq_take_bit_minus take_bit_int_eq_self)
  then have "of_int (adrp_offset w) = x - push_bit 21 1 * of_bool (bit n 20)"
    by (simp add: adrp_offset_def n_def [symmetric] xn push_bit_eq_mult)
  then show ?thesis
    using b by (simp add: adrp_imm_def and_masks x_def [symmetric] Let_def)
qed

lemma page_bits: "pc AND NOT 4095 = of_int (4096 * (uint pc div 4096))" for pc :: "64 word"
proof -
  have m: "(4095 :: 64 word) = mask 12" by (simp add: mask_eq_exp_minus_1)
  have "pc AND NOT 4095 = push_bit 12 (drop_bit 12 pc)"
    unfolding m by (rule bit_word_eqI) (auto simp: bit_simps)
  also have "\<dots> = word_of_int (push_bit 12 (drop_bit 12 (uint pc)))"
    by (rule bit_word_eqI) (auto simp: bit_simps)
  also have "push_bit 12 (drop_bit 12 (uint pc)) = 4096 * (uint pc div 4096)"
    by (simp add: push_bit_eq_mult drop_bit_eq_div)
  finally show ?thesis by simp
qed

lemma resolve_page: "(pc AND NOT 4095) + push_bit 12 (adrp_imm w) = arm_page pc w"
  unfolding page_bits adrp_imm_offset arm_page_def
  by (simp add: push_bit_eq_mult distrib_left)

lemma resolve_address: "arm_page pc w + ucast (drop_bit 10 add AND 4095) = arm_address pc w add"
proof -
  have "(ucast (take_bit 12 (drop_bit 10 add)) :: 64 word) = of_int (uint (take_bit 12 (drop_bit 10 add)))"
    by simp
  then show ?thesis unfolding and_masks arm_page_def arm_address_def by (simp only: of_int_add)
qed

section \<open>What the decoder finds\<close>

text \<open>The load at instruction \<open>i\<close> of the code, with the addresses of the architecture.\<close>

definition load_at :: "64 word \<Rightarrow> (64 word \<Rightarrow> string) \<Rightarrow> 32 word list \<Rightarrow> nat \<Rightarrow> load" where
  "load_at pc globals ws i =
     (let here = pc + of_nat (4 * i); address = arm_address here (ws ! i) (ws ! (i + 1)) in
      \<lparr>ld_pc = here, ld_page = arm_page here (ws ! i), ld_address = address, ld_symbol = globals address\<rparr>)"

definition fresh_load :: "64 word \<Rightarrow> (64 word \<Rightarrow> string) \<Rightarrow> 32 word list \<Rightarrow> nat \<Rightarrow> bool" where
  "fresh_load pc globals ws i =
     (i + 2 < length ws \<and> is_adrp (ws ! i) \<and> is_triple (ws ! i) (ws ! (i + 1)) (ws ! (i + 2)) \<and>
      ld_symbol (load_at pc globals ws i) \<noteq> [])"

definition leaf :: "32 word list \<Rightarrow> bool" where
  "leaf ws = list_all (\<lambda>w. \<not> is_call w \<and> \<not> is_stack_access w) ws"

lemma load_at_Suc: "load_at pc globals (w # ws) (Suc i) = load_at (pc + 4) globals ws i"
  by (simp add: load_at_def add.assoc)

lemma fresh_load_Suc: "fresh_load pc globals (w # ws) (Suc i) = fresh_load (pc + 4) globals ws i"
  by (simp add: fresh_load_def load_at_Suc)

lemma resolve_load_at:
  "resolve_load pc globals (ws ! 0) (ws ! 1) =
     (if ld_symbol (load_at pc globals ws 0) \<noteq> [] then [load_at pc globals ws 0] else [])"
  unfolding resolve_load_def Let_def resolve_page resolve_address by (simp add: load_at_def Let_def)

lemma decode_loop_exact:
  "decode_loop pc globals ws = Inr loads \<longleftrightarrow>
     leaf ws \<and> loads = map (load_at pc globals ws) (filter (fresh_load pc globals ws) [0..<length ws])"
proof (induction ws arbitrary: pc loads)
  case Nil
  show ?case by (auto simp: leaf_def)
next
  case (Cons w ws)
  let ?here = "case ws of add # ldr # _ \<Rightarrow>
      if is_adrp w \<and> is_triple w add ldr then resolve_load pc globals w add else [] | _ \<Rightarrow> []"
  have here: "?here = (if fresh_load pc globals (w # ws) 0 then [load_at pc globals (w # ws) 0] else [])"
    using resolve_load_at [of pc globals "w # ws"]
    by (auto simp: fresh_load_def split: list.splits)
  have up: "[0..<length (w # ws)] = 0 # map Suc [0..<length ws]"
    by (simp add: upt_conv_Cons map_Suc_upt del: upt_Suc)
  have rest: "map (load_at pc globals (w # ws)) (filter (fresh_load pc globals (w # ws)) (map Suc [0..<length ws])) =
      map (load_at (pc + 4) globals ws) (filter (fresh_load (pc + 4) globals ws) [0..<length ws])"
    by (simp add: filter_map comp_def load_at_Suc fresh_load_Suc)
  have "decode_loop pc globals (w # ws) = Inr loads \<longleftrightarrow> \<not> is_call w \<and> \<not> is_stack_access w \<and>
      (\<exists>ls. decode_loop (pc + 4) globals ws = Inr ls \<and> loads = ?here @ ls)"
    by (auto split: sum.splits)
  also have "\<dots> \<longleftrightarrow> leaf (w # ws) \<and>
      loads = map (load_at pc globals (w # ws)) (filter (fresh_load pc globals (w # ws)) [0..<length (w # ws)])"
    unfolding Cons.IH here up using rest by (auto simp: leaf_def)
  finally show ?case .
qed

text \<open>
  C25: the decoder reports exactly the fresh loads of a leaf function. It succeeds when
  the code is a sequence of instructions without a call and without an access through the
  stack pointer, and the loads are then those of the ADRP/ADD/LDR triples whose address,
  computed as the architecture does, is that of a symbol, in the order of the code.
\<close>

theorem decode_exact:
  "decode code pc globals = Inr loads \<longleftrightarrow>
     length code mod 4 = 0 \<and> leaf (words_of code) \<and>
     loads = stable_sort load_cmp (map (load_at pc globals (words_of code))
       (filter (fresh_load pc globals (words_of code)) [0..<length (words_of code)]))"
proof -
  have "decode code pc globals = Inr loads \<longleftrightarrow> length code mod 4 = 0 \<and>
      (\<exists>ls. decode_loop pc globals (words_of code) = Inr ls \<and> loads = stable_sort load_cmp ls)"
    by (auto simp: decode_def split: sum.splits)
  then show ?thesis unfolding decode_loop_exact by auto
qed

section \<open>What the reader accepts\<close>

lemma arm_page_mod: "arm_page pc w mod 4096 = 0"
proof -
  have "arm_page pc w = push_bit 12 (of_int (uint pc div 4096 + adrp_offset w))"
    by (simp add: arm_page_def push_bit_eq_mult)
  then have "take_bit 12 (arm_page pc w) = 0"
    by (simp add: take_bit_push_bit)
  then show ?thesis by (simp add: take_bit_eq_mod)
qed

lemma arm_address_page:
  "arm_page pc w \<le> arm_address pc w add \<and> arm_address pc w add - arm_page pc w < 4096"
proof -
  let ?p = "arm_page pc w" and ?k = "ucast (take_bit 12 (drop_bit 10 add)) :: 64 word"
  have a: "arm_address pc w add = ?p + ?k"
    unfolding resolve_address [symmetric] and_masks ..
  have "uint ?k = take_bit 12 (uint (drop_bit 10 add))"
    by (simp add: unsigned_ucast_eq unsigned_take_bit_eq)
  then have k: "0 \<le> uint ?k" "uint ?k < 4096"
    using take_bit_int_less_exp [of 12 "uint (drop_bit 10 add)"] by simp_all
  have "uint ?p mod 4096 = 0"
    using arm_page_mod [of pc w] by (simp add: word_uint_eq_iff uint_mod)
  then obtain m where m: "uint ?p = 4096 * m" by (metis mod_0_imp_dvd dvdE)
  have "uint ?p < 2 ^ 64" using uint_lt2p [of ?p] by simp
  then have "4096 * m < 4096 * 2 ^ 52" using m by simp
  then have "uint ?p + uint ?k < 2 ^ 64" using k m by simp
  then have "uint (?p + ?k) = uint ?p + uint ?k"
    using k by (simp add: uint_word_ariths)
  with k show ?thesis by (simp add: a word_le_def word_less_def)
qed

lemma load_at_valid:
  assumes "pc mod 4 = 0" and "fresh_load pc globals ws i"
  shows "valid_load (load_at pc globals ws i)"
proof -
  have "take_bit 2 pc = 0" using assms(1) by (simp add: take_bit_eq_mod)
  then have "pc = push_bit 2 (drop_bit 2 pc)" using bits_ident [of 2 pc] by simp
  moreover have "(of_nat (4 * i) :: 64 word) = push_bit 2 (of_nat i)" by (simp add: push_bit_eq_mult)
  ultimately have "pc + of_nat (4 * i) = push_bit 2 (drop_bit 2 pc + of_nat i)"
    by (metis push_bit_add)
  then have "take_bit 2 (pc + of_nat (4 * i)) = 0" by (simp only: take_bit_push_bit) simp
  then have "(pc + of_nat (4 * i)) mod 4 = 0" by (simp add: take_bit_eq_mod)
  with assms(2) arm_page_mod arm_address_page show ?thesis
    by (simp add: valid_load_def load_at_def fresh_load_def Let_def not_less not_le)
qed

lemma decode_valid:
  assumes "decode code pc globals = Inr loads" and "pc mod 4 = 0"
  shows "list_all valid_load loads"
proof -
  obtain ls where "decode_loop pc globals (words_of code) = Inr ls" "loads = stable_sort load_cmp ls"
    using assms(1) by (auto simp: decode_def split: sum.splits if_splits)
  then show ?thesis
    using load_at_valid [OF assms(2)] unfolding decode_loop_exact by (auto simp: list_all_iff)
qed

lemma next_symbol_bounds: "start < hi \<Longrightarrow> start < next_symbol start hi ss \<and> next_symbol start hi ss \<le> hi"
proof (induction ss arbitrary: hi)
  case Nil
  then show ?case by (simp add: next_symbol_def)
next
  case (Cons s ss)
  let ?hi = "if sy_value s > start \<and> sy_value s < hi then sy_value s else hi"
  have "start < ?hi" using Cons.prems by simp
  from Cons.IH [OF this] have "start < next_symbol start ?hi ss \<and> next_symbol start ?hi ss \<le> ?hi" .
  moreover have "?hi \<le> hi" by auto
  moreover have "next_symbol start hi (s # ss) = next_symbol start ?hi ss" by (simp add: next_symbol_def)
  ultimately show ?case by (metis order_trans)
qed

lemma go_slice_some:
  assumes "lo \<le> a" and "a \<le> b" and "b - lo \<le> of_nat (length data)"
  shows "\<exists>code. go_slice data (a - lo) (b - lo) = Some code"
proof -
  have s: "uint (a - lo) = uint a - uint lo" "uint (b - lo) = uint b - uint lo"
    using assms(1,2) order_trans [OF assms(1,2)] by (simp_all add: uint_minus_simple_alt [symmetric])
  then have "a - lo \<le> b - lo" using assms(2) by (simp add: word_le_def)
  moreover have "unat (b - lo) \<le> unat (of_nat (length data) :: 64 word)"
    using assms(3) by (simp add: word_le_nat_alt)
  moreover have "unat (of_nat (length data) :: 64 word) \<le> length data"
    by (simp add: unat_of_nat)
  ultimately show ?thesis by (simp add: go_slice_def)
qed

text \<open>
  The inspection of an executable never panics, whatever its symbol table and
  section sizes are, and every load it reports passes the check that \<open>Read\<close> makes when
  the recorded evidence is read back.
\<close>

theorem inspect_sound:
  "\<exists>r. inspect_bytes parse bytes function = Some r \<and>
     (case r of Inl _ \<Rightarrow> True | Inr loads \<Rightarrow> list_all valid_load loads)"
proof (cases "parse bytes")
  case None
  then show ?thesis by (simp add: inspect_bytes_def)
next
  case (Some f)
  show ?thesis
  proof (cases "mo_arm64_exec f \<and> mo_symtab f \<noteq> None \<and> mo_text f \<noteq> None")
    case False
    with Some show ?thesis by (auto simp: inspect_bytes_def split: option.splits)
  next
    case True
    then obtain syms sec where f: "mo_arm64_exec f" "mo_symtab f = Some syms" "mo_text f = Some sec" by blast
    let ?lo = "se_addr sec" and ?hi = "se_addr sec + se_size sec"
    obtain start matches globals where
      s: "scan_symbols function ?lo ?hi syms (0, 0, Map.empty) = (start, matches, globals)"
      by (cases "scan_symbols function ?lo ?hi syms (0, 0, Map.empty)") auto
    let ?stop = "next_symbol start ?hi syms" and ?g = "\<lambda>a. case globals a of None \<Rightarrow> [] | Some s \<Rightarrow> s"
    show ?thesis
    proof (cases "matches \<noteq> 1 \<or> start < ?lo \<or> start \<ge> ?hi \<or> se_data sec = None")
      case True
      with Some f s show ?thesis by (auto simp: inspect_bytes_def Let_def)
    next
      case False
      then obtain data where d: "\<not> (matches \<noteq> 1 \<or> start < ?lo \<or> start \<ge> ?hi)" "se_data sec = Some data" by blast
      have b: "start < ?stop" using next_symbol_bounds [of start ?hi syms] d(1) by (simp only: not_le de_Morgan_disj)
      show ?thesis
      proof (cases "?stop - ?lo > of_nat (length data) \<or> start mod 4 \<noteq> 0 \<or> (?stop - start) mod 4 \<noteq> 0")
        case True
        with Some f s d show ?thesis by (simp add: inspect_bytes_def Let_def)
      next
        case False
        then obtain code where c: "go_slice data (start - ?lo) (?stop - ?lo) = Some code"
          using go_slice_some [of ?lo start ?stop data] d(1) less_imp_le [OF b] by (auto simp: not_less)
        have "inspect_bytes parse bytes function =
            Some (case decode code start ?g of Inl err \<Rightarrow> Inl (Decode_failed err) | Inr loads \<Rightarrow> Inr loads)"
          using Some f s d False c by (simp add: inspect_bytes_def Let_def)
        with False decode_valid [of code start ?g] show ?thesis by (auto split: sum.splits)
      qed
    qed
  qed
qed

end
