(* ===== verification/Config.thy ===== *)
theory Config
  imports Contract_Policy Evidence
begin

text \<open>
  The configuration of package \<open>config\<close>: the struct \<open>Config\<close> with the keys of its YAML form,
  the compiled view \<open>Sets\<close>, loading, the unknown top-level keys of a file, and the search
  for a configuration file from a directory upwards. The YAML decoder and the file system
  are parameters. The \<open>clone*\<close> functions copy slices, which in a model of values is the
  identity.
\<close>

section \<open>The configuration\<close>

record config =
  cfg_comment :: string
  cfg_dense_row_gemm_funcs :: "string list"
  cfg_causal_zero_gemm_contracts :: "causal_zero_gemm_contract list"
  cfg_native_generation_dispatch_contracts :: "native_generation_dispatch_contract list"
  cfg_cache_line_bytes :: int
  cfg_element_accessors :: "string list"
  cfg_fast_path_helpers :: "string list"
  cfg_selector_promotion_symbols :: "string list"
  cfg_element_count_methods :: "string list"
  cfg_shape_methods :: "string list"
  cfg_index_decompose_funcs :: "string list"
  cfg_allocator_funcs :: "string list"
  cfg_per_element_visitors :: "string list"
  cfg_bulk_copy_helpers :: "string list"
  cfg_vectorized_sibling_funcs :: "string list"
  cfg_fan_out_helpers :: "string list"
  cfg_dtype_methods :: "string list"
  cfg_output_buffer_elem_types :: "string list"
  cfg_compiled_resource_funcs :: "string list"
  cfg_gpu_reduction_kernels :: "string list"
  cfg_pure_compute_funcs :: "string list"
  cfg_layout_op_constants :: "string list"
  cfg_pointer_type_names :: "string list"
  cfg_variadic_dispatch_wrappers :: "string list"
  cfg_top_k_selector_funcs :: "string list"
  cfg_top_k_one_contracts :: "top_k_one_contract list"
  cfg_native_snapshot_string_copy_contracts :: "native_snapshot_string_copy_contract list"
  cfg_scheduler_tile_grain_contracts :: "scheduler_tile_grain_contract list"
  cfg_scoped_backend_routing_contracts :: "scoped_backend_routing_contract list"
  cfg_closure_environment_growth_artifacts :: "string list"
  cfg_coefficient_address_artifacts :: "string list"
  cfg_dispatch_crossover_contracts :: "dispatch_crossover_contract list"
  cfg_recursive_metadata_ignore_contracts :: "recursive_metadata_ignore_contract list"
  cfg_input_view_funcs :: "string list"
  cfg_output_view_funcs :: "string list"
  cfg_reference_backend_pkg :: string
  cfg_optimized_backend_pkgs :: "string list"
  cfg_kernel_register_funcs :: "string list"
  cfg_in_place_fusion_contracts :: "in_place_fusion_contract list"
  cfg_bounded_scratch_flow_contracts :: "bounded_scratch_flow_contract list"
  cfg_active_bound_fallback_contracts :: "active_bound_fallback_contract list"
  cfg_output_workspace_contracts :: "output_workspace_contract list"
  cfg_unused_projection_scratch_contracts :: "unused_projection_scratch_contract list"
  cfg_native_snapshot_reuse_contracts :: "native_snapshot_reuse_contract list"
  cfg_row_local_strided_guard_contracts :: "row_local_strided_guard_contract list"
  cfg_receiver_staging_contracts :: "receiver_staging_contract list"
  cfg_context_transient_workspace_contracts :: "context_transient_workspace_contract list"
  cfg_reusable_one_shot_wrapper_contracts :: "reusable_one_shot_wrapper_contract list"
  cfg_reusable_result_loop_contracts :: "reusable_result_loop_contract list"
  cfg_recorder_residual_add_contracts :: "recorder_residual_add_contract list"
  cfg_row_local_sparse_gather_contracts :: "row_local_sparse_gather_contract list"
  cfg_tiny_synchronous_accelerator_screen_contracts :: "tiny_synchronous_accelerator_screen_contract list"
  cfg_resident_weight_benchmark_contracts :: "resident_weight_benchmark_contract list"
  cfg_forward_loss_backward_graph_contracts :: "forward_loss_backward_graph_contract list"
  cfg_fragmented_accelerator_objective_contracts :: "fragmented_accelerator_objective_contract list"
  cfg_cross_step_accelerator_residency_contracts :: "cross_step_accelerator_residency_contract list"
  cfg_resident_codebook_contracts :: "resident_codebook_contract list"
  cfg_single_use_quantization_contracts :: "single_use_quantization_contract list"
  cfg_state_expanded_lookup_contracts :: "state_expanded_lookup_contract list"
  cfg_shared_fan_out_contracts :: "shared_fan_out_contract list"

record sets =
  set_row_local_strided_guard_contracts :: "row_local_strided_guard_contract list"
  set_dense_row_gemm_funcs :: "string set"
  set_causal_zero_gemm_contracts :: "causal_zero_gemm_contract list"
  set_context_transient_workspace_contracts :: "context_transient_workspace_contract list"
  set_cache_line_bytes :: int
  set_native_generation_dispatch_contracts :: "native_generation_dispatch_contract list"
  set_element_accessors :: "string set"
  set_fast_path_helpers :: "string set"
  set_selector_promotion_symbols :: "string set"
  set_element_count_methods :: "string set"
  set_shape_methods :: "string set"
  set_index_decompose_funcs :: "string set"
  set_allocator_funcs :: "string set"
  set_per_element_visitors :: "string set"
  set_bulk_copy_helpers :: "string set"
  set_vectorized_sibling_funcs :: "string set"
  set_fan_out_helpers :: "string set"
  set_dtype_methods :: "string set"
  set_output_buffer_elem_types :: "string set"
  set_compiled_resource_funcs :: "string set"
  set_gpu_reduction_kernels :: "string set"
  set_pure_compute_funcs :: "string set"
  set_layout_op_constants :: "string set"
  set_pointer_type_names :: "string set"
  set_variadic_dispatch_wrappers :: "string set"
  set_top_k_selector_funcs :: "string set"
  set_top_k_one_contracts :: "top_k_one_contract list"
  set_native_snapshot_string_copy_contracts :: "native_snapshot_string_copy_contract list"
  set_scheduler_tile_grain_contracts :: "scheduler_tile_grain_contract list"
  set_scoped_backend_routing_contracts :: "scoped_backend_routing_contract list"
  set_closure_environment_growth_artifacts :: "string list"
  set_coefficient_address_artifacts :: "string list"
  set_dispatch_crossover_contracts :: "dispatch_crossover_contract list"
  set_recursive_metadata_ignore_contracts :: "recursive_metadata_ignore_contract list"
  set_input_view_funcs :: "string set"
  set_output_view_funcs :: "string set"
  set_reference_backend_pkg :: string
  set_optimized_backend_pkgs :: "string set"
  set_kernel_register_funcs :: "string set"
  set_in_place_fusion_contracts :: "in_place_fusion_contract list"
  set_bounded_scratch_flow_contracts :: "bounded_scratch_flow_contract list"
  set_active_bound_fallback_contracts :: "active_bound_fallback_contract list"
  set_output_workspace_contracts :: "output_workspace_contract list"
  set_unused_projection_scratch_contracts :: "unused_projection_scratch_contract list"
  set_native_snapshot_reuse_contracts :: "native_snapshot_reuse_contract list"
  set_receiver_staging_contracts :: "receiver_staging_contract list"
  set_reusable_one_shot_wrapper_contracts :: "reusable_one_shot_wrapper_contract list"
  set_reusable_result_loop_contracts :: "reusable_result_loop_contract list"
  set_recorder_residual_add_contracts :: "recorder_residual_add_contract list"
  set_row_local_sparse_gather_contracts :: "row_local_sparse_gather_contract list"
  set_tiny_synchronous_accelerator_screen_contracts :: "tiny_synchronous_accelerator_screen_contract list"
  set_resident_weight_benchmark_contracts :: "resident_weight_benchmark_contract list"
  set_forward_loss_backward_graph_contracts :: "forward_loss_backward_graph_contract list"
  set_fragmented_accelerator_objective_contracts :: "fragmented_accelerator_objective_contract list"
  set_cross_step_accelerator_residency_contracts :: "cross_step_accelerator_residency_contract list"
  set_resident_codebook_contracts :: "resident_codebook_contract list"
  set_single_use_quantization_contracts :: "single_use_quantization_contract list"
  set_state_expanded_lookup_contracts :: "state_expanded_lookup_contract list"
  set_shared_fan_out_contracts :: "shared_fan_out_contract list"

text \<open>\<open>toSet\<close>: a map whose keys are the listed names; a nil map has no keys.\<close>

definition to_set :: "string list \<Rightarrow> string set" where
  "to_set xs = (if xs = [] then {} else foldl (\<lambda>m x. insert x m) {} xs)"

definition compile :: "config \<Rightarrow> sets" where
  "compile c =
     \<lparr>set_row_local_strided_guard_contracts = cfg_row_local_strided_guard_contracts c,
         set_dense_row_gemm_funcs = to_set (cfg_dense_row_gemm_funcs c),
         set_causal_zero_gemm_contracts = cfg_causal_zero_gemm_contracts c,
         set_context_transient_workspace_contracts =
         cfg_context_transient_workspace_contracts c, set_cache_line_bytes =
         cfg_cache_line_bytes c, set_native_generation_dispatch_contracts =
         cfg_native_generation_dispatch_contracts c, set_element_accessors =
         to_set (cfg_element_accessors c), set_fast_path_helpers =
         to_set (cfg_fast_path_helpers c), set_selector_promotion_symbols =
         to_set (cfg_selector_promotion_symbols c), set_element_count_methods =
         to_set (cfg_element_count_methods c), set_shape_methods =
         to_set (cfg_shape_methods c), set_index_decompose_funcs =
         to_set (cfg_index_decompose_funcs c), set_allocator_funcs =
         to_set (cfg_allocator_funcs c), set_per_element_visitors =
         to_set (cfg_per_element_visitors c), set_bulk_copy_helpers =
         to_set (cfg_bulk_copy_helpers c), set_vectorized_sibling_funcs =
         to_set (cfg_vectorized_sibling_funcs c), set_fan_out_helpers =
         to_set (cfg_fan_out_helpers c), set_dtype_methods = to_set (cfg_dtype_methods c),
         set_output_buffer_elem_types = to_set (cfg_output_buffer_elem_types c),
         set_compiled_resource_funcs = to_set (cfg_compiled_resource_funcs c),
         set_gpu_reduction_kernels = to_set (cfg_gpu_reduction_kernels c),
         set_pure_compute_funcs = to_set (cfg_pure_compute_funcs c), set_layout_op_constants =
         to_set (cfg_layout_op_constants c), set_pointer_type_names =
         to_set (cfg_pointer_type_names c), set_variadic_dispatch_wrappers =
         to_set (cfg_variadic_dispatch_wrappers c), set_top_k_selector_funcs =
         to_set (cfg_top_k_selector_funcs c), set_top_k_one_contracts =
         cfg_top_k_one_contracts c, set_native_snapshot_string_copy_contracts =
         cfg_native_snapshot_string_copy_contracts c, set_scheduler_tile_grain_contracts =
         cfg_scheduler_tile_grain_contracts c, set_scoped_backend_routing_contracts =
         cfg_scoped_backend_routing_contracts c, set_closure_environment_growth_artifacts =
         cfg_closure_environment_growth_artifacts c, set_coefficient_address_artifacts =
         cfg_coefficient_address_artifacts c, set_dispatch_crossover_contracts =
         cfg_dispatch_crossover_contracts c, set_recursive_metadata_ignore_contracts =
         cfg_recursive_metadata_ignore_contracts c, set_input_view_funcs =
         to_set (cfg_input_view_funcs c), set_output_view_funcs =
         to_set (cfg_output_view_funcs c), set_reference_backend_pkg =
         cfg_reference_backend_pkg c, set_optimized_backend_pkgs =
         to_set (cfg_optimized_backend_pkgs c), set_kernel_register_funcs =
         to_set (cfg_kernel_register_funcs c), set_in_place_fusion_contracts =
         cfg_in_place_fusion_contracts c, set_bounded_scratch_flow_contracts =
         cfg_bounded_scratch_flow_contracts c, set_active_bound_fallback_contracts =
         cfg_active_bound_fallback_contracts c, set_output_workspace_contracts =
         cfg_output_workspace_contracts c, set_unused_projection_scratch_contracts =
         cfg_unused_projection_scratch_contracts c, set_native_snapshot_reuse_contracts =
         cfg_native_snapshot_reuse_contracts c, set_receiver_staging_contracts =
         cfg_receiver_staging_contracts c, set_reusable_one_shot_wrapper_contracts =
         cfg_reusable_one_shot_wrapper_contracts c, set_reusable_result_loop_contracts =
         cfg_reusable_result_loop_contracts c, set_recorder_residual_add_contracts =
         cfg_recorder_residual_add_contracts c, set_row_local_sparse_gather_contracts =
         cfg_row_local_sparse_gather_contracts c,
         set_tiny_synchronous_accelerator_screen_contracts =
         cfg_tiny_synchronous_accelerator_screen_contracts c,
         set_resident_weight_benchmark_contracts = cfg_resident_weight_benchmark_contracts c,
         set_forward_loss_backward_graph_contracts =
         cfg_forward_loss_backward_graph_contracts c,
         set_fragmented_accelerator_objective_contracts =
         cfg_fragmented_accelerator_objective_contracts c,
         set_cross_step_accelerator_residency_contracts =
         cfg_cross_step_accelerator_residency_contracts c, set_resident_codebook_contracts =
         cfg_resident_codebook_contracts c, set_single_use_quantization_contracts =
         cfg_single_use_quantization_contracts c, set_state_expanded_lookup_contracts =
         cfg_state_expanded_lookup_contracts c, set_shared_fan_out_contracts =
         cfg_shared_fan_out_contracts c\<rparr>"

text \<open>The zero value of \<open>Config\<close>.\<close>

definition zero_config :: config where
  "zero_config =
     \<lparr>cfg_comment = [], cfg_dense_row_gemm_funcs = [], cfg_causal_zero_gemm_contracts = [],
         cfg_native_generation_dispatch_contracts = [], cfg_cache_line_bytes = 0,
         cfg_element_accessors = [], cfg_fast_path_helpers = [],
         cfg_selector_promotion_symbols = [], cfg_element_count_methods = [],
         cfg_shape_methods = [], cfg_index_decompose_funcs = [], cfg_allocator_funcs = [],
         cfg_per_element_visitors = [], cfg_bulk_copy_helpers = [],
         cfg_vectorized_sibling_funcs = [], cfg_fan_out_helpers = [], cfg_dtype_methods = [],
         cfg_output_buffer_elem_types = [], cfg_compiled_resource_funcs = [],
         cfg_gpu_reduction_kernels = [], cfg_pure_compute_funcs = [], cfg_layout_op_constants =
         [], cfg_pointer_type_names = [], cfg_variadic_dispatch_wrappers = [],
         cfg_top_k_selector_funcs = [], cfg_top_k_one_contracts = [],
         cfg_native_snapshot_string_copy_contracts = [], cfg_scheduler_tile_grain_contracts =
         [], cfg_scoped_backend_routing_contracts = [],
         cfg_closure_environment_growth_artifacts = [], cfg_coefficient_address_artifacts = [],
         cfg_dispatch_crossover_contracts = [], cfg_recursive_metadata_ignore_contracts = [],
         cfg_input_view_funcs = [], cfg_output_view_funcs = [], cfg_reference_backend_pkg = [],
         cfg_optimized_backend_pkgs = [], cfg_kernel_register_funcs = [],
         cfg_in_place_fusion_contracts = [], cfg_bounded_scratch_flow_contracts = [],
         cfg_active_bound_fallback_contracts = [], cfg_output_workspace_contracts = [],
         cfg_unused_projection_scratch_contracts = [], cfg_native_snapshot_reuse_contracts =
         [], cfg_row_local_strided_guard_contracts = [], cfg_receiver_staging_contracts = [],
         cfg_context_transient_workspace_contracts = [],
         cfg_reusable_one_shot_wrapper_contracts = [], cfg_reusable_result_loop_contracts = [],
         cfg_recorder_residual_add_contracts = [], cfg_row_local_sparse_gather_contracts = [],
         cfg_tiny_synchronous_accelerator_screen_contracts = [],
         cfg_resident_weight_benchmark_contracts = [],
         cfg_forward_loss_backward_graph_contracts = [],
         cfg_fragmented_accelerator_objective_contracts = [],
         cfg_cross_step_accelerator_residency_contracts = [], cfg_resident_codebook_contracts =
         [], cfg_single_use_quantization_contracts = [], cfg_state_expanded_lookup_contracts =
         [], cfg_shared_fan_out_contracts = []\<rparr>"

section \<open>Loading\<close>

text \<open>\<open>knownKeys\<close> reads the YAML names off the struct tags.\<close>

definition known_keys :: "string list" where
  "known_keys =
     [''_comment'', ''denseRowGEMMFuncs'', ''causalZeroGEMMContracts'',
         ''nativeGenerationDispatchContracts'', ''cacheLineBytes'', ''elementAccessors'',
         ''fastPathHelpers'', ''selectorPromotionSymbols'', ''elementCountMethods'',
         ''shapeMethods'', ''indexDecomposeFuncs'', ''allocatorFuncs'', ''perElementVisitors'',
         ''bulkCopyHelpers'', ''vectorizedSiblingFuncs'', ''fanOutHelpers'', ''dtypeMethods'',
         ''outputBufferElemTypes'', ''compiledResourceFuncs'', ''gpuReductionKernels'',
         ''pureComputeFuncs'', ''layoutOpConstants'', ''pointerTypeNames'',
         ''variadicDispatchWrappers'', ''topKSelectorFuncs'', ''topKOneContracts'',
         ''nativeSnapshotStringCopyContracts'', ''schedulerTileGrainContracts'',
         ''scopedBackendRoutingContracts'', ''closureEnvironmentGrowthArtifacts'',
         ''coefficientAddressArtifacts'', ''dispatchCrossoverContracts'',
         ''recursiveMetadataIgnoreContracts'', ''inputViewFuncs'', ''outputViewFuncs'',
         ''referenceBackendPkg'', ''optimizedBackendPkgs'', ''kernelRegisterFuncs'',
         ''inPlaceFusionContracts'', ''boundedScratchFlowContracts'',
         ''activeBoundFallbackContracts'', ''outputWorkspaceContracts'',
         ''unusedProjectionScratchContracts'', ''nativeSnapshotReuseContracts'',
         ''rowLocalStridedGuardContracts'', ''receiverStagingContracts'',
         ''contextTransientWorkspaceContracts'', ''reusableOneShotWrapperContracts'',
         ''reusableResultLoopContracts'', ''recorderResidualAddContracts'',
         ''rowLocalSparseGatherContracts'', ''tinySynchronousAcceleratorScreenContracts'',
         ''residentWeightBenchmarkContracts'', ''forwardLossBackwardGraphContracts'',
         ''fragmentedAcceleratorObjectiveContracts'',
         ''crossStepAcceleratorResidencyContracts'', ''residentCodebookContracts'',
         ''singleUseQuantizationContracts'', ''stateExpandedLookupContracts'',
         ''sharedFanOutContracts'']"

text \<open>
  The surroundings: the working directory, files by path, and the decoder of
  \<open>gopkg.in/yaml.v3\<close>, for a \<open>Config\<close> and for a mapping from keys to nodes. An error of
  \<open>Load\<close> says whether the file could not be read.
\<close>

record config_env =
  ce_os :: os_env
  ce_read :: "string \<Rightarrow> string option"
  ce_exists :: "string \<Rightarrow> bool"
  ce_decode :: "string \<Rightarrow> config option"
  ce_keys :: "string \<Rightarrow> string list option"

datatype load_error = Read_failed | Yaml_failed string

definition load :: "config_env \<Rightarrow> string \<Rightarrow> load_error + config" where
  "load E path =
     (case ce_read E path of
        None \<Rightarrow> Inl Read_failed
      | Some b \<Rightarrow> (case ce_decode E b of None \<Rightarrow> Inl (Yaml_failed path) | Some c \<Rightarrow> Inr c))"

definition unknown_keys :: "config_env \<Rightarrow> string \<Rightarrow> string list" where
  "unknown_keys E path =
     (case ce_read E path of
        None \<Rightarrow> []
      | Some b \<Rightarrow>
          (case ce_keys E b of
             None \<Rightarrow> []
           | Some ks \<Rightarrow> stable_sort str_compare (filter (\<lambda>k. k \<notin> set known_keys) ks)))"

section \<open>Discovery\<close>

definition config_names :: "string list" where
  "config_names = [''perfscan.yaml'', ''perfscan.yml'', ''.perfscan.yaml'', ''.perfscan.yml'']"

text \<open>One directory: the first of the names that exists and loads.\<close>

fun first_config :: "config_env \<Rightarrow> string \<Rightarrow> string list \<Rightarrow> (config \<times> string) option" where
  "first_config E dir [] = None"
| "first_config E dir (name # names) =
     (let p = path_join [dir, name] in
      if ce_exists E p then
        (case load E p of Inr c \<Rightarrow> Some (c, p) | Inl _ \<Rightarrow> first_config E dir names)
      else first_config E dir names)"

function discover_from :: "config_env \<Rightarrow> string \<Rightarrow> config \<times> string" where
  "discover_from E dir =
     (case first_config E dir config_names of
        Some found \<Rightarrow> found
      | None \<Rightarrow>
          if ce_exists E (path_join [dir, ''go.mod'']) then (zero_config, [])
          else let parent = path_dir dir in
            if parent = dir then (zero_config, []) else discover_from E parent)"
  by pat_completeness auto
termination
  by (relation "measure (\<lambda>(E, dir). climb_measure dir)") (auto dest: climb_measure_less)

declare discover_from.simps [simp del]

definition discover :: "config_env \<Rightarrow> string \<Rightarrow> config \<times> string" where
  "discover E dir =
     (case path_abs (env_cwd (ce_os E)) dir of
        None \<Rightarrow> (zero_config, [])
      | Some d \<Rightarrow> discover_from E d)"

text \<open>
  \<open>loadConfig\<close> of the runner: the configuration with the path it came from, and the lines
  written to standard error: the error of a file given explicitly, or one warning for each
  unknown key. \<open>Getwd\<close> gives an empty string when it fails.
\<close>

datatype config_message =
    Config_error load_error
  | Unrecognized_key string string

definition load_config :: "config_env \<Rightarrow> string \<Rightarrow> (config \<times> string) \<times> config_message list" where
  "load_config E config_path =
     (if config_path \<noteq> [] then
        (case load E config_path of
           Inl err \<Rightarrow> ((zero_config, []), [Config_error err])
         | Inr c \<Rightarrow> ((c, config_path), map (Unrecognized_key config_path) (unknown_keys E config_path)))
      else
        let (c, path) = discover E (case env_cwd (ce_os E) of None \<Rightarrow> [] | Some wd \<Rightarrow> wd) in
        ((c, path), map (Unrecognized_key path) (unknown_keys E path)))"

end
