(* ===== verification/Vocabulary.thy ===== *)
theory Vocabulary
  imports Config Closure Lint
begin

text \<open>
  Starved checks: a domain check names the configuration fields it reads, and \<open>missingVocab\<close>
  reports those of them without a usable entry. The table of usable entries has one row per
  field, in the order of \<open>internal/runner/runner.go\<close>; the loop of \<open>Run\<close> drops the checks
  whose whole vocabulary is missing.
\<close>

section \<open>Usable entries\<close>

definition valid_closure_environment_growth_artifacts :: "json_codec \<Rightarrow> string list \<Rightarrow> nat" where
  "valid_closure_environment_growth_artifacts J artifacts =
     valid_count (\<lambda>artifact. case read_artifact J artifact of Inr _ \<Rightarrow> True | Inl _ \<Rightarrow> False) artifacts"

definition valid_top_k_one_contracts :: "id_env \<Rightarrow> top_k_one_contract list \<Rightarrow> nat" where
  "valid_top_k_one_contracts E cs = valid_count (top_k_one_contract_valid E) cs"

definition valid_native_snapshot_string_copy_contracts :: "id_env \<Rightarrow> native_snapshot_string_copy_contract list \<Rightarrow> nat" where
  "valid_native_snapshot_string_copy_contracts E cs = valid_count (native_snapshot_string_copy_contract_valid E) cs"

definition valid_scheduler_tile_grain_contracts :: "id_env \<Rightarrow> scheduler_tile_grain_contract list \<Rightarrow> nat" where
  "valid_scheduler_tile_grain_contracts E cs = valid_count (scheduler_tile_grain_contract_valid E) cs"

definition valid_receiver_staging_contracts :: "id_env \<Rightarrow> receiver_staging_contract list \<Rightarrow> nat" where
  "valid_receiver_staging_contracts E cs = valid_count (receiver_staging_contract_valid E) cs"

definition valid_reusable_result_loop_contracts :: "id_env \<Rightarrow> reusable_result_loop_contract list \<Rightarrow> nat" where
  "valid_reusable_result_loop_contracts E cs = valid_count (reusable_result_loop_contract_valid E) cs"

definition valid_recorder_residual_add_contracts :: "id_env \<Rightarrow> recorder_residual_add_contract list \<Rightarrow> nat" where
  "valid_recorder_residual_add_contracts E cs = valid_count (recorder_residual_add_contract_valid E) cs"

definition valid_row_local_sparse_gather_contracts :: "id_env \<Rightarrow> row_local_sparse_gather_contract list \<Rightarrow> nat" where
  "valid_row_local_sparse_gather_contracts E cs = valid_count (row_local_sparse_gather_contract_valid E) cs"

definition valid_tiny_synchronous_accelerator_screen_contracts :: "id_env \<Rightarrow> tiny_synchronous_accelerator_screen_contract list \<Rightarrow> nat" where
  "valid_tiny_synchronous_accelerator_screen_contracts E cs = valid_count (tiny_synchronous_accelerator_screen_contract_valid E) cs"

definition valid_forward_loss_backward_graph_contracts :: "id_env \<Rightarrow> forward_loss_backward_graph_contract list \<Rightarrow> nat" where
  "valid_forward_loss_backward_graph_contracts E cs = valid_count (forward_loss_backward_graph_contract_valid E) cs"

definition valid_fragmented_accelerator_objective_contracts :: "id_env \<Rightarrow> fragmented_accelerator_objective_contract list \<Rightarrow> nat" where
  "valid_fragmented_accelerator_objective_contracts E cs = valid_count (fragmented_accelerator_objective_contract_valid E) cs"

definition valid_cross_step_accelerator_residency_contracts :: "id_env \<Rightarrow> cross_step_accelerator_residency_contract list \<Rightarrow> nat" where
  "valid_cross_step_accelerator_residency_contracts E cs = valid_count (cross_step_accelerator_residency_contract_valid E) cs"

definition valid_native_generation_dispatch_contracts :: "id_env \<Rightarrow> native_generation_dispatch_contract list \<Rightarrow> nat" where
  "valid_native_generation_dispatch_contracts E cs = valid_count (native_generation_dispatch_contract_valid E) cs"

definition vocabulary_table :: "id_env \<Rightarrow> json_codec \<Rightarrow> config \<Rightarrow> (string \<times> nat) list" where
  "vocabulary_table E J c =
     [(''singleUseQuantizationContracts'', length (usable_single_use_quantization_contracts E (cfg_single_use_quantization_contracts c))),
      (''rowLocalStridedGuardContracts'', length (usable_row_local_strided_guard_contracts E (cfg_row_local_strided_guard_contracts c))),
      (''denseRowGEMMFuncs'', usable_dense_row_gemm_func_count E (cfg_dense_row_gemm_funcs c)),
      (''causalZeroGEMMContracts'', length (usable_causal_zero_gemm_contracts E (cfg_causal_zero_gemm_contracts c))),
      (''contextTransientWorkspaceContracts'', length (usable_context_transient_workspace_contracts E (cfg_context_transient_workspace_contracts c))),
      (''elementAccessors'', length (cfg_element_accessors c)),
      (''fastPathHelpers'', length (cfg_fast_path_helpers c)),
      (''selectorPromotionSymbols'', length (cfg_selector_promotion_symbols c)),
      (''elementCountMethods'', length (cfg_element_count_methods c)),
      (''shapeMethods'', length (cfg_shape_methods c)),
      (''indexDecomposeFuncs'', length (cfg_index_decompose_funcs c)),
      (''allocatorFuncs'', length (cfg_allocator_funcs c)),
      (''perElementVisitors'', length (cfg_per_element_visitors c)),
      (''bulkCopyHelpers'', length (cfg_bulk_copy_helpers c)),
      (''vectorizedSiblingFuncs'', length (cfg_vectorized_sibling_funcs c)),
      (''fanOutHelpers'', length (cfg_fan_out_helpers c)),
      (''dtypeMethods'', length (cfg_dtype_methods c)),
      (''outputBufferElemTypes'', length (cfg_output_buffer_elem_types c)),
      (''compiledResourceFuncs'', length (cfg_compiled_resource_funcs c)),
      (''gpuReductionKernels'', length (cfg_gpu_reduction_kernels c)),
      (''pureComputeFuncs'', length (cfg_pure_compute_funcs c)),
      (''layoutOpConstants'', length (cfg_layout_op_constants c)),
      (''pointerTypeNames'', length (cfg_pointer_type_names c)),
      (''variadicDispatchWrappers'', length (cfg_variadic_dispatch_wrappers c)),
      (''topKSelectorFuncs'', length (cfg_top_k_selector_funcs c)),
      (''topKOneContracts'', valid_top_k_one_contracts E (cfg_top_k_one_contracts c)),
      (''nativeSnapshotStringCopyContracts'', valid_native_snapshot_string_copy_contracts E (cfg_native_snapshot_string_copy_contracts c)),
      (''schedulerTileGrainContracts'', valid_scheduler_tile_grain_contracts E (cfg_scheduler_tile_grain_contracts c)),
      (''scopedBackendRoutingContracts'', length (usable_scoped_backend_routing_contracts E (cfg_scoped_backend_routing_contracts c))),
      (''closureEnvironmentGrowthArtifacts'', valid_closure_environment_growth_artifacts J (cfg_closure_environment_growth_artifacts c)),
      (''recursiveMetadataIgnoreContracts'', length (usable_recursive_metadata_ignore_contracts E (cfg_recursive_metadata_ignore_contracts c))),
      (''inputViewFuncs'', length (cfg_input_view_funcs c)),
      (''outputViewFuncs'', length (cfg_output_view_funcs c)),
      (''referenceBackendPkg'', length (cfg_reference_backend_pkg c)),
      (''optimizedBackendPkgs'', length (cfg_optimized_backend_pkgs c)),
      (''kernelRegisterFuncs'', length (cfg_kernel_register_funcs c)),
      (''inPlaceFusionContracts'', length (cfg_in_place_fusion_contracts c)),
      (''receiverStagingContracts'', valid_receiver_staging_contracts E (cfg_receiver_staging_contracts c)),
      (''activeBoundFallbackContracts'', length (usable_active_bound_fallback_contracts E (cfg_active_bound_fallback_contracts c))),
      (''outputWorkspaceContracts'', length (usable_output_workspace_contracts E (cfg_output_workspace_contracts c))),
      (''unusedProjectionScratchContracts'', length (usable_unused_projection_scratch_contracts E (cfg_unused_projection_scratch_contracts c))),
      (''nativeSnapshotReuseContracts'', length (usable_native_snapshot_reuse_contracts E (cfg_native_snapshot_reuse_contracts c))),
      (''reusableResultLoopContracts'', valid_reusable_result_loop_contracts E (cfg_reusable_result_loop_contracts c)),
      (''recorderResidualAddContracts'', valid_recorder_residual_add_contracts E (cfg_recorder_residual_add_contracts c)),
      (''rowLocalSparseGatherContracts'', valid_row_local_sparse_gather_contracts E (cfg_row_local_sparse_gather_contracts c)),
      (''tinySynchronousAcceleratorScreenContracts'', valid_tiny_synchronous_accelerator_screen_contracts E (cfg_tiny_synchronous_accelerator_screen_contracts c)),
      (''residentWeightBenchmarkContracts'', length (usable_resident_weight_benchmark_contracts E (cfg_resident_weight_benchmark_contracts c))),
      (''forwardLossBackwardGraphContracts'', valid_forward_loss_backward_graph_contracts E (cfg_forward_loss_backward_graph_contracts c)),
      (''fragmentedAcceleratorObjectiveContracts'', valid_fragmented_accelerator_objective_contracts E (cfg_fragmented_accelerator_objective_contracts c)),
      (''crossStepAcceleratorResidencyContracts'', valid_cross_step_accelerator_residency_contracts E (cfg_cross_step_accelerator_residency_contracts c)),
      (''residentCodebookContracts'', length (usable_resident_codebook_contracts E (cfg_resident_codebook_contracts c))),
      (''stateExpandedLookupContracts'', length (usable_state_expanded_lookup_contracts E (cfg_state_expanded_lookup_contracts c))),
      (''sharedFanOutContracts'', length (usable_shared_fan_out_contracts E (cfg_shared_fan_out_contracts c))),
      (''nativeGenerationDispatchContracts'', valid_native_generation_dispatch_contracts E (cfg_native_generation_dispatch_contracts c)),
      (''coefficientAddressArtifacts'', length (cfg_coefficient_address_artifacts c)),
      (''dispatchCrossoverContracts'', length (usable_dispatch_crossover_contracts E (cfg_dispatch_crossover_contracts c)))]"

section \<open>Missing vocabulary\<close>

definition missing_vocab :: "id_env \<Rightarrow> json_codec \<Rightarrow> check \<Rightarrow> config \<Rightarrow> string list" where
  "missing_vocab E J ch c =
     (if \<not> chk_needs_config ch then []
      else filter (\<lambda>v. map_of (vocabulary_table E J c) v = Some 0) (chk_vocab ch))"

text \<open>
  The loop of \<open>Run\<close> over the selected checks: the checks kept, and the warnings for checks
  that were named explicitly although vocabulary is missing, with the configuration they
  were starved by.
\<close>

definition fully_starved :: "check \<Rightarrow> string list \<Rightarrow> bool" where
  "fully_starved ch missing = (chk_needs_config ch \<and> length missing = length (chk_vocab ch))"

definition starved_warning :: "string \<Rightarrow> string \<Rightarrow> string list \<Rightarrow> string" where
  "starved_warning cfg_path i missing =
     ''perfscan: WARNING: '' @ i @ '' was selected explicitly but vocabulary '' @ join_with '', '' missing @
     '' is missing ('' @ (if cfg_path \<noteq> [] then ''config '' @ cfg_path else ''no perfscan.yaml found'') @ '')''"

fun keep_fed ::
    "id_env \<Rightarrow> json_codec \<Rightarrow> config \<Rightarrow> string \<Rightarrow> string set \<Rightarrow> check list \<Rightarrow> check list \<times> string list" where
  "keep_fed E J c cfg_path explicit [] = ([], [])"
| "keep_fed E J c cfg_path explicit (ch # chs) =
     (let missing = missing_vocab E J ch c; (kept, warnings) = keep_fed E J c cfg_path explicit chs in
      if fully_starved ch missing \<and> chk_id ch \<notin> explicit then (kept, warnings)
      else (ch # kept,
            (if missing \<noteq> [] \<and> chk_id ch \<in> explicit
             then [starved_warning cfg_path (chk_id ch) missing] else []) @ warnings))"

end
