(* ===== verification/Vocabulary_Props.thy ===== *)
theory Vocabulary_Props
  imports Vocabulary Evidence_Props
begin

text \<open>
  Properties of the configuration: where \<open>Discover\<close> looks, which checks \<open>Run\<close> keeps, and
  the field whose emptiness nobody notices.
\<close>

section \<open>Discovery\<close>

text \<open>The directories of the search: the ancestors up to the first one with a \<open>go.mod\<close>.\<close>

fun up_to :: "('a \<Rightarrow> bool) \<Rightarrow> 'a list \<Rightarrow> 'a list" where
  "up_to P [] = []"
| "up_to P (x # xs) = (if P x then [x] else x # up_to P xs)"

definition module_scope :: "config_env \<Rightarrow> string \<Rightarrow> string list" where
  "module_scope E dir = up_to (\<lambda>d. ce_exists E (path_join [d, ''go.mod''])) (ancestors dir)"

text \<open>The loadable configuration files of a directory, in the order of the names.\<close>

definition loadable :: "config_env \<Rightarrow> string \<Rightarrow> (config \<times> string) list" where
  "loadable E dir = concat (map (\<lambda>name.
     let p = path_join [dir, name] in
     if ce_exists E p then (case load E p of Inr c \<Rightarrow> [(c, p)] | Inl _ \<Rightarrow> []) else []) config_names)"

definition first_of :: "'a list \<Rightarrow> 'a option" where
  "first_of xs = (case xs of [] \<Rightarrow> None | x # _ \<Rightarrow> Some x)"

lemma first_config_first_of:
  "first_config E dir names = first_of (concat (map (\<lambda>name.
     let p = path_join [dir, name] in
     if ce_exists E p then (case load E p of Inr c \<Rightarrow> [(c, p)] | Inl _ \<Rightarrow> []) else []) names))"
  by (induction names) (auto simp: first_of_def Let_def split: sum.splits list.splits)

lemma discover_from_scope:
  "discover_from E dir =
     (case first_of (concat (map (loadable E) (module_scope E dir))) of Some found \<Rightarrow> found | None \<Rightarrow> (zero_config, []))"
proof (induction E dir rule: discover_from.induct)
  case (1 E dir)
  have f: "first_config E dir config_names = first_of (loadable E dir)"
    unfolding loadable_def by (rule first_config_first_of)
  show ?case
  proof (cases "loadable E dir")
    case (Cons x xs)
    then have "first_of (concat (map (loadable E) (module_scope E dir))) = Some x"
      unfolding module_scope_def by (subst ancestors.simps) (simp add: first_of_def)
    with Cons f show ?thesis by (subst discover_from.simps) (simp add: first_of_def)
  next
    case Nil
    let ?stop = "ce_exists E (path_join [dir, ''go.mod''])"
    have d: "discover_from E dir = (if ?stop \<or> path_dir dir = dir then (zero_config, []) else discover_from E (path_dir dir))"
      using Nil f by (subst discover_from.simps) (simp add: first_of_def Let_def)
    have m: "module_scope E dir = dir # (if ?stop \<or> path_dir dir = dir then [] else module_scope E (path_dir dir))"
      unfolding module_scope_def by (subst ancestors.simps) simp
    show ?thesis
    proof (cases "?stop \<or> path_dir dir = dir")
      case True
      then show ?thesis using d m Nil by (simp add: first_of_def)
    next
      case False
      have "first_config E dir config_names = None" using f Nil by (simp add: first_of_def)
      with 1 False have "discover_from E (path_dir dir) =
          (case first_of (concat (map (loadable E) (module_scope E (path_dir dir)))) of
             Some found \<Rightarrow> found | None \<Rightarrow> (zero_config, []))" by simp
      then show ?thesis using d m Nil False by simp
    qed
  qed
qed

text \<open>
  Without an explicit path the configuration is the first loadable file of the
  nearest directory that has one, from the working directory up to the module root and
  never above it; a file that does not parse is passed over. Without one the zero
  configuration is used and no warning is printed.
\<close>

theorem load_config_discovers:
  assumes "env_cwd (ce_os E) = Some wd" and "is_abs wd" and "ce_read E [] = None"
  shows "load_config E [] =
    (case first_of (concat (map (loadable E) (module_scope E (path_clean wd)))) of
       None \<Rightarrow> ((zero_config, []), [])
     | Some (c, path) \<Rightarrow> ((c, path), map (Unrecognized_key path) (unknown_keys E path)))"
proof -
  have "path_abs (Some wd) wd = Some (path_clean wd)" using assms(2) by (simp add: path_abs_def)
  moreover have "unknown_keys E [] = []" using assms(3) by (simp add: unknown_keys_def)
  ultimately show ?thesis
    using assms(1) by (auto simp: load_config_def discover_def discover_from_scope split: option.splits)
qed

definition sample_config_env :: config_env where
  "sample_config_env =
     \<lparr>ce_os = \<lparr>env_var = \<lambda>_. [], env_cache_dir = None, env_home_dir = None, env_cwd = Some ''/m/p''\<rparr>,
      ce_read = \<lambda>p. if p \<in> {''/m/.perfscan.yml'', ''/perfscan.yaml''} then Some ''x'' else None,
      ce_exists = \<lambda>p. p \<in> {''/m/go.mod'', ''/m/.perfscan.yml'', ''/perfscan.yaml''},
      ce_decode = \<lambda>_. Some (zero_config\<lparr>cfg_cache_line_bytes := 128\<rparr>), ce_keys = \<lambda>_. Some [''cacheLineByte'']\<rparr>"

lemmas path_eval = path_dir_def path_join_def path_clean_def clean_comps_def clean_step_def comps_def sep_def
  is_abs_def Let_def

lemma sample_scope: "module_scope sample_config_env ''/m/p'' = [''/m/p'', ''/m'']"
  unfolding module_scope_def
  by (simp add: ancestors.simps [of "''/m/p''"] ancestors.simps [of "''/m''"] sample_config_env_def path_eval)

lemma sample_loadable:
  "loadable sample_config_env ''/m/p'' = []"
  "loadable sample_config_env ''/m'' = [(zero_config\<lparr>cfg_cache_line_bytes := 128\<rparr>, ''/m/.perfscan.yml'')]"
  by (simp_all add: loadable_def config_names_def sample_config_env_def load_def path_eval)

lemma load_config_discovers_witness:
  "load_config sample_config_env [] =
     ((zero_config\<lparr>cfg_cache_line_bytes := 128\<rparr>, ''/m/.perfscan.yml''),
      [Unrecognized_key ''/m/.perfscan.yml'' ''cacheLineByte''])"
proof -
  have "path_clean ''/m/p'' = ''/m/p''" by (simp add: path_eval)
  moreover have "unknown_keys sample_config_env ''/m/.perfscan.yml'' = [''cacheLineByte'']"
    by (simp add: unknown_keys_def sample_config_env_def known_keys_def)
  moreover have "is_abs ''/m/p''" by (simp add: is_abs_def sep_def)
  ultimately show ?thesis
    by (subst load_config_discovers [of _ "''/m/p''"])
      (simp_all add: sample_scope sample_loadable first_of_def, simp_all add: sample_config_env_def)
qed

section \<open>Starved checks\<close>

lemma filter_all: "length (filter P xs) = length xs \<longleftrightarrow> list_all P xs"
proof (induction xs)
  case Nil
  show ?case by simp
next
  case (Cons x xs)
  have "length (filter P xs) \<noteq> Suc (length xs)" using length_filter_le [of P xs] by linarith
  with Cons show ?case by auto
qed

lemma fully_starved_iff:
  "fully_starved ch (missing_vocab E J ch c) \<longleftrightarrow>
     chk_needs_config ch \<and> list_all (\<lambda>v. map_of (vocabulary_table E J c) v = Some 0) (chk_vocab ch)"
  by (auto simp: fully_starved_def missing_vocab_def filter_all)

definition warned :: "id_env \<Rightarrow> json_codec \<Rightarrow> config \<Rightarrow> string set \<Rightarrow> check \<Rightarrow> bool" where
  "warned E J c explicit ch = (chk_id ch \<in> explicit \<and> missing_vocab E J ch c \<noteq> [])"

text \<open>
  \<open>Run\<close> drops exactly the checks that need configuration, were not named
  explicitly and have no usable entry in any field of their vocabulary, and it warns about
  exactly the explicitly named checks with a missing field. The order is kept.
\<close>

theorem keep_fed_spec:
  "keep_fed E J c cfg_path explicit chs =
    (filter (\<lambda>ch. \<not> (chk_needs_config ch \<and> chk_id ch \<notin> explicit \<and>
        list_all (\<lambda>v. map_of (vocabulary_table E J c) v = Some 0) (chk_vocab ch))) chs,
     map (\<lambda>ch. starved_warning cfg_path (chk_id ch) (missing_vocab E J ch c))
       (filter (warned E J c explicit) chs))"
  by (induction chs) (auto simp: Let_def fully_starved_iff warned_def)

section \<open>The field nobody counts\<close>

text \<open>The check PS6109 as \<open>checks/ps6109.go\<close> registers it.\<close>

definition ps6109 :: "analyzer \<Rightarrow> documentation \<Rightarrow> check" where
  "ps6109 analyzer doc =
     \<lparr>chk_analyzer = analyzer, chk_id = ''PS6109'', chk_category = ''alloc'',
      chk_slug = ''repeated-fresh-wrapper-around-one-shot-native-handle'', chk_level = LevelAggressive,
      chk_auto_fix = False, chk_needs_config = True, chk_vocab = [''reusableOneShotWrapperContracts''],
      chk_doc = doc\<rparr>"

text \<open>
  The vocabulary of PS6109 is never counted. It is a known key of the
  configuration but has no row in the table of \<open>missingVocab\<close>, so PS6109 is kept under the
  selector \<open>all\<close> even by the empty configuration, and naming it explicitly never prints the
  warning that its vocabulary is missing.
\<close>

theorem ps6109_never_starved:
  "''reusableOneShotWrapperContracts'' \<in> set known_keys \<and>
   map_of (vocabulary_table E J c) ''reusableOneShotWrapperContracts'' = None \<and>
   missing_vocab E J (ps6109 analyzer doc) c = [] \<and>
   keep_fed E J zero_config [] {} [ps6109 analyzer doc] = ([ps6109 analyzer doc], []) \<and>
   keep_fed E J zero_config [] {''PS6109''} [ps6109 analyzer doc] = ([ps6109 analyzer doc], [])"
proof -
  have n: "map_of (vocabulary_table E J c) ''reusableOneShotWrapperContracts'' = None" for c
    by (simp add: vocabulary_table_def)
  have m: "missing_vocab E J (ps6109 analyzer doc) c = []" for c
    by (simp add: missing_vocab_def ps6109_def n)
  then show ?thesis
    by (simp add: known_keys_def Let_def n m fully_starved_def) (simp add: ps6109_def)
qed

end
