(* ===== verification/Scan_Scope.thy ===== *)
theory Scan_Scope
  imports Contract_Samples Facts
begin

text \<open>
  Loading the packages of a run (\<open>internal/runner/scan_scope.go\<close>): the choice between the
  ordinary and the strict loader, the recognition of the built-in package driver, and the
  strict load, which observes the target before and after. The \<open>packages.Load\<close> of
  \<open>golang.org/x/tools\<close> and the \<open>go env\<close> probe are parameters.
\<close>

section \<open>The driver\<close>

datatype lookup_result = Found string | Not_found | Other_error

text \<open>\<open>GOPACKAGESDRIVER\<close> has the value of the last entry that sets it.\<close>

definition driver_variable :: "string list \<Rightarrow> string" where
  "driver_variable env =
     foldl (\<lambda>tool entry. case cut_prefix entry ''GOPACKAGESDRIVER='' of None \<Rightarrow> tool | Some value \<Rightarrow> value) [] env"

definition built_in_go_driver :: "(string \<Rightarrow> lookup_result) \<Rightarrow> string list \<Rightarrow> bool" where
  "built_in_go_driver look_path env =
     (let tool = driver_variable env in
      if tool = ''off'' then True
      else if tool \<noteq> [] then False
      else look_path ''gopackagesdriver'' = Not_found)"

section \<open>The strict load\<close>

text \<open>
  The observations of one strict load, in their order: the driver and the target before the
  load, the loader, the target and the driver after it. \<open>None\<close> is an error.
\<close>

record scope_observation =
  so_before_driver :: bool
  so_before :: "scan_target option"
  so_load :: "string + loaded_package list"
  so_after :: "scan_target option"
  so_after_driver :: bool

definition load_scope_context ::
    "scope_observation \<Rightarrow> string + loaded_package list \<times> scan_target option" where
  "load_scope_context ob =
     (case so_load ob of
        Inl err \<Rightarrow> Inl err
      | Inr pkgs \<Rightarrow>
          if \<not> so_before_driver ob \<or> \<not> so_after_driver ob \<or> so_before ob = None \<or> so_after ob = None \<or>
             (case so_before ob of None \<Rightarrow> True | Some t \<Rightarrow> \<not> target_known t) \<or> so_before ob \<noteq> so_after ob
          then Inr (pkgs, None)
          else Inr (pkgs, so_before ob))"

section \<open>The choice of the loader\<close>

definition quantization_claims :: "single_use_quantization_contract list \<Rightarrow> string \<Rightarrow> nat" where
  "quantization_claims cs k = count_list (map single_use_claim cs) k"

definition needs_strict :: "id_env \<Rightarrow> single_use_quantization_contract list \<Rightarrow> bool" where
  "needs_strict E cs =
     list_ex (\<lambda>c. single_use_quantization_contract_valid E c \<and> sq_benchmark_exemptions c \<noteq> [] \<and>
       quantization_claims cs (single_use_claim c) = 1) cs"

definition load_for_checks ::
    "id_env \<Rightarrow> check list \<Rightarrow> single_use_quantization_contract list \<Rightarrow> (string + loaded_package list) \<Rightarrow>
      (string + loaded_package list \<times> scan_target option) \<Rightarrow>
      string + loaded_package list \<times> scan_target option" where
  "load_for_checks E enabled contracts ordinary strict =
     (if list_ex (\<lambda>ch. chk_id ch = ''PS6141'') enabled \<and> needs_strict E contracts then strict
      else case ordinary of Inl err \<Rightarrow> Inl err | Inr pkgs \<Rightarrow> Inr (pkgs, None))"

section \<open>The scope is evidence\<close>

lemma load_scope_known:
  assumes "load_scope_context ob = Inr (pkgs, Some t)"
  shows "target_known t \<and> so_before ob = Some t \<and> so_after ob = Some t \<and> so_before_driver ob \<and> so_after_driver ob"
  using assms by (auto simp: load_scope_context_def split: sum.splits if_splits option.splits)

text \<open>
  A scan scope is only ever passed to the checks as evidence. It needs the check
  PS6141 enabled, a usable contract with an exemption, whose claim nobody else makes, the
  built-in driver on both sides of the load, and the same known target before and after; in
  all other cases the packages are loaded as usual and the scope is unknown.
\<close>

theorem scope_evidence:
  assumes "load_for_checks E enabled contracts ordinary (load_scope_context ob) = Inr (pkgs, Some t)"
  shows "(\<exists>c. c \<in> set (usable_single_use_quantization_contracts E contracts) \<and> sq_benchmark_exemptions c \<noteq> []) \<and>
    ''PS6141'' \<in> chk_id ` set enabled \<and> target_known t \<and>
    so_before ob = Some t \<and> so_after ob = Some t \<and> so_before_driver ob \<and> so_after_driver ob"
proof -
  have strict: "list_ex (\<lambda>ch. chk_id ch = ''PS6141'') enabled" "needs_strict E contracts"
    and l: "load_scope_context ob = Inr (pkgs, Some t)"
    using assms by (auto simp: load_for_checks_def split: if_splits sum.splits)
  obtain c where c: "c \<in> set contracts" "single_use_quantization_contract_valid E c"
      "sq_benchmark_exemptions c \<noteq> []" "quantization_claims contracts (single_use_claim c) = 1"
    using strict(2) by (auto simp: needs_strict_def list_ex_iff)
  have "c \<in> set (usable_single_use_quantization_contracts E contracts)"
    using c by (simp add: usable_single_use_quantization_contracts_def usable_contracts_def tally_def quantization_claims_def)
  moreover have "''PS6141'' \<in> chk_id ` set enabled"
    using strict(1) unfolding list_ex_iff by (metis imageI)
  ultimately show ?thesis using load_scope_known [OF l] c(3) by blast
qed

definition sample_quantization :: single_use_quantization_contract where
  "sample_quantization =
     \<lparr>sq_quantizer = ''p.Q'', sq_consumer = ''p.D'', sq_float_input_argument = 0, sq_producer_form = [],
      sq_destination_argument = 0, sq_packed_argument = 0, sq_rows_argument = 1, sq_consumer_form = [],
      sq_weight_argument = 0, sq_quantization_and_dot_meaning_reviewed = True, sq_benchmark_exempt_owners = [],
      sq_benchmark_exemption_reason = [],
      sq_benchmark_exemptions = [\<lparr>sqe_policy = ''e'', sqe_sha256 = sample_digest\<rparr>]\<rparr>"

lemma sample_quantization_valid: "single_use_quantization_contract_valid sample_ids sample_quantization"
  by (simp add: single_use_quantization_contract_valid_def sample_quantization_def id_eval sample_digest_ok)

definition sample_target :: scan_target where
  "sample_target = \<lparr>tg_go_version = ''go1'', tg_goos = ''linux'', tg_goarch = ''amd64'', tg_context_sha256 = sample_digest\<rparr>"

lemma sample_target_known: "target_known sample_target"
proof -
  have "cut_int ''1'' = Some (''1'', [])" by (simp add: cut_int_def is_digit_def)
  then have "gover_lang ''1'' = ''1''" by (simp add: gover_lang_def)
  moreover have "str_cut ''go1'' ''-'' = None" by simp
  ultimately have "version_is_valid ''go1''" by (simp add: version_is_valid_def version_lang_def)
  moreover have "hex_char (CHR ''a'')" by (simp add: hex_char_def)
  ultimately show ?thesis by (simp add: target_known_def sample_target_def list_all_iff)
qed

lemma scope_evidence_witness:
  "sample_quantization \<in> set (usable_single_use_quantization_contracts sample_ids [sample_quantization]) \<and>
   load_for_checks sample_ids [plain_check ''PS6141'' LevelAggressive] [sample_quantization] (Inr [])
     (load_scope_context \<lparr>so_before_driver = True, so_before = Some sample_target, so_load = Inr [],
        so_after = Some sample_target, so_after_driver = True\<rparr>) = Inr ([], Some sample_target)"
proof -
  let ?ob = "\<lparr>so_before_driver = True, so_before = Some sample_target, so_load = Inr [],
        so_after = Some sample_target, so_after_driver = True\<rparr>"
  have "sq_benchmark_exemptions sample_quantization \<noteq> []" by (simp add: sample_quantization_def)
  then have l: "load_for_checks sample_ids [plain_check ''PS6141'' LevelAggressive] [sample_quantization] (Inr [])
      (load_scope_context ?ob) = Inr ([], Some sample_target)"
    using sample_quantization_valid sample_target_known
    by (simp add: load_for_checks_def load_scope_context_def needs_strict_def quantization_claims_def plain_check_def)
  have "\<exists>c. c \<in> set (usable_single_use_quantization_contracts sample_ids [sample_quantization])"
    using scope_evidence [OF l] by blast
  moreover have "set (usable_single_use_quantization_contracts sample_ids [sample_quantization]) \<subseteq> {sample_quantization}"
    by (auto simp: usable_single_use_quantization_contracts_def usable_contracts_def)
  ultimately show ?thesis using l by blast
qed

end
