(* ===== verification/Worker_Pool.thy ===== *)
theory Worker_Pool
  imports Prelude "HOL-Library.Multiset"
begin

text \<open>
  The goroutines of \<open>internal/testparallel\<close>: a dispatcher sends the indices of a list of
  items over an unbuffered channel, and workers receive them, call a function on each item
  and record what it gives. \<open>discoverTests\<close> cancels its context at the first failure, and a
  worker then stops; \<open>runJobs\<close> goes through all items. Both are one step relation: a step is
  one goroutine doing one thing, and the scheduler, the callbacks and the caller's context
  are what is not determined. The workers are anonymous, so they form a multiset. A worker of \<open>runJobs\<close>
  sends its failure on a channel of capacity \<open>len(jobs)\<close>: there is room for one failure of every job, so the send does
  not block and is part of the step that ends the call.
\<close>

section \<open>States and steps\<close>

text \<open>
  A worker waits for an index, has received one, is in the call for one, or has returned.
  \<open>pl_calls\<close> lists the indices the callback was called on; \<open>pl_interrupted\<close> says that the
  caller's context ended.
\<close>

datatype worker = Idle | Received nat | Working nat | Stopped

record 'r pool =
  pl_next :: nat
  pl_closed :: bool
  pl_workers :: "worker multiset"
  pl_results :: "'r option list"
  pl_failures :: "string option list"
  pl_cancelled :: bool
  pl_interrupted :: bool
  pl_calls :: "nat list"

definition pool_start :: "nat \<Rightarrow> nat \<Rightarrow> 'r pool" where
  "pool_start n workers =
     \<lparr>pl_next = 0, pl_closed = False, pl_workers = replicate_mset workers Idle, pl_results = replicate n None,
      pl_failures = replicate n None, pl_cancelled = False, pl_interrupted = False, pl_calls = []\<rparr>"

text \<open>
  \<open>halting\<close> tells the two pools apart: a worker of a halting pool gives up an index it
  received after the cancellation, and a failure cancels the pool and ends the worker.
\<close>

inductive pool_step ::
    "bool \<Rightarrow> nat \<Rightarrow> (nat \<Rightarrow> string + 'r \<Rightarrow> bool) \<Rightarrow> 'r pool \<Rightarrow> 'r pool \<Rightarrow> bool"
  for halting :: bool and n :: nat and outcome :: "nat \<Rightarrow> string + 'r \<Rightarrow> bool" where
  send: "\<lbrakk>\<not> pl_closed s; pl_next s < n; pl_workers s = add_mset Idle ws\<rbrakk> \<Longrightarrow>
     pool_step halting n outcome s
       (s\<lparr>pl_next := Suc (pl_next s), pl_workers := add_mset (Received (pl_next s)) ws\<rparr>)"
| give_up: "\<lbrakk>\<not> pl_closed s; pl_next s < n; pl_cancelled s\<rbrakk> \<Longrightarrow>
     pool_step halting n outcome s (s\<lparr>pl_closed := True\<rparr>)"
| finish: "\<lbrakk>\<not> pl_closed s; pl_next s = n\<rbrakk> \<Longrightarrow> pool_step halting n outcome s (s\<lparr>pl_closed := True\<rparr>)"
| leave: "\<lbrakk>pl_closed s; pl_workers s = add_mset Idle ws\<rbrakk> \<Longrightarrow>
     pool_step halting n outcome s (s\<lparr>pl_workers := add_mset Stopped ws\<rparr>)"
| abandon: "\<lbrakk>halting; pl_cancelled s; pl_workers s = add_mset (Received i) ws\<rbrakk> \<Longrightarrow>
     pool_step halting n outcome s (s\<lparr>pl_workers := add_mset Stopped ws\<rparr>)"
| call: "\<lbrakk>\<not> (halting \<and> pl_cancelled s); pl_workers s = add_mset (Received i) ws\<rbrakk> \<Longrightarrow>
     pool_step halting n outcome s
       (s\<lparr>pl_workers := add_mset (Working i) ws, pl_calls := pl_calls s @ [i]\<rparr>)"
| succeed: "\<lbrakk>pl_workers s = add_mset (Working i) ws; outcome i (Inr r)\<rbrakk> \<Longrightarrow>
     pool_step halting n outcome s
       (s\<lparr>pl_results := (pl_results s)[i := Some r], pl_workers := add_mset Idle ws\<rparr>)"
| fail: "\<lbrakk>pl_workers s = add_mset (Working i) ws; outcome i (Inl e)\<rbrakk> \<Longrightarrow>
     pool_step halting n outcome s
       (s\<lparr>pl_failures := (pl_failures s)[i := Some e], pl_cancelled := (halting \<or> pl_cancelled s),
          pl_workers := add_mset (if halting then Stopped else Idle) ws\<rparr>)"
| interrupt: "\<not> pl_interrupted s \<Longrightarrow>
     pool_step halting n outcome s (s\<lparr>pl_interrupted := True, pl_cancelled := True\<rparr>)"

definition pool_done :: "'r pool \<Rightarrow> bool" where
  "pool_done s = (pl_closed s \<and> set_mset (pl_workers s) \<subseteq> {Stopped})"

text \<open>The states a run goes through.\<close>

definition pool_run ::
    "bool \<Rightarrow> nat \<Rightarrow> nat \<Rightarrow> (nat \<Rightarrow> string + 'r \<Rightarrow> bool) \<Rightarrow> 'r pool \<Rightarrow> bool" where
  "pool_run halting n workers outcome = (pool_step halting n outcome)\<^sup>*\<^sup>* (pool_start n workers)"

section \<open>Every run ends\<close>

fun worker_weight :: "worker \<Rightarrow> nat" where
  "worker_weight Stopped = 0"
| "worker_weight Idle = 1"
| "worker_weight (Working i) = 2"
| "worker_weight (Received i) = 3"

definition pool_weight :: "nat \<Rightarrow> 'r pool \<Rightarrow> nat" where
  "pool_weight n s = 3 * (n - pl_next s) + (\<Sum>w\<in>#pl_workers s. worker_weight w) +
     (if pl_closed s then 0 else 1) + (if pl_interrupted s then 0 else 1)"

lemma weight_decreases: "pool_step halting n outcome s t \<Longrightarrow> pool_weight n t < pool_weight n s"
  by (induction rule: pool_step.induct) (simp_all add: pool_weight_def)

section \<open>The invariant\<close>

fun received :: "worker \<Rightarrow> nat multiset" where
  "received (Received i) = {#i#}"
| "received _ = {#}"

fun working :: "worker \<Rightarrow> nat multiset" where
  "working (Working i) = {#i#}"
| "working _ = {#}"

definition recorded :: "'r pool \<Rightarrow> nat \<Rightarrow> bool" where
  "recorded s i = (pl_results s ! i \<noteq> None \<or> pl_failures s ! i \<noteq> None)"

definition upto_mset :: "nat \<Rightarrow> nat multiset" where
  "upto_mset n = mset [0..<n]"

lemma upto_mset_Suc [simp]: "upto_mset (Suc n) = add_mset n (upto_mset n)"
  by (simp add: upto_mset_def)

lemma count_upto_mset [simp]: "count (upto_mset n) i = (if i < n then 1 else 0)"
  by (induction n) (auto simp: upto_mset_def)

lemma filter_upto_add:
  assumes "i < n" and "\<not> P i"
  shows "filter_mset (\<lambda>j. j = i \<or> P j) (upto_mset n) = add_mset i (filter_mset P (upto_mset n))"
  by (rule multiset_eqI) (use assms in auto)

text \<open>
  Every index the dispatcher sent is with exactly one worker, or was called, or was given up
  after a cancellation; and every call is still running or has its result in one place.
\<close>

definition pool_items :: "bool \<Rightarrow> nat \<Rightarrow> 'r pool \<Rightarrow> bool" where
  "pool_items halting n s =
     (pl_next s \<le> n \<and>
      (\<Sum>w\<in>#pl_workers s. received w) + mset (pl_calls s) \<subseteq># upto_mset (pl_next s) \<and>
      (halting \<and> pl_cancelled s \<or>
       (\<Sum>w\<in>#pl_workers s. received w) + mset (pl_calls s) = upto_mset (pl_next s)))"

definition pool_records :: "nat \<Rightarrow> (nat \<Rightarrow> string + 'r \<Rightarrow> bool) \<Rightarrow> 'r pool \<Rightarrow> bool" where
  "pool_records n outcome s =
     (length (pl_results s) = n \<and> length (pl_failures s) = n \<and>
      mset (pl_calls s) = (\<Sum>w\<in>#pl_workers s. working w) + filter_mset (recorded s) (upto_mset n) \<and>
      (\<forall>i<n. pl_results s ! i = None \<or> pl_failures s ! i = None) \<and>
      (\<forall>i<n. \<forall>r. pl_results s ! i = Some r \<longrightarrow> outcome i (Inr r)) \<and>
      (\<forall>i<n. \<forall>e. pl_failures s ! i = Some e \<longrightarrow> outcome i (Inl e)))"

definition pool_flags :: "bool \<Rightarrow> nat \<Rightarrow> nat \<Rightarrow> 'r pool \<Rightarrow> bool" where
  "pool_flags halting n workers s =
     (size (pl_workers s) = workers \<and>
      (pl_closed s \<longrightarrow> pl_next s = n \<or> pl_cancelled s) \<and>
      (Stopped \<in># pl_workers s \<longrightarrow> pl_closed s \<or> pl_cancelled s) \<and>
      (pl_interrupted s \<longrightarrow> pl_cancelled s) \<and>
      (\<forall>i<length (pl_failures s). halting \<and> pl_failures s ! i \<noteq> None \<longrightarrow> pl_cancelled s) \<and>
      (pl_cancelled s \<longrightarrow> pl_interrupted s \<or> halting \<and> (\<exists>i<length (pl_failures s). pl_failures s ! i \<noteq> None)))"

lemma items_step: "pool_step halting n outcome s t \<Longrightarrow> pool_items halting n s \<Longrightarrow> pool_items halting n t"
proof (induction rule: pool_step.induct)
  case (abandon s i ws)
  then show ?case
    by (auto simp: pool_items_def dest: subset_mset.add_decreasing elim: subset_mset.order_trans [rotated])
qed (auto simp: pool_items_def)

lemma calls_bound:
  assumes "pool_items halting n s"
  shows "count (mset (pl_calls s)) i \<le> (if i < n then 1 else 0)"
proof -
  have "mset (pl_calls s) \<subseteq># upto_mset (pl_next s)"
    using assms by (auto simp: pool_items_def intro: subset_mset.order_trans [OF mset_subset_eq_add_right])
  then have "count (mset (pl_calls s)) i \<le> count (upto_mset (pl_next s)) i"
    by (rule mset_subset_eq_count)
  also have "\<dots> \<le> (if i < n then 1 else 0)" using assms by (auto simp: pool_items_def)
  finally show ?thesis .
qed

lemma working_free:
  assumes "pool_items halting n s" and "pool_records n outcome s" and "pl_workers s = add_mset (Working i) ws"
  shows "i < n \<and> \<not> recorded s i"
proof -
  from assms have "count (mset (pl_calls s)) i = Suc (count (\<Sum>w\<in>#ws. working w) i +
      count (filter_mset (recorded s) (upto_mset n)) i)"
    by (simp add: pool_records_def)
  with calls_bound [OF assms(1), of i] show ?thesis by (auto split: if_splits)
qed

lemma records_step:
  "pool_step halting n outcome s t \<Longrightarrow> pool_items halting n s \<Longrightarrow> pool_records n outcome s \<Longrightarrow>
     pool_records n outcome t"
proof (induction rule: pool_step.induct)
  case (succeed s i ws r)
  let ?t = "s\<lparr>pl_results := (pl_results s)[i := Some r], pl_workers := add_mset Idle ws\<rparr>"
  have i: "i < n" "\<not> recorded s i" using working_free [OF succeed(3,4,1)] by auto
  have l: "length (pl_results s) = n" "length (pl_failures s) = n"
    using succeed(4) by (simp_all add: pool_records_def)
  have "filter_mset (recorded ?t) (upto_mset n) = filter_mset (\<lambda>j. j = i \<or> recorded s j) (upto_mset n)"
    using i l by (intro filter_mset_cong) (auto simp: recorded_def nth_list_update upto_mset_def)
  then show ?case
    using succeed i l unfolding pool_records_def filter_upto_add [of i n "recorded s", OF i]
    by (auto simp: nth_list_update recorded_def)
next
  case (fail s i ws e)
  let ?t = "s\<lparr>pl_failures := (pl_failures s)[i := Some e], pl_cancelled := (halting \<or> pl_cancelled s),
          pl_workers := add_mset (if halting then Stopped else Idle) ws\<rparr>"
  have i: "i < n" "\<not> recorded s i" using working_free [OF fail(3,4,1)] by auto
  have l: "length (pl_results s) = n" "length (pl_failures s) = n"
    using fail(4) by (simp_all add: pool_records_def)
  have "filter_mset (recorded ?t) (upto_mset n) = filter_mset (\<lambda>j. j = i \<or> recorded s j) (upto_mset n)"
    using i l by (intro filter_mset_cong) (auto simp: recorded_def nth_list_update upto_mset_def)
  then show ?case
    using fail i l unfolding pool_records_def filter_upto_add [of i n "recorded s", OF i]
    by (auto simp: nth_list_update recorded_def)
qed (auto simp: pool_records_def recorded_def [abs_def])

lemma flags_step:
  "pool_step halting n outcome s t \<Longrightarrow> pool_items halting n s \<Longrightarrow> pool_records n outcome s \<Longrightarrow>
     pool_flags halting n workers s \<Longrightarrow> pool_flags halting n workers t"
proof (induction rule: pool_step.induct)
  case (fail s i ws e)
  have "i < length (pl_failures s)"
    using working_free [OF fail(3,4,1)] fail(4) by (simp add: pool_records_def)
  with fail show ?case by (auto simp: pool_flags_def nth_list_update split: if_splits)
qed (auto simp: pool_flags_def)

definition pool_inv :: "bool \<Rightarrow> nat \<Rightarrow> nat \<Rightarrow> (nat \<Rightarrow> string + 'r \<Rightarrow> bool) \<Rightarrow> 'r pool \<Rightarrow> bool" where
  "pool_inv halting n workers outcome s =
     (pool_items halting n s \<and> pool_records n outcome s \<and> pool_flags halting n workers s)"

lemma inv_start: "pool_inv halting n workers outcome (pool_start n workers)"
proof -
  have "filter_mset (recorded (pool_start n workers)) (upto_mset n) = {#}"
    by (rule multiset_eqI) (simp add: recorded_def pool_start_def)
  then show ?thesis
    by (auto simp: pool_inv_def pool_items_def pool_records_def pool_flags_def pool_start_def upto_mset_def)
qed

lemma inv_step:
  "pool_step halting n outcome s t \<Longrightarrow> pool_inv halting n workers outcome s \<Longrightarrow> pool_inv halting n workers outcome t"
  using items_step records_step flags_step unfolding pool_inv_def by metis

lemma inv_run: "pool_run halting n workers outcome s \<Longrightarrow> pool_inv halting n workers outcome s"
  unfolding pool_run_def by (induction rule: rtranclp_induct) (auto intro: inv_start inv_step)

section \<open>Progress\<close>

lemma pool_busy:
  assumes "set_mset (pl_workers s) \<subseteq> {Idle, Stopped}" and "\<not> pool_done s"
    and "pool_flags halting n workers s" and "pool_items halting n s" and "0 < workers \<or> n = 0"
  shows "\<exists>t. pool_step halting n outcome s t"
proof (cases "pl_closed s")
  case True
  with assms(1,2) have "Idle \<in># pl_workers s" by (auto simp: pool_done_def)
  with True show ?thesis by (metis insert_DiffM pool_step.leave)
next
  case False
  show ?thesis
  proof (cases "pl_next s = n \<or> pl_cancelled s")
    case True
    with False assms(4) show ?thesis
      by (metis pool_items_def le_neq_implies_less pool_step.finish pool_step.give_up)
  next
    case open_: False
    with False assms(1,3) have "set_mset (pl_workers s) \<subseteq> {Idle}" by (auto simp: pool_flags_def)
    moreover have "pl_workers s \<noteq> {#}"
      using open_ assms(3-5) by (auto simp: pool_flags_def pool_items_def)
    ultimately have "Idle \<in># pl_workers s" by (metis multiset_nonemptyE singletonD subsetD)
    moreover have "pl_next s < n" using open_ assms(4) by (simp add: pool_items_def)
    ultimately show ?thesis using False by (metis insert_DiffM pool_step.send)
  qed
qed

lemma pool_not_stuck:
  assumes "pool_inv halting n workers outcome s" and "\<not> pool_done s" and "0 < workers \<or> n = 0"
    and total: "\<And>i. i < n \<Longrightarrow> \<exists>r. outcome i r"
  shows "\<exists>t. pool_step halting n outcome s t"
proof (cases "set_mset (pl_workers s) \<subseteq> {Idle, Stopped}")
  case True
  show ?thesis by (rule pool_busy [OF True assms(2) _ _ assms(3)]) (use assms(1) in \<open>simp_all add: pool_inv_def\<close>)
next
  case False
  then obtain w where w: "w \<in># pl_workers s" "w \<notin> {Idle, Stopped}" by blast
  then obtain ws where ws: "pl_workers s = add_mset w ws" by (metis insert_DiffM)
  show ?thesis
  proof (cases w)
    case (Received i)
    with ws show ?thesis by (metis pool_step.abandon pool_step.call)
  next
    case (Working i)
    with ws assms(1) have "i < n" using working_free [of halting n s outcome i ws] by (simp add: pool_inv_def)
    with total obtain r where "outcome i r" by blast
    with ws Working show ?thesis by (cases r) (auto intro: pool_step.succeed pool_step.fail)
  qed (use w in auto)
qed

text \<open>From every state of a run the run can be completed, and no run goes on for ever.\<close>

lemma pool_completes:
  assumes "pool_inv halting n workers outcome s" and "0 < workers \<or> n = 0"
    and total: "\<And>i. i < n \<Longrightarrow> \<exists>r. outcome i r"
  shows "\<exists>t. (pool_step halting n outcome)\<^sup>*\<^sup>* s t \<and> pool_done t"
  using assms(1)
proof (induction "pool_weight n s" arbitrary: s rule: less_induct)
  case less
  show ?case
  proof (cases "pool_done s")
    case False
    with pool_not_stuck [OF less.prems] assms(2,3) obtain t where t: "pool_step halting n outcome s t" by blast
    from less.hyps [OF weight_decreases [OF t] inv_step [OF t less.prems]] t show ?thesis
      by (meson converse_rtranclp_into_rtranclp)
  qed auto
qed

lemma pool_step_wf: "wfP (\<lambda>t s. pool_step halting n outcome s t)"
  by (rule wfp_if_convertible_to_nat [of _ "pool_weight n"]) (rule weight_decreases)

section \<open>Completed runs\<close>

lemma sum_mset_stopped: "set_mset W \<subseteq> {Stopped} \<Longrightarrow>
    (\<Sum>w\<in>#W. received w) = {#} \<and> (\<Sum>w\<in>#W. working w) = {#}"
  by (induction W) auto

text \<open>A completed run has one record of every index it called, and called none twice.\<close>

lemma done_calls:
  assumes "pool_inv halting n workers outcome s" and "pool_done s"
  shows "mset (pl_calls s) = filter_mset (recorded s) (upto_mset n)" and "distinct (pl_calls s)"
proof -
  from assms show m: "mset (pl_calls s) = filter_mset (recorded s) (upto_mset n)"
    using sum_mset_stopped [of "pl_workers s"] by (simp add: pool_inv_def pool_records_def pool_done_def)
  show "distinct (pl_calls s)"
    unfolding distinct_count_atmost_1
  proof
    fix i
    have "count (mset (pl_calls s)) i \<le> (if i < n then 1 else 0)"
      by (rule calls_bound [of halting]) (use assms(1) in \<open>simp add: pool_inv_def\<close>)
    also have "\<dots> \<le> 1" by simp
    finally have "count (mset (pl_calls s)) i \<le> 1" .
    moreover have "(count (mset (pl_calls s)) i = 0) = (i \<notin> set (pl_calls s))" by (rule count_mset_0_iff)
    ultimately show "count (mset (pl_calls s)) i = (if i \<in> set (pl_calls s) then 1 else 0)"
      by (simp only: split: if_split) linarith
  qed
qed

text \<open>Without a cancellation it called all of them.\<close>

lemma done_complete:
  assumes "pool_inv halting n workers outcome s" and "pool_done s" and "\<not> pl_cancelled s"
  shows "mset (pl_calls s) = upto_mset n" and "i < n \<Longrightarrow> recorded s i"
proof -
  have next_n: "pl_next s = n" using assms by (auto simp: pool_inv_def pool_flags_def pool_done_def)
  have none: "(\<Sum>w\<in>#pl_workers s. received w) = {#}"
    using sum_mset_stopped [of "pl_workers s"] assms(2) by (simp add: pool_done_def)
  have "(\<Sum>w\<in>#pl_workers s. received w) + mset (pl_calls s) = upto_mset (pl_next s)"
    using assms(1,3) unfolding pool_inv_def pool_items_def by blast
  then show c: "mset (pl_calls s) = upto_mset n" unfolding next_n none by simp
  with done_calls [OF assms(1,2)] have "upto_mset n = filter_mset (recorded s) (upto_mset n)" by simp
  then show "recorded s i" if "i < n"
    using that by (metis count_filter_mset count_upto_mset zero_neq_one)
qed

text \<open>A pool that does not halt goes on after a failure, and is only cut short from outside.\<close>

lemma done_without_interrupt:
  assumes "pool_inv False n workers outcome s" and "pool_done s" and "\<not> pl_interrupted s"
  shows "\<not> pl_cancelled s"
  using assms by (auto simp: pool_inv_def pool_flags_def)

end
