(* ===== verification/Test_Parallel.thy ===== *)
theory Test_Parallel
  imports Worker_Pool Contract_Ids Go_Text "HOL-Library.Word"
begin

text \<open>
  The tool \<open>internal/testparallel\<close> that runs the tests of the repository in shards: its flags,
  the discovery of test names, the split of the names into jobs, the attempts at one job and
  the processor budget of a worker. The goroutines are those of \<open>Worker_Pool\<close>. The Go command,
  the clock and the Unicode tables beyond ASCII are parameters; \<open>int\<close> is 64 bits wide.
\<close>

unbundle bit_operations_syntax

section \<open>Jobs\<close>

record test_job =
  tj_pkg :: string
  tj_shard :: nat
  tj_shard_count :: nat
  tj_names :: "string list"

text \<open>The hash is 64-bit FNV-1a of the package, a zero byte and the name.\<close>

definition fnv_offset64 :: "64 word" where "fnv_offset64 = 14695981039346656037"
definition fnv_prime64 :: "64 word" where "fnv_prime64 = 1099511628211"

definition fnv_step :: "64 word \<Rightarrow> char \<Rightarrow> 64 word" where
  "fnv_step hash c = (hash XOR word_of_nat (byte_at c)) * fnv_prime64"

definition external_shard_for_name :: "string \<Rightarrow> string \<Rightarrow> int \<Rightarrow> int" where
  "external_shard_for_name pkg name shards =
     sint (foldl (foldl fnv_step) fnv_offset64 [pkg, [CHR 0x00], name] mod word_of_int shards)"

text \<open>
  \<open>None\<close> here and below is a panic: a division by zero or a negative capacity, for counts
  the flags exclude.
\<close>

definition select_external_shard :: "string \<Rightarrow> string list \<Rightarrow> int \<Rightarrow> int \<Rightarrow> string list option" where
  "select_external_shard pkg names index shards =
     (if shards = 1 then Some names
      else if shards = 0 \<or> go_quo (int (length names)) shards + 1 < 0 then None
      else Some (filter (\<lambda>name. external_shard_for_name pkg name shards = index) names))"

text \<open>\<open>groups[i \% count] = append(groups[i \% count], name)\<close> for every name in turn.\<close>

fun deal :: "nat \<Rightarrow> nat \<Rightarrow> string list \<Rightarrow> string list list \<Rightarrow> string list list" where
  "deal shards i [] groups = groups"
| "deal shards i (name # names) groups =
     deal shards (Suc i) names (groups[i mod shards := groups ! (i mod shards) @ [name]])"

definition partition :: "string list \<Rightarrow> int \<Rightarrow> string list list option" where
  "partition names workers =
     (if names = [] then Some []
      else let shards = min workers (int (length names)) in
        if shards \<le> 0 then None
        else Some (deal (nat shards) 0 names (replicate (nat shards) [])))"

definition make_test_jobs ::
    "string \<Rightarrow> string list \<Rightarrow> int \<Rightarrow> int \<Rightarrow> int \<Rightarrow> int \<Rightarrow> test_job list option" where
  "make_test_jobs pkg names workers max_tests index shards =
     (case select_external_shard pkg names index shards of
        None \<Rightarrow> None
      | Some selected \<Rightarrow>
          if selected \<noteq> [] \<and> max_tests = 0 then None
          else
            let groups = (if selected \<noteq> [] then max workers (1 + go_quo (int (length selected) - 1) max_tests)
                          else workers)
            in map_option (\<lambda>gs. map (\<lambda>(shard, g).
                  \<lparr>tj_pkg = pkg, tj_shard = shard, tj_shard_count = length gs, tj_names = g\<rparr>) (enumerate 0 gs))
                (partition selected groups))"

section \<open>Flags\<close>

datatype usage_error = Bad_workers | Bad_parallel | Bad_max_tests | Bad_timeout | Bad_shard_count | Bad_shard_index

definition validate_external_shard :: "int \<Rightarrow> int \<Rightarrow> usage_error option" where
  "validate_external_shard index shards =
     (if shards < 1 then Some Bad_shard_count
      else if index < 0 \<or> index \<ge> shards then Some Bad_shard_index else None)"

definition worker_cpu_share :: "int \<Rightarrow> int \<Rightarrow> int" where
  "worker_cpu_share available workers = max 1 (go_quo (max 1 available) (max 1 workers))"

definition worker_environment :: "string list \<Rightarrow> int \<Rightarrow> string \<Rightarrow> string list" where
  "worker_environment environment procs goos =
     filter (\<lambda>entry.
         let name = (case str_cut entry ''='' of None \<Rightarrow> entry | Some (before, _) \<Rightarrow> before) in
         name \<noteq> ''GOMAXPROCS'' \<and> \<not> (goos = ''windows'' \<and> equal_fold name ''gomaxprocs'')) environment @
       [''GOMAXPROCS='' @ itoa (max 1 procs)]"

text \<open>\<open>fl_parallel\<close> is none when the flag is not set; the timeout is in nanoseconds.\<close>

record test_flags =
  fl_workers :: int
  fl_parallel :: "int option"
  fl_max_tests :: int
  fl_timeout :: int
  fl_race :: bool
  fl_shard_index :: int
  fl_shard_count :: int

text \<open>The guards of \<open>main\<close>, up to the share of a worker and the tests it runs in parallel.\<close>

definition check_flags :: "int \<Rightarrow> test_flags \<Rightarrow> usage_error + int \<times> int" where
  "check_flags available f =
     (if fl_workers f < 1 then Inl Bad_workers
      else
        let procs = worker_cpu_share available (fl_workers f);
            par = (case fl_parallel f of None \<Rightarrow> procs | Some p \<Rightarrow> p)
        in if par < 1 then Inl Bad_parallel
           else if fl_max_tests f < 1 then Inl Bad_max_tests
           else if fl_timeout f \<le> 0 then Inl Bad_timeout
           else case validate_external_shard (fl_shard_index f) (fl_shard_count f) of
             Some err \<Rightarrow> Inl err
           | None \<Rightarrow> Inr (procs, par))"

text \<open>The loop of \<open>main\<close> over the packages and the names discovered for them.\<close>

fun plan_jobs :: "test_flags \<Rightarrow> (string \<times> string list) list \<Rightarrow> test_job list option" where
  "plan_jobs f [] = Some []"
| "plan_jobs f ((pkg, names) # rest) =
     (case make_test_jobs pkg names (fl_workers f) (fl_max_tests f) (fl_shard_index f) (fl_shard_count f) of
        None \<Rightarrow> None
      | Some jobs \<Rightarrow> map_option (\<lambda>more. jobs @ more) (plan_jobs f rest))"

section \<open>Names\<close>

definition lower_rune :: "(nat \<Rightarrow> bool) \<Rightarrow> nat \<Rightarrow> bool" where
  "lower_rune is_lower r = (if r < 0x80 then 97 \<le> r \<and> r \<le> 122 else is_lower r)"

definition is_test_name :: "(nat \<Rightarrow> bool) \<Rightarrow> string \<Rightarrow> string \<Rightarrow> bool" where
  "is_test_name is_lower name word =
     (if \<not> has_prefix name word then False
      else case decode_rune (drop (length word) name) of
        None \<Rightarrow> True
      | Some (r, _) \<Rightarrow> \<not> lower_rune is_lower r)"

definition runnable :: "id_env \<Rightarrow> (nat \<Rightarrow> bool) \<Rightarrow> string \<Rightarrow> bool" where
  "runnable E is_lower name =
     (is_identifier E name \<and>
      (is_test_name is_lower name ''Test'' \<or> is_test_name is_lower name ''Fuzz'' \<or>
       is_test_name is_lower name ''Example''))"

text \<open>\<open>slices.Sort\<close> and \<open>slices.Compact\<close>.\<close>

definition parse_test_names :: "id_env \<Rightarrow> (nat \<Rightarrow> bool) \<Rightarrow> string \<Rightarrow> string list" where
  "parse_test_names E is_lower output =
     remdups_adj (stable_sort str_compare
       (filter (runnable E is_lower) (map trim_space (split_on (CHR 0x0A) output))))"

text \<open>\<open>regexp.QuoteMeta\<close> and the pattern given to \<open>-run\<close>.\<close>

definition quote_meta :: "string \<Rightarrow> string" where
  "quote_meta s = concat (map (\<lambda>c.
     if c \<in> {CHR 0x5C, CHR ''.'', CHR ''+'', CHR ''*'', CHR ''?'', CHR ''('', CHR '')'', CHR ''|'',
             CHR ''['', CHR '']'', CHR ''{'', CHR ''}'', CHR ''^'', CHR ''$''}
     then [CHR 0x5C, c] else [c]) s)"

definition test_pattern :: "string list \<Rightarrow> string" where
  "test_pattern names = ''^('' @ join_with ''|'' (map quote_meta names) @ '')$''"

section \<open>Arguments of the Go command\<close>

text \<open>\<open>Duration.String\<close>: the fraction without trailing zeros, and the units from seconds up.\<close>

definition fraction :: "nat \<Rightarrow> nat \<Rightarrow> string" where
  "fraction v prec =
     (let digits = map (\<lambda>k. digit_char (v div 10 ^ (prec - Suc k) mod 10)) [0..<prec];
          kept = rev (dropWhile (\<lambda>c. c = CHR ''0'') (rev digits))
      in if kept = [] then [] else CHR ''.'' # kept)"

definition duration_string :: "int \<Rightarrow> string" where
  "duration_string d =
     (let u = nat \<bar>d\<bar>; sign = (if d < 0 then ''-'' else []) in
      if u = 0 then ''0s''
      else if u < 1000 then sign @ itoa_nat u @ ''ns''
      else if u < 1000000 then sign @ itoa_nat (u div 1000) @ fraction u 3 @ [CHR 0xC2, CHR 0xB5, CHR ''s'']
      else if u < 1000000000 then sign @ itoa_nat (u div 1000000) @ fraction u 6 @ ''ms''
      else
        let s = u div 1000000000; m = s div 60; h = m div 60 in
        sign @ (if h > 0 then itoa_nat h @ ''h'' else []) @ (if m > 0 then itoa_nat (m mod 60) @ ''m'' else []) @
          itoa_nat (s mod 60) @ fraction u 9 @ ''s'')"

definition test_args :: "test_job \<Rightarrow> int \<Rightarrow> int \<Rightarrow> bool \<Rightarrow> string list" where
  "test_args job par timeout race =
     [''test'', ''-v'', ''-count=1'', ''-timeout='' @ duration_string timeout, ''-parallel='' @ itoa par,
      ''-run'', test_pattern (tj_names job)] @ (if race then [''-race''] else []) @ [tj_pkg job]"

definition list_args :: "string \<Rightarrow> int \<Rightarrow> bool \<Rightarrow> string list" where
  "list_args pkg remaining race =
     [''test''] @ (if race then [''-race''] else []) @ [''-timeout'', duration_string remaining, ''-list'', ''.'', pkg]"

section \<open>Crashes of the runtime\<close>

text \<open>\<open>strings.ToLower\<close>; the mapping of text beyond ASCII is the parameter.\<close>

definition to_lower :: "(string \<Rightarrow> string) \<Rightarrow> string \<Rightarrow> string" where
  "to_lower unicode s = (if list_all (\<lambda>c. byte_at c < 0x80) s then ascii_lower s else unicode s)"

record crash =
  cr_access_violation :: bool
  cr_waiting_list :: bool
  cr_runtime_throw :: bool
  cr_panic_source :: bool

text \<open>The scan of the lines; \<open>None\<close> is the return in the middle of the loop.\<close>

fun crash_scan :: "(string \<Rightarrow> string) \<Rightarrow> string list \<Rightarrow> crash \<Rightarrow> crash option" where
  "crash_scan unicode [] cr = Some cr"
| "crash_scan unicode (l # ls) cr =
     (let line = trim_space (to_lower unicode l) in
      if has_prefix line ''--- fail:'' \<or> line = ''warning: data race'' \<or> str_contains line ''race detected'' \<or>
         has_prefix line ''panic:'' \<or> str_contains line ''[build failed]'' \<or>
         (has_prefix line ''found '' \<and> has_suffix line '' data race(s)'')
      then None
      else if line = ''exit status 0xc0000005'' then crash_scan unicode ls (cr\<lparr>cr_access_violation := True\<rparr>)
      else if line = ''fatal error: g waiting list is corrupted''
      then crash_scan unicode ls (cr\<lparr>cr_waiting_list := True\<rparr>)
      else if has_prefix line ''fatal error:'' then None
      else if has_prefix line ''runtime.throw('' then crash_scan unicode ls (cr\<lparr>cr_runtime_throw := True\<rparr>)
      else if str_contains line ''/src/runtime/panic.go:'' \<or>
         str_contains line ([CHR 0x5C] @ ''src'' @ [CHR 0x5C] @ ''runtime'' @ [CHR 0x5C] @ ''panic.go:'')
      then crash_scan unicode ls (cr\<lparr>cr_panic_source := True\<rparr>)
      else crash_scan unicode ls cr)"

datatype context_error = Canceled | Deadline_exceeded

definition retryable_windows_runtime_crash ::
    "(string \<Rightarrow> string) \<Rightarrow> context_error option \<Rightarrow> string \<Rightarrow> string \<Rightarrow> string option \<Rightarrow> bool" where
  "retryable_windows_runtime_crash unicode cause goos output err =
     (if err = None \<or> cause \<noteq> None \<or> goos \<noteq> ''windows'' then False
      else case crash_scan unicode (split_on (CHR 0x0A) output)
          \<lparr>cr_access_violation = False, cr_waiting_list = False, cr_runtime_throw = False, cr_panic_source = False\<rparr> of
        None \<Rightarrow> False
      | Some cr \<Rightarrow> cr_access_violation cr \<or> cr_waiting_list cr \<and> cr_runtime_throw cr \<and> cr_panic_source cr)"

section \<open>Attempts\<close>

text \<open>
  One call of the command: its output and error, and the error of the context read after it
  and again in the crash test. The clock is what \<open>time.Now\<close> gives at the start, before an
  attempt and after it, in nanoseconds.
\<close>

record attempt =
  at_output :: string
  at_error :: "string option"
  at_cause :: "context_error option"
  at_cause_later :: "context_error option"

record clock =
  ck_start :: int
  ck_before :: "nat \<Rightarrow> int"
  ck_after :: "nat \<Rightarrow> int"

datatype attempt_error = Process string | Context context_error

definition windows_runtime_crash_attempts :: nat where
  "windows_runtime_crash_attempts = 3"

definition test_timeout_grace :: "int \<Rightarrow> int" where
  "test_timeout_grace timeout =
     (if timeout \<le> 0 then 0
      else let grace = go_quo timeout 10 in if grace < 1000000 then 1000000 else min grace 5000000000)"

definition budget_deadline :: "int \<Rightarrow> int \<Rightarrow> int option \<Rightarrow> int" where
  "budget_deadline start timeout parent =
     (case parent of
        None \<Rightarrow> start + timeout
      | Some p \<Rightarrow>
          let parent_budget = p - test_timeout_grace timeout in
          if parent_budget < start + timeout then parent_budget else start + timeout)"

definition retry_line :: "nat \<Rightarrow> string" where
  "retry_line attempt =
     ''testparallel: Windows Go runtime crashed; retrying this complete shard (attempt '' @
       itoa_nat (Suc attempt) @ ''/'' @ itoa_nat windows_runtime_crash_attempts @ '')'' @ [CHR 0x0A]"

definition process_errors :: "string option \<Rightarrow> attempt_error list" where
  "process_errors err = (case err of None \<Rightarrow> [] | Some e \<Rightarrow> [Process e])"

text \<open>
  The loop with the attempts it has left, and the budgets it gave to the command so far.
  \<open>None\<close> is the \<open>panic("unreachable")\<close> after the loop; an empty list of errors is success.
\<close>

fun attempt_loop ::
    "(string \<Rightarrow> string) \<Rightarrow> string \<Rightarrow> int \<Rightarrow> int \<Rightarrow> clock \<Rightarrow> (nat \<Rightarrow> int \<Rightarrow> attempt) \<Rightarrow> nat \<Rightarrow> nat \<Rightarrow>
      string \<Rightarrow> int list \<Rightarrow> (string \<times> attempt_error list \<times> int list) option" where
  "attempt_loop unicode goos timeout deadline ck run 0 attempt combined budgets = None"
| "attempt_loop unicode goos timeout deadline ck run (Suc left) attempt combined budgets =
     (let remaining = (if timeout > 0 then deadline - ck_before ck attempt else timeout) in
      if timeout > 0 \<and> remaining \<le> 0 then Some (combined, [Context Deadline_exceeded], budgets)
      else
        let a = run attempt remaining; combined = combined @ at_output a; budgets = budgets @ [remaining] in
        case at_cause a of
          Some cause \<Rightarrow> Some (combined, process_errors (at_error a) @ [Context cause], budgets)
        | None \<Rightarrow>
            if \<not> retryable_windows_runtime_crash unicode (at_cause_later a) goos (at_output a) (at_error a) \<or>
               attempt = windows_runtime_crash_attempts
            then Some (combined, process_errors (at_error a), budgets)
            else if timeout > 0 \<and> deadline - ck_after ck attempt \<le> 0
            then Some (combined, [Context Deadline_exceeded], budgets)
            else attempt_loop unicode goos timeout deadline ck run left (Suc attempt)
                   (combined @ retry_line attempt) budgets)"

definition run_test_attempts ::
    "(string \<Rightarrow> string) \<Rightarrow> string \<Rightarrow> int \<Rightarrow> int option \<Rightarrow> clock \<Rightarrow> (nat \<Rightarrow> int \<Rightarrow> attempt) \<Rightarrow>
      (string \<times> attempt_error list \<times> int list) option" where
  "run_test_attempts unicode goos timeout parent ck run =
     attempt_loop unicode goos timeout (budget_deadline (ck_start ck) timeout parent) ck run
       windows_runtime_crash_attempts 1 [] []"

section \<open>Discovery\<close>

datatype discovery_error = Workers_below_one | Listing_failed string string | Context_ended

definition discover_result ::
    "string list \<Rightarrow> string list pool \<Rightarrow> discovery_error list + string list list" where
  "discover_result packages s =
     (let observed =
        concat (map (\<lambda>(pkg, failure). case failure of None \<Rightarrow> [] | Some e \<Rightarrow> [Listing_failed pkg e])
          (zip packages (pl_failures s))) @ (if pl_cancelled s then [Context_ended] else [])
      in if observed \<noteq> [] then Inl observed
         else Inr (map (\<lambda>r. case r of None \<Rightarrow> [] | Some names \<Rightarrow> names) (pl_results s)))"

text \<open>
  The results a call may have; \<open>interrupted\<close> says whether the caller's context ended, and
  \<open>listing\<close> what the callback may give for a package.
\<close>

definition discover_tests ::
    "string list \<Rightarrow> int \<Rightarrow> (string \<Rightarrow> string + string list \<Rightarrow> bool) \<Rightarrow> bool \<Rightarrow>
      discovery_error list + string list list \<Rightarrow> bool" where
  "discover_tests packages workers listing interrupted res =
     (if workers < 1 then res = Inl [Workers_below_one]
      else \<exists>s. pool_run True (length packages) (min (nat workers) (length packages)) (\<lambda>i. listing (packages ! i)) s \<and>
        pool_done s \<and> pl_interrupted s = interrupted \<and> res = discover_result packages s)"

section \<open>Running the jobs\<close>

definition job_message :: "test_job \<Rightarrow> string \<Rightarrow> string" where
  "job_message job e =
     tj_pkg job @ '' shard '' @ itoa_nat (Suc (tj_shard job)) @ ''/'' @ itoa_nat (tj_shard_count job) @ '': '' @ e"

text \<open>\<open>None\<close> is success; the messages of the channel are sorted.\<close>

definition run_jobs_result :: "test_job list \<Rightarrow> string pool \<Rightarrow> string list option" where
  "run_jobs_result jobs s =
     (let failures =
        concat (map (\<lambda>(job, failure). case failure of None \<Rightarrow> [] | Some e \<Rightarrow> [job_message job e])
          (zip jobs (pl_failures s))) @ (if pl_cancelled s then [''context canceled''] else [])
      in if failures \<noteq> [] then Some (stable_sort str_compare failures) else None)"

definition run_jobs ::
    "test_job list \<Rightarrow> nat \<Rightarrow> (test_job \<Rightarrow> string + string \<Rightarrow> bool) \<Rightarrow> bool \<Rightarrow> nat list \<Rightarrow> string list option \<Rightarrow> bool" where
  "run_jobs jobs workers run_job interrupted calls res =
     (\<exists>s. pool_run False (length jobs) workers (\<lambda>i. run_job (jobs ! i)) s \<and> pool_done s \<and>
        pl_interrupted s = interrupted \<and> calls = pl_calls s \<and> res = run_jobs_result jobs s)"

end
