(* ===== verification/Test_Parallel_Props.thy ===== *)
theory Test_Parallel_Props
  imports Test_Parallel
begin

text \<open>
  What the parallel test runner promises: the external shards and the jobs of every shard split
  the tests exactly, a retry hides no reported failure and stays within the time budget, and
  the goroutines always return, with a result that does not depend on the schedule.
\<close>

section \<open>Names\<close>

lemma distinct_compact:
  "sorted_by str_compare xs \<Longrightarrow> distinct (remdups_adj xs) \<and> sorted_by str_compare (remdups_adj xs)"
proof (induction xs rule: remdups_adj.induct)
  case (3 x y xs)
  have le: "str_compare x z \<le> 0" if "z \<in> set (y # xs)" for z
    using "3.prems" that by (auto simp: sorted_by_def)
  have rest: "sorted_by str_compare (y # xs)" using "3.prems" by (simp add: sorted_by_def)
  show ?case
  proof (cases "x = y")
    case False
    have "x \<noteq> z" if z: "z \<in> set xs" for z
    proof
      assume "x = z"
      with z rest have "str_compare y x \<le> 0" by (simp add: sorted_by_def)
      moreover have "str_compare x y \<le> 0" by (rule le) simp
      ultimately have "str_compare x y = 0" using str_compare_anti [of x y] by linarith
      with False show False by (simp add: str_compare_eq)
    qed
    with False "3.IH"(2) rest le show ?thesis by (auto simp: sorted_by_def)
  qed (use "3.IH"(1) rest in simp)
qed (simp_all add: sorted_by_def)

text \<open>
  The names read from a listing are the runnable names of its lines, without spaces around them,
  each once and in order.
\<close>

lemma parse_test_names_exact:
  "set (parse_test_names E is_lower out) =
     {n. runnable E is_lower n \<and> n \<in> trim_space ` set (split_on (CHR 0x0A) out)} \<and>
   distinct (parse_test_names E is_lower out) \<and> sorted_by str_compare (parse_test_names E is_lower out)"
proof -
  let ?s = "stable_sort str_compare
      (filter (runnable E is_lower) (map trim_space (split_on (CHR 0x0A) out)))"
  have "sorted_by str_compare ?s"
    by (rule sorted_stable_sort) (use cmp_laws_total [OF cmp_laws_str [of "\<lambda>x. x"]] in simp)
  from distinct_compact [OF this] show ?thesis by (auto simp: parse_test_names_def)
qed

section \<open>External shards\<close>

lemma external_shard_range:
  assumes "1 \<le> shards" and "shards < 2 ^ 63"
  shows "0 \<le> external_shard_for_name pkg name shards \<and> external_shard_for_name pkg name shards < shards"
proof -
  have u: "uint (word_of_int shards :: 64 word) = shards"
    using assms by (simp add: uint_word_of_int take_bit_int_eq_self)
  obtain w :: "64 word" where w: "external_shard_for_name pkg name shards = sint (w mod word_of_int shards)"
    unfolding external_shard_for_name_def by blast
  have "sint (w mod word_of_int shards) = signed_take_bit 63 (uint w mod shards)"
    by (simp add: sint_uint uint_mod u)
  also have "\<dots> = uint w mod shards"
  proof (rule signed_take_bit_int_eq_self)
    have "- (2 ^ 63) \<le> (0::int)" by simp
    also have "0 \<le> uint w mod shards" using assms(1) by simp
    finally show "- (2 ^ 63) \<le> uint w mod shards" .
    have "uint w mod shards < shards" using assms(1) by simp
    then show "uint w mod shards < 2 ^ 63" using assms(2) by linarith
  qed
  finally show ?thesis using assms(1) w by simp
qed

lemma mset_classes:
  "distinct xs \<Longrightarrow> \<forall>n\<in>set names. h n \<in> set xs \<Longrightarrow>
     mset (concat (map (\<lambda>i. filter (\<lambda>n. h n = i) names) xs)) = mset names"
proof (induction xs arbitrary: names)
  case (Cons x xs)
  let ?rest = "filter (\<lambda>n. h n \<noteq> x) names"
  have "mset (concat (map (\<lambda>i. filter (\<lambda>n. h n = i) names) (x # xs))) =
      mset (filter (\<lambda>n. h n = x) names) + mset (concat (map (\<lambda>i. filter (\<lambda>n. h n = i) names) xs))"
    by simp
  also have "map (\<lambda>i. filter (\<lambda>n. h n = i) names) xs = map (\<lambda>i. filter (\<lambda>n. h n = i) ?rest) xs"
    using Cons.prems(1) by (auto simp: filter_filter intro!: filter_cong)
  also have "mset (concat (map (\<lambda>i. filter (\<lambda>n. h n = i) ?rest) xs)) = mset ?rest"
    by (rule Cons.IH) (use Cons.prems in auto)
  also have "mset (filter (\<lambda>n. h n = x) names) + mset ?rest = mset names"
    by (simp add: multiset_partition [symmetric])
  finally show ?case .
qed auto

definition chosen :: "string \<Rightarrow> string list \<Rightarrow> int \<Rightarrow> int \<Rightarrow> string list" where
  "chosen pkg names index shards =
     (if shards = 1 then names else filter (\<lambda>name. external_shard_for_name pkg name shards = index) names)"

lemma select_chosen:
  assumes "1 \<le> shards"
  shows "select_external_shard pkg names index shards = Some (chosen pkg names index shards)"
proof -
  have "0 \<le> go_quo (int (length names)) shards" using assms by (simp add: go_quo_def pos_imp_zdiv_nonneg_iff)
  with assms show ?thesis by (simp add: select_external_shard_def chosen_def)
qed

lemma chosen_all:
  assumes "1 \<le> shards" and "shards < 2 ^ 63"
  shows "mset (concat (map (\<lambda>index. chosen pkg names index shards) [0..shards - 1])) = mset names"
proof (cases "shards = 1")
  case False
  have "mset (concat (map (\<lambda>i. filter (\<lambda>n. external_shard_for_name pkg n shards = i) names) [0..shards - 1])) =
      mset names"
    by (rule mset_classes) (use external_shard_range [OF assms, of pkg] in auto)
  with False show ?thesis by (simp add: chosen_def)
qed (simp add: chosen_def)

section \<open>Jobs\<close>

text \<open>After \<open>i\<close> names group \<open>j\<close> of \<open>k\<close> has \<open>(i + k - 1 - j) div k\<close> of them.\<close>

lemma div_wrapped: "x < k \<Longrightarrow> (k + x) div k = (1::nat)"
  by (simp add: div_add_self1)

definition dealt :: "nat \<Rightarrow> nat \<Rightarrow> string list list \<Rightarrow> bool" where
  "dealt k i groups = (length groups = k \<and> (\<forall>j<k. length (groups ! j) = (i + (k - 1 - j)) div k))"

lemma dealt_share:
  assumes "j < (k::nat)"
  shows "(Suc i + (k - 1 - j)) div k = (i + (k - 1 - j)) div k + (if i mod k = j then 1 else 0)"
proof -
  obtain q r where i: "i = q * k + r" "r < k" by (metis assms gr_zeroI mod_less_divisor div_mult_mod_eq not_less0)
  then have r: "i mod k = r" by simp
  have 1: "(i + (k - 1 - j)) div k = q + (r + (k - 1 - j)) div k" for j
    using assms i by (simp add: add.assoc)
  have 2: "(Suc i + (k - 1 - j)) div k = q + (Suc r + (k - 1 - j)) div k" for j
    using assms i by (simp add: add.assoc flip: add_Suc_right)
  have less: "(r + (k - 1 - j)) div k = (if j < r then 1 else 0)"
  proof (cases "j < r")
    case True
    then have "r + (k - 1 - j) = k + (r - 1 - j)" using i assms by simp
    moreover have "r - 1 - j < k" using i by simp
    ultimately have "(r + (k - 1 - j)) div k = 1" by (simp only: div_wrapped)
    with True show ?thesis by simp
  qed (use assms in simp)
  have le: "(Suc r + (k - 1 - j)) div k = (if j \<le> r then 1 else 0)"
  proof (cases "j \<le> r")
    case True
    then have "Suc r + (k - 1 - j) = k + (r - j)" using assms by simp
    moreover have "r - j < k" using i by simp
    ultimately have "(Suc r + (k - 1 - j)) div k = 1" by (simp only: div_wrapped)
    with True show ?thesis by simp
  qed (use assms in simp)
  show ?thesis unfolding 1 2 less le r by auto
qed

lemma deal_sizes: "0 < k \<Longrightarrow> dealt k i groups \<Longrightarrow> dealt k (i + length names) (deal k i names groups)"
proof (induction k i names groups rule: deal.induct)
  case (2 k i name names groups)
  have "dealt k (Suc i) (groups[i mod k := groups ! (i mod k) @ [name]])"
    using 2(2,3) dealt_share [of _ k i] by (auto simp: dealt_def nth_list_update)
  with 2 show ?case by simp
qed simp

lemma mset_concat_update:
  "j < length groups \<Longrightarrow> mset (concat (groups[j := groups ! j @ xs])) = mset (concat groups) + mset xs"
  by (induction groups arbitrary: j) (auto split: nat.split)

lemma deal_names: "0 < k \<Longrightarrow> length groups = k \<Longrightarrow> mset (concat (deal k i names groups)) = mset (concat groups) + mset names"
  by (induction k i names groups rule: deal.induct) (auto simp: mset_concat_update)

lemma partition_some:
  assumes "0 < workers"
  obtains gs where "partition names workers = Some gs" and "mset (concat gs) = mset names"
    and "names \<noteq> [] \<Longrightarrow> dealt (min (nat workers) (length names)) (length names) gs" and "names = [] \<Longrightarrow> gs = []"
proof (cases "names = []")
  case False
  let ?k = "min (nat workers) (length names)"
  have k: "nat (min workers (int (length names))) = ?k" "0 < ?k"
    using assms False by auto
  have "(?k - 1 - j) div ?k = 0" if "j < ?k" for j using that by (intro div_less) linarith
  then have "dealt ?k 0 (replicate ?k [])" by (simp add: dealt_def)
  from deal_sizes [OF k(2) this, of names]
  have d: "dealt ?k (length names) (deal ?k 0 names (replicate ?k []))" by simp
  have "concat (replicate m []) = []" for m by (induction m) auto
  then have m: "mset (concat (deal ?k 0 names (replicate ?k []))) = mset names"
    using deal_names [OF k(2), of "replicate ?k []" 0 names] by simp
  have "\<not> min workers (int (length names)) \<le> 0" using assms False by (simp add: min_le_iff_disj)
  then have "partition names workers = Some (deal ?k 0 names (replicate ?k []))"
    using False by (simp add: partition_def Let_def k(1) del: min_less_iff_conj)
  from that [OF this m d] False show ?thesis by simp
qed (auto simp: partition_def that)

lemma dealt_bounds:
  assumes "dealt k n groups" and "j < k" and "k \<le> n"
  shows "0 < length (groups ! j)" and "length (groups ! j) \<le> (n + k - 1) div k"
proof -
  have l: "length (groups ! j) = (n + (k - 1 - j)) div k" using assms by (simp add: dealt_def)
  have "k \<le> n + (k - 1 - j)" using assms(3) by simp
  then show "0 < length (groups ! j)" unfolding l using assms(2) by (simp add: div_greater_zero_iff)
  show "length (groups ! j) \<le> (n + k - 1) div k" unfolding l by (rule div_le_mono) (use assms(2) in linarith)
qed

text \<open>The jobs of one external shard.\<close>

definition good_job :: "string \<Rightarrow> int \<Rightarrow> test_job \<Rightarrow> bool" where
  "good_job pkg max_tests job =
     (tj_pkg job = pkg \<and> tj_names job \<noteq> [] \<and> int (length (tj_names job)) \<le> max_tests \<and>
      tj_shard job < tj_shard_count job)"

lemma share_bound:
  assumes "0 < (n::nat)" and "0 < m" and "1 + (n - 1) div m \<le> k"
  shows "(n + k - 1) div k \<le> m"
proof -
  have "n - 1 < m * k"
    using assms by (metis One_nat_def Suc_eq_plus1_left div_less_iff_less_mult less_eq_Suc_le mult.commute)
  then have "n \<le> m * k" using assms(1) by simp
  then have "n + k - 1 < Suc m * k" using assms by simp
  then show ?thesis using assms by (metis div_less_iff_less_mult less_Suc_eq_le less_le_trans zero_less_one trans_less_add1)
qed

lemma make_test_jobs_some:
  assumes "0 < workers" and "0 < max_tests" and "1 \<le> shards"
  obtains jobs where "make_test_jobs pkg names workers max_tests index shards = Some jobs"
    and "mset (concat (map tj_names jobs)) = mset (chosen pkg names index shards)"
    and "list_all (good_job pkg max_tests) jobs"
proof -
  let ?sel = "chosen pkg names index shards"
  let ?g = "if ?sel \<noteq> [] then max workers (1 + go_quo (int (length ?sel) - 1) max_tests) else workers"
  have "0 < ?g" using assms(1) by (simp add: less_max_iff_disj)
  from partition_some [OF this, of ?sel]
  obtain gs where gs: "partition ?sel ?g = Some gs" "mset (concat gs) = mset ?sel"
      "?sel \<noteq> [] \<Longrightarrow> dealt (min (nat ?g) (length ?sel)) (length ?sel) gs" "?sel = [] \<Longrightarrow> gs = []"
    by metis
  let ?jobs = "map (\<lambda>(shard, g). \<lparr>tj_pkg = pkg, tj_shard = shard, tj_shard_count = length gs, tj_names = g\<rparr>)
                 (enumerate 0 gs)"
  have "map tj_names ?jobs = map snd (enumerate 0 gs)" by (simp add: comp_def split_def)
  then have names: "map tj_names ?jobs = gs" by simp
  have "good_job pkg max_tests job" if "job \<in> set ?jobs" for job
  proof -
    from that obtain j where j: "j < length gs" "tj_pkg job = pkg" "tj_names job = gs ! j"
        "tj_shard job = j" "tj_shard_count job = length gs"
      by (auto simp: in_set_enumerate_eq)
    then have ne: "?sel \<noteq> []" using gs(4) by auto
    let ?n = "length ?sel" let ?k = "min (nat ?g) ?n"
    have n: "0 < ?n" using ne by simp
    have d: "dealt ?k ?n gs" by (rule gs(3) [OF ne])
    then have jk: "j < ?k" using j(1) by (simp only: dealt_def)
    note b = dealt_bounds [OF d jk min.cobounded2]
    have "1 + (?n - 1) div nat max_tests \<le> ?k"
    proof -
      have "go_quo (int ?n - 1) max_tests = int ((?n - 1) div nat max_tests)"
        using n assms(2) by (simp add: go_quo_def zdiv_int int_ops(6))
      moreover have "1 + (?n - 1) div nat max_tests \<le> ?n"
        using div_le_dividend [of "?n - 1" "nat max_tests"] n by linarith
      ultimately show ?thesis using n ne by (auto simp: max_def nat_add_distrib)
    qed
    then have "(?n + ?k - 1) div ?k \<le> nat max_tests" using n assms(2) by (intro share_bound) auto
    with b(2) have "length (gs ! j) \<le> nat max_tests" by (rule order_trans)
    then show ?thesis using j b(1) assms(2) by (auto simp: good_job_def)
  qed
  then have "list_all (good_job pkg max_tests) ?jobs" by (simp add: list_all_iff)
  moreover have "make_test_jobs pkg names workers max_tests index shards = Some ?jobs"
    using gs(1) assms(2) by (simp add: make_test_jobs_def select_chosen [OF assms(3)])
  ultimately show ?thesis using that gs(2) names by metis
qed

text \<open>
  C26: the jobs that the external shards of one test set run together name every discovered test
  exactly as often as it was discovered. Every job is for the package, has a test, has at most
  the given number of tests, and no job of any shard panics.
\<close>

lemma every_test_runs_once:
  assumes "0 < workers" and "0 < max_tests" and "1 \<le> shards" and "shards < 2 ^ 63"
  shows "list_all (\<lambda>index. make_test_jobs pkg names workers max_tests index shards \<noteq> None) [0..shards - 1] \<and>
    (let jobs = concat (map (\<lambda>index. the (make_test_jobs pkg names workers max_tests index shards)) [0..shards - 1])
     in mset (concat (map tj_names jobs)) = mset names \<and> list_all (good_job pkg max_tests) jobs)"
proof -
  let ?mk = "\<lambda>index. make_test_jobs pkg names workers max_tests index shards"
  have each: "?mk index \<noteq> None \<and> mset (concat (map tj_names (the (?mk index)))) = mset (chosen pkg names index shards) \<and>
      list_all (good_job pkg max_tests) (the (?mk index))" for index
    by (rule make_test_jobs_some [OF assms(1-3), of pkg names index]) simp
  have "mset (concat (map tj_names (concat (map (\<lambda>index. the (?mk index)) xs)))) =
      mset (concat (map (\<lambda>index. chosen pkg names index shards) xs))" for xs
    using each by (induction xs) auto
  then show ?thesis using each chosen_all [OF assms(3,4)] by (auto simp: list_all_iff Let_def)
qed

lemma every_test_runs_once_witness:
  "(0::int) < 2 \<and> list_all (\<lambda>index. make_test_jobs ''p'' [''TestA'', ''TestB'', ''TestC''] 2 1 index 2 \<noteq> None) [0..2 - 1]"
  using every_test_runs_once [of 2 1 2 "''p''" "[''TestA'', ''TestB'', ''TestC'']"] by simp

section \<open>Attempts\<close>

text \<open>Lines that report a failure of the tests themselves.\<close>

definition reports_failure :: "(string \<Rightarrow> string) \<Rightarrow> string \<Rightarrow> bool" where
  "reports_failure unicode l =
     (let line = trim_space (to_lower unicode l) in
      has_prefix line ''--- fail:'' \<or> has_prefix line ''panic:'' \<or> line = ''warning: data race'')"

lemma scan_no_failure: "crash_scan unicode ls cr \<noteq> None \<Longrightarrow> \<not> list_ex (reports_failure unicode) ls"
proof (induction unicode ls cr rule: crash_scan.induct)
  case (2 unicode l ls cr)
  from "2.prems" have "\<not> reports_failure unicode l"
    by (auto simp: reports_failure_def Let_def)
  moreover have "\<not> list_ex (reports_failure unicode) ls"
    using 2 by (auto simp: Let_def split: if_splits)
  ultimately show ?case by simp
qed simp

lemma retryable_no_failure:
  assumes "retryable_windows_runtime_crash unicode cause goos out err"
  shows "goos = ''windows'' \<and> \<not> list_ex (reports_failure unicode) (split_on (CHR 0x0A) out)"
  using assms scan_no_failure unfolding retryable_windows_runtime_crash_def
  by (auto split: if_splits option.splits)

text \<open>What the result of the loop says about the attempts it made, from attempt \<open>k\<close> on.\<close>

definition clean_retry :: "(string \<Rightarrow> string) \<Rightarrow> string \<Rightarrow> attempt \<Rightarrow> bool" where
  "clean_retry unicode goos a =
     (goos = ''windows'' \<and> at_error a \<noteq> None \<and> \<not> list_ex (reports_failure unicode) (split_on (CHR 0x0A) (at_output a)))"

definition sound_attempts ::
    "(string \<Rightarrow> string) \<Rightarrow> string \<Rightarrow> int \<Rightarrow> (nat \<Rightarrow> int \<Rightarrow> attempt) \<Rightarrow> nat \<Rightarrow> attempt_error list \<Rightarrow> int list \<Rightarrow> bool" where
  "sound_attempts unicode goos timeout run k errs budgets =
     (list_all (\<lambda>b. timeout > 0 \<longrightarrow> 0 < b \<and> b \<le> timeout) budgets \<and>
      list_all (\<lambda>(j, b). clean_retry unicode goos (run j b)) (butlast (enumerate k budgets)) \<and>
      (errs = [] \<longrightarrow> budgets \<noteq> [] \<and>
         (case last (enumerate k budgets) of (j, b) \<Rightarrow> at_error (run j b) = None \<and> at_cause (run j b) = None)))"

lemma sound_first:
  assumes "timeout > 0 \<longrightarrow> 0 < b \<and> b \<le> timeout"
    and "budgets \<noteq> [] \<Longrightarrow> clean_retry unicode goos (run k b)"
    and "errs = [] \<Longrightarrow> budgets = [] \<Longrightarrow> at_error (run k b) = None \<and> at_cause (run k b) = None"
    and "budgets \<noteq> [] \<Longrightarrow> sound_attempts unicode goos timeout run (Suc k) errs budgets"
  shows "sound_attempts unicode goos timeout run k errs (b # budgets)"
  using assms by (cases budgets) (auto simp: sound_attempts_def)

lemma attempt_loop_sound:
  assumes "\<And>a. ck_start ck \<le> ck_before ck a" and "deadline \<le> ck_start ck + timeout"
    and "k + left = Suc windows_runtime_crash_attempts" and "0 < left"
  shows "\<exists>out errs later. attempt_loop unicode goos timeout deadline ck run left k combined budgets =
      Some (out, errs, budgets @ later) \<and> length later \<le> left \<and> sound_attempts unicode goos timeout run k errs later"
  using assms(3,4)
proof (induction left arbitrary: k combined budgets)
  case (Suc left)
  let ?b = "if timeout > 0 then deadline - ck_before ck k else timeout"
  let ?a = "run k ?b"
  have b: "timeout > 0 \<longrightarrow> ?b \<le> timeout" using assms(1) [of k] assms(2) by auto
  consider (expired) "timeout > 0 \<and> ?b \<le> 0"
    | (cause) cause where "\<not> (timeout > 0 \<and> ?b \<le> 0)" "at_cause ?a = Some cause"
    | (final) "\<not> (timeout > 0 \<and> ?b \<le> 0)" "at_cause ?a = None"
        "\<not> retryable_windows_runtime_crash unicode (at_cause_later ?a) goos (at_output ?a) (at_error ?a) \<or>
         k = windows_runtime_crash_attempts"
    | (late) "\<not> (timeout > 0 \<and> ?b \<le> 0)" "at_cause ?a = None"
        "retryable_windows_runtime_crash unicode (at_cause_later ?a) goos (at_output ?a) (at_error ?a)"
        "k \<noteq> windows_runtime_crash_attempts" "timeout > 0 \<and> deadline - ck_after ck k \<le> 0"
    | (retry) "\<not> (timeout > 0 \<and> ?b \<le> 0)" "at_cause ?a = None"
        "retryable_windows_runtime_crash unicode (at_cause_later ?a) goos (at_output ?a) (at_error ?a)"
        "k \<noteq> windows_runtime_crash_attempts" "\<not> (timeout > 0 \<and> deadline - ck_after ck k \<le> 0)"
    by blast
  then show ?case
  proof cases
    case expired
    then have "0 < timeout" "deadline - ck_before ck k \<le> 0" by auto
    then show ?thesis
      by (intro exI [of _ combined] exI [of _ "[Context Deadline_exceeded]"] exI [of _ "[]"])
        (simp add: sound_attempts_def Let_def)
  next
    case (cause cause)
    have "sound_attempts unicode goos timeout run k (process_errors (at_error ?a) @ [Context cause]) [?b]"
      by (rule sound_first) (use cause(1) b in auto)
    with cause show ?thesis
      by (intro exI [of _ "combined @ at_output ?a"] exI [of _ "process_errors (at_error ?a) @ [Context cause]"]
          exI [of _ "[?b]"]) (simp add: Let_def)
  next
    case final
    have "sound_attempts unicode goos timeout run k (process_errors (at_error ?a)) [?b]"
      by (rule sound_first) (use final b in \<open>auto simp: process_errors_def split: option.splits\<close>)
    with final show ?thesis
      by (intro exI [of _ "combined @ at_output ?a"] exI [of _ "process_errors (at_error ?a)"] exI [of _ "[?b]"])
        (simp add: Let_def)
  next
    case late
    have "sound_attempts unicode goos timeout run k [Context Deadline_exceeded] [?b]"
      by (rule sound_first) (use late b in auto)
    with late show ?thesis
      by (intro exI [of _ "combined @ at_output ?a"] exI [of _ "[Context Deadline_exceeded]"] exI [of _ "[?b]"])
        (simp add: Let_def)
  next
    case retry
    have "clean_retry unicode goos ?a"
      using retry(3) retryable_no_failure [OF retry(3)]
      by (auto simp: clean_retry_def retryable_windows_runtime_crash_def split: if_splits)
    moreover have "0 < left" using retry(4) Suc.prems(1) by (cases left) auto
    moreover from Suc.IH [of "Suc k" "combined @ at_output ?a @ retry_line k" "budgets @ [?b]"] Suc.prems(1) this
    obtain out errs later where IH: "attempt_loop unicode goos timeout deadline ck run left (Suc k)
          (combined @ at_output ?a @ retry_line k) (budgets @ [?b]) = Some (out, errs, (budgets @ [?b]) @ later)"
        "length later \<le> left" "sound_attempts unicode goos timeout run (Suc k) errs later" by auto
    moreover have "later \<noteq> [] \<or> errs \<noteq> []" using IH(3) by (auto simp: sound_attempts_def)
    ultimately have "sound_attempts unicode goos timeout run k errs (?b # later)"
      using retry(1) b by (intro sound_first) auto
    with retry IH(1,2) show ?thesis
      by (intro exI [of _ out] exI [of _ errs] exI [of _ "?b # later"]) (auto simp: Let_def)
  qed
qed simp

lemma deadline_bound: "timeout > 0 \<Longrightarrow> budget_deadline start timeout parent \<le> start + timeout"
  by (simp add: budget_deadline_def Let_def split: option.split)

text \<open>
  The attempts at one test process always come to a result (the panic after the loop is
  unreachable). There are at most three, each is given a positive time within the budget that is left, every
  attempt that is followed by another was a crash of the runtime on Windows that printed no failed
  test, panic or data race, and success means that the last attempt succeeded.
\<close>

lemma attempts_bounded:
  assumes "0 < timeout" and "\<And>a. ck_start ck \<le> ck_before ck a"
  shows "\<exists>out errs budgets. run_test_attempts unicode goos timeout parent ck run = Some (out, errs, budgets) \<and>
    length budgets \<le> 3 \<and> sound_attempts unicode goos timeout run 1 errs budgets"
  using attempt_loop_sound [of ck "budget_deadline (ck_start ck) timeout parent" timeout 1
      windows_runtime_crash_attempts unicode goos run "[]" "[]"] deadline_bound [OF assms(1)] assms(2)
  by (simp add: run_test_attempts_def windows_runtime_crash_attempts_def)

lemma attempts_bounded_witness:
  "\<exists>out errs budgets. run_test_attempts (\<lambda>s. s) ''linux'' 10 None
      \<lparr>ck_start = 0, ck_before = (\<lambda>a. int a), ck_after = (\<lambda>a. int a)\<rparr>
      (\<lambda>a b. \<lparr>at_output = [], at_error = None, at_cause = None, at_cause_later = None\<rparr>) = Some (out, errs, budgets) \<and>
    length budgets \<le> 3 \<and>
    sound_attempts (\<lambda>s. s) ''linux'' 10
      (\<lambda>a b. \<lparr>at_output = [], at_error = None, at_cause = None, at_cause_later = None\<rparr>) 1 errs budgets"
  by (rule attempts_bounded) simp_all

section \<open>Discovery\<close>

text \<open>A complete run with one worker and one item.\<close>

lemma one_item_run:
  assumes "outcome 0 r"
  shows "\<exists>s. pool_run halting 1 1 outcome s \<and> pool_done s \<and> pl_interrupted s = False"
proof -
  let ?w = "\<lambda>s w. s\<lparr>pl_workers := {#w#}\<rparr>"
  let ?a = "pool_start 1 1 :: 'a pool"
  let ?b = "?a\<lparr>pl_next := Suc (pl_next ?a), pl_workers := {#Received (pl_next ?a)#}\<rparr>"
  let ?c = "?b\<lparr>pl_workers := {#Working 0#}, pl_calls := pl_calls ?b @ [0]\<rparr>"
  let ?d = "?c\<lparr>pl_closed := True\<rparr>"
  have ab: "pool_step halting 1 outcome ?a ?b" by (rule pool_step.send) (simp_all add: pool_start_def)
  have bc: "pool_step halting 1 outcome ?b ?c" by (rule pool_step.call) (simp_all add: pool_start_def)
  have cd: "pool_step halting 1 outcome ?c ?d" by (rule pool_step.finish) (simp_all add: pool_start_def)
  have "\<exists>e. (pool_step halting 1 outcome)\<^sup>*\<^sup>* ?d e \<and> pool_done e \<and> pl_interrupted e = False"
  proof (cases r)
    case (Inr x)
    let ?e = "?d\<lparr>pl_results := (pl_results ?d)[0 := Some x], pl_workers := {#Idle#}\<rparr>"
    have "pool_step halting 1 outcome ?d ?e"
      by (rule pool_step.succeed) (use assms Inr in simp_all)
    moreover have "pool_step halting 1 outcome ?e (?w ?e Stopped)" by (rule pool_step.leave) simp_all
    moreover have "pool_done (?w ?e Stopped) \<and> pl_interrupted (?w ?e Stopped) = False"
      by (simp add: pool_done_def pool_start_def)
    ultimately show ?thesis by (meson r_into_rtranclp rtranclp_trans)
  next
    case (Inl x)
    let ?e = "?d\<lparr>pl_failures := (pl_failures ?d)[0 := Some x], pl_cancelled := (halting \<or> pl_cancelled ?d),
        pl_workers := {#if halting then Stopped else Idle#}\<rparr>"
    have de: "pool_step halting 1 outcome ?d ?e"
      by (rule pool_step.fail) (use assms Inl in simp_all)
    show ?thesis
    proof (cases halting)
      case True
      with de show ?thesis
        by (intro exI [of _ ?e]) (auto simp: pool_done_def pool_start_def)
    next
      case False
      have "pool_step halting 1 outcome ?e (?w ?e Stopped)" by (rule pool_step.leave) (simp_all add: False)
      moreover have "pool_done (?w ?e Stopped) \<and> pl_interrupted (?w ?e Stopped) = False"
        by (simp add: pool_done_def pool_start_def)
      ultimately show ?thesis using de by (meson r_into_rtranclp rtranclp_trans)
    qed
  qed
  with ab bc cd show ?thesis unfolding pool_run_def by (meson converse_rtranclp_into_rtranclp)
qed

lemma zip_failures:
  assumes "length xs = length ys" and "\<And>i. i < length xs \<Longrightarrow> ys ! i = f (xs ! i)"
  shows "zip xs ys = map (\<lambda>x. (x, f x)) xs"
  by (rule nth_equalityI) (use assms in auto)

lemma no_failures:
  assumes "concat (map (\<lambda>(x, failure). case failure of None \<Rightarrow> [] | Some e \<Rightarrow> [g x e]) (zip xs fs)) = []"
    and "length fs = length xs" and "i < length xs"
  shows "fs ! i = None"
  using assms by (auto simp: set_zip split: option.splits)

lemma discover_result_exact:
  assumes "pool_inv True (length packages) workers (\<lambda>i. listing (packages ! i)) s" and "pool_done s"
  shows "case discover_result packages s of
      Inr names \<Rightarrow> \<not> pl_interrupted s \<and> list_all2 (\<lambda>p ns. listing p (Inr ns)) packages names
    | Inl errs \<Rightarrow> \<exists>failed. errs = map (\<lambda>(p, e). Listing_failed p e) failed @ [Context_ended] \<and>
        (\<forall>(p, e)\<in>set failed. p \<in> set packages \<and> listing p (Inl e)) \<and> (failed = [] \<longrightarrow> pl_interrupted s)"
proof -
  let ?failed = "concat (map (\<lambda>(p, failure). case failure of None \<Rightarrow> [] | Some e \<Rightarrow> [(p, e)])
      (zip packages (pl_failures s)))"
  let ?msgs = "concat (map (\<lambda>(p, failure). case failure of None \<Rightarrow> [] | Some e \<Rightarrow> [Listing_failed p e])
      (zip packages (pl_failures s)))"
  have len: "length (pl_failures s) = length packages" "length (pl_results s) = length packages"
    using assms(1) by (simp_all add: pool_inv_def pool_records_def)
  have msgs: "?msgs = map (\<lambda>(p, e). Listing_failed p e) ?failed"
    by (auto simp: map_concat comp_def intro!: arg_cong [of _ _ concat] split: option.splits)
  have genuine: "\<forall>(p, e)\<in>set ?failed. p \<in> set packages \<and> listing p (Inl e)"
    using assms(1) len by (auto simp: set_zip pool_inv_def pool_records_def split: option.splits)
  show ?thesis
  proof (cases "pl_cancelled s")
    case True
    have "?failed = [] \<longrightarrow> pl_interrupted s"
    proof
      assume "?failed = []"
      then have "pl_failures s ! i = None" if "i < length packages" for i
        using no_failures [of Pair packages "pl_failures s"] len that by simp
      then show "pl_interrupted s" using True assms(1) len by (auto simp: pool_inv_def pool_flags_def)
    qed
    moreover have "discover_result packages s = Inl (map (\<lambda>(p, e). Listing_failed p e) ?failed @ [Context_ended])"
      using True unfolding discover_result_def Let_def msgs by simp
    ultimately show ?thesis using genuine by (simp only: sum.case) blast
  next
    case False
    have none: "pl_failures s ! i = None" if "i < length packages" for i
      using False assms(1) that len by (auto simp: pool_inv_def pool_flags_def)
    then have "?msgs = []" using len by (auto simp: set_zip split: option.splits)
    then have "discover_result packages s = Inr (map (\<lambda>r. case r of None \<Rightarrow> [] | Some names \<Rightarrow> names) (pl_results s))"
      using False by (simp add: discover_result_def)
    moreover have "listing (packages ! i) (Inr (case pl_results s ! i of None \<Rightarrow> [] | Some names \<Rightarrow> names))"
      if "i < length packages" for i
      using done_complete(2) [OF assms False that] none [OF that] assms(1) that
      by (auto simp: recorded_def pool_inv_def pool_records_def)
    moreover have "\<not> pl_interrupted s" using False assms(1) by (simp add: pool_inv_def pool_flags_def)
    ultimately show ?thesis using len by (simp add: list_all2_conv_all_nth)
  qed
qed

text \<open>
  Whatever the schedule, discovery gives for every package what its listing gave, in the order
  of the packages, or it fails; it fails only after a listing failed or the caller's context
  ended, with the errors of listings that did fail, followed by the context's error.
\<close>

lemma discover_exact:
  assumes "discover_tests packages workers listing interrupted res" and "1 \<le> workers"
  shows "case res of
      Inr names \<Rightarrow> \<not> interrupted \<and> list_all2 (\<lambda>p ns. listing p (Inr ns)) packages names
    | Inl errs \<Rightarrow> \<exists>failed. errs = map (\<lambda>(p, e). Listing_failed p e) failed @ [Context_ended] \<and>
        (\<forall>(p, e)\<in>set failed. p \<in> set packages \<and> listing p (Inl e)) \<and> (failed = [] \<longrightarrow> interrupted)"
proof -
  from assms obtain w s where "pool_run True (length packages) w (\<lambda>i. listing (packages ! i)) s" "pool_done s"
      "pl_interrupted s = interrupted" "res = discover_result packages s"
    unfolding discover_tests_def by (auto split: if_splits)
  with discover_result_exact [OF inv_run] show ?thesis by blast
qed

lemma discover_exact_witness:
  "\<exists>res. discover_tests [''p''] 1 (\<lambda>p r. r = Inr [''TestA'']) False res \<and> res = Inr [[''TestA'']]"
proof -
  from one_item_run [of "\<lambda>i r. r = Inr [''TestA'']" "Inr [''TestA'']" True]
  obtain res where "discover_tests [''p''] 1 (\<lambda>p r. r = Inr [''TestA'']) False res"
    unfolding discover_tests_def by auto
  moreover from discover_exact [OF this] have "res = Inr [[''TestA'']]"
    by (cases res) (auto simp: list_all2_Cons1 neq_Nil_conv, blast)
  ultimately show ?thesis by blast
qed

section \<open>Running the jobs\<close>

lemma run_jobs_calls:
  assumes "pool_inv False (length jobs) workers (\<lambda>i. run_job (jobs ! i)) s" and "pool_done s"
    and "\<not> pl_interrupted s"
  shows "mset (pl_calls s) = mset [0..<length jobs]"
  using done_complete(1) [OF assms(1,2) done_without_interrupt [OF assms]] by (simp add: upto_mset_def)

text \<open>
  C28: when it is not interrupted, the runner runs every job exactly once, failures included, and
  its result is none when all jobs succeeded and otherwise the sorted messages of exactly the
  jobs that failed, whatever the schedule.
\<close>

lemma run_jobs_exact:
  assumes "run_jobs jobs workers (\<lambda>job r. r = f job) False calls res"
  shows "mset calls = mset [0..<length jobs] \<and>
    res = (let failures = concat (map (\<lambda>job. case f job of Inl e \<Rightarrow> [job_message job e] | Inr _ \<Rightarrow> []) jobs)
           in if failures = [] then None else Some (stable_sort str_compare failures))"
proof -
  from assms obtain s where s: "pool_inv False (length jobs) workers (\<lambda>i r. r = f (jobs ! i)) s" "pool_done s"
      "\<not> pl_interrupted s" "calls = pl_calls s" "res = run_jobs_result jobs s"
    unfolding run_jobs_def using inv_run by blast
  note open_ = done_without_interrupt [OF s(1-3)]
  have len: "length (pl_failures s) = length jobs" using s(1) by (simp add: pool_inv_def pool_records_def)
  have "pl_failures s ! i = (case f (jobs ! i) of Inl e \<Rightarrow> Some e | Inr _ \<Rightarrow> None)" if "i < length jobs" for i
    using done_complete(2) [OF s(1,2) open_ that] s(1) that
    by (cases "f (jobs ! i)"; cases "pl_failures s ! i"; cases "pl_results s ! i")
      (auto simp: recorded_def pool_inv_def pool_records_def)
  then have z: "zip jobs (pl_failures s) = map (\<lambda>job. (job, case f job of Inl e \<Rightarrow> Some e | Inr _ \<Rightarrow> None)) jobs"
    using len by (intro zip_failures) auto
  have "concat (map (\<lambda>(job, failure). case failure of None \<Rightarrow> [] | Some e \<Rightarrow> [job_message job e])
        (zip jobs (pl_failures s))) =
      concat (map (\<lambda>job. case f job of Inl e \<Rightarrow> [job_message job e] | Inr _ \<Rightarrow> []) jobs)"
    unfolding z by (induction jobs) (auto split: sum.split)
  then have "res = (let failures = concat (map (\<lambda>job. case f job of Inl e \<Rightarrow> [job_message job e] | Inr _ \<Rightarrow> []) jobs)
      in if failures = [] then None else Some (stable_sort str_compare failures))"
    using open_ unfolding s(5) run_jobs_result_def Let_def by simp
  moreover have "mset calls = mset [0..<length jobs]"
    unfolding s(4) by (rule run_jobs_calls [of jobs workers "\<lambda>job r. r = f job"]) (use s in simp_all)
  ultimately show ?thesis by blast
qed

lemma run_jobs_exact_witness:
  "\<exists>calls res. run_jobs [\<lparr>tj_pkg = ''p'', tj_shard = 0, tj_shard_count = 1, tj_names = [''TestA'']\<rparr>] 1
      (\<lambda>job r. r = Inl ''exit status 1'') False calls res \<and> mset calls = {#0#} \<and>
      res = Some [''p shard 1/1: exit status 1'']"
proof -
  let ?job = "\<lparr>tj_pkg = ''p'', tj_shard = 0, tj_shard_count = 1, tj_names = [''TestA'']\<rparr>"
  from one_item_run [of "\<lambda>i r. r = Inl ''exit status 1''" "Inl ''exit status 1''" False]
  obtain calls res where c: "run_jobs [?job] 1 (\<lambda>job r. r = (\<lambda>_. Inl ''exit status 1'') job) False calls res"
    unfolding run_jobs_def by auto
  have "job_message ?job ''exit status 1'' = ''p shard 1/1: exit status 1''"
    by (simp add: job_message_def itoa_nat.simps digit_char_def char_of_eq_iff)
  with run_jobs_exact [OF c] c show ?thesis
    by (intro exI [of _ calls] exI [of _ res]) (simp add: Let_def)
qed

section \<open>Every call returns\<close>

text \<open>
  C27: the goroutines of discovery and of the runner always return. No schedule lets them run
  for ever, and none leaves them waiting for each other: from every state they can reach, the
  call can be completed.
\<close>

lemma goroutines_return:
  assumes "\<And>i. i < n \<Longrightarrow> \<exists>r. outcome i r" and "0 < workers \<or> n = 0"
    and "pool_run halting n workers outcome s"
  shows "wfP (\<lambda>t s. pool_step halting n outcome s t) \<and>
    (\<exists>t. (pool_step halting n outcome)\<^sup>*\<^sup>* s t \<and> pool_done t)"
  using pool_step_wf pool_completes [OF inv_run [OF assms(3)] assms(2,1)] by blast

lemma goroutines_return_witness:
  "\<exists>t. (pool_step True 2 (\<lambda>i r. r = (if i = 0 then Inl ''failed'' else Inr ())))\<^sup>*\<^sup>* (pool_start 2 2) t \<and> pool_done t"
  using goroutines_return [of 2 "\<lambda>i r. r = (if i = 0 then Inl ''failed'' else Inr ())" 2 True "pool_start 2 2"]
  by (simp add: pool_run_def)


end
