(* ===== verification/Go_Ast.thy ===== *)
theory Go_Ast
  imports Facts
begin

text \<open>
  The syntax trees of \<open>go/ast\<close> as the checks see them, and \<open>ast.Inspect\<close>. The constructors are the
  node types the modelled checks distinguish; every other node type is \<open>Other_Node\<close> with its
  children. A node carries its identity (Go compares nodes as pointers), \<open>Pos()\<close> and \<open>End()\<close>.
\<close>

section \<open>Nodes\<close>

datatype at = At (at_ref: nat) (at_pos: int) (at_end: int)

datatype (plugins only: size code) node =
    Ident (meta: at) string
  | BasicLit (meta: at) string string
  | CompositeLit (meta: at) "node option" "node list"
  | FuncLit (meta: at) node node
  | ParenExpr (meta: at) node
  | SelectorExpr (meta: at) node node
  | IndexExpr (meta: at) node node
  | CallExpr (meta: at) node "node list" bool
  | StarExpr (meta: at) node
  | UnaryExpr (meta: at) string node
  | BinaryExpr (meta: at) node string node
  | KeyValueExpr (meta: at) node node
  | ArrayType (meta: at) "node option" node
  | ExprStmt (meta: at) node
  | IncDecStmt (meta: at) node string
  | AssignStmt (meta: at) "node list" string "node list"
  | BlockStmt (meta: at) "node list" int
  | IfStmt (meta: at) "node option" node node "node option"
  | SwitchStmt (meta: at) "node option" "node option" node
  | CaseClause (meta: at) "node list option" "node list" int
  | ForStmt (meta: at) "node option" "node option" "node option" node
  | RangeStmt (meta: at) "node option" "node option" string node node
  | FuncDecl (meta: at) "node option" "node option" node node "node option"
  | File (meta: at) "node option" node "node list"
  | Other_Node (meta: at) string "node list"

definition node_ref :: "node \<Rightarrow> nat" where "node_ref n = at_ref (meta n)"
definition node_pos :: "node \<Rightarrow> int" where "node_pos n = at_pos (meta n)"
definition node_end :: "node \<Rightarrow> int" where "node_end n = at_end (meta n)"

definition opt_list :: "'a option \<Rightarrow> 'a list" where
  "opt_list x = (case x of None \<Rightarrow> [] | Some a \<Rightarrow> [a])"

lemma opt_list_simps [simp]: "opt_list None = []" "opt_list (Some a) = [a]"
  by (simp_all add: opt_list_def)

lemma in_opt_list [simp]: "a \<in> set (opt_list x) \<longleftrightarrow> x = Some a"
  by (cases x) auto

text \<open>The children in the order in which \<open>ast.Walk\<close> visits them.\<close>

fun children :: "node \<Rightarrow> node list" where
  "children (Ident _ _) = []"
| "children (BasicLit _ _ _) = []"
| "children (CompositeLit _ t es) = opt_list t @ es"
| "children (FuncLit _ t b) = [t, b]"
| "children (ParenExpr _ x) = [x]"
| "children (SelectorExpr _ x s) = [x, s]"
| "children (IndexExpr _ x i) = [x, i]"
| "children (CallExpr _ f args _) = f # args"
| "children (StarExpr _ x) = [x]"
| "children (UnaryExpr _ _ x) = [x]"
| "children (BinaryExpr _ x _ y) = [x, y]"
| "children (KeyValueExpr _ k v) = [k, v]"
| "children (ArrayType _ l e) = opt_list l @ [e]"
| "children (ExprStmt _ x) = [x]"
| "children (IncDecStmt _ x _) = [x]"
| "children (AssignStmt _ ls _ rs) = ls @ rs"
| "children (BlockStmt _ ss _) = ss"
| "children (IfStmt _ i c b e) = opt_list i @ [c, b] @ opt_list e"
| "children (SwitchStmt _ i t b) = opt_list i @ opt_list t @ [b]"
| "children (CaseClause _ l ss _) = (case l of None \<Rightarrow> [] | Some es \<Rightarrow> es) @ ss"
| "children (ForStmt _ i c p b) = opt_list i @ opt_list c @ opt_list p @ [b]"
| "children (RangeStmt _ k v _ x b) = opt_list k @ opt_list v @ [x, b]"
| "children (FuncDecl _ d r n t b) = opt_list d @ opt_list r @ [n, t] @ opt_list b"
| "children (File _ d n ds) = opt_list d @ n # ds"
| "children (Other_Node _ _ cs) = cs"

lemma size_child: "c \<in> set (children n) \<Longrightarrow> size c < size n"
  by (cases n) (auto split: option.splits dest!: size_list_estimation' [where f = size, OF _ order_refl])

text \<open>Type assertions such as \<open>n.(*ast.CallExpr)\<close>.\<close>

fun as_ident :: "node \<Rightarrow> string option" where
  "as_ident (Ident _ name) = Some name"
| "as_ident _ = None"

fun as_call :: "node \<Rightarrow> (node \<times> node list \<times> bool) option" where
  "as_call (CallExpr _ f args ellipsis) = Some (f, args, ellipsis)"
| "as_call _ = None"

fun as_index :: "node \<Rightarrow> (node \<times> node) option" where
  "as_index (IndexExpr _ x i) = Some (x, i)"
| "as_index _ = None"

fun as_selector :: "node \<Rightarrow> (node \<times> node) option" where
  "as_selector (SelectorExpr _ x s) = Some (x, s)"
| "as_selector _ = None"

fun as_assign :: "node \<Rightarrow> (node list \<times> string \<times> node list) option" where
  "as_assign (AssignStmt _ ls tok rs) = Some (ls, tok, rs)"
| "as_assign _ = None"

fun as_binary :: "node \<Rightarrow> (node \<times> string \<times> node) option" where
  "as_binary (BinaryExpr _ x tok y) = Some (x, tok, y)"
| "as_binary _ = None"

fun as_composite :: "node \<Rightarrow> (node option \<times> node list) option" where
  "as_composite (CompositeLit _ t es) = Some (t, es)"
| "as_composite _ = None"

fun as_array_type :: "node \<Rightarrow> (node option \<times> node) option" where
  "as_array_type (ArrayType _ l e) = Some (l, e)"
| "as_array_type _ = None"

fun as_if :: "node \<Rightarrow> (node option \<times> node \<times> node \<times> node option) option" where
  "as_if (IfStmt _ i c b e) = Some (i, c, b, e)"
| "as_if _ = None"

fun as_switch :: "node \<Rightarrow> (node option \<times> node option \<times> node) option" where
  "as_switch (SwitchStmt _ i t b) = Some (i, t, b)"
| "as_switch _ = None"

fun as_case :: "node \<Rightarrow> (node list option \<times> node list \<times> int) option" where
  "as_case (CaseClause _ l ss colon) = Some (l, ss, colon)"
| "as_case _ = None"

fun as_block :: "node \<Rightarrow> (node list \<times> int) option" where
  "as_block (BlockStmt _ ss lbrace) = Some (ss, lbrace)"
| "as_block _ = None"

fun is_func_lit :: "node \<Rightarrow> bool" where
  "is_func_lit (FuncLit _ _ _) = True"
| "is_func_lit _ = False"

text \<open>\<open>f.Decls\<close>, and the functions with a body among them.\<close>

fun file_decls :: "node \<Rightarrow> node list" where
  "file_decls (File _ _ _ ds) = ds"
| "file_decls _ = []"

fun func_with_body :: "node \<Rightarrow> (string \<times> node) option" where
  "func_with_body (FuncDecl _ _ _ (Ident _ name) _ (Some body)) = Some (name, body)"
| "func_with_body _ = None"

definition func_bodies :: "node \<Rightarrow> (string \<times> node) list" where
  "func_bodies f = List.map_filter func_with_body (file_decls f)"

section \<open>Traversal\<close>

text \<open>
  \<open>ast.Inspect(root, f)\<close>: the callback gets a node and says whether to descend; after the
  children of a node it gets nil, whose answer is ignored. The state is what the closure
  captures.
\<close>

function inspect :: "(node option \<Rightarrow> 's \<Rightarrow> bool \<times> 's) \<Rightarrow> node \<Rightarrow> 's \<Rightarrow> 's" where
  "inspect f n s =
     (case f (Some n) s of (descend, s1) \<Rightarrow>
        if descend then snd (f None (foldl (\<lambda>s c. inspect f c s) s1 (children n))) else s1)"
  by pat_completeness auto
termination by (relation "measure (\<lambda>(f, n, s). size n)") (auto dest: size_child)

declare inspect.simps [simp del]

text \<open>The nodes in the order of the traversal, each with its ancestors, innermost last.\<close>

function paths :: "node list \<Rightarrow> node \<Rightarrow> (node \<times> node list) list" where
  "paths stack n = (n, stack) # concat (map (paths (stack @ [n])) (children n))"
  by pat_completeness auto
termination by (relation "measure (\<lambda>(stack, n). size n)") (auto dest: size_child)

declare paths.simps [simp del]

function nodes :: "node \<Rightarrow> node list" where
  "nodes n = n # concat (map nodes (children n))"
  by pat_completeness auto
termination by (relation "measure size") (auto dest: size_child)

declare nodes.simps [simp del]

lemma node_induct [case_names node]:
  assumes "\<And>n. (\<And>c. c \<in> set (children n) \<Longrightarrow> P c) \<Longrightarrow> P n"
  shows "P n"
  by (induction n rule: measure_induct_rule [of size]) (use assms size_child in blast)

lemma nodes_paths: "map fst (paths stack n) = nodes n"
proof (induction n arbitrary: stack rule: node_induct)
  case (node n)
  then have "map (\<lambda>c. map fst (paths (stack @ [n]) c)) (children n) = map nodes (children n)" by simp
  from arg_cong [OF this, of concat] show ?case
    by (subst paths.simps, subst nodes.simps) (simp only: list.map map_concat map_map comp_def fst_conv)
qed

lemma foldl_concat: "foldl f s (concat xss) = foldl (foldl f) s xss"
  by (induction xss arbitrary: s) auto

lemma foldl_cong_set: "(\<And>s x. x \<in> set xs \<Longrightarrow> f s x = g s x) \<Longrightarrow> foldl f s xs = foldl g s xs"
  by (rule foldl_cong) auto

section \<open>Callbacks that always descend, and searches\<close>

text \<open>A callback that looks at every node and ignores nil.\<close>

definition each_node :: "(node \<Rightarrow> 's \<Rightarrow> 's) \<Rightarrow> node option \<Rightarrow> 's \<Rightarrow> bool \<times> 's" where
  "each_node g n s = (True, case n of None \<Rightarrow> s | Some m \<Rightarrow> g m s)"

lemma inspect_each: "inspect (each_node g) n s = foldl (\<lambda>s m. g m s) s (nodes n)"
proof (induction n arbitrary: s rule: node_induct)
  case (node n)
  then have "foldl (\<lambda>s c. inspect (each_node g) c s) (g n s) (children n) =
      foldl (\<lambda>s c. foldl (\<lambda>s m. g m s) s (nodes c)) (g n s) (children n)"
    by (rule foldl_cong_set)
  then show ?case
    by (subst inspect.simps, subst nodes.simps)
      (simp add: each_node_def foldl_concat foldl_map)
qed

text \<open>Equation for evaluation: the traversal of a node that is not known is left alone.\<close>

lemma inspect_code [code]:
  "inspect f n s =
     (case meta n of At _ _ _ \<Rightarrow>
        (case f (Some n) s of (descend, s1) \<Rightarrow>
           if descend then snd (f None (foldl (\<lambda>s c. inspect f c s) s1 (children n))) else s1))"
  by (subst inspect.simps) (simp split: at.split)

text \<open>A search that goes on beside what it found, and ends with the flag set.\<close>

definition mark_node :: "(node \<Rightarrow> bool) \<Rightarrow> node option \<Rightarrow> bool \<Rightarrow> bool \<times> bool" where
  "mark_node P n found =
     (case n of None \<Rightarrow> (True, found) | Some m \<Rightarrow> if P m then (False, True) else (True, found))"

lemma inspect_mark_True: "inspect (mark_node P) n True = True"
proof (induction n rule: node_induct)
  case (node n)
  have "foldl (\<lambda>s c. inspect (mark_node P) c s) True cs = True" if "set cs \<subseteq> set (children n)" for cs
    using that by (induction cs) (auto simp: node)
  from this [OF order_refl] show ?case by (subst inspect.simps) (simp add: mark_node_def)
qed

lemma inspect_mark: "inspect (mark_node P) n False = list_ex P (nodes n)"
proof (induction n rule: node_induct)
  case (node n)
  have t: "foldl (\<lambda>s c. inspect (mark_node P) c s) True cs = True" for cs
    by (induction cs) (simp_all add: inspect_mark_True)
  have "foldl (\<lambda>s c. inspect (mark_node P) c s) False cs = list_ex P (concat (map nodes cs))"
    if "set cs \<subseteq> set (children n)" for cs
    using that
  proof (induction cs)
    case (Cons c cs)
    then show ?case by (cases "list_ex P (nodes c)") (auto simp: node t)
  qed simp
  from this [OF order_refl] show ?case
    by (subst inspect.simps, subst nodes.simps) (simp add: mark_node_def)
qed

text \<open>
  A search with a flag: once it is set nothing is visited; \<open>stop\<close> says where the search does not
  go in, and \<open>P\<close> what it looks for.
\<close>

definition search_node :: "(node \<Rightarrow> bool) \<Rightarrow> (node \<Rightarrow> bool) \<Rightarrow> node option \<Rightarrow> bool \<Rightarrow> bool \<times> bool" where
  "search_node stop P n found =
     (if found then (False, found)
      else case n of
        None \<Rightarrow> (True, found)
      | Some m \<Rightarrow> if stop m then (False, found) else if P m then (False, True) else (True, found))"

function visible :: "(node \<Rightarrow> bool) \<Rightarrow> node \<Rightarrow> node list" where
  "visible stop n = (if stop n then [] else n # concat (map (visible stop) (children n)))"
  by pat_completeness auto
termination by (relation "measure (\<lambda>(stop, n). size n)") (auto dest: size_child)

declare visible.simps [simp del]

lemma visible_all: "visible (\<lambda>_. False) n = nodes n"
proof (induction n rule: node_induct)
  case (node n)
  then have "map (visible (\<lambda>_. False)) (children n) = map nodes (children n)" by simp
  from arg_cong [OF this, of concat] show ?case
    by (subst visible.simps, subst nodes.simps) (simp only: if_False)
qed

lemma inspect_found: "inspect (search_node stop P) n True = True"
  by (subst inspect.simps) (simp add: search_node_def)

lemma fold_found: "foldl (\<lambda>s c. inspect (search_node stop P) c s) True cs = True"
  by (induction cs) (simp_all add: inspect_found)

lemma inspect_search: "inspect (search_node stop P) n False = list_ex P (visible stop n)"
proof (induction n rule: node_induct)
  case (node n)
  have "foldl (\<lambda>s c. inspect (search_node stop P) c s) False cs =
      list_ex P (concat (map (visible stop) cs))" if "set cs \<subseteq> set (children n)" for cs
    using that
  proof (induction cs)
    case (Cons c cs)
    then show ?case
      by (cases "list_ex P (visible stop c)") (auto simp: node fold_found)
  qed simp
  from this [OF order_refl] show ?case
    by (subst inspect.simps, subst visible.simps)
      (auto simp: search_node_def split: if_splits)
qed

end
