(* ===== verification/Ast_Util.thy ===== *)
theory Ast_Util
  imports Go_Ast
begin

text \<open>
  The helpers of \<open>internal/astutil/astutil.go\<close> that the checks share: the traversal with the
  stack of ancestors, the questions about enclosing loops, and the names of callees.
\<close>

section \<open>The traversal with a stack\<close>

text \<open>\<open>WithStack\<close>: the closure keeps the stack, pushes a node it descends into and pops on nil.\<close>

definition stack_callback ::
    "(node \<Rightarrow> node list \<Rightarrow> 's \<Rightarrow> bool \<times> 's) \<Rightarrow> node option \<Rightarrow> node list \<times> 's \<Rightarrow> bool \<times> node list \<times> 's" where
  "stack_callback fn n st =
     (case st of (stack, s) \<Rightarrow>
        (case n of
           None \<Rightarrow> (True, (butlast stack, s))
         | Some m \<Rightarrow>
             (case fn m stack s of (descend, s') \<Rightarrow>
                (descend, (if descend then stack @ [m] else stack, s')))))"

definition with_stack :: "(node \<Rightarrow> node list \<Rightarrow> 's \<Rightarrow> bool \<times> 's) \<Rightarrow> node \<Rightarrow> 's \<Rightarrow> 's" where
  "with_stack fn root s = snd (inspect (stack_callback fn) root ([], s))"

text \<open>The same as a recursion that is given the ancestors.\<close>

function walk :: "(node \<Rightarrow> node list \<Rightarrow> 's \<Rightarrow> bool \<times> 's) \<Rightarrow> node list \<Rightarrow> node \<Rightarrow> 's \<Rightarrow> 's" where
  "walk fn stack n s =
     (case fn n stack s of (descend, s1) \<Rightarrow>
        if descend then foldl (\<lambda>s c. walk fn (stack @ [n]) c s) s1 (children n) else s1)"
  by pat_completeness auto
termination by (relation "measure (\<lambda>(fn, stack, n, s). size n)") (auto dest: size_child)

declare walk.simps [simp del]

lemma inspect_stack: "inspect (stack_callback fn) n (stack, s) = (stack, walk fn stack n s)"
proof (induction n arbitrary: stack s rule: node_induct)
  case (node n)
  have f: "foldl (\<lambda>s c. inspect (stack_callback fn) c s) (stack @ [n], s') cs =
      (stack @ [n], foldl (\<lambda>s c. walk fn (stack @ [n]) c s) s' cs)" if "set cs \<subseteq> set (children n)" for cs s'
    using that by (induction cs arbitrary: s') (auto simp: node)
  obtain descend s1 where s1: "fn n stack s = (descend, s1)" by fastforce
  show ?case
    using f [OF order_refl, of s1]
    by (subst inspect.simps, subst walk.simps) (simp add: stack_callback_def s1)
qed

lemma with_stack_walk: "with_stack fn root s = walk fn [] root s"
  by (simp add: with_stack_def inspect_stack)

text \<open>A callback that always descends sees every node with its ancestors.\<close>

lemma walk_each:
  assumes "\<And>n stack s. fst (fn n stack s) = True"
  shows "walk fn stack n s = foldl (\<lambda>s (n, stack). snd (fn n stack s)) s (paths stack n)"
proof (induction n arbitrary: stack s rule: node_induct)
  case (node n)
  obtain s1 where s1: "fn n stack s = (True, s1)" using assms [of n stack s] by (cases "fn n stack s") auto
  have "foldl (\<lambda>s c. walk fn (stack @ [n]) c s) s1 (children n) =
      foldl (\<lambda>s c. foldl (\<lambda>s (n, stack). snd (fn n stack s)) s (paths (stack @ [n]) c)) s1 (children n)"
    by (rule foldl_cong_set) (rule node)
  then show ?case
    by (subst walk.simps, subst paths.simps) (simp add: s1 foldl_concat foldl_map)
qed

section \<open>Loops\<close>

fun loop_body :: "node \<Rightarrow> node option" where
  "loop_body (ForStmt _ _ _ _ b) = Some b"
| "loop_body (RangeStmt _ _ _ _ _ b) = Some b"
| "loop_body _ = None"

fun is_loop :: "node \<Rightarrow> bool" where
  "is_loop (ForStmt _ _ _ _ _) = True"
| "is_loop (RangeStmt _ _ _ _ _ _) = True"
| "is_loop _ = False"

text \<open>\<open>body != nil \&\& stack[i] == ast.Node(body)\<close> for \<open>LoopBody(stack[i-1])\<close>.\<close>

definition enters :: "node \<Rightarrow> node \<Rightarrow> bool" where
  "enters l c = (is_loop l \<and> (case loop_body l of None \<Rightarrow> False | Some b \<Rightarrow> node_ref c = node_ref b))"

text \<open>The loop of \<open>InLoop\<close> at \<open>i - 1\<close>, counting down.\<close>

fun in_loop_from :: "node list \<Rightarrow> nat \<Rightarrow> node option" where
  "in_loop_from stack 0 = None"
| "in_loop_from stack (Suc i) =
     (if is_func_lit (stack ! i) then None
      else if enters (stack ! i) (stack ! Suc i) then Some (stack ! i)
      else in_loop_from stack i)"

definition in_loop :: "node list \<Rightarrow> node option" where
  "in_loop stack = in_loop_from stack (length stack - 1)"

fun boundary_from :: "node list \<Rightarrow> nat \<Rightarrow> nat" where
  "boundary_from stack 0 = 0"
| "boundary_from stack (Suc i) = (if is_func_lit (stack ! i) then Suc i else boundary_from stack i)"

fun first_entered :: "node list \<Rightarrow> node option" where
  "first_entered (l # c # cs) = (if enters l c then Some l else first_entered (c # cs))"
| "first_entered _ = None"

definition outermost_loop :: "node list \<Rightarrow> node option" where
  "outermost_loop stack = first_entered (drop (boundary_from stack (length stack)) stack)"

section \<open>Callees\<close>

definition callee_name :: "node \<Rightarrow> string" where
  "callee_name f =
     (case as_ident f of
        Some name \<Rightarrow> name
      | None \<Rightarrow>
          (case as_selector f of
             Some (_, sel) \<Rightarrow> (case as_ident sel of Some name \<Rightarrow> name | None \<Rightarrow> [])
           | None \<Rightarrow> []))"

lemma callee_name_simps [simp]:
  "callee_name (Ident a name) = name" "callee_name (SelectorExpr b x (Ident a name)) = name"
  by (simp_all add: callee_name_def)

text \<open>
  What the checks ask \<open>go/types\<close>. Two objects are the same object when they are equal: each kind
  that has an identity carries it. A function has its name, the path of its package and whether its
  signature has a receiver; a constant, whether it belongs to the package of the pass and whether
  its scope is that of the package; a variable, the same after whether it is a field.
\<close>

datatype go_object =
    Pkg_Name nat string
  | Func_Obj nat string "string option" bool
  | Const_Obj nat bool bool
  | Var_Obj nat bool bool bool
  | Builtin_Obj string
  | Nil_Obj
  | Other_Obj nat

datatype go_type = Basic bool | Map_Type go_type go_type | Named string go_type | Other_Type

fun underlying :: "go_type \<Rightarrow> go_type" where
  "underlying (Named _ t) = underlying t"
| "underlying t = t"

datatype const_value = Const_String string | Const_Int int | Other_Const

text \<open>
  The maps \<open>Uses\<close>, \<open>Defs\<close> and \<open>Selections\<close> (is it a field value, is it indirect), the type
  \<open>TypeOf\<close> gives and a number for its class under \<open>types.Identical\<close>, whether an expression is a
  type, and its constant value.
\<close>

record type_info =
  ti_uses :: "node \<Rightarrow> go_object option"
  ti_defs :: "node \<Rightarrow> go_object option"
  ti_selection :: "node \<Rightarrow> (bool \<times> bool) option"
  ti_type :: "node \<Rightarrow> go_type option"
  ti_identity :: "node \<Rightarrow> nat option"
  ti_is_type :: "node \<Rightarrow> bool"
  ti_value :: "node \<Rightarrow> const_value option"

text \<open>The path of the package an identifier names, when it resolves to a \<open>*types.PkgName\<close>.\<close>

definition imported_path :: "type_info \<Rightarrow> node \<Rightarrow> string option" where
  "imported_path ti x = (case ti_uses ti x of Some (Pkg_Name _ path) \<Rightarrow> Some path | _ \<Rightarrow> None)"

text \<open>A nil set matches any name.\<close>

definition pkg_func_call :: "type_info \<Rightarrow> node \<Rightarrow> string \<Rightarrow> string set option \<Rightarrow> string option" where
  "pkg_func_call ti f pkg names =
     (case as_selector f of
        None \<Rightarrow> None
      | Some (x, sel) \<Rightarrow>
          if as_ident x = None then None
          else
            (case imported_path ti x of
               None \<Rightarrow> None
             | Some path \<Rightarrow>
                 if path \<noteq> pkg then None
                 else
                   let name = (case as_ident sel of Some name \<Rightarrow> name | None \<Rightarrow> []) in
                   if names = None \<or> name \<in> the names then Some name else None))"

section \<open>What being in a loop means\<close>

text \<open>
  \<open>l\<close> is the innermost loop whose body holds the end of the stack, and no function literal lies
  between.
\<close>

definition innermost :: "node list \<Rightarrow> node \<Rightarrow> bool" where
  "innermost stack l =
     (\<exists>as b bs. stack = as @ l # b # bs \<and> enters l b \<and>
        \<not> list_ex is_func_lit (butlast (l # b # bs)) \<and> first_entered (b # bs) = None)"

end
