(* ===== verification/Checks_Access.thy ===== *)
theory Checks_Access
  imports Ast_Util Config
begin

text \<open>
  The checks of element access, PS1001 to PS1005 and PS1009 (\<open>checks/ps1001.go\<close> and so on, with
  \<open>checks/ps1common.go\<close>), and the search helpers they use. A check gives its diagnostics in the order in which it reports
  them. Loops that follow the map of parents give \<open>None\<close> when they would not end.
\<close>

section \<open>Reports\<close>

record check_pass =
  cp_files :: "node list"
  cp_info :: type_info
  cp_sets :: sets

definition diag :: "int \<Rightarrow> int \<Rightarrow> string \<Rightarrow> diagnostic" where
  "diag p e msg = \<lparr>dg_pos = p, dg_end = e, dg_message = msg, dg_fixes = []\<rparr>"

definition report_node :: "node \<Rightarrow> string \<Rightarrow> diagnostic" where
  "report_node n msg = diag (node_pos n) (node_end n) msg"

text \<open>The UTF-8 encodings of the dash and the ellipsis of the messages.\<close>

definition em_dash :: string where "em_dash = [CHR 0xE2, CHR 0x80, CHR 0x94]"

text \<open>Loops over the files, and over the functions with a body.\<close>

definition over_files :: "check_pass \<Rightarrow> (node \<Rightarrow> 's \<Rightarrow> 's) \<Rightarrow> 's \<Rightarrow> 's" where
  "over_files cp g s = foldl (\<lambda>s f. g f s) s (cp_files cp)"

definition over_functions :: "check_pass \<Rightarrow> (string \<Rightarrow> node \<Rightarrow> 's \<Rightarrow> 's) \<Rightarrow> 's \<Rightarrow> 's" where
  "over_functions cp g s =
     over_files cp (\<lambda>f s. foldl (\<lambda>s (name, body). g name body s) s (func_bodies f)) s"

text \<open>Calls of a name from a set: the early-exit search and the one that goes on.\<close>

definition calls_any :: "string set \<Rightarrow> node \<Rightarrow> bool" where
  "calls_any names n = (case as_call n of None \<Rightarrow> False | Some (f, args, _) \<Rightarrow> callee_name f \<in> names)"

definition expr_calls_any_of :: "node \<Rightarrow> string set \<Rightarrow> bool" where
  "expr_calls_any_of e names = inspect (mark_node (calls_any names)) e False"

definition calls_fan_out :: "node \<Rightarrow> string set \<Rightarrow> bool" where
  "calls_fan_out n fanout = inspect (search_node (\<lambda>_. False) (calls_any fanout)) n False"

section \<open>Facts about one function\<close>

record func_facts =
  ff_has_flat :: bool
  ff_numel_idents :: "string set"
  ff_per_elem_loop :: "nat \<Rightarrow> bool"
  ff_parent :: "nat \<Rightarrow> node option"

text \<open>One pair of the right and left sides of an assignment.\<close>

definition numel_pair :: "sets \<Rightarrow> node \<times> node \<Rightarrow> string set \<Rightarrow> string set" where
  "numel_pair ns p idents =
     (case p of (lhs, rhs) \<Rightarrow>
        (case as_ident lhs of
           None \<Rightarrow> idents
         | Some name \<Rightarrow>
             let idents = (case as_call rhs of
                     None \<Rightarrow> idents
                   | Some (f, _, _) \<Rightarrow>
                       if callee_name f \<in> set_element_count_methods ns then insert name idents else idents)
             in (case as_index rhs of
                   None \<Rightarrow> idents
                 | Some (x, _) \<Rightarrow>
                     (case as_call x of
                        None \<Rightarrow> idents
                      | Some (f, _, _) \<Rightarrow>
                          if callee_name f \<in> set_shape_methods ns then insert name idents else idents))))"

definition facts_callback ::
    "sets \<Rightarrow> node option \<Rightarrow> node list \<times> func_facts \<Rightarrow> bool \<times> node list \<times> func_facts" where
  "facts_callback ns n st =
     (case st of (stack, ff) \<Rightarrow>
        (case n of
           None \<Rightarrow> (True, (butlast stack, ff))
         | Some m \<Rightarrow>
             let ff = (if stack \<noteq> [] then ff\<lparr>ff_parent := (ff_parent ff)(node_ref m := Some (last stack))\<rparr> else ff);
                 ff = (case m of
                     CallExpr _ f _ _ \<Rightarrow>
                       if callee_name f \<in> set_fast_path_helpers ns then ff\<lparr>ff_has_flat := True\<rparr> else ff
                   | AssignStmt _ ls _ rs \<Rightarrow>
                       ff\<lparr>ff_numel_idents := foldl (\<lambda>s p. numel_pair ns p s) (ff_numel_idents ff) (zip ls rs)\<rparr>
                   | _ \<Rightarrow> ff)
             in (True, (stack @ [m], ff))))"

fun is_loop_or_lit :: "node \<Rightarrow> bool" where
  "is_loop_or_lit n = (is_loop n \<or> is_func_lit n)"

definition directly_has_unravel :: "node \<Rightarrow> sets \<Rightarrow> bool" where
  "directly_has_unravel body ns =
     inspect (search_node is_loop_or_lit (calls_any (set_index_decompose_funcs ns))) body False"

definition is_numel_range :: "node \<Rightarrow> string set \<Rightarrow> sets \<Rightarrow> bool" where
  "is_numel_range x idents ns =
     (case x of
        CallExpr _ f _ _ \<Rightarrow> callee_name f \<in> set_element_count_methods ns
      | Ident _ name \<Rightarrow> name \<in> idents
      | _ \<Rightarrow> False)"

definition is_numel_for_cond :: "node option \<Rightarrow> string set \<Rightarrow> sets \<Rightarrow> bool" where
  "is_numel_for_cond cond idents ns =
     (case cond of
        Some (BinaryExpr _ x _ y) \<Rightarrow> list_ex (\<lambda>side. is_numel_range side idents ns) [x, y]
      | _ \<Rightarrow> False)"

definition per_elem_node :: "sets \<Rightarrow> node \<Rightarrow> func_facts \<Rightarrow> func_facts" where
  "per_elem_node ns n ff =
     (case n of
        RangeStmt _ _ _ _ x body \<Rightarrow>
          ff\<lparr>ff_per_elem_loop := (ff_per_elem_loop ff)(node_ref n :=
            is_numel_range x (ff_numel_idents ff) ns \<or> directly_has_unravel body ns)\<rparr>
      | ForStmt _ _ cond _ body \<Rightarrow>
          ff\<lparr>ff_per_elem_loop := (ff_per_elem_loop ff)(node_ref n :=
            is_numel_for_cond cond (ff_numel_idents ff) ns \<or> directly_has_unravel body ns)\<rparr>
      | _ \<Rightarrow> ff)"

definition collect_func_facts :: "node \<Rightarrow> sets \<Rightarrow> func_facts" where
  "collect_func_facts body ns =
     (let ff = snd (inspect (facts_callback ns) body ([],
            \<lparr>ff_has_flat = False, ff_numel_idents = {}, ff_per_elem_loop = (\<lambda>_. False), ff_parent = (\<lambda>_. None)\<rparr>))
      in inspect (each_node (per_elem_node ns)) body ff)"

text \<open>The loops \<open>for p := parent[n]; p != nil; p = parent[p]\<close>.\<close>

partial_function (option) nearest_loop :: "(nat \<Rightarrow> node option) \<Rightarrow> node \<Rightarrow> node option option" where
  "nearest_loop parent n =
     (case parent (node_ref n) of
        None \<Rightarrow> Some None
      | Some p \<Rightarrow> if is_loop p then Some (Some p) else nearest_loop parent p)"

partial_function (option) any_ancestor_per_elem ::
    "(nat \<Rightarrow> node option) \<Rightarrow> (nat \<Rightarrow> bool) \<Rightarrow> node \<Rightarrow> bool option" where
  "any_ancestor_per_elem parent per_elem n =
     (case parent (node_ref n) of
        None \<Rightarrow> Some False
      | Some p \<Rightarrow> if per_elem (node_ref p) then Some True else any_ancestor_per_elem parent per_elem p)"

definition var_name :: "node option \<Rightarrow> string set" where
  "var_name e =
     (case e of
        Some (Ident _ name) \<Rightarrow> if name \<noteq> ''_'' then {name} else {}
      | _ \<Rightarrow> {})"

definition loop_vars :: "node \<Rightarrow> string set \<Rightarrow> string set" where
  "loop_vars p vars =
     (case p of
        RangeStmt _ key val _ _ _ \<Rightarrow> vars \<union> var_name key \<union> var_name val
      | ForStmt _ (Some (AssignStmt _ ls _ _)) _ _ _ \<Rightarrow> foldl (\<lambda>vars lhs. vars \<union> var_name (Some lhs)) vars ls
      | _ \<Rightarrow> vars)"

partial_function (option) loop_vars_from ::
    "(nat \<Rightarrow> node option) \<Rightarrow> node \<Rightarrow> string set \<Rightarrow> string set option" where
  "loop_vars_from parent n vars =
     (case parent (node_ref n) of
        None \<Rightarrow> Some vars
      | Some p \<Rightarrow> loop_vars_from parent p (loop_vars p vars))"

definition enclosing_loop_vars :: "(nat \<Rightarrow> node option) \<Rightarrow> node \<Rightarrow> string set option" where
  "enclosing_loop_vars parent n = loop_vars_from parent n {}"

section \<open>PS1001\<close>

definition message_ps1001 :: "string \<Rightarrow> string \<Rightarrow> string" where
  "message_ps1001 name fn =
     ''per-element .'' @ name @ '' in an element-count/index loop with no configured typed bulk accessor in '' @ fn @
     ''(); walk the backing slice directly for the contiguous case, keeping this form as the strided fallback''"

text \<open>The state: the loops reported so far, by identity, and the diagnostics.\<close>

definition ps1001_node ::
    "sets \<Rightarrow> string \<Rightarrow> func_facts \<Rightarrow> node \<Rightarrow> (nat set \<times> diagnostic list) option \<Rightarrow> (nat set \<times> diagnostic list) option" where
  "ps1001_node ns fn ff n st =
     (case as_call n of
        None \<Rightarrow> st
      | Some (f, _, _) \<Rightarrow>
          let name = callee_name f in
          if name \<notin> set_element_accessors ns then st
          else
            Option.bind st (\<lambda>(reported, out).
              Option.bind (nearest_loop (ff_parent ff) n) (\<lambda>loop.
                case loop of
                  None \<Rightarrow> st
                | Some l \<Rightarrow>
                    if node_ref l \<in> reported then st
                    else
                      Option.bind (any_ancestor_per_elem (ff_parent ff) (ff_per_elem_loop ff) n) (\<lambda>hit.
                        if \<not> hit then st
                        else Some (insert (node_ref l) reported, out @ [report_node n (message_ps1001 name fn)])))))"

definition run_ps1001 :: "check_pass \<Rightarrow> diagnostic list option" where
  "run_ps1001 cp =
     (let ns = cp_sets cp in
      if set_element_accessors ns = {} \<or> set_element_count_methods ns = {} \<and> set_index_decompose_funcs ns = {}
      then Some []
      else over_functions cp (\<lambda>fn body st.
        let ff = collect_func_facts body ns in
        if ff_has_flat ff then st
        else Option.bind st (\<lambda>out.
          map_option snd (inspect (each_node (ps1001_node ns fn ff)) body (Some ({}, out))))) (Some []))"

section \<open>PS1002\<close>

definition message_ps1002 :: "string \<Rightarrow> string" where
  "message_ps1002 name =
     ''per-element visitor '' @ name @ '' is fed a closure '' @ em_dash @
     '' an indirect call per element; use a typed bulk loop over the backing slice for the hot dtype''"

definition ps1002_node :: "string set \<Rightarrow> node \<Rightarrow> diagnostic list \<Rightarrow> diagnostic list" where
  "ps1002_node visitors n out =
     (case as_call n of
        None \<Rightarrow> out
      | Some (f, args, _) \<Rightarrow>
          let name = callee_name f in
          if name \<notin> visitors then out
          else if \<not> list_ex is_func_lit args then out
          else out @ [report_node n (message_ps1002 name)])"

definition run_ps1002 :: "check_pass \<Rightarrow> diagnostic list" where
  "run_ps1002 cp =
     (let visitors = set_per_element_visitors (cp_sets cp) in
      if visitors = {} then []
      else over_files cp (\<lambda>f out. inspect (each_node (ps1002_node visitors)) f out) [])"

section \<open>PS1003\<close>

definition is_single_elt_nested_slice_lit :: "node \<Rightarrow> bool" where
  "is_single_elt_nested_slice_lit e =
     (case as_composite e of
        None \<Rightarrow> False
      | Some (t, es) \<Rightarrow>
          if length es \<noteq> 1 then False
          else case Option.bind t as_array_type of
            Some (None, elt) \<Rightarrow> as_array_type elt \<noteq> None
          | _ \<Rightarrow> False)"

definition message_ps1003 :: "string \<Rightarrow> string" where
  "message_ps1003 name =
     ''batch API '' @ name @ '' called with a single-element slice literal in a loop; batch the items once outside the loop or use a single-item API''"

text \<open>A \<open>WithStack\<close> callback that always descends.\<close>

definition each_stacked ::
    "(node \<Rightarrow> node list \<Rightarrow> 's \<Rightarrow> 's) \<Rightarrow> node \<Rightarrow> node list \<Rightarrow> 's \<Rightarrow> bool \<times> 's" where
  "each_stacked g n stack s = (True, g n stack s)"

definition ps1003_node :: "node \<Rightarrow> node list \<Rightarrow> diagnostic list \<Rightarrow> diagnostic list" where
  "ps1003_node n stack out =
     (case as_call n of
        None \<Rightarrow> out
      | Some (f, args, _) \<Rightarrow>
          if \<not> list_ex is_single_elt_nested_slice_lit args then out
          else if in_loop stack = None then out
          else out @ [report_node n (message_ps1003 (callee_name f))])"

definition run_ps1003 :: "check_pass \<Rightarrow> diagnostic list" where
  "run_ps1003 cp = over_files cp (\<lambda>f out. with_stack (each_stacked ps1003_node) f out) []"

section \<open>PS1004\<close>

definition message_ps1004 :: "string \<Rightarrow> string" where
  "message_ps1004 name =
     ''.'' @ name @ ''(idx...) rebuilds the flat offset and bounds-checks every dimension per call; carry the flat offset instead''"

definition ps1004_node ::
    "sets \<Rightarrow> func_facts \<Rightarrow> node \<Rightarrow> node list \<Rightarrow> diagnostic list option \<Rightarrow> diagnostic list option" where
  "ps1004_node ns ff n stack st =
     (case as_call n of
        None \<Rightarrow> st
      | Some (f, _, ellipsis) \<Rightarrow>
          if \<not> ellipsis then st
          else
            let name = callee_name f in
            if name \<notin> set_element_accessors ns then st
            else if in_loop stack = None then st
            else
              Option.bind st (\<lambda>out.
                Option.bind (any_ancestor_per_elem (ff_parent ff) (ff_per_elem_loop ff) n) (\<lambda>hit.
                  if hit then st else Some (out @ [report_node n (message_ps1004 name)]))))"

definition run_ps1004 :: "check_pass \<Rightarrow> diagnostic list option" where
  "run_ps1004 cp =
     (let ns = cp_sets cp in
      if set_element_accessors ns = {} then Some []
      else over_functions cp (\<lambda>fn body st.
        let ff = collect_func_facts body ns in with_stack (each_stacked (ps1004_node ns ff)) body st) (Some []))"

section \<open>PS1005\<close>

definition message_ps1005 :: "string \<Rightarrow> nat \<Rightarrow> string" where
  "message_ps1005 name k =
     ''.'' @ name @ '' with '' @ itoa_nat k @ '' enclosing-loop index args is a manual tensor walk paying a dispatch per element; with a constructor-pinned dtype, take the typed storage once and index it (dual path + bit-identity tests needed otherwise)''"

definition index_args :: "string set \<Rightarrow> node list \<Rightarrow> nat" where
  "index_args vars args =
     length (filter (\<lambda>a. case as_ident a of None \<Rightarrow> False | Some name \<Rightarrow> name \<in> vars) args)"

definition ps1005_node ::
    "sets \<Rightarrow> func_facts \<Rightarrow> node \<Rightarrow> (nat set \<times> diagnostic list) option \<Rightarrow> (nat set \<times> diagnostic list) option" where
  "ps1005_node ns ff n st =
     (case as_call n of
        None \<Rightarrow> st
      | Some (f, args, _) \<Rightarrow>
          let name = callee_name f in
          if name \<notin> set_element_accessors ns then st
          else
            Option.bind st (\<lambda>(reported, out).
              Option.bind (any_ancestor_per_elem (ff_parent ff) (ff_per_elem_loop ff) n) (\<lambda>hit.
                if hit then st
                else
                  Option.bind (enclosing_loop_vars (ff_parent ff) n) (\<lambda>vars.
                    if vars = {} then st
                    else
                      let k = index_args vars args in
                      if k < 2 then st
                      else
                        Option.bind (nearest_loop (ff_parent ff) n) (\<lambda>loop.
                          case loop of
                            None \<Rightarrow> st
                          | Some l \<Rightarrow>
                              if node_ref l \<in> reported then st
                              else Some (insert (node_ref l) reported,
                                out @ [report_node n (message_ps1005 name k)]))))))"

definition run_ps1005 :: "check_pass \<Rightarrow> diagnostic list option" where
  "run_ps1005 cp =
     (let ns = cp_sets cp in
      if set_element_accessors ns = {} then Some []
      else over_functions cp (\<lambda>fn body st.
        let ff = collect_func_facts body ns in
        Option.bind st (\<lambda>out.
          map_option snd (inspect (each_node (ps1005_node ns ff)) body (Some ({}, out))))) (Some []))"

section \<open>PS1009\<close>

text \<open>What the calls in one clause are: a typed accessor, and the name of the last element accessor.\<close>

definition clause_node :: "sets \<Rightarrow> node \<Rightarrow> bool \<times> string \<Rightarrow> bool \<times> string" where
  "clause_node ns m st =
     (case as_call m of
        None \<Rightarrow> st
      | Some (f, _, _) \<Rightarrow>
          let name = callee_name f in
          (fst st \<or> name \<in> set_fast_path_helpers ns,
           if name \<in> set_element_accessors ns then name else snd st))"

definition classify_clause :: "sets \<Rightarrow> node list \<Rightarrow> bool \<times> string" where
  "classify_clause ns body = foldl (\<lambda>st s. inspect (each_node (clause_node ns)) s st) (False, []) body"

text \<open>The loop over the clauses: whether one was typed, and the named clauses on the accessor.\<close>

fun classify_clauses ::
    "sets \<Rightarrow> node list \<Rightarrow> bool \<times> (node \<times> int \<times> string) list \<Rightarrow> bool \<times> (node \<times> int \<times> string) list" where
  "classify_clauses ns [] st = st"
| "classify_clauses ns (s # ss) (any_typed, named) =
     (case as_case s of
        None \<Rightarrow> classify_clauses ns ss (any_typed, named)
      | Some (l, body, colon) \<Rightarrow>
          let (typed, accessor) = classify_clause ns body in
          classify_clauses ns ss (any_typed \<or> typed,
            if accessor \<noteq> [] \<and> \<not> typed \<and> l \<noteq> None then named @ [(s, colon, accessor)] else named))"

definition message_ps1009 :: "string \<Rightarrow> string" where
  "message_ps1009 name =
     ''this named dtype case walks .'' @ name @ '' while a sibling case takes typed storage '' @ em_dash @
     '' the listed dtype routes through per-element dispatch; add its typed arm (widening-exact for narrower floats), confirming with a planted panic which dtype the workload takes''"

definition block_list :: "node \<Rightarrow> node list" where
  "block_list b = (case as_block b of None \<Rightarrow> [] | Some (ss, _) \<Rightarrow> ss)"

definition ps1009_node :: "sets \<Rightarrow> node \<Rightarrow> diagnostic list \<Rightarrow> diagnostic list" where
  "ps1009_node ns n out =
     (case as_switch n of
        Some (_, Some tag, body) \<Rightarrow>
          if \<not> expr_calls_any_of tag (set_dtype_methods ns) then out
          else
            let (any_typed, named) = classify_clauses ns (block_list body) (False, []) in
            if \<not> any_typed then out
            else out @ map (\<lambda>(c, colon, name). diag (node_pos c) colon (message_ps1009 name)) named
      | _ \<Rightarrow> out)"

definition run_ps1009 :: "check_pass \<Rightarrow> diagnostic list" where
  "run_ps1009 cp =
     (let ns = cp_sets cp in
      if set_element_accessors ns = {} \<or> set_fast_path_helpers ns = {} \<or> set_dtype_methods ns = {} then []
      else over_files cp (\<lambda>f out. inspect (each_node (ps1009_node ns)) f out) [])"

end
