(* ===== verification/Checks_Loops.thy ===== *)
theory Checks_Loops
  imports Checks_Access
begin

text \<open>
  Checks of single calls and statements, mostly inside loops: PS2001, PS2131, PS2133, PS3001, PS3003,
  PS4002 and PS6004 (\<open>checks/ps2001.go\<close> and so on).
\<close>

section \<open>PS2001\<close>

definition message_ps2001 :: "string \<Rightarrow> string" where
  "message_ps2001 name =
     ''allocator '' @ name @ '' called inside a loop allocates every iteration; hoist and reuse the buffer or take scratch from a pool''"

definition ps2001_node :: "string set \<Rightarrow> node \<Rightarrow> node list \<Rightarrow> diagnostic list \<Rightarrow> diagnostic list" where
  "ps2001_node allocators n stack out =
     (case as_call n of
        None \<Rightarrow> out
      | Some (f, _, _) \<Rightarrow>
          let name = callee_name f in
          if name \<notin> allocators then out
          else if in_loop stack = None then out
          else out @ [report_node n (message_ps2001 name)])"

definition run_ps2001 :: "check_pass \<Rightarrow> diagnostic list" where
  "run_ps2001 cp =
     (let allocators = set_allocator_funcs (cp_sets cp) in
      if allocators = {} then []
      else over_files cp (\<lambda>f out. with_stack (each_stacked (ps2001_node allocators)) f out) [])"

section \<open>PS2131\<close>

definition regexp_match_funcs :: "string set" where
  "regexp_match_funcs = {''MatchString'', ''Match'', ''MatchReader''}"

definition message_ps2131 :: "string \<Rightarrow> string" where
  "message_ps2131 name =
     ''regexp.'' @ name @ '' with a constant pattern recompiles the regexp on every call (~17x slower, dozens of allocations); hoist `var re = regexp.MustCompile(pattern)` to package scope and reuse re.'' @ name @
     '' '' @ em_dash @ '' advisory: the (bool, error) return collapses to the reused-regexp form, so it is not applied automatically''"

definition ps2131_node :: "type_info \<Rightarrow> node \<Rightarrow> diagnostic list \<Rightarrow> diagnostic list" where
  "ps2131_node ti n out =
     (case as_call n of
        Some (f, [pattern, _], _) \<Rightarrow>
          (case pkg_func_call ti f ''regexp'' (Some regexp_match_funcs) of
             None \<Rightarrow> out
           | Some name \<Rightarrow>
               (case ti_value ti pattern of
                  Some (Const_String _) \<Rightarrow> out @ [report_node n (message_ps2131 name)]
                | _ \<Rightarrow> out))
      | _ \<Rightarrow> out)"

definition run_ps2131 :: "check_pass \<Rightarrow> diagnostic list" where
  "run_ps2131 cp = over_files cp (\<lambda>f out. inspect (each_node (ps2131_node (cp_info cp))) f out) []"

section \<open>PS2133\<close>

definition time_load_location_fast_paths :: "string set" where
  "time_load_location_fast_paths = {[], ''UTC'', ''Local''}"

definition message_ps2133 :: string where
  "message_ps2133 =
     ''time.LoadLocation with a constant zone name re-reads and parses the tzdata on every call (~18'' @ [CHR 0xC2, CHR 0xB5] @
     ''s, ~8.6KB, 13 allocations); load it once into a package-level var (`var loc, _ = time.LoadLocation(name)`) and reuse it '' @ em_dash @
     '' advisory: the (*Location, error) return and a package var are a human-placed restructuring, so it is not applied automatically''"

fun is_func_node :: "node \<Rightarrow> bool" where
  "is_func_node (FuncDecl _ _ _ _ _ _) = True"
| "is_func_node (FuncLit _ _ _) = True"
| "is_func_node _ = False"

definition ps2133_node :: "type_info \<Rightarrow> node \<Rightarrow> node list \<Rightarrow> diagnostic list \<Rightarrow> diagnostic list" where
  "ps2133_node ti n stack out =
     (case as_call n of
        Some (f, [zone], _) \<Rightarrow>
          if pkg_func_call ti f ''time'' (Some {''LoadLocation''}) = None then out
          else
            (case ti_value ti zone of
               Some (Const_String z) \<Rightarrow>
                 if z \<in> time_load_location_fast_paths then out
                 else if \<not> list_ex is_func_node stack then out
                 else out @ [report_node n message_ps2133]
             | _ \<Rightarrow> out)
      | _ \<Rightarrow> out)"

definition run_ps2133 :: "check_pass \<Rightarrow> diagnostic list" where
  "run_ps2133 cp = over_files cp (\<lambda>f out. with_stack (each_stacked (ps2133_node (cp_info cp))) f out) []"

section \<open>PS3001\<close>

definition fmt_scan_funcs :: "string set" where
  "fmt_scan_funcs =
     {''Sscan'', ''Sscanf'', ''Sscanln'', ''Fscan'', ''Fscanf'', ''Fscanln'', ''Scan'', ''Scanf'', ''Scanln''}"

definition message_ps3001 :: "string \<Rightarrow> string" where
  "message_ps3001 name =
     ''fmt.'' @ name @ '' in a loop pays format parsing and reflection per iteration; use strconv or manual parsing''"

definition ps3001_node :: "type_info \<Rightarrow> node \<Rightarrow> node list \<Rightarrow> diagnostic list \<Rightarrow> diagnostic list" where
  "ps3001_node ti n stack out =
     (case as_call n of
        None \<Rightarrow> out
      | Some (f, _, _) \<Rightarrow>
          (case pkg_func_call ti f ''fmt'' (Some fmt_scan_funcs) of
             None \<Rightarrow> out
           | Some name \<Rightarrow>
               if in_loop stack = None then out else out @ [report_node n (message_ps3001 name)]))"

definition run_ps3001 :: "check_pass \<Rightarrow> diagnostic list" where
  "run_ps3001 cp = over_files cp (\<lambda>f out. with_stack (each_stacked (ps3001_node (cp_info cp))) f out) []"

section \<open>PS3003\<close>

text \<open>\<open>Basic True\<close> is a basic type with the flag \<open>types.IsInteger\<close>.\<close>

definition is_int_key_map :: "go_type \<Rightarrow> bool" where
  "is_int_key_map t =
     (case underlying t of
        Map_Type k _ \<Rightarrow> underlying k = Basic True
      | _ \<Rightarrow> False)"

definition message_ps3003 :: "string \<Rightarrow> string" where
  "message_ps3003 name =
     ''integer-keyed map '' @ name @ '' probed in a loop pays a hash per probe; dense keys in a known range fit a slice''"

definition pure_write :: "node \<Rightarrow> node list \<Rightarrow> bool" where
  "pure_write n stack =
     (stack \<noteq> [] \<and>
      (case as_assign (last stack) of
         None \<Rightarrow> False
       | Some (ls, tok, _) \<Rightarrow> tok = ''='' \<and> list_ex (\<lambda>lhs. node_ref lhs = node_ref n) ls))"

text \<open>The state holds the pairs of loop and name that were reported; the map is shared by all files.\<close>

definition ps3003_node ::
    "type_info \<Rightarrow> node \<Rightarrow> node list \<Rightarrow> (nat \<times> string) set \<times> diagnostic list \<Rightarrow> (nat \<times> string) set \<times> diagnostic list" where
  "ps3003_node ti n stack st =
     (case as_index n of
        None \<Rightarrow> st
      | Some (x, _) \<Rightarrow>
          if pure_write n stack then st
          else
            (case in_loop stack of
               None \<Rightarrow> st
             | Some loop \<Rightarrow>
                 (case ti_type ti x of
                    None \<Rightarrow> st
                  | Some t \<Rightarrow>
                      if \<not> is_int_key_map t then st
                      else
                        let name = (case as_ident x of None \<Rightarrow> [] | Some s \<Rightarrow> s);
                            k = (node_ref loop, name)
                        in if name \<noteq> [] \<and> k \<in> fst st then st
                           else (insert k (fst st),
                             snd st @ [report_node n (message_ps3003 (if name = [] then ''map'' else name))]))))"

definition run_ps3003 :: "check_pass \<Rightarrow> diagnostic list" where
  "run_ps3003 cp =
     snd (over_files cp (\<lambda>f st. with_stack (each_stacked (ps3003_node (cp_info cp))) f st) ({}, []))"

section \<open>PS4002\<close>

definition scalar_transcendentals :: "string set" where
  "scalar_transcendentals =
     {''Exp'', ''Expm1'', ''Log'', ''Log1p'', ''Log2'', ''Log10'', ''Tanh'', ''Sinh'', ''Cosh'', ''Erf'', ''Erfc'', ''Pow''}"

definition message_ps4002 :: "string \<Rightarrow> string" where
  "message_ps4002 name =
     ''scalar math.'' @ name @ '' per element in a function that already calls a vectorized sibling kernel '' @ em_dash @
     '' this branch is a proven SIMD candidate; gate the new kernel like the sibling was gated''"

definition ps4002_node ::
    "type_info \<Rightarrow> node \<Rightarrow> node list \<Rightarrow> nat set \<times> diagnostic list \<Rightarrow> nat set \<times> diagnostic list" where
  "ps4002_node ti n stack st =
     (case as_call n of
        None \<Rightarrow> st
      | Some (f, _, _) \<Rightarrow>
          (case pkg_func_call ti f ''math'' (Some scalar_transcendentals) of
             None \<Rightarrow> st
           | Some name \<Rightarrow>
               (case in_loop stack of
                  None \<Rightarrow> st
                | Some loop \<Rightarrow>
                    if node_ref loop \<in> fst st then st
                    else (insert (node_ref loop) (fst st), snd st @ [report_node n (message_ps4002 name)]))))"

definition run_ps4002 :: "check_pass \<Rightarrow> diagnostic list" where
  "run_ps4002 cp =
     (let vectorized = set_vectorized_sibling_funcs (cp_sets cp) in
      if vectorized = {} then []
      else over_functions cp (\<lambda>fn body out.
        if \<not> calls_fan_out body vectorized then out
        else snd (with_stack (each_stacked (ps4002_node (cp_info cp))) body ({}, out))) [])"

section \<open>PS6004\<close>

definition message_ps6004 :: "string \<Rightarrow> string" where
  "message_ps6004 name =
     ''dual path guarded by '' @ name @ [CHR 0x27] @ ''s comma-ok is a bit-identity claim between two arms; it holds only while a test reaches BOTH '' @ em_dash @
     '' plant a strided/other-dtype fixture for the fallback arm''"

definition ps6004_node :: "string set \<Rightarrow> node \<Rightarrow> diagnostic list \<Rightarrow> diagnostic list" where
  "ps6004_node fast_paths n out =
     (case as_if n of
        Some (Some init, cond, _, Some _) \<Rightarrow>
          (case as_assign init of
             Some ([_, _], _, [rhs]) \<Rightarrow>
               (case as_call rhs of
                  None \<Rightarrow> out
                | Some (f, _, _) \<Rightarrow>
                    let name = callee_name f in
                    if name \<notin> fast_paths then out
                    else out @ [diag (node_pos n) (node_end cond) (message_ps6004 name)])
           | _ \<Rightarrow> out)
      | _ \<Rightarrow> out)"

definition run_ps6004 :: "check_pass \<Rightarrow> diagnostic list" where
  "run_ps6004 cp =
     (let fast_paths = set_fast_path_helpers (cp_sets cp) in
      if fast_paths = {} then []
      else over_files cp (\<lambda>f out. inspect (each_node (ps6004_node fast_paths)) f out) [])"

end
