(* ===== verification/Checks_Nests.thy ===== *)
theory Checks_Nests
  imports Checks_Access
begin

text \<open>
  The checks of serial loop nests in packages that have a fan-out helper: PS3034, PS3059, PS3060 and
  PS3063, with \<open>checks/ps3common.go\<close> and the helpers of \<open>ps2007.go\<close>, \<open>ps2008.go\<close> and \<open>ps4008.go\<close>
  they share.
\<close>

section \<open>Helpers\<close>

definition package_has_fan_out :: "check_pass \<Rightarrow> string set \<Rightarrow> bool" where
  "package_has_fan_out cp fanout =
     list_ex (\<lambda>f. list_ex (\<lambda>(name, body). name \<in> fanout \<or> calls_fan_out body fanout) (func_bodies f)) (cp_files cp)"

definition names_in :: "string set \<Rightarrow> node \<Rightarrow> bool" where
  "names_in names n = (case as_ident n of None \<Rightarrow> False | Some name \<Rightarrow> name \<in> names)"

definition mentions_any_of :: "node \<Rightarrow> string set \<Rightarrow> bool" where
  "mentions_any_of e names = inspect (mark_node (names_in names)) e False"

definition expr_mentions :: "node \<Rightarrow> string \<Rightarrow> bool" where
  "expr_mentions e name = inspect (mark_node (names_in {name})) e False"

text \<open>\<open>containsLoop\<close> looks below the body, outside function literals.\<close>

definition contains_callback :: "node \<Rightarrow> node option \<Rightarrow> bool \<Rightarrow> bool \<times> bool" where
  "contains_callback body n found =
     (if found then (False, found)
      else case n of
        None \<Rightarrow> (True, found)
      | Some m \<Rightarrow>
          if node_ref m \<noteq> node_ref body \<and> is_func_lit m then (False, found)
          else if node_ref m \<noteq> node_ref body \<and> is_loop m then (False, True)
          else (True, found))"

definition contains_loop :: "node \<Rightarrow> bool" where
  "contains_loop body = inspect (contains_callback body) body False"

definition loop_var_and_body :: "node \<Rightarrow> string \<times> node option" where
  "loop_var_and_body n =
     (case n of
        ForStmt _ (Some (AssignStmt _ [Ident _ name] _ _)) _ _ body \<Rightarrow> (name, Some body)
      | RangeStmt _ (Some (Ident _ name)) _ _ _ body \<Rightarrow> if name \<noteq> ''_'' then (name, Some body) else ([], None)
      | _ \<Rightarrow> ([], None))"

definition outermost_loop_var :: "node \<Rightarrow> string" where
  "outermost_loop_var n = fst (loop_var_and_body n)"

definition nest_writes :: "node \<Rightarrow> (node \<times> node) list" where
  "nest_writes nest =
     inspect (each_node (\<lambda>n writes.
       case as_assign n of
         None \<Rightarrow> writes
       | Some (ls, _, _) \<Rightarrow> foldl (\<lambda>writes lhs. writes @ opt_list (as_index lhs)) writes ls)) nest []"

text \<open>One assignment of \<open>derivedFromVar\<close>, and its two passes.\<close>

definition derive_pair :: "node \<times> node \<Rightarrow> string set \<Rightarrow> string set" where
  "derive_pair p derived =
     (case p of (lhs, rhs) \<Rightarrow>
        if \<not> mentions_any_of rhs derived then derived
        else case as_ident lhs of
          None \<Rightarrow> derived
        | Some name \<Rightarrow> if name \<noteq> ''_'' then insert name derived else derived)"

definition derive_node :: "node \<Rightarrow> string set \<Rightarrow> string set" where
  "derive_node n derived =
     (case as_assign n of
        None \<Rightarrow> derived
      | Some (ls, _, rs) \<Rightarrow> foldl (\<lambda>derived p. derive_pair p derived) derived (zip ls rs))"

definition derive_pass :: "node \<Rightarrow> string set \<Rightarrow> string set" where
  "derive_pass nest derived = inspect (each_node derive_node) nest derived"

definition derived_from_var :: "node \<Rightarrow> string \<Rightarrow> string set" where
  "derived_from_var nest v = (derive_pass nest ^^ 2) {v}"

text \<open>\<open>indexNames\<close>: the index chain \<open>a[i][j]\<close> from the outside.\<close>

function index_names :: "node \<Rightarrow> node \<Rightarrow> string \<Rightarrow> bool" where
  "index_names x i v =
     (if expr_mentions i v then True
      else case x of
        IndexExpr _ x' i' \<Rightarrow> index_names x' i' v
      | _ \<Rightarrow> False)"
  by pat_completeness auto
termination by (relation "measure (\<lambda>(x, i, v). size x)") auto

declare index_names.simps [simp del]

text \<open>\<open>topLevelNests\<close>: the callback of every outermost loop that holds another loop.\<close>

definition nests_callback :: "(node \<Rightarrow> 's \<Rightarrow> 's) \<Rightarrow> node option \<Rightarrow> 's \<Rightarrow> bool \<times> 's" where
  "nests_callback fn n s =
     (case n of
        None \<Rightarrow> (True, s)
      | Some m \<Rightarrow>
          (case loop_body m of
             None \<Rightarrow> (True, s)
           | Some b \<Rightarrow> if \<not> contains_loop b then (True, s) else (False, fn m s)))"

definition top_level_nests :: "node \<Rightarrow> (node \<Rightarrow> 's \<Rightarrow> 's) \<Rightarrow> 's \<Rightarrow> 's" where
  "top_level_nests body fn s = inspect (nests_callback fn) body s"

definition lbrace :: "node \<Rightarrow> int" where
  "lbrace n = (case loop_body n of Some (BlockStmt _ _ l) \<Rightarrow> l | _ \<Rightarrow> 0)"

section \<open>PS3034\<close>

definition message_ps3034 :: "string \<Rightarrow> string" where
  "message_ps3034 v =
     ''every write in this serial nest names outer variable '' @ v @ '' '' @ em_dash @
     '' the outer iterations own disjoint output and a fan-out helper exists in this package; band the outer loop and gate with BOTH a bit-exact digest and -race''"

definition ps3034_nest :: "node \<Rightarrow> diagnostic list \<Rightarrow> diagnostic list" where
  "ps3034_nest nest out =
     (let v = outermost_loop_var nest in
      if v = [] then out
      else
        let writes = nest_writes nest in
        if writes = [] then out
        else if \<not> list_all (\<lambda>(x, i). index_names x i v) writes then out
        else out @ [diag (node_pos nest) (lbrace nest) (message_ps3034 v)])"

definition run_ps3034 :: "check_pass \<Rightarrow> diagnostic list" where
  "run_ps3034 cp =
     (let fanout = set_fan_out_helpers (cp_sets cp) in
      if fanout = {} \<or> \<not> package_has_fan_out cp fanout then []
      else over_functions cp (\<lambda>fn body out.
        if calls_fan_out body fanout then out else top_level_nests body ps3034_nest out) [])"

section \<open>PS3059\<close>

definition message_ps3059 :: "string \<Rightarrow> string" where
  "message_ps3059 v =
     ''every write in this serial nest lands through a base derived from outer variable '' @ v @ '' '' @ em_dash @
     '' bandable, and a fan-out helper exists in this package; check the band owns disjoint output, then gate with BOTH a bit-exact digest and -race''"

text \<open>The loop over the writes: \<open>None\<close> is the return for a write outside the chain.\<close>

fun derived_writes :: "string \<Rightarrow> string set \<Rightarrow> (node \<times> node) list \<Rightarrow> bool \<Rightarrow> bool option" where
  "derived_writes v derived [] saw_indirect = Some saw_indirect"
| "derived_writes v derived ((x, i) # ws) saw_indirect =
     (if index_names x i v then derived_writes v derived ws saw_indirect
      else if \<exists>name\<in>derived. name \<noteq> v \<and> index_names x i name then derived_writes v derived ws True
      else None)"

definition ps3059_nest :: "node \<Rightarrow> diagnostic list \<Rightarrow> diagnostic list" where
  "ps3059_nest nest out =
     (let v = outermost_loop_var nest in
      if v = [] then out
      else
        let writes = nest_writes nest in
        if writes = [] then out
        else if derived_writes v (derived_from_var nest v) writes False \<noteq> Some True then out
        else out @ [diag (node_pos nest) (lbrace nest) (message_ps3059 v)])"

definition run_ps3059 :: "check_pass \<Rightarrow> diagnostic list" where
  "run_ps3059 cp =
     (let fanout = set_fan_out_helpers (cp_sets cp) in
      if fanout = {} \<or> \<not> package_has_fan_out cp fanout then []
      else over_functions cp (\<lambda>fn body out.
        if calls_fan_out body fanout then out else top_level_nests body ps3059_nest out) [])"

section \<open>PS3060\<close>

definition fanning_funcs :: "check_pass \<Rightarrow> string set \<Rightarrow> string set" where
  "fanning_funcs cp fanout =
     over_functions cp (\<lambda>name body acc. if calls_fan_out body fanout then insert name acc else acc) {}"

definition message_ps3060 :: "string \<Rightarrow> string" where
  "message_ps3060 name =
     name @ '' fans out internally but this loop runs its calls strictly one after another '' @ em_dash @
     '' each pays its own fork and join; band the outer loop (hoist caller-supplied callbacks into a serial pass first, gate with -race)''"

definition ps3060_node ::
    "string set \<Rightarrow> node \<Rightarrow> node list \<Rightarrow> nat set \<times> diagnostic list \<Rightarrow> nat set \<times> diagnostic list" where
  "ps3060_node fanning n stack st =
     (case as_call n of
        None \<Rightarrow> st
      | Some (f, _, _) \<Rightarrow>
          let name = callee_name f in
          if name \<notin> fanning then st
          else
            (case in_loop stack of
               None \<Rightarrow> st
             | Some loop \<Rightarrow>
                 if node_ref loop \<in> fst st then st
                 else (insert (node_ref loop) (fst st), snd st @ [report_node n (message_ps3060 name)])))"

definition run_ps3060 :: "check_pass \<Rightarrow> diagnostic list" where
  "run_ps3060 cp =
     (let fanout = set_fan_out_helpers (cp_sets cp) in
      if fanout = {} then []
      else
        let fanning = fanning_funcs cp fanout in
        if fanning = {} then []
        else over_functions cp (\<lambda>fn body out.
          if calls_fan_out body fanout then out
          else snd (with_stack (each_stacked (ps3060_node fanning)) body ({}, out))) [])"

section \<open>PS3063\<close>

definition message_ps3063 :: string where
  "message_ps3063 =
     ''this nest runs serial in a function that already fans out elsewhere '' @ em_dash @
     '' the parallel transform is proven available; check the writes own disjoint output, then band the outer loop and gate with BOTH a bit-exact digest and -race''"

definition ps3063_callback :: "string set \<Rightarrow> node option \<Rightarrow> diagnostic list \<Rightarrow> bool \<times> diagnostic list" where
  "ps3063_callback fanout n out =
     (case n of
        None \<Rightarrow> (True, out)
      | Some m \<Rightarrow>
          (case loop_body m of
             None \<Rightarrow> (True, out)
           | Some b \<Rightarrow>
               if \<not> contains_loop b \<or> calls_fan_out b fanout then (True, out)
               else (False, out @ [diag (node_pos m) (lbrace m) message_ps3063])))"

definition run_ps3063 :: "check_pass \<Rightarrow> diagnostic list" where
  "run_ps3063 cp =
     (let fanout = set_fan_out_helpers (cp_sets cp) in
      if fanout = {} then []
      else over_functions cp (\<lambda>fn body out.
        if \<not> calls_fan_out body fanout then out else inspect (ps3063_callback fanout) body out) [])"

end
