(* ===== verification/Checks_Props.thy ===== *)
theory Checks_Props
  imports Checks_Loops Checks_Nests
begin

text \<open>
  What the modelled checks report: exactly the calls in the shape their documentation names, each at most
  once, and the division of the loops among the checks that share a domain.
\<close>

section \<open>Loops on the stack\<close>

lemma in_loop_from_append: "i < length xs \<Longrightarrow> in_loop_from (xs @ ys) i = in_loop_from xs i"
  by (induction i) (auto simp: nth_append)

lemma in_loop_short [simp]: "in_loop [] = None" "in_loop [p] = None"
  by (simp_all add: in_loop_def)

lemma in_loop_snoc:
  "in_loop (xs @ [p, c]) =
     (if is_func_lit p then None else if enters p c then Some p else in_loop (xs @ [p]))"
proof -
  have "in_loop_from (xs @ [p, c]) (length xs) = in_loop_from (xs @ [p]) (length xs)"
    using in_loop_from_append [of "length xs" "xs @ [p]" "[c]"] by simp
  then show ?thesis by (simp add: in_loop_def nth_append)
qed

lemma first_entered_snoc:
  "first_entered (xs @ [p, c]) =
     (case first_entered (xs @ [p]) of None \<Rightarrow> if enters p c then Some p else None | Some l \<Rightarrow> Some l)"
  by (induction xs rule: first_entered.induct) auto

lemma innermostI:
  "stack = as @ l # b # bs \<Longrightarrow> enters l b \<Longrightarrow> \<not> list_ex is_func_lit (butlast (l # b # bs)) \<Longrightarrow>
     first_entered (b # bs) = None \<Longrightarrow> innermost stack l"
  unfolding innermost_def by blast

lemma innermost_short [simp]: "\<not> innermost [] l" "\<not> innermost [p] l"
  by (auto simp: innermost_def Cons_eq_append_conv)

lemma innermost_snoc:
  "innermost (xs @ [p, c]) l \<longleftrightarrow>
     \<not> is_func_lit p \<and> (if enters p c then l = p else innermost (xs @ [p]) l)"
  (is "?A \<longleftrightarrow> ?B")
proof
  assume ?A
  then obtain as b bs where s: "xs @ [p, c] = as @ l # b # bs" and e: "enters l b"
    and f: "\<not> list_ex is_func_lit (butlast (l # b # bs))" and n: "first_entered (b # bs) = None"
    unfolding innermost_def by blast
  show ?B
  proof (cases bs rule: rev_cases)
    case Nil
    with s have "xs = as" "p = l" "c = b" by auto
    with Nil e f show ?thesis by simp
  next
    case (snoc bs' c')
    with s have x: "xs @ [p] = as @ l # b # bs'" and "c' = c" by auto
    have p: "\<not> is_func_lit p"
      using f x snoc by (cases bs' rule: rev_cases) (auto simp: butlast_append)
    have "\<not> enters p c \<and> first_entered (b # bs') = None"
    proof (cases bs' rule: rev_cases)
      case Nil
      with x n snoc \<open>c' = c\<close> show ?thesis by (auto split: if_splits)
    next
      case (snoc bs'' q)
      then have "q = p" using x by simp
      with snoc \<open>bs = bs' @ [c']\<close> \<open>c' = c\<close> n first_entered_snoc [of "b # bs''" p c]
      show ?thesis by (auto split: option.splits if_splits)
    qed
    moreover have "innermost (xs @ [p]) l"
      by (rule innermostI [OF x e]) (use f snoc calculation in \<open>auto simp: butlast_append list_ex_iff dest: in_set_butlastD split: if_splits\<close>)
    ultimately show ?thesis using p by simp
  qed
next
  assume B: ?B
  show ?A
  proof (cases "enters p c")
    case True
    with B show ?thesis by (intro innermostI [of _ xs l c "[]"]) auto
  next
    case False
    with B obtain as b bs where s: "xs @ [p] = as @ l # b # bs" and e: "enters l b"
      and f: "\<not> list_ex is_func_lit (butlast (l # b # bs))" and n: "first_entered (b # bs) = None"
      unfolding innermost_def by auto
    have "first_entered ((b # bs) @ [c]) = None"
    proof (cases bs rule: rev_cases)
      case Nil
      with s False show ?thesis by simp
    next
      case (snoc bs' q)
      with s have "q = p" by simp
      with snoc n False first_entered_snoc [of "b # bs'" p c] show ?thesis by simp
    qed
    moreover have "\<not> list_ex is_func_lit (butlast (l # b # bs @ [c]))"
      using f s B by (cases bs rule: rev_cases) (auto simp: butlast_append)
    ultimately show ?thesis using s e by (intro innermostI [of _ as l b "bs @ [c]"]) auto
  qed
qed

lemma snoc2_cases: obtains "xs = []" | p where "xs = [p]" | ys p c where "xs = ys @ [p, c]"
  by (cases xs rule: rev_cases; cases "butlast xs" rule: rev_cases) auto

lemma in_loop_innermost: "in_loop stack = Some l \<longleftrightarrow> innermost stack l"
proof (induction "length stack" arbitrary: stack rule: less_induct)
  case less
  show ?case
  proof (cases stack rule: snoc2_cases)
    case (3 ys p c)
    with less [of "ys @ [p]"] show ?thesis by (auto simp: in_loop_snoc innermost_snoc)
  qed simp_all
qed

text \<open>\<open>OutermostLoop\<close> looks at the part of the stack after the last function literal.\<close>

lemma boundary_append: "i \<le> length xs \<Longrightarrow> boundary_from (xs @ ys) i = boundary_from xs i"
  by (induction i) (auto simp: nth_append)

lemma boundary_le: "boundary_from xs i \<le> i"
  by (induction i) (auto intro: le_SucI)

lemma outermost_snoc:
  "outermost_loop (xs @ [p, c]) =
     (if is_func_lit c then None
      else if is_func_lit p then None
      else case outermost_loop (xs @ [p]) of
        None \<Rightarrow> if enters p c then Some p else None
      | Some l \<Rightarrow> Some l)"
proof -
  let ?ys = "xs @ [p]"
  have b: "boundary_from (xs @ [p, c]) (length (xs @ [p, c])) =
      (if is_func_lit c then Suc (Suc (length xs)) else boundary_from ?ys (length ?ys))"
    using boundary_append [of "length ?ys" ?ys "[c]"] by (simp add: nth_append)
  have bp: "boundary_from ?ys (length ?ys) =
      (if is_func_lit p then length ?ys else boundary_from xs (length xs))"
    using boundary_append [of "length xs" xs "[p]"] by (simp add: nth_append)
  show ?thesis
  proof (cases "is_func_lit c \<or> is_func_lit p")
    case True
    then show ?thesis unfolding outermost_loop_def b bp by auto
  next
    case False
    have le: "boundary_from xs (length xs) \<le> length xs" by (rule boundary_le)
    have "drop (boundary_from xs (length xs)) (xs @ [p, c]) =
        drop (boundary_from xs (length xs)) xs @ [p, c]"
      "drop (boundary_from xs (length xs)) ?ys = drop (boundary_from xs (length xs)) xs @ [p]"
      using le by simp_all
    with False show ?thesis
      unfolding outermost_loop_def b bp by (simp add: first_entered_snoc)
  qed
qed

lemma outermost_short [simp]: "outermost_loop [] = None" "outermost_loop [p] = None"
  by (auto simp: outermost_loop_def)

lemma loops_agree:
  "stack = [] \<or> \<not> is_func_lit (last stack) \<Longrightarrow> (in_loop stack = None) = (outermost_loop stack = None)"
proof (induction "length stack" arbitrary: stack rule: less_induct)
  case less
  show ?case
  proof (cases stack rule: snoc2_cases)
    case (3 ys p c)
    with less.prems less.hyps [of "ys @ [p]"] show ?thesis
      by (auto simp: in_loop_snoc outermost_snoc split: option.splits)
  qed simp_all
qed

section \<open>Reports as a list\<close>

text \<open>The reports of a check that looks at one node with its ancestors.\<close>

definition reports :: "(node \<Rightarrow> node list \<Rightarrow> 'd option) \<Rightarrow> node \<Rightarrow> 'd list" where
  "reports r root = concat (map (\<lambda>(n, stack). opt_list (r n stack)) (paths [] root))"

lemma foldl_appending:
  assumes "\<And>x out. g x out = out @ r x"
  shows "foldl (\<lambda>out x. g x out) out xs = out @ concat (map r xs)"
  by (induction xs arbitrary: out) (simp_all add: assms)

lemma with_stack_fold: "with_stack (each_stacked g) root s = foldl (\<lambda>s (n, stack). g n stack s) s (paths [] root)"
  unfolding with_stack_walk by (subst walk_each) (simp_all add: each_stacked_def split_def)

lemma inspect_fold: "inspect (each_node g) root s = foldl (\<lambda>s (n, stack). g n s) s (paths [] root)"
  unfolding inspect_each nodes_paths [of "[]", symmetric] by (simp add: foldl_map split_def)

lemma with_stack_reports:
  assumes "\<And>n stack out. g n stack out = out @ opt_list (r n stack)"
  shows "with_stack (each_stacked g) root out = out @ reports r root"
  unfolding with_stack_fold reports_def split_def by (rule foldl_appending) (simp add: assms)

lemma inspect_reports:
  assumes "\<And>n out. g n out = out @ opt_list (r n)"
  shows "inspect (each_node g) root out = out @ reports (\<lambda>n _. r n) root"
  unfolding inspect_fold reports_def split_def by (rule foldl_appending) (simp add: assms)

lemma over_files_reports:
  assumes "\<And>f out. g f out = out @ r f"
  shows "over_files cp g out = out @ concat (map r (cp_files cp))"
  unfolding over_files_def by (rule foldl_appending) (rule assms)

lemma reports_if:
  "reports (\<lambda>n stack. if P n stack then Some (d n stack) else None) root =
     map (\<lambda>(n, stack). d n stack) (filter (\<lambda>(n, stack). P n stack) (paths [] root))"
proof -
  have "concat (map (\<lambda>(n, stack). opt_list (if P n stack then Some (d n stack) else None)) xs) =
      map (\<lambda>(n, stack). d n stack) (filter (\<lambda>(n, stack). P n stack) xs)" for xs
    by (induction xs) auto
  then show ?thesis by (simp add: reports_def)
qed

text \<open>All nodes of the files of a pass, and its functions.\<close>

definition sites :: "check_pass \<Rightarrow> (node \<times> node list) list" where
  "sites cp = concat (map (paths []) (cp_files cp))"

definition pass_functions :: "check_pass \<Rightarrow> (string \<times> node) list" where
  "pass_functions cp = concat (map func_bodies (cp_files cp))"

lemma over_functions_fold: "over_functions cp g s = foldl (\<lambda>s (name, body). g name body s) s (pass_functions cp)"
  by (simp add: over_functions_def over_files_def pass_functions_def foldl_concat foldl_map)

lemma concat_filter_sites:
  "concat (map (\<lambda>f. map d (filter P (paths [] f))) (cp_files cp)) = map d (filter P (sites cp))"
  by (simp add: sites_def filter_concat map_concat comp_def)

section \<open>Calls in loops\<close>

definition callee :: "node \<Rightarrow> string" where
  "callee n = (case as_call n of None \<Rightarrow> [] | Some (f, _, _) \<Rightarrow> callee_name f)"

definition arguments :: "node \<Rightarrow> node list" where
  "arguments n = (case as_call n of None \<Rightarrow> [] | Some (_, args, _) \<Rightarrow> args)"

definition is_call :: "node \<Rightarrow> bool" where
  "is_call n = (as_call n \<noteq> None)"

text \<open>The node is in the body of a loop of its own function.\<close>

definition looped :: "node list \<Rightarrow> bool" where
  "looped stack = (\<exists>l. innermost stack l)"

lemma in_loop_looped: "(in_loop stack = None) = (\<not> looped stack)"
  unfolding looped_def in_loop_innermost [symmetric] by auto

lemma looped_in_loop: "looped stack = (in_loop stack \<noteq> None)"
  by (simp add: in_loop_looped)

text \<open>The name of a package function that a call names, if it is in the set.\<close>

definition package_callee :: "type_info \<Rightarrow> string \<Rightarrow> string set \<Rightarrow> node \<Rightarrow> string option" where
  "package_callee ti pkg names n =
     (case as_call n of None \<Rightarrow> None | Some (f, _, _) \<Rightarrow> pkg_func_call ti f pkg (Some names))"

text \<open>
  C31: PS2001, PS3001 and PS1003 report, in source order, exactly the calls in the body of a loop of their own
  function whose callee is a configured allocator, a scanning function of the package fmt under
  whatever name it is imported, or gets a slice literal of one row.
\<close>

lemma loop_call_checks_exact:
  "run_ps2001 cp =
     map (\<lambda>(n, _). report_node n (message_ps2001 (callee n)))
       (filter (\<lambda>(n, stack). is_call n \<and> callee n \<in> set_allocator_funcs (cp_sets cp) \<and> looped stack) (sites cp)) \<and>
   run_ps3001 cp =
     map (\<lambda>(n, _). report_node n (message_ps3001 (the (package_callee (cp_info cp) ''fmt'' fmt_scan_funcs n))))
       (filter (\<lambda>(n, stack). package_callee (cp_info cp) ''fmt'' fmt_scan_funcs n \<noteq> None \<and> looped stack) (sites cp)) \<and>
   run_ps1003 cp =
     map (\<lambda>(n, _). report_node n (message_ps1003 (callee n)))
       (filter (\<lambda>(n, stack). is_call n \<and> list_ex is_single_elt_nested_slice_lit (arguments n) \<and> looped stack) (sites cp))"
proof (intro conjI)
  let ?A = "set_allocator_funcs (cp_sets cp)"
  have 1: "with_stack (each_stacked (ps2001_node ?A)) f out = out @
      map (\<lambda>(n, _). report_node n (message_ps2001 (callee n)))
        (filter (\<lambda>(n, stack). is_call n \<and> callee n \<in> ?A \<and> looped stack) (paths [] f))" for f out
    unfolding reports_if [symmetric]
    by (rule with_stack_reports)
      (auto simp: ps2001_node_def is_call_def callee_def in_loop_looped Let_def split: option.splits)
  have "over_files cp (\<lambda>f out. with_stack (each_stacked (ps2001_node ?A)) f out) [] =
      map (\<lambda>(n, _). report_node n (message_ps2001 (callee n)))
        (filter (\<lambda>(n, stack). is_call n \<and> callee n \<in> ?A \<and> looped stack) (sites cp))"
    unfolding over_files_reports [OF 1] concat_filter_sites by simp
  then show "run_ps2001 cp = map (\<lambda>(n, _). report_node n (message_ps2001 (callee n)))
      (filter (\<lambda>(n, stack). is_call n \<and> callee n \<in> ?A \<and> looped stack) (sites cp))"
    by (auto simp: run_ps2001_def Let_def)
next
  let ?c = "package_callee (cp_info cp) ''fmt'' fmt_scan_funcs"
  have 1: "with_stack (each_stacked (ps3001_node (cp_info cp))) f out = out @
      map (\<lambda>(n, _). report_node n (message_ps3001 (the (?c n))))
        (filter (\<lambda>(n, stack). ?c n \<noteq> None \<and> looped stack) (paths [] f))" for f out
    unfolding reports_if [symmetric]
    by (rule with_stack_reports)
      (auto simp: ps3001_node_def package_callee_def in_loop_looped split: option.splits)
  show "run_ps3001 cp = map (\<lambda>(n, _). report_node n (message_ps3001 (the (?c n))))
      (filter (\<lambda>(n, stack). ?c n \<noteq> None \<and> looped stack) (sites cp))"
    unfolding run_ps3001_def over_files_reports [OF 1] concat_filter_sites by simp
next
  have 1: "with_stack (each_stacked ps1003_node) f out = out @
      map (\<lambda>(n, _). report_node n (message_ps1003 (callee n)))
        (filter (\<lambda>(n, stack). is_call n \<and> list_ex is_single_elt_nested_slice_lit (arguments n) \<and> looped stack) (paths [] f))" for f out
    unfolding reports_if [symmetric]
    by (rule with_stack_reports)
      (auto simp: ps1003_node_def is_call_def callee_def arguments_def in_loop_looped split: option.splits)
  show "run_ps1003 cp = map (\<lambda>(n, _). report_node n (message_ps1003 (callee n)))
      (filter (\<lambda>(n, stack). is_call n \<and> list_ex is_single_elt_nested_slice_lit (arguments n) \<and> looped stack) (sites cp))"
    unfolding run_ps1003_def over_files_reports [OF 1] concat_filter_sites by simp
qed

section \<open>Parents\<close>

text \<open>The step of the first traversal of \<open>collectFuncFacts\<close>, given the ancestors.\<close>

definition facts_step :: "sets \<Rightarrow> node \<Rightarrow> node list \<Rightarrow> func_facts \<Rightarrow> func_facts" where
  "facts_step ns m stack ff = snd (snd (facts_callback ns (Some m) (stack, ff)))"

lemma inspect_facts:
  "inspect (facts_callback ns) n (stack, ff) =
     (stack, foldl (\<lambda>ff (m, stack). facts_step ns m stack ff) ff (paths stack n))"
proof -
  have "facts_callback ns = stack_callback (each_stacked (facts_step ns))"
    by (intro ext) (simp add: facts_callback_def stack_callback_def each_stacked_def facts_step_def Let_def split: option.split prod.split)
  moreover have "walk (each_stacked (facts_step ns)) stack n ff =
      foldl (\<lambda>ff (m, stack). facts_step ns m stack ff) ff (paths stack n)"
    by (subst walk_each) (simp_all add: each_stacked_def split_def)
  ultimately show ?thesis by (simp add: inspect_stack)
qed

lemma facts_step_parent:
  "ff_parent (facts_step ns m stack ff) =
     (if stack \<noteq> [] then (ff_parent ff)(node_ref m := Some (last stack)) else ff_parent ff)"
  by (cases m) (simp_all add: facts_step_def facts_callback_def Let_def)

lemma facts_fold_parent:
  "distinct (map (\<lambda>(m, _). node_ref m) xs) \<Longrightarrow>
     ff_parent (foldl (\<lambda>ff (m, stack). facts_step ns m stack ff) ff xs) r =
       (case map_of (map (\<lambda>(m, stack). (node_ref m, stack)) xs) r of
          Some stack \<Rightarrow> if stack \<noteq> [] then Some (last stack) else ff_parent ff r
        | None \<Rightarrow> ff_parent ff r)"
proof (induction xs arbitrary: ff)
  case (Cons x xs)
  obtain m stack where x: "x = (m, stack)" by fastforce
  have "map_of (map (\<lambda>(m, stack). (node_ref m, stack)) xs) (node_ref m) = None"
    using Cons.prems x by (force simp: map_of_eq_None_iff)
  with Cons x show ?case by (auto simp: facts_step_parent split: option.splits)
qed simp

text \<open>A tree whose nodes have different identities.\<close>

definition proper :: "node \<Rightarrow> bool" where
  "proper n = distinct (map node_ref (nodes n))"

lemma paths_distinct: "proper n \<Longrightarrow> distinct (map (\<lambda>(m, _). node_ref m) (paths stack n))"
  unfolding proper_def nodes_paths [of stack, symmetric] by (simp add: comp_def split_def)

lemma per_elem_parent [simp]: "ff_parent (per_elem_node ns n ff) = ff_parent ff"
  by (simp add: per_elem_node_def split: node.split)

lemma per_elem_fold: "ff_parent (foldl (\<lambda>ff (n, _). per_elem_node ns n ff) ff xs) = ff_parent ff"
  by (induction xs arbitrary: ff) auto

lemma collected_parent:
  assumes "proper body" and "(n, stack) \<in> set (paths [] body)"
  shows "ff_parent (collect_func_facts body ns) (node_ref n) =
    (if stack = [] then None else Some (last stack))"
proof -
  have "map_of (map (\<lambda>(m, stack). (node_ref m, stack)) (paths [] body)) (node_ref n) = Some stack"
    by (rule map_of_is_SomeI)
      (use assms paths_distinct [of body "[]"] in \<open>force simp: comp_def split_def\<close>)+
  then show ?thesis
    using facts_fold_parent [OF paths_distinct [OF assms(1), of "[]"]]
    by (simp add: collect_func_facts_def inspect_fold inspect_facts per_elem_fold Let_def)
qed

lemma paths_parent:
  "(n, stack) \<in> set (paths s root) \<Longrightarrow>
     stack = s \<and> n = root \<or> (\<exists>p stack'. stack = stack' @ [p] \<and> (p, stack') \<in> set (paths s root) \<and> n \<in> set (children p))"
proof (induction root arbitrary: s rule: node_induct)
  case (node root)
  from node.prems have "(n, stack) = (root, s) \<or>
      (\<exists>c\<in>set (children root). (n, stack) \<in> set (paths (s @ [root]) c))"
    by (subst (asm) paths.simps) auto
  then show ?case
  proof
    assume "\<exists>c\<in>set (children root). (n, stack) \<in> set (paths (s @ [root]) c)"
    then obtain c where c: "c \<in> set (children root)" "(n, stack) \<in> set (paths (s @ [root]) c)" by blast
    from node.IH [OF c] show ?thesis
    proof
      assume "stack = s @ [root] \<and> n = c"
      moreover have "(root, s) \<in> set (paths s root)" by (subst paths.simps) simp
      ultimately show ?thesis using c(1) by blast
    next
      assume "\<exists>p stack'. stack = stack' @ [p] \<and> (p, stack') \<in> set (paths (s @ [root]) c) \<and> n \<in> set (children p)"
      then obtain p stack' where p: "stack = stack' @ [p]" "(p, stack') \<in> set (paths (s @ [root]) c)" "n \<in> set (children p)"
        by blast
      from c(1) p(2) have "(p, stack') \<in> set (paths s root)" by (subst paths.simps) auto
      with p show ?thesis by blast
    qed
  qed simp
qed

text \<open>The walks along the parents read the stack from the inside out, and end.\<close>

lemma parent_induct [consumes 2, case_names root step]:
  assumes "proper body" and "(n, stack) \<in> set (paths [] body)"
    and root: "\<And>n. ff_parent (collect_func_facts body ns) (node_ref n) = None \<Longrightarrow> P n []"
    and step: "\<And>n p stack. ff_parent (collect_func_facts body ns) (node_ref n) = Some p \<Longrightarrow> P p stack \<Longrightarrow>
      P n (stack @ [p])"
  shows "P n stack"
  using assms(2)
proof (induction stack arbitrary: n rule: rev_induct)
  case Nil
  with collected_parent [OF assms(1), of n "[]" ns] show ?case by (simp add: root)
next
  case (snoc p stack)
  with paths_parent [OF snoc.prems] have "(p, stack) \<in> set (paths [] body)" by auto
  with snoc collected_parent [OF assms(1) snoc.prems, of ns] show ?case by (simp add: step)
qed

lemma nearest_loop_stack:
  assumes "proper body" and "(n, stack) \<in> set (paths [] body)"
  shows "nearest_loop (ff_parent (collect_func_facts body ns)) n = Some (find is_loop (rev stack))"
  using assms by (induction rule: parent_induct [where ns = ns]) (subst nearest_loop.simps, simp)+

lemma any_ancestor_stack:
  assumes "proper body" and "(n, stack) \<in> set (paths [] body)"
  shows "any_ancestor_per_elem (ff_parent (collect_func_facts body ns)) per_elem n =
    Some (list_ex (\<lambda>p. per_elem (node_ref p)) stack)"
  using assms by (induction rule: parent_induct [where ns = ns]) (subst any_ancestor_per_elem.simps, simp)+

lemma loop_vars_stack:
  assumes "proper body" and "(n, stack) \<in> set (paths [] body)"
  shows "loop_vars_from (ff_parent (collect_func_facts body ns)) n vars =
    Some (foldl (\<lambda>vars p. loop_vars p vars) vars (rev stack))"
  using assms by (induction arbitrary: vars rule: parent_induct [where ns = ns]) (subst loop_vars_from.simps, simp)+

section \<open>Facts about a function\<close>

definition collected_idents :: "node \<Rightarrow> sets \<Rightarrow> string set" where
  "collected_idents body ns = ff_numel_idents (collect_func_facts body ns)"

text \<open>A loop over all elements: its bound is an element count, or its own body decomposes the flat index.\<close>

definition elem_loop :: "sets \<Rightarrow> string set \<Rightarrow> node \<Rightarrow> bool" where
  "elem_loop ns idents l =
     (case l of
        RangeStmt _ _ _ _ x body \<Rightarrow> is_numel_range x idents ns \<or> directly_has_unravel body ns
      | ForStmt _ _ cond _ body \<Rightarrow> is_numel_for_cond cond idents ns \<or> directly_has_unravel body ns
      | _ \<Rightarrow> False)"

lemma elem_loop_is_loop: "elem_loop ns idents l \<Longrightarrow> is_loop l"
  by (cases l) (simp_all add: elem_loop_def)

lemma per_elem_kept [simp]:
  "ff_has_flat (per_elem_node ns n ff) = ff_has_flat ff"
  "ff_numel_idents (per_elem_node ns n ff) = ff_numel_idents ff"
  by (simp_all add: per_elem_node_def split: node.split)

lemma per_elem_fold_kept:
  "ff_has_flat (foldl (\<lambda>ff (n, _). per_elem_node ns n ff) ff xs) = ff_has_flat ff"
  "ff_numel_idents (foldl (\<lambda>ff (n, _). per_elem_node ns n ff) ff xs) = ff_numel_idents ff"
  by (induction xs arbitrary: ff) auto

lemma per_elem_node_loop:
  "ff_per_elem_loop (per_elem_node ns n ff) r =
     (if is_loop n \<and> r = node_ref n then elem_loop ns (ff_numel_idents ff) n else ff_per_elem_loop ff r)"
  by (cases n) (simp_all add: per_elem_node_def elem_loop_def)

lemma per_elem_fold_loop:
  "distinct (map (\<lambda>(m, _). node_ref m) xs) \<Longrightarrow> (l, s) \<in> set xs \<Longrightarrow> \<not> ff_per_elem_loop ff (node_ref l) \<Longrightarrow>
     ff_per_elem_loop (foldl (\<lambda>ff (n, _). per_elem_node ns n ff) ff xs) (node_ref l) =
       elem_loop ns (ff_numel_idents ff) l"
proof (induction xs arbitrary: ff)
  case (Cons x xs)
  obtain m s' where x: "x = (m, s')" by fastforce
  have other: "node_ref l \<notin> (\<lambda>(m, _). node_ref m) ` set ys \<Longrightarrow>
      ff_per_elem_loop (foldl (\<lambda>ff (n, _). per_elem_node ns n ff) gg ys) (node_ref l) = ff_per_elem_loop gg (node_ref l)"
    for ys gg
    by (induction ys arbitrary: gg) (auto simp: per_elem_node_loop)
  show ?case
  proof (cases "l = m \<and> s = s'")
    case True
    with Cons.prems x other [of xs "per_elem_node ns m ff"] show ?thesis
      using elem_loop_is_loop [of ns "ff_numel_idents ff" m] by (auto simp: per_elem_node_loop)
  next
    case False
    with Cons.prems x have l: "(l, s) \<in> set xs" by auto
    then have "node_ref l \<in> (\<lambda>(m, _). node_ref m) ` set xs" by force
    with Cons.prems x have "node_ref l \<noteq> node_ref m" by auto
    with Cons l x show ?thesis by (simp add: per_elem_node_loop)
  qed
qed simp

lemma facts_step_flat:
  "ff_has_flat (facts_step ns m stack ff) = (ff_has_flat ff \<or> calls_any (set_fast_path_helpers ns) m)"
  by (cases m) (auto simp: facts_step_def facts_callback_def calls_any_def Let_def)

lemma facts_step_per_elem: "ff_per_elem_loop (facts_step ns m stack ff) = ff_per_elem_loop ff"
  by (cases m) (auto simp: facts_step_def facts_callback_def Let_def)

lemma facts_fold_flat:
  "ff_has_flat (foldl (\<lambda>ff (m, stack). facts_step ns m stack ff) ff xs) =
     (ff_has_flat ff \<or> list_ex (calls_any (set_fast_path_helpers ns)) (map fst xs))"
  "ff_per_elem_loop (foldl (\<lambda>ff (m, stack). facts_step ns m stack ff) ff xs) = ff_per_elem_loop ff"
  by (induction xs arbitrary: ff) (auto simp: facts_step_flat facts_step_per_elem)

lemma collected_flat:
  "ff_has_flat (collect_func_facts body ns) = list_ex (calls_any (set_fast_path_helpers ns)) (nodes body)"
  by (simp add: collect_func_facts_def inspect_fold inspect_facts per_elem_fold_kept facts_fold_flat nodes_paths Let_def)

lemma collected_per_elem:
  assumes "proper body" and "(l, s) \<in> set (paths [] body)"
  shows "ff_per_elem_loop (collect_func_facts body ns) (node_ref l) = elem_loop ns (collected_idents body ns) l"
  unfolding collected_idents_def collect_func_facts_def Let_def inspect_fold
  by (subst per_elem_fold_loop [OF paths_distinct [OF assms(1)] assms(2)])
    (simp_all add: inspect_facts facts_fold_flat per_elem_fold_kept)

lemma stack_in_paths:
  "(n, stack) \<in> set (paths [] body) \<Longrightarrow> p \<in> set stack \<Longrightarrow> \<exists>s. (p, s) \<in> set (paths [] body)"
proof (induction stack arbitrary: n rule: rev_induct)
  case (snoc q stack)
  from paths_parent [OF snoc.prems(1)] have "(q, stack) \<in> set (paths [] body)" by auto
  with snoc.IH [OF this] snoc.prems(2) show ?case by auto
qed simp

text \<open>The element-count domain: some enclosing loop walks all elements.\<close>

definition elem_domain :: "sets \<Rightarrow> node \<Rightarrow> node list \<Rightarrow> bool" where
  "elem_domain ns body stack = list_ex (elem_loop ns (collected_idents body ns)) stack"

lemma any_ancestor_domain:
  assumes "proper body" and "(n, stack) \<in> set (paths [] body)"
  shows "any_ancestor_per_elem (ff_parent (collect_func_facts body ns)) (ff_per_elem_loop (collect_func_facts body ns)) n =
    Some (elem_domain ns body stack)"
proof -
  have "list_ex (\<lambda>p. ff_per_elem_loop (collect_func_facts body ns) (node_ref p)) stack = elem_domain ns body stack"
    using collected_per_elem [OF assms(1)] stack_in_paths [OF assms(2)] unfolding elem_domain_def list_ex_iff by blast
  with any_ancestor_stack [OF assms, where ns = ns] show ?thesis by simp
qed

section \<open>The division of the accessor calls\<close>

text \<open>A loop over nodes that reports the first hit of every key, in a state that cannot fail.\<close>

lemma foldl_first:
  assumes "\<And>x seen out. x \<in> set xs \<Longrightarrow> step (Some (seen, out)) x =
      Some (if P x \<and> key x \<notin> seen then (insert (key x) seen, out @ [d x]) else (seen, out))"
  shows "\<exists>seen'. foldl step (Some (seen, out)) xs = Some (seen', out @ map d (keep_first key seen (filter P xs)))"
  using assms
proof (induction xs arbitrary: seen out)
  case (Cons x xs)
  from Cons.prems [of x] have x: "step (Some (seen, out)) x =
      Some (if P x \<and> key x \<notin> seen then (insert (key x) seen, out @ [d x]) else (seen, out))" for seen out by simp
  show ?case
    using Cons.IH [of "insert (key x) seen" "out @ [d x]"] Cons.IH [of seen out] Cons.prems by (auto simp: x)
qed simp

lemma foldl_some:
  assumes "\<And>x out. x \<in> set xs \<Longrightarrow> step (Some out) x = Some (if P x then out @ [d x] else out)"
  shows "foldl step (Some out) xs = Some (out @ map d (filter P xs))"
  using assms by (induction xs arbitrary: out) auto

lemma foldl_some_concat:
  assumes "\<And>x out. x \<in> set xs \<Longrightarrow> step (Some out) x = Some (out @ r x)"
  shows "foldl step (Some out) xs = Some (out @ concat (map r xs))"
  using assms by (induction xs arbitrary: out) auto

definition accessor_calls :: "sets \<Rightarrow> node \<Rightarrow> (node \<times> node list) list" where
  "accessor_calls ns body = filter (\<lambda>(n, _). is_call n \<and> callee n \<in> set_element_accessors ns) (paths [] body)"

text \<open>The innermost loop around the node, and the names its enclosing loops bind.\<close>

definition around :: "node list \<Rightarrow> node option" where
  "around stack = find is_loop (rev stack)"

definition bound_names :: "node list \<Rightarrow> string set" where
  "bound_names stack = foldl (\<lambda>vars p. loop_vars p vars) {} (rev stack)"

definition spread :: "node \<Rightarrow> bool" where
  "spread n = (case as_call n of Some (_, _, ellipsis) \<Rightarrow> ellipsis | None \<Rightarrow> False)"

lemma domain_around: "elem_domain ns body stack \<Longrightarrow> around stack \<noteq> None"
  unfolding elem_domain_def around_def find_None_iff list_ex_iff using elem_loop_is_loop by fastforce

definition ps1001_function :: "sets \<Rightarrow> string \<times> node \<Rightarrow> diagnostic list" where
  "ps1001_function ns f =
     (case f of (fn, body) \<Rightarrow>
        if list_ex (calls_any (set_fast_path_helpers ns)) (nodes body) then []
        else map (\<lambda>(n, _). report_node n (message_ps1001 (callee n) fn))
          (keep_first (\<lambda>(_, stack). node_ref (the (around stack))) {}
            (filter (\<lambda>(_, stack). elem_domain ns body stack) (accessor_calls ns body))))"

definition ps1004_function :: "sets \<Rightarrow> string \<times> node \<Rightarrow> diagnostic list" where
  "ps1004_function ns f =
     (case f of (fn, body) \<Rightarrow>
        map (\<lambda>(n, _). report_node n (message_ps1004 (callee n)))
          (filter (\<lambda>(n, stack). spread n \<and> looped stack \<and> \<not> elem_domain ns body stack) (accessor_calls ns body)))"

definition ps1005_function :: "sets \<Rightarrow> string \<times> node \<Rightarrow> diagnostic list" where
  "ps1005_function ns f =
     (case f of (fn, body) \<Rightarrow>
        map (\<lambda>(n, stack). report_node n (message_ps1005 (callee n) (index_args (bound_names stack) (arguments n))))
          (keep_first (\<lambda>(_, stack). node_ref (the (around stack))) {}
            (filter (\<lambda>(n, stack). \<not> elem_domain ns body stack \<and> around stack \<noteq> None \<and>
               2 \<le> index_args (bound_names stack) (arguments n)) (accessor_calls ns body))))"

lemma inspect_first:
  assumes "\<And>n stack seen out. (n, stack) \<in> set (paths [] body) \<Longrightarrow> g n (Some (seen, out)) =
      Some (if P n stack \<and> key stack \<notin> seen then (insert (key stack) seen, out @ [d n stack]) else (seen, out))"
  shows "map_option snd (inspect (each_node g) body (Some ({}, out))) =
    Some (out @ map (\<lambda>(n, stack). d n stack) (keep_first (\<lambda>(_, stack). key stack) {}
      (filter (\<lambda>(n, stack). P n stack) (paths [] body))))"
proof -
  have "\<exists>seen'. foldl (\<lambda>s (n, stack). g n s) (Some ({}, out)) (paths [] body) =
      Some (seen', out @ map (\<lambda>(n, stack). d n stack) (keep_first (\<lambda>(_, stack). key stack) {}
        (filter (\<lambda>(n, stack). P n stack) (paths [] body))))"
    by (rule foldl_first) (use assms in \<open>auto simp: split_def\<close>)
  then show ?thesis by (auto simp: inspect_fold)
qed

lemma ps1001_body:
  assumes "proper body"
  shows "map_option snd (inspect (each_node (ps1001_node ns fn (collect_func_facts body ns))) body (Some ({}, out))) =
    Some (out @ map (\<lambda>(n, _). report_node n (message_ps1001 (callee n) fn))
      (keep_first (\<lambda>(_, stack). node_ref (the (around stack))) {}
        (filter (\<lambda>(_, stack). elem_domain ns body stack) (accessor_calls ns body))))"
proof -
  have "map_option snd (inspect (each_node (ps1001_node ns fn (collect_func_facts body ns))) body (Some ({}, out))) =
    Some (out @ map (\<lambda>(n, stack). report_node n (message_ps1001 (callee n) fn))
      (keep_first (\<lambda>(_, stack). node_ref (the (around stack))) {}
        (filter (\<lambda>(n, stack). (is_call n \<and> callee n \<in> set_element_accessors ns) \<and> elem_domain ns body stack)
          (paths [] body))))"
  proof (rule inspect_first)
    fix n stack seen out
    assume p: "(n, stack) \<in> set (paths [] body)"
    show "ps1001_node ns fn (collect_func_facts body ns) n (Some (seen, out)) =
      Some (if ((is_call n \<and> callee n \<in> set_element_accessors ns) \<and> elem_domain ns body stack) \<and>
          node_ref (the (around stack)) \<notin> seen
        then (insert (node_ref (the (around stack))) seen, out @ [report_node n (message_ps1001 (callee n) fn)])
        else (seen, out))"
      using nearest_loop_stack [OF assms p, of ns] any_ancestor_domain [OF assms p, of ns] domain_around [of ns body stack]
      by (auto simp: ps1001_node_def is_call_def callee_def around_def Let_def split: option.splits prod.splits)
  qed
  then show ?thesis by (simp add: accessor_calls_def split_def)
qed

lemma ps1004_body:
  assumes "proper body"
  shows "with_stack (each_stacked (ps1004_node ns (collect_func_facts body ns))) body (Some out) =
    Some (out @ ps1004_function ns (fn, body))"
proof -
  have "foldl (\<lambda>s (n, stack). ps1004_node ns (collect_func_facts body ns) n stack s) (Some out) (paths [] body) =
      Some (out @ map (\<lambda>(n, _). report_node n (message_ps1004 (callee n)))
        (filter (\<lambda>(n, stack). (is_call n \<and> callee n \<in> set_element_accessors ns) \<and>
           spread n \<and> looped stack \<and> \<not> elem_domain ns body stack) (paths [] body)))"
  proof (rule foldl_some, clarify)
    fix n stack out
    assume p: "(n, stack) \<in> set (paths [] body)"
    show "ps1004_node ns (collect_func_facts body ns) n stack (Some out) =
        Some (if (is_call n \<and> callee n \<in> set_element_accessors ns) \<and>
           spread n \<and> looped stack \<and> \<not> elem_domain ns body stack
          then out @ [report_node n (message_ps1004 (callee n))] else out)"
      using any_ancestor_domain [OF assms p, of ns]
      by (auto simp: ps1004_node_def is_call_def callee_def spread_def in_loop_looped Let_def split: option.splits prod.splits)
  qed
  then show ?thesis by (simp add: with_stack_fold ps1004_function_def accessor_calls_def split_def)
qed

lemma ps1005_body:
  assumes "proper body"
  shows "map_option snd (inspect (each_node (ps1005_node ns (collect_func_facts body ns))) body (Some ({}, out))) =
    Some (out @ ps1005_function ns (fn, body))"
proof -
  have "map_option snd (inspect (each_node (ps1005_node ns (collect_func_facts body ns))) body (Some ({}, out))) =
    Some (out @ map (\<lambda>(n, stack). report_node n (message_ps1005 (callee n) (index_args (bound_names stack) (arguments n))))
      (keep_first (\<lambda>(_, stack). node_ref (the (around stack))) {}
        (filter (\<lambda>(n, stack). (is_call n \<and> callee n \<in> set_element_accessors ns) \<and> \<not> elem_domain ns body stack \<and>
           around stack \<noteq> None \<and> 2 \<le> index_args (bound_names stack) (arguments n)) (paths [] body))))"
  proof (rule inspect_first)
    fix n stack seen out
    assume p: "(n, stack) \<in> set (paths [] body)"
    show "ps1005_node ns (collect_func_facts body ns) n (Some (seen, out)) =
      Some (if ((is_call n \<and> callee n \<in> set_element_accessors ns) \<and> \<not> elem_domain ns body stack \<and>
           around stack \<noteq> None \<and> 2 \<le> index_args (bound_names stack) (arguments n)) \<and>
          node_ref (the (around stack)) \<notin> seen
        then (insert (node_ref (the (around stack))) seen,
          out @ [report_node n (message_ps1005 (callee n) (index_args (bound_names stack) (arguments n)))])
        else (seen, out))"
      using nearest_loop_stack [OF assms p, of ns] any_ancestor_domain [OF assms p, of ns] loop_vars_stack [OF assms p, of ns "{}"]
      by (auto simp: ps1005_node_def is_call_def callee_def arguments_def around_def bound_names_def enclosing_loop_vars_def
          index_args_def Let_def split: option.splits prod.splits)
  qed
  then show ?thesis by (simp add: ps1005_function_def accessor_calls_def split_def)
qed

lemma over_functions_concat:
  assumes "\<And>fn body out. (fn, body) \<in> set (pass_functions cp) \<Longrightarrow> g fn body (Some out) = Some (out @ r (fn, body))"
  shows "over_functions cp g (Some []) = Some (concat (map r (pass_functions cp)))"
proof -
  have "foldl (\<lambda>s (name, body). g name body s) (Some []) (pass_functions cp) =
      Some ([] @ concat (map r (pass_functions cp)))"
    by (rule foldl_some_concat) (use assms in auto)
  then show ?thesis by (simp add: over_functions_fold)
qed

text \<open>
  C30: with element accessors and element-count methods configured, the walks along the parents end, and the calls of element accessors are divided among three
  checks: PS1001 takes those in the element-count domain, the first in every loop, unless the
  function has a fast path; PS1004 the spread calls and PS1005 the calls with two loop variables outside that
  domain. No call is reported by PS1001 and by one of the others.
\<close>

lemma access_checks_divide:
  assumes "list_all (\<lambda>(_, body). proper body) (pass_functions cp)"
    and "set_element_accessors (cp_sets cp) \<noteq> {}" and "set_element_count_methods (cp_sets cp) \<noteq> {}"
  shows "run_ps1001 cp = Some (concat (map (ps1001_function (cp_sets cp)) (pass_functions cp))) \<and>
    run_ps1004 cp = Some (concat (map (ps1004_function (cp_sets cp)) (pass_functions cp))) \<and>
    run_ps1005 cp = Some (concat (map (ps1005_function (cp_sets cp)) (pass_functions cp)))"
proof (intro conjI)
  let ?ns = "cp_sets cp"
  have proper: "proper body" if "(fn, body) \<in> set (pass_functions cp)" for fn body
    using assms(1) that by (auto simp: list_all_iff)
  show "run_ps1001 cp = Some (concat (map (ps1001_function ?ns) (pass_functions cp)))"
    using assms(2,3) unfolding run_ps1001_def Let_def
    by (simp, intro over_functions_concat)
      (simp add: ps1001_function_def collected_flat ps1001_body [OF proper])
  show "run_ps1004 cp = Some (concat (map (ps1004_function ?ns) (pass_functions cp)))"
    using assms(2) unfolding run_ps1004_def Let_def
    by (simp, intro over_functions_concat) (simp add: ps1004_body [OF proper])
  show "run_ps1005 cp = Some (concat (map (ps1005_function ?ns) (pass_functions cp)))"
    using assms(2) unfolding run_ps1005_def Let_def
    by (simp, intro over_functions_concat) (simp only: Option.bind.simps ps1005_body [OF proper])
qed

text \<open>\<open>func f() { for i := range t.Numel() { t.AtF64(i) } }\<close>.\<close>

definition sample_node :: "nat \<Rightarrow> at" where "sample_node k = At k (int k) (int k + 1)"

definition sample_call :: "nat \<Rightarrow> string \<Rightarrow> node list \<Rightarrow> node" where
  "sample_call k m args =
     CallExpr (sample_node k) (SelectorExpr (sample_node (k + 1)) (Ident (sample_node (k + 2)) ''t'')
       (Ident (sample_node (k + 3)) m)) args False"

definition sample_body :: node where
  "sample_body =
     BlockStmt (sample_node 1)
       [RangeStmt (sample_node 2) (Some (Ident (sample_node 3) ''i'')) None '':='' (sample_call 10 ''Numel'' [])
          (BlockStmt (sample_node 4)
             [ExprStmt (sample_node 5) (sample_call 20 ''AtF64'' [Ident (sample_node 6) ''i''])] 0)] 0"

definition sample_file :: node where
  "sample_file =
     File (sample_node 30) None (Ident (sample_node 31) ''p'')
       [FuncDecl (sample_node 32) None None (Ident (sample_node 33) ''f'')
          (Other_Node (sample_node 34) ''FuncType'' []) (Some sample_body)]"

definition sample_pass :: check_pass where
  "sample_pass =
     \<lparr>cp_files = [sample_file],
      cp_info = \<lparr>ti_uses = (\<lambda>_. None), ti_defs = (\<lambda>_. None), ti_selection = (\<lambda>_. None),
        ti_type = (\<lambda>_. None), ti_identity = (\<lambda>_. None), ti_is_type = (\<lambda>_. False), ti_value = (\<lambda>_. None)\<rparr>,
      cp_sets = (compile zero_config)\<lparr>set_element_accessors := {''AtF64''}, set_element_count_methods := {''Numel''}\<rparr>\<rparr>"

lemma sample_functions: "pass_functions sample_pass = [(''f'', sample_body)]"
  by (simp add: pass_functions_def sample_pass_def sample_file_def func_bodies_def List.map_filter_def)

lemma sample_proper: "proper sample_body"
  by (simp add: proper_def sample_body_def sample_call_def nodes.simps node_ref_def sample_node_def)

lemma access_checks_divide_witness:
  "run_ps1001 sample_pass =
     Some [report_node (sample_call 20 ''AtF64'' [Ident (sample_node 6) ''i'']) (message_ps1001 ''AtF64'' ''f'')] \<and>
   run_ps1005 sample_pass = Some []"
proof -
  let ?ns = "cp_sets sample_pass"
  have v: "set_element_accessors ?ns = {''AtF64''}" "set_element_count_methods ?ns = {''Numel''}"
    by (simp_all add: sample_pass_def)
  have flat: "set_fast_path_helpers ?ns = {}"
    by (simp add: sample_pass_def compile_def to_set_def zero_config_def)
  have ex: "Ex Not" by (rule exI [of _ False]) simp
  obtain stack where calls: "accessor_calls ?ns sample_body = [(sample_call 20 ''AtF64'' [Ident (sample_node 6) ''i''], stack)]"
      and range: "RangeStmt (sample_node 2) (Some (Ident (sample_node 3) ''i'')) None '':='' (sample_call 10 ''Numel'' [])
          (BlockStmt (sample_node 4)
             [ExprStmt (sample_node 5) (sample_call 20 ''AtF64'' [Ident (sample_node 6) ''i''])] 0) \<in> set stack"
    by (simp add: accessor_calls_def sample_body_def sample_call_def paths.simps is_call_def callee_def v ex)
  have "elem_domain ?ns sample_body stack"
    unfolding elem_domain_def list_ex_iff
    by (rule bexI [OF _ range]) (simp add: elem_loop_def is_numel_range_def sample_call_def v)
  with calls have "ps1001_function ?ns (''f'', sample_body) =
      [report_node (sample_call 20 ''AtF64'' [Ident (sample_node 6) ''i'']) (message_ps1001 ''AtF64'' ''f'')]"
    "ps1005_function ?ns (''f'', sample_body) = []"
    by (auto simp: ps1001_function_def ps1005_function_def flat calls_any_def list_ex_iff split: option.splits)
      (simp add: sample_call_def callee_def)
  then show ?thesis
    using access_checks_divide [of sample_pass] by (simp add: sample_functions sample_proper v)
qed

section \<open>One report for every loop\<close>

lemma foldl_first_pair:
  assumes "\<And>x st. step st x =
      (if P x \<and> key x \<notin> fst st then (insert (key x) (fst st), snd st @ [d x]) else st)"
  shows "snd (foldl step st xs) = snd st @ map d (keep_first key (fst st) (filter P xs))"
  by (induction xs arbitrary: st) (simp_all add: assms)

lemma over_functions_appending:
  assumes "\<And>fn body out. g fn body out = out @ r (fn, body)"
  shows "over_functions cp g out = out @ concat (map r (pass_functions cp))"
  unfolding over_functions_fold split_def by (rule foldl_appending) (simp add: assms)

lemma calls_fan_out_nodes: "calls_fan_out n fanout = list_ex (calls_any fanout) (nodes n)"
  by (simp add: calls_fan_out_def inspect_search visible_all)

text \<open>
  PS4002 and PS3060 report the first hit in the body of each loop, in source order and never twice for one loop:
  scalar transcendental functions in functions that call a vectorized sibling, and calls of
  functions of the package that fan out, in functions that do not.
\<close>

lemma one_report_per_loop:
  "run_ps4002 cp = concat (map (\<lambda>(fn, body).
      if \<not> list_ex (calls_any (set_vectorized_sibling_funcs (cp_sets cp))) (nodes body) then []
      else map (\<lambda>(n, _). report_node n (message_ps4002 (the (package_callee (cp_info cp) ''math'' scalar_transcendentals n))))
        (keep_first (\<lambda>(_, stack). node_ref (the (in_loop stack))) {}
          (filter (\<lambda>(n, stack). package_callee (cp_info cp) ''math'' scalar_transcendentals n \<noteq> None \<and> looped stack)
            (paths [] body)))) (pass_functions cp)) \<and>
   run_ps3060 cp = concat (map (\<lambda>(fn, body).
      if list_ex (calls_any (set_fan_out_helpers (cp_sets cp))) (nodes body) then []
      else map (\<lambda>(n, _). report_node n (message_ps3060 (callee n)))
        (keep_first (\<lambda>(_, stack). node_ref (the (in_loop stack))) {}
          (filter (\<lambda>(n, stack). is_call n \<and> callee n \<in> fanning_funcs cp (set_fan_out_helpers (cp_sets cp)) \<and> looped stack)
            (paths [] body)))) (pass_functions cp))"
proof
  let ?V = "set_vectorized_sibling_funcs (cp_sets cp)" and ?c = "package_callee (cp_info cp) ''math'' scalar_transcendentals"
  let ?r = "\<lambda>(fn, body). if \<not> list_ex (calls_any ?V) (nodes body) then []
      else map (\<lambda>(n, _). report_node n (message_ps4002 (the (?c n))))
        (keep_first (\<lambda>(_, stack). node_ref (the (in_loop stack))) {}
          (filter (\<lambda>(n, stack). ?c n \<noteq> None \<and> looped stack) (paths [] body)))"
  have s: "snd (with_stack (each_stacked (ps4002_node (cp_info cp))) body ({}, out)) =
      snd ({} :: nat set, out) @ map (\<lambda>(n, _). report_node n (message_ps4002 (the (?c n))))
        (keep_first (\<lambda>(_, stack). node_ref (the (in_loop stack))) (fst ({}, out))
          (filter (\<lambda>(n, stack). ?c n \<noteq> None \<and> looped stack) (paths [] body)))" for body out
    unfolding with_stack_fold
    by (rule foldl_first_pair [where st = "({}, out)" and P = "\<lambda>(n, stack). ?c n \<noteq> None \<and> looped stack"
        and key = "\<lambda>(_, stack). node_ref (the (in_loop stack))"
        and d = "\<lambda>(n, _). report_node n (message_ps4002 (the (?c n)))"])
      (auto simp: ps4002_node_def package_callee_def looped_in_loop split: option.splits prod.splits)
  have "over_functions cp (\<lambda>fn body out. if \<not> calls_fan_out body ?V then out
      else snd (with_stack (each_stacked (ps4002_node (cp_info cp))) body ({}, out))) [] = concat (map ?r (pass_functions cp))"
    by (subst over_functions_appending [where r = ?r]) (simp_all add: s calls_fan_out_nodes)
  moreover have "?V = {} \<Longrightarrow> concat (map ?r (pass_functions cp)) = []"
    by (auto simp: calls_any_def list_ex_iff split: option.splits)
  ultimately show "run_ps4002 cp = concat (map ?r (pass_functions cp))"
    unfolding run_ps4002_def Let_def by (cases "?V = {}") (simp_all only: if_True if_False simp_thms)
next
  let ?F = "set_fan_out_helpers (cp_sets cp)"
  let ?N = "fanning_funcs cp ?F"
  let ?r = "\<lambda>(fn, body). if list_ex (calls_any ?F) (nodes body) then []
      else map (\<lambda>(n, _). report_node n (message_ps3060 (callee n)))
        (keep_first (\<lambda>(_, stack). node_ref (the (in_loop stack))) {}
          (filter (\<lambda>(n, stack). is_call n \<and> callee n \<in> ?N \<and> looped stack) (paths [] body)))"
  have s: "snd (with_stack (each_stacked (ps3060_node ?N)) body ({}, out)) =
      snd ({} :: nat set, out) @ map (\<lambda>(n, _). report_node n (message_ps3060 (callee n)))
        (keep_first (\<lambda>(_, stack). node_ref (the (in_loop stack))) (fst ({}, out))
          (filter (\<lambda>(n, stack). is_call n \<and> callee n \<in> ?N \<and> looped stack) (paths [] body)))" for body out
    unfolding with_stack_fold
    by (rule foldl_first_pair [where st = "({}, out)" and P = "\<lambda>(n, stack). is_call n \<and> callee n \<in> ?N \<and> looped stack"
        and key = "\<lambda>(_, stack). node_ref (the (in_loop stack))"
        and d = "\<lambda>(n, _). report_node n (message_ps3060 (callee n))"])
      (auto simp: ps3060_node_def is_call_def callee_def looped_in_loop Let_def split: option.splits prod.splits)
  have "over_functions cp (\<lambda>fn body out. if calls_fan_out body ?F then out
      else snd (with_stack (each_stacked (ps3060_node ?N)) body ({}, out))) [] = concat (map ?r (pass_functions cp))"
    by (subst over_functions_appending [where r = ?r]) (simp_all add: s calls_fan_out_nodes)
  moreover have "?N = {} \<Longrightarrow> concat (map ?r (pass_functions cp)) = []" by auto
  moreover have "?F = {} \<Longrightarrow> ?N = {}"
  proof -
    assume e: "?F = {}"
    have "\<not> calls_fan_out body {}" for body
      by (auto simp: calls_fan_out_nodes calls_any_def list_ex_iff split: option.splits)
    then have "foldl (\<lambda>s (name, body). if calls_fan_out body {} then insert name s else s) {} xs = {}" for xs :: "(string \<times> node) list"
      by (induction xs) auto
    then show "?N = {}" by (simp add: fanning_funcs_def over_functions_fold e)
  qed
  ultimately show "run_ps3060 cp = concat (map ?r (pass_functions cp))"
    unfolding run_ps3060_def Let_def by (cases "?F = {}"; cases "?N = {}") (simp_all only: if_True if_False simp_thms)
qed

section \<open>Nests\<close>

text \<open>The outermost loops that hold another loop, in source order, with their ancestors.\<close>

definition holds_loop :: "node \<Rightarrow> bool" where
  "holds_loop n = (case loop_body n of None \<Rightarrow> False | Some b \<Rightarrow> contains_loop b)"

function nest_roots :: "(node \<Rightarrow> bool) \<Rightarrow> node \<Rightarrow> node list" where
  "nest_roots P n = (if P n then [n] else concat (map (nest_roots P) (children n)))"
  by pat_completeness auto
termination by (relation "measure (\<lambda>(P, n). size n)") (auto dest: size_child)

declare nest_roots.simps [simp del]

lemma inspect_roots:
  assumes "\<And>n s. f (Some n) s = (if P n then (False, g n s) else (True, s))" and "\<And>s. snd (f None s) = s"
  shows "inspect f n s = foldl (\<lambda>s m. g m s) s (nest_roots P n)"
proof (induction n arbitrary: s rule: node_induct)
  case (node n)
  have "foldl (\<lambda>s c. inspect f c s) s cs = foldl (\<lambda>s m. g m s) s (concat (map (nest_roots P) cs))"
    if "set cs \<subseteq> set (children n)" for cs
    using that by (induction cs arbitrary: s) (auto simp: node)
  from this [OF order_refl] show ?case
    by (subst inspect.simps, subst nest_roots.simps) (simp add: assms)
qed

lemma top_level_nests_roots: "top_level_nests body fn s = foldl (\<lambda>s m. fn m s) s (nest_roots holds_loop body)"
  unfolding top_level_nests_def
  by (rule inspect_roots) (auto simp: nests_callback_def holds_loop_def split: option.splits)

lemma nest_roots_holds: "m \<in> set (nest_roots P n) \<Longrightarrow> P m"
proof (induction n rule: node_induct)
  case (node n)
  then show ?case by (subst (asm) (2) nest_roots.simps) (auto split: if_splits)
qed

lemma nest_roots_nodes: "subseq (nest_roots P n) (nodes n)"
proof (induction n rule: node_induct)
  case (node n)
  have "subseq (concat (map (nest_roots P) cs)) (concat (map nodes cs))" if "set cs \<subseteq> set (children n)" for cs
    using that by (induction cs) (auto simp: node intro: list_emb_append_mono)
  from this [OF order_refl] show ?case
    by (subst nest_roots.simps, subst nodes.simps) (auto simp: subseq_singleton_left)
qed

text \<open>Every node with the property lies in exactly the subtree of one root, and no root inside another.\<close>

lemma nest_roots_cover: "m \<in> set (nodes n) \<Longrightarrow> P m \<Longrightarrow> \<exists>r\<in>set (nest_roots P n). m \<in> set (nodes r)"
proof (induction n rule: node_induct)
  case (node n)
  show ?case
  proof (cases "P n")
    case True
    then have "n \<in> set (nest_roots P n)" by (subst nest_roots.simps) simp
    with node.prems show ?thesis by blast
  next
    case False
    with node.prems obtain c where c: "c \<in> set (children n)" "m \<in> set (nodes c)"
      by (subst (asm) nodes.simps) auto
    from node.IH [OF c node.prems(2)] c(1) False show ?thesis
      by (subst nest_roots.simps) auto
  qed
qed

lemma nodes_unfold: "nodes n = n # concat (map nodes (children n))"
  by (rule nodes.simps)

lemma nest_roots_inside: "set (concat (map nodes (nest_roots P c))) \<subseteq> set (nodes c)"
proof (induction c rule: node_induct)
  case (node c)
  show ?case
  proof (cases "P c")
    case True
    then have "nest_roots P c = [c]" by (subst nest_roots.simps) simp
    then show ?thesis by simp
  next
    case False
    then have "nest_roots P c = concat (map (nest_roots P) (children c))" by (subst nest_roots.simps) simp
    moreover have "set (nodes c) = insert c (\<Union>d\<in>set (children c). set (nodes d))"
      by (subst nodes_unfold) auto
    ultimately show ?thesis using node by fastforce
  qed
qed

lemma nest_roots_apart:
  assumes "distinct (nodes n)"
  shows "distinct (concat (map nodes (nest_roots P n)))"
  using assms
proof (induction n rule: node_induct)
  case (node n)
  have d: "distinct (concat (map nodes (children n)))"
    using node.prems by (subst (asm) nodes.simps) simp
  have "distinct (concat (map nodes (concat (map (nest_roots P) cs))))"
    if "set cs \<subseteq> set (children n)" and "distinct (concat (map nodes cs))" for cs
    using that
  proof (induction cs)
    case (Cons c cs)
    have "distinct (concat (map nodes (nest_roots P c)))"
      by (rule node.IH) (use Cons.prems in auto)
    moreover have "set (concat (map nodes (nest_roots P c))) \<inter>
        set (concat (map nodes (concat (map (nest_roots P) cs)))) = {}"
    proof -
      have "set (concat (map nodes (concat (map (nest_roots P) cs)))) \<subseteq> set (concat (map nodes cs))"
        using nest_roots_inside by fastforce
      with nest_roots_inside [of P c] Cons.prems(2) show ?thesis by auto
    qed
    ultimately show ?case using Cons by simp
  qed simp
  from this [OF order_refl d] node.prems show ?case
    by (subst nest_roots.simps) simp
qed

lemma over_functions_unless:
  assumes "\<And>body out. T body out = out @ r body"
  shows "over_functions cp (\<lambda>fn body out. if c body then out else T body out) [] =
    concat (map (\<lambda>(_, body). if c body then [] else r body) (pass_functions cp))"
  by (subst over_functions_appending [where r = "\<lambda>(_, body). if c body then [] else r body"]) (simp_all add: assms)

text \<open>What PS3034 and PS3059 ask of the writes of a nest.\<close>

definition direct_writes :: "node \<Rightarrow> bool" where
  "direct_writes m =
     (outermost_loop_var m \<noteq> [] \<and> nest_writes m \<noteq> [] \<and>
      list_all (\<lambda>(x, i). index_names x i (outermost_loop_var m)) (nest_writes m))"

definition indirect_writes :: "node \<Rightarrow> bool" where
  "indirect_writes m =
     (outermost_loop_var m \<noteq> [] \<and>
      list_all (\<lambda>(x, i). \<exists>name\<in>insert (outermost_loop_var m) (derived_from_var m (outermost_loop_var m)). index_names x i name)
        (nest_writes m) \<and>
      list_ex (\<lambda>(x, i). \<not> index_names x i (outermost_loop_var m)) (nest_writes m))"

lemma derived_writes_iff:
  "derived_writes v derived ws saw = Some True \<longleftrightarrow>
     list_all (\<lambda>(x, i). \<exists>name\<in>insert v derived. index_names x i name) ws \<and>
     (saw \<or> list_ex (\<lambda>(x, i). \<not> index_names x i v) ws)"
proof (induction v derived ws saw rule: derived_writes.induct)
  case (2 v derived x i ws saw)
  then show ?case by (cases "index_names x i v") auto
qed simp

lemma ps3059_nest_writes:
  "ps3059_nest m out = out @ (if indirect_writes m then [diag (node_pos m) (lbrace m) (message_ps3059 (outermost_loop_var m))] else [])"
  by (cases "nest_writes m") (simp_all add: ps3059_nest_def indirect_writes_def derived_writes_iff Let_def)

lemma ps3034_nest_writes:
  "ps3034_nest m out = out @ (if direct_writes m then [diag (node_pos m) (lbrace m) (message_ps3034 (outermost_loop_var m))] else [])"
  by (simp add: ps3034_nest_def direct_writes_def Let_def)

definition fans_out :: "check_pass \<Rightarrow> node \<Rightarrow> bool" where
  "fans_out cp n = list_ex (calls_any (set_fan_out_helpers (cp_sets cp))) (nodes n)"

definition serial_nest :: "check_pass \<Rightarrow> node \<Rightarrow> bool" where
  "serial_nest cp n =
     (case loop_body n of None \<Rightarrow> False | Some b \<Rightarrow> contains_loop b \<and> \<not> fans_out cp b)"

lemma concat_if_singleton: "concat (map (\<lambda>x. if P x then [d x] else []) xs) = map d (filter P xs)"
  by (induction xs) auto

text \<open>
  C29: three checks share the serial nests of a package that fans out, and no nest is reported twice.
  In functions that fan out PS3063 reports the outermost nests without a fan-out; in the others PS3034 reports
  the outermost nests all of whose indexed assignments name the outer variable, and PS3059 those where
  all of them name it or a name derived from it and one does not name it itself.
\<close>

lemma nest_checks_divide:
  "run_ps3034 cp = (if \<not> package_has_fan_out cp (set_fan_out_helpers (cp_sets cp)) then []
     else concat (map (\<lambda>(_, body). if fans_out cp body then []
       else map (\<lambda>m. diag (node_pos m) (lbrace m) (message_ps3034 (outermost_loop_var m)))
         (filter direct_writes (nest_roots holds_loop body))) (pass_functions cp))) \<and>
   run_ps3059 cp = (if \<not> package_has_fan_out cp (set_fan_out_helpers (cp_sets cp)) then []
     else concat (map (\<lambda>(_, body). if fans_out cp body then []
       else map (\<lambda>m. diag (node_pos m) (lbrace m) (message_ps3059 (outermost_loop_var m)))
         (filter indirect_writes (nest_roots holds_loop body))) (pass_functions cp))) \<and>
   run_ps3063 cp = concat (map (\<lambda>(_, body). if \<not> fans_out cp body then []
       else map (\<lambda>m. diag (node_pos m) (lbrace m) message_ps3063) (nest_roots (serial_nest cp) body)) (pass_functions cp)) \<and>
   \<not> (direct_writes m \<and> indirect_writes m)"
proof (intro conjI)
  let ?F = "set_fan_out_helpers (cp_sets cp)"
  have none: "\<not> calls_fan_out n {}" for n
    by (auto simp: calls_fan_out_nodes calls_any_def list_ex_iff split: option.splits)
  then have empty: "?F = {} \<Longrightarrow> \<not> package_has_fan_out cp ?F"
    by (auto simp: package_has_fan_out_def list_ex_iff)
  have fans: "calls_fan_out n ?F = fans_out cp n" for n by (simp add: calls_fan_out_nodes fans_out_def)
  have t34: "top_level_nests body ps3034_nest out = out @
      map (\<lambda>m. diag (node_pos m) (lbrace m) (message_ps3034 (outermost_loop_var m))) (filter direct_writes (nest_roots holds_loop body))"
    for body out
    unfolding top_level_nests_roots concat_if_singleton [symmetric] by (rule foldl_appending) (rule ps3034_nest_writes)
  show "run_ps3034 cp = (if \<not> package_has_fan_out cp ?F then []
     else concat (map (\<lambda>(_, body). if fans_out cp body then []
       else map (\<lambda>m. diag (node_pos m) (lbrace m) (message_ps3034 (outermost_loop_var m)))
         (filter direct_writes (nest_roots holds_loop body))) (pass_functions cp)))"
    unfolding run_ps3034_def Let_def fans using empty over_functions_unless [OF t34] by auto
  have t59: "top_level_nests body ps3059_nest out = out @
      map (\<lambda>m. diag (node_pos m) (lbrace m) (message_ps3059 (outermost_loop_var m))) (filter indirect_writes (nest_roots holds_loop body))"
    for body out
    unfolding top_level_nests_roots concat_if_singleton [symmetric] by (rule foldl_appending) (rule ps3059_nest_writes)
  show "run_ps3059 cp = (if \<not> package_has_fan_out cp ?F then []
     else concat (map (\<lambda>(_, body). if fans_out cp body then []
       else map (\<lambda>m. diag (node_pos m) (lbrace m) (message_ps3059 (outermost_loop_var m)))
         (filter indirect_writes (nest_roots holds_loop body))) (pass_functions cp)))"
    unfolding run_ps3059_def Let_def fans using empty over_functions_unless [OF t59] by auto
  have "inspect (ps3063_callback ?F) body out =
      foldl (\<lambda>out m. out @ [diag (node_pos m) (lbrace m) message_ps3063]) out (nest_roots (serial_nest cp) body)" for body out
    by (rule inspect_roots) (auto simp: ps3063_callback_def serial_nest_def fans split: option.splits)
  then have t63: "inspect (ps3063_callback ?F) body out =
      out @ map (\<lambda>m. diag (node_pos m) (lbrace m) message_ps3063) (nest_roots (serial_nest cp) body)" for body out
    using foldl_appending [of "\<lambda>m out. out @ [diag (node_pos m) (lbrace m) message_ps3063]"
      "\<lambda>m. [diag (node_pos m) (lbrace m) message_ps3063]"] by simp
  have "?F = {} \<Longrightarrow> \<not> fans_out cp body" for body using none fans by metis
  then show "run_ps3063 cp = concat (map (\<lambda>(_, body). if \<not> fans_out cp body then []
       else map (\<lambda>m. diag (node_pos m) (lbrace m) message_ps3063) (nest_roots (serial_nest cp) body)) (pass_functions cp))"
    unfolding run_ps3063_def Let_def fans
    using over_functions_unless [OF t63, of cp "\<lambda>body. \<not> fans_out cp body"] by (auto simp: concat_eq_Nil_conv)
  show "\<not> (direct_writes m \<and> indirect_writes m)"
    by (auto simp: direct_writes_def indirect_writes_def list_all_iff list_ex_iff)
qed

text \<open>
  The nests a check reports for one function do not overlap, and every loop that holds a loop lies in
  one of them: the report is the outermost loop, and inner loops are not reported again.
\<close>

lemma nests_outermost:
  assumes "proper body"
  shows "top_level_nests body (\<lambda>m ms. ms @ [m]) [] = nest_roots holds_loop body \<and>
    distinct (concat (map nodes (nest_roots holds_loop body))) \<and>
    list_all holds_loop (nest_roots holds_loop body) \<and>
    filter holds_loop (nodes body) = filter holds_loop (concat (map nodes (nest_roots holds_loop body)))"
proof (intro conjI)
  have "foldl (\<lambda>s m. s @ [m]) [] xs = [] @ concat (map (\<lambda>m. [m]) xs)" for xs :: "node list"
    by (rule foldl_appending) simp
  then show "top_level_nests body (\<lambda>m ms. ms @ [m]) [] = nest_roots holds_loop body"
    by (simp add: top_level_nests_roots)
  have "distinct (nodes body)" using assms by (simp add: proper_def distinct_map)
  then show "distinct (concat (map nodes (nest_roots holds_loop body)))" by (rule nest_roots_apart)
  show "list_all holds_loop (nest_roots holds_loop body)"
    by (simp add: list_all_iff nest_roots_holds)
  show "filter holds_loop (nodes body) = filter holds_loop (concat (map nodes (nest_roots holds_loop body)))"
  proof (induction body rule: node_induct)
    case (node n)
    show ?case
    proof (cases "holds_loop n")
      case True
      then have "nest_roots holds_loop n = [n]" by (subst nest_roots.simps) simp
      then show ?thesis by simp
    next
      case False
      then have r: "nest_roots holds_loop n = concat (map (nest_roots holds_loop) (children n))"
        by (subst nest_roots.simps) simp
      have "concat (map (\<lambda>c. filter holds_loop (nodes c)) cs) =
          filter holds_loop (concat (map nodes (concat (map (nest_roots holds_loop) cs))))" if "set cs \<subseteq> set (children n)" for cs
        using that by (induction cs) (auto simp: node)
      from this [OF order_refl] show ?thesis
        unfolding r using False by (subst nodes_unfold) (simp add: filter_concat map_concat comp_def)
    qed
  qed
qed

lemma nests_outermost_witness:
  "filter holds_loop (nodes sample_body) = filter holds_loop (concat (map nodes (nest_roots holds_loop sample_body)))"
  using nests_outermost [OF sample_proper] by simp

section \<open>Derived names\<close>

text \<open>The names a chain of assignments in the nest derives from the variable.\<close>

inductive derivable :: "node \<Rightarrow> string \<Rightarrow> string \<Rightarrow> bool" for nest :: node and v :: string where
  variable: "derivable nest v v"
| assigned: "\<lbrakk>AssignStmt a ls tok rs \<in> set (nodes nest); (Ident b name, rhs) \<in> set (zip ls rs); name \<noteq> ''_'';
      Ident c source \<in> set (nodes rhs); derivable nest v source\<rbrakk> \<Longrightarrow> derivable nest v name"

lemma names_in_ident: "names_in names n \<longleftrightarrow> (\<exists>c name. n = Ident c name \<and> name \<in> names)"
  by (cases n) (auto simp: names_in_def)

lemma mentions_nodes: "mentions_any_of e names \<longleftrightarrow> (\<exists>c name. Ident c name \<in> set (nodes e) \<and> name \<in> names)"
  by (auto simp: mentions_any_of_def inspect_mark list_ex_iff names_in_ident)

lemma derive_pair_derivable:
  assumes "AssignStmt a ls tok rs \<in> set (nodes nest)" and "(lhs, rhs) \<in> set (zip ls rs)"
    and "derived \<subseteq> Collect (derivable nest v)"
  shows "derive_pair (lhs, rhs) derived \<subseteq> Collect (derivable nest v)"
proof (cases lhs)
  case (Ident b name)
  with assms show ?thesis
    by (auto simp: derive_pair_def mentions_nodes intro: derivable.assigned)
qed (use assms in \<open>auto simp: derive_pair_def\<close>)

lemma derive_node_derivable:
  assumes "n \<in> set (nodes nest)" and "derived \<subseteq> Collect (derivable nest v)"
  shows "derive_node n derived \<subseteq> Collect (derivable nest v)"
proof (cases n)
  case (AssignStmt a ls tok rs)
  have "foldl (\<lambda>derived p. derive_pair p derived) d ps \<subseteq> Collect (derivable nest v)"
    if "set ps \<subseteq> set (zip ls rs)" and "d \<subseteq> Collect (derivable nest v)" for ps d
    using that
  proof (induction ps arbitrary: d)
    case (Cons p ps)
    obtain lhs rhs where p: "p = (lhs, rhs)" by fastforce
    have "derive_pair p d \<subseteq> Collect (derivable nest v)"
      using derive_pair_derivable [of a ls tok rs nest lhs rhs d v] Cons.prems assms(1) AssignStmt p by auto
    with Cons show ?case by simp
  qed simp
  from this [OF order_refl assms(2)] AssignStmt show ?thesis by (simp add: derive_node_def)
qed (use assms in \<open>simp_all add: derive_node_def\<close>)

lemma derive_pass_derivable: "derived \<subseteq> Collect (derivable nest v) \<Longrightarrow> derive_pass nest derived \<subseteq> Collect (derivable nest v)"
proof -
  have "foldl (\<lambda>s m. derive_node m s) d ns \<subseteq> Collect (derivable nest v)"
    if "set ns \<subseteq> set (nodes nest)" and "d \<subseteq> Collect (derivable nest v)" for ns d
    using that
  proof (induction ns arbitrary: d)
    case (Cons n ns)
    from derive_node_derivable [of n nest d v] Cons show ?case by simp
  qed simp
  then show "derived \<subseteq> Collect (derivable nest v) \<Longrightarrow> derive_pass nest derived \<subseteq> Collect (derivable nest v)"
    by (simp add: derive_pass_def inspect_each)
qed

lemma derived_sound: "derived_from_var nest v \<subseteq> Collect (derivable nest v)"
proof -
  have "{v} \<subseteq> Collect (derivable nest v)" by (simp add: derivable.variable)
  then show ?thesis
    unfolding derived_from_var_def by (simp add: numeral_2_eq_2 derive_pass_derivable)
qed

text \<open>
  PS3059 is right about the derivation: when it reports a nest, the index of every assignment in it
  names a variable that a chain of assignments in the nest leads to from the outermost loop variable.
\<close>

lemma ps3059_chain:
  assumes "ps3059_nest m out \<noteq> out" and "(x, i) \<in> set (nest_writes m)"
  shows "\<exists>name. derivable m (outermost_loop_var m) name \<and> index_names x i name"
proof -
  from assms(1) have "indirect_writes m" by (auto simp: ps3059_nest_writes split: if_splits)
  with assms(2) obtain name where "name \<in> insert (outermost_loop_var m) (derived_from_var m (outermost_loop_var m))"
      "index_names x i name"
    by (fastforce simp: indirect_writes_def list_all_iff)
  with derived_sound [of m "outermost_loop_var m"] show ?thesis by (auto intro: derivable.variable)
qed

text \<open>\<open>for b := 0; ; { obase := b * out; for j := range xs { dst[obase] = x; hist[j]++ } }\<close>.\<close>

definition sample_ident :: "nat \<Rightarrow> string \<Rightarrow> node" where
  "sample_ident k name = Ident (sample_node k) name"

definition sample_nest :: "node \<Rightarrow> node list \<Rightarrow> node" where
  "sample_nest target extra =
     ForStmt (sample_node 1)
       (Some (AssignStmt (sample_node 2) [sample_ident 3 ''b''] '':='' [BasicLit (sample_node 4) ''INT'' ''0''])) None None
       (BlockStmt (sample_node 5)
          [AssignStmt (sample_node 6) [sample_ident 7 ''obase''] '':=''
             [BinaryExpr (sample_node 8) (sample_ident 9 ''b'') ''*'' (sample_ident 10 ''out'')],
           RangeStmt (sample_node 11) (Some (sample_ident 12 ''j'')) None '':='' (sample_ident 13 ''xs'')
             (BlockStmt (sample_node 14)
                (AssignStmt (sample_node 15) [IndexExpr (sample_node 16) (sample_ident 17 ''dst'') target] ''=''
                   [sample_ident 18 ''x''] # extra) 0)] 0)"

lemma sample_nest_var [simp]: "outermost_loop_var (sample_nest target extra) = ''b''"
  by (simp add: sample_nest_def outermost_loop_var_def loop_var_and_body_def sample_ident_def)

lemma index_names_iff:
  "index_names x i v \<longleftrightarrow> list_ex (names_in {v}) (nodes i) \<or>
     (case x of IndexExpr _ x' i' \<Rightarrow> index_names x' i' v | _ \<Rightarrow> False)"
  by (subst index_names.simps) (simp add: expr_mentions_def inspect_mark split: node.split)

lemma sample_nest_writes:
  "nest_writes (sample_nest (sample_ident 19 name) []) = [(sample_ident 17 ''dst'', sample_ident 19 name)]"
  by (simp add: nest_writes_def inspect_each sample_nest_def sample_ident_def nodes.simps)

lemma sample_derived: "''obase'' \<in> derived_from_var (sample_nest (sample_ident 19 name) []) ''b''"
  by (simp add: derived_from_var_def numeral_2_eq_2 derive_pass_def inspect_each sample_nest_def sample_ident_def
      nodes.simps derive_node_def derive_pair_def mentions_any_of_def inspect_mark names_in_def)

lemma ps3059_chain_witness:
  "\<exists>name. derivable (sample_nest (sample_ident 19 ''obase'') []) ''b'' name \<and>
     index_names (sample_ident 17 ''dst'') (sample_ident 19 ''obase'') name"
proof -
  let ?m = "sample_nest (sample_ident 19 ''obase'') []"
  have n: "index_names (sample_ident 17 ''dst'') (sample_ident 19 ''obase'') v \<longleftrightarrow> v = ''obase''" for v
    by (subst index_names_iff) (auto simp: sample_ident_def nodes.simps names_in_def)
  have "indirect_writes ?m"
    using sample_derived by (auto simp: indirect_writes_def sample_nest_writes n)
  then have "ps3059_nest ?m [] \<noteq> []" by (simp add: ps3059_nest_writes)
  from ps3059_chain [OF this, of "sample_ident 17 ''dst''" "sample_ident 19 ''obase''"] show ?thesis
    by (simp add: sample_nest_writes)
qed

text \<open>
  PS3034 overlooks writes. Its documentation speaks of every indexed write, but only assignments are
  collected, so a nest with \<open>hist[j]++\<close>, which every iteration of the outer loop shares, is reported as
  one whose outer iterations own disjoint output.
\<close>

lemma ps3034_overlooks_increment:
  "\<exists>m a b i. ps3034_nest m [] \<noteq> [] \<and>
     IncDecStmt a (IndexExpr b (sample_ident 20 ''hist'') i) ''++'' \<in> set (nodes m) \<and>
     \<not> index_names (sample_ident 20 ''hist'') i (outermost_loop_var m)"
proof -
  let ?i = "sample_ident 21 ''j''"
  let ?s = "IncDecStmt (sample_node 22) (IndexExpr (sample_node 23) (sample_ident 20 ''hist'') ?i) ''++''"
  let ?m = "sample_nest (sample_ident 19 ''b'') [?s]"
  have w: "nest_writes ?m = [(sample_ident 17 ''dst'', sample_ident 19 ''b'')]"
    by (simp add: nest_writes_def inspect_each sample_nest_def sample_ident_def nodes.simps)
  have "index_names (sample_ident 17 ''dst'') (sample_ident 19 ''b'') ''b''"
    by (subst index_names_iff) (simp add: sample_ident_def nodes.simps names_in_def)
  then have "direct_writes ?m" unfolding direct_writes_def w sample_nest_var by simp
  then have "ps3034_nest ?m [] \<noteq> []" by (simp add: ps3034_nest_writes)
  moreover have "?s \<in> set (nodes ?m)"
    by (simp add: sample_nest_def sample_ident_def nodes.simps del: node.inject)
  moreover have "\<not> index_names (sample_ident 20 ''hist'') ?i (outermost_loop_var ?m)"
    by (subst index_names_iff) (simp add: sample_ident_def nodes.simps names_in_def)
  ultimately show ?thesis by blast
qed

text \<open>
  The loop a node is in. \<open>InLoop\<close> gives the innermost loop that holds the node in its body with no function
  literal in between, and except directly below a literal it gives one exactly when \<open>OutermostLoop\<close>
  does; a callback of \<open>WithStack\<close> is given the ancestors of its node.
\<close>

lemma in_loop_exact:
  "(in_loop stack = Some l \<longleftrightarrow> innermost stack l) \<and>
   (is_func_lit n \<or> (in_loop (stack @ [n]) = None) = (outermost_loop (stack @ [n]) = None)) \<and>
   with_stack fn root s = walk fn [] root s"
  using loops_agree [of "stack @ [n]"] in_loop_innermost with_stack_walk by auto

end
