(* ===== verification/Call_Chains.thy ===== *)
theory Call_Chains
  imports Ast_Util Go_Text
begin

text \<open>
  The matchers of nested package calls (\<open>checks/callchain.go\<close>) and the editor their fixes share
  (\<open>checks/exprutil.go\<close>): which calls form a run, which spans a fix deletes, and the guards that
  keep comments, imports and declarations intact.
\<close>

section \<open>Files\<close>

text \<open>
  A file with its comment groups, each \<open>Pos()\<close> and \<open>End()\<close>, and its import declarations. The
  quoted path of a specification is the text of its literal.
\<close>

record import_spec =
  is_path :: string
  is_commented :: bool
  is_start :: int

record import_decl =
  id_start :: int
  id_end :: int
  id_rparen :: int
  id_specs :: "import_spec list"

record go_file =
  gf_tree :: node
  gf_comments :: "(int \<times> int) list"
  gf_imports :: "import_decl list"

record chain_pass =
  ch_files :: "go_file list"
  ch_info :: type_info
  ch_printable :: "nat \<Rightarrow> bool"

definition comment_in :: "go_file \<Rightarrow> int \<Rightarrow> int \<Rightarrow> bool" where
  "comment_in f p e = list_ex (\<lambda>(cp, ce). ce > p \<and> cp < e) (gf_comments f)"

definition imports_c :: "go_file \<Rightarrow> bool" where
  "imports_c f = list_ex (\<lambda>d. list_ex (\<lambda>s. is_path s = [CHR 0x22, CHR ''C'', CHR 0x22]) (id_specs d)) (gf_imports f)"

section \<open>Callees\<close>

fun unparen :: "node \<Rightarrow> node" where
  "unparen (ParenExpr _ x) = unparen x"
| "unparen n = n"

text \<open>A generic instantiation with several arguments is a node \<open>IndexListExpr\<close> whose first child is the generic function.\<close>

definition callee_head :: "node \<Rightarrow> node" where
  "callee_head f =
     (case unparen f of
        IndexExpr _ x _ \<Rightarrow> unparen x
      | Other_Node a kind (x # xs) \<Rightarrow> if kind = ''IndexListExpr'' then unparen x else Other_Node a kind (x # xs)
      | e \<Rightarrow> e)"

definition callee_object :: "type_info \<Rightarrow> node \<Rightarrow> go_object option" where
  "callee_object ti f =
     (case callee_head f of
        SelectorExpr _ x s \<Rightarrow> ti_uses ti s
      | Ident a name \<Rightarrow> ti_uses ti (Ident a name)
      | _ \<Rightarrow> None)"

text \<open>
  \<open>typedCallee\<close> followed by the tests that the function has no receiver and belongs to a package:
  the object, the path of its package and its name.
\<close>

definition package_callee_of :: "type_info \<Rightarrow> node \<Rightarrow> (go_object \<times> string \<times> string) option" where
  "package_callee_of ti f =
     (case callee_object ti f of
        Some (Func_Obj i name (Some path) False) \<Rightarrow> Some (Func_Obj i name (Some path) False, path, name)
      | _ \<Rightarrow> None)"

definition package_binding :: "type_info \<Rightarrow> node \<Rightarrow> go_object option" where
  "package_binding ti f =
     (case as_selector (callee_head f) of
        None \<Rightarrow> None
      | Some (x, _) \<Rightarrow>
          if as_ident (unparen x) = None then None
          else (case ti_uses ti (unparen x) of
                  Some (Pkg_Name i path) \<Rightarrow> Some (Pkg_Name i path)
                | _ \<Rightarrow> None))"

definition package_call_with_binding :: "type_info \<Rightarrow> node \<Rightarrow> string \<Rightarrow> string \<Rightarrow> go_object \<Rightarrow> bool" where
  "package_call_with_binding ti call path name binding =
     (case as_call call of
        None \<Rightarrow> False
      | Some (f, _, _) \<Rightarrow>
          (case package_callee_of ti f of
             None \<Rightarrow> False
           | Some (_, p, n) \<Rightarrow> p = path \<and> n = name \<and> package_binding ti f = Some binding))"

text \<open>\<open>ps2110Unparen(e).(*ast.CallExpr)\<close>.\<close>

definition as_nested_call :: "node \<Rightarrow> node option" where
  "as_nested_call e = (if as_call (unparen e) = None then None else Some (unparen e))"

definition call_args :: "node \<Rightarrow> node list" where
  "call_args call = (case as_call call of Some (_, args, _) \<Rightarrow> args | None \<Rightarrow> [])"

definition call_fun :: "node \<Rightarrow> node" where
  "call_fun call = (case as_call call of Some (f, _, _) \<Rightarrow> f | None \<Rightarrow> call)"

definition has_ellipsis :: "node \<Rightarrow> bool" where
  "has_ellipsis call = (case as_call call of Some (_, _, e) \<Rightarrow> e | None \<Rightarrow> False)"

lemma size_unparen: "size (unparen n) \<le> size n"
  by (induction n rule: unparen.induct) auto

lemma as_call_Some: "as_call n = Some (f, args, e) \<longleftrightarrow> (\<exists>a. n = CallExpr a f args e)"
  by (cases n) auto

lemma call_args_children: "x \<in> set (call_args call) \<Longrightarrow> x \<in> set (children call)"
  by (cases call) (auto simp: call_args_def)

lemma size_nested_call:
  assumes "as_nested_call e = Some c" and "e \<in> set (call_args call)"
  shows "size c < size call"
proof -
  have "c = unparen e" using assms(1) by (simp add: as_nested_call_def split: if_splits)
  then show ?thesis using size_unparen [of e] size_child [OF call_args_children [OF assms(2)]] by simp
qed

section \<open>Repeated calls\<close>

record repeated_call =
  rc_outer :: node
  rc_keep :: node
  rc_path :: string
  rc_name :: string
  rc_calls :: "node list"
  rc_layers :: int

text \<open>What the layers of a run have in common: function, import binding and type.\<close>

record run_head =
  rh_path :: string
  rh_name :: string
  rh_binding :: go_object
  rh_type :: nat

text \<open>The conditions on the next layer \<open>inner\<close> below \<open>keep\<close>.\<close>

definition joins_run ::
    "type_info \<Rightarrow> nat \<Rightarrow> (node \<Rightarrow> node \<Rightarrow> bool) \<Rightarrow> run_head \<Rightarrow> node \<Rightarrow> node \<Rightarrow> bool" where
  "joins_run ti arity compatible h keep inner =
     (length (call_args inner) = arity \<and> \<not> has_ellipsis inner \<and>
      package_call_with_binding ti inner (rh_path h) (rh_name h) (rh_binding h) \<and>
      ti_identity ti inner = Some (rh_type h) \<and> compatible keep inner)"

definition next_layer :: "nat \<Rightarrow> node \<Rightarrow> node option" where
  "next_layer next_arg keep =
     (if next_arg < length (call_args keep) then as_nested_call (call_args keep ! next_arg) else None)"

lemma size_next_layer: "next_layer i keep = Some inner \<Longrightarrow> size inner < size keep"
  by (auto simp: next_layer_def split: if_splits intro: size_nested_call)

function inner_layers ::
    "type_info \<Rightarrow> nat \<Rightarrow> nat \<Rightarrow> (node \<Rightarrow> node \<Rightarrow> bool) \<Rightarrow> run_head \<Rightarrow> node \<Rightarrow> node list" where
  "inner_layers ti arity next_arg compatible h keep =
     (case next_layer next_arg keep of
        None \<Rightarrow> []
      | Some inner \<Rightarrow>
          if joins_run ti arity compatible h keep inner
          then inner # inner_layers ti arity next_arg compatible h inner else [])"
  by pat_completeness auto
termination
  by (relation "measure (\<lambda>(ti, a, i, c, h, keep). size keep)") (auto dest: size_next_layer)

declare inner_layers.simps [simp del]

text \<open>The conditions on the outer call, and what they fix for the run.\<close>

definition run_head_of ::
    "type_info \<Rightarrow> nat \<Rightarrow> (string \<Rightarrow> string \<Rightarrow> bool) \<Rightarrow> node \<Rightarrow> run_head option" where
  "run_head_of ti arity allowed outer =
     (case package_callee_of ti (call_fun outer) of
        None \<Rightarrow> None
      | Some (_, path, name) \<Rightarrow>
          if \<not> allowed path name \<or> length (call_args outer) \<noteq> arity \<or> has_ellipsis outer then None
          else (case (package_binding ti (call_fun outer), ti_identity ti outer) of
                  (Some b, Some t) \<Rightarrow> Some \<lparr>rh_path = path, rh_name = name, rh_binding = b, rh_type = t\<rparr>
                | _ \<Rightarrow> None))"

definition match_repeated ::
    "type_info \<Rightarrow> node \<Rightarrow> nat \<Rightarrow> nat \<Rightarrow> (string \<Rightarrow> string \<Rightarrow> bool) \<Rightarrow> (node \<Rightarrow> node \<Rightarrow> bool) \<Rightarrow>
     repeated_call option" where
  "match_repeated ti outer arity next_arg allowed compatible =
     (if arity < 1 \<or> arity \<le> next_arg then None
      else case run_head_of ti arity allowed outer of
             None \<Rightarrow> None
           | Some h \<Rightarrow>
               (let inner = inner_layers ti arity next_arg compatible h outer in
                if inner = [] then None
                else Some \<lparr>rc_outer = outer, rc_keep = last inner, rc_path = rh_path h, rc_name = rh_name h,
                  rc_calls = outer # inner, rc_layers = int (length inner) + 1\<rparr>))"

definition match_repeated_unary ::
    "type_info \<Rightarrow> node \<Rightarrow> (string \<Rightarrow> string \<Rightarrow> bool) \<Rightarrow> repeated_call option" where
  "match_repeated_unary ti outer allowed = match_repeated ti outer 1 0 allowed (\<lambda>_ _. True)"

text \<open>The deepest layer, the outer one apart, that satisfies \<open>terminal\<close>: the loop counts down.\<close>

fun deepest_terminal :: "(node \<Rightarrow> bool) \<Rightarrow> node list \<Rightarrow> nat \<Rightarrow> nat option" where
  "deepest_terminal terminal calls 0 = None"
| "deepest_terminal terminal calls (Suc i) =
     (if terminal (calls ! Suc i) then Some (Suc i) else deepest_terminal terminal calls i)"

definition match_repeated_ending ::
    "type_info \<Rightarrow> node \<Rightarrow> nat \<Rightarrow> nat \<Rightarrow> (string \<Rightarrow> string \<Rightarrow> bool) \<Rightarrow> (node \<Rightarrow> node \<Rightarrow> bool) \<Rightarrow>
     (node \<Rightarrow> bool) \<Rightarrow> repeated_call option" where
  "match_repeated_ending ti outer arity next_arg allowed compatible terminal =
     (case match_repeated ti outer arity next_arg allowed compatible of
        None \<Rightarrow> None
      | Some m \<Rightarrow>
          (case deepest_terminal terminal (rc_calls m) (length (rc_calls m) - 1) of
             None \<Rightarrow> None
           | Some i \<Rightarrow>
               Some (m\<lparr>rc_keep := rc_calls m ! i, rc_calls := take (Suc i) (rc_calls m),
                 rc_layers := int i + 1\<rparr>)))"

text \<open>\<open>markRepeatedTypedCall\<close>; the map of covered calls is the set of their identities.\<close>

definition mark_calls :: "nat set \<Rightarrow> node list \<Rightarrow> nat set" where
  "mark_calls seen calls = foldl (\<lambda>s c. insert (node_ref c) s) seen calls"

section \<open>Wrappers around a producer\<close>

record wrapper_chain =
  wc_outer :: node
  wc_producer :: node
  wc_expression :: node
  wc_wrappers :: "node list"
  wc_path :: string
  wc_producer_name :: string

type_synonym producer_test = "string \<Rightarrow> string \<Rightarrow> node \<Rightarrow> bool"

text \<open>The loop of \<open>matchTypedPackageWrapperProducerChain\<close> from the wrapper \<open>current\<close>.\<close>

definition is_wrapper :: "type_info \<Rightarrow> go_object \<Rightarrow> run_head \<Rightarrow> node \<Rightarrow> bool" where
  "is_wrapper ti wrapper h current =
     ((case package_callee_of ti (call_fun current) of Some (w, _, _) \<Rightarrow> w = wrapper | None \<Rightarrow> False) \<and>
      length (call_args current) = 1 \<and> \<not> has_ellipsis current \<and>
      package_call_with_binding ti current (rh_path h) (rh_name h) (rh_binding h) \<and>
      ti_identity ti current = Some (rh_type h))"

definition is_producer :: "type_info \<Rightarrow> run_head \<Rightarrow> producer_test \<Rightarrow> node \<Rightarrow> bool" where
  "is_producer ti h accept call =
     (case package_callee_of ti (call_fun call) of
        None \<Rightarrow> False
      | Some (_, path, name) \<Rightarrow>
          path = rh_path h \<and> package_binding ti (call_fun call) = Some (rh_binding h) \<and>
          ti_identity ti call = Some (rh_type h) \<and> accept path name call)"

function wrappers_from ::
    "type_info \<Rightarrow> go_object \<Rightarrow> run_head \<Rightarrow> producer_test \<Rightarrow> node \<Rightarrow> (node list \<times> node \<times> node) option" where
  "wrappers_from ti wrapper h accept current =
     (if \<not> is_wrapper ti wrapper h current then None
      else case next_layer 0 current of
             None \<Rightarrow> None
           | Some call \<Rightarrow>
               if package_call_with_binding ti call (rh_path h) (rh_name h) (rh_binding h)
               then map_option (\<lambda>(ws, e, p). (current # ws, e, p)) (wrappers_from ti wrapper h accept call)
               else if is_producer ti h accept call then Some ([current], call_args current ! 0, call)
               else None)"
  by pat_completeness auto
termination
  by (relation "measure (\<lambda>(ti, w, h, a, current). size current)") (auto dest: size_next_layer)

declare wrappers_from.simps [simp del]

definition producer_name :: "type_info \<Rightarrow> node \<Rightarrow> string" where
  "producer_name ti call =
     (case package_callee_of ti (call_fun call) of Some (_, _, name) \<Rightarrow> name | None \<Rightarrow> [])"

definition match_wrapper_chain ::
    "type_info \<Rightarrow> node \<Rightarrow> string \<Rightarrow> string \<Rightarrow> producer_test \<Rightarrow> wrapper_chain option" where
  "match_wrapper_chain ti root path name accept =
     (case package_callee_of ti (call_fun root) of
        None \<Rightarrow> None
      | Some (wrapper, p, n) \<Rightarrow>
          (case run_head_of ti 1 (\<lambda>p n. p = path \<and> n = name) root of
             None \<Rightarrow> None
           | Some h \<Rightarrow>
               map_option
                 (\<lambda>(ws, e, producer).
                    \<lparr>wc_outer = root, wc_producer = producer, wc_expression = e, wc_wrappers = ws,
                     wc_path = path, wc_producer_name = producer_name ti producer\<rparr>)
                 (wrappers_from ti wrapper h accept root)))"

section \<open>The guards of an edit\<close>

type_synonym span = "int \<times> int"

definition span_contains :: "span \<Rightarrow> int \<Rightarrow> bool" where
  "span_contains s p = (p \<ge> fst s \<and> p < snd s)"

definition in_spans :: "span list \<Rightarrow> int \<Rightarrow> bool" where
  "in_spans spans p = list_ex (\<lambda>s. span_contains s p) spans"

definition is_ident :: "node \<Rightarrow> bool" where
  "is_ident n = (as_ident n \<noteq> None)"

text \<open>\<open>pkgRefCount\<close> and \<open>packageRefsInSpans\<close>.\<close>

definition pkg_ref_count :: "type_info \<Rightarrow> go_file \<Rightarrow> string \<Rightarrow> int" where
  "pkg_ref_count ti f path =
     inspect (each_node (\<lambda>n k. if is_ident n \<and> imported_path ti n = Some path then k + 1 else k)) (gf_tree f) 0"

definition package_refs_in_spans :: "type_info \<Rightarrow> go_file \<Rightarrow> string \<Rightarrow> span list \<Rightarrow> int" where
  "package_refs_in_spans ti f path spans =
     inspect (each_node (\<lambda>n k.
       if is_ident n \<and> in_spans spans (node_pos n) \<and> imported_path ti n = Some path then k + 1 else k))
       (gf_tree f) 0"

text \<open>
  The search both guards share: it strikes out the objects used outside the spans, and stops to
  descend when none is left.
\<close>

definition strike_used :: "type_info \<Rightarrow> span list \<Rightarrow> node option \<Rightarrow> go_object set \<Rightarrow> bool \<times> go_object set" where
  "strike_used ti spans n removed =
     (case n of
        None \<Rightarrow> (True, removed)
      | Some m \<Rightarrow>
          if \<not> is_ident m \<or> in_spans spans (node_pos m) then (True, removed)
          else let left = (case ti_uses ti m of Some ob \<Rightarrow> removed - {ob} | None \<Rightarrow> removed) in (left \<noteq> {}, left))"

definition all_used_outside :: "type_info \<Rightarrow> go_file \<Rightarrow> span list \<Rightarrow> go_object set \<Rightarrow> bool" where
  "all_used_outside ti f spans removed =
     (if removed = {} then True else inspect (strike_used ti spans) (gf_tree f) removed = {})"

text \<open>The objects whose last use may not go: imports without an edit of their own and local constants.\<close>

definition guarded_object :: "string set \<Rightarrow> go_object \<Rightarrow> bool" where
  "guarded_object allowed_imports ob =
     (case ob of
        Pkg_Name _ path \<Rightarrow> path \<notin> allowed_imports
      | Const_Obj _ own package_scope \<Rightarrow> own \<and> \<not> package_scope
      | _ \<Rightarrow> False)"

definition removed_object ::
    "type_info \<Rightarrow> span list \<Rightarrow> (go_object \<Rightarrow> bool) \<Rightarrow> node \<Rightarrow> go_object set \<Rightarrow> go_object set" where
  "removed_object ti spans guarded n removed =
     (if \<not> is_ident n \<or> \<not> in_spans spans (node_pos n) then removed
      else case ti_uses ti n of
             Some ob \<Rightarrow> if guarded ob then insert ob removed else removed
           | None \<Rightarrow> removed)"

definition deletions_keep_uses_allowing :: "type_info \<Rightarrow> go_file \<Rightarrow> string set \<Rightarrow> span list \<Rightarrow> bool" where
  "deletions_keep_uses_allowing ti f allowed_imports spans =
     all_used_outside ti f spans
       (inspect (each_node (removed_object ti spans (guarded_object allowed_imports))) (gf_tree f) {})"

definition deletions_keep_uses :: "type_info \<Rightarrow> go_file \<Rightarrow> span list \<Rightarrow> bool" where
  "deletions_keep_uses ti f spans = deletions_keep_uses_allowing ti f {} spans"

text \<open>
  The guard for local variables. Parameters, receivers and named results are exempt: the names in
  the fields of a receiver, and of the lists \<open>Params\<close> and \<open>Results\<close> of a function type. A field's
  children are its names and then its type.
\<close>

definition field_names :: "node \<Rightarrow> node list" where
  "field_names lst =
     (case lst of
        Other_Node _ _ fs \<Rightarrow>
          concat (map (\<lambda>fd. case fd of Other_Node _ _ cs \<Rightarrow> butlast cs | _ \<Rightarrow> []) fs)
      | _ \<Rightarrow> [])"

definition type_lists :: "node \<Rightarrow> node list" where
  "type_lists ty =
     filter (\<lambda>l. case l of Other_Node _ kind _ \<Rightarrow> kind = ''Params'' \<or> kind = ''Results'' | _ \<Rightarrow> False) (children ty)"

definition exempt_lists :: "node \<Rightarrow> node list" where
  "exempt_lists n =
     (case n of
        FuncDecl _ _ recv _ ty _ \<Rightarrow> opt_list recv @ type_lists ty
      | FuncLit _ ty _ \<Rightarrow> type_lists ty
      | _ \<Rightarrow> [])"

definition add_exempt :: "type_info \<Rightarrow> node \<Rightarrow> go_object set \<Rightarrow> go_object set" where
  "add_exempt ti n exempt =
     foldl (\<lambda>s name. case ti_defs ti name of Some ob \<Rightarrow> insert ob s | None \<Rightarrow> s) exempt
       (concat (map field_names (exempt_lists n)))"

definition local_variable :: "go_object set \<Rightarrow> go_object \<Rightarrow> bool" where
  "local_variable exempt ob =
     (case ob of
        Var_Obj _ own package_scope is_field \<Rightarrow> \<not> is_field \<and> own \<and> \<not> package_scope \<and> ob \<notin> exempt
      | _ \<Rightarrow> False)"

definition deletions_keep_variables :: "type_info \<Rightarrow> go_file \<Rightarrow> span list \<Rightarrow> bool" where
  "deletions_keep_variables ti f spans =
     (let exempt = inspect (each_node (add_exempt ti)) (gf_tree f) {} in
      all_used_outside ti f spans
        (inspect (each_node (removed_object ti spans (local_variable exempt))) (gf_tree f) {}))"

section \<open>Dropping imports\<close>

definition del_edit :: "int \<Rightarrow> int \<Rightarrow> text_edit" where
  "del_edit p e = \<lparr>te_pos = p, te_end = e, te_new_text = []\<rparr>"

text \<open>
  The edits of one declaration whose specification at \<open>i\<close> goes when \<open>removed ! i\<close>: up to the next
  specification, or to the closing parenthesis.
\<close>

definition spec_edits :: "import_decl \<Rightarrow> bool list \<Rightarrow> text_edit list" where
  "spec_edits d removed =
     concat (map (\<lambda>i.
       if removed ! i then
         [del_edit (is_start (id_specs d ! i))
           (if i + 1 < length (id_specs d) then is_start (id_specs d ! (i + 1)) else id_rparen d)]
       else []) [0..<length removed])"

definition decl_edits :: "string set \<Rightarrow> import_decl \<Rightarrow> text_edit list" where
  "decl_edits wanted d =
     (let removed = map (\<lambda>s. is_path s \<in> wanted) (id_specs d) in
      if True \<notin> set removed then []
      else if list_all (\<lambda>b. b) removed then [del_edit (id_start d) (id_end d)]
      else spec_edits d removed)"

definition wanted_specs :: "string set \<Rightarrow> go_file \<Rightarrow> import_spec list" where
  "wanted_specs wanted f = filter (\<lambda>s. is_path s \<in> wanted) (concat (map id_specs (gf_imports f)))"

definition drop_imports_edits :: "(nat \<Rightarrow> bool) \<Rightarrow> go_file \<Rightarrow> string list \<Rightarrow> text_edit list option" where
  "drop_imports_edits printable f pkgs =
     (let wanted = set (map (go_quote printable) pkgs) in
      if list_ex is_commented (wanted_specs wanted f) then None
      else if set (map is_path (wanted_specs wanted f)) \<noteq> wanted then None
      else Some (concat (map (decl_edits wanted) (gf_imports f))))"

section \<open>Building a fix\<close>

text \<open>The loop over the package paths: those whose every reference goes.\<close>

definition imports_to_drop :: "type_info \<Rightarrow> go_file \<Rightarrow> string list \<Rightarrow> span list \<Rightarrow> string list" where
  "imports_to_drop ti f pkgs spans =
     filter (\<lambda>p. p \<noteq> [] \<and> package_refs_in_spans ti f p spans \<noteq> 0 \<and>
                 package_refs_in_spans ti f p spans = pkg_ref_count ti f p)
       (keep_first (\<lambda>p. p) {} pkgs)"

definition fix_replaced ::
    "chain_pass \<Rightarrow> go_file \<Rightarrow> string list \<Rightarrow> string \<Rightarrow> text_edit list \<Rightarrow> suggested_fix option" where
  "fix_replaced cp f pkgs msg edits =
     (let spans = map (\<lambda>e. (te_pos e, te_end e)) edits;
          dropped = imports_to_drop (ch_info cp) f pkgs spans;
          finish = (\<lambda>es. if deletions_keep_uses_allowing (ch_info cp) f (set dropped) spans
            then Some \<lparr>fix_message = msg, fix_edits = es\<rparr> else None) in
      if edits = [] then None
      else if list_ex (\<lambda>e. te_pos e > te_end e \<or> comment_in f (te_pos e) (te_end e)) edits then None
      else if dropped = [] then finish edits
      else if imports_c f then None
      else case drop_imports_edits (ch_printable cp) f dropped of
             None \<Rightarrow> None
           | Some ds \<Rightarrow>
               if list_ex (\<lambda>e. comment_in f (te_pos e) (te_end e)) ds then None else finish (edits @ ds))"

definition fix_deleted ::
    "chain_pass \<Rightarrow> go_file \<Rightarrow> string list \<Rightarrow> string \<Rightarrow> span list \<Rightarrow> suggested_fix option" where
  "fix_deleted cp f pkgs msg spans = fix_replaced cp f pkgs msg (map (\<lambda>(p, e). del_edit p e) spans)"

end
