(* ===== verification/Go_Library.thy ===== *)
theory Go_Library
  imports Go_Path
begin

text \<open>
  Functions of Go's standard library whose nested calls the checks rewrite: \<open>utf8.ValidString\<close>,
  \<open>ToValidUTF8\<close>, \<open>Trim\<close>, \<open>TrimLeft\<close>, \<open>TrimRight\<close> and \<open>Repeat\<close> of \<open>strings\<close> and \<open>bytes\<close>, and
  the laws of these and of \<open>path.Clean\<close> on which the rewrites rest. Strings are arbitrary bytes.
\<close>

section \<open>Decoding at both ends of a string\<close>

text \<open>
  The decoder once more, in one form for all lengths: the lead byte says how many continuation
  bytes follow (four stand for none), and the rune is a function of these bytes.
\<close>

definition cont_count :: "char \<Rightarrow> nat" where
  "cont_count c =
     (let b = byte_at c in
      if b < 0x80 then 0 else if 0xC2 \<le> b \<and> b \<le> 0xDF then 1 else if 0xE0 \<le> b \<and> b \<le> 0xEF then 2
      else if 0xF0 \<le> b \<and> b \<le> 0xF4 then 3 else 4)"

fun conts_ok :: "char \<Rightarrow> string \<Rightarrow> bool" where
  "conts_ok c [] = True"
| "conts_ok c (c1 # cs) =
     ((case second_range (byte_at c) of (lo, hi) \<Rightarrow> cont_byte lo hi c1) \<and> list_all (cont_byte 0x80 0xBF) cs)"

fun rune_value :: "char \<Rightarrow> string \<Rightarrow> nat" where
  "rune_value c [] = byte_at c"
| "rune_value c [c1] = (byte_at c mod 32) * 64 + low6 c1"
| "rune_value c [c1, c2] = ((byte_at c mod 16) * 64 + low6 c1) * 64 + low6 c2"
| "rune_value c (c1 # c2 # c3 # _) = (((byte_at c mod 8) * 64 + low6 c1) * 64 + low6 c2) * 64 + low6 c3"

definition well_formed_head :: "char \<Rightarrow> string \<Rightarrow> bool" where
  "well_formed_head c cs =
     (cont_count c < 4 \<and> cont_count c \<le> length cs \<and> conts_ok c (take (cont_count c) cs))"

lemma list3_cases:
  obtains "cs = []" | c1 where "cs = [c1]" | c1 c2 where "cs = [c1, c2]"
  | c1 c2 c3 t where "cs = c1 # c2 # c3 # t"
  by (metis list.exhaust)

lemma decode_rune_alt:
  "decode_rune (c # cs) =
     Some (if well_formed_head c cs then (rune_value c (take (cont_count c) cs), Suc (cont_count c))
           else (0xFFFD, 1))"
proof -
  obtain lo hi where r: "second_range (byte_at c) = (lo, hi)" by fastforce
  consider "byte_at c < 0x80" | "0xC2 \<le> byte_at c" "byte_at c \<le> 0xDF" | "0xE0 \<le> byte_at c" "byte_at c \<le> 0xEF"
    | "0xF0 \<le> byte_at c" "byte_at c \<le> 0xF4"
    | "0x80 \<le> byte_at c" "byte_at c < 0xC2" | "byte_at c > 0xF4"
    by linarith
  then show ?thesis
  proof cases
    case 1
    then show ?thesis by (simp add: well_formed_head_def cont_count_def Let_def r)
  next
    case 2
    then have "cont_count c = 1" by (simp add: cont_count_def)
    with 2 show ?thesis by (cases cs) (simp_all add: well_formed_head_def Let_def r)
  next
    case 3
    then have "cont_count c = 2" by (simp add: cont_count_def)
    with 3 show ?thesis
      by (cases cs rule: list3_cases) (simp_all add: well_formed_head_def Let_def r numeral_2_eq_2)
  next
    case 4
    then have "cont_count c = 3" by (simp add: cont_count_def)
    with 4 show ?thesis
      by (cases cs rule: list3_cases) (simp_all add: well_formed_head_def Let_def r numeral_3_eq_3)
  next
    case 5
    then have "cont_count c = 4" by (simp add: cont_count_def)
    with 5 show ?thesis by (simp add: well_formed_head_def Let_def r)
  next
    case 6
    then have "cont_count c = 4" by (simp add: cont_count_def)
    with 6 show ?thesis by (simp add: well_formed_head_def Let_def r)
  qed
qed

declare decode_rune.simps(2) [simp del]

text \<open>Equations for evaluation.\<close>

lemma decode_rune_code [code]:
  "decode_rune [] = None"
  "decode_rune (c # cs) =
     (if byte_at c < 0x80 then Some (byte_at c, 1)
      else Some (if well_formed_head c cs then (rune_value c (take (cont_count c) cs), Suc (cont_count c))
           else (0xFFFD, 1)))"
  by (simp, unfold decode_rune_alt, simp add: well_formed_head_def cont_count_def)

lemma decode_rune_None [simp]: "decode_rune s = None \<longleftrightarrow> s = []"
  by (cases s) (simp_all add: decode_rune_alt)

lemma decode_rune_bounds: "decode_rune s = Some (r, w) \<Longrightarrow> 1 \<le> w \<and> w \<le> length s \<and> w \<le> 4"
  by (cases s) (auto simp: decode_rune_alt well_formed_head_def split: if_splits)

text \<open>\<open>utf8.RuneStart\<close>: not a continuation byte.\<close>

definition rune_start :: "char \<Rightarrow> bool" where
  "rune_start c = (byte_at c div 64 \<noteq> 2)"

lemma cont_not_start: "cont_byte 0x80 0xBF c \<Longrightarrow> \<not> rune_start c"
  by (auto simp: cont_byte_def rune_start_def)

lemma second_range_cont: "second_range b = (lo, hi) \<Longrightarrow> cont_byte lo hi c \<Longrightarrow> \<not> rune_start c"
  by (auto simp: second_range_def cont_byte_def rune_start_def split: if_splits)

lemma conts_ok_not_start: "conts_ok c cs \<Longrightarrow> list_all (\<lambda>x. \<not> rune_start x) cs"
proof (cases cs)
  case (Cons c1 t)
  assume "conts_ok c cs"
  then show ?thesis
    using Cons by (auto simp: list_all_iff cont_not_start dest: second_range_cont split: prod.splits)
qed simp

lemma decode_rune_cont:
  assumes "decode_rune s = Some (r, w)" and "0 < i" and "i < w"
  shows "\<not> rune_start (s ! i)"
proof (cases s)
  case (Cons c cs)
  let ?k = "cont_count c"
  from assms Cons have w: "w = Suc ?k" and ok: "conts_ok c (take ?k cs)" "?k \<le> length cs"
    by (auto simp: decode_rune_alt well_formed_head_def split: if_splits)
  obtain j where j: "i = Suc j" using assms(2) by (cases i) auto
  then have "j < length (take ?k cs)" using assms(3) w ok by auto
  then have "\<not> rune_start (take ?k cs ! j)"
    using conts_ok_not_start [OF ok(1)] by (simp add: list_all_length del: nth_take length_take)
  then show ?thesis using j assms(3) w Cons by simp
qed (use assms in simp)

text \<open>The head rune depends on no more bytes than it takes.\<close>

lemma decode_rune_take:
  assumes "decode_rune s = Some (r, w)" and "w \<le> k"
  shows "decode_rune (take k s) = Some (r, w)"
proof (cases s)
  case (Cons c cs)
  have "1 \<le> k" using assms decode_rune_bounds by fastforce
  then obtain j where j: "k = Suc j" by (cases k) auto
  have "well_formed_head c (take j cs) \<longleftrightarrow> well_formed_head c cs" if "well_formed_head c cs \<Longrightarrow> cont_count c \<le> j"
    using that by (auto simp: well_formed_head_def min_def)
  then show ?thesis
    using assms Cons j by (auto simp: decode_rune_alt min_def split: if_splits)
qed (use assms in simp)

text \<open>\<open>DecodeRuneInString\<close> gives the rune U+FFFD of width one at an invalid byte.\<close>

definition invalid_head :: "string \<Rightarrow> bool" where
  "invalid_head s = (decode_rune s = Some (0xFFFD, 1))"

lemma invalid_head_code [code]:
  "invalid_head [] = False"
  "invalid_head (c # cs) = (\<not> well_formed_head c cs)"
proof -
  have "byte_at c < 0x80" if "cont_count c = 0"
    using that by (simp add: cont_count_def Let_def split: if_splits)
  then show "invalid_head (c # cs) = (\<not> well_formed_head c cs)"
    by (cases "cont_count c") (auto simp add: invalid_head_def decode_rune_alt simp del: decode_rune.simps(2))
qed (simp add: invalid_head_def)

lemma decode_rune_append:
  assumes "decode_rune s = Some (r, w)" and "\<not> invalid_head s"
  shows "decode_rune (s @ t) = Some (r, w)"
proof (cases s)
  case (Cons c cs)
  then have "well_formed_head c cs" using assms by (auto simp: invalid_head_def decode_rune_alt split: if_splits)
  then show ?thesis using assms Cons by (simp add: decode_rune_alt well_formed_head_def)
qed (use assms in simp)

text \<open>\<open>DecodeLastRuneInString\<close>: the loop that looks back for the start of the last rune.\<close>

fun start_from :: "string \<Rightarrow> nat \<Rightarrow> nat \<Rightarrow> nat" where
  "start_from s lim 0 = 0"
| "start_from s lim (Suc i) = (if i < lim \<or> rune_start (s ! i) then i else start_from s lim i)"

definition decode_last_rune :: "string \<Rightarrow> (nat \<times> nat) option" where
  "decode_last_rune s =
     (if s = [] then None
      else if byte_at (last s) < 0x80 then Some (byte_at (last s), 1)
      else let start = start_from s (length s - 4) (length s - 1) in
        case decode_rune (drop start s) of
          None \<Rightarrow> None
        | Some (r, w) \<Rightarrow> Some (if start + w = length s then (r, w) else (0xFFFD, 1)))"

lemma start_from_less: "0 < i \<Longrightarrow> start_from s lim i < i"
  by (induction i) (auto simp: less_Suc_eq gr0_conv_Suc)

lemma start_from_lim: "start_from s lim i = 0 \<or> rune_start (s ! start_from s lim i) \<or> start_from s lim i < lim"
  by (induction i) auto

lemma start_from_skips: "start_from s lim i < j \<Longrightarrow> j < i \<Longrightarrow> \<not> rune_start (s ! j)"
  by (induction i) (auto simp: less_Suc_eq split: if_splits)

lemma start_from_zero: "\<forall>j. 0 < j \<longrightarrow> j < i \<longrightarrow> \<not> rune_start (s ! j) \<Longrightarrow> start_from s 0 i = 0"
proof (induction i)
  case (Suc i)
  then show ?case by (cases i) auto
qed simp

lemma start_from_ge: "lim \<le> Suc (start_from s lim i) \<or> i < lim"
  by (induction i) auto

lemma decode_last_bounds: "decode_last_rune s = Some (r, w) \<Longrightarrow> 1 \<le> w \<and> w \<le> length s"
proof -
  assume a: "decode_last_rune s = Some (r, w)"
  then have ne: "s \<noteq> []" by (auto simp: decode_last_rune_def)
  then have l: "1 \<le> length s" by (cases s) auto
  show ?thesis
    using a ne l by (auto simp: decode_last_rune_def Let_def split: if_splits option.splits dest: decode_rune_bounds)
qed

lemma decode_last_None [simp]: "decode_last_rune s = None \<longleftrightarrow> s = []"
proof
  assume a: "decode_last_rune s = None"
  show "s = []"
  proof (rule ccontr)
    assume ne: "s \<noteq> []"
    then have "start_from s (length s - 4) (length s - 1) < length s"
      using start_from_less [of "length s - 1" s "length s - 4"] by (cases "length s - 1 = 0") auto
    then have "drop (start_from s (length s - 4) (length s - 1)) s \<noteq> []" by simp
    then show False using a ne by (auto simp: decode_last_rune_def Let_def split: if_splits option.splits)
  qed
qed (simp add: decode_last_rune_def)

lemma decode_last_Nil [simp]: "decode_last_rune [] = None"
  by simp

text \<open>The last rune is the first, or lies behind it.\<close>

lemma last_rune_behind:
  assumes f: "decode_rune s = Some (r, w)" and l: "decode_last_rune s = Some (r', w')"
  shows "r' = r \<or> w + w' \<le> length s"
proof (rule ccontr)
  assume neg: "\<not> (r' = r \<or> w + w' \<le> length s)"
  let ?n = "length s" and ?st = "start_from s (length s - 4) (length s - 1)"
  have ne: "s \<noteq> []" using f by auto
  have w: "1 \<le> w" "w \<le> ?n" "w \<le> 4" using decode_rune_bounds [OF f] by auto
  have last: "last s = s ! (?n - 1)" using ne by (simp add: last_conv_nth)
  show False
  proof (cases "byte_at (last s) < 0x80")
    case True
    then have "w' = 1" "r' = byte_at (last s)" using l ne by (auto simp: decode_last_rune_def)
    then have wn: "w = ?n" using neg w by auto
    show False
    proof (cases "?n = 1")
      case True
      then obtain c where "s = [c]" by (auto simp: length_Suc_conv)
      then show False
        using f neg \<open>r' = byte_at (last s)\<close> \<open>byte_at (last s) < 0x80\<close>
        by (simp add: decode_rune_alt well_formed_head_def cont_count_def)
    next
      case False
      then have "\<not> rune_start (s ! (?n - 1))" using decode_rune_cont [OF f] wn w by auto
      then show False using True last by (auto simp: rune_start_def)
    qed
  next
    case False
    then obtain r2 size where d: "decode_rune (drop ?st s) = Some (r2, size)"
      and rw: "(r', w') = (if ?st + size = ?n then (r2, size) else (0xFFFD, 1))"
      using l ne by (auto simp: decode_last_rune_def Let_def split: option.splits)
    have size: "1 \<le> size" "size \<le> 4" using decode_rune_bounds [OF d] by auto
    show False
    proof (cases "?st + size = ?n")
      case True
      then have st: "?st < w" using neg rw by auto
      then have "0 < ?st" using neg rw d f True by (cases "?st") auto
      then have "\<not> rune_start (s ! ?st)" using decode_rune_cont [OF f] st by blast
      then have "?st < ?n - 4" using start_from_lim [of s "?n - 4" "?n - 1"] \<open>0 < ?st\<close> by auto
      then show False using True size by linarith
    next
      case False
      then have wn: "w = ?n" using neg rw w by auto
      then have "\<forall>j. 0 < j \<longrightarrow> j < ?n - 1 \<longrightarrow> \<not> rune_start (s ! j)" using decode_rune_cont [OF f] by auto
      then have "?st = 0" using start_from_zero w wn by simp
      then show False using False d f wn by simp
    qed
  qed
qed

section \<open>Valid UTF-8\<close>

text \<open>\<open>utf8.Valid\<close> and \<open>utf8.ValidString\<close>.\<close>

function valid_utf8 :: "string \<Rightarrow> bool" where
  "valid_utf8 s =
     (case decode_rune s of
        None \<Rightarrow> True
      | Some (r, w) \<Rightarrow> if invalid_head s then False else valid_utf8 (drop w s))"
  by pat_completeness auto
termination by (relation "measure length") (auto dest!: decode_rune_bounds)

declare valid_utf8.simps [simp del]

lemma valid_utf8_Nil [simp]: "valid_utf8 []"
  by (simp add: valid_utf8.simps)

lemma valid_utf8_append: "valid_utf8 a \<Longrightarrow> valid_utf8 b \<Longrightarrow> valid_utf8 (a @ b)"
proof (induction a rule: valid_utf8.induct)
  case (1 a)
  show ?case
  proof (cases "decode_rune a")
    case (Some p)
    obtain r w where p: "p = (r, w)" by fastforce
    then have d: "decode_rune a = Some (r, w)" and ok: "\<not> invalid_head a" "valid_utf8 (drop w a)"
      using 1 Some by (auto simp: valid_utf8.simps [of a] split: if_splits)
    have "valid_utf8 (drop w a @ b)" using 1 Some p ok by blast
    moreover have "decode_rune (a @ b) = Some (r, w)" by (rule decode_rune_append [OF d ok(1)])
    moreover from this have "\<not> invalid_head (a @ b)" using ok(1) d by (simp add: invalid_head_def)
    ultimately show ?thesis
      using decode_rune_bounds [OF d] by (subst valid_utf8.simps) simp
  qed (use 1 in simp)
qed

lemma valid_utf8_take: "decode_rune s = Some (r, w) \<Longrightarrow> \<not> invalid_head s \<Longrightarrow> valid_utf8 (take w s)"
  using decode_rune_take [of s r w w] by (subst valid_utf8.simps) (simp add: invalid_head_def)

text \<open>\<open>ToValidUTF8\<close>: runs of invalid bytes become the replacement.\<close>

function to_valid_from :: "string \<Rightarrow> bool \<Rightarrow> string \<Rightarrow> string" where
  "to_valid_from replacement invalid s =
     (case decode_rune s of
        None \<Rightarrow> []
      | Some (r, w) \<Rightarrow>
          if invalid_head s then
            (if invalid then [] else replacement) @ to_valid_from replacement True (drop w s)
          else take w s @ to_valid_from replacement False (drop w s))"
  by pat_completeness auto
termination by (relation "measure (\<lambda>(r, i, s). length s)") (auto dest!: decode_rune_bounds)

declare to_valid_from.simps [simp del]

definition to_valid_utf8 :: "string \<Rightarrow> string \<Rightarrow> string" where
  "to_valid_utf8 s replacement = to_valid_from replacement False s"

lemma to_valid_from_valid: "valid_utf8 rep \<Longrightarrow> valid_utf8 (to_valid_from rep iv s)"
proof (induction rep iv s rule: to_valid_from.induct)
  case (1 rep iv s)
  then show ?case
    by (subst to_valid_from.simps)
      (auto intro!: valid_utf8_append valid_utf8_take split: option.splits)
qed

lemma to_valid_from_id: "valid_utf8 s \<Longrightarrow> to_valid_from rep iv s = s"
proof (induction rep iv s rule: to_valid_from.induct)
  case (1 rep iv s)
  then show ?case
    by (subst to_valid_from.simps)
      (auto simp: valid_utf8.simps [of s] split: option.splits if_splits)
qed

lemma to_valid_absorbs: "valid_utf8 rep \<Longrightarrow> to_valid_utf8 (to_valid_utf8 s rep) rep' = to_valid_utf8 s rep"
  by (simp add: to_valid_utf8_def to_valid_from_id to_valid_from_valid)

section \<open>Trimming a cutset\<close>

text \<open>The loops of \<open>TrimLeft\<close> and \<open>TrimRight\<close>; \<open>ks\<close> holds the runes of the cutset.\<close>

function trim_left_set :: "nat set \<Rightarrow> string \<Rightarrow> string" where
  "trim_left_set ks s =
     (case decode_rune s of
        None \<Rightarrow> []
      | Some (r, w) \<Rightarrow> if r \<in> ks then trim_left_set ks (drop w s) else s)"
  by pat_completeness auto
termination by (relation "measure (\<lambda>(ks, s). length s)") (auto dest!: decode_rune_bounds)

function trim_right_set :: "nat set \<Rightarrow> string \<Rightarrow> string" where
  "trim_right_set ks s =
     (case decode_last_rune s of
        None \<Rightarrow> []
      | Some (r, w) \<Rightarrow> if r \<in> ks then trim_right_set ks (take (length s - w) s) else s)"
  by pat_completeness auto
termination by (relation "measure (\<lambda>(ks, s). length s)") (auto dest!: decode_last_bounds)

declare trim_left_set.simps [simp del] trim_right_set.simps [simp del]

definition cut_left :: "string \<Rightarrow> string \<Rightarrow> string" where
  "cut_left s cutset = trim_left_set (set (runes cutset)) s"

definition cut_right :: "string \<Rightarrow> string \<Rightarrow> string" where
  "cut_right s cutset = trim_right_set (set (runes cutset)) s"

definition cut_both :: "string \<Rightarrow> string \<Rightarrow> string" where
  "cut_both s cutset = cut_right (cut_left s cutset) cutset"

definition head_kept :: "nat set \<Rightarrow> string \<Rightarrow> bool" where
  "head_kept ks s = (case decode_rune s of None \<Rightarrow> True | Some (r, w) \<Rightarrow> r \<notin> ks)"

lemma trim_left_head: "head_kept ks (trim_left_set ks s)"
proof (induction ks s rule: trim_left_set.induct)
  case (1 ks s)
  show ?case
  proof (cases "decode_rune s")
    case (Some p)
    obtain r w where "p = (r, w)" by fastforce
    with Some 1 show ?thesis
      by (cases "r \<in> ks") (simp_all add: trim_left_set.simps [of ks s] head_kept_def)
  qed (simp add: trim_left_set.simps head_kept_def)
qed

lemma trim_left_id: "head_kept ks s \<Longrightarrow> trim_left_set ks s = s"
  by (subst trim_left_set.simps) (auto simp: head_kept_def split: option.splits)

lemma trim_right_twice: "trim_right_set ks (trim_right_set ks s) = trim_right_set ks s"
proof (induction ks s rule: trim_right_set.induct)
  case (1 ks s)
  show ?case
  proof (cases "decode_last_rune s")
    case (Some p)
    obtain r w where "p = (r, w)" by fastforce
    with Some 1 show ?thesis by (cases "r \<in> ks") (simp_all add: trim_right_set.simps [of ks s])
  qed (simp add: trim_right_set.simps)
qed

text \<open>Trimming on the right does not touch a first rune that stays.\<close>

lemma head_kept_trim_right: "head_kept ks s \<Longrightarrow> head_kept ks (trim_right_set ks s)"
proof (induction ks s rule: trim_right_set.induct)
  case (1 ks s)
  show ?case
  proof (cases "decode_last_rune s")
    case None
    then show ?thesis by (simp add: trim_right_set.simps head_kept_def)
  next
    case (Some p)
    obtain r' w' where p: "p = (r', w')" by fastforce
    then have l: "decode_last_rune s = Some (r', w')" using Some by simp
    then obtain r w where f: "decode_rune s = Some (r, w)" by (cases "decode_rune s") auto
    show ?thesis
    proof (cases "r' \<in> ks")
      case True
      have "r \<notin> ks" using 1(2) f by (simp add: head_kept_def)
      then have "w \<le> length s - w'" using last_rune_behind [OF f l] True by auto
      then have "head_kept ks (take (length s - w') s)"
        using decode_rune_take [OF f] \<open>r \<notin> ks\<close> by (simp add: head_kept_def)
      then have "head_kept ks (trim_right_set ks (take (length s - w') s))" using 1(1) Some p True by blast
      then show ?thesis using l True by (subst trim_right_set.simps) simp
    next
      case False
      then show ?thesis using l 1(2) by (subst trim_right_set.simps) simp
    qed
  qed
qed

lemma cut_left_twice: "cut_left (cut_left s c) c = cut_left s c"
  by (simp add: cut_left_def trim_left_id trim_left_head)

lemma cut_right_twice: "cut_right (cut_right s c) c = cut_right s c"
  by (simp add: cut_right_def trim_right_twice)

lemma cut_both_twice: "cut_both (cut_both s c) c = cut_both s c"
  by (simp add: cut_both_def cut_left_def cut_right_def trim_left_id head_kept_trim_right trim_left_head
      trim_right_twice)

section \<open>Repetition\<close>

text \<open>\<open>Repeat\<close> panics for a negative count and when the length of the result is no \<open>int\<close>.\<close>

definition go_repeat :: "int \<Rightarrow> 'a list \<Rightarrow> int \<Rightarrow> 'a list option" where
  "go_repeat max_int s n =
     (if n < 0 \<or> int (length s) * n > max_int then None
      else Some (concat (replicate (nat n) s)))"

lemma length_copies: "length (concat (replicate n s)) = n * length s"
  by (induction n) auto

lemma copies_mult: "concat (replicate m (concat (replicate n s))) = concat (replicate (n * m) s)"
  by (induction m) (simp_all add: replicate_add [symmetric] concat_append [symmetric] del: concat_append)

lemma repeat_repeat:
  assumes "0 < a" and "0 < b"
  shows "Option.bind (go_repeat mx s a) (\<lambda>t. go_repeat mx t b) = go_repeat mx s (a * b)"
proof (cases "int (length s) * a > mx")
  case True
  have "int (length s) * a * 1 \<le> int (length s) * a * b" by (rule mult_left_mono) (use assms in auto)
  then have "int (length s) * (a * b) > mx" using True by (simp add: mult.assoc)
  then show ?thesis using True by (simp add: go_repeat_def)
next
  case False
  then show ?thesis
    using assms
    by (simp add: go_repeat_def length_copies copies_mult nat_mult_distrib mult_ac not_less)
qed

section \<open>Cleaned paths\<close>

text \<open>What \<open>Clean\<close> leaves of a relative path: steps up, then proper components.\<close>

definition normal_comps :: "string list \<Rightarrow> bool" where
  "normal_comps cs = (\<exists>k gs. cs = replicate k ''..'' @ gs \<and> (\<forall>c\<in>set gs. good_comp c))"

lemma clean_step_normal:
  assumes "normal_comps out" and "c \<noteq> []" and "sep \<notin> set c"
  shows "normal_comps (clean_step False out c)"
proof -
  obtain k gs where o: "out = replicate k ''..'' @ gs" and g: "\<forall>c\<in>set gs. good_comp c"
    using assms(1) by (auto simp: normal_comps_def)
  consider "c = ''.''" | "c = ''..''" "gs = []" | "c = ''..''" "gs \<noteq> []" | "good_comp c"
    using assms by (auto simp: good_comp_def)
  then show ?thesis
  proof cases
    case 2
    then have "clean_step False out c = replicate (Suc k) ''..'' @ []"
      using o by (cases k) (auto simp: clean_step_def replicate_append_same)
    then show ?thesis unfolding normal_comps_def by (intro exI [of _ "Suc k"] exI [of _ "[]"]) simp
  next
    case 3
    then have "good_comp (last gs)" using g by auto
    then have "clean_step False out c = replicate k ''..'' @ butlast gs"
      using 3 o by (simp add: clean_step_def good_comp_def butlast_append)
    then show ?thesis using g by (auto simp: normal_comps_def dest: in_set_butlastD)
  next
    case 4
    then have "clean_step False out c = replicate k ''..'' @ (gs @ [c])"
      using o by (simp add: clean_step_good)
    then show ?thesis using g 4 unfolding normal_comps_def by (metis Un_iff set_append set_ConsD append_Nil list.set(1) emptyE)
  qed (use assms in \<open>simp add: clean_step_def\<close>)
qed

lemma clean_comps_normal: "\<forall>c\<in>set cs. c \<noteq> [] \<and> sep \<notin> set c \<Longrightarrow> normal_comps (clean_comps False cs)"
proof -
  have "normal_comps out \<Longrightarrow> \<forall>c\<in>set cs. c \<noteq> [] \<and> sep \<notin> set c \<Longrightarrow> normal_comps (foldl (clean_step False) out cs)" for out
    by (induction cs arbitrary: out) (auto intro: clean_step_normal)
  moreover have "normal_comps []" by (simp add: normal_comps_def)
  ultimately show "\<forall>c\<in>set cs. c \<noteq> [] \<and> sep \<notin> set c \<Longrightarrow> ?thesis" by (simp add: clean_comps_def)
qed

lemma clean_normal_id: "normal_comps cs \<Longrightarrow> clean_comps False cs = cs"
proof -
  assume "normal_comps cs"
  then obtain k gs where cs: "cs = replicate k ''..'' @ gs" and g: "\<forall>c\<in>set gs. good_comp c"
    by (auto simp: normal_comps_def)
  have "foldl (clean_step False) (replicate j ''..'') (replicate k ''..'') = replicate (j + k) ''..''" for j
  proof (induction k arbitrary: j)
    case (Suc k)
    have "clean_step False (replicate j ''..'') ''..'' = replicate (Suc j) ''..''"
      by (cases j) (auto simp: clean_step_def replicate_append_same)
    then show ?case using Suc [of "Suc j"] by simp
  qed simp
  from this [of 0] show ?thesis
    using cs clean_good_id [OF g] by (simp add: clean_comps_def)
qed

lemma normal_comps_seps: "normal_comps cs \<Longrightarrow> \<forall>c\<in>set cs. c \<noteq> [] \<and> sep \<notin> set c"
proof -
  assume "normal_comps cs"
  then obtain k gs where cs: "cs = replicate k ''..'' @ gs" and g: "\<forall>c\<in>set gs. good_comp c"
    by (auto simp: normal_comps_def)
  have "''..'' \<noteq> [] \<and> sep \<notin> set ''..''" by (simp add: sep_def)
  moreover have "c \<in> set gs \<Longrightarrow> c \<noteq> [] \<and> sep \<notin> set c" for c using g by (simp add: good_comp_def)
  ultimately show ?thesis unfolding cs by (metis Un_iff in_set_replicate set_append)
qed

lemma join_stays_relative: "\<forall>c\<in>set cs. c \<noteq> [] \<and> sep \<notin> set c \<Longrightarrow> \<not> is_abs (join_with [sep] cs)"
proof (cases cs)
  case (Cons c t)
  assume a: "\<forall>c\<in>set cs. c \<noteq> [] \<and> sep \<notin> set c"
  then obtain x y where "c = x # y" "x \<noteq> sep" using Cons by (cases c) auto
  then show ?thesis using Cons by (cases t) (auto simp: is_abs_def has_prefix_iff)
qed (simp add: is_abs_def has_prefix_iff)

lemma path_clean_twice: "path_clean (path_clean p) = path_clean p"
proof (cases "is_abs p")
  case False
  let ?cs = "clean_comps False (comps p)"
  have n: "normal_comps ?cs" by (rule clean_comps_normal) (use comps_no_sep in blast)
  have dot: "path_clean ''.'' = ''.''" by code_simp
  show ?thesis
  proof (cases "p = [] \<or> ?cs = []")
    case True
    then have "path_clean p = ''.''" using False by (auto simp: path_clean_def)
    then show ?thesis using dot by simp
  next
    case c: False
    let ?q = "join_with [sep] ?cs"
    have q: "path_clean p = ?q" using c False by (simp add: path_clean_def)
    have "comps ?q = ?cs" by (rule comps_join [OF normal_comps_seps [OF n]])
    moreover have "\<not> is_abs ?q" by (rule join_stays_relative [OF normal_comps_seps [OF n]])
    moreover from \<open>comps ?q = ?cs\<close> have "?q \<noteq> []" using c by (auto simp: comps_def)
    ultimately have "path_clean ?q = ?q" using c clean_normal_id [OF n] by (simp add: path_clean_def)
    then show ?thesis using q by simp
  qed
qed (rule path_clean_idem)

lemma path_clean_dir: "path_clean (path_dir p) = path_dir p"
  by (cases "last_index sep p") (simp_all only: path_dir_def option.case path_clean_twice)

lemma path_clean_base: "path_clean (path_base p) = path_base p"
proof -
  have one: "path_clean c = c" if "c \<noteq> []" "sep \<notin> set c" for c
  proof -
    have "comps c = [c]" using that by (simp add: comps_def split_on_single)
    moreover have "\<not> is_abs c" using that by (cases c) (auto simp: is_abs_def has_prefix_iff)
    ultimately show ?thesis using that by (simp add: path_clean_def clean_comps_def clean_step_def)
  qed
  have "path_clean ''.'' = ''.''" "path_clean [sep] = [sep]" by code_simp+
  moreover have "path_clean (last (comps p)) = last (comps p)" if "comps p \<noteq> []"
    by (rule one) (use that comps_no_sep in \<open>auto dest: last_in_set\<close>)
  ultimately show ?thesis by (simp add: path_base_def Let_def)
qed

lemma path_clean_join: "list_ex (\<lambda>e. e \<noteq> []) es \<Longrightarrow> path_clean (path_join es) = path_join es"
  by (auto simp: path_join_def Let_def path_clean_twice list_ex_iff filter_empty_conv)

end
