(* ===== verification/Checks_Chains.thy ===== *)
theory Checks_Chains
  imports Call_Chains Go_Library
begin

text \<open>
  Checks of nested calls with a rewrite: PS5075, PS5077, PS5108, PS5111, PS5115 and PS5116
  (\<open>checks/ps5075.go\<close> and so on). A check gives its diagnostics in the order in which it reports them.
\<close>

section \<open>Shared by the checks\<close>

definition over_chain_files :: "chain_pass \<Rightarrow> (go_file \<Rightarrow> diagnostic list \<Rightarrow> diagnostic list) \<Rightarrow> diagnostic list" where
  "over_chain_files cp g = foldl (\<lambda>s f. g f s) [] (ch_files cp)"

definition chain_diag :: "node \<Rightarrow> string \<Rightarrow> suggested_fix list \<Rightarrow> diagnostic" where
  "chain_diag n msg fixes = \<lparr>dg_pos = node_pos n, dg_end = node_end n, dg_message = msg, dg_fixes = fixes\<rparr>"

text \<open>The spans around \<open>keep\<close> in \<open>outer\<close>, and their deletion.\<close>

definition spans_around :: "node \<Rightarrow> node \<Rightarrow> span list" where
  "spans_around outer keep = [(node_pos outer, node_pos keep), (node_end keep, node_end outer)]"

definition edits_around :: "node \<Rightarrow> node \<Rightarrow> text_edit list" where
  "edits_around outer keep = map (\<lambda>(p, e). del_edit p e) (spans_around outer keep)"

definition comment_around :: "go_file \<Rightarrow> node \<Rightarrow> node \<Rightarrow> bool" where
  "comment_around f outer keep = list_ex (\<lambda>(p, e). comment_in f p e) (spans_around outer keep)"

text \<open>\<open>ps5077Cutset\<close>: the value of a constant string.\<close>

definition constant_string :: "type_info \<Rightarrow> node \<Rightarrow> string option" where
  "constant_string ti e = (case ti_value ti (unparen e) of Some (Const_String s) \<Rightarrow> Some s | _ \<Rightarrow> None)"

section \<open>PS5111\<close>

definition ps5111_accepts :: "type_info \<Rightarrow> string \<Rightarrow> producer_test" where
  "ps5111_accepts ti pkg path name call =
     (path = pkg \<and>
      (if name = ''Dir'' \<or> name = ''Base'' then length (call_args call) = 1 \<and> \<not> has_ellipsis call
       else name = ''Join'' \<and>
         list_ex (\<lambda>a. case constant_string ti a of Some s \<Rightarrow> s \<noteq> [] | None \<Rightarrow> False) (call_args call)))"

definition ps5111_chain :: "type_info \<Rightarrow> node \<Rightarrow> wrapper_chain option" where
  "ps5111_chain ti root =
     (case package_callee_of ti (call_fun root) of
        None \<Rightarrow> None
      | Some (_, path, name) \<Rightarrow>
          if name \<noteq> ''Clean'' \<or> path \<noteq> ''path'' then None
          else match_wrapper_chain ti root path ''Clean'' (ps5111_accepts ti path))"

definition message_ps5111 :: "wrapper_chain \<Rightarrow> string" where
  "message_ps5111 m =
     wc_path m @ ''.Clean rescans the canonical nonempty result of '' @ wc_path m @ ''.'' @ wc_producer_name m @
     '' through '' @ itoa (int (length (wc_wrappers m))) @ '' redundant Clean layer(s); retain the producer directly''"

definition ps5111_node :: "chain_pass \<Rightarrow> go_file \<Rightarrow> node \<Rightarrow> nat set \<times> diagnostic list \<Rightarrow> nat set \<times> diagnostic list" where
  "ps5111_node cp f n st =
     (case st of (seen, out) \<Rightarrow>
        if as_call n = None \<or> node_ref n \<in> seen then st
        else case ps5111_chain (ch_info cp) n of
               None \<Rightarrow> st
             | Some m \<Rightarrow>
                 (mark_calls seen (wc_wrappers m),
                  out @ [chain_diag (wc_outer m) (message_ps5111 m)
                    (opt_list (fix_deleted cp f [wc_path m] ''remove Clean around the canonical path producer''
                      (spans_around (wc_outer m) (wc_expression m))))]))"

definition run_ps5111 :: "chain_pass \<Rightarrow> diagnostic list" where
  "run_ps5111 cp = over_chain_files cp (\<lambda>f out. snd (inspect (each_node (ps5111_node cp f)) (gf_tree f) ({}, out)))"

section \<open>PS5075\<close>

definition ps5075_functions :: "string \<Rightarrow> string set" where
  "ps5075_functions path =
     (if path = ''strings'' then {''ToLower'', ''ToUpper'', ''ToTitle'', ''TrimSpace''}
      else if path = ''bytes'' then {''TrimSpace''}
      else if path = ''path'' then {''Clean''}
      else if path = ''path/filepath'' then {''Clean''}
      else if path = ''math'' then {''Abs'', ''Ceil'', ''Floor'', ''Trunc'', ''Round'', ''RoundToEven''}
      else if path = ''unicode'' then {''ToLower'', ''ToUpper'', ''ToTitle''}
      else if path = ''slices'' then {''Compact''}
      else {})"

definition ps5075_allowed :: "string \<Rightarrow> string \<Rightarrow> bool" where
  "ps5075_allowed path name = (name \<in> ps5075_functions path)"

definition message_ps5075 :: "repeated_call \<Rightarrow> string" where
  "message_ps5075 m =
     rc_path m @ ''.'' @ rc_name m @ '' is applied '' @ itoa (rc_layers m) @
     '' times; it is idempotent, so the extra '' @ itoa (rc_layers m - 1) @
     '' layer(s) repeat work without changing the result''"

definition ps5075_node :: "chain_pass \<Rightarrow> go_file \<Rightarrow> node \<Rightarrow> nat set \<times> diagnostic list \<Rightarrow> nat set \<times> diagnostic list" where
  "ps5075_node cp f n st =
     (case st of (seen, out) \<Rightarrow>
        if as_call n = None then st
        else if ps5111_chain (ch_info cp) n \<noteq> None then st
        else if node_ref n \<in> seen then st
        else case match_repeated_unary (ch_info cp) n ps5075_allowed of
               None \<Rightarrow> st
             | Some m \<Rightarrow>
                 (mark_calls seen (rc_calls m),
                  out @ [chain_diag n (message_ps5075 m)
                    (if comment_around f n (rc_keep m) then []
                     else [\<lparr>fix_message = ''remove redundant normalizer calls'',
                            fix_edits = edits_around n (rc_keep m)\<rparr>])]))"

definition run_ps5075 :: "chain_pass \<Rightarrow> diagnostic list" where
  "run_ps5075 cp = over_chain_files cp (\<lambda>f out. snd (inspect (each_node (ps5075_node cp f)) (gf_tree f) ({}, out)))"

section \<open>PS5077\<close>

definition ps5077_functions :: "string \<Rightarrow> string set" where
  "ps5077_functions path =
     (if path = ''strings'' \<or> path = ''bytes'' then {''Trim'', ''TrimLeft'', ''TrimRight''} else {})"

definition ps5077_allowed :: "string \<Rightarrow> string \<Rightarrow> bool" where
  "ps5077_allowed path name = (name \<in> ps5077_functions path)"

definition ps5077_same_cutset :: "type_info \<Rightarrow> node \<Rightarrow> node \<Rightarrow> bool" where
  "ps5077_same_cutset ti outer inner =
     (case constant_string ti (call_args outer ! 1) of
        None \<Rightarrow> False
      | Some a \<Rightarrow> constant_string ti (call_args inner ! 1) = Some a)"

definition ps5077_match :: "type_info \<Rightarrow> node \<Rightarrow> repeated_call option" where
  "ps5077_match ti n = match_repeated ti n 2 0 ps5077_allowed (ps5077_same_cutset ti)"

definition message_ps5077 :: "repeated_call \<Rightarrow> string" where
  "message_ps5077 m =
     rc_path m @ ''.'' @ rc_name m @ '' is applied '' @ itoa (rc_layers m) @
     '' times with the same constant cutset; the extra '' @ itoa (rc_layers m - 1) @
     '' layer(s) repeat stable-boundary work without changing the result''"

definition ps5077_fix_keeps_uses :: "type_info \<Rightarrow> go_file \<Rightarrow> repeated_call \<Rightarrow> bool" where
  "ps5077_fix_keeps_uses ti f m = deletions_keep_uses ti f (spans_around (rc_outer m) (rc_keep m))"

definition ps5077_fix :: "repeated_call \<Rightarrow> suggested_fix" where
  "ps5077_fix m =
     \<lparr>fix_message = ''remove redundant trim calls'', fix_edits = edits_around (rc_outer m) (rc_keep m)\<rparr>"

definition ps5077_node :: "chain_pass \<Rightarrow> go_file \<Rightarrow> node \<Rightarrow> nat set \<times> diagnostic list \<Rightarrow> nat set \<times> diagnostic list" where
  "ps5077_node cp f n st =
     (case st of (seen, out) \<Rightarrow>
        if as_call n = None \<or> node_ref n \<in> seen then st
        else case ps5077_match (ch_info cp) n of
               None \<Rightarrow> st
             | Some m \<Rightarrow>
                 (mark_calls seen (rc_calls m),
                  out @ [chain_diag n (message_ps5077 m)
                    (if \<not> comment_around f n (rc_keep m) \<and> ps5077_fix_keeps_uses (ch_info cp) f m
                     then [ps5077_fix m] else [])]))"

definition run_ps5077 :: "chain_pass \<Rightarrow> diagnostic list" where
  "run_ps5077 cp = over_chain_files cp (\<lambda>f out. snd (inspect (each_node (ps5077_node cp f)) (gf_tree f) ({}, out)))"

section \<open>PS5108\<close>

definition ps5108_packages :: "string set" where
  "ps5108_packages = {''strings'', ''bytes'', ''slices''}"

definition ps5108_allowed :: "string \<Rightarrow> string \<Rightarrow> bool" where
  "ps5108_allowed path name = (name = ''Repeat'' \<and> path \<in> ps5108_packages)"

definition max_portable_int :: int where "max_portable_int = 2 ^ 31 - 1"

text \<open>\<open>Int64Val\<close> is exact for the integers of 64 bits.\<close>

definition ps5108_positive_count :: "type_info \<Rightarrow> node \<Rightarrow> int option" where
  "ps5108_positive_count ti e =
     (case ti_value ti (unparen e) of
        Some (Const_Int v) \<Rightarrow>
          if - (2 ^ 63) \<le> v \<and> v < 2 ^ 63 \<and> v > 0 \<and> v \<le> max_portable_int then Some v else None
      | _ \<Rightarrow> None)"

definition ps5108_positive_pair :: "type_info \<Rightarrow> node \<Rightarrow> node \<Rightarrow> bool" where
  "ps5108_positive_pair ti outer inner =
     (ps5108_positive_count ti (call_args outer ! 1) \<noteq> None \<and>
      ps5108_positive_count ti (call_args inner ! 1) \<noteq> None)"

definition ps5108_match :: "type_info \<Rightarrow> node \<Rightarrow> repeated_call option" where
  "ps5108_match ti n = match_repeated ti n 2 0 ps5108_allowed (ps5108_positive_pair ti)"

text \<open>The loop over the calls; the quotient is of positive numbers.\<close>

fun ps5108_product_from :: "type_info \<Rightarrow> int \<Rightarrow> node list \<Rightarrow> int option" where
  "ps5108_product_from ti product [] = Some product"
| "ps5108_product_from ti product (call # calls) =
     (if length (call_args call) \<noteq> 2 then None
      else case ps5108_positive_count ti (call_args call ! 1) of
             None \<Rightarrow> None
           | Some n \<Rightarrow>
               if product > max_portable_int div n then None
               else ps5108_product_from ti (product * n) calls)"

definition ps5108_count_product :: "type_info \<Rightarrow> node list \<Rightarrow> int option" where
  "ps5108_count_product ti calls = ps5108_product_from ti 1 calls"

definition message_ps5108 :: "repeated_call \<Rightarrow> int \<Rightarrow> string" where
  "message_ps5108 m product =
     rc_path m @ ''.Repeat is nested '' @ itoa (rc_layers m) @ '' times with positive constant counts; combine them to '' @
     itoa product @ '' and avoid '' @ itoa (rc_layers m - 1) @ '' intermediate repetition(s)''"

definition ps5108_fix :: "chain_pass \<Rightarrow> go_file \<Rightarrow> repeated_call \<Rightarrow> int \<Rightarrow> suggested_fix option" where
  "ps5108_fix cp f m product =
     (let kept = call_args (rc_keep m) ! 1 in
      case ps5108_positive_count (ch_info cp) kept of
        None \<Rightarrow> None
      | Some n \<Rightarrow>
          fix_replaced cp f [rc_path m] ''combine nested Repeat counts''
            (edits_around (rc_outer m) (rc_keep m) @
             (if n \<noteq> product
              then [\<lparr>te_pos = node_pos kept, te_end = node_end kept, te_new_text = itoa product\<rparr>] else [])))"

definition ps5108_node :: "chain_pass \<Rightarrow> go_file \<Rightarrow> node \<Rightarrow> nat set \<times> diagnostic list \<Rightarrow> nat set \<times> diagnostic list" where
  "ps5108_node cp f n st =
     (case st of (seen, out) \<Rightarrow>
        if as_call n = None \<or> node_ref n \<in> seen then st
        else case ps5108_match (ch_info cp) n of
               None \<Rightarrow> st
             | Some m \<Rightarrow>
                 (case ps5108_count_product (ch_info cp) (rc_calls m) of
                    None \<Rightarrow> st
                  | Some product \<Rightarrow>
                      (mark_calls seen (rc_calls m),
                       out @ [chain_diag (rc_outer m) (message_ps5108 m product)
                         (opt_list (ps5108_fix cp f m product))])))"

definition run_ps5108 :: "chain_pass \<Rightarrow> diagnostic list" where
  "run_ps5108 cp = over_chain_files cp (\<lambda>f out. snd (inspect (each_node (ps5108_node cp f)) (gf_tree f) ({}, out)))"

section \<open>PS5116\<close>

text \<open>\<open>ps2106PureArg\<close> with no excluded variable: evaluating \<open>e\<close> has no effect and cannot panic.\<close>

definition object_of :: "type_info \<Rightarrow> node \<Rightarrow> go_object option" where
  "object_of ti n = (case ti_defs ti n of Some ob \<Rightarrow> Some ob | None \<Rightarrow> ti_uses ti n)"

definition inert_object :: "go_object \<Rightarrow> bool" where
  "inert_object ob =
     (case ob of
        Var_Obj _ _ _ _ \<Rightarrow> True
      | Const_Obj _ _ _ \<Rightarrow> True
      | Func_Obj _ _ _ _ \<Rightarrow> True
      | _ \<Rightarrow> False)"

text \<open>The parts of a composite literal's elements: key and value, or the element.\<close>

definition element_parts :: "node list \<Rightarrow> node list" where
  "element_parts es = concat (map (\<lambda>e. case e of KeyValueExpr _ k v \<Rightarrow> [k, v] | _ \<Rightarrow> [e]) es)"

lemma size_element_part: "x \<in> set (case e of KeyValueExpr _ k v \<Rightarrow> [k, v] | _ \<Rightarrow> [e]) \<Longrightarrow> size x \<le> size e"
  by (cases e) auto

lemma size_element_parts: "x \<in> set (element_parts es) \<Longrightarrow> size x < Suc (size_list size es)"
proof (induction es)
  case (Cons e es)
  then have "x \<in> set (case e of KeyValueExpr _ k v \<Rightarrow> [k, v] | _ \<Rightarrow> [e]) \<or> x \<in> set (element_parts es)"
    by (simp add: element_parts_def)
  then show ?case using Cons.IH size_element_part [of x e] by auto
qed (simp add: element_parts_def)

function pure_arg :: "type_info \<Rightarrow> node \<Rightarrow> bool" where
  "pure_arg ti n =
     (case n of
        BasicLit _ _ _ \<Rightarrow> True
      | Ident _ _ \<Rightarrow> (case object_of ti n of None \<Rightarrow> False | Some ob \<Rightarrow> inert_object ob \<or> ob = Nil_Obj)
      | ParenExpr _ x \<Rightarrow> pure_arg ti x
      | UnaryExpr _ op x \<Rightarrow> op \<in> {''+'', ''-'', ''!'', ''^''} \<and> pure_arg ti x
      | BinaryExpr _ x op y \<Rightarrow>
          op \<in> {''+'', ''-'', ''*'', ''&'', ''|'', ''^'', ''&^'', ''&&'', ''||''} \<and> pure_arg ti x \<and> pure_arg ti y
      | SelectorExpr _ x s \<Rightarrow>
          (case ti_selection ti n of
             Some (field_value, indirect) \<Rightarrow> field_value \<and> \<not> indirect \<and> pure_arg ti x
           | None \<Rightarrow> (case ti_uses ti s of None \<Rightarrow> False | Some ob \<Rightarrow> inert_object ob))
      | CompositeLit _ _ es \<Rightarrow> list_all (pure_arg ti) (element_parts es)
      | _ \<Rightarrow> False)"
  by pat_completeness auto
termination
  by (relation "measure (\<lambda>(ti, n). size n)") (auto dest: size_element_parts)

declare pure_arg.simps [simp del]

text \<open>The class of the type \<open>[]byte\<close> under \<open>types.Identical\<close> has the number zero.\<close>

definition byte_slice_class :: nat where "byte_slice_class = 0"

definition is_nil_ident :: "type_info \<Rightarrow> node \<Rightarrow> bool" where
  "is_nil_ident ti e = (is_ident e \<and> ti_uses ti e = Some Nil_Obj)"

text \<open>\<open>ps5080ConstBytes\<close>.\<close>

definition constant_bytes :: "type_info \<Rightarrow> node \<Rightarrow> string option" where
  "constant_bytes ti expr =
     (let e = unparen expr in
      if is_nil_ident ti e then Some []
      else if ti_identity ti e \<noteq> Some byte_slice_class then None
      else case e of
             CompositeLit _ (Some ty) es \<Rightarrow> if as_array_type (unparen ty) \<noteq> None \<and> es = [] then Some [] else None
           | CallExpr _ f args ellipsis \<Rightarrow>
               (if as_array_type (unparen f) = None \<or> length args \<noteq> 1 \<or> ellipsis then None
                else if is_nil_ident ti (unparen (args ! 0)) then Some []
                else constant_string ti (args ! 0))
           | _ \<Rightarrow> None)"

definition constant_replacement :: "type_info \<Rightarrow> node \<Rightarrow> string \<Rightarrow> string option" where
  "constant_replacement ti e pkg = (if pkg = ''strings'' then constant_string ti e else constant_bytes ti e)"

definition valid_replacement :: "type_info \<Rightarrow> node \<Rightarrow> string \<Rightarrow> bool" where
  "valid_replacement ti call pkg =
     (case constant_replacement ti (call_args call ! 1) pkg of Some s \<Rightarrow> valid_utf8 s | None \<Rightarrow> False)"

text \<open>The composition of a consumer with a direct producer, each through a package selector.\<close>

record composition =
  co_consumer :: node
  co_producer :: node
  co_name :: string
  co_binding :: go_object
  co_pkg :: string

definition match_composition ::
    "type_info \<Rightarrow> node \<Rightarrow> string \<Rightarrow> string \<Rightarrow> nat \<Rightarrow> nat \<Rightarrow> producer_test \<Rightarrow> (node \<times> go_object) option" where
  "match_composition ti root pkg name arity arg accept =
     (if arity < 1 \<or> arity \<le> arg \<or> length (call_args root) \<noteq> arity \<or> has_ellipsis root then None
      else case package_callee_of ti (call_fun root) of
        None \<Rightarrow> None
      | Some (_, p, n) \<Rightarrow>
          if p \<noteq> pkg \<or> n \<noteq> name \<or> package_binding ti (call_fun root) = None then None
          else case as_nested_call (call_args root ! arg) of
            None \<Rightarrow> None
          | Some producer \<Rightarrow>
              if has_ellipsis producer then None
              else case (package_callee_of ti (call_fun producer), package_binding ti (call_fun producer)) of
                (Some (_, p', n'), Some b) \<Rightarrow> if accept p' n' producer then Some (producer, b) else None
              | _ \<Rightarrow> None)"

definition ps5116_accepts :: "type_info \<Rightarrow> string \<Rightarrow> producer_test" where
  "ps5116_accepts ti pkg path name call =
     (path = pkg \<and> name = ''ToValidUTF8'' \<and> length (call_args call) = 2 \<and> \<not> has_ellipsis call \<and>
      valid_replacement ti call pkg)"

definition ps5116_match :: "type_info \<Rightarrow> node \<Rightarrow> composition option" where
  "ps5116_match ti consumer =
     (case callee_object ti (call_fun consumer) of
        Some (Func_Obj _ name (Some path) recv) \<Rightarrow>
          if path \<noteq> ''unicode/utf8'' \<or> name \<notin> {''ValidString'', ''Valid''} then None
          else let pkg = (if name = ''ValidString'' then ''strings'' else ''bytes'') in
            map_option (\<lambda>(producer, b). \<lparr>co_consumer = consumer, co_producer = producer, co_name = name,
                co_binding = b, co_pkg = pkg\<rparr>)
              (match_composition ti consumer ''unicode/utf8'' name 1 0 (ps5116_accepts ti pkg))
      | _ \<Rightarrow> None)"

definition sanitizer_call :: "type_info \<Rightarrow> node \<Rightarrow> string \<Rightarrow> go_object \<Rightarrow> bool" where
  "sanitizer_call ti call pkg binding =
     (length (call_args call) = 2 \<and> \<not> has_ellipsis call \<and>
      package_call_with_binding ti call pkg ''ToValidUTF8'' binding)"

function discardable_sanitizer :: "type_info \<Rightarrow> node \<Rightarrow> string \<Rightarrow> go_object \<Rightarrow> bool" where
  "discardable_sanitizer ti call pkg binding =
     (if \<not> sanitizer_call ti call pkg binding then False
      else if constant_replacement ti (call_args call ! 1) pkg = None then False
      else case next_layer 0 call of
             Some inner \<Rightarrow>
               if sanitizer_call ti inner pkg binding then discardable_sanitizer ti inner pkg binding
               else pure_arg ti (call_args call ! 0)
           | None \<Rightarrow> pure_arg ti (call_args call ! 0))"
  by pat_completeness auto
termination
  by (relation "measure (\<lambda>(ti, call, p, b). size call)") (auto dest: size_next_layer)

declare discardable_sanitizer.simps [simp del]

text \<open>\<open>ps6071Parents\<close>: the answer on nil is ignored by \<open>ast.Inspect\<close>.\<close>

definition parents_callback ::
    "node option \<Rightarrow> node list \<times> (nat \<Rightarrow> node option) \<Rightarrow> bool \<times> node list \<times> (nat \<Rightarrow> node option)" where
  "parents_callback n st =
     (case st of (stack, parents) \<Rightarrow>
        (case n of
           None \<Rightarrow> (False, (butlast stack, parents))
         | Some m \<Rightarrow>
             (True, (stack @ [m], if stack \<noteq> [] then parents(node_ref m \<mapsto> last stack) else parents))))"

definition parents_of :: "node \<Rightarrow> nat \<Rightarrow> node option" where
  "parents_of root = snd (inspect parents_callback root ([], Map.empty))"

text \<open>
  One round of the loop of \<open>replacementIntroducesConstantInUniqueContext\<close>: an answer, or none to
  go on with the parent.
\<close>

definition context_step :: "type_info \<Rightarrow> node \<Rightarrow> node \<Rightarrow> bool option" where
  "context_step ti current parent =
     (case parent of
        ParenExpr _ _ \<Rightarrow> None
      | UnaryExpr _ _ _ \<Rightarrow> None
      | BinaryExpr _ x _ y \<Rightarrow>
          if ti_value ti (if node_ref current = node_ref x then y else x) = None then Some False else None
      | CallExpr _ f args _ \<Rightarrow>
          (if length args \<noteq> 1 \<or> node_ref current \<noteq> node_ref (args ! 0) then Some False
           else if \<not> ti_is_type ti (unparen f) then Some False
           else None)
      | CaseClause _ lst _ _ \<Rightarrow>
          Some (list_ex (\<lambda>c. node_ref c = node_ref current) (case lst of Some es \<Rightarrow> es | None \<Rightarrow> []))
      | KeyValueExpr _ k _ \<Rightarrow> Some (node_ref k = node_ref current)
      | _ \<Rightarrow> Some False)"

partial_function (option) constant_in_unique_context ::
    "type_info \<Rightarrow> (nat \<Rightarrow> node option) \<Rightarrow> node \<Rightarrow> bool option" where
  "constant_in_unique_context ti parents current =
     (case parents (node_ref current) of
        None \<Rightarrow> Some False
      | Some parent \<Rightarrow>
          (case context_step ti current parent of
             Some answer \<Rightarrow> Some answer
           | None \<Rightarrow> constant_in_unique_context ti parents parent))"

text \<open>The fix, if there is one; the outer option is the loop's.\<close>

definition ps5116_fix ::
    "chain_pass \<Rightarrow> go_file \<Rightarrow> composition \<Rightarrow> (nat \<Rightarrow> node option) \<Rightarrow> suggested_fix option option" where
  "ps5116_fix cp f m parents =
     (let ti = ch_info cp; consumer = co_consumer m in
      if \<not> discardable_sanitizer ti (co_producer m) (co_pkg m) (co_binding m) then Some None
      else case constant_in_unique_context ti parents consumer of
             None \<Rightarrow> None
           | Some True \<Rightarrow> Some None
           | Some False \<Rightarrow>
               Some (if \<not> deletions_keep_variables ti f [(node_pos consumer, node_end consumer)] then None
                 else fix_replaced cp f [''unicode/utf8'', co_pkg m]
                   ''replace validation of proven-valid UTF-8 with true''
                   [\<lparr>te_pos = node_pos consumer, te_end = node_end consumer, te_new_text = ''true''\<rparr>]))"

definition message_ps5116 :: "composition \<Rightarrow> string" where
  "message_ps5116 m =
     ''utf8.'' @ co_name m @ '' validates '' @ co_pkg m @
     ''.ToValidUTF8 output whose replacement already guarantees valid UTF-8; the result is always true''"

definition ps5116_node ::
    "chain_pass \<Rightarrow> go_file \<Rightarrow> (nat \<Rightarrow> node option) \<Rightarrow> node \<Rightarrow> diagnostic list option \<Rightarrow> diagnostic list option" where
  "ps5116_node cp f parents n st =
     (if as_call n = None then st
      else case ps5116_match (ch_info cp) n of
             None \<Rightarrow> st
           | Some m \<Rightarrow>
               Option.bind st (\<lambda>out.
                 map_option (\<lambda>fix. out @ [chain_diag n (message_ps5116 m) (opt_list fix)])
                   (ps5116_fix cp f m parents)))"

definition run_ps5116 :: "chain_pass \<Rightarrow> diagnostic list option" where
  "run_ps5116 cp =
     foldl (\<lambda>st f. inspect (each_node (ps5116_node cp f (parents_of (gf_tree f)))) (gf_tree f) st) (Some [])
       (ch_files cp)"

section \<open>PS5115\<close>

text \<open>The loop of \<open>ps5116OwnedStringSanitizers\<close> from the producer inwards.\<close>

function sanitizer_spine :: "type_info \<Rightarrow> node \<Rightarrow> go_object \<Rightarrow> node list" where
  "sanitizer_spine ti current binding =
     (if \<not> sanitizer_call ti current ''strings'' binding then []
      else current # (case next_layer 0 current of
                        None \<Rightarrow> []
                      | Some inner \<Rightarrow> sanitizer_spine ti inner binding))"
  by pat_completeness auto
termination
  by (relation "measure (\<lambda>(ti, current, b). size current)") (auto dest: size_next_layer)

declare sanitizer_spine.simps [simp del]

definition owned_node ::
    "chain_pass \<Rightarrow> go_file \<Rightarrow> (nat \<Rightarrow> node option) \<Rightarrow> node \<Rightarrow> nat set option \<Rightarrow> nat set option" where
  "owned_node cp f parents n st =
     (if as_call n = None then st
      else case ps5116_match (ch_info cp) n of
             None \<Rightarrow> st
           | Some m \<Rightarrow>
               if co_pkg m \<noteq> ''strings'' then st
               else Option.bind st (\<lambda>owned.
                 map_option (\<lambda>fix.
                   if fix = None then owned
                   else mark_calls owned (sanitizer_spine (ch_info cp) (co_producer m) (co_binding m)))
                 (ps5116_fix cp f m parents)))"

definition owned_sanitizers :: "chain_pass \<Rightarrow> go_file \<Rightarrow> nat set option" where
  "owned_sanitizers cp f =
     inspect (each_node (owned_node cp f (parents_of (gf_tree f)))) (gf_tree f) (Some {})"

definition ps5115_chain :: "type_info \<Rightarrow> node \<Rightarrow> repeated_call option" where
  "ps5115_chain ti outer =
     match_repeated_ending ti outer 2 0 (\<lambda>path name. path = ''strings'' \<and> name = ''ToValidUTF8'')
       (\<lambda>outer _. constant_string ti (call_args outer ! 1) \<noteq> None)
       (\<lambda>call. case constant_string ti (call_args call ! 1) of Some s \<Rightarrow> valid_utf8 s | None \<Rightarrow> False)"

definition message_ps5115 :: "repeated_call \<Rightarrow> string" where
  "message_ps5115 m =
     ''strings.ToValidUTF8 is applied '' @ itoa (rc_layers m) @
     '' times even though the retained call's valid replacement already guarantees valid UTF-8; remove '' @
     itoa (rc_layers m - 1) @ '' redundant rescan layer(s)''"

definition ps5115_node ::
    "chain_pass \<Rightarrow> go_file \<Rightarrow> nat set \<Rightarrow> node \<Rightarrow> nat set \<times> diagnostic list \<Rightarrow> nat set \<times> diagnostic list" where
  "ps5115_node cp f owned n st =
     (case st of (seen, out) \<Rightarrow>
        if as_call n = None \<or> node_ref n \<in> seen \<or> node_ref n \<in> owned then st
        else case ps5115_chain (ch_info cp) n of
               None \<Rightarrow> st
             | Some m \<Rightarrow>
                 (mark_calls seen (rc_calls m),
                  out @ [chain_diag (rc_outer m) (message_ps5115 m)
                    (opt_list (fix_deleted cp f [''strings'']
                      ''remove ToValidUTF8 layers around the proven-valid result''
                      (spans_around (rc_outer m) (rc_keep m))))]))"

definition run_ps5115 :: "chain_pass \<Rightarrow> diagnostic list option" where
  "run_ps5115 cp =
     foldl (\<lambda>st f. Option.bind st (\<lambda>out.
       map_option (\<lambda>owned. snd (inspect (each_node (ps5115_node cp f owned)) (gf_tree f) ({}, out)))
         (owned_sanitizers cp f))) (Some []) (ch_files cp)"

end
