(* ===== verification/Chain_Runs.thy ===== *)
theory Chain_Runs
  imports Checks_Chains
begin

text \<open>
  Runs of nested calls, declaratively: what \<open>match_repeated\<close> finds is the complete run below a call,
  and all its calls agree in function, import binding and type.
\<close>

section \<open>Complete runs\<close>

fun linked ::
    "type_info \<Rightarrow> nat \<Rightarrow> nat \<Rightarrow> (node \<Rightarrow> node \<Rightarrow> bool) \<Rightarrow> run_head \<Rightarrow> node list \<Rightarrow> bool" where
  "linked ti arity i compatible h (c # d # cs) =
     (next_layer i c = Some d \<and> joins_run ti arity compatible h c d \<and> linked ti arity i compatible h (d # cs))"
| "linked ti arity i compatible h _ = True"

definition run_ends ::
    "type_info \<Rightarrow> nat \<Rightarrow> nat \<Rightarrow> (node \<Rightarrow> node \<Rightarrow> bool) \<Rightarrow> run_head \<Rightarrow> node \<Rightarrow> bool" where
  "run_ends ti arity i compatible h c =
     (case next_layer i c of None \<Rightarrow> True | Some d \<Rightarrow> \<not> joins_run ti arity compatible h c d)"

lemma inner_layers_run:
  "linked ti arity i compatible h (keep # inner_layers ti arity i compatible h keep) \<and>
   run_ends ti arity i compatible h (last (keep # inner_layers ti arity i compatible h keep))"
proof (induction ti arity i compatible h keep rule: inner_layers.induct)
  case (1 ti arity i compatible h keep)
  show ?case
  proof (cases "next_layer i keep")
    case None
    then show ?thesis by (simp add: inner_layers.simps [of _ _ _ _ _ keep] run_ends_def)
  next
    case (Some d)
    then show ?thesis
      using 1 by (cases "joins_run ti arity compatible h keep d")
        (simp_all add: inner_layers.simps [of _ _ _ _ _ keep] run_ends_def)
  qed
qed

lemma run_unique:
  "linked ti arity i compatible h (keep # cs) \<Longrightarrow> run_ends ti arity i compatible h (last (keep # cs)) \<Longrightarrow>
     inner_layers ti arity i compatible h keep = cs"
proof (induction cs arbitrary: keep)
  case Nil
  then show ?case
    by (auto simp: inner_layers.simps [of _ _ _ _ _ keep] run_ends_def split: option.splits)
next
  case (Cons d cs)
  then show ?case by (simp add: inner_layers.simps [of _ _ _ _ _ keep])
qed

definition found_run :: "run_head \<Rightarrow> node \<Rightarrow> node list \<Rightarrow> repeated_call" where
  "found_run h outer inner =
     \<lparr>rc_outer = outer, rc_keep = last inner, rc_path = rh_path h, rc_name = rh_name h,
      rc_calls = outer # inner, rc_layers = int (length inner) + 1\<rparr>"

lemma match_repeated_iff:
  "match_repeated ti outer arity i allowed compatible = Some m \<longleftrightarrow>
     1 \<le> arity \<and> i < arity \<and>
     (\<exists>h inner. run_head_of ti arity allowed outer = Some h \<and> inner \<noteq> [] \<and>
        linked ti arity i compatible h (outer # inner) \<and> run_ends ti arity i compatible h (last inner) \<and>
        m = found_run h outer inner)"
    (is "?l \<longleftrightarrow> ?r")
proof
  assume l: ?l
  then obtain h where h: "run_head_of ti arity allowed outer = Some h" and a: "1 \<le> arity" "i < arity"
    and n: "inner_layers ti arity i compatible h outer \<noteq> []"
    and m: "m = found_run h outer (inner_layers ti arity i compatible h outer)"
    by (auto simp: match_repeated_def Let_def found_run_def split: if_splits option.splits)
  show ?r
    using h a n m inner_layers_run [of ti arity i compatible h outer]
    by (intro conjI exI [of _ h] exI [of _ "inner_layers ti arity i compatible h outer"]) simp_all
next
  assume ?r
  then obtain h inner where r: "1 \<le> arity" "i < arity" "run_head_of ti arity allowed outer = Some h" "inner \<noteq> []"
    "linked ti arity i compatible h (outer # inner)" "run_ends ti arity i compatible h (last inner)"
    and m: "m = found_run h outer inner" by blast
  have "inner_layers ti arity i compatible h outer = inner"
    by (rule run_unique) (use r in simp_all)
  then show ?l using r m by (simp add: match_repeated_def found_run_def Let_def)
qed

section \<open>What the calls of a run share\<close>

definition run_call :: "type_info \<Rightarrow> nat \<Rightarrow> run_head \<Rightarrow> node \<Rightarrow> bool" where
  "run_call ti arity h c =
     (length (call_args c) = arity \<and> \<not> has_ellipsis c \<and>
      package_call_with_binding ti c (rh_path h) (rh_name h) (rh_binding h) \<and>
      ti_identity ti c = Some (rh_type h))"

lemma joins_run_call: "joins_run ti arity compatible h c d \<longleftrightarrow> run_call ti arity h d \<and> compatible c d"
  by (auto simp: joins_run_def run_call_def)

lemma call_args_as_call: "call_args c \<noteq> [] \<Longrightarrow> as_call c \<noteq> None"
  by (auto simp: call_args_def split: option.splits)

lemma run_head_call:
  assumes "run_head_of ti arity allowed outer = Some h" and "1 \<le> arity"
  shows "run_call ti arity h outer" and "allowed (rh_path h) (rh_name h)"
proof -
  from assms(1) obtain ob path name b t where
    p: "package_callee_of ti (call_fun outer) = Some (ob, path, name)" "allowed path name"
      "length (call_args outer) = arity" "\<not> has_ellipsis outer"
      "package_binding ti (call_fun outer) = Some b" "ti_identity ti outer = Some t"
    and h: "h = \<lparr>rh_path = path, rh_name = name, rh_binding = b, rh_type = t\<rparr>"
    by (auto simp: run_head_of_def split: option.splits if_splits)
  have "as_call outer \<noteq> None" using p(3) assms(2) by (intro call_args_as_call) auto
  then show "run_call ti arity h outer"
    using p h by (auto simp: run_call_def package_call_with_binding_def call_fun_def split: option.splits)
  show "allowed (rh_path h) (rh_name h)" using p h by simp
qed

lemma run_call_head:
  assumes "run_call ti arity h c" and "1 \<le> arity" and "allowed (rh_path h) (rh_name h)"
  shows "run_head_of ti arity allowed c = Some h"
proof -
  have "as_call c \<noteq> None" using assms(1,2) by (intro call_args_as_call) (auto simp: run_call_def)
  then show ?thesis
    using assms
    by (cases h)
      (auto simp: run_call_def run_head_of_def package_call_with_binding_def call_fun_def split: option.splits)
qed

lemma linked_calls: "linked ti arity i compatible h (c # cs) \<Longrightarrow> run_call ti arity h c \<Longrightarrow> list_all (run_call ti arity h) (c # cs)"
proof (induction cs arbitrary: c)
  case (Cons d cs)
  then have "list_all (run_call ti arity h) (d # cs)" by (intro Cons.IH) (simp_all add: joins_run_call)
  then show ?case using Cons.prems by simp
qed simp

text \<open>What a match tells, in one place.\<close>

lemma match_repeated_facts:
  assumes "match_repeated ti outer arity i allowed compatible = Some m"
  obtains h where "rc_outer m = outer" and "hd (rc_calls m) = outer" and "last (rc_calls m) = rc_keep m"
    and "2 \<le> length (rc_calls m)" and "rc_layers m = int (length (rc_calls m))"
    and "rc_path m = rh_path h" and "rc_name m = rh_name h" and "allowed (rh_path h) (rh_name h)"
    and "list_all (run_call ti arity h) (rc_calls m)" and "linked ti arity i compatible h (rc_calls m)"
proof -
  from assms [unfolded match_repeated_iff] obtain h inner where
    r: "1 \<le> arity" "run_head_of ti arity allowed outer = Some h" "inner \<noteq> []"
      "linked ti arity i compatible h (outer # inner)" and m: "m = found_run h outer inner"
    by blast
  have "list_all (run_call ti arity h) (outer # inner)"
    by (rule linked_calls [OF r(4)]) (rule run_head_call [OF r(2,1)])
  moreover have "2 \<le> length (outer # inner)" using r(3) by (cases inner) auto
  ultimately show thesis
    using that [of h] r m run_head_call(2) [OF r(2,1)] by (simp add: found_run_def)
qed

lemma linked_append: "linked ti arity i compatible h (xs @ ys) \<Longrightarrow> linked ti arity i compatible h xs"
  by (induction xs rule: induct_list012) auto

lemma linked_take: "linked ti arity i compatible h cs \<Longrightarrow> linked ti arity i compatible h (take n cs)"
  by (rule linked_append [of _ _ _ _ _ _ "drop n cs"]) simp

text \<open>The search from the deepest layer outwards.\<close>

lemma deepest_terminal_Some:
  "deepest_terminal P calls k = Some i \<Longrightarrow> 1 \<le> i \<and> i \<le> k \<and> P (calls ! i) \<and> (\<forall>j. i < j \<longrightarrow> j \<le> k \<longrightarrow> \<not> P (calls ! j))"
  by (induction k) (auto simp: le_Suc_eq split: if_splits)

lemma match_ending_facts:
  assumes "match_repeated_ending ti outer arity i allowed compatible terminal = Some m"
  obtains h where "rc_outer m = outer" and "hd (rc_calls m) = outer" and "last (rc_calls m) = rc_keep m"
    and "2 \<le> length (rc_calls m)" and "rc_layers m = int (length (rc_calls m))" and "terminal (rc_keep m)"
    and "rc_path m = rh_path h" and "rc_name m = rh_name h" and "allowed (rh_path h) (rh_name h)"
    and "list_all (run_call ti arity h) (rc_calls m)" and "linked ti arity i compatible h (rc_calls m)"
proof -
  from assms obtain m0 k where m0: "match_repeated ti outer arity i allowed compatible = Some m0"
    and k: "deepest_terminal terminal (rc_calls m0) (length (rc_calls m0) - 1) = Some k"
    and m: "m = m0\<lparr>rc_keep := rc_calls m0 ! k, rc_calls := take (Suc k) (rc_calls m0), rc_layers := int k + 1\<rparr>"
    by (auto simp: match_repeated_ending_def split: option.splits)
  obtain h where h: "rc_outer m0 = outer" "hd (rc_calls m0) = outer" "2 \<le> length (rc_calls m0)"
    "rc_path m0 = rh_path h" "rc_name m0 = rh_name h" "allowed (rh_path h) (rh_name h)"
    "list_all (run_call ti arity h) (rc_calls m0)" "linked ti arity i compatible h (rc_calls m0)"
    by (rule match_repeated_facts [OF m0])
  have k': "1 \<le> k" "k < length (rc_calls m0)" "terminal (rc_calls m0 ! k)"
    using deepest_terminal_Some [OF k] h(3) by auto
  have "list_all (run_call ti arity h) (take (Suc k) (rc_calls m0))"
    using h(7) unfolding list_all_iff by (blast dest: in_set_takeD)
  moreover have "length (take (Suc k) (rc_calls m0)) = Suc k" using k' by simp
  moreover have "last (take (Suc k) (rc_calls m0)) = rc_calls m0 ! k"
    using k' by (simp add: take_Suc_conv_app_nth)
  moreover have "hd (take (Suc k) (rc_calls m0)) = outer" using h(2) by simp
  ultimately show thesis
    using that [of h] m h(1,4,5,6) k'(1,3) linked_take [OF h(8), of "Suc k"] by simp
qed

end
