(* ===== verification/Chain_Guards.thy ===== *)
theory Chain_Guards
  imports Chain_Runs
begin

text \<open>
  The guards of a rewrite: which uses a deletion leaves, which imports a fix drops, and what every
  fix that is attached to a diagnostic promises.
\<close>

section \<open>Uses inside and outside the deleted text\<close>

definition uses_at :: "type_info \<Rightarrow> node \<Rightarrow> (int \<Rightarrow> bool) \<Rightarrow> go_object set" where
  "uses_at ti root P = {ob. \<exists>n\<in>set (nodes root). is_ident n \<and> P (node_pos n) \<and> ti_uses ti n = Some ob}"

lemma uses_at_unfold:
  "uses_at ti n P = {ob. is_ident n \<and> P (node_pos n) \<and> ti_uses ti n = Some ob} \<union> (\<Union>c\<in>set (children n). uses_at ti c P)"
  by (subst uses_at_def, subst nodes.simps) (auto simp: uses_at_def)

lemma removed_objects:
  "inspect (each_node (removed_object ti spans G)) root {} = {ob \<in> uses_at ti root (in_spans spans). G ob}"
proof -
  have "foldl (\<lambda>s m. removed_object ti spans G m s) s ns =
      s \<union> {ob. \<exists>n\<in>set ns. is_ident n \<and> in_spans spans (node_pos n) \<and> ti_uses ti n = Some ob \<and> G ob}" for s ns
    by (induction ns arbitrary: s) (auto simp: removed_object_def split: option.splits)
  then show ?thesis unfolding inspect_each by (auto simp: uses_at_def)
qed

text \<open>The search may stop to descend early: an identifier has no children.\<close>

lemma strike_result:
  "inspect (strike_used ti spans) n s = s - uses_at ti n (\<lambda>p. \<not> in_spans spans p)"
proof (induction n arbitrary: s rule: node_induct)
  case (node n)
  let ?out = "\<lambda>c. uses_at ti c (\<lambda>p. \<not> in_spans spans p)"
  have kids: "foldl (\<lambda>s c. inspect (strike_used ti spans) c s) s cs = s - (\<Union>c\<in>set cs. ?out c)"
    if "set cs \<subseteq> set (children n)" for s cs
    using that by (induction cs arbitrary: s) (auto simp: node)
  show ?case
  proof (cases "is_ident n \<and> \<not> in_spans spans (node_pos n)")
    case True
    then have "children n = []" by (cases n) (auto simp: is_ident_def)
    then show ?thesis
      using True
      by (subst inspect.simps, subst uses_at_unfold)
        (auto simp: strike_used_def Let_def split: option.splits)
  next
    case False
    then have "inspect (strike_used ti spans) n s = s - (\<Union>c\<in>set (children n). ?out c)"
      using kids [OF order_refl] by (subst inspect.simps) (auto simp: strike_used_def)
    then show ?thesis using False by (subst uses_at_unfold) auto
  qed
qed

lemma all_used_outside_iff:
  "all_used_outside ti f spans removed \<longleftrightarrow> removed \<subseteq> uses_at ti (gf_tree f) (\<lambda>p. \<not> in_spans spans p)"
  by (auto simp: all_used_outside_def strike_result)

text \<open>
  The guard against orphaned imports and constants is exact. A deletion passes it exactly when every import
  qualifier and local constant that is used in the deleted text, an import that gets an edit of its own apart, is
  used in the text that remains; the search that stops early misses no use.
\<close>

theorem required_uses_exact:
  "deletions_keep_uses_allowing ti f allowed spans \<longleftrightarrow>
     {ob \<in> uses_at ti (gf_tree f) (in_spans spans). guarded_object allowed ob}
       \<subseteq> uses_at ti (gf_tree f) (\<lambda>p. \<not> in_spans spans p)"
  by (simp add: deletions_keep_uses_allowing_def all_used_outside_iff removed_objects)

text \<open>The same for local variables; the exempt objects are those the fields of functions define.\<close>

definition exempt_objects :: "type_info \<Rightarrow> node \<Rightarrow> go_object set" where
  "exempt_objects ti root =
     {ob. \<exists>n\<in>set (nodes root). \<exists>l\<in>set (exempt_lists n). \<exists>name\<in>set (field_names l). ti_defs ti name = Some ob}"

lemma exempt_collected: "inspect (each_node (add_exempt ti)) root {} = exempt_objects ti root"
proof -
  have add: "add_exempt ti n s = s \<union> {ob. \<exists>l\<in>set (exempt_lists n). \<exists>name\<in>set (field_names l). ti_defs ti name = Some ob}"
    for n s
  proof -
    have "foldl (\<lambda>s name. case ti_defs ti name of Some ob \<Rightarrow> insert ob s | None \<Rightarrow> s) s xs =
        s \<union> {ob. \<exists>name\<in>set xs. ti_defs ti name = Some ob}" for xs s
      by (induction xs arbitrary: s) (auto split: option.splits)
    then show ?thesis by (auto simp: add_exempt_def)
  qed
  have "foldl (\<lambda>s m. add_exempt ti m s) s ns =
      s \<union> {ob. \<exists>n\<in>set ns. \<exists>l\<in>set (exempt_lists n). \<exists>name\<in>set (field_names l). ti_defs ti name = Some ob}" for s ns
    by (induction ns arbitrary: s) (auto simp: add)
  then show ?thesis unfolding inspect_each by (auto simp: exempt_objects_def)
qed

lemma required_variables_exact:
  "deletions_keep_variables ti f spans \<longleftrightarrow>
     {ob \<in> uses_at ti (gf_tree f) (in_spans spans). local_variable (exempt_objects ti (gf_tree f)) ob}
       \<subseteq> uses_at ti (gf_tree f) (\<lambda>p. \<not> in_spans spans p)"
  by (simp add: deletions_keep_variables_def Let_def all_used_outside_iff removed_objects exempt_collected)

section \<open>Counting references\<close>

lemma counted_nodes:
  "inspect (each_node (\<lambda>n k. if P n then k + 1 else k)) root (0::int) = int (length (filter P (nodes root)))"
proof -
  have "foldl (\<lambda>k n. if P n then k + 1 else k) (a::int) ns = a + int (length (filter P ns))" for a ns
    by (induction ns arbitrary: a) auto
  then show ?thesis unfolding inspect_each by simp
qed

lemma filter_inside_all:
  "length (filter (\<lambda>x. P x \<and> Q x) xs) = length (filter P xs) \<longleftrightarrow> (\<forall>x\<in>set xs. P x \<longrightarrow> Q x)"
proof -
  have "length (filter (\<lambda>x. P x \<and> Q x) xs) \<le> length (filter P xs)" for xs
    by (induction xs) auto
  note le = this
  show ?thesis
  proof (induction xs)
    case (Cons x xs)
    then show ?case using le [of xs] by (cases "P x"; cases "Q x") auto
  qed simp
qed

text \<open>All references are removed exactly when none lies outside the spans.\<close>

lemma all_references_removed:
  "package_refs_in_spans ti f p spans = pkg_ref_count ti f p \<longleftrightarrow>
     \<not> (\<exists>i. Pkg_Name i p \<in> uses_at ti (gf_tree f) (\<lambda>x. \<not> in_spans spans x))"
proof -
  let ?P = "\<lambda>n. is_ident n \<and> imported_path ti n = Some p"
  have "package_refs_in_spans ti f p spans = int (length (filter (\<lambda>n. ?P n \<and> in_spans spans (node_pos n)) (nodes (gf_tree f))))"
    unfolding package_refs_in_spans_def counted_nodes
    by (simp add: conj_commute conj_left_commute cong: filter_cong)
  moreover have "pkg_ref_count ti f p = int (length (filter ?P (nodes (gf_tree f))))"
    unfolding pkg_ref_count_def counted_nodes by simp
  ultimately have "package_refs_in_spans ti f p spans = pkg_ref_count ti f p \<longleftrightarrow>
      (\<forall>n\<in>set (nodes (gf_tree f)). ?P n \<longrightarrow> in_spans spans (node_pos n))"
    using filter_inside_all [of ?P "\<lambda>n. in_spans spans (node_pos n)"] by simp
  also have "\<dots> \<longleftrightarrow> \<not> (\<exists>i. Pkg_Name i p \<in> uses_at ti (gf_tree f) (\<lambda>x. \<not> in_spans spans x))"
    by (auto simp: uses_at_def imported_path_def split: option.splits go_object.splits)
  finally show ?thesis .
qed

section \<open>What an attached fix promises\<close>

text \<open>
  C20: every fix the shared editor builds is safe. It keeps the given edits and adds exactly the edits that drop
  the imports without a remaining reference; no edit touches a comment; and each import qualifier or local
  constant used in the replaced text is either used elsewhere or is an import the fix drops.
\<close>

theorem fix_replaced_safe:
  assumes "fix_replaced cp f pkgs msg edits = Some fx"
  shows "\<exists>ds. fix_edits fx = edits @ ds \<and>
      list_all (\<lambda>e. \<not> comment_in f (te_pos e) (te_end e)) (fix_edits fx) \<and>
      list_all (\<lambda>e. te_pos e \<le> te_end e) edits \<and>
      (let spans = map (\<lambda>e. (te_pos e, te_end e)) edits;
           dropped = imports_to_drop (ch_info cp) f pkgs spans;
           remaining = uses_at (ch_info cp) (gf_tree f) (\<lambda>p. \<not> in_spans spans p) in
         (if dropped = [] then ds = [] else drop_imports_edits (ch_printable cp) f dropped = Some ds) \<and>
         {ob \<in> uses_at (ch_info cp) (gf_tree f) (in_spans spans). guarded_object (set dropped) ob} \<subseteq> remaining \<and>
         list_all (\<lambda>p. \<not> (\<exists>i. Pkg_Name i p \<in> remaining)) dropped)"
proof -
  let ?ti = "ch_info cp" and ?spans = "map (\<lambda>e. (te_pos e, te_end e)) edits"
  let ?dropped = "imports_to_drop ?ti f pkgs ?spans"
  have ok: "list_all (\<lambda>e. te_pos e \<le> te_end e \<and> \<not> comment_in f (te_pos e) (te_end e)) edits"
    using assms by (auto simp: fix_replaced_def Let_def list_all_iff list_ex_iff not_less split: if_splits)
  have keep: "deletions_keep_uses_allowing ?ti f (set ?dropped) ?spans"
    using assms by (auto simp: fix_replaced_def Let_def split: if_splits option.splits)
  have gone: "list_all (\<lambda>p. \<not> (\<exists>i. Pkg_Name i p \<in> uses_at ?ti (gf_tree f) (\<lambda>p. \<not> in_spans ?spans p))) ?dropped"
    unfolding list_all_iff by (simp add: imports_to_drop_def all_references_removed)
  obtain ds where ds: "fix_edits fx = edits @ ds" "list_all (\<lambda>e. \<not> comment_in f (te_pos e) (te_end e)) ds"
    "if ?dropped = [] then ds = [] else drop_imports_edits (ch_printable cp) f ?dropped = Some ds"
    using assms
    by (auto simp: fix_replaced_def Let_def list_all_iff list_ex_iff split: if_splits option.splits)
  have sub: "{ob \<in> uses_at ?ti (gf_tree f) (in_spans ?spans). guarded_object (set ?dropped) ob}
      \<subseteq> uses_at ?ti (gf_tree f) (\<lambda>p. \<not> in_spans ?spans p)"
    using keep unfolding deletions_keep_uses_allowing_def all_used_outside_iff removed_objects .
  have all: "list_all (\<lambda>e. \<not> comment_in f (te_pos e) (te_end e)) (fix_edits fx)"
    "list_all (\<lambda>e. te_pos e \<le> te_end e) edits"
    using ok ds by (auto simp: list_all_iff)
  show ?thesis
    unfolding Let_def by (intro exI [of _ ds] conjI) (fact ds(1) all ds(3) sub gone)+
qed

section \<open>Dropped imports\<close>

text \<open>How the parser lays import declarations out.\<close>

definition laid_decl :: "import_decl \<Rightarrow> bool" where
  "laid_decl d =
     (sorted_wrt (<) (map is_start (id_specs d)) \<and>
      list_all (\<lambda>s. id_start d \<le> is_start s \<and> is_start s < id_end d \<and>
        (1 < length (id_specs d) \<longrightarrow> is_start s < id_rparen d \<and> id_rparen d \<le> id_end d)) (id_specs d))"

definition laid_out :: "go_file \<Rightarrow> bool" where
  "laid_out f =
     (list_all laid_decl (gf_imports f) \<and> sorted_wrt (\<lambda>d e. id_end d \<le> id_start e) (gf_imports f))"

definition edit_spans :: "text_edit list \<Rightarrow> span list" where
  "edit_spans es = map (\<lambda>e. (te_pos e, te_end e)) es"

lemma in_edit_spans: "in_spans (edit_spans es) p \<longleftrightarrow> (\<exists>e\<in>set es. te_pos e \<le> p \<and> p < te_end e)"
  by (auto simp: in_spans_def edit_spans_def span_contains_def list_ex_iff)

lemma laid_nth:
  assumes "laid_decl d" and "i < length (id_specs d)"
  shows "id_start d \<le> is_start (id_specs d ! i)" and "is_start (id_specs d ! i) < id_end d"
    and "1 < length (id_specs d) \<Longrightarrow> is_start (id_specs d ! i) < id_rparen d \<and> id_rparen d \<le> id_end d"
    and "i < j \<Longrightarrow> j < length (id_specs d) \<Longrightarrow> is_start (id_specs d ! i) < is_start (id_specs d ! j)"
  using assms by (auto simp: laid_decl_def list_all_length sorted_wrt_iff_nth_less)

definition spec_end :: "import_decl \<Rightarrow> nat \<Rightarrow> int" where
  "spec_end d i = (if i + 1 < length (id_specs d) then is_start (id_specs d ! (i + 1)) else id_rparen d)"

lemma in_spec_edits:
  "e \<in> set (spec_edits d removed) \<longleftrightarrow>
     (\<exists>i<length removed. removed ! i \<and> e = del_edit (is_start (id_specs d ! i)) (spec_end d i))"
  by (auto simp: spec_edits_def spec_end_def)

lemma spec_interval:
  assumes "laid_decl d" and "1 < length (id_specs d)" and "i < length (id_specs d)" and "j < length (id_specs d)"
  shows "is_start (id_specs d ! i) \<le> is_start (id_specs d ! j) \<and> is_start (id_specs d ! j) < spec_end d i \<longleftrightarrow> i = j"
proof (cases i j rule: linorder_cases)
  case less
  then have "is_start (id_specs d ! (i + 1)) \<le> is_start (id_specs d ! j)"
    using laid_nth(4) [OF assms(1), of "i + 1" j] assms by (cases "i + 1 = j") auto
  then show ?thesis using less assms by (auto simp: spec_end_def)
next
  case greater
  then show ?thesis using laid_nth(4) [OF assms(1,4), of i] assms by auto
next
  case equal
  then show ?thesis
    using laid_nth(3) [OF assms(1,4)] laid_nth(4) [OF assms(1,4), of "j + 1"] assms by (auto simp: spec_end_def)
qed

lemma partly_removed:
  assumes "True \<in> set bs" and "\<not> list_all (\<lambda>b. b) bs"
  shows "1 < length bs"
  using assms by (cases bs; cases "tl bs") auto

lemma decl_edits_within:
  assumes "laid_decl d" and "e \<in> set (decl_edits wanted d)"
  shows "id_start d \<le> te_pos e \<and> te_end e \<le> id_end d"
proof -
  let ?r = "map (\<lambda>s. is_path s \<in> wanted) (id_specs d)"
  have r: "True \<in> set ?r" using assms(2) by (auto simp: decl_edits_def Let_def split: if_splits)
  show ?thesis
  proof (cases "list_all (\<lambda>b. b) ?r")
    case True
    then show ?thesis using assms(2) r by (auto simp: decl_edits_def Let_def del_edit_def split: if_splits)
  next
    case False
    then have n: "1 < length (id_specs d)" using partly_removed [OF r] by simp
    have "e \<in> set (spec_edits d ?r)" using assms(2) r False by (auto simp: decl_edits_def Let_def split: if_splits)
    then obtain i where i: "i < length (id_specs d)" "e = del_edit (is_start (id_specs d ! i)) (spec_end d i)"
      unfolding in_spec_edits by auto
    then show ?thesis
      using laid_nth(1,3) [OF assms(1) i(1)] laid_nth(2) [OF assms(1), of "i + 1"] n
      by (auto simp: del_edit_def spec_end_def)
  qed
qed

lemma decl_edits_cover:
  assumes "laid_decl d" and j: "j < length (id_specs d)"
  shows "in_spans (edit_spans (decl_edits wanted d)) (is_start (id_specs d ! j)) \<longleftrightarrow> is_path (id_specs d ! j) \<in> wanted"
proof -
  let ?r = "map (\<lambda>s. is_path s \<in> wanted) (id_specs d)"
  consider "True \<notin> set ?r" | "True \<in> set ?r" "list_all (\<lambda>b. b) ?r" | "True \<in> set ?r" "\<not> list_all (\<lambda>b. b) ?r"
    by blast
  then show ?thesis
  proof cases
    case 1
    then have "is_path (id_specs d ! j) \<notin> wanted" using j nth_mem [OF j] by auto
    then show ?thesis using 1 by (simp add: decl_edits_def Let_def in_edit_spans)
  next
    case 2
    then have "is_path (id_specs d ! j) \<in> wanted" using j by (auto simp: list_all_length)
    moreover have "decl_edits wanted d = [del_edit (id_start d) (id_end d)]" using 2 by (simp add: decl_edits_def Let_def)
    ultimately show ?thesis using laid_nth(1,2) [OF assms] by (simp add: in_edit_spans del_edit_def)
  next
    case 3
    then have n: "1 < length (id_specs d)" using partly_removed [of ?r] by simp
    have e: "decl_edits wanted d = spec_edits d ?r" using 3 by (simp add: decl_edits_def Let_def)
    have "in_spans (edit_spans (spec_edits d ?r)) (is_start (id_specs d ! j)) \<longleftrightarrow>
        (\<exists>i<length (id_specs d). is_path (id_specs d ! i) \<in> wanted \<and>
          is_start (id_specs d ! i) \<le> is_start (id_specs d ! j) \<and> is_start (id_specs d ! j) < spec_end d i)"
      (is "?l \<longleftrightarrow> ?m")
    proof
      assume ?l
      then obtain e where e: "e \<in> set (spec_edits d ?r)" "te_pos e \<le> is_start (id_specs d ! j)"
        "is_start (id_specs d ! j) < te_end e" unfolding in_edit_spans by blast
      from e(1) obtain i where i: "i < length ?r" "?r ! i" "e = del_edit (is_start (id_specs d ! i)) (spec_end d i)"
        unfolding in_spec_edits by blast
      show ?m by (rule exI [of _ i]) (use e(2,3) i in \<open>simp add: del_edit_def\<close>)
    next
      assume ?m
      then obtain i where i: "i < length (id_specs d)" "is_path (id_specs d ! i) \<in> wanted"
        "is_start (id_specs d ! i) \<le> is_start (id_specs d ! j)" "is_start (id_specs d ! j) < spec_end d i"
        by blast
      then have "del_edit (is_start (id_specs d ! i)) (spec_end d i) \<in> set (spec_edits d ?r)"
        unfolding in_spec_edits by auto
      then show ?l unfolding in_edit_spans by (rule bexI [rotated]) (simp add: i del_edit_def)
    qed
    also have "\<dots> \<longleftrightarrow> is_path (id_specs d ! j) \<in> wanted" using spec_interval [OF assms(1) n _ j] j by metis
    finally show ?thesis unfolding e .
  qed
qed

text \<open>
  Dropping imports deletes exactly the wanted specifications. In a file laid out as the parser does, the
  start of an import specification lies in the deleted text exactly when its path is among those to drop,
  for whole declarations and for specifications of a group alike.
\<close>

theorem drop_imports_exact:
  assumes "laid_out f" and "drop_imports_edits printable f pkgs = Some es"
    and "d \<in> set (gf_imports f)" and "s \<in> set (id_specs d)"
  shows "in_spans (edit_spans es) (is_start s) \<longleftrightarrow> is_path s \<in> set (map (go_quote printable) pkgs)"
proof -
  let ?w = "set (map (go_quote printable) pkgs)"
  have es: "es = concat (map (decl_edits ?w) (gf_imports f))"
    using assms(2) by (auto simp: drop_imports_edits_def Let_def split: if_splits)
  have laid: "laid_decl d'" if "d' \<in> set (gf_imports f)" for d'
    using assms(1) that by (auto simp: laid_out_def list_all_iff)
  obtain j where j: "j < length (id_specs d)" "s = id_specs d ! j" using assms(4) by (auto simp: in_set_conv_nth)
  have "in_spans (edit_spans es) (is_start s) \<longleftrightarrow> in_spans (edit_spans (decl_edits ?w d)) (is_start s)"
  proof
    assume "in_spans (edit_spans es) (is_start s)"
    then obtain d' e where e: "d' \<in> set (gf_imports f)" "e \<in> set (decl_edits ?w d')" "te_pos e \<le> is_start s" "is_start s < te_end e"
      unfolding es in_edit_spans by auto
    have "id_start d' \<le> is_start s" "is_start s < id_end d'" using decl_edits_within [OF laid [OF e(1)] e(2)] e(3,4) by auto
    moreover have "id_start d \<le> is_start s" "is_start s < id_end d"
      using laid_nth(1,2) [OF laid [OF assms(3)] j(1)] j(2) by auto
    moreover have "d = d' \<or> id_end d \<le> id_start d' \<or> id_end d' \<le> id_start d"
      using assms(1,3) e(1) by (auto simp: laid_out_def sorted_wrt_iff_nth_less in_set_conv_nth) (metis linorder_neqE_nat)
    ultimately have "d' = d" by auto
    then show "in_spans (edit_spans (decl_edits ?w d)) (is_start s)" using e unfolding in_edit_spans by blast
  qed (use assms(3) in \<open>auto simp: es in_edit_spans\<close>)
  then show ?thesis using decl_edits_cover [OF laid [OF assms(3)] j(1)] j(2) by simp
qed

end
