(* ===== verification/Chain_Values.thy ===== *)
theory Chain_Values
  imports Chain_Runs
begin

text \<open>
  The rewrites of nested calls keep values. An expression is evaluated with the library functions of
  \<open>Go_Library\<close>; what is no call of such a function is a constant or opaque, its value given by an
  environment.
\<close>

section \<open>Values of expressions\<close>

text \<open>
  Strings and byte slices are their bytes (a nil slice has none); elements of other slices are numbered.
\<close>

datatype go_value = Bytes string | Slice "nat list" | Whole int | Truth bool | Panicked | Opaque nat

type_synonym library = "string \<Rightarrow> string \<Rightarrow> (go_value list \<Rightarrow> go_value) option"

definition constant_value :: "const_value \<Rightarrow> go_value option" where
  "constant_value c =
     (case c of Const_String s \<Rightarrow> Some (Bytes s) | Const_Int i \<Rightarrow> Some (Whole i) | Other_Const \<Rightarrow> None)"

definition library_call :: "type_info \<Rightarrow> library \<Rightarrow> node \<Rightarrow> (go_value list \<Rightarrow> go_value) option" where
  "library_call ti lib f =
     (case package_callee_of ti f of Some (_, path, name) \<Rightarrow> lib path name | None \<Rightarrow> None)"

definition leaf_value :: "type_info \<Rightarrow> (node \<Rightarrow> go_value) \<Rightarrow> node \<Rightarrow> go_value" where
  "leaf_value ti env n = (case constant_bytes ti n of Some s \<Rightarrow> Bytes s | None \<Rightarrow> env n)"

function expr_value :: "type_info \<Rightarrow> library \<Rightarrow> (node \<Rightarrow> go_value) \<Rightarrow> node \<Rightarrow> go_value" where
  "expr_value ti lib env n =
     (case n of
        ParenExpr _ x \<Rightarrow> expr_value ti lib env x
      | _ \<Rightarrow>
          (case Option.bind (ti_value ti n) constant_value of
             Some v \<Rightarrow> v
           | None \<Rightarrow>
               (case n of
                  CallExpr _ f args ellipsis \<Rightarrow>
                    (case library_call ti lib f of
                       Some g \<Rightarrow> if ellipsis then env n else g (map (expr_value ti lib env) args)
                     | None \<Rightarrow> leaf_value ti env n)
                | _ \<Rightarrow> leaf_value ti env n)))"
  by pat_completeness auto
termination
  by (relation "measure (\<lambda>(ti, lib, env, n). size n)") (auto dest!: size_list_estimation' [where f = size, OF _ order_refl])

declare expr_value.simps [simp del]

lemma expr_value_unparen: "expr_value ti lib env (unparen e) = expr_value ti lib env e"
  by (induction e rule: unparen.induct) (simp_all add: expr_value.simps [of _ _ _ "ParenExpr _ _"])

lemma unparen_not_paren [simp]: "unparen e \<noteq> ParenExpr a x"
  by (induction e rule: unparen.induct) auto

lemma expr_value_constant:
  assumes "constant_string ti e = Some s"
  shows "expr_value ti lib env e = Bytes s"
proof -
  have "ti_value ti (unparen e) = Some (Const_String s)"
    using assms by (auto simp: constant_string_def split: option.splits const_value.splits)
  then have "expr_value ti lib env (unparen e) = Bytes s"
    by (subst expr_value.simps) (auto simp: constant_value_def split: node.split)
  then show ?thesis by (simp add: expr_value_unparen)
qed

lemma expr_value_call:
  assumes "ti_value ti call = None" and "as_call call \<noteq> None" and "\<not> has_ellipsis call"
    and "library_call ti lib (call_fun call) = Some g"
  shows "expr_value ti lib env call = g (map (expr_value ti lib env) (call_args call))"
proof -
  obtain a f args e where c: "call = CallExpr a f args e" using assms(2) by (cases call) auto
  then have "e = False" "call_fun call = f" "call_args call = args"
    using assms(3) by (simp_all add: has_ellipsis_def call_fun_def call_args_def)
  then show ?thesis
    using assms c by (simp add: expr_value.simps [of _ _ _ "CallExpr _ _ _ _"])
qed

section \<open>Layers that absorb\<close>

text \<open>
  What lets a run of calls collapse: an outer layer gives back what the layer below it returned, as
  long as their companion arguments fit.
\<close>

locale absorbing =
  fixes layer :: "'k \<Rightarrow> go_value \<Rightarrow> go_value" and fits :: "'k \<Rightarrow> 'k \<Rightarrow> bool"
  assumes absorb: "fits k' k \<Longrightarrow> layer k' (layer k v) = layer k v"
begin

lemma collapse: "list_all (\<lambda>k'. fits k' k) ks \<Longrightarrow> foldr layer ks (layer k v) = layer k v"
  by (induction ks) (simp_all add: absorb)

end

definition on_bytes :: "(string \<Rightarrow> string) \<Rightarrow> go_value \<Rightarrow> go_value" where
  "on_bytes g v = (case v of Bytes s \<Rightarrow> Bytes (g s) | _ \<Rightarrow> Panicked)"

lemma on_bytes_absorbs: "(\<And>s. g' (g s) = g s) \<Longrightarrow> on_bytes g' (on_bytes g v) = on_bytes g v"
  by (cases v) (simp_all add: on_bytes_def)

definition bytes_layer :: "(string \<Rightarrow> 'k \<Rightarrow> string) \<Rightarrow> 'k \<Rightarrow> go_value \<Rightarrow> go_value" where
  "bytes_layer f k = on_bytes (\<lambda>s. f s k)"

interpretation trim_left: absorbing "bytes_layer cut_left" "(=)"
  by unfold_locales (simp add: bytes_layer_def on_bytes_absorbs cut_left_twice)

interpretation trim_right: absorbing "bytes_layer cut_right" "(=)"
  by unfold_locales (simp add: bytes_layer_def on_bytes_absorbs cut_right_twice)

interpretation trim_both: absorbing "bytes_layer cut_both" "(=)"
  by unfold_locales (simp add: bytes_layer_def on_bytes_absorbs cut_both_twice)

interpretation sanitized: absorbing "bytes_layer to_valid_utf8" "\<lambda>_ r. valid_utf8 r"
  by unfold_locales (simp add: bytes_layer_def on_bytes_absorbs to_valid_absorbs)

interpretation cleaned: absorbing "bytes_layer (\<lambda>s (_::unit). path_clean s)" "\<lambda>_ _. True"
  by unfold_locales (simp add: bytes_layer_def on_bytes_absorbs path_clean_twice)

section \<open>Runs of calls with a constant companion\<close>

lemma run_call_library:
  assumes "run_call ti arity h c" and "1 \<le> arity"
  shows "as_call c \<noteq> None" and "\<not> has_ellipsis c" and "library_call ti lib (call_fun c) = lib (rh_path h) (rh_name h)"
proof -
  show "as_call c \<noteq> None" using assms by (intro call_args_as_call) (auto simp: run_call_def)
  then show "library_call ti lib (call_fun c) = lib (rh_path h) (rh_name h)"
    using assms
    by (auto simp: run_call_def package_call_with_binding_def library_call_def call_fun_def split: option.splits)
qed (use assms in \<open>simp add: run_call_def\<close>)

lemma two_args: "length xs = 2 \<Longrightarrow> xs = [xs ! 0, xs ! 1]"
  by (cases xs; cases "tl xs") auto

lemma run_call_value:
  assumes "run_call ti 2 h c" and "ti_value ti c = None" and "lib (rh_path h) (rh_name h) = Some g"
  shows "expr_value ti lib env c = g [expr_value ti lib env (call_args c ! 0), expr_value ti lib env (call_args c ! 1)]"
proof -
  have "expr_value ti lib env c = g (map (expr_value ti lib env) (call_args c))"
    by (rule expr_value_call) (use assms run_call_library [OF assms(1)] in simp_all)
  moreover have "call_args c = [call_args c ! 0, call_args c ! 1]"
    using assms(1) by (intro two_args) (simp add: run_call_def)
  ultimately show ?thesis by (metis list.map)
qed

lemma next_layer_value:
  "next_layer i c = Some d \<Longrightarrow> expr_value ti lib env (call_args c ! i) = expr_value ti lib env d"
  by (auto simp: next_layer_def as_nested_call_def expr_value_unparen split: if_splits)

lemma run_value:
  fixes companion :: "node \<Rightarrow> 'k" and of_companion :: "'k \<Rightarrow> go_value"
  assumes "linked ti 2 0 compatible h calls" and "list_all (run_call ti 2 h) calls" and "calls \<noteq> []"
    and "list_all (\<lambda>c. ti_value ti c = None) calls" and "lib (rh_path h) (rh_name h) = Some g"
    and "\<And>k v. g [v, of_companion k] = layer k v"
    and "list_all (\<lambda>c. expr_value ti lib env (call_args c ! 1) = of_companion (companion c)) calls"
  shows "expr_value ti lib env (hd calls) =
    foldr layer (map companion calls) (expr_value ti lib env (call_args (last calls) ! 0))"
  using assms(1-4,7)
proof (induction calls rule: induct_list012)
  case (3 c d cs)
  have "expr_value ti lib env c = layer (companion c) (expr_value ti lib env (call_args c ! 0))"
    using run_call_value [of ti h c lib g env] assms(5,6) 3 by simp
  also have "expr_value ti lib env (call_args c ! 0) = expr_value ti lib env d"
    using 3 by (intro next_layer_value) simp
  finally show ?case using 3 by simp
next
  case (2 c)
  then show ?case using run_call_value [of ti h c lib g env] assms(5,6) by simp
qed simp

lemma foldr_run: "calls \<noteq> [] \<Longrightarrow> foldr layer (map k calls) v = foldr layer (map k (butlast calls)) (layer (k (last calls)) v)"
  by (induction calls) auto

text \<open>The value of the call a rewrite keeps.\<close>

lemma keep_value:
  fixes companion :: "node \<Rightarrow> 'k" and of_companion :: "'k \<Rightarrow> go_value"
  assumes "list_all (run_call ti 2 h) calls" and "calls \<noteq> []"
    and "list_all (\<lambda>c. ti_value ti c = None) calls" and "lib (rh_path h) (rh_name h) = Some g"
    and "\<And>k v. g [v, of_companion k] = layer k v"
    and "list_all (\<lambda>c. expr_value ti lib env (call_args c ! 1) = of_companion (companion c)) calls"
  shows "expr_value ti lib env (last calls) =
    layer (companion (last calls)) (expr_value ti lib env (call_args (last calls) ! 0))"
proof -
  have "last calls \<in> set calls" using assms(2) by simp
  then show ?thesis
    using run_call_value [of ti h "last calls" lib g env] assms(1,3-6) by (simp add: list_all_iff)
qed

definition bytes_op :: "(string \<Rightarrow> string \<Rightarrow> string) \<Rightarrow> go_value list \<Rightarrow> go_value" where
  "bytes_op f vs = (case vs of [v, Bytes c] \<Rightarrow> bytes_layer f c v | _ \<Rightarrow> Panicked)"

lemma bytes_op_pair: "bytes_op f [v, Bytes c] = bytes_layer f c v"
  by (simp add: bytes_op_def)

definition constant_companion :: "type_info \<Rightarrow> node \<Rightarrow> string" where
  "constant_companion ti c = the (constant_string ti (call_args c ! 1))"

lemma constant_companions:
  "list_all (\<lambda>c. constant_string ti (call_args c ! 1) \<noteq> None) calls \<Longrightarrow>
   list_all (\<lambda>c. expr_value ti lib env (call_args c ! 1) = Bytes (constant_companion ti c)) calls"
  by (auto simp: list_all_iff constant_companion_def intro!: expr_value_constant)

section \<open>PS5077\<close>

definition trim_library :: library where
  "trim_library path name =
     (if path \<noteq> ''strings'' \<and> path \<noteq> ''bytes'' then None
      else if name = ''Trim'' then Some (bytes_op cut_both)
      else if name = ''TrimLeft'' then Some (bytes_op cut_left)
      else if name = ''TrimRight'' then Some (bytes_op cut_right)
      else None)"

lemma same_cutset_run:
  "linked ti 2 0 (ps5077_same_cutset ti) h (c # d # cs) \<Longrightarrow>
     list_all (\<lambda>x. constant_string ti (call_args x ! 1) = constant_string ti (call_args c ! 1)) (d # cs) \<and>
     constant_string ti (call_args c ! 1) \<noteq> None"
proof (induction cs arbitrary: c d)
  case Nil
  then show ?case by (auto simp: joins_run_call ps5077_same_cutset_def split: option.splits)
next
  case (Cons e cs)
  have "constant_string ti (call_args d ! 1) = constant_string ti (call_args c ! 1)"
    "constant_string ti (call_args c ! 1) \<noteq> None"
    using Cons.prems by (auto simp: joins_run_call ps5077_same_cutset_def split: option.splits)
  then show ?case using Cons.IH [of d e] Cons.prems by simp
qed

lemma absorbed_run:
  assumes "absorbing (bytes_layer f) fits"
    and "linked ti 2 0 compatible h calls" and "list_all (run_call ti 2 h) calls" and "calls \<noteq> []"
    and "list_all (\<lambda>c. ti_value ti c = None) calls" and "lib (rh_path h) (rh_name h) = Some (bytes_op f)"
    and "list_all (\<lambda>c. constant_string ti (call_args c ! 1) \<noteq> None) calls"
    and "list_all (\<lambda>c. fits (constant_companion ti c) (constant_companion ti (last calls))) (butlast calls)"
  shows "expr_value ti lib env (hd calls) = expr_value ti lib env (last calls)"
proof -
  let ?layer = "bytes_layer f" and ?k = "constant_companion ti"
  let ?v = "expr_value ti lib env (call_args (last calls) ! 0)"
  have co: "list_all (\<lambda>c. expr_value ti lib env (call_args c ! 1) = Bytes (?k c)) calls"
    by (rule constant_companions) (rule assms(7))
  have "expr_value ti lib env (hd calls) = foldr ?layer (map ?k calls) ?v"
    by (rule run_value [where layer = ?layer and companion = ?k and of_companion = Bytes and lib = lib and h = h,
        OF assms(2-6) bytes_op_pair co])
  also have "\<dots> = foldr ?layer (map ?k (butlast calls)) (?layer (?k (last calls)) ?v)"
    by (rule foldr_run) (rule assms(4))
  also have "\<dots> = ?layer (?k (last calls)) ?v"
    by (rule absorbing.collapse [OF assms(1)]) (use assms(8) in \<open>simp add: list_all_iff\<close>)
  also have "\<dots> = expr_value ti lib env (last calls)"
    by (rule keep_value [where layer = ?layer and companion = ?k and of_companion = Bytes and lib = lib and h = h,
        OF assms(3-6) bytes_op_pair co, symmetric])
  finally show ?thesis .
qed

lemma trimmed_run:
  assumes "absorbing (bytes_layer f) (=)"
    and "linked ti 2 0 (ps5077_same_cutset ti) h calls" and "list_all (run_call ti 2 h) calls"
    and "2 \<le> length calls" and "list_all (\<lambda>c. ti_value ti c = None) calls"
    and "lib (rh_path h) (rh_name h) = Some (bytes_op f)"
  shows "expr_value ti lib env (hd calls) = expr_value ti lib env (last calls)"
proof -
  obtain c d cs where calls: "calls = c # d # cs" using assms(4) by (metis Suc_le_length_iff numeral_2_eq_2)
  have same: "constant_string ti (call_args x ! 1) = constant_string ti (call_args c ! 1)"
    "constant_string ti (call_args c ! 1) \<noteq> None" if "x \<in> set calls" for x
    using same_cutset_run [of ti h c d cs] assms(2) that unfolding calls list_all_iff by auto
  have ne: "calls \<noteq> []" using calls by simp
  then have l: "last calls \<in> set calls" by simp
  have "list_all (\<lambda>c. constant_string ti (call_args c ! 1) \<noteq> None) calls"
    unfolding list_all_iff using same by metis
  moreover have "list_all (\<lambda>c. constant_companion ti c = constant_companion ti (last calls)) (butlast calls)"
    unfolding list_all_iff constant_companion_def using same(1) l in_set_butlastD by metis
  ultimately show ?thesis
    by (rule absorbed_run [where fits = "(=)" and lib = lib and h = h, OF assms(1,2,3) ne assms(5,6)])
qed

text \<open>
  C18: PS5077's rewrite keeps values. When the check matches a run of Trim, TrimLeft or TrimRight calls,
  none of which is itself a constant expression, the outermost call and the call that is kept have the same
  value in every environment, whatever bytes the trimmed value consists of, invalid UTF-8 included.
\<close>

theorem ps5077_value:
  assumes "ps5077_match ti n = Some m" and "list_all (\<lambda>c. ti_value ti c = None) (rc_calls m)"
  shows "expr_value ti trim_library env (rc_outer m) = expr_value ti trim_library env (rc_keep m)"
proof -
  obtain h where h: "rc_outer m = n" "hd (rc_calls m) = n" "last (rc_calls m) = rc_keep m" "2 \<le> length (rc_calls m)"
    "ps5077_allowed (rh_path h) (rh_name h)" "list_all (run_call ti 2 h) (rc_calls m)"
    "linked ti 2 0 (ps5077_same_cutset ti) h (rc_calls m)"
    by (rule match_repeated_facts [OF assms(1) [unfolded ps5077_match_def]])
  note run = trimmed_run [where lib = trim_library and h = h and env = env, OF _ h(7,6,4) assms(2), unfolded h(2,3)]
  from h(5) consider (both) "trim_library (rh_path h) (rh_name h) = Some (bytes_op cut_both)"
    | (left) "trim_library (rh_path h) (rh_name h) = Some (bytes_op cut_left)"
    | (right) "trim_library (rh_path h) (rh_name h) = Some (bytes_op cut_right)"
    by (auto simp: ps5077_allowed_def ps5077_functions_def trim_library_def split: if_splits)
  then show ?thesis
    unfolding h(1)
    by cases (rule run, rule trim_both.absorbing_axioms trim_left.absorbing_axioms trim_right.absorbing_axioms, assumption)+
qed

section \<open>PS5115\<close>

definition sanitizer_library :: library where
  "sanitizer_library path name =
     (if (path = ''strings'' \<or> path = ''bytes'') \<and> name = ''ToValidUTF8'' then Some (bytes_op to_valid_utf8)
      else None)"

lemma constant_run:
  "linked ti 2 0 (\<lambda>outer _. constant_string ti (call_args outer ! 1) \<noteq> None) h calls \<Longrightarrow>
     list_all (\<lambda>c. constant_string ti (call_args c ! 1) \<noteq> None) (butlast calls)"
  by (induction calls rule: induct_list012) (auto simp: joins_run_call)

text \<open>
  PS5115's rewrite keeps values. The layers it removes around a ToValidUTF8 call whose replacement is
  valid UTF-8 return their argument unchanged, whatever constant replacements they have themselves.
\<close>

theorem ps5115_value:
  assumes "ps5115_chain ti n = Some m" and "list_all (\<lambda>c. ti_value ti c = None) (rc_calls m)"
  shows "expr_value ti sanitizer_library env (rc_outer m) = expr_value ti sanitizer_library env (rc_keep m)"
proof -
  obtain h where h: "rc_outer m = n" "hd (rc_calls m) = n" "last (rc_calls m) = rc_keep m" "2 \<le> length (rc_calls m)"
    "case constant_string ti (call_args (rc_keep m) ! 1) of Some s \<Rightarrow> valid_utf8 s | None \<Rightarrow> False"
    "rh_path h = ''strings'' \<and> rh_name h = ''ToValidUTF8''" "list_all (run_call ti 2 h) (rc_calls m)"
    "linked ti 2 0 (\<lambda>outer _. constant_string ti (call_args outer ! 1) \<noteq> None) h (rc_calls m)"
    by (rule match_ending_facts [OF assms(1) [unfolded ps5115_chain_def]])
  have ne: "rc_calls m \<noteq> []" using h(4) by auto
  have lib: "sanitizer_library (rh_path h) (rh_name h) = Some (bytes_op to_valid_utf8)"
    using h(6) by (simp add: sanitizer_library_def)
  have "list_all (\<lambda>c. constant_string ti (call_args c ! 1) \<noteq> None) (butlast (rc_calls m) @ [rc_keep m])"
    using constant_run [OF h(8)] h(5) by (auto simp: list_all_iff split: option.splits)
  then have c: "list_all (\<lambda>c. constant_string ti (call_args c ! 1) \<noteq> None) (rc_calls m)"
    unfolding h(3) [symmetric] append_butlast_last_id [OF ne] .
  have v: "valid_utf8 (constant_companion ti (last (rc_calls m)))"
    using h(3,5) by (auto simp: constant_companion_def split: option.splits)
  have "expr_value ti sanitizer_library env (hd (rc_calls m)) = expr_value ti sanitizer_library env (last (rc_calls m))"
    by (rule absorbed_run [where lib = sanitizer_library and h = h, OF sanitized.absorbing_axioms h(8,7) ne assms(2) lib c]) (simp add: list_all_iff v)
  then show ?thesis unfolding h(1-3) .
qed

section \<open>PS5116\<close>

definition one_bytes :: "(string \<Rightarrow> go_value) \<Rightarrow> go_value list \<Rightarrow> go_value" where
  "one_bytes f vs = (case vs of [Bytes s] \<Rightarrow> f s | _ \<Rightarrow> Panicked)"

definition validation_library :: library where
  "validation_library path name =
     (if path = ''unicode/utf8'' \<and> (name = ''ValidString'' \<or> name = ''Valid'')
      then Some (one_bytes (\<lambda>s. Truth (valid_utf8 s)))
      else sanitizer_library path name)"

lemma package_call_library:
  "as_call c \<noteq> None \<Longrightarrow> package_callee_of ti (call_fun c) = Some (ob, path, name) \<Longrightarrow>
     library_call ti lib (call_fun c) = lib path name"
  by (simp add: library_call_def)

lemma nested_call_value: "as_nested_call e = Some c \<Longrightarrow> expr_value ti lib env e = expr_value ti lib env c"
  by (auto simp: as_nested_call_def expr_value_unparen split: if_splits)

lemma as_nested_call_call: "as_nested_call e = Some c \<Longrightarrow> as_call c \<noteq> None"
  by (auto simp: as_nested_call_def split: if_splits)

lemma one_bytes_values: "length xs = 1 \<Longrightarrow> f (xs ! 0) = Bytes s \<Longrightarrow> one_bytes g (map f xs) = g s"
  by (cases xs) (auto simp: one_bytes_def)

lemma bytes_op_values:
  "length xs = 2 \<Longrightarrow> f (xs ! 0) = Bytes s \<Longrightarrow> f (xs ! 1) = Bytes r \<Longrightarrow> bytes_op g (map f xs) = Bytes (g s r)"
  by (cases xs; cases "tl xs") (auto simp: bytes_op_def bytes_layer_def on_bytes_def)

lemma constant_bytes_no_callee:
  assumes "constant_bytes ti e = Some r"
  shows "package_callee_of ti (call_fun (unparen e)) = None"
proof -
  have head: "callee_head f = unparen f" if "as_array_type (unparen f) \<noteq> None" for f
    using that by (cases "unparen f") (auto simp: callee_head_def)
  have none: "callee_object ti f = None" if "as_array_type (unparen f) \<noteq> None" for f
    using that head [OF that] by (cases "unparen f") (auto simp: callee_object_def)
  show ?thesis
    using assms none
    by (cases "unparen e")
      (auto simp: constant_bytes_def Let_def is_nil_ident_def is_ident_def call_fun_def package_callee_of_def
        callee_object_def callee_head_def split: if_splits option.splits)
qed

lemma constant_bytes_value:
  assumes "constant_bytes ti e = Some r" and "ti_value ti (unparen e) = None"
  shows "expr_value ti lib env e = Bytes r"
proof -
  have u: "unparen (unparen e) = unparen e" by (induction e rule: unparen.induct) auto
  have "leaf_value ti env (unparen e) = Bytes r"
    using assms(1) by (simp add: leaf_value_def constant_bytes_def u)
  then have "expr_value ti lib env (unparen e) = Bytes r"
    using assms(2) constant_bytes_no_callee [OF assms(1)]
    by (subst expr_value.simps) (auto simp: library_call_def call_fun_def split: node.split)
  then show ?thesis by (simp add: expr_value_unparen)
qed

text \<open>What a composition that PS5116 matches consists of.\<close>

lemma ps5116_match_facts:
  assumes "ps5116_match ti n = Some m"
  obtains name where "co_consumer m = n" and "name = ''ValidString'' \<or> name = ''Valid''"
    and "as_call n \<noteq> None" and "length (call_args n) = 1" and "\<not> has_ellipsis n"
    and "library_call ti validation_library (call_fun n) = Some (one_bytes (\<lambda>s. Truth (valid_utf8 s)))"
    and "as_nested_call (call_args n ! 0) = Some (co_producer m)" and "co_pkg m = ''strings'' \<or> co_pkg m = ''bytes''"
    and "length (call_args (co_producer m)) = 2" and "\<not> has_ellipsis (co_producer m)"
    and "library_call ti validation_library (call_fun (co_producer m)) = Some (bytes_op to_valid_utf8)"
    and "valid_replacement ti (co_producer m) (co_pkg m)"
proof -
  from assms obtain i name recv where c: "callee_object ti (call_fun n) = Some (Func_Obj i name (Some ''unicode/utf8'') recv)"
    and nm: "name = ''ValidString'' \<or> name = ''Valid''"
    by (auto simp: ps5116_match_def split: option.splits go_object.splits if_splits)
  define pkg where "pkg = (if name = ''ValidString'' then ''strings'' else ''bytes'')"
  from assms c nm obtain producer b where
    mc: "match_composition ti n ''unicode/utf8'' name 1 0 (ps5116_accepts ti pkg) = Some (producer, b)"
    and m: "m = \<lparr>co_consumer = n, co_producer = producer, co_name = name, co_binding = b, co_pkg = pkg\<rparr>"
    by (auto simp: ps5116_match_def pkg_def Let_def)
  from mc obtain ob ob' p' n' where f: "length (call_args n) = 1" "\<not> has_ellipsis n"
    "package_callee_of ti (call_fun n) = Some (ob, ''unicode/utf8'', name)"
    "as_nested_call (call_args n ! 0) = Some producer"
    "package_callee_of ti (call_fun producer) = Some (ob', p', n')" "ps5116_accepts ti pkg p' n' producer"
    by (auto simp: match_composition_def split: if_splits option.splits)
  have call: "as_call n \<noteq> None" using f(1) by (intro call_args_as_call) auto
  have "library_call ti validation_library (call_fun n) = validation_library ''unicode/utf8'' name"
    by (rule package_call_library [OF call f(3)])
  moreover have "library_call ti validation_library (call_fun producer) = validation_library p' n'"
    by (rule package_call_library [OF as_nested_call_call [OF f(4)] f(5)])
  ultimately show thesis
    using that [of name] m nm call f
    by (auto simp: validation_library_def sanitizer_library_def ps5116_accepts_def pkg_def)
qed

text \<open>
  PS5116 is right about the result. When it matches and the sanitized argument evaluates to a string
  or byte slice, the validation evaluates to true: the calls are no constants, and neither is the
  replacement of \<open>bytes.ToValidUTF8\<close>, a slice.
\<close>

theorem ps5116_value:
  assumes "ps5116_match ti n = Some m"
    and "list_all (\<lambda>c. ti_value ti c = None)
      ([n, co_producer m] @ (if co_pkg m = ''bytes'' then [unparen (call_args (co_producer m) ! 1)] else []))"
    and "expr_value ti validation_library env (call_args (co_producer m) ! 0) = Bytes s"
  shows "expr_value ti validation_library env n = Truth True"
proof -
  let ?val = "expr_value ti validation_library env" and ?p = "co_producer m"
  obtain name where c: "as_call n \<noteq> None" "length (call_args n) = 1" "\<not> has_ellipsis n"
    "library_call ti validation_library (call_fun n) = Some (one_bytes (\<lambda>s. Truth (valid_utf8 s)))"
    "as_nested_call (call_args n ! 0) = Some ?p" "co_pkg m = ''strings'' \<or> co_pkg m = ''bytes''"
    "length (call_args ?p) = 2" "\<not> has_ellipsis ?p"
    "library_call ti validation_library (call_fun ?p) = Some (bytes_op to_valid_utf8)"
    "valid_replacement ti ?p (co_pkg m)"
    by (rule ps5116_match_facts [OF assms(1)])
  obtain r where r: "constant_replacement ti (call_args ?p ! 1) (co_pkg m) = Some r" "valid_utf8 r"
    using c(10) by (auto simp: valid_replacement_def split: option.splits)
  have "?val (call_args ?p ! 1) = Bytes r"
    using r(1) c(6) assms(2)
    by (auto simp: constant_replacement_def intro: expr_value_constant constant_bytes_value)
  then have "bytes_op to_valid_utf8 (map ?val (call_args ?p)) = Bytes (to_valid_utf8 s r)"
    by (rule bytes_op_values [where f = ?val, OF c(7) assms(3)])
  moreover have "?val ?p = bytes_op to_valid_utf8 (map ?val (call_args ?p))"
    by (rule expr_value_call) (use c assms(2) as_nested_call_call in simp_all)
  ultimately have "?val (call_args n ! 0) = Bytes (to_valid_utf8 s r)"
    using nested_call_value [OF c(5)] by simp
  then have "one_bytes (\<lambda>s. Truth (valid_utf8 s)) (map ?val (call_args n)) = Truth (valid_utf8 (to_valid_utf8 s r))"
    by (rule one_bytes_values [where f = ?val, OF c(2)])
  moreover have "?val n = one_bytes (\<lambda>s. Truth (valid_utf8 s)) (map ?val (call_args n))"
    by (rule expr_value_call) (use c assms(2) in simp_all)
  moreover have "valid_utf8 (to_valid_utf8 s r)" using r(2) by (simp add: to_valid_utf8_def to_valid_from_valid)
  ultimately show ?thesis by simp
qed

section \<open>PS5111\<close>

fun is_bytes :: "go_value \<Rightarrow> bool" where
  "is_bytes (Bytes _) = True"
| "is_bytes _ = False"

fun the_bytes :: "go_value \<Rightarrow> string" where
  "the_bytes (Bytes s) = s"
| "the_bytes _ = []"

definition path_library :: library where
  "path_library path name =
     (if path \<noteq> ''path'' then None
      else if name = ''Clean'' then Some (one_bytes (\<lambda>s. Bytes (path_clean s)))
      else if name = ''Dir'' then Some (one_bytes (\<lambda>s. Bytes (path_dir s)))
      else if name = ''Base'' then Some (one_bytes (\<lambda>s. Bytes (path_base s)))
      else if name = ''Join'' then
        Some (\<lambda>vs. if list_all is_bytes vs then Bytes (path_join (map the_bytes vs)) else Panicked)
      else None)"

text \<open>What the loop of the wrapper chain finds.\<close>

lemma wrappers_from_producer:
  "wrappers_from ti w h accept current = Some (ws, e, p) \<Longrightarrow> as_nested_call e = Some p \<and> is_producer ti h accept p"
proof (induction ti w h accept current arbitrary: ws rule: wrappers_from.induct)
  case (1 ti w h accept current)
  then show ?case
    by (subst (asm) wrappers_from.simps)
      (auto simp: next_layer_def split: if_splits option.splits)
qed

lemma wrappers_from_value:
  assumes "wrappers_from ti w h accept current = Some (ws, e, p)"
    and "rh_path h = ''path''" and "rh_name h = ''Clean''" and "list_all (\<lambda>c. ti_value ti c = None) ws"
    and "one_bytes (\<lambda>s. Bytes (path_clean s)) [expr_value ti path_library env p] = expr_value ti path_library env p"
  shows "expr_value ti path_library env current = expr_value ti path_library env e"
  using assms
proof (induction ti w h accept current arbitrary: ws rule: wrappers_from.induct)
  case (1 ti w h accept current)
  let ?val = "expr_value ti path_library env"
  have w: "is_wrapper ti w h current" using 1(2) by (auto simp: wrappers_from.simps [of ti w h accept current] split: if_splits)
  then obtain call where call: "next_layer 0 current = Some call"
    using 1(2) by (auto simp: wrappers_from.simps [of ti w h accept current] split: option.splits)
  have rc: "run_call ti 1 h current" using w by (simp add: is_wrapper_def run_call_def)
  have nv: "ti_value ti current = None"
    using 1(2,5) w call by (auto simp: wrappers_from.simps [of ti w h accept current] split: if_splits)
  have "?val current = one_bytes (\<lambda>s. Bytes (path_clean s)) (map ?val (call_args current))"
    by (rule expr_value_call)
      (use nv run_call_library [OF rc] 1(3,4) in \<open>simp_all add: path_library_def\<close>)
  moreover have "map ?val (call_args current) = [?val call]"
    using rc next_layer_value [OF call] by (cases "call_args current") (auto simp: run_call_def)
  ultimately have v: "?val current = one_bytes (\<lambda>s. Bytes (path_clean s)) [?val call]" by simp
  show ?case
  proof (cases "package_call_with_binding ti call (rh_path h) (rh_name h) (rh_binding h)")
    case True
    then obtain ws' where r: "wrappers_from ti w h accept call = Some (ws', e, p)" "ws = current # ws'"
      using 1(2) w call by (auto simp: wrappers_from.simps [of ti w h accept current])
    have nv': "list_all (\<lambda>c. ti_value ti c = None) ws'" using 1(5) r(2) by simp
    have IH: "?val call = ?val e"
      by (rule 1(1) [OF _ call True r(1) 1(3,4) nv' 1(6)]) (simp add: w)
    moreover have "?val e = ?val p"
      using nested_call_value wrappers_from_producer [OF r(1)] by blast
    ultimately show ?thesis using v 1(6) by simp
  next
    case False
    then have r: "is_producer ti h accept call" "e = call_args current ! 0" "p = call"
      using 1(2) w call by (auto simp: wrappers_from.simps [of ti w h accept current] split: if_splits)
    have "as_nested_call e = Some p" using call r by (auto simp: next_layer_def split: if_splits)
    then show ?thesis using v r 1(6) nested_call_value by metis
  qed
qed

text \<open>Producers give cleaned, nonempty paths.\<close>

lemma one_bytes_cases: "(\<exists>s. vs = [Bytes s]) \<or> (\<forall>f. one_bytes f vs = Panicked)"
  by (cases vs; cases "tl vs"; cases "hd vs") (simp_all add: one_bytes_def)

lemma one_bytes_cleaned:
  assumes "\<And>s. path_clean (f s) = f s"
  shows "one_bytes (\<lambda>s. Bytes (path_clean s)) [one_bytes (\<lambda>s. Bytes (f s)) vs] = one_bytes (\<lambda>s. Bytes (f s)) vs"
proof (cases "\<exists>s. vs = [Bytes s]")
  case True
  then show ?thesis using assms by (auto simp: one_bytes_def)
next
  case False
  then have "one_bytes (\<lambda>s. Bytes (f s)) vs = Panicked" using one_bytes_cases [of vs] by blast
  then show ?thesis by (simp add: one_bytes_def)
qed

lemma accepted_producer_clean:
  assumes "is_producer ti h (ps5111_accepts ti ''path'') p" and "as_call p \<noteq> None"
    and "ti_value ti p = None" and "\<not> has_ellipsis p"
  shows "one_bytes (\<lambda>s. Bytes (path_clean s)) [expr_value ti path_library env p] = expr_value ti path_library env p"
proof -
  let ?val = "expr_value ti path_library env"
  obtain ob path name where c: "package_callee_of ti (call_fun p) = Some (ob, path, name)"
    and a: "ps5111_accepts ti ''path'' path name p"
    using assms(1) by (auto simp: is_producer_def split: option.splits)
  have path: "path = ''path''" using a by (simp add: ps5111_accepts_def)
  have lib: "library_call ti path_library (call_fun p) = path_library ''path'' name"
    using package_call_library [OF assms(2) c] path by simp
  have v: "?val p = g (map ?val (call_args p))" if "path_library ''path'' name = Some g" for g
    by (rule expr_value_call) (use assms(2-4) lib that in simp_all)
  have "name = ''Join'' \<and> list_ex (\<lambda>a. case constant_string ti a of Some s \<Rightarrow> s \<noteq> [] | None \<Rightarrow> False) (call_args p)"
    if "\<not> (name = ''Dir'' \<or> name = ''Base'')"
    using a unfolding ps5111_accepts_def if_not_P [OF that] by (rule conjunct2)
  then consider "name = ''Dir''" | "name = ''Base''"
    | (join) "name = ''Join''" "list_ex (\<lambda>a. case constant_string ti a of Some s \<Rightarrow> s \<noteq> [] | None \<Rightarrow> False) (call_args p)"
    by blast
  then show ?thesis
  proof cases
    case 1
    then have "?val p = one_bytes (\<lambda>s. Bytes (path_dir s)) (map ?val (call_args p))"
      by (intro v) (simp add: path_library_def)
    then show ?thesis using one_bytes_cleaned [of path_dir, OF path_clean_dir] by (simp only:)
  next
    case 2
    then have "?val p = one_bytes (\<lambda>s. Bytes (path_base s)) (map ?val (call_args p))"
      by (intro v) (simp add: path_library_def)
    then show ?thesis using one_bytes_cleaned [of path_base, OF path_clean_base] by (simp only:)
  next
    case join
    let ?vs = "map ?val (call_args p)"
    have val: "?val p = (if list_all is_bytes ?vs then Bytes (path_join (map the_bytes ?vs)) else Panicked)"
      using join(1) by (intro v) (simp add: path_library_def)
    obtain a s where a: "a \<in> set (call_args p)" "constant_string ti a = Some s" "s \<noteq> []"
      using join(2) by (auto simp: list_ex_iff split: option.splits)
    have "the_bytes (?val a) = s" using expr_value_constant [OF a(2)] by simp
    then have "list_ex (\<lambda>e. e \<noteq> []) (map the_bytes ?vs)" using a by (auto simp: list_ex_iff)
    then show ?thesis using val path_clean_join by (simp add: one_bytes_def)
  qed
qed

text \<open>
  PS5111's rewrite keeps values. Removing the layers of \<open>path.Clean\<close> around \<open>path.Dir\<close>, \<open>path.Base\<close> or a
  \<open>path.Join\<close> with a nonempty constant element keeps the value; the calls are no constants, and the
  producer is called without a spread argument.
\<close>

theorem ps5111_value:
  assumes "ps5111_chain ti n = Some m" and "list_all (\<lambda>c. ti_value ti c = None) (wc_wrappers m @ [wc_producer m])"
    and "\<not> has_ellipsis (wc_producer m)"
  shows "expr_value ti path_library env (wc_outer m) = expr_value ti path_library env (wc_expression m)"
proof -
  from assms(1) obtain w h where
    h: "run_head_of ti 1 (\<lambda>p n. p = ''path'' \<and> n = ''Clean'') n = Some h"
    and r: "wrappers_from ti w h (ps5111_accepts ti ''path'') n = Some (wc_wrappers m, wc_expression m, wc_producer m)"
    and o: "wc_outer m = n"
    by (auto simp: ps5111_chain_def match_wrapper_chain_def split: option.splits if_splits)
  have hd: "rh_path h = ''path''" "rh_name h = ''Clean''" using run_head_call(2) [OF h] by auto
  have p: "as_nested_call (wc_expression m) = Some (wc_producer m)"
    "is_producer ti h (ps5111_accepts ti ''path'') (wc_producer m)"
    using wrappers_from_producer [OF r] by auto
  have nv: "list_all (\<lambda>c. ti_value ti c = None) (wc_wrappers m)" "ti_value ti (wc_producer m) = None"
    using assms(2) by simp_all
  show ?thesis
    unfolding o
    by (rule wrappers_from_value [OF r hd nv(1)
        accepted_producer_clean [OF p(2) as_nested_call_call [OF p(1)] nv(2) assms(3)]])
qed

end
