(* ===== verification/Repeat_Values.thy ===== *)
theory Repeat_Values
  imports Chain_Values
begin

text \<open>
  PS5108: the product of the counts is computed without overflow, and one call with the product has the
  value of the run, panics included.
\<close>

section \<open>The product\<close>

definition count_of :: "type_info \<Rightarrow> node \<Rightarrow> int" where
  "count_of ti call = the (ps5108_positive_count ti (call_args call ! 1))"

definition countable_calls :: "type_info \<Rightarrow> node list \<Rightarrow> bool" where
  "countable_calls ti calls =
     list_all (\<lambda>c. length (call_args c) = 2 \<and> ps5108_positive_count ti (call_args c ! 1) \<noteq> None) calls"

lemma positive_count_bounds: "ps5108_positive_count ti e = Some v \<Longrightarrow> 0 < v \<and> v \<le> max_portable_int"
  by (auto simp: ps5108_positive_count_def split: option.splits const_value.splits if_splits)

lemma positive_count_value: "ps5108_positive_count ti e = Some v \<Longrightarrow> ti_value ti (unparen e) = Some (Const_Int v)"
  by (auto simp: ps5108_positive_count_def split: option.splits const_value.splits if_splits)

lemma counted:
  assumes "countable_calls ti calls" and "c \<in> set calls"
  shows "ps5108_positive_count ti (call_args c ! 1) = Some (count_of ti c)"
  using assms unfolding countable_calls_def list_all_iff count_of_def by (metis option.collapse)

lemma count_of_pos: "countable_calls ti calls \<Longrightarrow> c \<in> set calls \<Longrightarrow> 0 < count_of ti c"
  by (rule conjunct1 [OF positive_count_bounds]) (rule counted)

lemma prod_list_pos: "\<forall>n\<in>set ns. 0 < n \<Longrightarrow> (1::int) \<le> prod_list ns"
  by (induction ns) (auto simp: mult_pos_pos int_one_le_iff_zero_less)

lemma le_quotient: "0 < (n::int) \<Longrightarrow> p \<le> m div n \<longleftrightarrow> p * n \<le> m"
proof
  assume "0 < n" "p \<le> m div n"
  then have "p * n \<le> (m div n) * n" by (intro mult_right_mono) auto
  also have "\<dots> \<le> m" using \<open>0 < n\<close> by (simp add: minus_mod_eq_div_mult [symmetric])
  finally show "p * n \<le> m" .
next
  assume "0 < n" "p * n \<le> m"
  then show "p \<le> m div n" using zdiv_mono1 [of "p * n" m n] by simp
qed

lemma quotient_less: "0 < (n::int) \<Longrightarrow> m div n < p \<longleftrightarrow> m < p * n"
  using le_quotient [of n p m] by linarith

lemma product_from_exact:
  "1 \<le> p \<Longrightarrow> p \<le> max_portable_int \<Longrightarrow>
     ps5108_product_from ti p calls = Some q \<longleftrightarrow>
     countable_calls ti calls \<and> q = p * prod_list (map (count_of ti) calls) \<and> q \<le> max_portable_int"
proof (induction calls arbitrary: p)
  case Nil
  then show ?case by (auto simp: countable_calls_def)
next
  case (Cons c calls)
  show ?case
  proof (cases "length (call_args c) = 2 \<and> ps5108_positive_count ti (call_args c ! 1) \<noteq> None")
    case True
    then obtain n where n: "ps5108_positive_count ti (call_args c ! 1) = Some n" "count_of ti c = n" "0 < n"
      using positive_count_bounds by (auto simp: count_of_def)
    have cc: "countable_calls ti (c # calls) \<longleftrightarrow> countable_calls ti calls"
      using True by (simp add: countable_calls_def)
    show ?thesis
    proof (cases "p * n \<le> max_portable_int")
      case fits: True
      have "1 \<le> p * n" using Cons.prems n(3) by (simp add: mult_pos_pos int_one_le_iff_zero_less)
      then show ?thesis
        using Cons.IH [of "p * n"] fits True n cc quotient_less [OF n(3)] by (simp add: mult.assoc not_less)
    next
      case False
      have "max_portable_int < p * (n * prod_list (map (count_of ti) calls))" if "countable_calls ti calls"
      proof -
        have "1 \<le> prod_list (map (count_of ti) calls)" using count_of_pos [OF that] by (intro prod_list_pos) auto
        then have "p * n * 1 \<le> p * n * prod_list (map (count_of ti) calls)"
          using Cons.prems n(3) by (intro mult_left_mono) auto
        then show ?thesis using False by (simp add: mult.assoc)
      qed
      then show ?thesis using False True n cc quotient_less [OF n(3)] by (auto simp: not_less)
    qed
  next
    case False
    then show ?thesis by (auto simp: countable_calls_def split: option.splits)
  qed
qed

text \<open>
  C19: PS5108 combines counts exactly when their true product fits 32 bits. The division that guards
  the multiplication never lets a product wrap and never rejects one that fits: the computed value is the
  product over the unbounded integers, and there is one whenever all counts are positive constants and the product is at
  most \<open>2 ^ 31 - 1\<close>.
\<close>

theorem ps5108_product_exact:
  "ps5108_count_product ti calls = Some q \<longleftrightarrow>
     countable_calls ti calls \<and> q = prod_list (map (count_of ti) calls) \<and> q \<le> 2 ^ 31 - 1"
proof -
  have "1 \<le> max_portable_int" by (simp add: max_portable_int_def)
  from product_from_exact [OF order_refl this] show ?thesis
    unfolding ps5108_count_product_def by (simp add: max_portable_int_def)
qed

section \<open>Values\<close>

definition copies :: "int \<Rightarrow> int \<Rightarrow> go_value \<Rightarrow> go_value" where
  "copies mx n v =
     (case v of
        Bytes s \<Rightarrow> (case go_repeat mx s n of Some t \<Rightarrow> Bytes t | None \<Rightarrow> Panicked)
      | Slice xs \<Rightarrow> (case go_repeat mx xs n of Some ys \<Rightarrow> Slice ys | None \<Rightarrow> Panicked)
      | _ \<Rightarrow> Panicked)"

definition repeat_op :: "int \<Rightarrow> go_value list \<Rightarrow> go_value" where
  "repeat_op mx vs = (case vs of [v, Whole n] \<Rightarrow> copies mx n v | _ \<Rightarrow> Panicked)"

definition repeat_library :: "int \<Rightarrow> library" where
  "repeat_library mx path name = (if ps5108_allowed path name then Some (repeat_op mx) else None)"

lemma copies_copies:
  assumes "0 < a" and "0 < b"
  shows "copies mx b (copies mx a v) = copies mx (a * b) v"
proof (cases v)
  case (Bytes s)
  then show ?thesis
    using repeat_repeat [OF assms, of mx s] by (cases "go_repeat mx s a") (simp_all add: copies_def)
next
  case (Slice xs)
  then show ?thesis
    using repeat_repeat [OF assms, of mx xs] by (cases "go_repeat mx xs a") (simp_all add: copies_def)
qed (simp_all add: copies_def)

lemma foldr_copies:
  "ns \<noteq> [] \<Longrightarrow> \<forall>n\<in>set ns. 0 < n \<Longrightarrow> foldr (copies mx) ns v = copies mx (prod_list ns) v"
proof (induction ns rule: induct_list012)
  case (3 a b ns)
  have p: "0 < prod_list (b # ns)" using prod_list_pos [of "b # ns"] 3(4) by simp
  have "foldr (copies mx) (a # b # ns) v = copies mx a (copies mx (prod_list (b # ns)) v)" using 3 by simp
  also have "\<dots> = copies mx (prod_list (b # ns) * a) v" using 3(4) p by (intro copies_copies) auto
  finally show ?case by (simp add: mult_ac)
qed simp_all

lemma expr_value_whole:
  assumes "ti_value ti (unparen e) = Some (Const_Int v)"
  shows "expr_value ti lib env e = Whole v"
proof -
  have "expr_value ti lib env (unparen e) = Whole v"
    using assms by (subst expr_value.simps) (auto simp: constant_value_def split: node.split)
  then show ?thesis by (simp add: expr_value_unparen)
qed

lemma count_value:
  assumes "countable_calls ti calls"
  shows "list_all (\<lambda>c. expr_value ti lib env (call_args c ! 1) = Whole (count_of ti c)) calls"
  unfolding list_all_iff by (intro ballI expr_value_whole positive_count_value counted [OF assms])

text \<open>The call that the fix leaves: the kept one, with the product for its count unless the count is the product already.\<close>

definition combined_call :: "type_info \<Rightarrow> repeated_call \<Rightarrow> int \<Rightarrow> at \<Rightarrow> at \<Rightarrow> node" where
  "combined_call ti m product a b =
     (let keep = rc_keep m in
      if count_of ti keep = product then keep
      else CallExpr a (call_fun keep) [call_args keep ! 0, BasicLit b ''INT'' (itoa product)] False)"

text \<open>
  PS5108's rewrite keeps values and panics. For a matched run whose counts combine to a product, the
  outermost call and the call the fix leaves have the same value: the product many copies of the seed, or a panic when
  these would not fit an \<open>int\<close> of any width. The literal has the value of its digits, and the calls are no constants.
\<close>

theorem ps5108_value:
  assumes "ps5108_match ti n = Some m" and "ps5108_count_product ti (rc_calls m) = Some product"
    and "list_all (\<lambda>c. ti_value ti c = None) (combined_call ti m product a b # rc_calls m)"
    and "ti_value ti (BasicLit b ''INT'' (itoa product)) = Some (Const_Int product)"
  shows "expr_value ti (repeat_library mx) env (rc_outer m) =
      expr_value ti (repeat_library mx) env (combined_call ti m product a b) \<and>
    expr_value ti (repeat_library mx) env (rc_outer m) =
      copies mx product (expr_value ti (repeat_library mx) env (call_args (rc_keep m) ! 0))"
proof -
  let ?val = "expr_value ti (repeat_library mx) env" and ?lib = "repeat_library mx"
  let ?seed = "?val (call_args (rc_keep m) ! 0)"
  obtain h where h: "rc_outer m = n" "hd (rc_calls m) = n" "last (rc_calls m) = rc_keep m" "2 \<le> length (rc_calls m)"
    "ps5108_allowed (rh_path h) (rh_name h)" "list_all (run_call ti 2 h) (rc_calls m)"
    "linked ti 2 0 (ps5108_positive_pair ti) h (rc_calls m)"
    by (rule match_repeated_facts [OF assms(1) [unfolded ps5108_match_def]])
  have ne: "rc_calls m \<noteq> []" using h(4) by auto
  then have keep: "rc_keep m \<in> set (rc_calls m)" unfolding h(3) [symmetric] by simp
  have cc: "countable_calls ti (rc_calls m)" and q: "product = prod_list (map (count_of ti) (rc_calls m))"
    using product_from_exact [of 1 ti "rc_calls m" product] assms(2)
    by (simp_all add: ps5108_count_product_def max_portable_int_def)
  have lib: "?lib (rh_path h) (rh_name h) = Some (repeat_op mx)" using h(5) by (simp add: repeat_library_def)
  have nv: "list_all (\<lambda>c. ti_value ti c = None) (rc_calls m)" using assms(3) by simp
  have op: "repeat_op mx [v, Whole k] = copies mx k v" for v k by (simp add: repeat_op_def)
  note steps = nv lib op count_value [OF cc]
  have "?val (hd (rc_calls m)) = foldr (copies mx) (map (count_of ti) (rc_calls m)) (?val (call_args (last (rc_calls m)) ! 0))"
    by (rule run_value [where lib = ?lib and h = h and of_companion = Whole, OF h(7,6) ne steps])
  also have "\<dots> = copies mx product (?val (call_args (last (rc_calls m)) ! 0))"
    unfolding q by (rule foldr_copies) (use ne count_of_pos [OF cc] in auto)
  finally have outer: "?val n = copies mx product ?seed" unfolding h(2,3) .
  have "?val (combined_call ti m product a b) = copies mx product ?seed"
  proof (cases "count_of ti (rc_keep m) = product")
    case True
    have "?val (last (rc_calls m)) = copies mx (count_of ti (last (rc_calls m))) (?val (call_args (last (rc_calls m)) ! 0))"
      by (rule keep_value [where lib = ?lib and h = h and of_companion = Whole, OF h(6) ne steps])
    then show ?thesis unfolding h(3) by (simp add: combined_call_def Let_def True)
  next
    case False
    define c where "c = CallExpr a (call_fun (rc_keep m)) [call_args (rc_keep m) ! 0, BasicLit b ''INT'' (itoa product)] False"
    have c: "combined_call ti m product a b = c" using False by (simp add: combined_call_def Let_def c_def)
    have "run_call ti 2 h (rc_keep m)" using h(6) keep by (simp add: list_all_iff)
    then have "library_call ti ?lib (call_fun c) = Some (repeat_op mx)"
      using run_call_library(3) [of ti 2 h "rc_keep m" ?lib] lib by (simp add: c_def call_fun_def [of "CallExpr _ _ _ _"])
    then have "?val c = repeat_op mx (map ?val (call_args c))"
      using assms(3) c by (intro expr_value_call) (simp_all add: c_def has_ellipsis_def)
    also have "call_args c = [call_args (rc_keep m) ! 0, BasicLit b ''INT'' (itoa product)]"
      by (simp add: c_def call_args_def [of "CallExpr _ _ _ _"])
    finally show ?thesis
      using expr_value_whole [of ti "BasicLit b ''INT'' (itoa product)" product] assms(4) c op by simp
  qed
  then show ?thesis using outer h(1) by simp
qed

end
