(* ===== verification/Chains_Props.thy ===== *)
theory Chains_Props
  imports Chain_Guards Repeat_Values Checks_Props Edits_Props
begin

text \<open>
  What the checks of nested calls report and what their fixes do to a file: which runs are reported, the type
  of the call that is kept, and the text after the fix.
\<close>

section \<open>Positions in the traversal\<close>

lemma nodes_split: "p \<in> set (nodes root) \<Longrightarrow> \<exists>xs ys. nodes root = xs @ nodes p @ ys"
proof (induction root rule: node_induct)
  case (node root)
  show ?case
  proof (cases "p = root")
    case True
    then show ?thesis by (intro exI [of _ "[]"]) simp
  next
    case False
    then obtain c where c: "c \<in> set (children root)" "p \<in> set (nodes c)"
      using node.prems by (subst (asm) nodes.simps) auto
    obtain as bs where cs: "children root = as @ c # bs" using split_list [OF c(1)] by blast
    obtain xs ys where n: "nodes c = xs @ nodes p @ ys" using node.IH [OF c] by blast
    have "nodes root = root # concat (map nodes as) @ nodes c @ concat (map nodes bs)"
      by (subst nodes.simps) (simp add: cs)
    then show ?thesis unfolding n by (metis append_Cons append_assoc)
  qed
qed

lemma self_in_nodes: "n \<in> set (nodes n)"
  by (subst nodes.simps) simp

lemma nodes_trans: "p \<in> set (nodes root) \<Longrightarrow> n \<in> set (nodes p) \<Longrightarrow> n \<in> set (nodes root)"
  using nodes_split by fastforce

lemma proper_distinct: "proper root \<Longrightarrow> distinct (nodes root)"
  unfolding proper_def by (simp add: distinct_map)

lemma proper_ref: "proper root \<Longrightarrow> a \<in> set (nodes root) \<Longrightarrow> b \<in> set (nodes root) \<Longrightarrow> node_ref a = node_ref b \<Longrightarrow> a = b"
  unfolding proper_def by (auto simp: distinct_map dest: inj_onD)

text \<open>A node comes before the nodes below it.\<close>

lemma descendant_later:
  assumes "proper root" and "p \<in> set (nodes root)" and "n \<in> set (nodes p)" and "n \<noteq> p"
    and "nodes root = as @ n # bs"
  shows "p \<in> set as"
proof -
  obtain xs ys where s: "nodes root = xs @ nodes p @ ys" using nodes_split [OF assms(2)] by blast
  have "n \<in> set (concat (map nodes (children p)))" using assms(3,4) by (subst (asm) nodes.simps) simp
  then obtain us vs where u: "concat (map nodes (children p)) = us @ n # vs" using split_list by fastforce
  have np: "nodes p = p # us @ n # vs" by (subst nodes.simps) (simp add: u)
  have "as @ n # bs = (xs @ p # us) @ n # (vs @ ys)" using s assms(5) np by simp
  moreover have "n \<notin> set as" "n \<notin> set bs" using proper_distinct [OF assms(1)] assms(5) by auto
  ultimately have "as = xs @ p # us" using append_Cons_eq_iff [of n as bs "xs @ p # us" "vs @ ys"] by blast
  then show ?thesis by auto
qed

lemma unparen_in_nodes: "unparen x \<in> set (nodes x)"
proof (induction x rule: unparen.induct)
  case (1 a x)
  then show ?case by (subst nodes.simps) simp
qed (simp_all add: self_in_nodes)

lemma next_layer_below:
  assumes "next_layer i p = Some n"
  shows "n \<in> set (nodes p)" and "n \<noteq> p"
proof -
  have a: "i < length (call_args p)" "n = unparen (call_args p ! i)"
    using assms by (auto simp: next_layer_def as_nested_call_def split: if_splits)
  then have "call_args p ! i \<in> set (children p)" by (intro call_args_children) simp
  then show "n \<in> set (nodes p)"
    unfolding a(2) by (subst nodes.simps) (use unparen_in_nodes in auto)
  show "n \<noteq> p" using size_next_layer [OF assms] by auto
qed

lemma linked_in_nodes:
  "linked ti arity i compatible h (c # cs) \<Longrightarrow> c \<in> set (nodes root) \<Longrightarrow> set (c # cs) \<subseteq> set (nodes root)"
proof (induction cs arbitrary: c)
  case (Cons d cs)
  then have "d \<in> set (nodes root)" using next_layer_below(1) nodes_trans by (metis linked.simps(1))
  then show ?case using Cons.IH [of d] Cons.prems by simp
qed simp

section \<open>Which runs are reported\<close>

text \<open>\<open>p\<close> is a call whose run goes on with \<open>n\<close>; a match is outermost when no run goes on with it.\<close>

definition continues_run ::
    "type_info \<Rightarrow> nat \<Rightarrow> nat \<Rightarrow> (string \<Rightarrow> string \<Rightarrow> bool) \<Rightarrow> (node \<Rightarrow> node \<Rightarrow> bool) \<Rightarrow> node \<Rightarrow> node \<Rightarrow> bool" where
  "continues_run ti arity i allowed compatible p n =
     (case run_head_of ti arity allowed p of
        None \<Rightarrow> False
      | Some h \<Rightarrow> next_layer i p = Some n \<and> joins_run ti arity compatible h p n)"

definition outermost_match ::
    "type_info \<Rightarrow> nat \<Rightarrow> nat \<Rightarrow> (string \<Rightarrow> string \<Rightarrow> bool) \<Rightarrow> (node \<Rightarrow> node \<Rightarrow> bool) \<Rightarrow> node \<Rightarrow> node \<Rightarrow> bool" where
  "outermost_match ti arity i allowed compatible root n =
     (match_repeated ti n arity i allowed compatible \<noteq> None \<and>
      \<not> list_ex (\<lambda>p. continues_run ti arity i allowed compatible p n) (nodes root))"

lemma linked_predecessor:
  "linked ti arity i compatible h cs \<Longrightarrow> n \<in> set (tl cs) \<Longrightarrow>
     \<exists>p\<in>set cs. next_layer i p = Some n \<and> joins_run ti arity compatible h p n"
  by (induction cs rule: induct_list012) auto

lemma linked_successor:
  "linked ti arity i compatible h cs \<Longrightarrow> p \<in> set cs \<Longrightarrow> p = last cs \<or> (\<exists>n\<in>set cs. next_layer i p = Some n)"
  by (induction cs rule: induct_list012) auto

lemma continues_match:
  assumes "continues_run ti arity i allowed compatible p n" and "1 \<le> arity" and "i < arity"
  shows "match_repeated ti p arity i allowed compatible \<noteq> None"
  using assms inner_layers.simps [of ti arity i compatible _ p]
  by (auto simp: continues_run_def match_repeated_def Let_def split: option.splits)

text \<open>A call behind the first of a run continues it; and a run that holds a call goes on as the call does.\<close>

lemma run_tail_continues:
  assumes "match_repeated ti o' arity i allowed compatible = Some m" and "n \<in> set (rc_calls m)" and "n \<noteq> o'"
  shows "\<exists>p\<in>set (rc_calls m). continues_run ti arity i allowed compatible p n"
proof -
  obtain h inner where r: "1 \<le> arity" "run_head_of ti arity allowed o' = Some h"
    "linked ti arity i compatible h (o' # inner)" and m: "m = found_run h o' inner"
    using assms(1) unfolding match_repeated_iff by blast
  then have "n \<in> set (tl (o' # inner))" using assms(2,3) by (simp add: found_run_def)
  then obtain p where p: "p \<in> set (o' # inner)" "next_layer i p = Some n" "joins_run ti arity compatible h p n"
    using linked_predecessor [OF r(3)] by blast
  have "list_all (run_call ti arity h) (o' # inner)"
    by (rule linked_calls [OF r(3)]) (rule run_head_call [OF r(2,1)])
  then have "run_head_of ti arity allowed p = Some h"
    using run_call_head [of ti arity h p allowed] run_head_call(2) [OF r(2,1)] r(1) p(1) unfolding list_all_iff by blast
  then have "continues_run ti arity i allowed compatible p n" using p by (simp add: continues_run_def)
  then show ?thesis using p(1) m by (auto simp: found_run_def)
qed

lemma run_closed:
  assumes "match_repeated ti o' arity i allowed compatible = Some m" and "p \<in> set (rc_calls m)"
    and "continues_run ti arity i allowed compatible p n"
  shows "n \<in> set (rc_calls m)"
proof -
  obtain h inner where r: "1 \<le> arity" "run_head_of ti arity allowed o' = Some h" "inner \<noteq> []"
    "linked ti arity i compatible h (o' # inner)" "run_ends ti arity i compatible h (last inner)"
    and m: "m = found_run h o' inner"
    using assms(1) unfolding match_repeated_iff by blast
  have p: "p \<in> set (o' # inner)" using assms(2) m by (simp add: found_run_def)
  have "list_all (run_call ti arity h) (o' # inner)"
    by (rule linked_calls [OF r(4)]) (rule run_head_call [OF r(2,1)])
  then have "run_head_of ti arity allowed p = Some h"
    using run_call_head [of ti arity h p allowed] run_head_call(2) [OF r(2,1)] r(1) p unfolding list_all_iff by blast
  then have n: "next_layer i p = Some n" "joins_run ti arity compatible h p n"
    using assms(3) by (auto simp: continues_run_def)
  then have "p \<noteq> last (o' # inner)" using r(3,5) by (auto simp: run_ends_def)
  then have "\<exists>n\<in>set (o' # inner). next_layer i p = Some n" using linked_successor [OF r(4) p] by blast
  then show ?thesis using n(1) m by (auto simp: found_run_def)
qed

lemma mark_calls_set: "mark_calls seen cs = seen \<union> node_ref ` set cs"
proof -
  have "foldl (\<lambda>s c. insert (node_ref c) s) s cs = s \<union> node_ref ` set cs" for s
    by (induction cs arbitrary: s) auto
  then show ?thesis by (simp add: mark_calls_def)
qed

text \<open>One step of a check that reports runs, and the state after a part of the traversal.\<close>

definition run_step ::
    "(node \<Rightarrow> repeated_call option) \<Rightarrow> (node \<Rightarrow> repeated_call \<Rightarrow> diagnostic) \<Rightarrow> node \<Rightarrow>
     nat set \<times> diagnostic list \<Rightarrow> nat set \<times> diagnostic list" where
  "run_step M D n st =
     (case st of (seen, out) \<Rightarrow>
        if node_ref n \<in> seen then st
        else case M n of
               None \<Rightarrow> st
             | Some m \<Rightarrow> (mark_calls seen (rc_calls m), out @ [D n m]))"

definition after_nodes ::
    "(node \<Rightarrow> repeated_call option) \<Rightarrow> (node \<Rightarrow> repeated_call \<Rightarrow> diagnostic) \<Rightarrow> (node \<Rightarrow> bool) \<Rightarrow> node list \<Rightarrow>
     diagnostic list \<Rightarrow> nat set \<times> diagnostic list" where
  "after_nodes M D chosen ns out =
     (\<Union>n\<in>set (filter chosen ns). node_ref ` set (rc_calls (the (M n))),
      out @ map (\<lambda>n. D n (the (M n))) (filter chosen ns))"

lemma run_in_nodes:
  assumes "match_repeated ti n0 arity i allowed compatible = Some m" and "n0 \<in> set (nodes root)"
  shows "set (rc_calls m) \<subseteq> set (nodes root)" and "n0 \<in> set (rc_calls m)"
proof -
  obtain h inner where "linked ti arity i compatible h (n0 # inner)" and m: "m = found_run h n0 inner"
    using assms(1) unfolding match_repeated_iff by blast
  then show "set (rc_calls m) \<subseteq> set (nodes root)"
    using linked_in_nodes assms(2) by (simp add: found_run_def)
  show "n0 \<in> set (rc_calls m)" using m by (simp add: found_run_def)
qed

text \<open>In the order of the traversal, every matching call belongs to the run of an outermost match.\<close>

lemma outermost_above:
  assumes "1 \<le> arity" and "i < arity" and "proper root"
  shows "nodes root = as @ bs \<Longrightarrow> p \<in> set as \<Longrightarrow> match_repeated ti p arity i allowed compatible \<noteq> None \<Longrightarrow>
    \<exists>n0\<in>set as. outermost_match ti arity i allowed compatible root n0 \<and>
      p \<in> set (rc_calls (the (match_repeated ti n0 arity i allowed compatible)))"
proof (induction as arbitrary: bs p rule: rev_induct)
  case (snoc n as)
  let ?M = "\<lambda>n. match_repeated ti n arity i allowed compatible"
  have IH: "\<exists>n0\<in>set as. outermost_match ti arity i allowed compatible root n0 \<and> q \<in> set (rc_calls (the (?M n0)))"
    if "q \<in> set as" "?M q \<noteq> None" for q
    using snoc.IH [of "n # bs" q] snoc.prems(1) that by simp
  show ?case
  proof (cases "p \<in> set as")
    case False
    then have p: "p = n" using snoc.prems(2) by simp
    show ?thesis
    proof (cases "outermost_match ti arity i allowed compatible root n")
      case True
      have "n \<in> set (nodes root)" using snoc.prems(1) by simp
      then show ?thesis using True p run_in_nodes(2) snoc.prems(3) by fastforce
    next
      case False
      then obtain q where q: "q \<in> set (nodes root)" "continues_run ti arity i allowed compatible q n"
        using snoc.prems(3) p by (auto simp: outermost_match_def list_ex_iff)
      have "next_layer i q = Some n" using q(2) by (auto simp: continues_run_def split: option.splits)
      then have "q \<in> set as"
        using descendant_later [OF assms(3) q(1), of n as bs] next_layer_below snoc.prems(1) by auto
      moreover have "?M q \<noteq> None" by (rule continues_match [OF q(2) assms(1,2)])
      ultimately obtain n0 where n0: "n0 \<in> set as" "outermost_match ti arity i allowed compatible root n0"
        "q \<in> set (rc_calls (the (?M n0)))" using IH by blast
      moreover from n0(2) have "?M n0 = Some (the (?M n0))" by (simp add: outermost_match_def)
      ultimately show ?thesis using run_closed q(2) p by (metis butlast_snoc in_set_butlastD)
    qed
  qed (use IH snoc.prems(3) in auto)
qed simp

lemma run_fold:
  fixes ti arity i allowed compatible root
  defines "M \<equiv> \<lambda>n. match_repeated ti n arity i allowed compatible"
    and "first \<equiv> outermost_match ti arity i allowed compatible root"
  assumes "1 \<le> arity" and "i < arity" and "proper root"
  shows "nodes root = as @ bs \<Longrightarrow> foldl (\<lambda>s n. run_step M D n s) ({}, out) as = after_nodes M D first as out"
proof (induction as arbitrary: bs rule: rev_induct)
  case Nil
  then show ?case by (simp add: after_nodes_def)
next
  case (snoc n as)
  let ?S = "\<Union>n\<in>set (filter first as). node_ref ` set (rc_calls (the (M n)))"
  have nn: "n \<in> set (nodes root)" "n \<notin> set as" using snoc.prems proper_distinct [OF assms(5)] by auto
  have st: "foldl (\<lambda>s n. run_step M D n s) ({}, out) as = (?S, out @ map (\<lambda>n. D n (the (M n))) (filter first as))"
    using snoc.IH [of "n # bs"] snoc.prems by (simp add: after_nodes_def)
  have none: "\<not> first n" if "M n = None" using that by (simp add: first_def M_def outermost_match_def)
  have seen: "node_ref n \<in> ?S \<longleftrightarrow> \<not> first n" if some: "M n \<noteq> None"
  proof
    assume "node_ref n \<in> ?S"
    then obtain n0 c where n0: "n0 \<in> set as" "first n0" and c: "c \<in> set (rc_calls (the (M n0)))" "node_ref c = node_ref n"
      by auto
    have m0: "match_repeated ti n0 arity i allowed compatible = Some (the (M n0))"
      using n0(2) by (simp add: first_def M_def outermost_match_def)
    have "n0 \<in> set (nodes root)" using n0(1) snoc.prems by simp
    note sub = run_in_nodes(1) [OF m0 this]
    have "c = n" using proper_ref [OF assms(5) _ nn(1) c(2)] sub c(1) by blast
    moreover have "n \<noteq> n0" using n0(1) nn(2) by blast
    ultimately obtain p where "p \<in> set (rc_calls (the (M n0)))" "continues_run ti arity i allowed compatible p n"
      using run_tail_continues [OF m0, of n] c(1) by blast
    then show "\<not> first n" using sub by (auto simp: first_def outermost_match_def list_ex_iff)
  next
    assume "\<not> first n"
    then obtain q where q: "q \<in> set (nodes root)" "continues_run ti arity i allowed compatible q n"
      using some by (auto simp: first_def M_def outermost_match_def list_ex_iff)
    have "next_layer i q = Some n" using q(2) by (auto simp: continues_run_def split: option.splits)
    then have "q \<in> set as"
      using descendant_later [OF assms(5) q(1), of n as bs] next_layer_below snoc.prems by auto
    then obtain n0 where n0: "n0 \<in> set as" "first n0" "q \<in> set (rc_calls (the (M n0)))"
      using outermost_above [OF assms(3-5), of as "n # bs" q ti allowed compatible]
        continues_match [OF q(2) assms(3,4)] snoc.prems
      unfolding first_def M_def by auto
    have "match_repeated ti n0 arity i allowed compatible = Some (the (M n0))"
      using n0(2) by (simp add: first_def M_def outermost_match_def)
    from run_closed [OF this n0(3) q(2)] show "node_ref n \<in> ?S" using n0(1,2) by auto
  qed
  have step: "foldl (\<lambda>s n. run_step M D n s) ({}, out) (as @ [n]) =
      run_step M D n (?S, out @ map (\<lambda>n. D n (the (M n))) (filter first as))"
    by (simp add: st)
  show ?case
  proof (cases "M n")
    case None
    then show ?thesis unfolding step using none by (simp add: run_step_def after_nodes_def)
  next
    case (Some m)
    then show ?thesis
      unfolding step using seen by (cases "first n") (auto simp: run_step_def after_nodes_def mark_calls_set)
  qed
qed

lemma run_inspect:
  assumes "1 \<le> arity" and "i < arity" and "proper root"
  shows "snd (inspect (each_node (run_step (\<lambda>n. match_repeated ti n arity i allowed compatible) D)) root ({}, out)) =
    out @ map (\<lambda>n. D n (the (match_repeated ti n arity i allowed compatible)))
      (filter (outermost_match ti arity i allowed compatible root) (nodes root))"
  unfolding inspect_each
  using run_fold [OF assms, of "nodes root" "[]" ti allowed compatible D out] by (simp add: after_nodes_def)

text \<open>The diagnostic of PS5077 for a matched run.\<close>

definition ps5077_report :: "chain_pass \<Rightarrow> go_file \<Rightarrow> node \<Rightarrow> repeated_call \<Rightarrow> diagnostic" where
  "ps5077_report cp f n m =
     chain_diag n (message_ps5077 m)
       (if \<not> comment_around f n (rc_keep m) \<and> ps5077_fix_keeps_uses (ch_info cp) f m then [ps5077_fix m] else [])"

lemma match_is_call: "match_repeated ti n arity i allowed compatible \<noteq> None \<Longrightarrow> as_call n \<noteq> None"
proof -
  assume "match_repeated ti n arity i allowed compatible \<noteq> None"
  then obtain h where "1 \<le> arity" "run_head_of ti arity allowed n = Some h"
    unfolding match_repeated_def by (auto split: if_splits option.splits)
  then have "call_args n \<noteq> []" by (auto simp: run_head_of_def split: option.splits if_splits)
  then show ?thesis by (rule call_args_as_call)
qed

lemma ps5077_node_step: "ps5077_node cp f = run_step (ps5077_match (ch_info cp)) (ps5077_report cp f)"
proof (intro ext)
  fix n st
  have c: "as_call n = None \<Longrightarrow> ps5077_match (ch_info cp) n = None"
    using match_is_call [of "ch_info cp" n 2 0] unfolding ps5077_match_def by fast
  show "ps5077_node cp f n st = run_step (ps5077_match (ch_info cp)) (ps5077_report cp f) n st"
    by (cases "as_call n = None")
      (auto simp: ps5077_node_def run_step_def ps5077_report_def c split: option.splits prod.splits)
qed

text \<open>
  C16: PS5077 reports exactly the outermost runs. In trees whose nodes are distinct it reports, file by file and in
  the order of the traversal, the calls that start a run and that no run around them goes on with. So no call
  belongs to two reports, although the runs of every call are searched and only a set of visited calls is kept.
\<close>

theorem ps5077_reports_outermost:
  assumes "list_all (\<lambda>f. proper (gf_tree f)) (ch_files cp)"
  shows "run_ps5077 cp =
    concat (map (\<lambda>f. map (\<lambda>n. ps5077_report cp f n (the (ps5077_match (ch_info cp) n)))
      (filter (outermost_match (ch_info cp) 2 0 ps5077_allowed (ps5077_same_cutset (ch_info cp)) (gf_tree f))
        (nodes (gf_tree f)))) (ch_files cp))"
proof -
  let ?r = "\<lambda>f. map (\<lambda>n. ps5077_report cp f n (the (ps5077_match (ch_info cp) n)))
      (filter (outermost_match (ch_info cp) 2 0 ps5077_allowed (ps5077_same_cutset (ch_info cp)) (gf_tree f))
        (nodes (gf_tree f)))"
  have one: "snd (inspect (each_node (ps5077_node cp f)) (gf_tree f) ({}, out)) = out @ ?r f"
    if "f \<in> set (ch_files cp)" for f out
    unfolding ps5077_node_step ps5077_match_def
    using that assms by (subst run_inspect) (simp_all add: list_all_iff)
  have "foldl (\<lambda>s f. snd (inspect (each_node (ps5077_node cp f)) (gf_tree f) ({}, s))) out fs = out @ concat (map ?r fs)"
    if "set fs \<subseteq> set (ch_files cp)" for out fs
    using that by (induction fs arbitrary: out) (simp_all add: one)
  then show ?thesis by (simp add: run_ps5077_def over_chain_files_def)
qed

section \<open>Types\<close>

text \<open>
  C21: a collapse keeps the type. Every call of a matched run, the one a fix keeps among them, has the type of
  the outermost call, is a call of the same function through the same import, and of the allowed arity. So the
  kept expression fits wherever the run stood.
\<close>

theorem run_keeps_type:
  assumes "match_repeated ti n arity i allowed compatible = Some m" and "c \<in> set (rc_calls m)"
  shows "ti_identity ti c = ti_identity ti n \<and> ti_identity ti n \<noteq> None \<and>
    package_binding ti (call_fun c) = package_binding ti (call_fun n) \<and>
    map_option snd (package_callee_of ti (call_fun c)) = Some (rc_path m, repeated_call.rc_name m) \<and>
    allowed (rc_path m) (repeated_call.rc_name m) \<and> length (call_args c) = arity \<and> rc_keep m \<in> set (rc_calls m)"
proof -
  obtain h where h: "hd (rc_calls m) = n" "last (rc_calls m) = rc_keep m" "2 \<le> length (rc_calls m)"
    "rc_path m = rh_path h" "repeated_call.rc_name m = rh_name h" "allowed (rh_path h) (rh_name h)"
    "list_all (run_call ti arity h) (rc_calls m)"
    by (rule match_repeated_facts [OF assms(1)])
  have ne: "rc_calls m \<noteq> []" using h(3) by auto
  have r: "run_call ti arity h x" if "x \<in> set (rc_calls m)" for x using h(7) that by (simp add: list_all_iff)
  have arity: "1 \<le> arity" using assms(1) by (simp add: match_repeated_iff)
  have f: "package_call_with_binding ti x (rh_path h) (rh_name h) (rh_binding h) \<Longrightarrow>
      package_binding ti (call_fun x) = Some (rh_binding h) \<and>
      map_option snd (package_callee_of ti (call_fun x)) = Some (rh_path h, rh_name h)" for x
    by (auto simp: package_call_with_binding_def call_fun_def split: option.splits)
  have "n \<in> set (rc_calls m)" "rc_keep m \<in> set (rc_calls m)" using hd_in_set [OF ne] last_in_set [OF ne] h(1,2) by simp_all
  then show ?thesis using r [OF assms(2)] r [of n] f [of c] f [of n] h(4-6) by (simp add: run_call_def)
qed

end
