(* ===== verification/Chain_Text.thy ===== *)
theory Chain_Text
  imports Chain_Runs Edits_Props
begin

text \<open>
  The fix of a run of nested calls, applied by the fix engine: the text of the outer call becomes the
  text of the call that is kept.
\<close>

text \<open>The bytes of a file between two positions.\<close>

definition source_text :: "token_file \<Rightarrow> string \<Rightarrow> int \<Rightarrow> int \<Rightarrow> string" where
  "source_text tf src p e = drop (nat (p - tf_base tf)) (take (nat (e - tf_base tf)) src)"

text \<open>\<open>keep\<close> is a nonempty part of \<open>outer\<close>, which lies in the file.\<close>

definition lies_within :: "token_file \<Rightarrow> node \<Rightarrow> node \<Rightarrow> bool" where
  "lies_within tf outer keep =
     (0 < tf_base tf \<and> tf_base tf \<le> node_pos outer \<and> node_pos outer \<le> node_pos keep \<and>
      node_pos keep < node_end keep \<and> node_end keep \<le> node_end outer \<and>
      node_end outer \<le> tf_base tf + tf_size tf)"

lemma group_around:
  assumes "lies_within tf outer keep"
  shows "group_edits [tf] (edits_around outer keep) [] =
    Some [(tf_name tf,
      [mk_edit (node_pos outer - tf_base tf) (node_pos keep - tf_base tf) [],
       mk_edit (node_end keep - tf_base tf) (node_end outer - tf_base tf) []])]"
  using assms
  by (simp add: edits_around_def spans_around_def del_edit_def lies_within_def fset_file_def file_offset_def mk_edit_def)

lemma sorts_two:
  assumes "sorts srt edit_cmp" and "ed_start a < ed_start b"
  shows "srt [a, b] = [b, a]"
proof -
  have m: "mset (srt [a, b]) = {#a, b#}" and s: "sorted_by edit_cmp (srt [a, b])"
    using assms(1) by (auto simp: sorts_def)
  have "length (srt [a, b]) = 2" using m by (metis size_add_mset size_empty size_mset numeral_2_eq_2)
  then obtain x y where xy: "srt [a, b] = [x, y]" by (metis length_0_conv length_Suc_conv numeral_2_eq_2)
  then have "{#x, y#} = {#a, b#}" using m by simp
  then have "x = a \<and> y = b \<or> x = b \<and> y = a" by (auto simp: add_eq_conv_ex)
  moreover have "\<not> (x = a \<and> y = b)" using s xy assms(2) by (auto simp: sorted_by_def edit_cmp_def)
  ultimately show ?thesis using xy by auto
qed

lemma apply_two:
  assumes "0 \<le> a" and "a \<le> b" and "b \<le> c" and "c \<le> d" and "d \<le> int (length src)"
  shows "apply_edits src [mk_edit c d [], mk_edit a b []] =
    Some (take (nat a) src @ drop (nat b) (take (nat c) src) @ drop (nat d) src)"
  using assms
  by (simp add: apply_edit_def mk_edit_def min_def nat_le_iff)

text \<open>
  C17: the fix of a run, applied to the file. A finding of an auto-fixable check with the edits around the kept
  call rewrites its file, whichever sorter \<open>slices.SortFunc\<close> is: the text of the outer call is replaced by
  the text of the kept call, byte for byte, and nothing else changes before the later passes. The file is in the work tree,
  is not generated, and has the bytes the positions were computed from.
\<close>

theorem run_fix_text:
  assumes "sorts (pe_sort env) edit_cmp" and "lies_within tf outer keep" and "tf_size tf = int (length src)"
    and "chk_auto_fix (fnd_check fd)" and "fnd_fixes fd = [\<lparr>fix_message = msg, fix_edits = edits_around outer keep\<rparr>]"
    and "fnd_fset fd = [tf]" and "pe_read env (tf_name tf) = Some src"
    and "\<not> outside_work_tree (pe_os env) (tf_name tf)" and "\<not> is_generated_source src"
  shows "patched_files env [fd] =
    Some ([(tf_name tf,
        \<lparr>pf_orig = src,
         pf_fixed = pe_post env
           (source_text tf src (tf_base tf) (node_pos outer) @
            source_text tf src (node_pos keep) (node_end keep) @
            source_text tf src (node_end outer) (tf_base tf + tf_size tf)) src\<rparr>)],
      \<lparr>n_applied = 1, n_overlapping = 0, n_failed = 0\<rparr>)"
proof -
  let ?o = "node_pos outer - tf_base tf" and ?k = "node_pos keep - tf_base tf"
    and ?l = "node_end keep - tf_base tf" and ?p = "node_end outer - tf_base tf"
  let ?a = "mk_edit ?o ?k []" and ?b = "mk_edit ?l ?p []"
  have r: "0 \<le> ?o" "?o \<le> ?k" "?k < ?l" "?l \<le> ?p" "?p \<le> int (length src)"
    using assms(2,3) by (auto simp: lies_within_def)
  have c: "collect_fixes [fd] [] 0 = ([(tf_name tf, [[?a, ?b]])], 0)"
    using group_around [OF assms(2)] assms(4-6) by simp
  have res: "resolve (stable_sort fix_cmp [[?a, ?b]]) [] no_counts =
      ([?a, ?b], \<lparr>n_applied = 1, n_overlapping = 0, n_failed = 0\<rparr>)"
    using r by (simp add: mk_edit_def overlaps_def conflicts_def no_counts_def)
  have rng: "\<not> out_of_range src [[?a, ?b]]" using r by (simp add: out_of_range_def mk_edit_def)
  have s: "pe_sort env [?a, ?b] = [?b, ?a]"
    by (rule sorts_two [OF assms(1)]) (use r in \<open>simp add: mk_edit_def\<close>)
  have app: "apply_edits src (pe_sort env [?a, ?b]) =
      Some (take (nat ?o) src @ drop (nat ?k) (take (nat ?l) src) @ drop (nat ?p) src)"
    unfolding s by (rule apply_two) (use r in auto)
  have texts: "source_text tf src (tf_base tf) (node_pos outer) = take (nat ?o) src"
    "source_text tf src (node_pos keep) (node_end keep) = drop (nat ?k) (take (nat ?l) src)"
    "source_text tf src (node_end outer) (tf_base tf + tf_size tf) = drop (nat ?p) src"
    using assms(3) by (simp_all add: source_text_def)
  have "patch_file env (tf_name tf) [[?a, ?b]] =
      Some (Some \<lparr>pf_orig = src, pf_fixed = pe_post env (take (nat ?o) src @ drop (nat ?k) (take (nat ?l) src) @ drop (nat ?p) src) src\<rparr>,
        \<lparr>n_applied = 1, n_overlapping = 0, n_failed = 0\<rparr>)"
    using assms(7-9) rng res app by (simp add: patch_file_def Let_def del: resolve.simps stable_sort.simps apply_edits.simps)
  then show ?thesis
    unfolding patched_files_def c texts by (simp add: add_counts_def no_counts_def)
qed

end
