(* ===== verification/Chain_Samples.thy ===== *)
theory Chain_Samples
  imports Chains_Props Chain_Text
begin

text \<open>
  Concrete call chains: the witnesses of the theorems about runs, and a rewrite of PS5116 that leaves a
  variable without a use.
\<close>

section \<open>Sample trees\<close>

definition sample_ident :: "nat \<Rightarrow> int \<Rightarrow> string \<Rightarrow> node" where
  "sample_ident k p name = Ident (At k p (p + int (length name))) name"

definition sample_text :: "nat \<Rightarrow> int \<Rightarrow> string \<Rightarrow> node" where
  "sample_text k p s = BasicLit (At k p (p + int (length s) + 2)) ''STRING'' s"

definition sample_digits :: "nat \<Rightarrow> int \<Rightarrow> string \<Rightarrow> node" where
  "sample_digits k p s = BasicLit (At k p (p + int (length s))) ''INT'' s"

text \<open>A call \<open>pkg.fn(args)\<close> at the position \<open>p\<close>, with the identities from \<open>k\<close> on.\<close>

definition sample_pkg_call :: "nat \<Rightarrow> int \<Rightarrow> int \<Rightarrow> string \<Rightarrow> string \<Rightarrow> node list \<Rightarrow> node" where
  "sample_pkg_call k p e pkg fn args =
     CallExpr (At k p e)
       (SelectorExpr (At (k + 1) p (p + int (length pkg) + 1 + int (length fn)))
         (sample_ident (k + 2) p pkg) (sample_ident (k + 3) (p + int (length pkg) + 1) fn))
       args False"

text \<open>The objects identifiers refer to; the node 110 defines \<open>x\<close> and refers to nothing.\<close>

definition sample_uses :: "node \<Rightarrow> go_object option" where
  "sample_uses n =
     (case as_ident n of
        None \<Rightarrow> None
      | Some name \<Rightarrow>
          if name = ''strings'' then Some (Pkg_Name 1 ''strings'')
          else if name = ''path'' then Some (Pkg_Name 2 ''path'')
          else if name = ''utf8'' then Some (Pkg_Name 3 ''unicode/utf8'')
          else if name = ''Trim'' then Some (Func_Obj 4 name (Some ''strings'') False)
          else if name = ''Repeat'' then Some (Func_Obj 5 name (Some ''strings'') False)
          else if name = ''ToValidUTF8'' then Some (Func_Obj 6 name (Some ''strings'') False)
          else if name = ''ValidString'' then Some (Func_Obj 7 name (Some ''unicode/utf8'') False)
          else if name = ''Clean'' then Some (Func_Obj 8 name (Some ''path'') False)
          else if name = ''Dir'' then Some (Func_Obj 9 name (Some ''path'') False)
          else if name = ''x'' \<and> node_ref n \<noteq> 110 then Some (Var_Obj 10 True False False)
          else None)"

definition sample_value :: "node \<Rightarrow> const_value option" where
  "sample_value n =
     (case n of
        BasicLit _ kind v \<Rightarrow>
          if kind = ''STRING'' then Some (Const_String v)
          else if v = ''2'' then Some (Const_Int 2)
          else if v = ''3'' then Some (Const_Int 3)
          else Some (Const_Int 6)
      | _ \<Rightarrow> None)"

definition sample_info :: type_info where
  "sample_info =
     \<lparr>ti_uses = sample_uses, ti_defs = (\<lambda>_. None), ti_selection = (\<lambda>_. None), ti_type = (\<lambda>_. None),
      ti_identity = (\<lambda>_. Some 1), ti_is_type = (\<lambda>_. False), ti_value = sample_value\<rparr>"

text \<open>\<open>strings.Trim(strings.Trim(s,"x"),"x")\<close> at the start of a file with base one.\<close>

definition inner_trim :: node where
  "inner_trim = sample_pkg_call 10 14 33 ''strings'' ''Trim'' [sample_ident 15 27 ''s'', sample_text 16 29 ''x'']"

definition outer_trim :: node where
  "outer_trim = sample_pkg_call 1 1 38 ''strings'' ''Trim'' [inner_trim, sample_text 6 34 ''x'']"

definition trim_run :: repeated_call where
  "trim_run =
     \<lparr>rc_outer = outer_trim, rc_keep = inner_trim, rc_path = ''strings'', rc_name = ''Trim'',
      rc_calls = [outer_trim, inner_trim], rc_layers = 2\<rparr>"

lemma trim_match: "ps5077_match sample_info outer_trim = Some trim_run"
  by code_simp

lemma trim_run_calls: "list_all (\<lambda>c. ti_value sample_info c = None) (rc_calls trim_run)"
  by code_simp

theorem ps5077_value_witness:
  "expr_value sample_info trim_library (\<lambda>_. Bytes ''xxaxbx'') outer_trim = Bytes ''axb''"
proof -
  have "expr_value sample_info trim_library (\<lambda>_. Bytes ''xxaxbx'') inner_trim = Bytes ''axb''" by code_simp
  then show ?thesis
    using ps5077_value [OF trim_match trim_run_calls, of "\<lambda>_. Bytes ''xxaxbx''"] by (simp add: trim_run_def)
qed

section \<open>Repeat\<close>

text \<open>\<open>strings.Repeat(strings.Repeat(s,2),3)\<close>.\<close>

definition inner_repeat :: node where
  "inner_repeat = sample_pkg_call 30 16 35 ''strings'' ''Repeat'' [sample_ident 35 31 ''s'', sample_digits 36 33 ''2'']"

definition outer_repeat :: node where
  "outer_repeat = sample_pkg_call 21 1 38 ''strings'' ''Repeat'' [inner_repeat, sample_digits 26 36 ''3'']"

definition repeat_run :: repeated_call where
  "repeat_run =
     \<lparr>rc_outer = outer_repeat, rc_keep = inner_repeat, rc_path = ''strings'', rc_name = ''Repeat'',
      rc_calls = [outer_repeat, inner_repeat], rc_layers = 2\<rparr>"

lemma repeat_match: "ps5108_match sample_info outer_repeat = Some repeat_run"
  by code_simp

lemma repeat_product: "ps5108_count_product sample_info (rc_calls repeat_run) = Some 6"
  by code_simp

lemma repeat_parts: "rc_outer repeat_run = outer_repeat" "rc_keep repeat_run = inner_repeat"
  by (simp_all add: repeat_run_def)

lemma repeat_calls:
  "list_all (\<lambda>c. ti_value sample_info c = None)
     (combined_call sample_info repeat_run 6 (At 40 0 0) (At 41 0 0) # rc_calls repeat_run)"
  by code_simp

lemma repeat_literal: "ti_value sample_info (BasicLit (At 41 0 0) ''INT'' (itoa 6)) = Some (Const_Int 6)"
  by code_simp

lemma repeat_seed:
  "expr_value sample_info (repeat_library 1000) (\<lambda>_. Bytes ''ab'') (call_args inner_repeat ! 0) = Bytes ''ab''"
  by code_simp

lemma repeat_copies: "copies 1000 6 (Bytes ''ab'') = Bytes ''abababababab''"
  by code_simp

theorem ps5108_value_witness:
  "expr_value sample_info (repeat_library 1000) (\<lambda>_. Bytes ''ab'') outer_repeat = Bytes ''abababababab''"
  using conjunct2 [OF ps5108_value [OF repeat_match repeat_product repeat_calls repeat_literal,
      of 1000 "\<lambda>_. Bytes ''ab''"]]
  unfolding repeat_parts repeat_seed repeat_copies .

section \<open>Clean\<close>

text \<open>\<open>path.Clean(path.Dir(s))\<close>.\<close>

definition sample_dir :: node where
  "sample_dir = sample_pkg_call 60 12 23 ''path'' ''Dir'' [sample_ident 65 21 ''s'']"

definition sample_clean :: node where
  "sample_clean = sample_pkg_call 51 1 24 ''path'' ''Clean'' [sample_dir]"

definition sample_chain :: wrapper_chain where
  "sample_chain =
     \<lparr>wc_outer = sample_clean, wc_producer = sample_dir, wc_expression = sample_dir, wc_wrappers = [sample_clean],
      wc_path = ''path'', wc_producer_name = ''Dir''\<rparr>"

lemma clean_match: "ps5111_chain sample_info sample_clean = Some sample_chain"
  by code_simp

theorem ps5111_value_witness:
  "expr_value sample_info path_library (\<lambda>_. Bytes ''/a//b/c'') sample_clean = Bytes ''/a/b''"
proof -
  have c: "list_all (\<lambda>c. ti_value sample_info c = None) (wc_wrappers sample_chain @ [wc_producer sample_chain])"
    "\<not> has_ellipsis (wc_producer sample_chain)"
    by code_simp+
  have "expr_value sample_info path_library (\<lambda>_. Bytes ''/a//b/c'') sample_dir = Bytes ''/a/b''" by code_simp
  then show ?thesis
    using ps5111_value [OF clean_match c, of "\<lambda>_. Bytes ''/a//b/c''"] by (simp add: sample_chain_def)
qed

section \<open>Validation\<close>

text \<open>
  A file whose function validates a variable that is only assigned afterwards; it compiles:
  \<open>func f(q string) { x := q; _ = utf8.ValidString(strings.ToValidUTF8(x, "?")); x = "" }\<close>.
\<close>

definition sample_sanitizer :: node where
  "sample_sanitizer = sample_pkg_call 80 99 126 ''strings'' ''ToValidUTF8'' [sample_ident 85 119 ''x'', sample_text 86 122 ''?'']"

definition sample_validation :: node where
  "sample_validation = sample_pkg_call 71 82 127 ''utf8'' ''ValidString'' [sample_sanitizer]"

definition blank_assignment :: node where
  "blank_assignment = AssignStmt (At 115 78 127) [sample_ident 116 78 ''_''] ''='' [sample_validation]"

definition sample_target :: node where
  "sample_target = sample_ident 113 129 ''x''"

definition sample_assignment :: node where
  "sample_assignment = AssignStmt (At 112 129 135) [sample_target] ''='' [sample_text 114 133 []]"

definition validated_tree :: node where
  "validated_tree =
     File (At 100 1 138) None (sample_ident 101 9 ''p'')
       [FuncDecl (At 102 50 137) None None (sample_ident 103 55 ''f'')
         (Other_Node (At 104 50 66) ''FuncType''
           [Other_Node (At 106 56 66) ''Params''
             [Other_Node (At 107 57 65) ''Field'' [sample_ident 117 57 ''q'', sample_ident 118 59 ''string'']]])
         (Some (BlockStmt (At 105 67 137)
           [AssignStmt (At 109 70 76) [sample_ident 110 70 ''x''] '':='' [sample_ident 111 75 ''q''],
            blank_assignment, sample_assignment] 67))]"

definition quoted :: "string \<Rightarrow> string" where "quoted s = CHR 0x22 # s @ [CHR 0x22]"

definition plain_byte :: "char \<Rightarrow> bool" where
  "plain_byte c = (32 \<le> byte_at c \<and> byte_at c < 127 \<and> byte_at c \<noteq> 34 \<and> byte_at c \<noteq> 92)"

lemma quote_plain:
  assumes "list_all plain_byte s"
  shows "go_quote printable s = quoted s"
proof -
  have "quote_fuel (length s) printable s = s"
    using assms
    by (induction s)
      (auto simp: plain_byte_def quote_rune_def decode_rune_alt well_formed_head_def cont_count_def
        simp del: decode_rune.simps(2))
  then show ?thesis by (simp add: go_quote_def quoted_def)
qed

definition validated_file :: go_file where
  "validated_file =
     \<lparr>gf_tree = validated_tree, gf_comments = [(140, 150)],
      gf_imports =
        [\<lparr>id_start = 11, id_end = 27, id_rparen = 0,
          id_specs = [\<lparr>is_path = quoted ''strings'', is_commented = False, is_start = 18\<rparr>]\<rparr>,
         \<lparr>id_start = 28, id_end = 49, id_rparen = 0,
          id_specs = [\<lparr>is_path = quoted ''unicode/utf8'', is_commented = False, is_start = 35\<rparr>]\<rparr>]\<rparr>"

definition validated_pass :: chain_pass where
  "validated_pass = \<lparr>ch_files = [validated_file], ch_info = sample_info, ch_printable = (\<lambda>_. True)\<rparr>"

definition true_edit :: text_edit where
  "true_edit = \<lparr>te_pos = 82, te_end = 127, te_new_text = ''true''\<rparr>"

definition validated_fix :: suggested_fix where
  "validated_fix =
     \<lparr>fix_message = ''replace validation of proven-valid UTF-8 with true'',
      fix_edits = [true_edit, del_edit 11 27, del_edit 28 49]\<rparr>"

definition validated_match :: composition where
  "validated_match =
     \<lparr>co_consumer = sample_validation, co_producer = sample_sanitizer, co_name = ''ValidString'',
      co_binding = Pkg_Name 1 ''strings'', co_pkg = ''strings''\<rparr>"

lemma validated_matches:
  "ps5116_match sample_info sample_validation = Some validated_match"
  "ps5116_match sample_info sample_sanitizer = None"
  by code_simp+

lemma validated_discardable: "discardable_sanitizer sample_info sample_sanitizer ''strings'' (Pkg_Name 1 ''strings'')"
  by code_simp

lemma validated_context:
  "constant_in_unique_context sample_info (parents_of validated_tree) sample_validation = Some False"
proof -
  have "parents_of validated_tree 71 = Some blank_assignment" by code_simp
  moreover have "node_ref sample_validation = 71" by code_simp
  ultimately show ?thesis
    by (subst constant_in_unique_context.simps) (simp add: context_step_def blank_assignment_def)
qed

lemma validated_variables: "deletions_keep_variables sample_info validated_file [(82, 127)]"
  by code_simp

lemma validated_uses:
  "deletions_keep_uses_allowing sample_info validated_file (set [''unicode/utf8'', ''strings'']) [(82, 127)]"
  by code_simp

lemma validated_dropped:
  "imports_to_drop sample_info validated_file [''unicode/utf8'', ''strings''] [(82, 127)] = [''unicode/utf8'', ''strings'']"
  by code_simp

lemma validated_quotes: "map (go_quote printable) [''unicode/utf8'', ''strings''] = [quoted ''unicode/utf8'', quoted ''strings'']"
proof -
  have "list_all plain_byte ''unicode/utf8''" "list_all plain_byte ''strings''" by code_simp+
  then show ?thesis by (simp only: list.map quote_plain)
qed

lemma validated_imports:
  "drop_imports_edits (\<lambda>_. True) validated_file [''unicode/utf8'', ''strings''] = Some [del_edit 11 27, del_edit 28 49]"
  unfolding drop_imports_edits_def validated_quotes by code_simp

lemma validated_comments:
  "\<not> imports_c validated_file" "\<not> comment_in validated_file 82 127" "\<not> comment_in validated_file 11 27"
  "\<not> comment_in validated_file 28 49"
  by code_simp+

lemma validated_replaced:
  "fix_replaced validated_pass validated_file [''unicode/utf8'', ''strings'']
     ''replace validation of proven-valid UTF-8 with true'' [true_edit] = Some validated_fix"
proof -
  have e: "map (\<lambda>e. (te_pos e, te_end e)) [true_edit] = [(82, 127)]" by (simp add: true_edit_def)
  have p: "ch_info validated_pass = sample_info" "ch_printable validated_pass = (\<lambda>_. True)"
    by (simp_all add: validated_pass_def)
  show ?thesis
    unfolding fix_replaced_def e p validated_dropped Let_def validated_imports
    using validated_comments validated_uses
    by (simp add: true_edit_def del_edit_def validated_fix_def)
qed

lemma validated_fixed:
  "ps5116_fix validated_pass validated_file validated_match (parents_of validated_tree) = Some (Some validated_fix)"
proof -
  have "node_pos sample_validation = 82" "node_end sample_validation = 127" by code_simp+
  moreover have "ch_info validated_pass = sample_info" by (simp add: validated_pass_def)
  ultimately show ?thesis
    using validated_discardable validated_context validated_variables validated_replaced
    by (simp add: ps5116_fix_def validated_match_def true_edit_def)
qed

lemma foldl_ignored: "foldl (\<lambda>s n. if P n then s else g n s) s ns = foldl (\<lambda>s n. g n s) s (filter (\<lambda>n. \<not> P n) ns)"
  by (induction ns arbitrary: s) auto

lemma validated_calls: "filter (\<lambda>n. as_call n \<noteq> None) (nodes validated_tree) = [sample_validation, sample_sanitizer]"
  by code_simp

lemma validated_run: "map_option (map dg_fixes) (run_ps5116 validated_pass) = Some [[validated_fix]]"
proof -
  have "gf_tree validated_file = validated_tree" by (simp add: validated_file_def)
  moreover have "ch_files validated_pass = [validated_file]" "ch_info validated_pass = sample_info"
    by (simp_all add: validated_pass_def)
  ultimately show ?thesis
    by (simp add: run_ps5116_def inspect_each ps5116_node_def foldl_ignored validated_calls validated_matches
        validated_fixed chain_diag_def del: not_None_eq)
qed

definition sample_variable :: go_object where "sample_variable = Var_Obj 10 True False False"

text \<open>
  C22: PS5116 can take the last use of a variable away. The guard against orphaned variables counts every identifier that
  refers to the variable as a use, the target of a plain assignment too, which the compiler does not. For the sample file, which
  compiles, the check attaches a fix, and the only identifier left that refers to the local variable is such a
  target: the fixed file declares the variable and does not use it.
\<close>

theorem ps5116_orphans_variable:
  "map_option (map dg_fixes) (run_ps5116 validated_pass) = Some [[validated_fix]] \<and>
   filter (\<lambda>n. ti_uses sample_info n = Some sample_variable \<and>
       \<not> in_spans (edit_spans (fix_edits validated_fix)) (node_pos n)) (nodes validated_tree) = [sample_target] \<and>
   sample_assignment \<in> set (nodes validated_tree) \<and>
   (case sample_assignment of AssignStmt _ targets op _ \<Rightarrow> targets = [sample_target] \<and> op = ''='' | _ \<Rightarrow> False)"
proof -
  have "filter (\<lambda>n. ti_uses sample_info n = Some sample_variable \<and>
       \<not> in_spans (edit_spans (fix_edits validated_fix)) (node_pos n)) (nodes validated_tree) = [sample_target]"
    by code_simp
  moreover have "sample_assignment \<in> set (nodes validated_tree)" by code_simp
  ultimately show ?thesis using validated_run by (simp add: sample_assignment_def)
qed

lemma validated_calls_plain:
  "list_all (\<lambda>c. ti_value sample_info c = None)
     ([sample_validation, co_producer validated_match] @
      (if co_pkg validated_match = ''bytes'' then [unparen (call_args (co_producer validated_match) ! 1)] else []))"
  by code_simp

lemma validated_argument:
  "expr_value sample_info validation_library (\<lambda>_. Bytes ''ab'') (call_args (co_producer validated_match) ! 0) = Bytes ''ab''"
  by code_simp

theorem ps5116_value_witness:
  "expr_value sample_info validation_library (\<lambda>_. Bytes ''ab'') sample_validation = Truth True"
  by (rule ps5116_value [OF validated_matches(1) validated_calls_plain validated_argument])

theorem fix_replaced_safe_witness:
  "list_all (\<lambda>e. \<not> comment_in validated_file (te_pos e) (te_end e)) (fix_edits validated_fix)"
  using fix_replaced_safe [OF validated_replaced] by blast

section \<open>Imports of a group\<close>

definition sample_group :: import_decl where
  "sample_group =
     \<lparr>id_start = 11, id_end = 36, id_rparen = 35,
      id_specs =
        [\<lparr>is_path = quoted ''fmt'', is_commented = False, is_start = 21\<rparr>,
         \<lparr>is_path = quoted ''path'', is_commented = False, is_start = 28\<rparr>]\<rparr>"

definition sample_group_file :: go_file where
  "sample_group_file = \<lparr>gf_tree = sample_ident 1 1 ''x'', gf_comments = [], gf_imports = [sample_group]\<rparr>"

lemma group_laid: "laid_out sample_group_file"
  by code_simp

lemma group_quotes: "map (go_quote printable) [''path''] = [quoted ''path'']"
proof -
  have "list_all plain_byte ''path''" by code_simp
  then show ?thesis by (simp only: list.map quote_plain)
qed

lemma group_dropped: "drop_imports_edits (\<lambda>_. True) sample_group_file [''path''] = Some [del_edit 28 35]"
  unfolding drop_imports_edits_def group_quotes by code_simp

lemma group_parts: "gf_imports sample_group_file = [sample_group]" "length (id_specs sample_group) = 2"
  "is_start (id_specs sample_group ! 0) = 21" "is_start (id_specs sample_group ! 1) = 28"
  "is_path (id_specs sample_group ! 0) = quoted ''fmt''" "is_path (id_specs sample_group ! 1) = quoted ''path''"
  by (simp_all add: sample_group_file_def sample_group_def)

theorem drop_imports_exact_witness:
  "\<not> in_spans (edit_spans [del_edit 28 35]) 21 \<and> in_spans (edit_spans [del_edit 28 35]) 28"
proof -
  have m: "sample_group \<in> set (gf_imports sample_group_file)" "id_specs sample_group ! 0 \<in> set (id_specs sample_group)"
    "id_specs sample_group ! 1 \<in> set (id_specs sample_group)"
    by (simp_all add: group_parts)
  show ?thesis
    using drop_imports_exact [OF group_laid group_dropped m(1,2)] drop_imports_exact [OF group_laid group_dropped m(1,3)]
    unfolding group_quotes group_parts by (simp add: quoted_def)
qed

section \<open>A run in a file\<close>

definition trim_tree :: node where
  "trim_tree = File (At 50 1 60) None (sample_ident 51 40 ''p'') [ExprStmt (At 52 1 38) outer_trim]"

definition trim_pass :: chain_pass where
  "trim_pass =
     \<lparr>ch_files = [\<lparr>gf_tree = trim_tree, gf_comments = [], gf_imports = []\<rparr>], ch_info = sample_info,
      ch_printable = (\<lambda>_. True)\<rparr>"

lemma trim_proper: "list_all (\<lambda>f. proper (gf_tree f)) (ch_files trim_pass)"
  by code_simp

theorem ps5077_reports_outermost_witness:
  "map (\<lambda>d. (dg_pos d, map fix_edits (dg_fixes d))) (run_ps5077 trim_pass) = [(1, [[del_edit 1 14, del_edit 33 38]])]"
  unfolding ps5077_reports_outermost [OF trim_proper] by code_simp

theorem run_keeps_type_witness:
  "ti_identity sample_info inner_trim = ti_identity sample_info outer_trim"
proof -
  have "inner_trim \<in> set (rc_calls trim_run)" by (simp add: trim_run_def)
  then show ?thesis using run_keeps_type [OF trim_match [unfolded ps5077_match_def]] by blast
qed

definition kept_text :: string where "kept_text = ''strings.Trim(s,'' @ quoted ''x'' @ '')''"

definition trim_source :: string where
  "trim_source = ''strings.Trim('' @ kept_text @ '','' @ quoted ''x'' @ '')''"

definition trim_finding :: finding where
  "trim_finding =
     \<lparr>fnd_check = plain_check ''PS5077'' 1,
      fnd_pos = \<lparr>pos_filename = ''/w/a.go'', pos_offset = 0, pos_line = 1, pos_column = 1\<rparr>,
      fnd_end = \<lparr>pos_filename = ''/w/a.go'', pos_offset = 37, pos_line = 1, pos_column = 38\<rparr>,
      fnd_message = ''m'', fnd_fixes = [\<lparr>fix_message = ''f'', fix_edits = edits_around outer_trim inner_trim\<rparr>],
      fnd_fset = [\<lparr>tf_name = ''/w/a.go'', tf_base = 1, tf_size = 37\<rparr>]\<rparr>"

theorem run_fix_text_witness:
  "patched_files (sample_patch_env trim_source) [trim_finding] =
     Some ([(''/w/a.go'', \<lparr>pf_orig = trim_source, pf_fixed = kept_text\<rparr>)],
       \<lparr>n_applied = 1, n_overlapping = 0, n_failed = 0\<rparr>)"
proof -
  let ?tf = "\<lparr>tf_name = ''/w/a.go'', tf_base = 1, tf_size = 37\<rparr>"
  have e: "pe_sort (sample_patch_env trim_source) = stable_sort edit_cmp"
    "pe_read (sample_patch_env trim_source) = [''/w/a.go'' \<mapsto> trim_source]"
    "pe_os (sample_patch_env trim_source) = sample_env" "pe_post (sample_patch_env trim_source) = (\<lambda>out orig. out)"
    by (simp_all add: sample_patch_env_def)
  have w: "lies_within ?tf outer_trim inner_trim" "tf_size ?tf = int (length trim_source)"
    "\<not> is_generated_source trim_source"
    "source_text ?tf trim_source (tf_base ?tf) (node_pos outer_trim) @
     source_text ?tf trim_source (node_pos inner_trim) (node_end inner_trim) @
     source_text ?tf trim_source (node_end outer_trim) (tf_base ?tf + tf_size ?tf) = kept_text"
    by code_simp+
  have f: "chk_auto_fix (fnd_check trim_finding)" "fnd_fset trim_finding = [?tf]"
    "fnd_fixes trim_finding = [\<lparr>fix_message = ''f'', fix_edits = edits_around outer_trim inner_trim\<rparr>]"
    by (simp_all add: trim_finding_def plain_check_def)
  have p: "pe_read (sample_patch_env trim_source) (tf_name ?tf) = Some trim_source"
    "\<not> outside_work_tree (pe_os (sample_patch_env trim_source)) (tf_name ?tf)"
    "sorts (pe_sort (sample_patch_env trim_source)) edit_cmp"
    using sample_inside by (simp_all add: e sorts_edit_cmp)
  show ?thesis
    using run_fix_text [OF p(3) w(1,2) f(1,3,2) p(1,2) w(3)] unfolding w(4) e(4) by simp
qed

end
