(* ===== verification/Allocation.thy ===== *)
theory Allocation
  imports Contract_Ids
begin

text \<open>
  \<open>benchmarkevidence/allocation.go\<close>: exact allocation totals of a benchmark, their quotients and
  remainders, and differences of matched pairs. A benchmark is what \<open>testing.Benchmark\<close> lets the caller
  see of it.
\<close>

section \<open>Data\<close>

record allocation =
  al_n :: int
  al_mem_bytes :: int
  al_mem_allocs :: int
  al_bytes_per_op :: int
  al_bytes_rem :: int
  al_allocs_per_op :: int
  al_allocs_rem :: int

record observation =
  ob_allocation :: allocation
  ob_elapsed :: int

record delta =
  de_n :: int
  de_mem_bytes :: int
  de_mem_allocs :: int

datatype bench_error =
    Invalid_result
  | Needs_fixed_count
  | Missing_benchmark
  | Needs_duration
  | No_elapsed_time
  | Bench_failed
  | Count_mismatch
  | Invalid_totals
  | Invalid_identities
  | Counts_differ

text \<open>\<open>testing.BenchmarkResult\<close>; the counters of memory are unsigned.\<close>

record bench_result =
  br_n :: int
  br_time :: int
  br_mem_bytes :: int
  br_mem_allocs :: int

text \<open>
  A call of the benchmark function: whether it had failed when it ended, and whether it returned. After
  the calls come the cleanup functions, so the last \<open>testing.B\<close> is looked at again.
\<close>

record bench_call =
  bc_failed :: bool
  bc_returned :: bool

record benchmark =
  be_calls :: "bench_call list"
  be_failed :: bool
  be_skipped :: bool
  be_result :: bench_result

text \<open>The flag \<open>-test.benchtime\<close>, if it is defined, and \<open>time.ParseDuration\<close>.\<close>

record bench_env =
  bv_benchtime :: "string option"
  bv_duration :: "string \<Rightarrow> int option"

section \<open>Totals\<close>

definition max_int64 :: int where "max_int64 = 2 ^ 63 - 1"

definition from_result :: "bench_result \<Rightarrow> bench_error + allocation" where
  "from_result r =
     (if br_n r \<le> 0 \<or> br_mem_bytes r > max_int64 \<or> br_mem_allocs r > max_int64 then Inl Invalid_result
      else Inr \<lparr>al_n = br_n r, al_mem_bytes = br_mem_bytes r, al_mem_allocs = br_mem_allocs r,
        al_bytes_per_op = go_quo (br_mem_bytes r) (br_n r), al_bytes_rem = go_rem (br_mem_bytes r) (br_n r),
        al_allocs_per_op = go_quo (br_mem_allocs r) (br_n r), al_allocs_rem = go_rem (br_mem_allocs r) (br_n r)\<rparr>)"

definition fixed_time :: "int \<Rightarrow> string" where "fixed_time n = itoa n @ ''x''"

definition bench_ok :: "benchmark \<Rightarrow> bool" where
  "bench_ok b =
     (\<not> (list_ex bc_failed (be_calls b) \<or> list_ex (\<lambda>c. \<not> bc_returned c) (be_calls b) \<or> be_calls b = [] \<or>
         be_failed b \<or> be_skipped b))"

definition observe :: "bench_env \<Rightarrow> int \<Rightarrow> benchmark option \<Rightarrow> bench_error + observation" where
  "observe v n bench =
     (case (bench, bv_benchtime v) of
        (Some b, Some time) \<Rightarrow>
          if n = 0 \<and> (case bv_duration v time of Some d \<Rightarrow> d \<le> 0 | None \<Rightarrow> True) then Inl Needs_duration
          else if n \<noteq> 0 \<and> (n < 2 \<or> time \<noteq> fixed_time n) then Inl Needs_fixed_count
          else if \<not> bench_ok b then Inl Bench_failed
          else if br_n (be_result b) < 2 \<or> n \<noteq> 0 \<and> br_n (be_result b) \<noteq> n then Inl Count_mismatch
          else (case from_result (be_result b) of
                  Inl e \<Rightarrow> Inl e
                | Inr a \<Rightarrow> Inr \<lparr>ob_allocation = a, ob_elapsed = br_time (be_result b)\<rparr>)
      | _ \<Rightarrow> Inl Missing_benchmark)"

definition run_fixed :: "bench_env \<Rightarrow> int \<Rightarrow> benchmark option \<Rightarrow> bench_error + allocation" where
  "run_fixed v n bench =
     (if n < 2 \<or> bench = None \<or> bv_benchtime v \<noteq> Some (fixed_time n) then Inl Needs_fixed_count
      else case observe v n bench of Inl e \<Rightarrow> Inl e | Inr ob \<Rightarrow> Inr (ob_allocation ob))"

definition measure_bench :: "bench_env \<Rightarrow> int \<Rightarrow> benchmark option \<Rightarrow> bench_error + observation" where
  "measure_bench v n bench =
     (case observe v n bench of
        Inl e \<Rightarrow> Inl e
      | Inr ob \<Rightarrow> if ob_elapsed ob \<le> 0 then Inl No_elapsed_time else Inr ob)"

section \<open>Differences\<close>

definition totals_ok :: "allocation \<Rightarrow> bool" where
  "totals_ok a = (\<not> (al_n a \<le> 0 \<or> al_mem_bytes a < 0 \<or> al_mem_allocs a < 0))"

definition identities_ok :: "allocation \<Rightarrow> bool" where
  "identities_ok a =
     (\<not> (al_bytes_per_op a \<noteq> go_quo (al_mem_bytes a) (al_n a) \<or> al_bytes_rem a \<noteq> go_rem (al_mem_bytes a) (al_n a) \<or>
         al_allocs_per_op a \<noteq> go_quo (al_mem_allocs a) (al_n a) \<or> al_allocs_rem a \<noteq> go_rem (al_mem_allocs a) (al_n a)))"

fun check_samples :: "allocation list \<Rightarrow> bench_error option" where
  "check_samples [] = None"
| "check_samples (a # as) =
     (if \<not> totals_ok a then Some Invalid_totals
      else if \<not> identities_ok a then Some Invalid_identities
      else check_samples as)"

definition paired_delta :: "allocation \<Rightarrow> allocation \<Rightarrow> bench_error + delta" where
  "paired_delta baseline candidate =
     (case check_samples [baseline, candidate] of
        Some e \<Rightarrow> Inl e
      | None \<Rightarrow>
          if al_n baseline \<noteq> al_n candidate then Inl Counts_differ
          else Inr \<lparr>de_n = al_n baseline,
            de_mem_bytes = wrap64 (al_mem_bytes candidate - al_mem_bytes baseline),
            de_mem_allocs = wrap64 (al_mem_allocs candidate - al_mem_allocs baseline)\<rparr>)"

section \<open>Properties\<close>

text \<open>A sample whose totals are the quotients and remainders taken together.\<close>

definition exact_sample :: "allocation \<Rightarrow> bool" where
  "exact_sample a =
     (0 < al_n a \<and> 0 \<le> al_mem_bytes a \<and> 0 \<le> al_mem_allocs a \<and>
      al_mem_bytes a = al_n a * al_bytes_per_op a + al_bytes_rem a \<and> 0 \<le> al_bytes_rem a \<and> al_bytes_rem a < al_n a \<and>
      al_mem_allocs a = al_n a * al_allocs_per_op a + al_allocs_rem a \<and> 0 \<le> al_allocs_rem a \<and> al_allocs_rem a < al_n a)"

lemma quotient_unique:
  "0 < n \<Longrightarrow> 0 \<le> (m::int) \<Longrightarrow> q = go_quo m n \<and> r = go_rem m n \<longleftrightarrow> m = n * q + r \<and> 0 \<le> r \<and> r < n"
  by (auto simp: go_quo_pos go_rem_pos)

lemma checked_sample: "check_samples [a] = None \<longleftrightarrow> exact_sample a"
proof -
  have "identities_ok a \<longleftrightarrow> exact_sample a" if "totals_ok a"
    using that quotient_unique [of "al_n a" "al_mem_bytes a" "al_bytes_per_op a" "al_bytes_rem a"]
      quotient_unique [of "al_n a" "al_mem_allocs a" "al_allocs_per_op a" "al_allocs_rem a"]
    unfolding totals_ok_def identities_ok_def exact_sample_def by auto
  moreover have "exact_sample a \<Longrightarrow> totals_ok a" by (auto simp: totals_ok_def exact_sample_def)
  ultimately show ?thesis by auto
qed

lemma checked_pair: "check_samples [a, b] = None \<longleftrightarrow> exact_sample a \<and> exact_sample b"
  using checked_sample [of a] checked_sample [of b] by (auto split: if_splits)

lemma from_result_exact: "from_result r = Inr a \<Longrightarrow> 0 \<le> br_mem_bytes r \<Longrightarrow> 0 \<le> br_mem_allocs r \<Longrightarrow> exact_sample a"
  by (auto simp: from_result_def exact_sample_def go_quo_pos go_rem_pos split: if_splits)

definition fits_int64 :: "allocation \<Rightarrow> bool" where
  "fits_int64 a = (int64 (al_mem_bytes a) \<and> int64 (al_mem_allocs a))"

lemma paired_delta_value:
  assumes "fits_int64 a" and "fits_int64 b"
  shows "paired_delta a b = Inr d \<longleftrightarrow>
    exact_sample a \<and> exact_sample b \<and> al_n a = al_n b \<and>
    d = \<lparr>de_n = al_n a, de_mem_bytes = al_mem_bytes b - al_mem_bytes a, de_mem_allocs = al_mem_allocs b - al_mem_allocs a\<rparr>"
proof -
  have "wrap64 (al_mem_bytes b - al_mem_bytes a) = al_mem_bytes b - al_mem_bytes a \<and>
      wrap64 (al_mem_allocs b - al_mem_allocs a) = al_mem_allocs b - al_mem_allocs a"
    if "exact_sample a" "exact_sample b"
    using that assms by (intro conjI wrap64_id) (auto simp: exact_sample_def fits_int64_def int64_def)
  then show ?thesis
    using checked_pair [of a b] unfolding paired_delta_def by (cases "check_samples [a, b]") auto
qed

text \<open>
  Differences of matched pairs are exact. For samples of 64-bit totals there is a difference exactly when both samples
  are the quotients and remainders of nonnegative totals over the same positive count; it is then the difference over
  the unbounded integers, so the signed subtraction never wraps around.
\<close>

theorem paired_delta_exact:
  assumes "fits_int64 a" and "fits_int64 b"
  shows "paired_delta a b = Inr d \<longleftrightarrow>
    exact_sample a \<and> exact_sample b \<and> al_n a = al_n b \<and>
    d = \<lparr>de_n = al_n a, de_mem_bytes = al_mem_bytes b - al_mem_bytes a, de_mem_allocs = al_mem_allocs b - al_mem_allocs a\<rparr>"
  by (rule paired_delta_value [OF assms])

definition sample_allocation :: "int \<Rightarrow> allocation" where
  "sample_allocation bytes =
     \<lparr>al_n = 4, al_mem_bytes = bytes, al_mem_allocs = 8, al_bytes_per_op = bytes div 4, al_bytes_rem = bytes mod 4,
      al_allocs_per_op = 2, al_allocs_rem = 0\<rparr>"

theorem paired_delta_exact_witness:
  "paired_delta (sample_allocation 10) (sample_allocation 7) =
     Inr \<lparr>de_n = 4, de_mem_bytes = - 3, de_mem_allocs = 0\<rparr>"
proof -
  have "fits_int64 (sample_allocation 10)" "fits_int64 (sample_allocation 7)"
    by (simp_all add: fits_int64_def sample_allocation_def int64_def)
  from paired_delta_exact [OF this] show ?thesis by (simp add: exact_sample_def sample_allocation_def)
qed

text \<open>What a measurement that is accepted means.\<close>

lemma observe_accepts:
  assumes "observe v n (Some b) = Inr ob"
  shows "bench_ok b \<and> from_result (be_result b) = Inr (ob_allocation ob) \<and> ob_elapsed ob = br_time (be_result b) \<and>
    2 \<le> al_n (ob_allocation ob) \<and> (n \<noteq> 0 \<longrightarrow> al_n (ob_allocation ob) = n)"
  using assms by (auto simp: observe_def from_result_def split: option.splits if_splits sum.splits)

end
