(* ===== verification/Snapshot.thy ===== *)
theory Snapshot
  imports Go_Library Go_Text
begin

text \<open>
  Retained source snapshots (\<open>internal/allocationcampaign\<close>: \<open>unpack\<close>, \<open>exactTree\<close> and \<open>instrumentation\<close> of
  \<open>campaign.go\<close>, \<open>snapshot.go\<close>): an archive is unpacked below a directory and compared with the tree that Git lists.
  The file system is the regular files and directories made so far, without modes and with the names compared letter by
  letter; \<open>archive/tar\<close>, the hashes and Git are parameters.
\<close>

section \<open>Unpacking\<close>

datatype tar_kind = Tar_Dir | Tar_Reg | Tar_Global_Header | Tar_Other

record tar_entry =
  tn_name :: string
  tn_kind :: tar_kind
  tn_data :: string

text \<open>The entries the reader yields, and whether it then reports \<open>io.EOF\<close>.\<close>

record tar_stream =
  ts_entries :: "tar_entry list"
  ts_eof :: bool

record tree_state =
  ts_files :: "(string \<times> string) list"
  ts_dirs :: "string list"

definition inside :: "string \<Rightarrow> string \<Rightarrow> bool" where
  "inside p q = has_prefix q (p @ [sep])"

definition is_directory :: "tree_state \<Rightarrow> string \<Rightarrow> bool" where
  "is_directory st p = list_ex (\<lambda>q. q = p \<or> inside p q) (ts_dirs st)"

text \<open>\<open>os.MkdirAll\<close> fails when a file is in the way.\<close>

definition mkdir_all :: "tree_state \<Rightarrow> string \<Rightarrow> tree_state option" where
  "mkdir_all st p =
     (if list_ex (\<lambda>(f, _). f = p \<or> inside f p) (ts_files st) then None
      else Some (st\<lparr>ts_dirs := ts_dirs st @ [p]\<rparr>))"

text \<open>\<open>os.OpenFile\<close> with \<open>O_CREATE|O_EXCL\<close>, and the copy of the contents.\<close>

definition create_file :: "tree_state \<Rightarrow> string \<Rightarrow> string \<Rightarrow> tree_state option" where
  "create_file st p data =
     (if p \<in> fst ` set (ts_files st) \<or> is_directory st p then None
      else Some (st\<lparr>ts_files := ts_files st @ [(p, data)]\<rparr>))"

definition escapes :: "string \<Rightarrow> bool" where
  "escapes header_name =
     (let name = path_clean header_name in
      has_prefix header_name [sep] \<or> is_abs name \<or> name = ''..'' \<or> has_prefix name [CHR ''.'', CHR ''.'', sep])"

definition unpack_entry :: "string \<Rightarrow> tree_state \<Rightarrow> tar_entry \<Rightarrow> tree_state option" where
  "unpack_entry dir st e =
     (if escapes (tn_name e) then None
      else let path = path_join [dir, path_clean (tn_name e)] in
        case tn_kind e of
          Tar_Dir \<Rightarrow> mkdir_all st path
        | Tar_Reg \<Rightarrow> Option.bind (mkdir_all st (path_dir path)) (\<lambda>st'. create_file st' path (tn_data e))
        | Tar_Global_Header \<Rightarrow> Some st
        | Tar_Other \<Rightarrow> None)"

fun unpack_entries :: "string \<Rightarrow> tree_state \<Rightarrow> tar_entry list \<Rightarrow> tree_state option" where
  "unpack_entries dir st [] = Some st"
| "unpack_entries dir st (e # es) = Option.bind (unpack_entry dir st e) (\<lambda>st'. unpack_entries dir st' es)"

definition unpack :: "string \<Rightarrow> tree_state \<Rightarrow> tar_stream \<Rightarrow> tree_state option" where
  "unpack dir st s =
     Option.bind (unpack_entries dir st (ts_entries s)) (\<lambda>st'. if ts_eof s then Some st' else None)"

section \<open>Comparison with the tree\<close>

record tree_hashes =
  th_sha1 :: "string \<Rightarrow> string"
  th_sha256 :: "string \<Rightarrow> string"

text \<open>A row of \<open>git ls-tree -z\<close>: mode, kind and object before a tab, then the path.\<close>

definition tree_row :: "string \<Rightarrow> (string \<times> string) option" where
  "tree_row row =
     (case str_cut row [CHR 0x09] of
        None \<Rightarrow> None
      | Some (metadata, name) \<Rightarrow>
          (case str_fields metadata of
             [mode, kind, pin] \<Rightarrow>
               if kind \<noteq> ''blob'' \<or> (mode \<noteq> ''100644'' \<and> mode \<noteq> ''100755'') then None else Some (name, pin)
           | _ \<Rightarrow> None))"

fun tree_rows :: "(string \<times> string) list \<Rightarrow> string list \<Rightarrow> (string \<times> string) list option" where
  "tree_rows expected [] = Some expected"
| "tree_rows expected (row # rows) =
     (if row = [] then tree_rows expected rows
      else case tree_row row of
             None \<Rightarrow> None
           | Some (name, pin) \<Rightarrow>
               if name \<in> fst ` set expected then None else tree_rows (expected @ [(name, pin)]) rows)"

definition parse_tree :: "string \<Rightarrow> (string \<times> string) list option" where
  "parse_tree tree = tree_rows [] (split_on (CHR 0x00) tree)"

definition git_blob :: "string \<Rightarrow> string" where
  "git_blob data = ''blob '' @ itoa (int (length data)) @ [CHR 0x00] @ data"

definition blob_matches :: "tree_hashes \<Rightarrow> string \<Rightarrow> string \<Rightarrow> bool" where
  "blob_matches h pin data =
     (if length pin = 40 then th_sha1 h (git_blob data) = pin
      else if length pin = 64 then th_sha256 h (git_blob data) = pin
      else False)"

text \<open>The regular files below a root with their paths relative to it: what \<open>filepath.WalkDir\<close> visits.\<close>

definition walked_files :: "tree_state \<Rightarrow> string \<Rightarrow> (string \<times> string) list" where
  "walked_files st root =
     map (\<lambda>(f, d). (drop (length root + 1) f, d)) (filter (\<lambda>(f, _). inside root f) (ts_files st))"

fun walk_matches :: "tree_hashes \<Rightarrow> (string \<times> string) list \<Rightarrow> (string \<times> string) list \<Rightarrow> nat option" where
  "walk_matches h expected [] = Some 0"
| "walk_matches h expected ((name, data) # fs) =
     (case map_of expected name of
        None \<Rightarrow> None
      | Some pin \<Rightarrow> if blob_matches h pin data then map_option Suc (walk_matches h expected fs) else None)"

definition exact_tree :: "tree_hashes \<Rightarrow> tree_state \<Rightarrow> string \<Rightarrow> string \<Rightarrow> bool" where
  "exact_tree h st root tree =
     (case parse_tree tree of
        None \<Rightarrow> False
      | Some expected \<Rightarrow>
          is_directory st root \<and> walk_matches h expected (walked_files st root) = Some (length expected))"

section \<open>Files read and written\<close>

definition read_file :: "tree_state \<Rightarrow> string \<Rightarrow> string option" where
  "read_file st p = map_of (ts_files st) p"

definition write_file :: "tree_state \<Rightarrow> string \<Rightarrow> string \<Rightarrow> tree_state option" where
  "write_file st p data =
     (if is_directory st p \<or> \<not> is_directory st (path_dir p) then None
      else if read_file st p = None then Some (st\<lparr>ts_files := ts_files st @ [(p, data)]\<rparr>)
      else Some (st\<lparr>ts_files := map (\<lambda>(q, d). (q, if q = p then data else d)) (ts_files st)\<rparr>))"

text \<open>\<open>os.Mkdir\<close>: the directory must not exist and its parent must.\<close>

definition make_dir :: "tree_state \<Rightarrow> string \<Rightarrow> tree_state option" where
  "make_dir st p =
     (if is_directory st p \<or> read_file st p \<noteq> None \<or> \<not> is_directory st (path_dir p) then None
      else Some (st\<lparr>ts_dirs := ts_dirs st @ [p]\<rparr>))"

text \<open>
  The hashes of the regular files at or below the instrumentation roots, by slash path. A root that is not there is an
  error of the walk; unpacked trees have no links.
\<close>

definition instrumentation_root :: "tree_hashes \<Rightarrow> tree_state \<Rightarrow> string \<Rightarrow> string \<Rightarrow> (string \<times> string) list option" where
  "instrumentation_root h st root p =
     (if is_abs p \<or> has_prefix (path_clean p) ''..'' then None
      else let top = path_join [root, p];
               found = filter (\<lambda>(f, _). f = top \<or> inside top f) (ts_files st) in
        if found = [] \<and> \<not> is_directory st top then None
        else Some (map (\<lambda>(f, d). (drop (length root + 1) f, th_sha256 h d)) found))"

fun instrumentation :: "tree_hashes \<Rightarrow> tree_state \<Rightarrow> string \<Rightarrow> string list \<Rightarrow> (string \<times> string) list option" where
  "instrumentation h st root [] = Some []"
| "instrumentation h st root (p # ps) =
     Option.bind (instrumentation_root h st root p) (\<lambda>fs. map_option (append fs) (instrumentation h st root ps))"

text \<open>The module file may have no replacement by a local directory; \<open>golang.org/x/mod\<close> gives the versions of the replacements.\<close>

definition pinned_module :: "(string \<Rightarrow> string list option) \<Rightarrow> tree_state \<Rightarrow> string \<Rightarrow> bool" where
  "pinned_module replacements st root =
     (case Option.bind (read_file st (path_join [root, ''go.mod''])) replacements of
        None \<Rightarrow> False
      | Some versions \<Rightarrow> list_all (\<lambda>v. v \<noteq> []) versions)"

section \<open>Retained snapshots\<close>

record command_output =
  co_out :: string
  co_err :: string
  co_code :: int

text \<open>
  The world outside: \<open>git\<close> run in the repository on its arguments, the environment filtered of \<open>GIT_\<close> variables being its
  own, the reader of archives, the hashes and the module file.
\<close>

record snapshot_tools =
  sn_environ :: "string list"
  sn_git :: "string list \<Rightarrow> string list \<Rightarrow> command_output"
  sn_tar :: "string \<Rightarrow> tar_stream"
  sn_hashes :: tree_hashes
  sn_replacements :: "string \<Rightarrow> string list option"

record snapshot =
  sh_commit :: string
  sh_archive :: string
  sh_tree :: string

definition exact_commit :: "string \<Rightarrow> bool" where
  "exact_commit commit =
     ((length commit = 40 \<or> length commit = 64) \<and> list_all (\<lambda>c. c \<in> set ''0123456789abcdef'') commit)"

definition git_env :: "snapshot_tools \<Rightarrow> string list" where
  "git_env t = filter (\<lambda>v. \<not> has_prefix v ''GIT_'') (sn_environ t)"

definition git_commit :: "snapshot_tools \<Rightarrow> string \<Rightarrow> command_output" where
  "git_commit t commit = sn_git t (git_env t) [''rev-parse'', commit @ ''^{commit}'']"

definition git_tree :: "snapshot_tools \<Rightarrow> string \<Rightarrow> command_output" where
  "git_tree t commit = sn_git t (git_env t) [''ls-tree'', ''-r'', ''-z'', ''--full-tree'', commit]"

definition source_archive :: "snapshot_tools \<Rightarrow> string \<Rightarrow> command_output" where
  "source_archive t commit =
     sn_git t (git_env t) [''-c'', ''core.autocrlf=false'', ''archive'', ''--format=tar'', commit]"

definition exit_text :: "int \<Rightarrow> string" where
  "exit_text code = itoa code @ [CHR 0x0A]"

fun write_files :: "string \<Rightarrow> tree_state \<Rightarrow> (string \<times> string) list \<Rightarrow> tree_state option" where
  "write_files dir st [] = Some st"
| "write_files dir st ((name, data) # fs) =
     Option.bind (write_file st (path_join [dir, name]) data) (\<lambda>st'. write_files dir st' fs)"

definition artifact :: "string \<Rightarrow> tree_state \<Rightarrow> string \<Rightarrow> command_output \<Rightarrow> tree_state option" where
  "artifact dir st name c =
     write_files dir st
       [(name @ ''.stdout'', co_out c), (name @ ''.stderr'', co_err c), (name @ ''.exit'', exit_text (co_code c))]"

definition retain_snapshot :: "snapshot_tools \<Rightarrow> tree_state \<Rightarrow> string \<Rightarrow> string \<Rightarrow> (tree_state \<times> snapshot) option" where
  "retain_snapshot t st commit output =
     (if \<not> exact_commit commit then None
      else Option.bind (make_dir st output) (\<lambda>st.
        let observed = git_commit t commit in
        Option.bind (artifact output st ''commit'' observed) (\<lambda>st.
          if co_code observed \<noteq> 0 \<or> trim_space (co_out observed) \<noteq> commit then None
          else let tree = git_tree t commit in
            Option.bind (artifact output st ''tree'' tree) (\<lambda>st.
              if co_code tree \<noteq> 0 then None
              else let archive = source_archive t commit in
                Option.bind (artifact output st ''archive'' archive) (\<lambda>st.
                  if co_code archive \<noteq> 0 then None
                  else let root = path_join [output, ''source''] in
                    Option.bind (unpack root st (sn_tar t (co_out archive))) (\<lambda>st.
                      if \<not> exact_tree (sn_hashes t) st root (co_out tree) then None
                      else if \<not> pinned_module (sn_replacements t) st root then None
                      else Some (st, \<lparr>sh_commit = commit, sh_archive = th_sha256 (sn_hashes t) (co_out archive),
                             sh_tree = th_sha256 (sn_hashes t) (co_out tree)\<rparr>)))))))"

definition snapshot_file :: "tree_state \<Rightarrow> string \<Rightarrow> string \<Rightarrow> string option" where
  "snapshot_file st dir name = read_file st (path_join [dir, name])"

definition verify_snapshot :: "snapshot_tools \<Rightarrow> tree_state \<Rightarrow> string \<Rightarrow> snapshot \<Rightarrow> bool" where
  "verify_snapshot t st dir expected =
     (if \<not> exact_commit (sh_commit expected) then False
      else case (snapshot_file st dir ''tree.stdout'', snapshot_file st dir ''archive.stdout'') of
        (Some tree, Some archive) \<Rightarrow>
          if th_sha256 (sn_hashes t) tree \<noteq> sh_tree expected \<or> th_sha256 (sn_hashes t) archive \<noteq> sh_archive expected
          then False
          else if co_code (git_tree t (sh_commit expected)) \<noteq> 0 \<or> co_out (git_tree t (sh_commit expected)) \<noteq> tree
          then False
          else if co_code (source_archive t (sh_commit expected)) \<noteq> 0 \<or>
              co_out (source_archive t (sh_commit expected)) \<noteq> archive
          then False
          else if \<not> list_all (\<lambda>name. snapshot_file st dir (name @ ''.exit'') = Some (exit_text 0) \<and>
              snapshot_file st dir (name @ ''.stderr'') \<noteq> None) [''commit'', ''tree'', ''archive'']
          then False
          else (case snapshot_file st dir ''commit.stdout'' of
                  None \<Rightarrow> False
                | Some commit \<Rightarrow>
                    trim_space commit = sh_commit expected \<and>
                    exact_tree (sn_hashes t) st (path_join [dir, ''source'']) tree)
      | _ \<Rightarrow> False)"

section \<open>Containment\<close>

lemma relative_clean:
  assumes "\<not> escapes p"
  shows "\<exists>cs. (\<forall>c\<in>set cs. good_comp c) \<and> path_clean p = (if cs = [] then ''.'' else join_with [sep] cs)"
proof (cases "p = []")
  case True
  then show ?thesis by (intro exI [of _ "[]"]) (simp add: path_clean_def)
next
  case False
  let ?cs = "clean_comps False (comps p)"
  have n: "normal_comps ?cs" by (rule clean_comps_normal) (use comps_no_sep in blast)
  then obtain k gs where cs: "?cs = replicate k ''..'' @ gs" and g: "\<forall>c\<in>set gs. good_comp c"
    by (auto simp: normal_comps_def)
  have rel: "\<not> is_abs p" using assms by (auto simp: escapes_def is_abs_def Let_def)
  have e: "path_clean p = (if ?cs = [] then ''.'' else join_with [sep] ?cs)"
    using rel False by (simp add: path_clean_def)
  have "\<not> climbs (path_clean p)" using assms by (auto simp: escapes_def climbs_def Let_def)
  then have "k = 0" using e cs climbs_join [OF g, of k] by (cases k) auto
  then show ?thesis using e cs g by (intro exI [of _ gs]) auto
qed

lemma comps_dot: "comps ''.'' = [''.'']"
  by (simp add: comps_def sep_def)

lemma comps_glue: "comps (p @ sep # q) = comps p @ comps q"
proof -
  have "split_on sep (p @ sep # q) = split_on sep p @ split_on sep q"
    by (induction p) (auto split: list.splits)
  then show ?thesis by (simp add: comps_def)
qed

lemma last_index_last: "c \<notin> set r \<Longrightarrow> last_index c (q @ c # r) = Some (length q)"
proof (induction q)
  case Nil
  then have "last_index c r = None" by (simp add: last_index_None)
  then show ?case by simp
qed simp

lemma join_with_snoc: "join_with s (bs @ [c]) = (if bs = [] then c else join_with s bs @ s @ c)"
proof (induction bs)
  case (Cons b bs)
  then show ?case by (cases bs) simp_all
qed simp

text \<open>\<open>filepath.Dir\<close> of a clean absolute path drops its last element.\<close>

lemma abs_comps_dir:
  assumes "is_abs p" and "path_clean p = p"
  shows "is_abs (path_dir p) \<and> abs_comps (path_dir p) = butlast (abs_comps p)"
proof -
  have p: "p = sep # join_with [sep] (abs_comps p)" using path_clean_abs [OF assms(1)] assms(2) by simp
  have g: "\<forall>c\<in>set (abs_comps p). good_comp c" using clean_comps_good by (auto simp: abs_comps_def)
  have dir: "is_abs (path_dir p) \<and> abs_comps (path_dir p) = bs"
    if q: "p = q @ sep # r" "sep \<notin> set r" "is_abs (q @ [sep])" "comps q = bs" "\<forall>c\<in>set bs. good_comp c" for q r bs
  proof -
    have "path_dir p = path_clean (q @ [sep])"
      using q(2) by (simp add: q(1) path_dir_def last_index_last)
    moreover have "abs_comps (q @ [sep]) = bs"
      using clean_good_id [OF q(5), of True "[]"] by (simp add: abs_comps_def clean_comps_def comps_snoc_sep q(4))
    ultimately show ?thesis using q(3) by (simp add: abs_comps_clean is_abs_clean)
  qed
  show ?thesis
  proof (cases "abs_comps p" rule: rev_cases)
    case Nil
    then show ?thesis
      using dir [of "[]" "[]" "[]"] p by (simp add: is_abs_def comps_def)
  next
    case (snoc bs c)
    then have c: "sep \<notin> set c" "\<forall>c\<in>set bs. good_comp c" using g by (auto simp: good_comp_def)
    let ?q = "if bs = [] then [] else sep # join_with [sep] bs"
    have "comps (join_with [sep] bs) = bs" by (rule comps_join) (use c(2) in \<open>auto simp: good_comp_def\<close>)
    then have "comps ?q = bs" by (simp add: comps_def)
    moreover have "p = ?q @ sep # c" using p by (simp add: snoc join_with_snoc)
    moreover have "is_abs (?q @ [sep])" by (simp add: is_abs_def)
    ultimately show ?thesis using dir [of ?q c bs] c snoc by simp
  qed
qed

lemma unpacked_below:
  assumes "is_abs dir" and "\<not> escapes p"
  obtains cs where "\<forall>c\<in>set cs. good_comp c" and "abs_comps (path_join [dir, path_clean p]) = abs_comps dir @ cs"
    and "is_abs (path_join [dir, path_clean p])"
    and "path_clean (path_join [dir, path_clean p]) = path_join [dir, path_clean p]"
    and "cs = [] \<longrightarrow> path_clean p = ''.'' \<and> path_join [dir, path_clean p] = path_clean dir"
proof -
  obtain cs where g: "\<forall>c\<in>set cs. good_comp c" and p: "path_clean p = (if cs = [] then ''.'' else join_with [sep] cs)"
    using relative_clean [OF assms(2)] by blast
  have seps: "\<forall>c\<in>set cs. c \<noteq> [] \<and> sep \<notin> set c" using g by (auto simp: good_comp_def)
  have ne: "path_clean p \<noteq> []"
    using p comps_join [OF seps] by (auto simp: comps_def split: if_splits)
  let ?q = "dir @ sep # path_clean p"
  have j: "path_join [dir, path_clean p] = path_clean ?q"
    using ne is_abs_not_Nil [OF assms(1)] by (simp add: path_join_def)
  have a: "is_abs ?q" using assms(1) by (auto simp: is_abs_def has_prefix_iff)
  have "comps (path_clean p) = (if cs = [] then [''.''] else cs)" using p comps_join [OF seps] comps_dot by auto
  then have "abs_comps ?q = foldl (clean_step True) (abs_comps dir) (if cs = [] then [''.''] else cs)"
    by (simp add: abs_comps_def clean_comps_def comps_glue)
  also have "\<dots> = abs_comps dir @ cs" using clean_good_id [OF g] by (simp add: clean_step_def)
  finally have q: "abs_comps ?q = abs_comps dir @ cs" .
  let ?p = "path_join [dir, path_clean p]"
  have "abs_comps ?p = abs_comps dir @ cs" "is_abs ?p" "path_clean ?p = ?p"
    unfolding j using q abs_comps_clean [OF a] is_abs_clean [OF a] path_clean_idem [OF a] by simp_all
  moreover have "cs = [] \<longrightarrow> path_clean p = ''.'' \<and> ?p = path_clean dir"
    using j p q path_clean_eq_iff [OF a assms(1)] by auto
  ultimately show thesis using that [OF g] by blast
qed

text \<open>A path at or below a directory.\<close>

definition contained :: "string \<Rightarrow> string \<Rightarrow> bool" where
  "contained dir p = (is_abs p \<and> take (length (abs_comps dir)) (abs_comps p) = abs_comps dir)"

lemma unpack_entry_files:
  assumes "unpack_entry dir st e = Some st'"
  shows "ts_files st' =
    ts_files st @ (if tn_kind e = Tar_Reg then [(path_join [dir, path_clean (tn_name e)], tn_data e)] else [])"
  using assms
  by (auto simp: unpack_entry_def mkdir_all_def create_file_def Let_def split: if_splits tar_kind.splits Option.bind_splits)

lemma unpack_entry_fresh:
  assumes "unpack_entry dir st e = Some st'"
  shows "\<not> escapes (tn_name e) \<and> tn_kind e \<noteq> Tar_Other \<and>
    (tn_kind e = Tar_Reg \<longrightarrow> path_join [dir, path_clean (tn_name e)] \<notin> fst ` set (ts_files st))"
  using assms
  by (auto simp: unpack_entry_def mkdir_all_def create_file_def Let_def split: if_splits tar_kind.splits Option.bind_splits)

definition regular_files :: "string \<Rightarrow> tar_entry list \<Rightarrow> (string \<times> string) list" where
  "regular_files dir es =
     map (\<lambda>e. (path_join [dir, path_clean (tn_name e)], tn_data e)) (filter (\<lambda>e. tn_kind e = Tar_Reg) es)"

lemma unpack_entries_files:
  assumes "unpack_entries dir st es = Some st'" and "distinct (map fst (ts_files st))"
  shows "ts_files st' = ts_files st @ regular_files dir es \<and> distinct (map fst (ts_files st')) \<and>
    list_all (\<lambda>e. \<not> escapes (tn_name e) \<and> tn_kind e \<noteq> Tar_Other) es"
  using assms
proof (induction es arbitrary: st)
  case Nil
  then show ?case by (simp add: regular_files_def)
next
  case (Cons e es)
  then obtain st1 where s: "unpack_entry dir st e = Some st1" "unpack_entries dir st1 es = Some st'"
    by (auto split: Option.bind_splits)
  have "distinct (map fst (ts_files st1))"
    using unpack_entry_files [OF s(1)] unpack_entry_fresh [OF s(1)] Cons.prems(2) by auto
  from Cons.IH [OF s(2) this] have IH: "ts_files st' = ts_files st1 @ regular_files dir es"
    "distinct (map fst (ts_files st'))" "list_all (\<lambda>e. \<not> escapes (tn_name e) \<and> tn_kind e \<noteq> Tar_Other) es"
    by blast+
  have "ts_files st' = ts_files st @ regular_files dir (e # es)"
    using IH(1) unpack_entry_files [OF s(1)] by (simp add: regular_files_def)
  then show ?case using IH(2,3) unpack_entry_fresh [OF s(1)] by simp
qed

lemma regular_contained:
  assumes "is_abs dir" and "list_all (\<lambda>e. \<not> escapes (tn_name e)) es" and "f \<in> set (regular_files dir es)"
  shows "contained dir (fst f)"
proof -
  obtain e where e: "e \<in> set es" "fst f = path_join [dir, path_clean (tn_name e)]"
    using assms(3) by (auto simp: regular_files_def)
  have "\<not> escapes (tn_name e)" using assms(2) e(1) by (simp add: list_all_iff)
  from unpacked_below [OF assms(1) this] show ?thesis unfolding contained_def e(2) by (metis append_eq_conv_conj)
qed

text \<open>
  The directories an entry asks for: its own path, or that of the directory it is in. The latter is outside only for
  a regular file that is the target directory itself.
\<close>

definition made_dirs :: "string \<Rightarrow> tar_entry \<Rightarrow> string list" where
  "made_dirs dir e =
     (case tn_kind e of
        Tar_Dir \<Rightarrow> [path_join [dir, path_clean (tn_name e)]]
      | Tar_Reg \<Rightarrow> [path_dir (path_join [dir, path_clean (tn_name e)])]
      | _ \<Rightarrow> [])"

definition replaces_root :: "tar_entry \<Rightarrow> bool" where
  "replaces_root e = (tn_kind e = Tar_Reg \<and> path_clean (tn_name e) = ''.'')"

lemma unpack_entry_dirs: "unpack_entry dir st e = Some st' \<Longrightarrow> ts_dirs st' = ts_dirs st @ made_dirs dir e"
  by (auto simp: unpack_entry_def made_dirs_def mkdir_all_def create_file_def Let_def
      split: if_splits tar_kind.splits Option.bind_splits)

lemma unpack_entries_dirs:
  "unpack_entries dir st es = Some st' \<Longrightarrow> ts_dirs st' = ts_dirs st @ concat (map (made_dirs dir) es)"
  by (induction es arbitrary: st) (auto simp: unpack_entry_dirs split: Option.bind_splits)

lemma made_dirs_contained:
  assumes "is_abs dir" and "\<not> escapes (tn_name e)" and "d \<in> set (made_dirs dir e)"
  shows "contained dir d \<or> replaces_root e \<and> d = path_dir (path_clean dir)"
proof -
  let ?p = "path_join [dir, path_clean (tn_name e)]"
  obtain cs where p: "abs_comps ?p = abs_comps dir @ cs" "is_abs ?p" "path_clean ?p = ?p"
    and root: "cs = [] \<longrightarrow> path_clean (tn_name e) = ''.'' \<and> ?p = path_clean dir"
    by (rule unpacked_below [OF assms(1,2)])
  have "contained dir ?p" using p by (simp add: contained_def)
  moreover have "contained dir (path_dir ?p)" if "cs \<noteq> []"
    using abs_comps_dir [OF p(2,3)] p(1) that by (simp add: contained_def butlast_append)
  ultimately show ?thesis
    using assms(3) root by (cases "tn_kind e"; cases "cs = []") (auto simp: made_dirs_def replaces_root_def)
qed

definition empty_tree :: tree_state where "empty_tree = \<lparr>ts_files = [], ts_dirs = []\<rparr>"

text \<open>
  C35: unpacking an archive cannot escape the snapshot. After a successful unpacking no entry, of whatever kind, has an absolute
  name or one that climbs out; the new files are those of the regular entries, in order and with their contents, no
  path is written twice, no link or other special entry was accepted, and every file lies at or below the directory. The
  directories made are exactly those the entries name or are in; each lies at or below the directory too, except that a
  regular entry which is the directory itself asks for its parent.
\<close>

theorem unpack_contained:
  assumes "is_abs dir" and "unpack dir empty_tree s = Some st"
  shows "list_all (\<lambda>e. \<not> escapes (tn_name e) \<and> tn_kind e \<noteq> Tar_Other) (ts_entries s) \<and> ts_eof s \<and>
    ts_files st = regular_files dir (ts_entries s) \<and> distinct (map fst (ts_files st)) \<and>
    list_all (\<lambda>f. contained dir (fst f)) (ts_files st) \<and>
    ts_dirs st = concat (map (made_dirs dir) (ts_entries s)) \<and>
    list_all (\<lambda>d. contained dir d \<or> list_ex replaces_root (ts_entries s) \<and> d = path_dir (path_clean dir)) (ts_dirs st)"
proof -
  from assms(2) have u: "unpack_entries dir empty_tree (ts_entries s) = Some st" "ts_eof s"
    by (auto simp: unpack_def split: Option.bind_splits if_splits)
  have t: "ts_files empty_tree = []" "ts_dirs empty_tree = []" by (simp_all add: empty_tree_def)
  then have "distinct (map fst (ts_files empty_tree))" by simp
  from unpack_entries_files [OF u(1) this, unfolded t append_Nil]
  have f: "ts_files st = regular_files dir (ts_entries s)" "distinct (map fst (ts_files st))"
    "list_all (\<lambda>e. \<not> escapes (tn_name e) \<and> tn_kind e \<noteq> Tar_Other) (ts_entries s)"
    by blast+
  have n: "list_all (\<lambda>e. \<not> escapes (tn_name e)) (ts_entries s)" using f(3) by (simp add: list_all_iff)
  then have "list_all (\<lambda>f. contained dir (fst f)) (ts_files st)"
    unfolding f(1) list_all_iff using regular_contained [OF assms(1)] by (simp add: list_all_iff)
  moreover have d: "ts_dirs st = concat (map (made_dirs dir) (ts_entries s))"
    using unpack_entries_dirs [OF u(1)] t(2) by simp
  moreover have "list_all (\<lambda>d. contained dir d \<or> list_ex replaces_root (ts_entries s) \<and> d = path_dir (path_clean dir)) (ts_dirs st)"
    unfolding d using n made_dirs_contained [OF assms(1)] by (fastforce simp: list_all_iff list_ex_iff)
  ultimately show ?thesis using f u(2) by blast
qed

section \<open>Exactness\<close>

lemma tree_rows_distinct:
  "tree_rows expected rows = Some ex \<Longrightarrow> distinct (map fst expected) \<Longrightarrow> distinct (map fst ex)"
  by (induction expected rows rule: tree_rows.induct) (auto split: if_splits option.splits)

lemma walk_matches_iff:
  "walk_matches h expected fs = Some k \<longleftrightarrow>
     k = length fs \<and> (\<forall>(name, data)\<in>set fs. \<exists>pin. map_of expected name = Some pin \<and> blob_matches h pin data)"
  by (induction fs arbitrary: k) (auto split: option.splits if_splits)

lemma distinct_same_keys:
  assumes "distinct (map fst xs)" and "distinct (map fst ys)" and "length xs = length ys"
    and "fst ` set xs \<subseteq> fst ` set ys"
  shows "fst ` set xs = fst ` set ys"
proof -
  have "card (fst ` set xs) = card (fst ` set ys)"
    using assms(1-3) by (metis distinct_card length_map list.set_map)
  then show ?thesis using assms(4) by (intro card_subset_eq) auto
qed

text \<open>
  C36: the retained source is exactly the committed tree. The comparison of a directory of distinct files with the
  tree listing succeeds exactly when the listing parses, the directory is there and the files below the directory are, by relative path, the listed
  ones, each with contents of the listed blob hash: nothing is missing, substituted or added.
\<close>

theorem exact_tree_iff:
  assumes "distinct (map fst (walked_files st root))"
  shows "exact_tree h st root tree \<longleftrightarrow>
    (case parse_tree tree of
       None \<Rightarrow> False
     | Some expected \<Rightarrow>
         is_directory st root \<and> fst ` set (walked_files st root) = fst ` set expected \<and>
         list_all (\<lambda>(name, data). case map_of expected name of Some pin \<Rightarrow> blob_matches h pin data | None \<Rightarrow> False)
           (walked_files st root))"
proof (cases "parse_tree tree")
  case (Some expected)
  let ?fs = "walked_files st root"
  have d: "distinct (map fst expected)"
    using Some tree_rows_distinct [of "[]"] by (auto simp: parse_tree_def)
  have all: "(\<forall>(name, data)\<in>set ?fs. \<exists>pin. map_of expected name = Some pin \<and> blob_matches h pin data) \<longleftrightarrow>
      list_all (\<lambda>(name, data). case map_of expected name of Some pin \<Rightarrow> blob_matches h pin data | None \<Rightarrow> False) ?fs"
    by (force simp: list_all_iff split: option.splits)
  have sub: "fst ` set ?fs \<subseteq> fst ` set expected"
    if "\<forall>(name, data)\<in>set ?fs. \<exists>pin. map_of expected name = Some pin \<and> blob_matches h pin data"
    using that by (force dest: map_of_SomeD)
  have len: "fst ` set ?fs = fst ` set expected \<Longrightarrow> length ?fs = length expected"
    using assms d by (metis distinct_card length_map list.set_map)
  show ?thesis
    unfolding exact_tree_def Some option.case walk_matches_iff all
    using sub len distinct_same_keys [OF assms d] unfolding all by metis
qed (simp add: exact_tree_def)

section \<open>Retaining and verifying\<close>

lemma read_write:
  assumes "write_file st p data = Some st'"
  shows "read_file st' q = (if q = p then Some data else read_file st q)"
proof -
  have "map_of (map (\<lambda>(q, d). (q, if q = p then data else d)) fs) q =
      (if q = p \<and> map_of fs p \<noteq> None then Some data else map_of fs q)" for fs
    by (induction fs) (auto split: if_splits)
  then show ?thesis
    using assms by (auto simp: write_file_def read_file_def map_add_def split: if_splits option.splits)
qed

lemma joined_name:
  assumes "is_abs dir" and "good_comp n"
  shows "abs_comps (path_join [dir, n]) = abs_comps dir @ [n]"
proof -
  have n: "n \<noteq> []" "comps n = [n]"
    using assms(2) comps_join [of "[n]"] by (auto simp: good_comp_def)
  have a: "is_abs (dir @ sep # n)" using assms(1) by (auto simp: is_abs_def has_prefix_iff)
  have j: "path_join [dir, n] = path_clean (dir @ sep # n)"
    using n(1) is_abs_not_Nil [OF assms(1)] by (simp add: path_join_def)
  have "abs_comps (dir @ sep # n) = foldl (clean_step True) (abs_comps dir) [n]"
    using n(2) by (simp add: abs_comps_def clean_comps_def comps_glue)
  also have "\<dots> = abs_comps dir @ [n]" using clean_good_id [of "[n]"] assms(2) by simp
  finally show ?thesis using j a by (simp add: abs_comps_clean)
qed

lemma joined_inj: "is_abs dir \<Longrightarrow> good_comp n \<Longrightarrow> good_comp m \<Longrightarrow> path_join [dir, n] = path_join [dir, m] \<Longrightarrow> n = m"
  using joined_name by (metis last_snoc)

lemma written_files:
  assumes "is_abs dir" and "write_files dir st fs = Some st'" and "list_all (\<lambda>f. good_comp (fst f)) fs"
    and "distinct (map fst fs)" and "good_comp n"
  shows "snapshot_file st' dir n = (case map_of fs n of Some d \<Rightarrow> Some d | None \<Rightarrow> snapshot_file st dir n)"
  using assms(2-4)
proof (induction fs arbitrary: st)
  case Nil
  then show ?case by simp
next
  case (Cons f fs)
  obtain m d where f: "f = (m, d)" by force
  from Cons.prems(1) f obtain st1 where w: "write_file st (path_join [dir, m]) d = Some st1" "write_files dir st1 fs = Some st'"
    by (auto split: Option.bind_splits)
  have m: "good_comp m" "m \<notin> fst ` set fs" using Cons.prems(2,3) f by auto
  have "snapshot_file st1 dir n = (if n = m then Some d else snapshot_file st dir n)"
    using read_write [OF w(1)] joined_inj [OF assms(1,5) m(1)] by (auto simp: snapshot_file_def)
  moreover have "map_of fs m = None" using m(2) by (simp add: map_of_eq_None_iff)
  ultimately show ?case
    using Cons.IH [OF w(2)] Cons.prems(2,3) f by (auto split: option.splits)
qed

lemma unpack_keeps_files:
  assumes "unpack dir st s = Some st'" and "read_file st q = Some d"
  shows "read_file st' q = Some d"
proof -
  have "\<exists>fs. ts_files st' = ts_files st @ fs" if "unpack_entries dir st es = Some st'" for es
    using that
  proof (induction es arbitrary: st)
    case (Cons e es)
    then obtain st1 where "unpack_entry dir st e = Some st1" "unpack_entries dir st1 es = Some st'"
      by (auto split: Option.bind_splits)
    then show ?case using Cons.IH unpack_entry_files by (metis append.assoc)
  qed simp
  moreover have "unpack_entries dir st (ts_entries s) = Some st'"
    using assms(1) by (auto simp: unpack_def split: Option.bind_splits if_splits)
  ultimately obtain fs where "ts_files st' = ts_files st @ fs" by blast
  then show ?thesis using assms(2) by (simp add: read_file_def map_add_def)
qed

definition artifact_files :: "string \<Rightarrow> command_output \<Rightarrow> (string \<times> string) list" where
  "artifact_files name c =
     [(name @ ''.stdout'', co_out c), (name @ ''.stderr'', co_err c), (name @ ''.exit'', exit_text (co_code c))]"

lemma artifact_read:
  assumes "is_abs dir" and "artifact dir st name c = Some st'" and "good_comp name" and "good_comp n"
  shows "snapshot_file st' dir n = (case map_of (artifact_files name c) n of Some d \<Rightarrow> Some d | None \<Rightarrow> snapshot_file st dir n)"
proof (rule written_files [OF assms(1) _ _ _ assms(4)])
  show "write_files dir st (artifact_files name c) = Some st'"
    using assms(2) by (simp add: artifact_def artifact_files_def)
  show "list_all (\<lambda>f. good_comp (fst f)) (artifact_files name c)"
    using assms(3) by (auto simp: artifact_files_def good_comp_def sep_def)
qed (simp add: artifact_files_def)

text \<open>
  C34: what was retained verifies. When a snapshot of a commit has been retained in a new absolute directory, verifying the
  directory afterwards against the returned pins, with Git giving what it gave, succeeds: no stream is overwritten
  by another or by the unpacked source, and every file that is verified was written.
\<close>

theorem retained_snapshot_verifies:
  assumes "is_abs output" and "retain_snapshot t st commit output = Some (st', pins)"
  shows "verify_snapshot t st' output pins"
proof -
  let ?h = "sn_hashes t" and ?root = "path_join [output, ''source'']"
  let ?o = "git_commit t commit" and ?t = "git_tree t commit" and ?a = "source_archive t commit"
  from assms(2) obtain s0 s1 s2 s3 where c: "exact_commit commit"
    and a1: "artifact output s0 ''commit'' ?o = Some s1" and o: "co_code ?o = 0" "trim_space (co_out ?o) = commit"
    and a2: "artifact output s1 ''tree'' ?t = Some s2" and tr: "co_code ?t = 0"
    and a3: "artifact output s2 ''archive'' ?a = Some s3" and ar: "co_code ?a = 0"
    and u: "unpack ?root s3 (sn_tar t (co_out ?a)) = Some st'" and x: "exact_tree ?h st' ?root (co_out ?t)"
    and p: "pins = \<lparr>sh_commit = commit, sh_archive = th_sha256 ?h (co_out ?a), sh_tree = th_sha256 ?h (co_out ?t)\<rparr>"
    unfolding retain_snapshot_def Let_def by (auto split: if_splits Option.bind_splits)
  have g: "good_comp ''commit''" "good_comp ''tree''" "good_comp ''archive''"
    by (simp_all add: good_comp_def sep_def)
  note files = artifact_read [OF assms(1) a1 g(1)] artifact_read [OF assms(1) a2 g(2)] artifact_read [OF assms(1) a3 g(3)]
  have f: "snapshot_file s3 output n =
      map_of (artifact_files ''archive'' ?a @ artifact_files ''tree'' ?t @ artifact_files ''commit'' ?o) n"
    if "good_comp n" "n \<in> fst ` set (artifact_files ''archive'' ?a @ artifact_files ''tree'' ?t @ artifact_files ''commit'' ?o)"
    for n
    using that files [OF that(1)] by (auto simp: artifact_files_def)
  have k: "snapshot_file st' output n = Some d" if "snapshot_file s3 output n = Some d" for n d
    using that unpack_keeps_files [OF u] by (simp add: snapshot_file_def)
  have r: "snapshot_file st' output ''tree.stdout'' = Some (co_out ?t)"
    "snapshot_file st' output ''archive.stdout'' = Some (co_out ?a)"
    "snapshot_file st' output ''commit.stdout'' = Some (co_out ?o)"
    "snapshot_file st' output ''commit.exit'' = Some (exit_text 0)" "snapshot_file st' output ''tree.exit'' = Some (exit_text 0)"
    "snapshot_file st' output ''archive.exit'' = Some (exit_text 0)"
    "snapshot_file st' output ''commit.stderr'' = Some (co_err ?o)" "snapshot_file st' output ''tree.stderr'' = Some (co_err ?t)"
    "snapshot_file st' output ''archive.stderr'' = Some (co_err ?a)"
    by (rule k, subst f, simp_all add: artifact_files_def good_comp_def sep_def o(1) tr ar)+
  then show ?thesis
    using c o(2) tr ar x unfolding verify_snapshot_def p by simp
qed

section \<open>Examples\<close>

definition demo_stream :: tar_stream where
  "demo_stream =
     \<lparr>ts_entries = [\<lparr>tn_name = ''d/'', tn_kind = Tar_Dir, tn_data = []\<rparr>,
        \<lparr>tn_name = ''go.mod'', tn_kind = Tar_Reg, tn_data = ''module m''\<rparr>,
        \<lparr>tn_name = ''d/./f.go'', tn_kind = Tar_Reg, tn_data = ''package d''\<rparr>], ts_eof = True\<rparr>"

theorem unpack_contained_witness:
  "\<exists>st. unpack ''/w/s'' empty_tree demo_stream = Some st \<and> length (ts_files st) = 2 \<and> length (ts_dirs st) = 3 \<and>
    list_all (\<lambda>f. contained ''/w/s'' (fst f)) (ts_files st) \<and> list_all (contained ''/w/s'') (ts_dirs st)"
proof -
  have a: "is_abs ''/w/s''" by code_simp
  have "unpack ''/w/s'' empty_tree demo_stream \<noteq> None" by code_simp
  then obtain st where u: "unpack ''/w/s'' empty_tree demo_stream = Some st" by blast
  have l: "map_option (\<lambda>st. (length (ts_files st), length (ts_dirs st))) (unpack ''/w/s'' empty_tree demo_stream) =
      Some (2, 3)" by code_simp
  have r: "\<not> list_ex replaces_root (ts_entries demo_stream)" by code_simp
  from unpack_contained [OF a u] r have "list_all (\<lambda>f. contained ''/w/s'' (fst f)) (ts_files st)"
    "list_all (contained ''/w/s'') (ts_dirs st)" by (auto simp: list_all_iff)
  with u l show ?thesis by auto
qed

text \<open>A hash for the examples: 40 characters for every content.\<close>

definition demo_hash :: "string \<Rightarrow> string" where
  "demo_hash s = replicate 40 (if s = git_blob ''module m'' then CHR ''a'' else CHR ''b'')"

definition demo_tree :: string where
  "demo_tree = ''100644 blob '' @ replicate 40 (CHR ''a'') @ [CHR 0x09] @ ''go.mod'' @ [CHR 0x00] @
     ''100644 blob '' @ replicate 40 (CHR ''b'') @ [CHR 0x09] @ ''d/f.go'' @ [CHR 0x00]"

definition demo_hashes :: tree_hashes where
  "demo_hashes = \<lparr>th_sha1 = demo_hash, th_sha256 = \<lambda>s. demo_hash s\<rparr>"

definition demo_unpacked :: tree_state where
  "demo_unpacked = the (unpack ''/w/s'' empty_tree demo_stream)"

theorem exact_tree_iff_witness:
  "exact_tree demo_hashes demo_unpacked ''/w/s'' demo_tree \<and> \<not> exact_tree demo_hashes demo_unpacked ''/w/s'' []"
proof -
  have d: "distinct (map fst (walked_files demo_unpacked ''/w/s''))" by code_simp
  show ?thesis unfolding exact_tree_iff [OF d] by code_simp
qed

definition demo_commit :: string where
  "demo_commit = replicate 40 (CHR ''c'')"

definition demo_git :: "string list \<Rightarrow> string list \<Rightarrow> command_output" where
  "demo_git env args =
     (if hd args = ''rev-parse'' then \<lparr>co_out = demo_commit @ [CHR 0x0A], co_err = [], co_code = 0\<rparr>
      else if hd args = ''ls-tree'' then \<lparr>co_out = demo_tree, co_err = [], co_code = 0\<rparr>
      else \<lparr>co_out = ''archive'', co_err = [], co_code = 0\<rparr>)"

definition demo_tools :: snapshot_tools where
  "demo_tools =
     \<lparr>sn_environ = [], sn_git = demo_git, sn_tar = \<lambda>_. demo_stream, sn_hashes = demo_hashes,
      sn_replacements = \<lambda>_. Some []\<rparr>"

definition demo_world :: tree_state where
  "demo_world = \<lparr>ts_files = [], ts_dirs = [''/w'']\<rparr>"

theorem retained_snapshot_verifies_witness:
  "\<exists>st' pins. retain_snapshot demo_tools demo_world demo_commit ''/w/out'' = Some (st', pins) \<and>
    verify_snapshot demo_tools st' ''/w/out'' pins"
proof -
  have a: "is_abs ''/w/out''" by code_simp
  have "retain_snapshot demo_tools demo_world demo_commit ''/w/out'' \<noteq> None" by code_simp
  then obtain st' pins where "retain_snapshot demo_tools demo_world demo_commit ''/w/out'' = Some (st', pins)" by auto
  with retained_snapshot_verifies [OF a this] show ?thesis by blast
qed

end
