(* ===== verification/Measure_Plan.thy ===== *)
theory Measure_Plan
  imports Complex_Main
begin

text \<open>
  Predeclared measurement matrices: \<open>Schedule\<close> of \<open>internal/crossover/plan.go\<close> and \<open>invocations\<close> of
  \<open>internal/allocationcampaign/campaign.go\<close>. The nested loops with their reversed orders are folded in the
  order of the code; sizes and counts are bounded by the guards, so Go's \<open>int\<close> does not wrap.
\<close>

section \<open>Crossover schedule\<close>

record cell =
  ce_pair :: int
  ce_size :: int
  ce_procs :: int
  ce_scope :: string
  ce_phase :: string
  ce_arm :: string
  ce_selection :: string

datatype plan_error =
    Matrix_invalid
  | Matrix_too_large
  | Shape_invalid
  | Shapes_one_sided
  | Procs_invalid

text \<open>In every even pair each of the orders is reversed.\<close>

definition pair_order :: "int \<Rightarrow> 'a list \<Rightarrow> 'a list" where
  "pair_order pair xs = (if pair mod 2 = 0 then rev xs else xs)"

fun scan_shapes :: "int \<Rightarrow> int list \<Rightarrow> bool \<times> bool \<Rightarrow> int list \<Rightarrow> (bool \<times> bool) option" where
  "scan_shapes boundary seen sides [] = Some sides"
| "scan_shapes boundary seen (low, high) (n # ns) =
     (if n < 1 \<or> n \<in> set seen then None
      else scan_shapes boundary (seen @ [n]) (low \<or> n < boundary, high \<or> n \<ge> boundary) ns)"

fun scan_procs :: "int list \<Rightarrow> int list \<Rightarrow> bool" where
  "scan_procs seen [] = True"
| "scan_procs seen (p # ps) = (if p < 2 \<or> p > 256 \<or> p \<in> set seen then False else scan_procs (seen @ [p]) ps)"

definition scopes :: "string list" where
  "scopes = [''policy'', ''forced-operation'', ''production'', ''original-benchmark'']"

definition phases :: "string list" where
  "phases = [''control'', ''candidate'']"

definition arms :: "string list" where
  "arms = [''serial'', ''parallel'']"

definition cell_of :: "int \<Rightarrow> int \<Rightarrow> int \<Rightarrow> string \<Rightarrow> string \<Rightarrow> string \<Rightarrow> cell" where
  "cell_of pair sz procs scope phase arm =
     \<lparr>ce_pair = pair, ce_size = sz, ce_procs = procs, ce_scope = scope, ce_phase = phase, ce_arm = arm,
      ce_selection = (if phase = ''control'' then ''serial'' else arm)\<rparr>"

definition pair_cells :: "int list \<Rightarrow> int list \<Rightarrow> int \<Rightarrow> cell list" where
  "pair_cells sizes procs pair =
     concat (map (\<lambda>sz. concat (map (\<lambda>p. concat (map (\<lambda>scope. concat (map (\<lambda>phase.
       map (\<lambda>arm. cell_of pair sz p scope phase arm) (pair_order pair arms))
       (pair_order pair phases))) (pair_order pair scopes))) (pair_order pair procs))) (pair_order pair sizes))"

definition schedule :: "int \<Rightarrow> int list \<Rightarrow> int list \<Rightarrow> int \<Rightarrow> plan_error + cell list" where
  "schedule boundary sizes procs pairs =
     (if boundary < 2 \<or> pairs < 2 \<or> pairs mod 2 \<noteq> 0 \<or> pairs > 100 \<or> length sizes < 2 \<or> length sizes > 32 \<or>
         length procs = 0 \<or> length procs > 8 then Inl Matrix_invalid
      else if pairs * int (length sizes) * int (length procs) * 16 > 100000 then Inl Matrix_too_large
      else case scan_shapes boundary [] (False, False) sizes of
        None \<Rightarrow> Inl Shape_invalid
      | Some (low, high) \<Rightarrow>
          if \<not> low \<or> \<not> high then Inl Shapes_one_sided
          else if \<not> scan_procs [] procs then Inl Procs_invalid
          else Inr (concat (map (pair_cells sizes procs) [1..pairs])))"

section \<open>Allocation matrix\<close>

record run_cell =
  rn_phase :: string
  rn_pair :: int
  rn_procs :: int
  rn_arm :: string
  rn_binary :: string
  rn_selection :: string

definition arm_cell :: "string \<Rightarrow> int \<Rightarrow> int \<Rightarrow> string \<Rightarrow> run_cell" where
  "arm_cell phase pair p arm =
     (let after = phase = ''candidate'' \<and> arm = ''B'' in
      \<lparr>rn_phase = phase, rn_pair = pair, rn_procs = p, rn_arm = arm,
       rn_binary = (if after then ''candidate.test'' else ''old.test''),
       rn_selection = (if after then ''after'' else ''before'')\<rparr>)"

definition invocations :: "int \<Rightarrow> int list \<Rightarrow> run_cell list" where
  "invocations pairs procs =
     concat (map (\<lambda>phase. concat (map (\<lambda>pair. concat (map (\<lambda>p.
       map (arm_cell phase pair p) (if pair mod 2 = 0 then [''B'', ''A''] else [''A'', ''B'']))
       (pair_order pair procs))) [1..pairs])) [''control'', ''candidate''])"

section \<open>What the schedule covers\<close>

lemma set_pair_order [simp]: "set (pair_order pair xs) = set xs"
  by (simp add: pair_order_def)

lemma distinct_pair_order [simp]: "distinct (pair_order pair xs) = distinct xs"
  by (simp add: pair_order_def)

lemma length_pair_order [simp]: "length (pair_order pair xs) = length xs"
  by (simp add: pair_order_def)

lemma scan_shapes_iff:
  "scan_shapes boundary seen sides ns = Some (b, a) \<longleftrightarrow>
     (\<forall>n\<in>set ns. n \<ge> 1) \<and> distinct ns \<and> set seen \<inter> set ns = {} \<and>
     b = (fst sides \<or> (\<exists>n\<in>set ns. n < boundary)) \<and> a = (snd sides \<or> (\<exists>n\<in>set ns. n \<ge> boundary))"
  by (induction boundary seen sides ns rule: scan_shapes.induct) (auto split: if_splits)

lemma scan_procs_iff:
  "scan_procs seen ps \<longleftrightarrow> (\<forall>p\<in>set ps. 2 \<le> p \<and> p \<le> 256) \<and> distinct ps \<and> set seen \<inter> set ps = {}"
  by (induction seen ps rule: scan_procs.induct) auto

lemma distinct_concat_keyed:
  assumes "distinct xs" and "\<And>x. x \<in> set xs \<Longrightarrow> distinct (f x)" and "\<And>x y. x \<in> set xs \<Longrightarrow> y \<in> set (f x) \<Longrightarrow> key y = x"
  shows "distinct (concat (map f xs))"
  using assms
proof (induction xs)
  case (Cons x xs)
  have "set (f x) \<inter> set (concat (map f xs)) = {}"
  proof (rule ccontr)
    assume "set (f x) \<inter> set (concat (map f xs)) \<noteq> {}"
    then obtain y x' where y: "y \<in> set (f x)" "x' \<in> set xs" "y \<in> set (f x')" by auto
    then have "key y = x" "key y = x'" using Cons.prems(3) by simp_all
    then show False using y(2) Cons.prems(1) by simp
  qed
  moreover have "distinct (concat (map f xs))" by (rule Cons.IH) (use Cons.prems in simp_all)
  ultimately show ?case using Cons.prems(2) [of x] by simp
qed simp

lemma length_concat_same:
  assumes "\<And>x. x \<in> set xs \<Longrightarrow> length (f x) = k"
  shows "length (concat (map f xs)) = length xs * k"
  using assms by (induction xs) auto

lemma cell_of_keys [simp]:
  "ce_pair (cell_of pair sz procs scope phase arm) = pair" "ce_size (cell_of pair sz procs scope phase arm) = sz"
  "ce_procs (cell_of pair sz procs scope phase arm) = procs" "ce_scope (cell_of pair sz procs scope phase arm) = scope"
  "ce_phase (cell_of pair sz procs scope phase arm) = phase" "ce_arm (cell_of pair sz procs scope phase arm) = arm"
  by (simp_all add: cell_of_def)

lemma distinct_arms: "distinct arms"
  by (simp add: arms_def)

lemma distinct_arm_cells: "distinct (map (\<lambda>arm. cell_of pair sz p scope phase arm) (pair_order pair arms))"
proof -
  have "inj_on (\<lambda>arm. cell_of pair sz p scope phase arm) (set (pair_order pair arms))"
    by (rule inj_on_inverseI [where g = ce_arm]) simp
  then show ?thesis unfolding distinct_map by (metis distinct_arms distinct_pair_order)
qed

definition phase_cells :: "int \<Rightarrow> int \<Rightarrow> int \<Rightarrow> string \<Rightarrow> cell list" where
  "phase_cells pair sz p scope =
     concat (map (\<lambda>phase. map (\<lambda>arm. cell_of pair sz p scope phase arm) (pair_order pair arms)) (pair_order pair phases))"

definition scope_cells :: "int \<Rightarrow> int \<Rightarrow> int \<Rightarrow> cell list" where
  "scope_cells pair sz p = concat (map (phase_cells pair sz p) (pair_order pair scopes))"

definition procs_cells :: "int list \<Rightarrow> int \<Rightarrow> int \<Rightarrow> cell list" where
  "procs_cells procs pair sz = concat (map (scope_cells pair sz) (pair_order pair procs))"

lemma pair_cells_layers:
  "pair_cells sizes procs pair = concat (map (procs_cells procs pair) (pair_order pair sizes))"
  unfolding pair_cells_def procs_cells_def [abs_def] scope_cells_def [abs_def] phase_cells_def [abs_def] ..

lemma in_phase_cells:
  "c \<in> set (phase_cells pair sz p scope) \<longleftrightarrow>
     (\<exists>phase\<in>set phases. \<exists>arm\<in>set arms. c = cell_of pair sz p scope phase arm)"
  by (simp add: phase_cells_def image_iff)

lemma in_pair_cells:
  "c \<in> set (pair_cells sizes procs pair) \<longleftrightarrow>
     (\<exists>sz\<in>set sizes. \<exists>p\<in>set procs. \<exists>scope\<in>set scopes. \<exists>phase\<in>set phases. \<exists>arm\<in>set arms.
       c = cell_of pair sz p scope phase arm)"
  by (simp add: pair_cells_layers procs_cells_def scope_cells_def in_phase_cells)

lemma distinct_phase_cells: "distinct (phase_cells pair sz p scope)"
  unfolding phase_cells_def
proof (rule distinct_concat_keyed [where key = ce_phase])
  show "distinct (pair_order pair phases)" by (simp add: phases_def)
qed (use distinct_arm_cells in auto)

lemma distinct_scope_cells: "distinct (scope_cells pair sz p)"
  unfolding scope_cells_def
proof (rule distinct_concat_keyed [where key = ce_scope])
  show "distinct (pair_order pair scopes)" by (simp add: scopes_def)
qed (use distinct_phase_cells in_phase_cells in auto)

lemma distinct_pair_cells:
  assumes "distinct sizes" and "distinct procs"
  shows "distinct (pair_cells sizes procs pair)"
proof -
  have procs: "distinct (procs_cells procs pair sz)" for sz
    unfolding procs_cells_def
  proof (rule distinct_concat_keyed [where key = ce_procs])
    show "distinct (pair_order pair procs)" using assms(2) by simp
    show "distinct (scope_cells pair sz p)" for p by (rule distinct_scope_cells)
  qed (auto simp: scope_cells_def in_phase_cells)
  show ?thesis
    unfolding pair_cells_layers
  proof (rule distinct_concat_keyed [where key = ce_size])
    show "distinct (pair_order pair sizes)" using assms(1) by simp
    show "distinct (procs_cells procs pair sz)" for sz by (rule procs)
  qed (auto simp: procs_cells_def scope_cells_def in_phase_cells)
qed

lemma pair_cells_pair: "c \<in> set (pair_cells sizes procs pair) \<Longrightarrow> ce_pair c = pair"
  by (auto simp: in_pair_cells)

lemma length_pair_cells: "length (pair_cells sizes procs pair) = length sizes * (length procs * 16)"
proof -
  have "length (phase_cells pair sz p scope) = 4" for sz p scope
    unfolding phase_cells_def by (subst length_concat_same [where k = 2]) (simp_all add: arms_def phases_def)
  then have "length (scope_cells pair sz p) = 16" for sz p
    unfolding scope_cells_def by (subst length_concat_same [where k = 4]) (simp_all add: scopes_def)
  then have "length (procs_cells procs pair sz) = length procs * 16" for sz
    unfolding procs_cells_def by (subst length_concat_same [where k = 16]) simp_all
  then show ?thesis
    unfolding pair_cells_layers by (subst length_concat_same [where k = "length procs * 16"]) simp_all
qed

lemma schedule_cells:
  assumes "schedule boundary sizes procs pairs = Inr cells"
  shows "distinct cells \<and> int (length cells) = pairs * int (length sizes) * int (length procs) * 16 \<and>
    length cells \<le> 100000 \<and> list_ex (\<lambda>n. n < boundary) sizes \<and> list_ex (\<lambda>n. n \<ge> boundary) sizes \<and>
    set cells = {cell_of pair sz p scope phase arm | pair sz p scope phase arm.
      1 \<le> pair \<and> pair \<le> pairs \<and> sz \<in> set sizes \<and> p \<in> set procs \<and> scope \<in> set scopes \<and>
      phase \<in> set phases \<and> arm \<in> set arms}"
proof -
  have g: "pairs \<ge> 2" "pairs * int (length sizes) * int (length procs) * 16 \<le> 100000"
    and s: "scan_shapes boundary [] (False, False) sizes = Some (True, True)" and p: "scan_procs [] procs"
    and c: "cells = concat (map (pair_cells sizes procs) [1..pairs])"
    using assms by (auto simp: schedule_def split: if_splits option.splits)
  have ds: "distinct sizes" "list_ex (\<lambda>n. n < boundary) sizes" "list_ex (\<lambda>n. n \<ge> boundary) sizes"
    using s by (auto simp: scan_shapes_iff list_ex_iff)
  have dp: "distinct procs" using p by (simp add: scan_procs_iff)
  have d: "distinct cells"
    unfolding c by (rule distinct_concat_keyed [where key = ce_pair])
      (simp_all add: distinct_pair_cells [OF ds(1) dp] pair_cells_pair)
  have "length cells = nat pairs * (length sizes * (length procs * 16))"
    unfolding c by (subst length_concat_same [where k = "length sizes * (length procs * 16)"])
      (simp_all add: length_pair_cells)
  then have l: "int (length cells) = pairs * int (length sizes) * int (length procs) * 16" using g(1) by simp
  have "set cells = {cell_of pair sz p scope phase arm | pair sz p scope phase arm.
      1 \<le> pair \<and> pair \<le> pairs \<and> sz \<in> set sizes \<and> p \<in> set procs \<and> scope \<in> set scopes \<and>
      phase \<in> set phases \<and> arm \<in> set arms}"
    unfolding c by (simp add: set_eq_iff in_pair_cells Bex_def) blast
  moreover have "length cells \<le> 100000" using l g(2) by linarith
  ultimately show ?thesis using d l ds(2,3) by blast
qed

text \<open>
  C38: the crossover schedule is complete and has nothing else. When the matrix is accepted, its sizes lie on both
  sides of the observed boundary, no invocation occurs twice, and the invocations are exactly one for every pair number, size,
  processor count, scope, phase and arm, where the control phase selects the serial code in both arms.
\<close>

theorem schedule_complete:
  assumes "schedule boundary sizes procs pairs = Inr cells"
  shows "distinct cells \<and> int (length cells) = pairs * int (length sizes) * int (length procs) * 16 \<and>
    length cells \<le> 100000 \<and> list_ex (\<lambda>n. n < boundary) sizes \<and> list_ex (\<lambda>n. n \<ge> boundary) sizes \<and>
    set cells = {cell_of pair sz p scope phase arm | pair sz p scope phase arm.
      1 \<le> pair \<and> pair \<le> pairs \<and> sz \<in> set sizes \<and> p \<in> set procs \<and> scope \<in> set scopes \<and>
      phase \<in> set phases \<and> arm \<in> set arms}"
  by (rule schedule_cells [OF assms])

theorem schedule_complete_witness:
  "\<exists>cells. schedule 100 [10, 1000] [2] 2 = Inr cells \<and> length cells = 64 \<and> distinct cells"
proof -
  have "\<exists>cells. schedule 100 [10, 1000] [2] 2 = Inr cells" by (simp add: schedule_def)
  then obtain cells where c: "schedule 100 [10, 1000] [2] 2 = Inr cells" ..
  from schedule_complete [OF c] c show ?thesis by auto
qed

lemma pair_order_even:
  assumes "pair mod 2 = 0"
  shows "pair_order pair xs = rev xs" and "pair_order (pair - 1) xs = xs"
proof -
  have "(pair - 1) mod 2 \<noteq> 0" using assms by presburger
  then show "pair_order pair xs = rev xs" "pair_order (pair - 1) xs = xs" using assms by (simp_all add: pair_order_def)
qed

lemma cell_of_repair: "(cell_of q sz p scope phase arm)\<lparr>ce_pair := pair\<rparr> = cell_of pair sz p scope phase arm"
  by (simp add: cell_of_def)

lemma pair_cells_counterbalanced:
  assumes "pair mod 2 = 0"
  shows "pair_cells sizes procs pair = rev (map (\<lambda>c. c\<lparr>ce_pair := pair\<rparr>) (pair_cells sizes procs (pair - 1)))"
  unfolding pair_cells_def pair_order_even [OF assms]
  by (simp add: map_concat rev_concat rev_map comp_def cell_of_repair)

lemma cells_of_pair:
  assumes "1 \<le> pair" and "pair \<le> pairs"
  shows "filter (\<lambda>c. ce_pair c = pair) (concat (map (pair_cells sizes procs) [1..pairs])) = pair_cells sizes procs pair"
proof -
  have r: "[1..pairs] = [1..pair - 1] @ pair # [pair + 1..pairs]"
    using assms upto_split2 [of 1 pair pairs] upto_rec2 [of 1 pair] by simp
  have e: "filter (\<lambda>c. ce_pair c = pair) (concat (map (pair_cells sizes procs) qs)) = []" if "pair \<notin> set qs" for qs
    using that by (auto simp: filter_empty_conv dest: pair_cells_pair)
  have "filter (\<lambda>c. ce_pair c = pair) (pair_cells sizes procs pair) = pair_cells sizes procs pair"
    by (rule filter_True) (simp add: pair_cells_pair)
  then show ?thesis unfolding r by (simp add: e)
qed

text \<open>
  The order of the crossover schedule is counterbalanced. The invocations of an even pair are those of the
  pair before it in the opposite order, so that what is measured first in one pair is measured last in the next.
\<close>

theorem schedule_counterbalanced:
  assumes "schedule boundary sizes procs pairs = Inr cells" and "1 < pair" and "pair \<le> pairs" and "pair mod 2 = 0"
  shows "filter (\<lambda>c. ce_pair c = pair) cells =
    rev (map (\<lambda>c. c\<lparr>ce_pair := pair\<rparr>) (filter (\<lambda>c. ce_pair c = pair - 1) cells))"
proof -
  have c: "cells = concat (map (pair_cells sizes procs) [1..pairs])"
    using assms(1) by (auto simp: schedule_def split: if_splits option.splits)
  show ?thesis
    using assms(2,3) unfolding c by (simp add: cells_of_pair pair_cells_counterbalanced [OF assms(4)])
qed

theorem schedule_counterbalanced_witness:
  "\<exists>cells. schedule 100 [10, 1000] [2] 2 = Inr cells \<and>
    filter (\<lambda>c. ce_pair c = 2) cells = rev (map (\<lambda>c. c\<lparr>ce_pair := 2\<rparr>) (filter (\<lambda>c. ce_pair c = 1) cells))"
proof -
  have "\<exists>cells. schedule 100 [10, 1000] [2] 2 = Inr cells" by (simp add: schedule_def)
  then obtain cells where c: "schedule 100 [10, 1000] [2] 2 = Inr cells" ..
  from schedule_counterbalanced [OF c, of 2] c show ?thesis by auto
qed

end
