(* ===== verification/Strict_Json.thy ===== *)
theory Strict_Json
  imports Go_Text
begin

text \<open>
  Strict decoding of evidence (\<open>uniqueJSON\<close>, \<open>decode\<close> and \<open>requiredFields\<close> of
  \<open>internal/allocationcampaign/campaign.go\<close>). The lexer of \<open>encoding/json\<close> is given by the tokens it yields; the checks
  on top of it are the code's.
\<close>

section \<open>Tokens\<close>

datatype json_token =
    Tk_Null
  | Tk_Bool bool
  | Tk_Number string
  | Tk_String string
  | Tk_Object_Open
  | Tk_Object_Close
  | Tk_Array_Open
  | Tk_Array_Close

text \<open>The tokens of a document, and whether the decoder then reports \<open>io.EOF\<close> and not a syntax error.\<close>

record json_stream =
  js_tokens :: "json_token list"
  js_eof :: bool

text \<open>\<open>Decoder.More\<close>: another token that does not close.\<close>

fun json_more :: "json_token list \<Rightarrow> bool" where
  "json_more [] = False"
| "json_more (t # ts) = (t \<noteq> Tk_Object_Close \<and> t \<noteq> Tk_Array_Close)"

text \<open>The closing token: the decoder itself refuses a delimiter that does not match the open one.\<close>

fun json_close :: "json_token \<Rightarrow> json_token list \<Rightarrow> json_token list option" where
  "json_close c [] = None"
| "json_close c (t # ts) = (if t = c then Some ts else None)"

section \<open>Unique keys\<close>

text \<open>
  One nested call or one turn of a loop takes one unit of fuel; the recursion of the code ends because every turn reads a
  token.
\<close>

fun unique_value :: "nat \<Rightarrow> json_token list \<Rightarrow> json_token list option"
  and unique_members :: "nat \<Rightarrow> string list \<Rightarrow> json_token list \<Rightarrow> json_token list option"
  and unique_elements :: "nat \<Rightarrow> json_token list \<Rightarrow> json_token list option" where
  "unique_value 0 ts = None"
| "unique_value (Suc n) ts =
     (case ts of
        [] \<Rightarrow> None
      | t # rest \<Rightarrow>
          (case t of
             Tk_Null \<Rightarrow> None
           | Tk_Object_Open \<Rightarrow> Option.bind (unique_members n [] rest) (json_close Tk_Object_Close)
           | Tk_Array_Open \<Rightarrow> Option.bind (unique_elements n rest) (json_close Tk_Array_Close)
           | Tk_Object_Close \<Rightarrow> None
           | Tk_Array_Close \<Rightarrow> None
           | _ \<Rightarrow> Some rest))"
| "unique_members 0 seen ts = None"
| "unique_members (Suc n) seen ts =
     (if \<not> json_more ts then Some ts
      else case ts of
             Tk_String name # rest \<Rightarrow>
               if name \<in> set seen then None
               else Option.bind (unique_value n rest) (unique_members n (name # seen))
           | _ \<Rightarrow> None)"
| "unique_elements 0 ts = None"
| "unique_elements (Suc n) ts =
     (if \<not> json_more ts then Some ts else Option.bind (unique_value n ts) (unique_elements n))"

definition unique_json :: "json_stream \<Rightarrow> bool" where
  "unique_json s = (unique_value (length (js_tokens s)) (js_tokens s) = Some [] \<and> js_eof s)"

section \<open>Documents\<close>

text \<open>The value a document denotes, duplicate keys and null included.\<close>

datatype json_tree =
    Jt_Null
  | Jt_Bool bool
  | Jt_Number string
  | Jt_String string
  | Jt_Object "(string \<times> json_tree) list"
  | Jt_Array "json_tree list"

fun tokens_of :: "json_tree \<Rightarrow> json_token list" where
  "tokens_of Jt_Null = [Tk_Null]"
| "tokens_of (Jt_Bool b) = [Tk_Bool b]"
| "tokens_of (Jt_Number s) = [Tk_Number s]"
| "tokens_of (Jt_String s) = [Tk_String s]"
| "tokens_of (Jt_Object ms) = Tk_Object_Open # concat (map (\<lambda>(k, v). Tk_String k # tokens_of v) ms) @ [Tk_Object_Close]"
| "tokens_of (Jt_Array vs) = Tk_Array_Open # concat (map tokens_of vs) @ [Tk_Array_Close]"

fun strict_tree :: "json_tree \<Rightarrow> bool" where
  "strict_tree Jt_Null = False"
| "strict_tree (Jt_Object ms) = (distinct (map fst ms) \<and> list_all (\<lambda>(_, v). strict_tree v) ms)"
| "strict_tree (Jt_Array vs) = list_all strict_tree vs"
| "strict_tree _ = True"

definition member_tokens :: "(string \<times> json_tree) list \<Rightarrow> json_token list" where
  "member_tokens ms = concat (map (\<lambda>(k, v). Tk_String k # tokens_of v) ms)"

lemma member_tokens_simps [simp]:
  "member_tokens [] = []" "member_tokens ((k, v) # ms) = Tk_String k # tokens_of v @ member_tokens ms"
  by (simp_all add: member_tokens_def)

lemma tokens_of_more: "json_more (tokens_of v @ ts)"
  by (cases v) simp_all

lemma json_close_eq: "json_close c ts = Some rest \<longleftrightarrow> ts = c # rest"
  by (cases ts) auto

text \<open>What is accepted is a strict document followed by the tokens left over.\<close>

lemma unique_sound:
  "unique_value n ts = Some rest \<Longrightarrow> \<exists>v. strict_tree v \<and> ts = tokens_of v @ rest"
  "unique_members n seen ts = Some rest \<Longrightarrow>
     \<exists>ms. distinct (map fst ms) \<and> set (map fst ms) \<inter> set seen = {} \<and> list_all (\<lambda>(_, v). strict_tree v) ms \<and>
       ts = member_tokens ms @ rest \<and> \<not> json_more rest"
  "unique_elements n ts = Some rest \<Longrightarrow>
     \<exists>vs. list_all strict_tree vs \<and> ts = concat (map tokens_of vs) @ rest \<and> \<not> json_more rest"
proof (induction n ts and n seen ts and n ts arbitrary: rest and rest and rest
    rule: unique_value_unique_members_unique_elements.induct)
  case (2 n ts)
  from "2.prems" obtain t us where ts: "ts = t # us" by (auto split: list.splits)
  show ?case
  proof (cases t)
    case Tk_Object_Open
    with "2.prems" ts obtain mid where m: "unique_members n [] us = Some mid" "mid = Tk_Object_Close # rest"
      by (auto simp: json_close_eq split: Option.bind_splits)
    from "2.IH"(1) [OF ts Tk_Object_Open m(1)] obtain ms where
      "distinct (map fst ms)" "list_all (\<lambda>(_, v). strict_tree v) ms" "us = member_tokens ms @ mid" by blast
    then show ?thesis
      using ts Tk_Object_Open m(2) by (intro exI [of _ "Jt_Object ms"]) (simp add: member_tokens_def)
  next
    case Tk_Array_Open
    with "2.prems" ts obtain mid where m: "unique_elements n us = Some mid" "mid = Tk_Array_Close # rest"
      by (auto simp: json_close_eq split: Option.bind_splits)
    from "2.IH"(2) [OF ts Tk_Array_Open m(1)] obtain vs where
      "list_all strict_tree vs" "us = concat (map tokens_of vs) @ mid" by blast
    then show ?thesis using ts Tk_Array_Open m(2) by (intro exI [of _ "Jt_Array vs"]) simp
  next
    case (Tk_Bool b)
    then show ?thesis using "2.prems" ts by (intro exI [of _ "Jt_Bool b"]) simp
  next
    case (Tk_Number s)
    then show ?thesis using "2.prems" ts by (intro exI [of _ "Jt_Number s"]) simp
  next
    case (Tk_String s)
    then show ?thesis using "2.prems" ts by (intro exI [of _ "Jt_String s"]) simp
  qed (use "2.prems" ts in simp_all)
next
  case (4 n seen ts)
  show ?case
  proof (cases "json_more ts")
    case False
    then show ?thesis using "4.prems" by (intro exI [of _ "[]"]) simp
  next
    case True
    with "4.prems" obtain k us mid where ts: "ts = Tk_String k # us" and k: "k \<notin> set seen"
      and u: "unique_value n us = Some mid" "unique_members n (k # seen) mid = Some rest"
      by (auto split: list.splits json_token.splits if_splits Option.bind_splits)
    have c: "\<not> \<not> json_more ts" using True by simp
    from "4.IH"(1) [OF c ts _ k u(1)] obtain v where v: "strict_tree v" "us = tokens_of v @ mid" by blast
    from "4.IH"(2) [OF c ts _ k u] obtain ms where
      "distinct (map fst ms)" "set (map fst ms) \<inter> set (k # seen) = {}" "list_all (\<lambda>(_, v). strict_tree v) ms"
      "mid = member_tokens ms @ rest" "\<not> json_more rest" by blast
    then show ?thesis using ts k v by (intro exI [of _ "(k, v) # ms"]) auto
  qed
next
  case (6 n ts)
  show ?case
  proof (cases "json_more ts")
    case False
    then show ?thesis using "6.prems" by (intro exI [of _ "[]"]) simp
  next
    case True
    with "6.prems" obtain mid where u: "unique_value n ts = Some mid" "unique_elements n mid = Some rest"
      by (auto split: Option.bind_splits)
    have c: "\<not> \<not> json_more ts" using True by simp
    from "6.IH"(1) [OF c u(1)] obtain v where v: "strict_tree v" "ts = tokens_of v @ mid" by blast
    from "6.IH"(2) [OF c u] obtain vs where
      "list_all strict_tree vs" "mid = concat (map tokens_of vs) @ rest" "\<not> json_more rest" by blast
    then show ?thesis using v by (intro exI [of _ "v # vs"]) simp
  qed
qed simp_all


lemma tokens_of_not_Nil: "0 < length (tokens_of v)"
  by (cases v) simp_all

lemma strict_Nil: "strict_tree v \<Longrightarrow> tokens_of v \<noteq> [Tk_Null]"
  by (cases v) simp_all

text \<open>As much fuel as there are tokens is enough.\<close>

lemma unique_complete:
  "length (tokens_of v) \<le> n \<Longrightarrow> strict_tree v \<Longrightarrow> unique_value n (tokens_of v @ rest) = Some rest"
  "Suc (length (member_tokens ms)) \<le> n \<Longrightarrow> list_all (\<lambda>(_, v). strict_tree v) ms \<Longrightarrow> distinct (map fst ms) \<Longrightarrow>
     set (map fst ms) \<inter> set seen = {} \<Longrightarrow> \<not> json_more rest \<Longrightarrow> unique_members n seen (member_tokens ms @ rest) = Some rest"
  "Suc (length (concat (map tokens_of vs))) \<le> n \<Longrightarrow> list_all strict_tree vs \<Longrightarrow> \<not> json_more rest \<Longrightarrow>
     unique_elements n (concat (map tokens_of vs) @ rest) = Some rest"
proof (induction n arbitrary: v ms vs seen rest)
  case 0
  { case 1 then show ?case using tokens_of_not_Nil [of v] by simp }
  { case 2 then show ?case by simp }
  { case 3 then show ?case by simp }
next
  case (Suc n)
  { case 1
    show ?case
    proof (cases v)
      case (Jt_Object ms)
      have "unique_members n [] (member_tokens ms @ Tk_Object_Close # rest) = Some (Tk_Object_Close # rest)"
        by (rule Suc.IH(2)) (use 1 Jt_Object in \<open>auto simp: member_tokens_def\<close>)
      then show ?thesis using Jt_Object by (simp add: member_tokens_def)
    next
      case (Jt_Array vs)
      have "unique_elements n (concat (map tokens_of vs) @ Tk_Array_Close # rest) = Some (Tk_Array_Close # rest)"
        by (rule Suc.IH(3)) (use 1 Jt_Array in auto)
      then show ?thesis using Jt_Array by simp
    qed (use 1 in simp_all)
  }
  { case 2
    show ?case
    proof (cases ms)
      case Nil
      then show ?thesis using 2 by simp
    next
      case (Cons m ms')
      obtain k v where m: "m = (k, v)" by force
      have l: "length (tokens_of v) + length (member_tokens ms') < n" using 2(1) Cons m by simp
      have "unique_value n (tokens_of v @ member_tokens ms' @ rest) = Some (member_tokens ms' @ rest)"
        by (rule Suc.IH(1)) (use l 2(2) Cons m in auto)
      moreover have "unique_members n (k # seen) (member_tokens ms' @ rest) = Some rest"
        by (rule Suc.IH(2)) (use l 2 Cons m in auto)
      ultimately show ?thesis using 2(4) Cons m by simp
    qed
  }
  { case 3
    show ?case
    proof (cases vs)
      case Nil
      then show ?thesis using 3 by simp
    next
      case (Cons v vs')
      then have "length (tokens_of v) + length (concat (map tokens_of vs')) \<le> n" using 3(1) by simp
      then have l: "length (tokens_of v) \<le> n" "Suc (length (concat (map tokens_of vs'))) \<le> n"
        using tokens_of_not_Nil [of v] by linarith+
      have "unique_value n (tokens_of v @ concat (map tokens_of vs') @ rest) = Some (concat (map tokens_of vs') @ rest)"
        by (rule Suc.IH(1)) (use l 3(2) Cons in auto)
      moreover have "unique_elements n (concat (map tokens_of vs') @ rest) = Some rest"
        by (rule Suc.IH(3)) (use l 3 Cons in auto)
      ultimately show ?thesis using Cons tokens_of_more by simp
    qed
  }
qed

lemma unique_json_iff:
  "unique_json s \<longleftrightarrow> (\<exists>v. strict_tree v \<and> js_tokens s = tokens_of v \<and> js_eof s)"
proof
  assume "unique_json s"
  then show "\<exists>v. strict_tree v \<and> js_tokens s = tokens_of v \<and> js_eof s"
    using unique_sound(1) [of "length (js_tokens s)" "js_tokens s" "[]"] by (auto simp: unique_json_def)
next
  assume "\<exists>v. strict_tree v \<and> js_tokens s = tokens_of v \<and> js_eof s"
  then obtain v where v: "strict_tree v" "js_tokens s = tokens_of v" "js_eof s" by blast
  have "unique_value (length (js_tokens s)) (js_tokens s @ []) = Some []"
    unfolding v(2) by (rule unique_complete(1)) (use v in simp_all)
  then show "unique_json s" using v(3) by (simp add: unique_json_def)
qed

section \<open>The value of a document\<close>

text \<open>What \<open>json.Unmarshal\<close> builds from the tokens; it takes duplicate keys.\<close>

fun read_value :: "nat \<Rightarrow> json_token list \<Rightarrow> (json_tree \<times> json_token list) option"
  and read_members :: "nat \<Rightarrow> json_token list \<Rightarrow> ((string \<times> json_tree) list \<times> json_token list) option"
  and read_elements :: "nat \<Rightarrow> json_token list \<Rightarrow> (json_tree list \<times> json_token list) option" where
  "read_value 0 ts = None"
| "read_value (Suc n) ts =
     (case ts of
        [] \<Rightarrow> None
      | Tk_Null # rest \<Rightarrow> Some (Jt_Null, rest)
      | Tk_Bool b # rest \<Rightarrow> Some (Jt_Bool b, rest)
      | Tk_Number s # rest \<Rightarrow> Some (Jt_Number s, rest)
      | Tk_String s # rest \<Rightarrow> Some (Jt_String s, rest)
      | Tk_Object_Open # rest \<Rightarrow>
          Option.bind (read_members n rest) (\<lambda>(ms, us). map_option (Pair (Jt_Object ms)) (json_close Tk_Object_Close us))
      | Tk_Array_Open # rest \<Rightarrow>
          Option.bind (read_elements n rest) (\<lambda>(vs, us). map_option (Pair (Jt_Array vs)) (json_close Tk_Array_Close us))
      | _ \<Rightarrow> None)"
| "read_members 0 ts = None"
| "read_members (Suc n) ts =
     (if \<not> json_more ts then Some ([], ts)
      else case ts of
             Tk_String k # rest \<Rightarrow>
               Option.bind (read_value n rest) (\<lambda>(v, us). map_option (\<lambda>(ms, ws). ((k, v) # ms, ws)) (read_members n us))
           | _ \<Rightarrow> None)"
| "read_elements 0 ts = None"
| "read_elements (Suc n) ts =
     (if \<not> json_more ts then Some ([], ts)
      else Option.bind (read_value n ts) (\<lambda>(v, us). map_option (\<lambda>(vs, ws). (v # vs, ws)) (read_elements n us)))"

definition json_value :: "json_stream \<Rightarrow> json_tree option" where
  "json_value s =
     (case read_value (length (js_tokens s)) (js_tokens s) of
        Some (v, rest) \<Rightarrow> if rest = [] \<and> js_eof s then Some v else None
      | None \<Rightarrow> None)"

lemma read_complete:
  "length (tokens_of v) \<le> n \<Longrightarrow> read_value n (tokens_of v @ rest) = Some (v, rest)"
  "Suc (length (member_tokens ms)) \<le> n \<Longrightarrow> \<not> json_more rest \<Longrightarrow> read_members n (member_tokens ms @ rest) = Some (ms, rest)"
  "Suc (length (concat (map tokens_of vs))) \<le> n \<Longrightarrow> \<not> json_more rest \<Longrightarrow>
     read_elements n (concat (map tokens_of vs) @ rest) = Some (vs, rest)"
proof (induction n arbitrary: v ms vs rest)
  case 0
  { case 1 then show ?case using tokens_of_not_Nil [of v] by simp }
  { case 2 then show ?case by simp }
  { case 3 then show ?case by simp }
next
  case (Suc n)
  { case 1
    show ?case
    proof (cases v)
      case (Jt_Object ms)
      have "read_members n (member_tokens ms @ Tk_Object_Close # rest) = Some (ms, Tk_Object_Close # rest)"
        by (rule Suc.IH(2)) (use 1 Jt_Object in \<open>auto simp: member_tokens_def\<close>)
      then show ?thesis using Jt_Object by (simp add: member_tokens_def)
    next
      case (Jt_Array vs)
      have "read_elements n (concat (map tokens_of vs) @ Tk_Array_Close # rest) = Some (vs, Tk_Array_Close # rest)"
        by (rule Suc.IH(3)) (use 1 Jt_Array in auto)
      then show ?thesis using Jt_Array by simp
    qed simp_all
  }
  { case 2
    show ?case
    proof (cases ms)
      case Nil
      then show ?thesis using 2 by simp
    next
      case (Cons m ms')
      obtain k v where m: "m = (k, v)" by force
      have l: "length (tokens_of v) + length (member_tokens ms') < n" using 2(1) Cons m by simp
      then show ?thesis using Suc.IH(1) [of v "member_tokens ms' @ rest"] Suc.IH(2) [of ms' rest] 2(2) Cons m by simp
    qed
  }
  { case 3
    show ?case
    proof (cases vs)
      case Nil
      then show ?thesis using 3 by simp
    next
      case (Cons v vs')
      then have "length (tokens_of v) + length (concat (map tokens_of vs')) \<le> n" using 3(1) by simp
      then have l: "length (tokens_of v) \<le> n" "Suc (length (concat (map tokens_of vs'))) \<le> n"
        using tokens_of_not_Nil [of v] by linarith+
      have "read_value n (tokens_of v @ concat (map tokens_of vs') @ rest) = Some (v, concat (map tokens_of vs') @ rest)"
        by (rule Suc.IH(1)) (use l in simp)
      moreover have "read_elements n (concat (map tokens_of vs') @ rest) = Some (vs', rest)"
        by (rule Suc.IH(3)) (use l 3(2) in auto)
      ultimately show ?thesis using Cons tokens_of_more by simp
    qed
  }
qed

lemma json_value_tokens: "js_tokens s = tokens_of v \<Longrightarrow> js_eof s \<Longrightarrow> json_value s = Some v"
  using read_complete(1) [of v "length (tokens_of v)" "[]"] by (simp add: json_value_def)

section \<open>Required fields\<close>

text \<open>
  The reflected type of the destination: the fields of a struct with their Go names and the contents of their \<open>json\<close> tags, a
  slice, or anything else.
\<close>

datatype go_kind =
    Gk_Struct "(string \<times> string \<times> go_kind) list"
  | Gk_Slice go_kind
  | Gk_Other

definition field_key :: "string \<Rightarrow> string \<Rightarrow> string option" where
  "field_key go_name tag =
     (let name = (case str_cut tag '','' of Some (n, _) \<Rightarrow> n | None \<Rightarrow> tag) in
      if name = ''-'' then None else Some (if name = [] then go_name else name))"

fun required_fields :: "json_tree \<Rightarrow> go_kind \<Rightarrow> bool" where
  "required_fields v (Gk_Struct fs) =
     (case v of
        Jt_Object ms \<Rightarrow>
          list_all (\<lambda>(go_name, tag, kind).
            case field_key go_name tag of
              None \<Rightarrow> True
            | Some name \<Rightarrow> (case map_of (rev ms) name of None \<Rightarrow> False | Some w \<Rightarrow> required_fields w kind)) fs
      | Jt_Null \<Rightarrow> list_all (\<lambda>(go_name, tag, _). field_key go_name tag = None) fs
      | _ \<Rightarrow> False)"
| "required_fields v (Gk_Slice kind) =
     (case v of
        Jt_Array vs \<Rightarrow> list_all (\<lambda>w. required_fields w kind) vs
      | Jt_Null \<Rightarrow> True
      | _ \<Rightarrow> False)"
| "required_fields v Gk_Other = True"

text \<open>\<open>Decoder.Decode\<close> into the destination, unknown fields refused, is \<open>typed\<close>.\<close>

definition strict_decode :: "(json_tree \<Rightarrow> 'a option) \<Rightarrow> go_kind \<Rightarrow> json_stream \<Rightarrow> 'a option" where
  "strict_decode typed kind s =
     (if \<not> unique_json s then None
      else case json_value s of
             None \<Rightarrow> None
           | Some v \<Rightarrow> if \<not> required_fields v kind then None else typed v)"

text \<open>
  C37: strict decoding of evidence accepts exactly the documents that are one value, without null anywhere and
  without a repeated key in any object, that give every field of the destination in every nested struct, and that
  the typed decoder takes; the result is that decoder's result on the denoted value.
\<close>

theorem strict_decode_iff:
  "strict_decode typed kind s = Some x \<longleftrightarrow>
     (\<exists>v. js_tokens s = tokens_of v \<and> js_eof s \<and> strict_tree v \<and> required_fields v kind \<and> typed v = Some x)"
proof (cases "unique_json s")
  case True
  then obtain v where v: "strict_tree v" "js_tokens s = tokens_of v" "js_eof s" by (auto simp: unique_json_iff)
  have "w = v" if "js_tokens s = tokens_of w" for w
    using json_value_tokens [OF that v(3)] json_value_tokens [OF v(2,3)] by simp
  then show ?thesis using True v json_value_tokens [OF v(2,3)] by (auto simp: strict_decode_def)
qed (auto simp: strict_decode_def unique_json_iff)

end
