(* ===== verification/Campaign.thy ===== *)
theory Campaign
  imports Closure Allocation Snapshot Measure_Plan Strict_Json
begin

text \<open>
  Verification of an allocation campaign (\<open>internal/allocationcampaign/campaign.go\<close>): \<open>Verify\<close> with \<open>parseSample\<close>,
  \<open>ReadInvocation\<close>, the pairs and the medians of \<open>report\<close>. The directory is the contents of its files; the
  hashes, the lexer of JSON, the archive reader and the decoders of the plan and the records are parameters.
\<close>

section \<open>Data\<close>

record build_pin =
  bp_root :: string
  bp_commit :: string
  bp_instrumentation :: "(string \<times> string) list"
  bp_archive :: string
  bp_tree :: string
  bp_environment :: string
  bp_binary :: string
  bp_sha256 :: string

record measure_plan =
  mp_schema :: int
  mp_n :: int
  mp_pairs :: int
  mp_procs :: "int list"
  mp_package :: string
  mp_diagnostic :: string
  mp_builds :: "build_pin list"
  mp_invocations :: "run_cell list"
  mp_runtime :: "(string \<times> string) list"
  mp_roots :: "string list"

record run_record =
  rr_cell :: run_cell
  rr_exit :: int
  rr_stdout :: string
  rr_stderr :: string

record alloc_pair =
  ap_phase :: string
  ap_procs :: int
  ap_index :: int
  ap_a :: allocation
  ap_b :: allocation
  ap_delta :: delta

record median_row =
  mr_phase :: string
  mr_procs :: int
  mr_a_bytes :: rat
  mr_b_bytes :: rat
  mr_bytes_difference :: rat
  mr_a_allocs :: rat
  mr_b_allocs :: rat
  mr_allocs_difference :: rat

record alloc_report =
  ar_pairs :: "alloc_pair list"
  ar_medians :: "median_row list"

datatype verify_error =
    Unreadable string
  | Refused string
  | Sample_refused string bench_error

section \<open>Medians\<close>

text \<open>Rationals stand for the strings that \<open>RatString\<close> prints of them.\<close>

definition median :: "int list \<Rightarrow> rat" where
  "median values =
     (let vs = sort values; middle = length vs div 2 in
      if length vs mod 2 \<noteq> 0 then of_int (vs ! middle)
      else of_int (vs ! (middle - 1) + vs ! middle) / 2)"

definition arm_values :: "alloc_pair list \<Rightarrow> string \<Rightarrow> int \<Rightarrow> (alloc_pair \<Rightarrow> int) \<Rightarrow> int list" where
  "arm_values pairs phase procs f = map f (filter (\<lambda>p. ap_phase p = phase \<and> ap_procs p = procs) pairs)"

definition median_of :: "alloc_pair list \<Rightarrow> string \<Rightarrow> int \<Rightarrow> median_row" where
  "median_of pairs phase procs =
     (let ab = median (arm_values pairs phase procs (\<lambda>p. al_bytes_per_op (ap_a p)));
          bb = median (arm_values pairs phase procs (\<lambda>p. al_bytes_per_op (ap_b p)));
          aa = median (arm_values pairs phase procs (\<lambda>p. al_allocs_per_op (ap_a p)));
          ba = median (arm_values pairs phase procs (\<lambda>p. al_allocs_per_op (ap_b p))) in
      \<lparr>mr_phase = phase, mr_procs = procs, mr_a_bytes = ab, mr_b_bytes = bb, mr_bytes_difference = bb - ab,
       mr_a_allocs = aa, mr_b_allocs = ba, mr_allocs_difference = ba - aa\<rparr>)"

fun median_rows :: "alloc_pair list \<Rightarrow> (string \<times> int) list \<Rightarrow> alloc_pair list \<Rightarrow> median_row list" where
  "median_rows pairs seen [] = []"
| "median_rows pairs seen (p # ps) =
     (let key = (ap_phase p, ap_procs p) in
      if key \<in> set seen then median_rows pairs seen ps
      else median_of pairs (fst key) (snd key) # median_rows pairs (seen @ [key]) ps)"

definition report :: "alloc_pair list \<Rightarrow> alloc_report" where
  "report pairs = \<lparr>ar_pairs = pairs, ar_medians = median_rows pairs [] pairs\<rparr>"

section \<open>Samples\<close>

definition fixed_count :: int where "fixed_count = 1024"

definition max_invocations :: int where "max_invocations = 100000"

text \<open>\<open>fmt.Sprintf("sample-%04d", index)\<close>.\<close>

definition invocation_name :: "nat \<Rightarrow> string" where
  "invocation_name i =
     (let d = itoa (int i) in ''sample-'' @ replicate (4 - length d) (CHR ''0'') @ d)"

text \<open>
  The lines of \<open>bufio.Scanner\<close>: without the line feed and one carriage return before it, nothing after the last line
  feed unless it is not empty; a line that does not fit the buffer of 1 MiB with its line feed is an error.
\<close>

definition drop_cr :: "string \<Rightarrow> string" where
  "drop_cr line = (if line \<noteq> [] \<and> last line = CHR 0x0D then butlast line else line)"

definition scan_lines :: "string \<Rightarrow> string list \<times> bool" where
  "scan_lines out =
     (let parts = split_on (CHR 0x0A) out;
          lines = (if last parts = [] then butlast parts else parts);
          short = takeWhile (\<lambda>l. length l < 1048576) lines in
      (map drop_cr short, length short = length lines))"

definition allocation_keys :: "string list" where
  "allocation_keys =
     [''n'', ''memBytes'', ''memAllocs'', ''bytesPerOp'', ''bytesRemainder'', ''allocsPerOp'', ''allocsRemainder'']"

definition allocation_kind :: go_kind where
  "allocation_kind =
     Gk_Struct [(''N'', ''n'', Gk_Other), (''MemBytes'', ''memBytes'', Gk_Other), (''MemAllocs'', ''memAllocs'', Gk_Other),
       (''BytesPerOp'', ''bytesPerOp'', Gk_Other), (''BytesRemainder'', ''bytesRemainder'', Gk_Other),
       (''AllocsPerOp'', ''allocsPerOp'', Gk_Other), (''AllocsRemainder'', ''allocsRemainder'', Gk_Other)]"

text \<open>Into \<open>map[string]json.RawMessage\<close>: an object; the number of its keys is what is looked at.\<close>

fun typed_fields :: "json_tree \<Rightarrow> nat option" where
  "typed_fields (Jt_Object ms) = Some (card (fst ` set ms))"
| "typed_fields _ = None"

definition typed_int :: "json_tree \<Rightarrow> int option" where
  "typed_int v = (case v of Jt_Number s \<Rightarrow> parse_int64 s | _ \<Rightarrow> None)"

text \<open>
  Decoding into a struct: the members in order, each to the field of that key or, failing that, of that key but for
  the case of letters; a key of no field is refused. Later members overwrite earlier ones.
\<close>

definition field_of :: "string list \<Rightarrow> string \<Rightarrow> string option" where
  "field_of keys k =
     (if k \<in> set keys then Some k else List.find (\<lambda>n. equal_fold k (ascii_lower n)) keys)"

fun decode_members :: "('a \<Rightarrow> string \<times> json_tree \<Rightarrow> 'a option) \<Rightarrow> 'a \<Rightarrow> (string \<times> json_tree) list \<Rightarrow> 'a option" where
  "decode_members f x [] = Some x"
| "decode_members f x (m # ms) = Option.bind (f x m) (\<lambda>y. decode_members f y ms)"

definition decode_struct :: "('a \<Rightarrow> string \<times> json_tree \<Rightarrow> 'a option) \<Rightarrow> 'a \<Rightarrow> json_tree \<Rightarrow> 'a option" where
  "decode_struct f x v = (case v of Jt_Object ms \<Rightarrow> decode_members f x ms | _ \<Rightarrow> None)"

definition set_allocation :: "allocation \<Rightarrow> string \<Rightarrow> int \<Rightarrow> allocation" where
  "set_allocation a k i =
     (if k = ''n'' then a\<lparr>al_n := i\<rparr>
      else if k = ''memBytes'' then a\<lparr>al_mem_bytes := i\<rparr>
      else if k = ''memAllocs'' then a\<lparr>al_mem_allocs := i\<rparr>
      else if k = ''bytesPerOp'' then a\<lparr>al_bytes_per_op := i\<rparr>
      else if k = ''bytesRemainder'' then a\<lparr>al_bytes_rem := i\<rparr>
      else if k = ''allocsPerOp'' then a\<lparr>al_allocs_per_op := i\<rparr>
      else a\<lparr>al_allocs_rem := i\<rparr>)"

definition assign_allocation :: "allocation \<Rightarrow> string \<times> json_tree \<Rightarrow> allocation option" where
  "assign_allocation a m =
     (case field_of allocation_keys (fst m) of
        None \<Rightarrow> None
      | Some k \<Rightarrow> map_option (set_allocation a k) (typed_int (snd m)))"

definition zero_allocation :: allocation where
  "zero_allocation =
     \<lparr>al_n = 0, al_mem_bytes = 0, al_mem_allocs = 0, al_bytes_per_op = 0, al_bytes_rem = 0, al_allocs_per_op = 0,
      al_allocs_rem = 0\<rparr>"

definition typed_allocation :: "json_tree \<Rightarrow> allocation option" where
  "typed_allocation v = decode_struct assign_allocation zero_allocation v"

text \<open>The loop over the lines: the sample so far, the samples and the passes counted.\<close>

fun sample_lines :: "(string \<Rightarrow> json_stream) \<Rightarrow> allocation option \<Rightarrow> nat \<Rightarrow> nat \<Rightarrow> string list \<Rightarrow>
    verify_error + allocation option \<times> nat \<times> nat" where
  "sample_lines lexer acc taken passes [] = Inr (acc, taken, passes)"
| "sample_lines lexer acc taken passes (l # ls) =
     (let line = trim_space l; passes' = (if line = ''PASS'' then Suc passes else passes) in
      if has_prefix line ''FAIL'' then Inl (Refused ''failed invocation output'')
      else if \<not> has_prefix line ''{'' then sample_lines lexer acc taken passes' ls
      else case strict_decode typed_fields Gk_Other (lexer line) of
        None \<Rightarrow> Inl (Refused ''decode'')
      | Some k \<Rightarrow>
          if k \<noteq> 7 then Inl (Refused ''missing exact allocation fields'')
          else case strict_decode typed_allocation allocation_kind (lexer line) of
            None \<Rightarrow> Inl (Refused ''decode'')
          | Some a \<Rightarrow> sample_lines lexer (Some a) (Suc taken) passes' ls)"

definition parse_sample :: "(string \<Rightarrow> json_stream) \<Rightarrow> string \<Rightarrow> verify_error + allocation" where
  "parse_sample lexer out =
     (let (lines, fits) = scan_lines out in
      case sample_lines lexer None 0 0 lines of
        Inl e \<Rightarrow> Inl e
      | Inr (sample, taken, passes) \<Rightarrow>
          if \<not> fits then Inl (Refused ''bufio.Scanner: token too long'')
          else case sample of
            None \<Rightarrow> Inl (Refused ''expected exactly one exact fixed-count sample and PASS'')
          | Some a \<Rightarrow>
              if taken \<noteq> 1 \<or> passes \<noteq> 1 \<or> al_n a \<noteq> fixed_count
              then Inl (Refused ''expected exactly one exact fixed-count sample and PASS'')
              else case paired_delta a a of
                Inl e \<Rightarrow> Inl (Sample_refused [] e)
              | Inr _ \<Rightarrow> Inr a)"

section \<open>Verification\<close>

record campaign_tools =
  ct_hashes :: tree_hashes
  ct_lexer :: "string \<Rightarrow> json_stream"
  ct_plan :: "json_tree \<Rightarrow> measure_plan option"
  ct_records :: "json_tree \<Rightarrow> run_record list option"
  ct_tar :: "string \<Rightarrow> tar_stream"
  ct_replacements :: "string \<Rightarrow> string list option"
  ct_temp :: string

text \<open>The directory of the campaign: the files that can be read, and the names \<open>os.ReadDir\<close> lists.\<close>

record campaign_dir =
  cd_files :: "string \<Rightarrow> string option"
  cd_entries :: "string list"

definition then_ok :: "'e + 'a \<Rightarrow> ('a \<Rightarrow> 'e + 'b) \<Rightarrow> 'e + 'b" where
  "then_ok r f = (case r of Inl e \<Rightarrow> Inl e | Inr x \<Rightarrow> f x)"

lemma then_ok_Inr [simp]: "then_ok r f = Inr y \<longleftrightarrow> (\<exists>x. r = Inr x \<and> f x = Inr y)"
  by (simp add: then_ok_def split: sum.splits)

definition require :: "bool \<Rightarrow> string \<Rightarrow> verify_error + unit" where
  "require b message = (if b then Inr () else Inl (Refused message))"

lemma require_Inr [simp]: "require b message = Inr u \<longleftrightarrow> b"
  by (simp add: require_def)

definition dir_read :: "campaign_dir \<Rightarrow> string \<Rightarrow> verify_error + string" where
  "dir_read d name = (case cd_files d name of None \<Rightarrow> Inl (Unreadable name) | Some s \<Rightarrow> Inr s)"

lemma dir_read_Inr [simp]: "dir_read d name = Inr s \<longleftrightarrow> cd_files d name = Some s"
  by (simp add: dir_read_def split: option.splits)

definition check_pin :: "campaign_tools \<Rightarrow> campaign_dir \<Rightarrow> string \<Rightarrow> string \<Rightarrow> verify_error + unit" where
  "check_pin t d path pin =
     then_ok (dir_read d path) (\<lambda>data.
       require (length pin = 64 \<and> th_sha256 (ct_hashes t) data = pin)
         (path @ '' does not match independently retained SHA256''))"

definition read_json ::
  "campaign_tools \<Rightarrow> campaign_dir \<Rightarrow> (json_tree \<Rightarrow> 'a option) \<Rightarrow> go_kind \<Rightarrow> string \<Rightarrow> verify_error + 'a" where
  "read_json t d typed kind path =
     then_ok (dir_read d path) (\<lambda>data.
       case strict_decode typed kind (ct_lexer t data) of None \<Rightarrow> Inl (Refused ''decode'') | Some x \<Rightarrow> Inr x)"

definition cell_kind :: go_kind where
  "cell_kind =
     Gk_Struct [(''Phase'', ''phase'', Gk_Other), (''Pair'', ''pair'', Gk_Other), (''Procs'', ''gomaxprocs'', Gk_Other),
       (''Arm'', ''arm'', Gk_Other), (''Binary'', ''binary'', Gk_Other), (''Selection'', ''selection'', Gk_Other)]"

definition build_kind :: go_kind where
  "build_kind =
     Gk_Struct [(''Root'', ''root'', Gk_Other), (''Commit'', ''commit'', Gk_Other),
       (''Instrumentation'', ''instrumentationSHA256'', Gk_Other), (''ArchiveSHA256'', ''archiveSHA256'', Gk_Other),
       (''TreeSHA256'', ''treeSHA256'', Gk_Other), (''Environment'', ''environment'', Gk_Other),
       (''Binary'', ''binary'', Gk_Other), (''SHA256'', ''sha256'', Gk_Other)]"

definition plan_kind :: go_kind where
  "plan_kind =
     Gk_Struct [(''Schema'', ''schema'', Gk_Other), (''N'', ''n'', Gk_Other), (''Pairs'', ''pairs'', Gk_Other),
       (''Procs'', ''procs'', Gk_Slice Gk_Other), (''Package'', ''package'', Gk_Other),
       (''Diagnostic'', ''diagnostic'', Gk_Other), (''Builds'', ''builds'', Gk_Slice build_kind),
       (''Invocations'', ''invocations'', Gk_Slice cell_kind), (''RuntimeEnvironment'', ''runtimeEnvironment'', Gk_Other),
       (''InstrumentationRoots'', ''instrumentationRoots'', Gk_Slice Gk_Other)]"

definition records_kind :: go_kind where
  "records_kind =
     Gk_Slice (Gk_Struct [(''Invocation'', ''invocation'', cell_kind), (''Exit'', ''exit'', Gk_Other),
       (''StdoutSHA256'', ''stdoutSHA256'', Gk_Other), (''StderrSHA256'', ''stderrSHA256'', Gk_Other)])"

text \<open>Equality of maps, whatever the order of their entries.\<close>

definition same_map :: "(string \<times> string) list \<Rightarrow> (string \<times> string) list \<Rightarrow> bool" where
  "same_map xs ys = list_all (\<lambda>k. map_of xs k = map_of ys k) (map fst xs @ map fst ys)"

definition check_plan :: "measure_plan \<Rightarrow> verify_error + unit" where
  "check_plan p =
     (let procs = int (length (mp_procs p)) in
      if mp_schema p \<noteq> 1 \<or> mp_n p \<noteq> fixed_count \<or> mp_pairs p < 2 \<or> mp_pairs p mod 2 \<noteq> 0 \<or> procs = 0 \<or>
         procs > max_invocations div 4 \<or> mp_pairs p > max_invocations div (4 * procs) \<or> length (mp_builds p) \<noteq> 2 \<or>
         mp_invocations p \<noteq> invocations (mp_pairs p) (mp_procs p)
      then Inl (Refused ''invalid predeclared matrix'')
      else if length (mp_runtime p) \<noteq> 3 then Inl (Refused ''missing runtime environment pins'')
      else if length (mp_roots p) < 2 \<or> mp_roots p ! 0 \<noteq> mp_diagnostic p \<or> mp_roots p ! 1 \<noteq> ''benchmarkevidence''
      then Inl (Refused ''missing complete wrapper/helper instrumentation roots'')
      else if \<not> list_all (\<lambda>k. map_of (mp_runtime p) k \<noteq> None) [''GODEBUG'', ''GOGC'', ''GOMEMLIMIT'']
      then Inl (Refused ''missing runtime environment pin'')
      else require (list_all (\<lambda>q. q > 0) (mp_procs p) \<and> distinct (mp_procs p)) ''invalid process counts'')"

definition provenance_kinds :: "string list" where
  "provenance_kinds =
     [''status'', ''commit'', ''environment'', ''build'', ''postbuild-status'', ''postbuild-commit'', ''archive'', ''tree'']"

fun check_provenance :: "campaign_dir \<Rightarrow> string \<Rightarrow> string list \<Rightarrow> verify_error + unit" where
  "check_provenance d name [] = Inr ()"
| "check_provenance d name (kind # kinds) =
     (let base = name @ ''-'' @ kind in
      then_ok (dir_read d (base @ ''.exit'')) (\<lambda>code.
      then_ok (require (code = exit_text 0) ''unsuccessful build provenance'') (\<lambda>_.
      then_ok (dir_read d (base @ ''.stdout'')) (\<lambda>_.
      then_ok (dir_read d (base @ ''.stderr'')) (\<lambda>_.
      check_provenance d name kinds)))))"

text \<open>The unpacked archive of a build is the committed tree, and its instrumentation the one that was pinned.\<close>

definition check_source :: "campaign_tools \<Rightarrow> campaign_dir \<Rightarrow> measure_plan \<Rightarrow> string \<Rightarrow> build_pin \<Rightarrow> verify_error + unit" where
  "check_source t d p name b =
     then_ok (dir_read d (name @ ''-archive.stdout'')) (\<lambda>archive.
     then_ok (require (th_sha256 (ct_hashes t) archive = bp_archive b) ''pinned source archive hash mismatch'') (\<lambda>_.
     case unpack (ct_temp t) empty_tree (ct_tar t archive) of
       None \<Rightarrow> Inl (Refused ''unpack'')
     | Some st \<Rightarrow>
         then_ok (dir_read d (name @ ''-tree.stdout'')) (\<lambda>tree.
         then_ok (require (th_sha256 (ct_hashes t) tree = bp_tree b) ''pinned git tree hash mismatch'') (\<lambda>_.
         then_ok (require (exact_tree (ct_hashes t) st (ct_temp t) tree) ''source tree'') (\<lambda>_.
         then_ok (require (pinned_module (ct_replacements t) st (ct_temp t)) ''local module replacements'') (\<lambda>_.
         case instrumentation (ct_hashes t) st (ct_temp t) (mp_roots p) of
           None \<Rightarrow> Inl (Refused ''instrumentation'')
         | Some i \<Rightarrow> require (same_map i (bp_instrumentation b)) ''retained instrumentation hash mismatch''))))))"

definition check_streams :: "campaign_dir \<Rightarrow> string \<Rightarrow> build_pin \<Rightarrow> verify_error + unit" where
  "check_streams d name b =
     then_ok (dir_read d (name @ ''-commit.stdout'')) (\<lambda>commit.
     then_ok (require (trim_space commit = bp_commit b) ''source pin mismatch'') (\<lambda>_.
     then_ok (dir_read d (name @ ''-postbuild-commit.stdout'')) (\<lambda>post.
     then_ok (require (commit = post) ''source commit changed during build'') (\<lambda>_.
     then_ok (dir_read d (name @ ''-environment.stdout'')) (\<lambda>environment.
     then_ok (require (environment = bp_environment b) ''environment pin mismatch'') (\<lambda>_.
     then_ok (dir_read d (name @ ''-status.stdout'')) (\<lambda>status.
     then_ok (require (trim_space status = []) ''dirty source pin'') (\<lambda>_.
     then_ok (dir_read d (name @ ''-postbuild-status.stdout'')) (\<lambda>post_status.
     require (trim_space post_status = []) ''source changed during build'')))))))))"

definition check_build :: "campaign_tools \<Rightarrow> campaign_dir \<Rightarrow> measure_plan \<Rightarrow> string \<Rightarrow> build_pin \<Rightarrow> verify_error + unit" where
  "check_build t d p name b =
     (let first = mp_builds p ! 0 in
      then_ok (require (\<not> (bp_binary b \<noteq> name @ ''.test'' \<or> length (bp_commit b) \<noteq> 40 \<or> bp_instrumentation b = [] \<or>
          length (bp_archive b) \<noteq> 64 \<or> bp_environment b = [] \<or>
          \<not> same_map (bp_instrumentation b) (bp_instrumentation first) \<or> bp_environment b \<noteq> bp_environment first))
        ''invalid matched build pins'') (\<lambda>_.
      then_ok (dir_read d (bp_binary b)) (\<lambda>data.
      then_ok (require (th_sha256 (ct_hashes t) data = bp_sha256 b) ''binary hash mismatch'') (\<lambda>_.
      then_ok (check_source t d p name b) (\<lambda>_.
      then_ok (check_provenance d name provenance_kinds) (\<lambda>_.
      check_streams d name b))))))"

fun check_builds :: "campaign_tools \<Rightarrow> campaign_dir \<Rightarrow> measure_plan \<Rightarrow> (string \<times> build_pin) list \<Rightarrow> verify_error + unit" where
  "check_builds t d p [] = Inr ()"
| "check_builds t d p ((name, b) # bs) = then_ok (check_build t d p name b) (\<lambda>_. check_builds t d p bs)"

section \<open>The samples of a campaign\<close>

definition empty_pair :: alloc_pair where
  "empty_pair =
     \<lparr>ap_phase = [], ap_procs = 0, ap_index = 0, ap_a = zero_allocation, ap_b = zero_allocation,
      ap_delta = \<lparr>de_n = 0, de_mem_bytes = 0, de_mem_allocs = 0\<rparr>\<rparr>"

definition read_sample ::
  "campaign_tools \<Rightarrow> campaign_dir \<Rightarrow> nat \<Rightarrow> run_record \<Rightarrow> run_cell \<Rightarrow> verify_error + allocation" where
  "read_sample t d i r planned =
     (let name = invocation_name i in
      then_ok (require (\<not> (rr_cell r \<noteq> planned \<or> rr_exit r \<noteq> 0)) ''failed or reordered invocation'') (\<lambda>_.
      then_ok (dir_read d (name @ ''.stdout'')) (\<lambda>out.
      then_ok (dir_read d (name @ ''.stderr'')) (\<lambda>errout.
      then_ok (dir_read d (name @ ''.exit'')) (\<lambda>code.
      then_ok (require (code = exit_text 0 \<and> th_sha256 (ct_hashes t) out = rr_stdout r \<and>
          th_sha256 (ct_hashes t) errout = rr_stderr r) ''raw sample hash or exit mismatch'') (\<lambda>_.
      parse_sample (ct_lexer t) out))))))"

definition take_sample :: "nat \<Rightarrow> run_cell \<Rightarrow> allocation \<Rightarrow> alloc_pair \<Rightarrow> alloc_pair" where
  "take_sample i c sample current =
     (let base = (if i mod 2 = 0
                  then empty_pair\<lparr>ap_phase := rn_phase c, ap_procs := rn_procs c, ap_index := rn_pair c\<rparr> else current) in
      if rn_arm c = ''A'' then base\<lparr>ap_a := sample\<rparr> else base\<lparr>ap_b := sample\<rparr>)"

fun sample_loop :: "campaign_tools \<Rightarrow> campaign_dir \<Rightarrow> nat \<Rightarrow> alloc_pair \<Rightarrow> alloc_pair list \<Rightarrow> run_cell list \<Rightarrow>
    run_record list \<Rightarrow> verify_error + alloc_pair list" where
  "sample_loop t d i current acc (c # cs) (r # rs) =
     then_ok (read_sample t d i r c) (\<lambda>sample.
       let taken = take_sample i (rr_cell r) sample current in
       if i mod 2 = 1 then
         (case paired_delta (ap_a taken) (ap_b taken) of
            Inl e \<Rightarrow> Inl (Sample_refused (invocation_name i) e)
          | Inr dl \<Rightarrow>
              let full = taken\<lparr>ap_delta := dl\<rparr> in sample_loop t d (Suc i) full (acc @ [full]) cs rs)
       else sample_loop t d (Suc i) taken acc cs rs)"
| "sample_loop t d i current acc _ _ = Inr acc"

definition sample_files :: "nat \<Rightarrow> string list" where
  "sample_files n =
     concat (map (\<lambda>i. map (\<lambda>suffix. invocation_name i @ suffix) [''.stdout'', ''.stderr'', ''.exit'']) [0..<n])"

definition verify :: "campaign_tools \<Rightarrow> campaign_dir \<Rightarrow> string \<Rightarrow> string \<Rightarrow> verify_error + alloc_report" where
  "verify t d plan_pin record_pin =
     then_ok (check_pin t d ''plan.json'' plan_pin) (\<lambda>_.
     then_ok (check_pin t d ''records.json'' record_pin) (\<lambda>_.
     then_ok (read_json t d (ct_plan t) plan_kind ''plan.json'') (\<lambda>plan.
     then_ok (check_plan plan) (\<lambda>_.
     then_ok (check_builds t d plan (zip [''old'', ''candidate''] (mp_builds plan))) (\<lambda>_.
     then_ok (read_json t d (ct_records t) records_kind ''records.json'') (\<lambda>records.
     then_ok (require (length records = length (mp_invocations plan)) ''missing or extra invocations'') (\<lambda>_.
     then_ok (require (list_all (\<lambda>n. \<not> (has_prefix n ''sample-'' \<and> n \<notin> set (sample_files (length records)))) (cd_entries d))
       ''unplanned raw sample artifact'') (\<lambda>_.
     then_ok (sample_loop t d 0 empty_pair [] (mp_invocations plan) records) (\<lambda>pairs.
     Inr (report pairs))))))))))"

section \<open>What a verified report says\<close>

lemma parse_int64_bounds: "parse_int64 s = Some i \<Longrightarrow> int64 i"
  by (auto simp: parse_int64_def Let_def split: list.splits if_splits prod.splits)

lemma decode_members_keep:
  "decode_members f x ms = Some y \<Longrightarrow> P x \<Longrightarrow> (\<And>x m y. f x m = Some y \<Longrightarrow> P x \<Longrightarrow> P y) \<Longrightarrow> P y"
  by (induction ms arbitrary: x) (auto split: Option.bind_splits)

lemma assign_allocation_fits: "assign_allocation a m = Some b \<Longrightarrow> fits_int64 a \<Longrightarrow> fits_int64 b"
  by (auto simp: assign_allocation_def set_allocation_def fits_int64_def typed_int_def
      dest!: parse_int64_bounds split: json_tree.splits option.splits)

lemma decode_struct_fits: "decode_struct assign_allocation a v = Some b \<Longrightarrow> fits_int64 a \<Longrightarrow> fits_int64 b"
  unfolding decode_struct_def by (cases v) (auto dest: decode_members_keep [where P = fits_int64] assign_allocation_fits)

lemma zero_fits: "fits_int64 zero_allocation"
  by (simp add: fits_int64_def zero_allocation_def int64_def)

lemma typed_allocation_fits: "typed_allocation v = Some a \<Longrightarrow> fits_int64 a"
  unfolding typed_allocation_def using decode_struct_fits zero_fits by blast

lemma strict_decode_typed: "strict_decode typed kind s = Some x \<Longrightarrow> \<exists>v. typed v = Some x"
  by (auto simp: strict_decode_def split: if_splits option.splits)

lemma sample_lines_fit:
  "sample_lines lexer acc n m ls = Inr (Some a, n', m') \<Longrightarrow> (\<And>b. acc = Some b \<Longrightarrow> fits_int64 b) \<Longrightarrow> fits_int64 a"
proof (induction ls arbitrary: acc n m)
  case (Cons l ls)
  consider (skip) p q where "sample_lines lexer acc p q ls = Inr (Some a, n', m')"
    | (keep) b s p q where "strict_decode typed_allocation allocation_kind s = Some b"
        "sample_lines lexer (Some b) p q ls = Inr (Some a, n', m')"
    using Cons.prems(1) unfolding sample_lines.simps Let_def by (fastforce split: if_splits option.splits)
  then show ?case
  proof cases
    case skip
    then show ?thesis using Cons by blast
  next
    case keep
    from strict_decode_typed [OF keep(1)] have "fits_int64 b" using typed_allocation_fits by blast
    then show ?thesis by (intro Cons.IH [OF keep(2)]) simp
  qed
qed simp

lemma parse_sample_exact:
  assumes "parse_sample lexer out = Inr a"
  shows "al_n a = 1024 \<and> exact_sample a \<and> fits_int64 a"
proof -
  obtain lines fits where l: "scan_lines out = (lines, fits)" by force
  from assms l obtain n m d where s: "sample_lines lexer None 0 0 lines = Inr (Some a, n, m)"
    and a: "al_n a = fixed_count" "paired_delta a a = Inr d"
    by (auto simp: parse_sample_def split: sum.splits option.splits if_splits)
  have "fits_int64 a" by (rule sample_lines_fit [OF s]) simp
  then show ?thesis using a paired_delta_value [of a a d] by (simp add: fixed_count_def)
qed

text \<open>The points of the matrix in their order, and the sample that the file of an invocation holds.\<close>

definition matrix_points :: "int \<Rightarrow> int list \<Rightarrow> (string \<times> int \<times> int) list" where
  "matrix_points pairs procs =
     concat (map (\<lambda>phase. concat (map (\<lambda>pair. map (\<lambda>p. (phase, pair, p)) (pair_order pair procs)) [1..pairs]))
       [''control'', ''candidate''])"

definition point_cells :: "string \<times> int \<times> int \<Rightarrow> run_cell list" where
  "point_cells pt =
     (case pt of (phase, pair, p) \<Rightarrow>
        map (arm_cell phase pair p) (if pair mod 2 = 0 then [''B'', ''A''] else [''A'', ''B'']))"

definition sample_at :: "campaign_tools \<Rightarrow> campaign_dir \<Rightarrow> nat \<Rightarrow> allocation option" where
  "sample_at t d i =
     (case cd_files d (invocation_name i @ ''.stdout'') of
        None \<Rightarrow> None
      | Some out \<Rightarrow> (case parse_sample (ct_lexer t) out of Inl _ \<Rightarrow> None | Inr a \<Rightarrow> Some a))"

text \<open>A pair holds the samples of the two arms of its point, which the files number \<open>i\<close> and \<open>i + 1\<close> hold.\<close>

definition matched :: "campaign_tools \<Rightarrow> campaign_dir \<Rightarrow> nat \<Rightarrow> string \<times> int \<times> int \<Rightarrow> alloc_pair \<Rightarrow> bool" where
  "matched t d i pt m =
     (pt = (ap_phase m, ap_index m, ap_procs m) \<and>
      sample_at t d (if ap_index m mod 2 = 0 then Suc i else i) = Some (ap_a m) \<and>
      sample_at t d (if ap_index m mod 2 = 0 then i else Suc i) = Some (ap_b m) \<and>
      al_n (ap_a m) = 1024 \<and> al_n (ap_b m) = 1024 \<and>
      ap_delta m = \<lparr>de_n = 1024, de_mem_bytes = al_mem_bytes (ap_b m) - al_mem_bytes (ap_a m),
        de_mem_allocs = al_mem_allocs (ap_b m) - al_mem_allocs (ap_a m)\<rparr>)"

lemma concat_twice: "concat (concat xss) = concat (map concat xss)"
  by (induction xss) auto

lemma invocations_points: "invocations pairs procs = concat (map point_cells (matrix_points pairs procs))"
  by (simp add: invocations_def matrix_points_def point_cells_def map_concat comp_def concat_twice)

lemma read_sample_ok:
  "read_sample t d i r c = Inr a \<Longrightarrow> rr_cell r = c \<and> rr_exit r = 0 \<and> sample_at t d i = Some a \<and> al_n a = 1024 \<and> fits_int64 a"
  by (auto simp: read_sample_def Let_def sample_at_def dest: parse_sample_exact)

text \<open>The two records of a point make one pair.\<close>

lemma point_step:
  assumes "i mod 2 = 0" and "sample_loop t d i current acc (point_cells pt @ cs) (r1 # r2 # rs) = Inr pairs"
  shows "\<exists>m. matched t d i pt m \<and> sample_loop t d (Suc (Suc i)) m (acc @ [m]) cs rs = Inr pairs"
proof -
  obtain phase pair p where pt: "pt = (phase, pair, p)" by (cases pt)
  define x y where "x = (if pair mod 2 = 0 then ''B'' else ''A'')" and "y = (if pair mod 2 = 0 then ''A'' else ''B'')"
  have cells: "point_cells pt = [arm_cell phase pair p x, arm_cell phase pair p y]"
    by (simp add: pt point_cells_def x_def y_def)
  have odd: "Suc i mod 2 = 1" using assms(1) by presburger
  from assms obtain a where a: "read_sample t d i r1 (arm_cell phase pair p x) = Inr a"
    and rest: "sample_loop t d (Suc i) (take_sample i (rr_cell r1) a current) acc (arm_cell phase pair p y # cs) (r2 # rs) =
      Inr pairs"
    unfolding cells by (auto simp: Let_def)
  from read_sample_ok [OF a] have A: "rr_cell r1 = arm_cell phase pair p x" "sample_at t d i = Some a" "al_n a = 1024"
    "fits_int64 a" by blast+
  let ?m1 = "take_sample i (rr_cell r1) a current"
  from rest odd obtain b where b: "read_sample t d (Suc i) r2 (arm_cell phase pair p y) = Inr b" by auto
  let ?m2 = "take_sample (Suc i) (rr_cell r2) b ?m1"
  obtain dl where dl: "paired_delta (ap_a ?m2) (ap_b ?m2) = Inr dl"
    using rest b odd by (cases "paired_delta (ap_a ?m2) (ap_b ?m2)") (simp_all add: Let_def then_ok_def)
  have step: "sample_loop t d (Suc (Suc i)) (?m2\<lparr>ap_delta := dl\<rparr>) (acc @ [?m2\<lparr>ap_delta := dl\<rparr>]) cs rs = Inr pairs"
    using rest b odd dl by (simp add: Let_def)
  from read_sample_ok [OF b] have B: "rr_cell r2 = arm_cell phase pair p y" "sample_at t d (Suc i) = Some b" "al_n b = 1024"
    "fits_int64 b" by blast+
  let ?m = "take_sample (Suc i) (rr_cell r2) b ?m1\<lparr>ap_delta := dl\<rparr>"
  have keys: "ap_phase ?m = phase" "ap_index ?m = pair" "ap_procs ?m = p"
    "ap_a ?m = (if pair mod 2 = 0 then b else a)" "ap_b ?m = (if pair mod 2 = 0 then a else b)" "ap_delta ?m = dl"
    using assms(1) odd by (simp_all add: A(1) B(1) take_sample_def arm_cell_def Let_def x_def y_def)
  have f: "fits_int64 (ap_a ?m)" "fits_int64 (ap_b ?m)" using A(4) B(4) by (simp_all add: keys)
  have "dl = \<lparr>de_n = al_n (ap_a ?m), de_mem_bytes = al_mem_bytes (ap_b ?m) - al_mem_bytes (ap_a ?m),
      de_mem_allocs = al_mem_allocs (ap_b ?m) - al_mem_allocs (ap_a ?m)\<rparr>"
    using iffD1 [OF paired_delta_value [OF f], of dl] dl by simp
  then have "matched t d i pt ?m"
    unfolding matched_def keys pt using A(2,3) B(2,3) by simp
  with step show ?thesis by blast
qed

lemma sample_loop_pairs:
  assumes "i mod 2 = 0" and "length rs = length (concat (map point_cells pts))"
    and "sample_loop t d i current acc (concat (map point_cells pts)) rs = Inr pairs"
  shows "\<exists>ms. pairs = acc @ ms \<and> length ms = length pts \<and> (\<forall>k<length pts. matched t d (i + 2 * k) (pts ! k) (ms ! k))"
  using assms
proof (induction pts arbitrary: i current acc rs)
  case Nil
  then show ?case by simp
next
  case (Cons pt pts)
  have two: "length (point_cells pt) = 2" by (simp add: point_cells_def split: prod.splits)
  from Cons.prems(2) two obtain r1 r2 rs' where rs: "rs = r1 # r2 # rs'"
    by (cases rs; cases "tl rs") auto
  from point_step [OF Cons.prems(1)] Cons.prems(3) rs obtain m where m: "matched t d i pt m"
    "sample_loop t d (Suc (Suc i)) m (acc @ [m]) (concat (map point_cells pts)) rs' = Inr pairs" by fastforce
  have e: "Suc (Suc i) mod 2 = 0" using Cons.prems(1) by presburger
  have l: "length rs' = length (concat (map point_cells pts))" using Cons.prems(2) rs two by simp
  from Cons.IH [OF e l m(2)] obtain ms where ms: "pairs = (acc @ [m]) @ ms" "length ms = length pts"
    "\<forall>k<length pts. matched t d (Suc (Suc i) + 2 * k) (pts ! k) (ms ! k)" by blast
  have "\<forall>k<length (pt # pts). matched t d (i + 2 * k) ((pt # pts) ! k) ((m # ms) ! k)"
  proof (intro allI impI)
    fix k assume "k < length (pt # pts)"
    then show "matched t d (i + 2 * k) ((pt # pts) ! k) ((m # ms) ! k)"
      using m(1) ms(3) by (cases k) auto
  qed
  then show ?case using ms(1,2) by (intro exI [of _ "m # ms"]) simp
qed

text \<open>
  C32: a verified allocation campaign reports exactly its predeclared matrix. When verification succeeds, the plan is a strict
  document that the pin fixes, and the report has one pair for every phase, pair number and process count of the
  plan, in their order; its two samples are those that the two files of that point hold for arm A and arm B, each of 1024
  runs, and its difference is that of their totals over the integers, with no wrap-around.
\<close>

theorem verified_pairs_exact:
  assumes "verify t d plan_pin record_pin = Inr rep"
  shows "\<exists>plan data. cd_files d ''plan.json'' = Some data \<and> th_sha256 (ct_hashes t) data = plan_pin \<and>
    strict_decode (ct_plan t) plan_kind (ct_lexer t data) = Some plan \<and>
    length (ar_pairs rep) = length (matrix_points (mp_pairs plan) (mp_procs plan)) \<and>
    list_all (\<lambda>k. matched t d (2 * k) (matrix_points (mp_pairs plan) (mp_procs plan) ! k) (ar_pairs rep ! k))
      [0..<length (ar_pairs rep)]"
proof -
  from assms obtain data plan records pairs where data: "cd_files d ''plan.json'' = Some data" "th_sha256 (ct_hashes t) data = plan_pin"
    and plan: "read_json t d (ct_plan t) plan_kind ''plan.json'' = Inr plan" "check_plan plan = Inr ()"
    and n: "length records = length (mp_invocations plan)"
    and loop: "sample_loop t d 0 empty_pair [] (mp_invocations plan) records = Inr pairs" and rep: "rep = report pairs"
    unfolding verify_def check_pin_def by auto
  have decoded: "strict_decode (ct_plan t) plan_kind (ct_lexer t data) = Some plan"
    using plan(1) data(1) by (auto simp: read_json_def split: option.splits)
  have inv: "mp_invocations plan = concat (map point_cells (matrix_points (mp_pairs plan) (mp_procs plan)))"
    using plan(2) by (simp add: check_plan_def Let_def invocations_points split: if_splits)
  from sample_loop_pairs [OF _ _ loop [unfolded inv]] n inv
  have "length pairs = length (matrix_points (mp_pairs plan) (mp_procs plan)) \<and>
      (\<forall>k<length (matrix_points (mp_pairs plan) (mp_procs plan)).
        matched t d (2 * k) (matrix_points (mp_pairs plan) (mp_procs plan) ! k) (pairs ! k))" by auto
  then show ?thesis using data decoded rep by (auto simp: report_def list_all_iff)
qed

section \<open>Sources and medians\<close>

definition build_exact :: "campaign_tools \<Rightarrow> campaign_dir \<Rightarrow> string \<times> build_pin \<Rightarrow> bool" where
  "build_exact t d nb =
     (case nb of (name, b) \<Rightarrow>
        (case (cd_files d (name @ ''-archive.stdout''), cd_files d (name @ ''-tree.stdout'')) of
           (Some archive, Some tree) \<Rightarrow>
             th_sha256 (ct_hashes t) archive = bp_archive b \<and> th_sha256 (ct_hashes t) tree = bp_tree b \<and>
             (case unpack (ct_temp t) empty_tree (ct_tar t archive) of
                None \<Rightarrow> False
              | Some st \<Rightarrow> exact_tree (ct_hashes t) st (ct_temp t) tree)
         | _ \<Rightarrow> False) \<and>
        (case cd_files d (name @ ''.test'') of
           None \<Rightarrow> False
         | Some binary \<Rightarrow> th_sha256 (ct_hashes t) binary = bp_sha256 b) \<and>
        map_option trim_space (cd_files d (name @ ''-commit.stdout'')) = Some (bp_commit b) \<and>
        cd_files d (name @ ''-postbuild-commit.stdout'') = cd_files d (name @ ''-commit.stdout'') \<and>
        map_option trim_space (cd_files d (name @ ''-postbuild-status.stdout'')) = Some [])"

lemma checked_build: "check_build t d p name b = Inr () \<Longrightarrow> build_exact t d (name, b)"
  by (auto simp: check_build_def check_source_def check_streams_def build_exact_def Let_def split: option.splits)

text \<open>
  Both builds of a verified campaign are of exactly what was committed. For the old and the candidate build the
  retained archive unpacks to exactly the tree that Git listed, archive, tree and test binary have the hashes of the plan, the
  commit read before and after the build is the one of the plan and the tree was clean afterwards; the instrumented
  sources and the build environment are the same in both.
\<close>

theorem verified_builds_exact:
  assumes "verify t d plan_pin record_pin = Inr rep"
  shows "\<exists>plan old candidate. mp_builds plan = [old, candidate] \<and>
    Option.bind (cd_files d ''plan.json'') (\<lambda>data. strict_decode (ct_plan t) plan_kind (ct_lexer t data)) = Some plan \<and>
    build_exact t d (''old'', old) \<and> build_exact t d (''candidate'', candidate) \<and>
    same_map (bp_instrumentation candidate) (bp_instrumentation old) \<and> bp_environment candidate = bp_environment old"
proof -
  from assms obtain plan where plan: "read_json t d (ct_plan t) plan_kind ''plan.json'' = Inr plan" "check_plan plan = Inr ()"
    and builds: "check_builds t d plan (zip [''old'', ''candidate''] (mp_builds plan)) = Inr ()"
    unfolding verify_def by auto
  have "length (mp_builds plan) = 2" using plan(2) by (simp add: check_plan_def Let_def split: if_splits)
  then obtain old candidate where b: "mp_builds plan = [old, candidate]"
    by (auto simp: length_Suc_conv numeral_2_eq_2)
  have c: "check_build t d plan ''old'' old = Inr ()" "check_build t d plan ''candidate'' candidate = Inr ()"
    using builds b by auto
  have "same_map (bp_instrumentation candidate) (bp_instrumentation old) \<and> bp_environment candidate = bp_environment old"
    using c(2) b by (simp add: check_build_def Let_def)
  moreover have "Option.bind (cd_files d ''plan.json'') (\<lambda>data. strict_decode (ct_plan t) plan_kind (ct_lexer t data)) = Some plan"
    using plan(1) by (auto simp: read_json_def split: option.splits)
  ultimately show ?thesis using b checked_build [OF c(1)] checked_build [OF c(2)] by blast
qed

text \<open>A rational between the two halves of the values.\<close>

definition balances :: "rat \<Rightarrow> int list \<Rightarrow> bool" where
  "balances m vs =
     (vs \<noteq> [] \<and> 2 * length (filter (\<lambda>v. of_int v < m) vs) \<le> length vs \<and>
      2 * length (filter (\<lambda>v. of_int v > m) vs) \<le> length vs)"

lemma filter_in_front:
  assumes "\<And>i. i < length xs \<Longrightarrow> k \<le> i \<Longrightarrow> \<not> P (xs ! i)"
  shows "length (filter P xs) \<le> k"
proof -
  have "filter P (drop k xs) = []"
    using assms by (auto simp: filter_empty_conv in_set_conv_nth)
  moreover have "filter P xs = filter P (take k xs) @ filter P (drop k xs)"
    by (metis append_take_drop_id filter_append)
  ultimately have "length (filter P xs) \<le> length (take k xs)" by (metis append_Nil2 length_filter_le)
  then show ?thesis by simp
qed

lemma filter_behind:
  assumes "\<And>i. i < length xs \<Longrightarrow> i < k \<Longrightarrow> \<not> P (xs ! i)"
  shows "length (filter P xs) \<le> length xs - k"
proof -
  have "filter P (take k xs) = []"
    using assms by (auto simp: filter_empty_conv in_set_conv_nth)
  moreover have "filter P xs = filter P (take k xs) @ filter P (drop k xs)"
    by (metis append_take_drop_id filter_append)
  ultimately have "length (filter P xs) \<le> length (drop k xs)" by (metis append_Nil length_filter_le)
  then show ?thesis by simp
qed

lemma median_balances:
  assumes "values \<noteq> []"
  shows "balances (median values) values"
proof -
  let ?vs = "sort values" let ?n = "length values" let ?k = "?n div 2" let ?m = "median values"
  have mono: "of_int (?vs ! i) \<le> (of_int (?vs ! j) :: rat)" if "i \<le> j" "j < ?n" for i j
    using that sorted_nth_mono [of ?vs i j] by simp
  have pos: "0 < ?n" using assms by simp
  obtain low where low: "length (filter (\<lambda>v. of_int v < ?m) ?vs) \<le> ?k" "length (filter (\<lambda>v. of_int v > ?m) ?vs) \<le> ?n - low"
    "2 * (?n - low) \<le> ?n"
  proof (cases "?n mod 2 = 0")
    case False
    then have m: "?m = of_int (?vs ! ?k)" by (simp add: median_def Let_def)
    have "length (filter (\<lambda>v. of_int v < ?m) ?vs) \<le> ?k"
      by (rule filter_in_front) (use mono in \<open>auto simp: m not_less\<close>)
    moreover have "length (filter (\<lambda>v. of_int v > ?m) ?vs) \<le> length ?vs - Suc ?k"
      by (rule filter_behind) (use mono pos in \<open>auto simp: m not_less less_Suc_eq_le\<close>)
    ultimately show thesis using that [of "Suc ?k"] False by simp
  next
    case True
    then have k: "0 < ?k" "2 * ?k = ?n" using pos by presburger+
    have m: "?m = (of_int (?vs ! (?k - 1)) + of_int (?vs ! ?k)) / 2" using True by (simp add: median_def Let_def)
    have between: "of_int (?vs ! (?k - 1)) \<le> ?m" "?m \<le> of_int (?vs ! ?k)"
      using mono [of "?k - 1" ?k] k pos unfolding m by (auto simp: field_simps)
    have "length (filter (\<lambda>v. of_int v < ?m) ?vs) \<le> ?k"
      by (rule filter_in_front) (use mono between(2) in \<open>auto simp: not_less intro: order_trans\<close>)
    moreover have "length (filter (\<lambda>v. of_int v > ?m) ?vs) \<le> length ?vs - ?k"
    proof (rule filter_behind)
      fix i assume "i < ?k"
      then have "i \<le> ?k - 1" "?k - 1 < ?n" using k by linarith+
      from order_trans [OF mono [OF this] between(1)] show "\<not> ?m < of_int (?vs ! i)" by simp
    qed
    ultimately show thesis using that [of ?k] k by simp
  qed
  have same: "length (filter P ?vs) = length (filter P values)" for P
    by (metis mset_filter mset_sort size_mset)
  have "2 * length (filter (\<lambda>v. of_int v < ?m) values) \<le> ?n" using low(1) unfolding same by linarith
  moreover have "2 * length (filter (\<lambda>v. of_int v > ?m) values) \<le> ?n" using low(2,3) unfolding same by linarith
  ultimately show ?thesis using assms by (simp add: balances_def)
qed

definition pair_key :: "alloc_pair \<Rightarrow> string \<times> int" where
  "pair_key p = (ap_phase p, ap_procs p)"

definition row_exact :: "alloc_pair list \<Rightarrow> median_row \<Rightarrow> bool" where
  "row_exact pairs r =
     (let vs = arm_values pairs (mr_phase r) (mr_procs r) in
      balances (mr_a_bytes r) (vs (\<lambda>p. al_bytes_per_op (ap_a p))) \<and>
      balances (mr_b_bytes r) (vs (\<lambda>p. al_bytes_per_op (ap_b p))) \<and>
      balances (mr_a_allocs r) (vs (\<lambda>p. al_allocs_per_op (ap_a p))) \<and>
      balances (mr_b_allocs r) (vs (\<lambda>p. al_allocs_per_op (ap_b p))) \<and>
      mr_bytes_difference r = mr_b_bytes r - mr_a_bytes r \<and> mr_allocs_difference r = mr_b_allocs r - mr_a_allocs r)"

lemma median_of_exact:
  assumes "p \<in> set pairs"
  shows "row_exact pairs (median_of pairs (ap_phase p) (ap_procs p))"
proof -
  have "arm_values pairs (ap_phase p) (ap_procs p) f \<noteq> []" for f
    using assms by (auto simp: arm_values_def filter_empty_conv)
  then show ?thesis by (simp add: row_exact_def median_of_def Let_def median_balances)
qed

lemma median_rows_ok:
  "set ps \<subseteq> set pairs \<Longrightarrow>
     list_all (row_exact pairs) (median_rows pairs seen ps) \<and>
     distinct (map (\<lambda>r. (mr_phase r, mr_procs r)) (median_rows pairs seen ps)) \<and>
     set (map (\<lambda>r. (mr_phase r, mr_procs r)) (median_rows pairs seen ps)) = pair_key ` set ps - set seen"
proof (induction ps arbitrary: seen)
  case (Cons p ps)
  have k: "mr_phase (median_of pairs (ap_phase p) (ap_procs p)) = ap_phase p"
    "mr_procs (median_of pairs (ap_phase p) (ap_procs p)) = ap_procs p" by (simp_all add: median_of_def Let_def)
  show ?case
    using Cons.IH [of seen] Cons.IH [of "seen @ [pair_key p]"] Cons.prems median_of_exact [of p pairs] k
    by (auto simp: Let_def pair_key_def)
qed simp

text \<open>
  The medians of the report are medians. There is exactly one row for every phase and process count that the pairs have;
  each of its four medians, an exact rational, has at most half of the values of its arm below it and at most half
  above it, and the two differences are those of the candidate and baseline medians.
\<close>

theorem report_medians:
  "ar_pairs (report pairs) = pairs \<and> list_all (row_exact pairs) (ar_medians (report pairs)) \<and>
   distinct (map (\<lambda>r. (mr_phase r, mr_procs r)) (ar_medians (report pairs))) \<and>
   set (map (\<lambda>r. (mr_phase r, mr_procs r)) (ar_medians (report pairs))) = pair_key ` set pairs"
  using median_rows_ok [of pairs pairs "[]"] by (simp add: report_def)

end
