(* ===== verification/Campaign_Samples.thy ===== *)
theory Campaign_Samples
  imports Campaign
begin

text \<open>A complete small campaign, verified by evaluation: the hypotheses of the properties of \<open>Verify\<close> hold for it.\<close>

definition tiny_hashes :: tree_hashes where
  "tiny_hashes = \<lparr>th_sha1 = \<lambda>_. replicate 40 (CHR ''a''), th_sha256 = \<lambda>_. replicate 64 (CHR ''a'')\<rparr>"

definition tiny_pin :: string where "tiny_pin = replicate 64 (CHR ''a'')"

definition tiny_row :: "string \<Rightarrow> string" where
  "tiny_row name = ''100644 blob '' @ replicate 40 (CHR ''a'') @ [CHR 0x09] @ name @ [CHR 0x00]"

definition tiny_tree :: string where
  "tiny_tree = tiny_row ''go.mod'' @ tiny_row ''p/d_test.go'' @ tiny_row ''benchmarkevidence/a.go''"

definition tiny_file :: "string \<Rightarrow> tar_entry" where
  "tiny_file name = \<lparr>tn_name = name, tn_kind = Tar_Reg, tn_data = []\<rparr>"

definition tiny_stream :: tar_stream where
  "tiny_stream =
     \<lparr>ts_entries = [tiny_file ''go.mod'', tiny_file ''p/d_test.go'', tiny_file ''benchmarkevidence/a.go''], ts_eof = True\<rparr>"

definition tiny_build :: "string \<Rightarrow> build_pin" where
  "tiny_build name =
     \<lparr>bp_root = ''/r'', bp_commit = replicate 40 (CHR ''c''),
      bp_instrumentation = [(''p/d_test.go'', tiny_pin), (''benchmarkevidence/a.go'', tiny_pin)], bp_archive = tiny_pin,
      bp_tree = tiny_pin, bp_environment = ''go'', bp_binary = name @ ''.test'', bp_sha256 = tiny_pin\<rparr>"

definition tiny_plan :: measure_plan where
  "tiny_plan =
     \<lparr>mp_schema = 1, mp_n = 1024, mp_pairs = 2, mp_procs = [3], mp_package = ''./p'', mp_diagnostic = ''p/d_test.go'',
      mp_builds = [tiny_build ''old'', tiny_build ''candidate''], mp_invocations = invocations 2 [3],
      mp_runtime = [(''GODEBUG'', []), (''GOGC'', []), (''GOMEMLIMIT'', [])],
      mp_roots = [''p/d_test.go'', ''benchmarkevidence'']\<rparr>"

definition tiny_records :: "run_record list" where
  "tiny_records =
     map (\<lambda>c. \<lparr>rr_cell = c, rr_exit = 0, rr_stdout = tiny_pin, rr_stderr = tiny_pin\<rparr>) (invocations 2 [3])"

definition tiny_sample :: "string \<times> string \<Rightarrow> string \<times> json_tree" where
  "tiny_sample kv = (fst kv, Jt_Number (snd kv))"

text \<open>The documents: of the plan and the records only the shape matters, their decoders being parameters.\<close>

definition tiny_document :: "string \<Rightarrow> json_tree" where
  "tiny_document s =
     (if s = ''P'' then
        Jt_Object (map (\<lambda>k. (k, Jt_String [])) [''schema'', ''n'', ''pairs'', ''package'', ''diagnostic'', ''runtimeEnvironment''] @
          map (\<lambda>k. (k, Jt_Array [])) [''procs'', ''builds'', ''invocations'', ''instrumentationRoots''])
      else if s = ''R'' then Jt_Array []
      else Jt_Object (map tiny_sample [(''n'', ''1024''), (''memBytes'', ''2050''), (''memAllocs'', ''1024''),
        (''bytesPerOp'', ''2''), (''bytesRemainder'', ''2''), (''allocsPerOp'', ''1''), (''allocsRemainder'', ''0'')]))"

definition tiny_tools :: campaign_tools where
  "tiny_tools =
     \<lparr>ct_hashes = tiny_hashes, ct_lexer = \<lambda>s. \<lparr>js_tokens = tokens_of (tiny_document s), js_eof = True\<rparr>,
      ct_plan = \<lambda>_. Some tiny_plan, ct_records = \<lambda>_. Some tiny_records, ct_tar = \<lambda>_. tiny_stream,
      ct_replacements = \<lambda>_. Some [], ct_temp = ''/t''\<rparr>"

definition tiny_dir :: campaign_dir where
  "tiny_dir =
     \<lparr>cd_files = \<lambda>n.
        if n = ''plan.json'' then Some ''P''
        else if n = ''records.json'' then Some ''R''
        else if has_suffix n ''.exit'' then Some (exit_text 0)
        else if has_prefix n ''sample-'' \<and> has_suffix n ''.stdout'' then Some (''{s}'' @ [CHR 0x0A] @ ''PASS'' @ [CHR 0x0A])
        else if has_suffix n ''commit.stdout'' then Some (replicate 40 (CHR ''c'') @ [CHR 0x0A])
        else if has_suffix n ''environment.stdout'' then Some ''go''
        else if has_suffix n ''tree.stdout'' then Some tiny_tree
        else Some [],
      cd_entries = [''plan.json'', ''sample-0000.stdout'']\<rparr>"

lemma tiny_plan_checked: "check_plan tiny_plan = Inr ()"
  by code_simp

lemma tiny_plan_read: "read_json tiny_tools tiny_dir (ct_plan tiny_tools) plan_kind ''plan.json'' = Inr tiny_plan"
  by code_simp

lemma tiny_builds: "check_builds tiny_tools tiny_dir tiny_plan (zip [''old'', ''candidate''] (mp_builds tiny_plan)) = Inr ()"
  by code_simp

definition tiny_out :: string where "tiny_out = ''{s}'' @ [CHR 0x0A] @ ''PASS'' @ [CHR 0x0A]"

definition tiny_allocation :: allocation where
  "tiny_allocation =
     \<lparr>al_n = 1024, al_mem_bytes = 2050, al_mem_allocs = 1024, al_bytes_per_op = 2, al_bytes_rem = 2,
      al_allocs_per_op = 1, al_allocs_rem = 0\<rparr>"

lemma tiny_lines: "scan_lines tiny_out = ([''{s}'', ''PASS''], True)"
  by (simp add: scan_lines_def tiny_out_def drop_cr_def)

lemma tiny_sampled:
  "sample_lines (ct_lexer tiny_tools) None 0 0 [''{s}'', ''PASS''] = Inr (Some tiny_allocation, 1, 1)"
  by code_simp

lemma tiny_n: "al_n tiny_allocation = 1024"
  by (simp add: tiny_allocation_def)

lemma tiny_delta: "paired_delta tiny_allocation tiny_allocation = Inr \<lparr>de_n = 1024, de_mem_bytes = 0, de_mem_allocs = 0\<rparr>"
  by code_simp

lemma tiny_parse: "parse_sample (ct_lexer tiny_tools) tiny_out = Inr tiny_allocation"
  by (simp add: tiny_delta parse_sample_def tiny_lines tiny_sampled fixed_count_def tiny_n del: sample_lines.simps)

lemma tiny_files:
  "list_all (\<lambda>i. cd_files tiny_dir (invocation_name i @ ''.stdout'') = Some tiny_out \<and>
     cd_files tiny_dir (invocation_name i @ ''.exit'') = Some (exit_text 0) \<and>
     cd_files tiny_dir (invocation_name i @ ''.stderr'') = Some []) [0..<8]"
  by code_simp

definition tiny_record :: "run_cell \<Rightarrow> run_record" where
  "tiny_record c = \<lparr>rr_cell = c, rr_exit = 0, rr_stdout = tiny_pin, rr_stderr = tiny_pin\<rparr>"

lemma tiny_cell: "rr_cell (tiny_record c) = c"
  by (simp add: tiny_record_def)

text \<open>One step of the loop reads the planned sample.\<close>

lemma tiny_read:
  assumes "i < 8"
  shows "read_sample tiny_tools tiny_dir i (tiny_record c) c = Inr tiny_allocation"
proof -
  have "cd_files tiny_dir (invocation_name i @ ''.stdout'') = Some tiny_out"
    "cd_files tiny_dir (invocation_name i @ ''.exit'') = Some (exit_text 0)"
    "cd_files tiny_dir (invocation_name i @ ''.stderr'') = Some []"
    using tiny_files assms by (simp_all add: list_all_iff)
  moreover have "th_sha256 (ct_hashes tiny_tools) s = tiny_pin" for s
    by (simp add: tiny_tools_def tiny_hashes_def tiny_pin_def)
  ultimately show ?thesis
    by (simp add: read_sample_def Let_def tiny_parse tiny_record_def)
qed

lemma tiny_loop:
  assumes "i mod 2 = 0" and "i + 2 * length pts \<le> 8"
  shows "\<exists>pairs. sample_loop tiny_tools tiny_dir i m acc (concat (map point_cells pts))
    (map tiny_record (concat (map point_cells pts))) = Inr pairs"
  using assms
proof (induction pts arbitrary: i m acc)
  case Nil
  then show ?case by simp
next
  case (Cons pt pts)
  obtain phase pair p where pt: "pt = (phase, pair, p)" by (cases pt)
  have i: "i < 8" "Suc i < 8" "Suc i mod 2 = Suc 0" "Suc (Suc i) mod 2 = 0" "Suc (Suc i) + 2 * length pts \<le> 8"
    using Cons.prems by simp_all presburger+
  have arms: "rn_arm (arm_cell phase pair p x) = x" for x by (simp add: arm_cell_def Let_def)
  have cells: "point_cells pt = map (arm_cell phase pair p) (if pair mod 2 = 0 then [''B'', ''A''] else [''A'', ''B''])"
    by (simp add: pt point_cells_def)
  show ?case
    using Cons.IH [OF i(4,5)] Cons.prems(1) i
    by (simp add: cells arms tiny_cell tiny_read then_ok_def Let_def take_sample_def tiny_delta)
qed

lemma tiny_verified: "\<exists>rep. verify tiny_tools tiny_dir tiny_pin tiny_pin = Inr rep"
proof -
  have pins: "check_pin tiny_tools tiny_dir ''plan.json'' tiny_pin = Inr ()" "check_pin tiny_tools tiny_dir ''records.json'' tiny_pin = Inr ()"
    by (simp_all add: check_pin_def tiny_tools_def tiny_dir_def tiny_hashes_def tiny_pin_def)
  have records: "read_json tiny_tools tiny_dir (ct_records tiny_tools) records_kind ''records.json'' = Inr tiny_records"
    by code_simp
  have inv: "mp_invocations tiny_plan = concat (map point_cells (matrix_points 2 [3]))"
    by (simp add: tiny_plan_def invocations_points)
  have recs: "tiny_records = map tiny_record (concat (map point_cells (matrix_points 2 [3])))"
    by (simp add: tiny_records_def tiny_record_def [abs_def] invocations_points)
  have len: "length (matrix_points 2 [3]) = 4" by code_simp
  have listed: "list_all (\<lambda>n. \<not> (has_prefix n ''sample-'' \<and> n \<notin> set (sample_files (length tiny_records)))) (cd_entries tiny_dir)"
    by code_simp
  have same: "(length tiny_records = length (mp_invocations tiny_plan)) = True" unfolding inv recs by simp
  obtain pairs where "sample_loop tiny_tools tiny_dir 0 empty_pair [] (mp_invocations tiny_plan) tiny_records = Inr pairs"
    using tiny_loop [of 0 "matrix_points 2 [3]"] len unfolding inv recs by auto
  then have "verify tiny_tools tiny_dir tiny_pin tiny_pin = Inr (report pairs)"
    by (simp only: verify_def then_ok_def require_def sum.case if_True pins tiny_plan_read tiny_plan_checked tiny_builds
        records listed same)
  then show ?thesis by blast
qed

theorem verified_pairs_exact_witness:
  "\<exists>rep. verify tiny_tools tiny_dir tiny_pin tiny_pin = Inr rep \<and> length (ar_pairs rep) = 4"
proof -
  obtain rep where v: "verify tiny_tools tiny_dir tiny_pin tiny_pin = Inr rep" using tiny_verified by blast
  have "length (matrix_points 2 [3]) = 4" by code_simp
  moreover have "strict_decode (ct_plan tiny_tools) plan_kind (ct_lexer tiny_tools ''P'') = Some plan \<Longrightarrow> plan = tiny_plan" for plan
    using strict_decode_typed by (fastforce simp: tiny_tools_def)
  moreover have "cd_files tiny_dir ''plan.json'' = Some ''P''" by (simp add: tiny_dir_def)
  ultimately show ?thesis
    using v verified_pairs_exact [OF v] by (auto simp: tiny_plan_def)
qed

theorem verified_builds_exact_witness:
  "\<exists>b. build_exact tiny_tools tiny_dir (''old'', b)"
proof -
  obtain rep where v: "verify tiny_tools tiny_dir tiny_pin tiny_pin = Inr rep" using tiny_verified by blast
  from verified_builds_exact [OF v] show ?thesis by blast
qed

end
