(* ===== verification/Crossover_Data.thy ===== *)
theory Crossover_Data
  imports Campaign
begin

text \<open>
  Observations of the crossover evidence (\<open>internal/crossover\<close>): \<open>ReadObservation\<close> and \<open>Compare\<close> of \<open>observation.go\<close>, and
  \<open>ReadOriginal\<close> of \<open>original.go\<close>. Rationals stand for the strings that \<open>RatString\<close> prints of them; the parser of
  \<open>big.Rat\<close> is a parameter.
\<close>

section \<open>Native observations\<close>

definition observation_keys :: "string list" where
  "observation_keys = [''allocation'', ''elapsedNanos'']"

definition observation_kind :: go_kind where
  "observation_kind =
     Gk_Struct [(''Allocation'', ''allocation'', allocation_kind), (''ElapsedNanos'', ''elapsedNanos'', Gk_Other)]"

definition assign_observation :: "observation \<Rightarrow> string \<times> json_tree \<Rightarrow> observation option" where
  "assign_observation ob m =
     (case field_of observation_keys (fst m) of
        None \<Rightarrow> None
      | Some k \<Rightarrow>
          if k = ''allocation''
          then map_option (\<lambda>a. ob\<lparr>ob_allocation := a\<rparr>) (decode_struct assign_allocation (ob_allocation ob) (snd m))
          else map_option (\<lambda>i. ob\<lparr>ob_elapsed := i\<rparr>) (typed_int (snd m)))"

definition zero_observation :: observation where
  "zero_observation = \<lparr>ob_allocation = zero_allocation, ob_elapsed = 0\<rparr>"

definition typed_observation :: "json_tree \<Rightarrow> observation option" where
  "typed_observation v = decode_struct assign_observation zero_observation v"

datatype cross_error =
    Not_read string
  | Rejected string
  | Bad_sample bench_error
  | Bad_plan plan_error

definition read_observation :: "(string \<Rightarrow> json_stream) \<Rightarrow> string \<Rightarrow> int \<Rightarrow> cross_error + observation" where
  "read_observation lexer out fixed_n =
     (let lines = split_on (CHR 0x0A) (trim_space out) in
      if length lines \<noteq> 2 \<or> trim_space (lines ! 1) \<noteq> ''PASS''
      then Inl (Rejected ''diagnostic must emit exactly one native record and PASS'')
      else case strict_decode typed_observation observation_kind (lexer (lines ! 0)) of
        None \<Rightarrow> Inl (Rejected ''decode'')
      | Some ob \<Rightarrow>
          let n = al_n (ob_allocation ob) in
          if n < 2 \<or> ob_elapsed ob \<le> 0 \<or> fixed_n < 0 \<or> fixed_n = 1 \<or> fixed_n > 0 \<and> n \<noteq> fixed_n
          then Inl (Rejected ''invalid native iteration count or elapsed timing'')
          else case paired_delta (ob_allocation ob) (ob_allocation ob) of
            Inl e \<Rightarrow> Inl (Bad_sample e)
          | Inr _ \<Rightarrow> Inr ob)"

text \<open>
  Keys are unique letter by letter, but a member whose key differs only in the case of its letters is decoded into the same field,
  after the required one.
\<close>

definition strict_observation :: "(string \<times> json_tree) list \<Rightarrow> observation option" where
  "strict_observation ms =
     strict_decode typed_observation observation_kind \<lparr>js_tokens = tokens_of (Jt_Object ms), js_eof = True\<rparr>"

lemma tokens_of_inject: "tokens_of v = tokens_of w \<longleftrightarrow> v = w"
proof -
  have "json_value \<lparr>js_tokens = tokens_of u, js_eof = True\<rparr> = Some u" for u
    by (rule json_value_tokens) simp_all
  then show ?thesis by (metis option.inject)
qed

lemma strict_observation_iff:
  "strict_observation ms = Some ob \<longleftrightarrow>
     strict_tree (Jt_Object ms) \<and> required_fields (Jt_Object ms) observation_kind \<and>
     decode_members assign_observation zero_observation ms = Some ob"
  unfolding strict_observation_def strict_decode_iff json_stream.simps tokens_of_inject
  by (auto simp: typed_observation_def decode_struct_def)

lemma decode_members_snoc:
  "decode_members f x (ms @ [m]) = Option.bind (decode_members f x ms) (\<lambda>y. f y m)"
  by (induction ms arbitrary: x) (auto split: Option.bind_splits)

lemma observation_names: "field_key ''Allocation'' ''allocation'' = Some ''allocation''"
  "field_key ''ElapsedNanos'' ''elapsedNanos'' = Some ''elapsedNanos''"
  by code_simp+

lemma required_observation_iff:
  "required_fields (Jt_Object ms) observation_kind \<longleftrightarrow>
     (\<exists>v. map_of (rev ms) ''allocation'' = Some v \<and> required_fields v allocation_kind) \<and>
     ''elapsedNanos'' \<in> fst ` set ms"
proof -
  have "k \<in> fst ` set ms \<longleftrightarrow> map_of (rev ms) k \<noteq> None" for k
    using map_of_eq_None_iff [of "rev ms" k] by simp
  note keys = this
  show ?thesis
    unfolding keys by (auto simp: observation_kind_def observation_names split: option.splits)
qed

text \<open>
  C40: strict decoding accepts a second value for a field. Take any record that is accepted, and a further member with a
  key that is not in it but is a field's key up to the case of its letters, and with a strict value that the field
  takes. The record with that member at its end is accepted too, and the second value counts: for the elapsed time it
  replaces the first. The record with the same value under the field's own key is refused.
\<close>

theorem shadowed_field_accepted:
  assumes "strict_observation ms = Some ob" and "k \<notin> fst ` set ms" and "strict_tree v"
    and "assign_observation ob (k, v) = Some ob'"
  shows "\<exists>key. field_of observation_keys k = Some key \<and> key \<noteq> k \<and> key \<in> fst ` set ms \<and>
    strict_observation (ms @ [(k, v)]) = Some ob' \<and> strict_observation (ms @ [(key, v)]) = None \<and>
    (key = ''elapsedNanos'' \<longrightarrow> (\<exists>i. typed_int v = Some i \<and> ob' = ob\<lparr>ob_elapsed := i\<rparr>))"
proof -
  from assms(1) have s: "strict_tree (Jt_Object ms)" and r: "required_fields (Jt_Object ms) observation_kind"
    and d: "decode_members assign_observation zero_observation ms = Some ob"
    by (simp_all only: strict_observation_iff)
  from r obtain w where a: "map_of (rev ms) ''allocation'' = Some w" "required_fields w allocation_kind"
    and e: "''elapsedNanos'' \<in> fst ` set ms" by (auto simp: required_observation_iff)
  then have names: "set observation_keys \<subseteq> fst ` set ms"
    by (force simp: observation_keys_def dest: map_of_SomeD)
  from assms(4) obtain key where key: "field_of observation_keys k = Some key"
    by (auto simp: assign_observation_def split: option.splits)
  then have mem: "key \<in> set observation_keys" by (auto simp: field_of_def find_Some_iff split: if_splits)
  have "''allocation'' \<noteq> k" using names assms(2) by (auto simp: observation_keys_def)
  then have "required_fields (Jt_Object (ms @ [(k, v)])) observation_kind"
    using a e by (auto simp: required_observation_iff)
  then have yes: "strict_observation (ms @ [(k, v)]) = Some ob'"
    using s d assms(2-4) by (simp add: strict_observation_iff decode_members_snoc)
  have "\<not> strict_tree (Jt_Object (ms @ [(key, v)]))" using mem names by auto
  then have no: "strict_observation (ms @ [(key, v)]) = None"
    using strict_observation_iff [of "ms @ [(key, v)]"] by (cases "strict_observation (ms @ [(key, v)])") blast+
  have "\<exists>i. typed_int v = Some i \<and> ob' = ob\<lparr>ob_elapsed := i\<rparr>" if "key = ''elapsedNanos''"
    using assms(4) key that by (auto simp: assign_observation_def)
  then show ?thesis using key mem names assms(2) yes no by blast
qed

definition demo_members :: "(string \<times> json_tree) list" where
  "demo_members =
     [(''allocation'', Jt_Object (map (\<lambda>(k, v). (k, Jt_Number v)) [(''n'', ''5''), (''memBytes'', ''12''), (''memAllocs'', ''5''),
        (''bytesPerOp'', ''2''), (''bytesRemainder'', ''2''), (''allocsPerOp'', ''1''), (''allocsRemainder'', ''0'')])),
      (''elapsedNanos'', Jt_Number ''900'')]"

theorem shadowed_field_accepted_witness:
  "\<exists>ob. strict_observation demo_members = Some ob \<and> ob_elapsed ob = 900 \<and>
     strict_observation (demo_members @ [(''ElapsedNanos'', Jt_Number ''1'')]) = Some (ob\<lparr>ob_elapsed := 1\<rparr>)"
proof -
  have "map_option ob_elapsed (strict_observation demo_members) = Some 900" by code_simp
  then obtain ob where ob: "strict_observation demo_members = Some ob" "ob_elapsed ob = 900" by auto
  have k: "''ElapsedNanos'' \<notin> fst ` set demo_members" by (simp add: demo_members_def)
  have f: "field_of observation_keys ''ElapsedNanos'' = Some ''elapsedNanos''" "parse_int64 ''1'' = Some 1" by code_simp+
  have a: "assign_observation ob (''ElapsedNanos'', Jt_Number ''1'') = Some (ob\<lparr>ob_elapsed := 1\<rparr>)"
    by (simp add: assign_observation_def f typed_int_def)
  have v: "strict_tree (Jt_Number ''1'')" by simp
  from shadowed_field_accepted [OF ob(1) k v a] ob show ?thesis by blast
qed

section \<open>Comparisons\<close>

record comparison =
  cm_nanos :: rat
  cm_bytes :: rat
  cm_allocs :: rat
  cm_matched :: bool
  cm_raw_bytes :: int
  cm_raw_allocs :: int
  cm_caution :: string

fun check_observations :: "observation list \<Rightarrow> cross_error option" where
  "check_observations [] = None"
| "check_observations (ob # obs) =
     (if al_n (ob_allocation ob) < 2 \<or> ob_elapsed ob \<le> 0 then Some (Rejected ''invalid native observation'')
      else case paired_delta (ob_allocation ob) (ob_allocation ob) of
        Inl e \<Rightarrow> Some (Bad_sample e)
      | Inr _ \<Rightarrow> check_observations obs)"

definition rate_difference :: "int \<Rightarrow> int \<Rightarrow> int \<Rightarrow> int \<Rightarrow> rat" where
  "rate_difference a_total a_n b_total b_n = of_int b_total / of_int b_n - of_int a_total / of_int a_n"

definition unequal_caution :: string where
  "unequal_caution = ''adaptive unequal-N totals are not paired fixed-work deltas; rerun allocation-heavy operations with fixedN to check GC cadence''"

definition compare_observations :: "observation \<Rightarrow> observation \<Rightarrow> cross_error + comparison" where
  "compare_observations a b =
     (case check_observations [a, b] of
        Some e \<Rightarrow> Inl e
      | None \<Rightarrow>
          let x = ob_allocation a; y = ob_allocation b;
              result = \<lparr>cm_nanos = rate_difference (ob_elapsed a) (al_n x) (ob_elapsed b) (al_n y),
                cm_bytes = rate_difference (al_mem_bytes x) (al_n x) (al_mem_bytes y) (al_n y),
                cm_allocs = rate_difference (al_mem_allocs x) (al_n x) (al_mem_allocs y) (al_n y),
                cm_matched = False, cm_raw_bytes = 0, cm_raw_allocs = 0, cm_caution = []\<rparr> in
          if al_n x = al_n y then
            (case paired_delta x y of
               Inl e \<Rightarrow> Inl (Bad_sample e)
             | Inr d \<Rightarrow>
                 Inr (result\<lparr>cm_matched := True, cm_raw_bytes := de_mem_bytes d, cm_raw_allocs := de_mem_allocs d\<rparr>))
          else Inr (result\<lparr>cm_caution := unequal_caution\<rparr>))"

definition sound_observation :: "observation \<Rightarrow> bool" where
  "sound_observation ob = (exact_sample (ob_allocation ob) \<and> 2 \<le> al_n (ob_allocation ob) \<and> 0 < ob_elapsed ob)"

lemma self_delta:
  assumes "fits_int64 a"
  shows "(\<exists>d. paired_delta a a = Inr d) \<longleftrightarrow> exact_sample a"
  using paired_delta_value [OF assms assms] by blast

lemma check_observations_iff:
  assumes "list_all (\<lambda>ob. fits_int64 (ob_allocation ob)) obs"
  shows "check_observations obs = None \<longleftrightarrow> list_all sound_observation obs"
  using assms
proof (induction obs)
  case (Cons ob obs)
  have "fits_int64 (ob_allocation ob)" using Cons.prems by simp
  from self_delta [OF this] Cons show ?case
    by (cases "paired_delta (ob_allocation ob) (ob_allocation ob)") (auto simp: sound_observation_def)
qed simp

lemma assign_observation_fits:
  assumes "assign_observation ob m = Some ob'" and "fits_int64 (ob_allocation ob)"
  shows "fits_int64 (ob_allocation ob')"
  using assms decode_struct_fits [of "ob_allocation ob" "snd m" "ob_allocation ob'"]
  by (auto simp: assign_observation_def split: option.splits if_splits)

lemma typed_observation_fits:
  assumes "decode_struct assign_observation zero_observation v = Some ob"
  shows "fits_int64 (ob_allocation ob)"
proof -
  obtain ms where "decode_members assign_observation zero_observation ms = Some ob"
    using assms by (cases v) (auto simp: decode_struct_def)
  then show ?thesis
    by (rule decode_members_keep [where P = "\<lambda>ob. fits_int64 (ob_allocation ob)"])
      (auto simp: zero_observation_def zero_fits dest: assign_observation_fits)
qed

lemma read_observation_sound:
  assumes "read_observation lexer out n = Inr ob"
  shows "sound_observation ob \<and> fits_int64 (ob_allocation ob) \<and> (n \<noteq> 0 \<longrightarrow> al_n (ob_allocation ob) = n)"
proof -
  from assms obtain s d where t: "strict_decode typed_observation observation_kind s = Some ob"
    and b: "2 \<le> al_n (ob_allocation ob)" "0 < ob_elapsed ob" "n \<noteq> 0 \<longrightarrow> al_n (ob_allocation ob) = n"
    and d: "paired_delta (ob_allocation ob) (ob_allocation ob) = Inr d"
    by (auto simp: read_observation_def Let_def split: if_splits option.splits sum.splits)
  obtain v where "decode_struct assign_observation zero_observation v = Some ob"
    using strict_decode_typed [OF t] by (auto simp: typed_observation_def)
  then have f: "fits_int64 (ob_allocation ob)"
    using typed_observation_fits by blast
  show ?thesis using b d f self_delta [OF f] by (auto simp: sound_observation_def)
qed

text \<open>
  C39: comparisons of native observations are exact. For samples of 64-bit totals there is a comparison exactly when both
  observations are sound; its three differences, of the time, the bytes and the allocations, are those of the rational
  rates per operation, each observation's total over its own iteration count, and only for equal iteration counts does it name matched raw totals, which are then the integer differences and that count times the
  difference of the rates.
\<close>

theorem comparison_exact:
  assumes "fits_int64 (ob_allocation a)" and "fits_int64 (ob_allocation b)"
  shows "case compare_observations a b of
      Inl _ \<Rightarrow> \<not> (sound_observation a \<and> sound_observation b)
    | Inr c \<Rightarrow>
        sound_observation a \<and> sound_observation b \<and>
        cm_nanos c = of_int (ob_elapsed b) / of_int (al_n (ob_allocation b)) -
          of_int (ob_elapsed a) / of_int (al_n (ob_allocation a)) \<and>
        cm_bytes c = of_int (al_mem_bytes (ob_allocation b)) / of_int (al_n (ob_allocation b)) -
          of_int (al_mem_bytes (ob_allocation a)) / of_int (al_n (ob_allocation a)) \<and>
        cm_allocs c = of_int (al_mem_allocs (ob_allocation b)) / of_int (al_n (ob_allocation b)) -
          of_int (al_mem_allocs (ob_allocation a)) / of_int (al_n (ob_allocation a)) \<and>
        cm_matched c = (al_n (ob_allocation a) = al_n (ob_allocation b)) \<and> (cm_caution c = []) = cm_matched c \<and>
        (if cm_matched c
         then cm_raw_bytes c = al_mem_bytes (ob_allocation b) - al_mem_bytes (ob_allocation a) \<and>
           of_int (cm_raw_bytes c) = of_int (al_n (ob_allocation a)) * cm_bytes c \<and>
           cm_raw_allocs c = al_mem_allocs (ob_allocation b) - al_mem_allocs (ob_allocation a) \<and>
           of_int (cm_raw_allocs c) = of_int (al_n (ob_allocation a)) * cm_allocs c
         else cm_raw_bytes c = 0 \<and> cm_raw_allocs c = 0)"
proof (cases "check_observations [a, b]")
  case (Some e)
  then show ?thesis using check_observations_iff [of "[a, b]"] assms by (auto simp: compare_observations_def)
next
  case None
  then have s: "sound_observation a" "sound_observation b" using check_observations_iff [of "[a, b]"] assms by auto
  have pos: "0 < al_n (ob_allocation a)" "0 < al_n (ob_allocation b)" using s by (auto simp: sound_observation_def)
  show ?thesis
  proof (cases "al_n (ob_allocation a) = al_n (ob_allocation b)")
    case True
    have "paired_delta (ob_allocation a) (ob_allocation b) =
      Inr \<lparr>de_n = al_n (ob_allocation a), de_mem_bytes = al_mem_bytes (ob_allocation b) - al_mem_bytes (ob_allocation a),
        de_mem_allocs = al_mem_allocs (ob_allocation b) - al_mem_allocs (ob_allocation a)\<rparr>"
      using paired_delta_value [OF assms] s True by (simp add: sound_observation_def)
    then show ?thesis
      using True None s pos by (simp add: compare_observations_def rate_difference_def Let_def field_simps)
  next
    case False
    then show ?thesis
      using None s by (simp add: compare_observations_def rate_difference_def Let_def unequal_caution_def)
  qed
qed

definition demo_observation :: "int \<Rightarrow> int \<Rightarrow> observation" where
  "demo_observation bytes nanos = \<lparr>ob_allocation = sample_allocation bytes, ob_elapsed = nanos\<rparr>"

theorem comparison_exact_witness:
  "\<exists>c. compare_observations (demo_observation 10 8) (demo_observation 7 4) = Inr c \<and> cm_nanos c = - 1 \<and> cm_raw_bytes c = - 3"
proof -
  have f: "fits_int64 (ob_allocation (demo_observation 10 8))" "fits_int64 (ob_allocation (demo_observation 7 4))"
    by (simp_all add: fits_int64_def demo_observation_def sample_allocation_def int64_def)
  have s: "sound_observation (demo_observation 10 8)" "sound_observation (demo_observation 7 4)"
    by (simp_all add: sound_observation_def exact_sample_def demo_observation_def sample_allocation_def)
  show ?thesis
    using comparison_exact [OF f] s
    by (cases "compare_observations (demo_observation 10 8) (demo_observation 7 4)")
      (auto simp: demo_observation_def sample_allocation_def)
qed

section \<open>Original benchmarks\<close>

record printed_benchmark =
  pb_n :: int
  pb_nanos :: string
  pb_bytes :: int
  pb_allocs :: int
  pb_metrics :: "(string \<times> string) list"

definition benchmark_units :: "string list" where
  "benchmark_units = [''ns/op'', ''B/op'', ''allocs/op'', ''GB/s'', ''MB/s'']"

text \<open>The value and unit columns: no unit twice, no other unit.\<close>

fun read_columns :: "(string \<times> string) list \<Rightarrow> string list \<Rightarrow> cross_error + (string \<times> string) list" where
  "read_columns columns (v # u # words) =
     (if u \<in> fst ` set columns then Inl (Rejected ''duplicated original benchmark metric'')
      else if u \<notin> set benchmark_units then Inl (Rejected ''unsupported original benchmark metric'')
      else read_columns (columns @ [(u, v)]) words)"
| "read_columns columns _ = Inr columns"

definition column :: "(string \<times> string) list \<Rightarrow> string \<Rightarrow> string" where
  "column columns u = (case map_of columns u of Some v \<Rightarrow> v | None \<Rightarrow> [])"

fun read_metrics :: "(string \<Rightarrow> rat option) \<Rightarrow> (string \<times> string) list \<Rightarrow> string list \<Rightarrow>
    cross_error + (string \<times> string) list" where
  "read_metrics rat_of columns [] = Inr []"
| "read_metrics rat_of columns (u # us) =
     (case map_of columns u of
        None \<Rightarrow> read_metrics rat_of columns us
      | Some v \<Rightarrow>
          (case rat_of v of
             None \<Rightarrow> Inl (Rejected ''invalid original benchmark throughput'')
           | Some q \<Rightarrow>
               if q < 0 then Inl (Rejected ''invalid original benchmark throughput'')
               else case read_metrics rat_of columns us of Inl e \<Rightarrow> Inl e | Inr ms \<Rightarrow> Inr ((u, v) # ms)))"

definition read_row :: "(string \<Rightarrow> rat option) \<Rightarrow> string \<Rightarrow> int \<Rightarrow> string list \<Rightarrow> cross_error + printed_benchmark" where
  "read_row rat_of name fixed_n words =
     (if words ! 0 \<noteq> name \<or> length words < 8 \<or> length words mod 2 \<noteq> 0
      then Inl (Rejected ''original benchmark emitted unexpected row or columns'')
      else case parse_int64 (words ! 1) of
        None \<Rightarrow> Inl (Rejected ''original benchmark actualN invalid'')
      | Some n \<Rightarrow>
          if n < 2 \<or> fixed_n > 0 \<and> n \<noteq> fixed_n then Inl (Rejected ''original benchmark actualN invalid'')
          else case read_columns [] (drop 2 words) of
            Inl e \<Rightarrow> Inl e
          | Inr columns \<Rightarrow>
              (case rat_of (column columns ''ns/op'') of
                 None \<Rightarrow> Inl (Rejected ''original benchmark timing invalid'')
               | Some nanos \<Rightarrow>
                   if nanos \<le> 0 then Inl (Rejected ''original benchmark timing invalid'')
                   else case parse_int64 (column columns ''B/op'') of
                     None \<Rightarrow> Inl (Rejected ''original benchmark allocation quotient invalid'')
                   | Some bytes \<Rightarrow>
                       if bytes < 0 then Inl (Rejected ''original benchmark allocation quotient invalid'')
                       else case parse_int64 (column columns ''allocs/op'') of
                         None \<Rightarrow> Inl (Rejected ''original benchmark allocation count invalid'')
                       | Some allocs \<Rightarrow>
                           if allocs < 0 then Inl (Rejected ''original benchmark allocation count invalid'')
                           else case read_metrics rat_of columns [''GB/s'', ''MB/s''] of
                             Inl e \<Rightarrow> Inl e
                           | Inr ms \<Rightarrow>
                               Inr \<lparr>pb_n = n, pb_nanos = column columns ''ns/op'', pb_bytes = bytes, pb_allocs = allocs,
                                 pb_metrics = ms\<rparr>))"

text \<open>The loop over the lines, with the rows and the passes counted and the last row read.\<close>

fun original_lines :: "(string \<Rightarrow> rat option) \<Rightarrow> string \<Rightarrow> int \<Rightarrow> printed_benchmark option \<Rightarrow> nat \<Rightarrow> nat \<Rightarrow> string list \<Rightarrow>
    cross_error + printed_benchmark option \<times> nat \<times> nat" where
  "original_lines rat_of name fixed_n acc rows passes [] = Inr (acc, rows, passes)"
| "original_lines rat_of name fixed_n acc rows passes (l # ls) =
     (let line = trim_space l; words = str_fields line in
      if line = ''PASS'' then original_lines rat_of name fixed_n acc rows (Suc passes) ls
      else if words = [] then original_lines rat_of name fixed_n acc rows passes ls
      else if has_prefix (words ! 0) ''Benchmark'' then
        (case read_row rat_of name fixed_n words of
           Inl e \<Rightarrow> Inl e
         | Inr pb \<Rightarrow> original_lines rat_of name fixed_n (Some pb) (Suc rows) passes ls)
      else if \<not> has_prefix line ''goos: '' \<and> \<not> has_prefix line ''goarch: '' \<and> \<not> has_prefix line ''pkg: '' \<and>
          \<not> has_prefix line ''cpu: ''
      then Inl (Rejected ''original benchmark emitted failure or unexpected output'')
      else original_lines rat_of name fixed_n acc rows passes ls)"

definition shape_name :: "string \<Rightarrow> int \<Rightarrow> string" where
  "shape_name pattern sz =
     (case str_cut pattern ''{n}'' of None \<Rightarrow> pattern | Some (before, after) \<Rightarrow> before @ itoa sz @ after)"

definition read_original ::
  "(string \<Rightarrow> rat option) \<Rightarrow> string \<Rightarrow> string \<Rightarrow> int \<Rightarrow> int \<Rightarrow> int \<Rightarrow> cross_error + printed_benchmark" where
  "read_original rat_of out pattern sz procs fixed_n =
     (if str_count pattern ''{n}'' \<noteq> 1 then Inl (Rejected ''invalid original benchmark shape selector'')
      else case original_lines rat_of (shape_name pattern sz @ ''-'' @ itoa procs) fixed_n None 0 0
          (split_on (CHR 0x0A) (trim_space out)) of
        Inl e \<Rightarrow> Inl e
      | Inr (acc, rows, passes) \<Rightarrow>
          (case acc of
             Some pb \<Rightarrow>
               if rows \<noteq> 1 \<or> passes \<noteq> 1 then Inl (Rejected ''original benchmark matrix cell is missing or duplicated'')
               else Inr pb
           | None \<Rightarrow> Inl (Rejected ''original benchmark matrix cell is missing or duplicated'')))"

definition row_line :: "string \<Rightarrow> bool" where
  "row_line l =
     (trim_space l \<noteq> ''PASS'' \<and> str_fields (trim_space l) \<noteq> [] \<and> has_prefix (str_fields (trim_space l) ! 0) ''Benchmark'')"

definition plain_line :: "string \<Rightarrow> bool" where
  "plain_line l =
     (trim_space l = ''PASS'' \<or> str_fields (trim_space l) = [] \<or>
      list_ex (has_prefix (trim_space l)) [''goos: '', ''goarch: '', ''pkg: '', ''cpu: ''])"

definition line_row :: "(string \<Rightarrow> rat option) \<Rightarrow> string \<Rightarrow> int \<Rightarrow> string \<Rightarrow> printed_benchmark option" where
  "line_row rat_of name fixed_n l =
     (case read_row rat_of name fixed_n (str_fields (trim_space l)) of Inl _ \<Rightarrow> None | Inr pb \<Rightarrow> Some pb)"

lemma original_lines_iff:
  "original_lines rat_of name fixed_n acc rows passes ls = Inr r \<longleftrightarrow>
     list_all (\<lambda>l. if row_line l then line_row rat_of name fixed_n l \<noteq> None else plain_line l) ls \<and>
     r = (foldl (\<lambda>a l. if row_line l then line_row rat_of name fixed_n l else a) acc ls,
       rows + length (filter row_line ls), passes + length (filter (\<lambda>l. trim_space l = ''PASS'') ls))"
proof (induction ls arbitrary: acc rows passes)
  case (Cons l ls)
  show ?case
  proof (cases "row_line l")
    case True
    then show ?thesis
      using Cons.IH by (auto simp: row_line_def line_row_def Let_def split: sum.splits)
  next
    case False
    consider "trim_space l = ''PASS''" | "trim_space l \<noteq> ''PASS''" "str_fields (trim_space l) = []"
      | "trim_space l \<noteq> ''PASS''" "str_fields (trim_space l) \<noteq> []" "\<not> has_prefix (str_fields (trim_space l) ! 0) ''Benchmark''"
      using False by (auto simp: row_line_def)
    then show ?thesis
      using Cons.IH False by cases (auto simp: plain_line_def Let_def row_line_def)
  qed
qed auto

lemma foldl_single:
  "filter p ls = [l] \<Longrightarrow> foldl (\<lambda>a l. if p l then f l else a) acc ls = f l"
proof -
  have "foldl (\<lambda>a l. if p l then f l else a) acc ls = foldl (\<lambda>a l. f l) acc (filter p ls)"
    by (induction ls arbitrary: acc) auto
  then show "filter p ls = [l] \<Longrightarrow> foldl (\<lambda>a l. if p l then f l else a) acc ls = f l" by simp
qed

lemma single_row:
  "list_all (\<lambda>l. if p l then f l \<noteq> None else q l) ls \<and> foldl (\<lambda>a l. if p l then f l else a) None ls = Some x \<and>
     length (filter p ls) = 1 \<longleftrightarrow>
   (\<exists>l. filter p ls = [l] \<and> f l = Some x) \<and> list_all (\<lambda>l. if p l then True else q l) ls"
proof (cases "length (filter p ls) = 1")
  case True
  then obtain l where l: "filter p ls = [l]" by (auto simp: length_Suc_conv)
  have only: "y = l" if "y \<in> set ls" "p y" for y
  proof -
    have "y \<in> set (filter p ls)" using that by simp
    then show "y = l" unfolding l by simp
  qed
  have "list_all (\<lambda>l. if p l then f l \<noteq> None else q l) ls \<longleftrightarrow> list_all (\<lambda>l. if p l then True else q l) ls"
    if "f l = Some x" using that only by (auto simp: list_all_iff)
  moreover have "(\<exists>l. filter p ls = [l] \<and> f l = Some x) \<longleftrightarrow> f l = Some x" using l by simp
  ultimately show ?thesis unfolding foldl_single [OF l, of f None] using True by blast
next
  case False
  then show ?thesis by auto
qed

text \<open>
  The output of an original benchmark is accepted exactly when it is the single row of the matrix cell: one
  line is a benchmark row and reads as a row of that name, shape, process count and iteration count, one line is \<open>PASS\<close>, and
  every other line is blank or a header of the test binary; the result is what the row says.
\<close>

theorem original_exact:
  "read_original rat_of out pattern sz procs fixed_n = Inr pb \<longleftrightarrow>
     str_count pattern ''{n}'' = 1 \<and>
     (\<exists>l. filter row_line (split_on (CHR 0x0A) (trim_space out)) = [l] \<and>
       line_row rat_of (shape_name pattern sz @ ''-'' @ itoa procs) fixed_n l = Some pb) \<and>
     length (filter (\<lambda>l. trim_space l = ''PASS'') (split_on (CHR 0x0A) (trim_space out))) = 1 \<and>
     list_all (\<lambda>l. if row_line l then True else plain_line l) (split_on (CHR 0x0A) (trim_space out))"
proof -
  have "read_original rat_of out pattern sz procs fixed_n = Inr pb \<longleftrightarrow> str_count pattern ''{n}'' = 1 \<and>
      original_lines rat_of (shape_name pattern sz @ ''-'' @ itoa procs) fixed_n None 0 0
        (split_on (CHR 0x0A) (trim_space out)) = Inr (Some pb, 1, 1)"
    by (auto simp: read_original_def split: sum.splits option.splits if_splits)
  then show ?thesis
    unfolding original_lines_iff prod.inject sum.inject add_0
    using single_row [of row_line "line_row rat_of (shape_name pattern sz @ ''-'' @ itoa procs) fixed_n" plain_line
        "split_on (CHR 0x0A) (trim_space out)" pb]
    unfolding eq_commute [of "Some pb"] eq_commute [of 1 "length _"] by blast
qed

end
