(* ===== verification/Crossover.thy ===== *)
theory Crossover
  imports Coefficient Contracts_Workspace Crossover_Data
begin

text \<open>
  Verification of a crossover campaign (\<open>internal/crossover/campaign.go\<close>): \<open>VerifyCampaign\<close> with \<open>prepare\<close>,
  \<open>preflightInvocations\<close>, \<open>externalPin\<close>, \<open>Fresh\<close> and \<open>packageDir\<close>, the typed inputs of \<open>source_inputs.go\<close> and
  \<open>ReadInvocation\<close> of the allocation campaign. The typed source model, the rendered harness, the selected SDK and the
  controlled build come from outside and are parameters; so are the lexer and the decoders of the two artifacts.
\<close>

section \<open>Data\<close>

record portable_build = binary_build +
  po_data :: string
  po_portable :: string
  po_go_files :: "(string \<times> string) list"
  po_package_files :: "(string \<times> string list) list"

record cross_plan =
  cp_schema :: int
  cp_snapshot :: snapshot
  cp_contract :: dispatch_crossover_contract
  cp_package :: string
  cp_flags :: string
  cp_boundary :: int
  cp_n :: int
  cp_duration :: string
  cp_timeout :: int
  cp_sdk :: string
  cp_pairs :: int
  cp_sizes :: "int list"
  cp_procs :: "int list"
  cp_harness :: string
  cp_build :: binary_build
  cp_portable :: string
  cp_runtime :: "(string \<times> string) list"
  cp_invocations :: "cell list"

record raw_invocation =
  ri_exit :: int
  ri_stdout :: string
  ri_stderr :: string

record cross_record =
  cr_cell :: cell
  cr_raw :: raw_invocation

record cross_pair =
  xp_cell :: cell
  xp_a :: observation
  xp_b :: observation
  xp_comparison :: comparison

record original_sample =
  os_cell :: cell
  os_printed :: printed_benchmark

record cross_report =
  xr_pairs :: "cross_pair list"
  xr_original :: "original_sample list"

record build_selection =
  bs_root :: string
  bs_pattern :: string
  bs_go_binary :: string
  bs_flags :: string
  bs_experiment :: string
  bs_level :: string

text \<open>What the verification looks at of the model of the typed source.\<close>

record harness_model =
  hm_boundary :: int
  hm_source :: "(string \<times> string) list"
  hm_typed_files :: "(string \<times> string) list"
  hm_package_files :: "(string \<times> string list) list"
  hm_sizes :: "int list"

record cross_env =
  xe_ids :: id_env
  xe_goos :: string
  xe_goarch :: string
  xe_cancelled :: bool
  xe_lexer :: "string \<Rightarrow> json_stream"
  xe_plan :: "json_tree \<Rightarrow> cross_plan option"
  xe_records :: "json_tree \<Rightarrow> cross_record list option"
  xe_duration :: "string \<Rightarrow> int option"
  xe_rat :: "string \<Rightarrow> rat option"
  xe_snapshot :: snapshot_tools
  xe_factory :: "build_selection \<Rightarrow> dispatch_crossover_contract \<Rightarrow> harness_model option"
  xe_generate :: "harness_model \<Rightarrow> dispatch_crossover_contract \<Rightarrow> string option"
  xe_environment :: "build_selection \<Rightarrow> string option"
  xe_collect :: "string \<Rightarrow> string \<Rightarrow> string \<Rightarrow> portable_build option"
  xe_canonical :: "string \<Rightarrow> string option"

datatype entry_kind = Entry_regular | Entry_directory | Entry_symlink | Entry_other

definition digest :: "cross_env \<Rightarrow> string \<Rightarrow> string" where
  "digest e data = th_sha256 (sn_hashes (xe_snapshot e)) data"

definition need :: "bool \<Rightarrow> string \<Rightarrow> cross_error + unit" where
  "need b message = (if b then Inr () else Inl (Rejected message))"

lemma need_Inr [simp]: "need b message = Inr u \<longleftrightarrow> b"
  by (simp add: need_def)

definition given :: "string \<Rightarrow> 'a option \<Rightarrow> cross_error + 'a" where
  "given what r = (case r of None \<Rightarrow> Inl (Not_read what) | Some x \<Rightarrow> Inr x)"

lemma given_Inr [simp]: "given what r = Inr x \<longleftrightarrow> r = Some x"
  by (simp add: given_def split: option.splits)

definition dir_file :: "tree_state \<Rightarrow> string \<Rightarrow> string \<Rightarrow> cross_error + string" where
  "dir_file st dir name = given name (read_file st (path_join [dir, name]))"

lemma dir_file_Inr [simp]: "dir_file st dir name = Inr s \<longleftrightarrow> snapshot_file st dir name = Some s"
  by (simp add: dir_file_def snapshot_file_def)

section \<open>Pins and inputs\<close>

definition external_pin :: "string \<Rightarrow> bool" where
  "external_pin pin = (if length pin \<noteq> 64 \<or> ascii_lower pin \<noteq> pin then False else hex_ok pin)"

definition is_local :: "string \<Rightarrow> bool" where
  "is_local p =
     (if is_abs p \<or> p = [] then False
      else let q = (if list_ex (\<lambda>c. c = ''.'' \<or> c = ''..'') (split_on sep p) then path_clean p else p) in
        \<not> (q = ''..'' \<or> has_prefix q [CHR ''.'', CHR ''.'', sep]))"

definition package_dir :: "string \<Rightarrow> string \<Rightarrow> cross_error + string" where
  "package_dir top_dir pattern =
     (if pattern \<noteq> ''.'' \<and> \<not> has_prefix pattern ''./''
      then Inl (Rejected ''campaign requires an exact relative package directory'')
      else let relative = trim_prefix pattern ''./'' in
        if \<not> is_local relative then Inl (Rejected ''package escapes retained snapshot'')
        else Inr (path_join [top_dir, relative]))"

fun check_typed_files :: "cross_env \<Rightarrow> tree_state \<Rightarrow> (string \<times> string) list \<Rightarrow> cross_error + unit" where
  "check_typed_files e st [] = Inr ()"
| "check_typed_files e st ((path, pin) # fs) =
     (if xe_cancelled e then Inl (Rejected ''context canceled'')
      else if xe_canonical e path \<noteq> Some path
      then Inl (Rejected (''typed model input path changed before compilation: '' @ path))
      else case read_file st path of
        None \<Rightarrow> Inl (Rejected (''typed model input unavailable before compilation: '' @ path))
      | Some data \<Rightarrow>
          if digest e data \<noteq> pin
          then Inl (Rejected (''typed model Go/test/dependency inputs changed before compilation: '' @ path))
          else check_typed_files e st fs)"

definition preflight_typed_inputs :: "cross_env \<Rightarrow> tree_state \<Rightarrow> harness_model \<Rightarrow> cross_error + unit" where
  "preflight_typed_inputs e st m =
     (if hm_source m = [] \<or> hm_typed_files m = [] \<or> hm_package_files m = []
      then Inl (Rejected ''typed model did not observe complete selected source bytes and inventories'')
      else if list_ex (\<lambda>(_, files). files = []) (hm_package_files m)
      then Inl (Rejected ''typed model has an empty selected package inventory'')
      else then_ok (check_typed_files e st (hm_typed_files m)) (\<lambda>_.
        need (\<not> xe_cancelled e) ''context canceled''))"

definition looked_up :: "(string \<times> 'a list) list \<Rightarrow> string \<Rightarrow> 'a list" where
  "looked_up m k = (case map_of m k of Some xs \<Rightarrow> xs | None \<Rightarrow> [])"

definition validate_typed_inputs :: "harness_model \<Rightarrow> portable_build \<Rightarrow> string \<Rightarrow> cross_error + unit" where
  "validate_typed_inputs m b physical_harness =
     (if hm_source m = [] \<or> \<not> same_map (hm_source m) (bb_source_sha256 b)
      then Inl (Rejected ''typed model source partition differs from controlled compiler inputs'')
      else if hm_typed_files m = [] \<or> hm_package_files m = []
      then Inl (Rejected ''typed model did not observe complete selected source bytes and inventories'')
      else if list_ex (\<lambda>(path, pin). looked_up (po_go_files b) path \<noteq> pin) (hm_typed_files m)
      then Inl (Rejected ''typed model Go/test/dependency inputs differ from controlled compiler inputs'')
      else if list_ex (\<lambda>(_, files). files = []) (hm_package_files m)
      then Inl (Rejected ''typed model has an empty selected package inventory'')
      else need (list_all (\<lambda>(id, files). files = filter (\<lambda>f. f \<noteq> physical_harness) (looked_up (po_package_files b) id))
          (hm_package_files m))
        ''typed model selected package file inventory differs from controlled compiler'')"

section \<open>Reproducing the build\<close>

definition harness_file :: string where
  "harness_file = ''perfscan_crossover_diagnostic_test.go''"

text \<open>The harness is written only for the build; it must not exist before and is removed afterwards.\<close>

definition prepare :: "cross_env \<Rightarrow> tree_state \<Rightarrow> string \<Rightarrow> string \<Rightarrow> cross_plan \<Rightarrow> cross_error + portable_build" where
  "prepare e st top_dir go_binary p =
     (let selection = \<lparr>bs_root = top_dir, bs_pattern = cp_package p, bs_go_binary = go_binary, bs_flags = cp_flags p,
        bs_experiment = bb_goexperiment (cp_build p), bs_level = bb_architecture_level (cp_build p)\<rparr> in
      then_ok (given ''model'' (xe_factory e selection (cp_contract p))) (\<lambda>m.
      then_ok (preflight_typed_inputs e st m) (\<lambda>_.
      then_ok (need (hm_boundary m = cp_boundary p) ''observed source threshold differs from declared campaign matrix'') (\<lambda>_.
      then_ok (need (list_all (\<lambda>n. n \<in> set (hm_sizes m)) (cp_sizes p))
        ''campaign size is absent from source-bound original benchmark matrix'') (\<lambda>_.
      then_ok (given ''harness'' (xe_generate e m (cp_contract p))) (\<lambda>harness.
      then_ok (need (digest e harness = cp_harness p) ''harness differs from regenerated complete production bodies'') (\<lambda>_.
      then_ok (package_dir top_dir (cp_package p)) (\<lambda>dir.
      let path = path_join [dir, harness_file] in
      then_ok (need (read_file st path = None \<and> is_directory st dir) ''harness exists'') (\<lambda>_.
      then_ok (given ''environment'' (xe_environment e selection)) (\<lambda>selected.
      then_ok (need (\<not> (cp_sdk p \<noteq> [] \<and> cp_sdk p \<noteq> selected))
        ''independently selected SDK differs from retained observed SDK identity'') (\<lambda>_.
      then_ok (given ''build'' (xe_collect e top_dir (cp_package p) selected)) (\<lambda>build.
      then_ok (given ''resolve generated harness'' (xe_canonical e path)) (\<lambda>physical.
      then_ok (validate_typed_inputs m build physical) (\<lambda>_. Inr build))))))))))))))"

definition same_build :: "binary_build \<Rightarrow> binary_build \<Rightarrow> bool" where
  "same_build a b =
     (a\<lparr>bb_source_sha256 := []\<rparr> = b\<lparr>bb_source_sha256 := []\<rparr> \<and> same_map (bb_source_sha256 a) (bb_source_sha256 b))"

text \<open>Whether a build observed now is the one a plan was made for.\<close>

definition fresh :: "portable_build option \<Rightarrow> cross_plan option \<Rightarrow> bool" where
  "fresh build plan =
     (case (build, plan) of
        (Some b, Some p) \<Rightarrow>
          po_portable b \<noteq> [] \<and> po_portable b = cp_portable p \<and> bb_toolchain_sha256 b = bb_toolchain_sha256 (cp_build p) \<and>
          bb_go_version b = bb_go_version (cp_build p) \<and> bb_goos b = bb_goos (cp_build p) \<and>
          bb_goarch b = bb_goarch (cp_build p) \<and> bb_architecture_level b = bb_architecture_level (cp_build p) \<and>
          bb_cgo_enabled b = bb_cgo_enabled (cp_build p) \<and> bb_goflags b = bb_goflags (cp_build p) \<and>
          bb_goexperiment b = bb_goexperiment (cp_build p)
      | _ \<Rightarrow> False)"

section \<open>Retained invocations\<close>

definition read_invocation :: "cross_env \<Rightarrow> tree_state \<Rightarrow> string \<Rightarrow> string \<Rightarrow> raw_invocation \<Rightarrow> cross_error + string" where
  "read_invocation e st dir name r =
     (if name = [] \<or> path_base name \<noteq> name \<or> name = ''.'' \<or> name = ''..''
      then Inl (Rejected ''invalid raw invocation artifact name'')
      else then_ok (dir_file st dir (name @ ''.stdout'')) (\<lambda>out.
        then_ok (dir_file st dir (name @ ''.stderr'')) (\<lambda>errout.
        then_ok (dir_file st dir (name @ ''.exit'')) (\<lambda>code.
        then_ok (need (digest e out = ri_stdout r \<and> digest e errout = ri_stderr r \<and> code = exit_text (ri_exit r))
          ''raw invocation stream/status hash mismatch'') (\<lambda>_.
        then_ok (need (ri_exit r = 0) ''raw invocation failed; retained evidence is rejected'') (\<lambda>_. Inr out))))))"

definition sample_name :: "nat \<Rightarrow> string" where
  "sample_name i = ''sample-'' @ itoa (int i)"

fun preflight_loop :: "cross_env \<Rightarrow> tree_state \<Rightarrow> string \<Rightarrow> nat \<Rightarrow> cell list \<Rightarrow> cross_record list \<Rightarrow> cross_error + unit" where
  "preflight_loop e st dir i (c # cs) (r # rs) =
     (if cr_cell r \<noteq> c then Inl (Rejected ''sample order or cell differs from predeclared plan'')
      else then_ok (read_invocation e st dir (sample_name i) (cr_raw r)) (\<lambda>_. preflight_loop e st dir (Suc i) cs rs))"
| "preflight_loop e st dir i _ _ = Inr ()"

definition preflight_invocations ::
  "cross_env \<Rightarrow> tree_state \<Rightarrow> string \<Rightarrow> cell list \<Rightarrow> cross_record list \<Rightarrow> cross_error + unit" where
  "preflight_invocations e st dir cells records =
     (if length records \<noteq> length cells then Inl (Rejected ''incomplete campaign invocation inventory'')
      else preflight_loop e st dir 0 cells records)"

section \<open>Samples and pairs\<close>

definition original_scope :: string where "original_scope = ''original-benchmark''"

text \<open>The samples in the order of the plan: native observations by their cell, printed benchmarks in a list.\<close>

fun read_cells :: "cross_env \<Rightarrow> tree_state \<Rightarrow> string \<Rightarrow> cross_plan \<Rightarrow> nat \<Rightarrow> (cell \<times> observation) list \<Rightarrow>
    original_sample list \<Rightarrow> cell list \<Rightarrow> cross_record list \<Rightarrow>
    cross_error + (cell \<times> observation) list \<times> original_sample list" where
  "read_cells e st dir p i obs originals (c # cs) (r # rs) =
     (if cr_cell r \<noteq> c then Inl (Rejected ''sample order or cell differs from predeclared plan'')
      else then_ok (read_invocation e st dir (sample_name i) (cr_raw r)) (\<lambda>out.
        if ce_scope c = original_scope then
          then_ok (read_original (xe_rat e) out (dc_production_benchmark (cp_contract p)) (ce_size c) (ce_procs c) (cp_n p))
            (\<lambda>pb. read_cells e st dir p (Suc i) obs (originals @ [\<lparr>os_cell = c, os_printed = pb\<rparr>]) cs rs)
        else
          then_ok (read_observation (xe_lexer e) out (cp_n p))
            (\<lambda>ob. read_cells e st dir p (Suc i) ((c, ob) # obs) originals cs rs)))"
| "read_cells e st dir p i obs originals _ _ = Inr (obs, originals)"

definition partner :: "cell \<Rightarrow> cell" where
  "partner c =
     (let other = c\<lparr>ce_arm := ''parallel''\<rparr> in
      if ce_phase other \<noteq> ''control'' then other\<lparr>ce_selection := ''parallel''\<rparr> else other)"

definition observed :: "(cell \<times> observation) list \<Rightarrow> cell \<Rightarrow> observation" where
  "observed obs c = (case map_of obs c of Some ob \<Rightarrow> ob | None \<Rightarrow> zero_observation)"

definition paired_cell :: "cell \<Rightarrow> bool" where
  "paired_cell c = (\<not> (ce_arm c \<noteq> ''serial'' \<or> ce_scope c = original_scope))"

fun pair_cells_up :: "(cell \<times> observation) list \<Rightarrow> cell list \<Rightarrow> cross_error + cross_pair list" where
  "pair_cells_up obs [] = Inr []"
| "pair_cells_up obs (c # cs) =
     (if \<not> paired_cell c then pair_cells_up obs cs
      else let a = observed obs c; b = observed obs (partner c) in
        then_ok (compare_observations a b) (\<lambda>cm.
        then_ok (pair_cells_up obs cs) (\<lambda>ps. Inr (\<lparr>xp_cell = c, xp_a = a, xp_b = b, xp_comparison = cm\<rparr> # ps))))"

section \<open>Verification of a campaign\<close>

definition contract_kind :: go_kind where
  "contract_kind =
     Gk_Struct (map (\<lambda>(n, k). (n, k, Gk_Other))
       [(''DispatchFunction'', ''dispatchFunction''), (''ThresholdConstant'', ''thresholdConstant''),
        (''SerialPolicy'', ''serialPolicy''), (''ParallelPolicy'', ''parallelPolicy''),
        (''SerialOperation'', ''serialOperation''), (''ParallelOperation'', ''parallelOperation''),
        (''WorkerRunner'', ''workerRunner'')] @
       (''LeafKernels'', ''leafKernels'', Gk_Slice Gk_Other) #
       map (\<lambda>(n, k). (n, k, Gk_Other))
       [(''DiagnosticFunction'', ''diagnosticFunction''), (''OperationInputFactory'', ''operationInputFactory''),
        (''ProductionBenchmark'', ''productionBenchmark''), (''Campaign'', ''campaign''), (''PlanSHA256'', ''planSHA256''),
        (''RecordsSHA256'', ''recordsSHA256''), (''EvidenceGoBinary'', ''evidenceGoBinary'')])"

definition cross_cell_kind :: go_kind where
  "cross_cell_kind =
     Gk_Struct (map (\<lambda>(n, k). (n, k, Gk_Other))
       [(''Pair'', ''pair''), (''Size'', ''size''), (''Procs'', ''gomaxprocs''), (''Scope'', ''scope''), (''Phase'', ''phase''),
        (''Arm'', ''arm''), (''Selection'', ''selection'')])"

definition controlled_build_kind :: go_kind where
  "controlled_build_kind =
     Gk_Struct (map (\<lambda>(n, k). (n, k, Gk_Other))
       [(''Package'', ''package''), (''GoVersion'', ''goVersion''), (''GOOS'', ''goos''), (''GOARCH'', ''goarch''),
        (''GOFLAGS'', ''goflags''), (''GOEXPERIMENT'', ''goexperiment''), (''ArchitectureLevel'', ''architectureLevel''),
        (''CGOEnabled'', ''cgoEnabled''), (''MaterialSHA256'', ''materialSHA256''), (''ToolchainSHA256'', ''toolchainSHA256''),
        (''BinarySHA256'', ''binarySHA256''), (''SourceSHA256'', ''sourceSHA256''), (''Data'', ''-''),
        (''PortableMaterialSHA256'', ''-''), (''ControlledGoFileSHA256'', ''-''), (''ControlledPackageFiles'', ''-'')])"

definition cross_plan_kind :: go_kind where
  "cross_plan_kind =
     Gk_Struct [(''Schema'', ''schema'', Gk_Other),
       (''Snapshot'', ''snapshot'', Gk_Struct [(''Commit'', ''commit'', Gk_Other),
         (''ArchiveSHA256'', ''archiveSHA256'', Gk_Other), (''TreeSHA256'', ''treeSHA256'', Gk_Other)]),
       (''Contract'', ''contract'', contract_kind), (''Package'', ''package'', Gk_Other), (''Flags'', ''flags'', Gk_Other),
       (''Boundary'', ''observedBoundary'', Gk_Other), (''N'', ''fixedN'', Gk_Other),
       (''Duration'', ''adaptiveDuration'', Gk_Other), (''TimeoutNanos'', ''invocationTimeoutNanos'', Gk_Other),
       (''SDKGoBinary'', ''observedSDKGoBinary'', Gk_Other), (''Pairs'', ''pairs'', Gk_Other),
       (''Sizes'', ''sizes'', Gk_Slice Gk_Other), (''Procs'', ''procs'', Gk_Slice Gk_Other),
       (''HarnessSHA256'', ''harnessSHA256'', Gk_Other), (''Build'', ''controlledBuild'', controlled_build_kind),
       (''PortableMaterialSHA256'', ''portableMaterialSHA256'', Gk_Other), (''Runtime'', ''runtimeEnvironment'', Gk_Other),
       (''Invocations'', ''invocations'', Gk_Slice cross_cell_kind)]"

definition cross_records_kind :: go_kind where
  "cross_records_kind =
     Gk_Slice (Gk_Struct [(''Invocation'', ''invocation'', cross_cell_kind),
       (''Raw'', ''raw'', Gk_Struct [(''Exit'', ''exit'', Gk_Other), (''StdoutSHA256'', ''stdoutSHA256'', Gk_Other),
         (''StderrSHA256'', ''stderrSHA256'', Gk_Other)])])"

definition cross_decode :: "cross_env \<Rightarrow> (json_tree \<Rightarrow> 'a option) \<Rightarrow> go_kind \<Rightarrow> string \<Rightarrow> cross_error + 'a" where
  "cross_decode e typed kind data = given ''decode'' (strict_decode typed kind (xe_lexer e data))"

definition hour :: int where "hour = 3600000000000"

definition runtime_keys :: "string list" where
  "runtime_keys = [''GODEBUG'', ''GOGC'', ''GOMEMLIMIT'', ''GOTRACEBACK'']"

text \<open>The declarations of the plan that need no file.\<close>

definition check_declarations :: "cross_env \<Rightarrow> cross_plan \<Rightarrow> cross_record list \<Rightarrow> cell list \<Rightarrow> cross_error + unit" where
  "check_declarations e p records expected =
     (if cp_schema p \<noteq> 1 \<or> \<not> dispatch_crossover_contract_valid (xe_ids e) (cp_contract p) \<or>
         str_count (dc_production_benchmark (cp_contract p)) ''{n}'' \<noteq> 1 \<or> expected \<noteq> cp_invocations p \<or>
         length records \<noteq> length expected
      then Inl (Rejected ''incomplete or altered campaign schedule'')
      else if bb_goos (cp_build p) \<noteq> xe_goos e \<or> bb_goarch (cp_build p) \<noteq> xe_goarch e
      then Inl (Rejected ''cross-target binaries are not host measurement evidence'')
      else if cp_n p < 0 \<or> cp_n p = 1 then Inl (Rejected ''invalid fixed-work declaration'')
      else if cp_timeout p \<le> 0 \<or> cp_timeout p > hour then Inl (Rejected ''invalid predeclared measurement timeout'')
      else if cp_n p = 0 \<and> (case xe_duration e (cp_duration p) of None \<Rightarrow> True | Some d \<Rightarrow> d \<le> 0)
      then Inl (Rejected ''invalid adaptive declaration'')
      else if cp_n p \<noteq> 0 \<and> cp_duration p \<noteq> []
      then Inl (Rejected ''fixed-work plan contains an adaptive duration'')
      else if length (cp_runtime p) \<noteq> 4 then Inl (Rejected ''runtime environment inventory differs'')
      else need (list_all (\<lambda>k. map_of (cp_runtime p) k \<noteq> None) runtime_keys) ''required runtime control missing'')"

definition campaign_names :: "nat \<Rightarrow> string list" where
  "campaign_names n =
     [''snapshot'', ''evidence.test'', ''plan.json'', ''records.json''] @
     concat (map (\<lambda>i. map (\<lambda>s. sample_name i @ ''.'' @ s) [''stdout'', ''stderr'', ''exit'']) [0..<n])"

definition check_entries :: "(string \<times> entry_kind) list \<Rightarrow> nat \<Rightarrow> cross_error + unit" where
  "check_entries entries n =
     (if length entries \<noteq> length (campaign_names n)
      then Inl (Rejected ''campaign artifact inventory incomplete or contains undeclared files'')
      else need (list_all (\<lambda>(name, kind). \<not> (name \<notin> set (campaign_names n) \<or> kind = Entry_symlink \<or>
          name \<noteq> ''snapshot'' \<and> kind \<noteq> Entry_regular)) entries)
        ''undeclared or nonregular campaign artifact'')"

definition check_reproduced :: "cross_env \<Rightarrow> tree_state \<Rightarrow> string \<Rightarrow> cross_plan \<Rightarrow> portable_build \<Rightarrow> cross_error + unit" where
  "check_reproduced e st dir p build =
     then_ok (need (\<not> (bb_binary_sha256 build \<noteq> bb_binary_sha256 (cp_build p) \<or>
         bb_material_sha256 build \<noteq> bb_material_sha256 (cp_build p) \<or>
         bb_toolchain_sha256 build \<noteq> bb_toolchain_sha256 (cp_build p) \<or> po_portable build \<noteq> cp_portable p))
       ''retained controlled binary/material/compiler evidence did not reproduce'') (\<lambda>_.
     then_ok (need (same_build (binary_build.truncate build) (cp_build p))
       ''controlled build selection metadata differs from reproduced observation'') (\<lambda>_.
     then_ok (dir_file st dir ''evidence.test'') (\<lambda>binary.
     need (digest e binary = bb_binary_sha256 build) ''retained measurement binary changed'')))"

definition planned :: "cross_plan \<Rightarrow> cross_error + cell list" where
  "planned p =
     (case schedule (cp_boundary p) (cp_sizes p) (cp_procs p) (cp_pairs p) of
        Inl err \<Rightarrow> Inl (Bad_plan err)
      | Inr expected \<Rightarrow> Inr expected)"

lemma planned_Inr [simp]:
  "planned p = Inr cells \<longleftrightarrow> schedule (cp_boundary p) (cp_sizes p) (cp_procs p) (cp_pairs p) = Inr cells"
  by (simp add: planned_def split: sum.splits)

definition verify_campaign :: "cross_env \<Rightarrow> tree_state \<Rightarrow> (string \<times> entry_kind) list \<Rightarrow> string \<Rightarrow> string \<Rightarrow> string \<Rightarrow> string \<Rightarrow>
    cross_error + cross_report" where
  "verify_campaign e st entries dir go_binary plan_pin records_pin =
     then_ok (need (external_pin plan_pin \<and> external_pin records_pin) ''missing or invalid external plan/records pins'') (\<lambda>_.
     then_ok (dir_file st dir ''plan.json'') (\<lambda>plan_data.
     then_ok (dir_file st dir ''records.json'') (\<lambda>records_data.
     then_ok (need (digest e plan_data = plan_pin \<and> digest e records_data = records_pin)
       ''campaign requires independent matching predeclared-plan and completed-record pins'') (\<lambda>_.
     then_ok (cross_decode e (xe_plan e) cross_plan_kind plan_data) (\<lambda>p.
     then_ok (cross_decode e (xe_records e) cross_records_kind records_data) (\<lambda>records.
     then_ok (planned p) (\<lambda>expected.
     then_ok (check_declarations e p records expected) (\<lambda>_.
     then_ok (check_entries entries (length expected)) (\<lambda>_.
     then_ok (preflight_invocations e st dir expected records) (\<lambda>_.
     then_ok (need (verify_snapshot (xe_snapshot e) st (path_join [dir, ''snapshot'']) (cp_snapshot p)) ''snapshot'') (\<lambda>_.
     then_ok (prepare e st (path_join [dir, ''snapshot'', ''source'']) go_binary p) (\<lambda>build.
     then_ok (check_reproduced e st dir p build) (\<lambda>_.
     then_ok (read_cells e st dir p 0 [] [] expected records) (\<lambda>(obs, originals).
     then_ok (pair_cells_up obs expected) (\<lambda>pairs.
     Inr \<lparr>xr_pairs = pairs, xr_original = originals\<rparr>)))))))))))))))"

text \<open>A plan read back for a comparison with today's build, and that build.\<close>

definition read_plan :: "cross_env \<Rightarrow> tree_state \<Rightarrow> string \<Rightarrow> string \<Rightarrow> cross_error + cross_plan" where
  "read_plan e st dir pin =
     then_ok (need (external_pin pin) ''missing or invalid external plan pin'') (\<lambda>_.
     then_ok (dir_file st dir ''plan.json'') (\<lambda>data.
     then_ok (need (digest e data = pin) ''campaign plan differs from independent pin'') (\<lambda>_.
     cross_decode e (xe_plan e) cross_plan_kind data)))"

definition empty_build :: "string \<Rightarrow> binary_build" where
  "empty_build experiment =
     \<lparr>bb_package = [], bb_go_version = [], bb_goos = [], bb_goarch = [], bb_goflags = [], bb_goexperiment = experiment,
      bb_architecture_level = [], bb_cgo_enabled = [], bb_material_sha256 = [], bb_toolchain_sha256 = [],
      bb_binary_sha256 = [], bb_source_sha256 = []\<rparr>"

definition current_build :: "cross_env \<Rightarrow> tree_state \<Rightarrow> string \<Rightarrow> string \<Rightarrow> string \<Rightarrow> string \<Rightarrow> dispatch_crossover_contract \<Rightarrow>
    cross_error + portable_build" where
  "current_build e st experiment top_dir pattern flags c =
     (let selection = \<lparr>bs_root = top_dir, bs_pattern = pattern, bs_go_binary = ''go'', bs_flags = flags,
        bs_experiment = experiment, bs_level = []\<rparr> in
      then_ok (given ''model'' (xe_factory e selection c)) (\<lambda>m.
      then_ok (given ''harness'' (xe_generate e m c)) (\<lambda>harness.
      prepare e st top_dir ''go''
        \<lparr>cp_schema = 0, cp_snapshot = \<lparr>sh_commit = [], sh_archive = [], sh_tree = []\<rparr>, cp_contract = c, cp_package = pattern,
         cp_flags = flags, cp_boundary = hm_boundary m, cp_n = 0, cp_duration = [], cp_timeout = 0, cp_sdk = [], cp_pairs = 0,
         cp_sizes = [], cp_procs = [], cp_harness = digest e harness, cp_build = empty_build experiment, cp_portable = [],
         cp_runtime = [], cp_invocations = []\<rparr>)))"

section \<open>What a verified campaign reports\<close>

definition position :: "'a list \<Rightarrow> 'a \<Rightarrow> nat" where
  "position xs x = length (takeWhile (\<lambda>y. y \<noteq> x) xs)"

lemma position_nth: "distinct xs \<Longrightarrow> k < length xs \<Longrightarrow> position xs (xs ! k) = k"
proof (induction xs arbitrary: k)
  case (Cons x xs)
  then show ?case by (cases k) (auto simp: position_def)
qed simp

text \<open>The samples that the file of a number holds.\<close>

definition file_observation :: "cross_env \<Rightarrow> tree_state \<Rightarrow> string \<Rightarrow> cross_plan \<Rightarrow> nat \<Rightarrow> observation option" where
  "file_observation e st dir p i =
     (case snapshot_file st dir (sample_name i @ ''.stdout'') of
        None \<Rightarrow> None
      | Some out \<Rightarrow> (case read_observation (xe_lexer e) out (cp_n p) of Inl _ \<Rightarrow> None | Inr ob \<Rightarrow> Some ob))"

definition file_original :: "cross_env \<Rightarrow> tree_state \<Rightarrow> string \<Rightarrow> cross_plan \<Rightarrow> nat \<Rightarrow> cell \<Rightarrow> printed_benchmark option" where
  "file_original e st dir p i c =
     (case snapshot_file st dir (sample_name i @ ''.stdout'') of
        None \<Rightarrow> None
      | Some out \<Rightarrow>
          (case read_original (xe_rat e) out (dc_production_benchmark (cp_contract p)) (ce_size c) (ce_procs c) (cp_n p) of
             Inl _ \<Rightarrow> None
           | Inr pb \<Rightarrow> Some pb))"

lemma read_invocation_out:
  "read_invocation e st dir name r = Inr out \<Longrightarrow> snapshot_file st dir (name @ ''.stdout'') = Some out \<and> ri_exit r = 0"
  by (auto simp: read_invocation_def split: if_splits)

lemma observed_keep:
  "read_cells e st dir p i obs os cs rs = Inr (obs', os') \<Longrightarrow> c \<notin> set cs \<Longrightarrow> observed obs' c = observed obs c"
proof (induction e st dir p i obs os cs rs rule: read_cells.induct)
  case (1 e st dir p i obs os c' cs r rs)
  show ?case
  proof (cases "ce_scope c' = original_scope")
    case True
    then show ?thesis using "1.IH"(1) "1.prems" by (auto split: if_splits)
  next
    case False
    have "observed ((c', ob) # obs) c = observed obs c" for ob using "1.prems"(2) by (simp add: observed_def)
    then show ?thesis using "1.IH"(2) "1.prems" False by (auto split: if_splits)
  qed
qed auto

lemma read_cells_native:
  assumes "read_cells e st dir p i obs os cs rs = Inr (obs', os')" and "length rs = length cs" and "distinct cs"
    and "k < length cs" and "ce_scope (cs ! k) \<noteq> original_scope"
  shows "file_observation e st dir p (i + k) = Some (observed obs' (cs ! k))"
  using assms
proof (induction cs arbitrary: i obs os rs k)
  case Nil
  then show ?case by simp
next
  case (Cons c cs)
  obtain r rs' where rs: "rs = r # rs'" using Cons.prems(2) by (cases rs) auto
  from Cons.prems(1) rs obtain out where out: "read_invocation e st dir (sample_name i) (cr_raw r) = Inr out"
    by (auto split: if_splits)
  obtain obs1 os1 where rest: "read_cells e st dir p (Suc i) obs1 os1 cs rs' = Inr (obs', os')"
    and first: "ce_scope c \<noteq> original_scope \<Longrightarrow> \<exists>ob. obs1 = (c, ob) # obs \<and> read_observation (xe_lexer e) out (cp_n p) = Inr ob"
    using Cons.prems(1) rs out by (auto split: if_splits)
  show ?case
  proof (cases k)
    case 0
    then obtain ob where ob: "obs1 = (c, ob) # obs" "read_observation (xe_lexer e) out (cp_n p) = Inr ob"
      using first Cons.prems(5) by auto
    have "observed obs' c = observed obs1 c" using observed_keep [OF rest, of c] Cons.prems(3) by simp
    then show ?thesis
      using 0 ob read_invocation_out [OF out] by (simp add: file_observation_def observed_def)
  next
    case (Suc j)
    then show ?thesis using Cons.IH [OF rest, of j] Cons.prems rs by simp
  qed
qed

lemma read_cells_original:
  assumes "read_cells e st dir p i obs os cs rs = Inr (obs', os')" and "length rs = length cs" and "distinct cs"
  shows "map os_cell os' = map os_cell os @ filter (\<lambda>c. ce_scope c = original_scope) cs \<and>
    (\<forall>x\<in>set os'. x \<in> set os \<or>
      (os_cell x \<in> set cs \<and> file_original e st dir p (i + position cs (os_cell x)) (os_cell x) = Some (os_printed x)))"
  using assms
proof (induction cs arbitrary: i obs os rs)
  case Nil
  then show ?case by simp
next
  case (Cons c cs)
  obtain r rs' where rs: "rs = r # rs'" using Cons.prems(2) by (cases rs) auto
  from Cons.prems(1) rs obtain out where out: "read_invocation e st dir (sample_name i) (cr_raw r) = Inr out"
    by (auto split: if_splits)
  have later: "i + position (c # cs) x = Suc i + position cs x" if "x \<in> set cs" for x
    using that Cons.prems(3) by (auto simp: position_def)
  show ?case
  proof (cases "ce_scope c = original_scope")
    case False
    then obtain obs1 where "read_cells e st dir p (Suc i) obs1 os cs rs' = Inr (obs', os')"
      using Cons.prems(1) rs out by (auto split: if_splits)
    from Cons.IH [OF this] Cons.prems(2,3) rs False later show ?thesis by auto
  next
    case True
    then obtain pb where pb: "read_original (xe_rat e) out (dc_production_benchmark (cp_contract p)) (ce_size c) (ce_procs c) (cp_n p) = Inr pb"
      and rest: "read_cells e st dir p (Suc i) obs (os @ [\<lparr>os_cell = c, os_printed = pb\<rparr>]) cs rs' = Inr (obs', os')"
      using Cons.prems(1) rs out by (auto split: if_splits)
    have "file_original e st dir p (i + position (c # cs) c) c = Some pb"
      using pb read_invocation_out [OF out] by (simp add: file_original_def position_def)
    with Cons.IH [OF rest] Cons.prems(2,3) rs True later show ?thesis by auto
  qed
qed

lemma pair_cells_up_exact:
  "pair_cells_up obs cs = Inr ps \<Longrightarrow> map xp_cell ps = filter paired_cell cs \<and>
     (\<forall>x\<in>set ps. xp_a x = observed obs (xp_cell x) \<and> xp_b x = observed obs (partner (xp_cell x)) \<and>
        compare_observations (xp_a x) (xp_b x) = Inr (xp_comparison x))"
  by (induction cs arbitrary: ps) (auto simp: Let_def split: if_splits)

lemma partner_scheduled:
  assumes "schedule boundary sizes procs pairs = Inr cells" and "c \<in> set cells" and "paired_cell c"
  shows "partner c \<in> set cells \<and> ce_scope (partner c) \<noteq> original_scope"
proof -
  note all = schedule_cells [OF assms(1)]
  obtain pair n p scope phase arm where c: "c = cell_of pair n p scope phase arm" "1 \<le> pair" "pair \<le> pairs" "n \<in> set sizes"
    "p \<in> set procs" "scope \<in> set scopes" "phase \<in> set phases" using all assms(2) by auto
  have arm: "arm = ''serial''" using assms(3) c(1) by (simp add: paired_cell_def)
  have "partner c = cell_of pair n p scope phase ''parallel''"
    unfolding c(1) arm by (simp add: partner_def cell_of_def Let_def)
  moreover have "''parallel'' \<in> set arms" by (simp add: arms_def)
  moreover have "cell_of pair n p scope phase ''parallel'' \<in> set cells" using all c calculation(2) by blast
  ultimately show ?thesis using assms(3) c(1) by (simp add: paired_cell_def)
qed

text \<open>
  C33: a verified crossover campaign reports exactly its schedule. When verification succeeds, the plan is a strict document that
  the external pin fixes and its invocations are the schedule of its matrix; there is one pair for every serial invocation
  outside the original benchmarks, in that order, made of the observation in the file of that invocation and the one in the
  file of its parallel partner, and their comparison; and one printed benchmark for every invocation of the
  original scope, read from its file.
\<close>

theorem verified_campaign_exact:
  assumes "verify_campaign e st entries dir go_binary plan_pin records_pin = Inr rep"
  shows "\<exists>p data. snapshot_file st dir ''plan.json'' = Some data \<and> digest e data = plan_pin \<and>
    strict_decode (xe_plan e) cross_plan_kind (xe_lexer e data) = Some p \<and>
    schedule (cp_boundary p) (cp_sizes p) (cp_procs p) (cp_pairs p) = Inr (cp_invocations p) \<and>
    map xp_cell (xr_pairs rep) = filter paired_cell (cp_invocations p) \<and>
    list_all (\<lambda>x. file_observation e st dir p (position (cp_invocations p) (xp_cell x)) = Some (xp_a x) \<and>
        file_observation e st dir p (position (cp_invocations p) (partner (xp_cell x))) = Some (xp_b x) \<and>
        compare_observations (xp_a x) (xp_b x) = Inr (xp_comparison x)) (xr_pairs rep) \<and>
    map os_cell (xr_original rep) = filter (\<lambda>c. ce_scope c = original_scope) (cp_invocations p) \<and>
    list_all (\<lambda>x. file_original e st dir p (position (cp_invocations p) (os_cell x)) (os_cell x) = Some (os_printed x))
      (xr_original rep)"
proof -
  from assms obtain data p records expected obs originals pairs where
    data: "snapshot_file st dir ''plan.json'' = Some data" "digest e data = plan_pin"
      "strict_decode (xe_plan e) cross_plan_kind (xe_lexer e data) = Some p"
    and sched: "schedule (cp_boundary p) (cp_sizes p) (cp_procs p) (cp_pairs p) = Inr expected"
    and decl: "check_declarations e p records expected = Inr ()"
    and cells: "read_cells e st dir p 0 [] [] expected records = Inr (obs, originals)"
    and pairs: "pair_cells_up obs expected = Inr pairs" and rep: "rep = \<lparr>xr_pairs = pairs, xr_original = originals\<rparr>"
    unfolding verify_campaign_def cross_decode_def by (auto split: sum.splits)
  have inv: "cp_invocations p = expected" "length records = length expected"
    using decl by (auto simp: check_declarations_def split: if_splits)
  have d: "distinct expected" using schedule_cells [OF sched] by blast
  have native: "file_observation e st dir p (position expected c) = Some (observed obs c)"
    if c: "c \<in> set expected" and other: "ce_scope c \<noteq> original_scope" for c
  proof -
    obtain k where k: "k < length expected" "expected ! k = c" using c unfolding in_set_conv_nth by blast
    show ?thesis using read_cells_native [OF cells inv(2) d k(1)] k(2) other position_nth [OF d k(1)] by simp
  qed
  note P = pair_cells_up_exact [OF pairs]
  have cellsP: "xp_cell x \<in> set expected \<and> paired_cell (xp_cell x)" if "x \<in> set pairs" for x
  proof -
    have "xp_cell x \<in> set (map xp_cell pairs)" using that by simp
    then show ?thesis using P by simp
  qed
  have "list_all (\<lambda>x. file_observation e st dir p (position expected (xp_cell x)) = Some (xp_a x) \<and>
      file_observation e st dir p (position expected (partner (xp_cell x))) = Some (xp_b x) \<and>
      compare_observations (xp_a x) (xp_b x) = Inr (xp_comparison x)) pairs"
    unfolding list_all_iff
    using P native cellsP partner_scheduled [OF sched] by (metis paired_cell_def)
  moreover have "map os_cell originals = filter (\<lambda>c. ce_scope c = original_scope) expected"
    "list_all (\<lambda>x. file_original e st dir p (position expected (os_cell x)) (os_cell x) = Some (os_printed x)) originals"
    using read_cells_original [OF cells inv(2) d] by (auto simp: list_all_iff)
  ultimately show ?thesis
    using data sched P by (intro exI [of _ p] exI [of _ data]) (simp add: rep inv(1))
qed

end
