(* ===== verification/Crossover_Samples.thy ===== *)
theory Crossover_Samples
  imports Crossover
begin

text \<open>A complete crossover campaign of 64 invocations that verifies.\<close>

definition demo_pin :: string where "demo_pin = replicate 64 (CHR ''a'')"

definition cross_hashes :: tree_hashes where
  "cross_hashes = \<lparr>th_sha1 = \<lambda>_. replicate 40 (CHR ''a''), th_sha256 = \<lambda>_. demo_pin\<rparr>"

definition cross_tree :: string where
  "cross_tree = ''100644 blob '' @ replicate 40 (CHR ''a'') @ [CHR 0x09] @ ''go.mod'' @ [CHR 0x00]"

definition cross_commit :: string where "cross_commit = replicate 40 (CHR ''c'')"

definition cross_git :: "string list \<Rightarrow> string list \<Rightarrow> command_output" where
  "cross_git _ args =
     \<lparr>co_out = (if hd args = ''ls-tree'' then cross_tree else ''archive''), co_err = [], co_code = 0\<rparr>"

definition cross_tools :: snapshot_tools where
  "cross_tools =
     \<lparr>sn_environ = [], sn_git = cross_git, sn_tar = \<lambda>_. \<lparr>ts_entries = [], ts_eof = True\<rparr>, sn_hashes = cross_hashes,
      sn_replacements = \<lambda>_. Some []\<rparr>"

definition demo_cells :: "cell list" where
  "demo_cells = concat (map (pair_cells [10, 1000] [2]) [1..2])"

definition demo_contract :: dispatch_crossover_contract where
  "demo_contract =
     \<lparr>dc_dispatch_function = ''m/p.D'', dc_threshold_constant = ''m/p.T'', dc_serial_policy = ''m/p.S'',
      dc_parallel_policy = ''m/p.P'', dc_serial_operation = [], dc_parallel_operation = [], dc_worker_runner = ''m/p.W'',
      dc_leaf_kernels = [''m/p.L''], dc_diagnostic_function = ''m/p.TestD'', dc_operation_input_factory = ''m/p.F'',
      dc_production_benchmark = ''BenchmarkC{n}'', dc_campaign = ''c'', dc_plan_sha256 = [], dc_records_sha256 = [],
      dc_evidence_go_binary = []\<rparr>"

definition demo_build :: binary_build where
  "demo_build =
     \<lparr>bb_package = ''m/p'', bb_go_version = ''go1.25'', bb_goos = ''linux'', bb_goarch = ''amd64'', bb_goflags = [],
      bb_goexperiment = [], bb_architecture_level = ''v1'', bb_cgo_enabled = ''0'', bb_material_sha256 = demo_pin,
      bb_toolchain_sha256 = demo_pin, bb_binary_sha256 = demo_pin, bb_source_sha256 = [(''f.go'', demo_pin)]\<rparr>"

definition demo_portable :: portable_build where
  "demo_portable =
     binary_build.extend demo_build
       \<lparr>po_data = [], po_portable = demo_pin, po_go_files = [(''/c/snapshot/source/go.mod'', demo_pin)],
        po_package_files = [(''m/p'', [''f.go''])]\<rparr>"

definition demo_plan :: cross_plan where
  "demo_plan =
     \<lparr>cp_schema = 1, cp_snapshot = \<lparr>sh_commit = cross_commit, sh_archive = demo_pin, sh_tree = demo_pin\<rparr>,
      cp_contract = demo_contract, cp_package = ''.'', cp_flags = [], cp_boundary = 100, cp_n = 5, cp_duration = [],
      cp_timeout = 60, cp_sdk = ''/sdk/bin/go'', cp_pairs = 2, cp_sizes = [10, 1000], cp_procs = [2], cp_harness = demo_pin,
      cp_build = demo_build, cp_portable = demo_pin,
      cp_runtime = [(''GODEBUG'', []), (''GOGC'', []), (''GOMEMLIMIT'', []), (''GOTRACEBACK'', [])],
      cp_invocations = demo_cells\<rparr>"

definition demo_raw :: raw_invocation where
  "demo_raw = \<lparr>ri_exit = 0, ri_stdout = demo_pin, ri_stderr = demo_pin\<rparr>"

definition demo_records :: "cross_record list" where
  "demo_records = map (\<lambda>c. \<lparr>cr_cell = c, cr_raw = demo_raw\<rparr>) demo_cells"

definition key_members :: "string list \<Rightarrow> (string \<times> json_tree) list" where
  "key_members = map (\<lambda>k. (k, Jt_String []))"

definition plan_document :: json_tree where
  "plan_document =
     Jt_Object
       (key_members [''schema'', ''package'', ''flags'', ''observedBoundary'', ''fixedN'', ''adaptiveDuration'',
          ''invocationTimeoutNanos'', ''observedSDKGoBinary'', ''pairs'', ''harnessSHA256'', ''portableMaterialSHA256'',
          ''runtimeEnvironment''] @
        [(''snapshot'', Jt_Object (key_members [''commit'', ''archiveSHA256'', ''treeSHA256''])),
         (''contract'', Jt_Object ((''leafKernels'', Jt_Array []) # key_members [''dispatchFunction'', ''thresholdConstant'',
           ''serialPolicy'', ''parallelPolicy'', ''serialOperation'', ''parallelOperation'', ''workerRunner'',
           ''diagnosticFunction'', ''operationInputFactory'', ''productionBenchmark'', ''campaign'', ''planSHA256'',
           ''recordsSHA256'', ''evidenceGoBinary''])),
         (''sizes'', Jt_Array []), (''procs'', Jt_Array []), (''invocations'', Jt_Array []),
         (''controlledBuild'', Jt_Object (key_members [''package'', ''goVersion'', ''goos'', ''goarch'', ''goflags'',
           ''goexperiment'', ''architectureLevel'', ''cgoEnabled'', ''materialSHA256'', ''toolchainSHA256'', ''binarySHA256'',
           ''sourceSHA256'']))])"

definition demo_number :: "string \<times> string \<Rightarrow> string \<times> json_tree" where
  "demo_number kv = (fst kv, Jt_Number (snd kv))"

definition sample_document :: json_tree where
  "sample_document =
     Jt_Object [(''allocation'', Jt_Object (map demo_number [(''n'', ''5''), (''memBytes'', ''12''), (''memAllocs'', ''5''),
         (''bytesPerOp'', ''2''), (''bytesRemainder'', ''2''), (''allocsPerOp'', ''1''), (''allocsRemainder'', ''0'')])),
       demo_number (''elapsedNanos'', ''900'')]"

definition demo_lexer :: "string \<Rightarrow> json_stream" where
  "demo_lexer s =
     \<lparr>js_tokens = tokens_of (if s = ''plan'' then plan_document else if s = ''records'' then Jt_Array [] else sample_document),
      js_eof = True\<rparr>"

definition demo_env :: cross_env where
  "demo_env =
     \<lparr>xe_ids = \<lparr>ie_letter = \<lambda>_. False, ie_digit = \<lambda>_. False, ie_import_path = \<lambda>_. True\<rparr>, xe_goos = ''linux'', xe_goarch = ''amd64'', xe_cancelled = False, xe_lexer = demo_lexer,
      xe_plan = \<lambda>_. Some demo_plan, xe_records = \<lambda>_. Some demo_records, xe_duration = \<lambda>_. None, xe_rat = \<lambda>_. Some 1,
      xe_snapshot = cross_tools,
      xe_factory = \<lambda>_ _. Some \<lparr>hm_boundary = 100, hm_source = [(''f.go'', demo_pin)],
        hm_typed_files = [(''/c/snapshot/source/go.mod'', demo_pin)], hm_package_files = [(''m/p'', [''f.go''])],
        hm_sizes = [10, 1000]\<rparr>,
      xe_generate = \<lambda>_ _. Some ''harness'', xe_environment = \<lambda>_. Some ''/sdk/bin/go'',
      xe_collect = \<lambda>_ _ _. Some demo_portable, xe_canonical = \<lambda>p. Some p\<rparr>"

definition cell_out :: "cell \<Rightarrow> string" where
  "cell_out c =
     (if ce_scope c = original_scope
      then ''BenchmarkC'' @ itoa (ce_size c) @ ''-2 5 7.5 ns/op 0 B/op 0 allocs/op'' @ [CHR 0x0A] @ ''PASS''
      else ''sample'' @ [CHR 0x0A] @ ''PASS'')"

definition numbered :: "(nat \<times> cell) list" where
  "numbered = zip [0..<64] demo_cells"

definition snapshot_files :: "(string \<times> string) list" where
  "snapshot_files =
     map (\<lambda>(n, d). (''/c/snapshot/'' @ n, d))
       [(''commit.stdout'', cross_commit), (''commit.stderr'', []), (''commit.exit'', exit_text 0), (''tree.stdout'', cross_tree),
        (''tree.stderr'', []), (''tree.exit'', exit_text 0), (''archive.stdout'', ''archive''), (''archive.stderr'', []),
        (''archive.exit'', exit_text 0), (''source/go.mod'', [])]"

definition cross_world :: tree_state where
  "cross_world =
     \<lparr>ts_files =
        [(''/c/plan.json'', ''plan''), (''/c/records.json'', ''records''), (''/c/evidence.test'', [])] @ snapshot_files @
        concat (map (\<lambda>(i, c). let p = ''/c/'' @ sample_name i in
          [(p @ ''.stdout'', cell_out c), (p @ ''.stderr'', []), (p @ ''.exit'', exit_text 0)]) numbered),
      ts_dirs = [''/c/snapshot/source'']\<rparr>"

definition cross_entries :: "(string \<times> entry_kind) list" where
  "cross_entries = (''snapshot'', Entry_directory) # map (\<lambda>n. (n, Entry_regular)) (tl (campaign_names 64))"

lemma demo_pins: "external_pin demo_pin" by code_simp

lemma demo_declared: "check_declarations demo_env demo_plan demo_records demo_cells = Inr ()"
  by code_simp

lemma demo_prepared:
  "prepare demo_env cross_world (path_join [''/c'', ''snapshot'', ''source'']) ''go'' demo_plan = Inr demo_portable"
  by code_simp

lemma demo_reproduced: "check_reproduced demo_env cross_world ''/c'' demo_plan demo_portable = Inr ()"
  by code_simp

lemma demo_snapshot: "verify_snapshot cross_tools cross_world (path_join [''/c'', ''snapshot'']) (cp_snapshot demo_plan)"
  by code_simp

lemma demo_listed: "check_entries cross_entries 64 = Inr ()"
proof -
  obtain ns where ns: "campaign_names 64 = ''snapshot'' # ns" by (simp add: campaign_names_def)
  then show ?thesis by (simp add: check_entries_def cross_entries_def list_all_iff need_def)
qed

text \<open>Names of samples are plain file names, and each belongs to one number.\<close>

lemma sample_plain: "sep \<notin> set (sample_name i)" "CHR ''.'' \<notin> set (sample_name i)"
  using itoa_chars [of sep "int i"] itoa_chars [of "CHR ''.''" "int i"] by (auto simp: sample_name_def sep_def)

lemma joined_plain:
  assumes "good_comp n"
  shows "path_join [''/c'', n] = ''/c/'' @ n"
proof -
  have n: "n \<noteq> []" "comps n = [n]" using assms comps_join [of "[n]"] by (auto simp: good_comp_def)
  have "comps (''/c'' @ sep # n) = [''c'', n]" unfolding comps_glue n(2) by (simp add: comps_def sep_def)
  then have "clean_comps True (comps (''/c'' @ sep # n)) = [''c'', n]"
    using clean_good_id [of "[''c'', n]" True "[]"] assms by (simp add: clean_comps_def good_comp_def sep_def)
  moreover have "is_abs (''/c'' @ sep # n)" by (simp add: is_abs_def sep_def)
  ultimately have "path_clean (''/c'' @ sep # n) = sep # join_with [sep] [''c'', n]" by (simp add: path_clean_def)
  then show ?thesis using n(1) by (simp add: path_join_def sep_def)
qed

lemma suffix_good: "good_comp (sample_name i @ ''.stdout'')" "good_comp (sample_name i @ ''.stderr'')" "good_comp (sample_name i @ ''.exit'')"
  "good_comp (sample_name i)"
  using sample_plain [of i] by (auto simp: good_comp_def sep_def sample_name_def)

lemma sample_stem: "takeWhile (\<lambda>c. c \<noteq> CHR ''.'') (sample_name i @ CHR ''.'' # s) = sample_name i"
  using sample_plain(2) [of i] by (simp add: takeWhile_append takeWhile_eq_all_conv)

lemma sample_same: "sample_name i @ CHR ''.'' # s = sample_name j @ CHR ''.'' # s' \<longleftrightarrow> i = j \<and> s = s'"
proof
  assume e: "sample_name i @ CHR ''.'' # s = sample_name j @ CHR ''.'' # s'"
  then have "sample_name i = sample_name j" by (metis sample_stem)
  then show "i = j \<and> s = s'" using e itoa_inj [of "int i" "int j"] by (simp add: sample_name_def)
qed simp

definition numbered_files :: "(nat \<times> cell) list \<Rightarrow> (string \<times> string) list" where
  "numbered_files xs =
     concat (map (\<lambda>(i, c). let p = ''/c/'' @ sample_name i in
       [(p @ ''.stdout'', cell_out c), (p @ ''.stderr'', []), (p @ ''.exit'', exit_text 0)]) xs)"

lemma numbered_lookup:
  "(i, c) \<in> set xs \<Longrightarrow> distinct (map fst xs) \<Longrightarrow>
     map_of (numbered_files xs) (''/c/'' @ sample_name i @ ''.stdout'') = Some (cell_out c) \<and>
     map_of (numbered_files xs) (''/c/'' @ sample_name i @ ''.stderr'') = Some [] \<and>
     map_of (numbered_files xs) (''/c/'' @ sample_name i @ ''.exit'') = Some (exit_text 0)"
proof (induction xs)
  case (Cons x xs)
  obtain j d where x: "x = (j, d)" by force
  show ?case
  proof (cases "i = j")
    case True
    then have "d = c" using Cons.prems x by (auto simp: image_iff)
    then show ?thesis using True x by (simp add: numbered_files_def Let_def)
  next
    case False
    then show ?thesis using Cons x sample_same [of i _ j] by (auto simp: numbered_files_def Let_def)
  qed
qed simp

lemma demo_files:
  assumes "(i, c) \<in> set numbered"
  shows "read_file cross_world (''/c/'' @ sample_name i @ ''.stdout'') = Some (cell_out c)"
    "read_file cross_world (''/c/'' @ sample_name i @ ''.stderr'') = Some []"
    "read_file cross_world (''/c/'' @ sample_name i @ ''.exit'') = Some (exit_text 0)"
proof -
  have d: "distinct (map fst numbered)" by (simp add: numbered_def map_fst_zip_take)
  have w: "ts_files cross_world = [(''/c/plan.json'', ''plan''), (''/c/records.json'', ''records''), (''/c/evidence.test'', [])] @
      snapshot_files @ numbered_files numbered"
    by (simp add: cross_world_def numbered_files_def)
  have no: "map_of ([(''/c/plan.json'', ''plan''), (''/c/records.json'', ''records''), (''/c/evidence.test'', [])] @
      snapshot_files) (''/c/sample-'' @ t) = None" for t
    by (simp add: snapshot_files_def)
  have e: "read_file cross_world (''/c/'' @ sample_name i @ t) = map_of (numbered_files numbered) (''/c/'' @ sample_name i @ t)" for t
    using no [of "itoa (int i) @ t"] unfolding read_file_def w by (simp add: map_add_def sample_name_def split: option.splits)
  show "read_file cross_world (''/c/'' @ sample_name i @ ''.stdout'') = Some (cell_out c)"
    "read_file cross_world (''/c/'' @ sample_name i @ ''.stderr'') = Some []"
    "read_file cross_world (''/c/'' @ sample_name i @ ''.exit'') = Some (exit_text 0)"
    unfolding e using numbered_lookup [OF assms d] by blast+
qed

lemma demo_read:
  assumes "(i, c) \<in> set numbered"
  shows "read_invocation demo_env cross_world ''/c'' (sample_name i) demo_raw = Inr (cell_out c)"
proof -
  have b: "path_base (sample_name i) = sample_name i"
    using suffix_good(4) [of i] comps_join [of "[sample_name i]"] by (simp add: path_base_def good_comp_def)
  have h: "digest demo_env s = demo_pin" for s
    by (simp add: digest_def demo_env_def cross_tools_def cross_hashes_def)
  show ?thesis
    using suffix_good(4) [of i]
    unfolding read_invocation_def dir_file_def b joined_plain [OF suffix_good(1)] joined_plain [OF suffix_good(2)]
      joined_plain [OF suffix_good(3)] demo_files [OF assms]
    by (simp add: given_def then_ok_def need_def h demo_raw_def good_comp_def)
qed

definition demo_allocation :: allocation where
  "demo_allocation =
     \<lparr>al_n = 5, al_mem_bytes = 12, al_mem_allocs = 5, al_bytes_per_op = 2, al_bytes_rem = 2, al_allocs_per_op = 1,
      al_allocs_rem = 0\<rparr>"

definition native_sample :: observation where
  "native_sample = \<lparr>ob_allocation = demo_allocation, ob_elapsed = 900\<rparr>"

lemma demo_native: "read_observation demo_lexer (''sample'' @ [CHR 0x0A] @ ''PASS'') 5 = Inr native_sample"
  by code_simp

lemma demo_originals:
  "list_all (\<lambda>sz. \<not> isl (read_original (\<lambda>_. Some 1)
     (''BenchmarkC'' @ itoa sz @ ''-2 5 7.5 ns/op 0 B/op 0 allocs/op'' @ [CHR 0x0A] @ ''PASS'') ''BenchmarkC{n}'' sz 2 5)) [10, 1000]"
  by code_simp

lemma demo_original:
  assumes "sz = 10 \<or> sz = 1000"
  shows "\<exists>pb. read_original (\<lambda>_. Some 1)
    (''BenchmarkC'' @ itoa sz @ ''-2 5 7.5 ns/op 0 B/op 0 allocs/op'' @ [CHR 0x0A] @ ''PASS'') ''BenchmarkC{n}'' sz 2 5 = Inr pb"
proof -
  have "\<not> isl (read_original (\<lambda>_. Some 1)
      (''BenchmarkC'' @ itoa sz @ ''-2 5 7.5 ns/op 0 B/op 0 allocs/op'' @ [CHR 0x0A] @ ''PASS'') ''BenchmarkC{n}'' sz 2 5)"
    using assms demo_originals by auto
  then show ?thesis by (metis isl_def sum.exhaust)
qed

lemma demo_scheduled: "schedule 100 [10, 1000] [2] 2 = Inr demo_cells"
  by (simp add: schedule_def demo_cells_def del: upto_rec_numeral upto.simps)

lemma demo_distinct: "distinct demo_cells" "length demo_cells = 64"
  using schedule_cells [OF demo_scheduled] by auto

lemma demo_read_nth: "k < 64 \<Longrightarrow> read_invocation demo_env cross_world ''/c'' (sample_name k) demo_raw = Inr (cell_out (demo_cells ! k))"
proof -
  assume k: "k < 64"
  have "numbered ! k = (k, demo_cells ! k)" "k < length numbered" using k demo_distinct(2) by (simp_all add: numbered_def)
  then show ?thesis using demo_read nth_mem by metis
qed

lemma demo_cell_keys: "c \<in> set demo_cells \<Longrightarrow> ce_size c \<in> {10, 1000} \<and> ce_procs c = 2"
  using schedule_cells [OF demo_scheduled] by auto

lemma read_cells_returns:
  assumes "\<And>k. k < length cs \<Longrightarrow> read_invocation demo_env cross_world ''/c'' (sample_name (i + k)) demo_raw = Inr (cell_out (cs ! k))"
    and "set cs \<subseteq> set demo_cells"
  shows "\<exists>r. read_cells demo_env cross_world ''/c'' demo_plan i obs os cs (map (\<lambda>c. \<lparr>cr_cell = c, cr_raw = demo_raw\<rparr>) cs) = Inr r"
  using assms
proof (induction cs arbitrary: i obs os)
  case (Cons c cs)
  have now: "read_invocation demo_env cross_world ''/c'' (sample_name i) demo_raw = Inr (cell_out c)"
    using Cons.prems(1) [of 0] by simp
  have later: "read_invocation demo_env cross_world ''/c'' (sample_name (Suc i + k)) demo_raw = Inr (cell_out (cs ! k))"
    if "k < length cs" for k using Cons.prems(1) [of "Suc k"] that by simp
  have c: "ce_size c = 10 \<or> ce_size c = 1000" "ce_procs c = 2" using demo_cell_keys Cons.prems(2) by auto
  have env: "xe_lexer demo_env = demo_lexer" "xe_rat demo_env = (\<lambda>_. Some 1)" "cp_n demo_plan = 5"
    "dc_production_benchmark (cp_contract demo_plan) = ''BenchmarkC{n}''"
    by (simp_all add: demo_env_def demo_plan_def demo_contract_def)
  show ?case
  proof (cases "ce_scope c = original_scope")
    case True
    then have "\<exists>pb. read_original (\<lambda>_. Some 1) (cell_out c) ''BenchmarkC{n}'' (ce_size c) 2 5 = Inr pb"
      using demo_original [OF c(1)] by (simp add: cell_out_def)
    then show ?thesis using Cons.IH [OF later] Cons.prems(2) True now c(2) env by (auto simp: then_ok_def)
  next
    case False
    then have "read_observation demo_lexer (cell_out c) 5 = Inr native_sample" using demo_native by (simp add: cell_out_def)
    then show ?thesis using Cons.IH [OF later] Cons.prems(2) False now env by (auto simp: then_ok_def)
  qed
qed simp

lemma demo_preflight: "preflight_invocations demo_env cross_world ''/c'' demo_cells demo_records = Inr ()"
proof -
  have "(\<And>k. k < length cs \<Longrightarrow> read_invocation demo_env cross_world ''/c'' (sample_name (i + k)) demo_raw = Inr (cell_out (cs ! k))) \<Longrightarrow>
      preflight_loop demo_env cross_world ''/c'' i cs (map (\<lambda>c. \<lparr>cr_cell = c, cr_raw = demo_raw\<rparr>) cs) = Inr ()" for i cs
  proof (induction cs arbitrary: i)
    case (Cons c cs)
    have later: "read_invocation demo_env cross_world ''/c'' (sample_name (Suc i + k)) demo_raw = Inr (cell_out (cs ! k))"
      if "k < length cs" for k using Cons.prems [of "Suc k"] that by simp
    show ?case using Cons.prems [of 0] Cons.IH [OF later] by (simp add: then_ok_def)
  qed simp
  from this [of demo_cells 0] demo_read_nth demo_distinct(2) show ?thesis
    by (simp add: preflight_invocations_def demo_records_def)
qed

lemma demo_compared: "\<exists>cm. compare_observations native_sample native_sample = Inr cm"
proof -
  have f: "fits_int64 demo_allocation" by (simp add: fits_int64_def demo_allocation_def int64_def)
  have "sound_observation native_sample"
    by (simp add: sound_observation_def native_sample_def demo_allocation_def exact_sample_def)
  then have "check_observations [native_sample, native_sample] = None"
    using check_observations_iff [of "[native_sample, native_sample]"] f by (simp add: native_sample_def)
  moreover obtain d where "paired_delta demo_allocation demo_allocation = Inr d"
    using self_delta [OF f] by (auto simp: demo_allocation_def exact_sample_def)
  ultimately show ?thesis by (simp add: compare_observations_def native_sample_def)
qed

lemma demo_pairs:
  assumes "\<And>c. c \<in> set demo_cells \<Longrightarrow> ce_scope c \<noteq> original_scope \<Longrightarrow> observed obs c = native_sample"
    and "set cs \<subseteq> set demo_cells"
  shows "\<exists>ps. pair_cells_up obs cs = Inr ps"
  using assms(2)
proof (induction cs)
  case (Cons c cs)
  show ?case
  proof (cases "paired_cell c")
    case True
    have c: "c \<in> set demo_cells" using Cons.prems by simp
    have "observed obs c = native_sample" "observed obs (partner c) = native_sample"
      using assms(1) c partner_scheduled [OF demo_scheduled c True] True by (auto simp: paired_cell_def)
    then show ?thesis using Cons True demo_compared by auto
  next
    case False
    then show ?thesis using Cons by simp
  qed
qed simp

lemma demo_verified: "\<exists>rep. verify_campaign demo_env cross_world cross_entries ''/c'' ''go'' demo_pin demo_pin = Inr rep"
proof -
  have planned: "planned demo_plan = Inr demo_cells" by (simp add: demo_plan_def demo_scheduled)
  have files: "dir_file cross_world ''/c'' ''plan.json'' = Inr ''plan''" "dir_file cross_world ''/c'' ''records.json'' = Inr ''records''"
    by code_simp+
  have digests: "digest demo_env s = demo_pin" for s by (simp add: digest_def demo_env_def cross_tools_def cross_hashes_def)
  have decoded: "cross_decode demo_env (xe_plan demo_env) cross_plan_kind ''plan'' = Inr demo_plan"
    "cross_decode demo_env (xe_records demo_env) cross_records_kind ''records'' = Inr demo_records"
    by code_simp+
  have snap: "verify_snapshot (xe_snapshot demo_env) cross_world (path_join [''/c'', ''snapshot'']) (cp_snapshot demo_plan)"
    using demo_snapshot by (simp add: demo_env_def)
  obtain obs os where cells: "read_cells demo_env cross_world ''/c'' demo_plan 0 [] [] demo_cells demo_records = Inr (obs, os)"
    using read_cells_returns [of demo_cells 0 "[]" "[]"] demo_read_nth demo_distinct(2) by (auto simp: demo_records_def)
  have "observed obs c = native_sample" if c: "c \<in> set demo_cells" and other: "ce_scope c \<noteq> original_scope" for c
  proof -
    obtain k where k: "k < length demo_cells" "demo_cells ! k = c" using c unfolding in_set_conv_nth by blast
    have "file_observation demo_env cross_world ''/c'' demo_plan (0 + k) = Some (observed obs (demo_cells ! k))"
      by (rule read_cells_native [OF cells _ demo_distinct(1) k(1)]) (simp_all add: demo_records_def k(2) other)
    moreover have "read_observation (xe_lexer demo_env) (cell_out c) (cp_n demo_plan) = Inr native_sample"
      using demo_native other by (simp add: cell_out_def demo_env_def demo_plan_def)
    moreover have "snapshot_file cross_world ''/c'' (sample_name k @ ''.stdout'') = Some (cell_out c)"
      using read_invocation_out [OF demo_read_nth [of k]] k demo_distinct(2) by simp
    ultimately show ?thesis using k(2) by (simp add: file_observation_def)
  qed
  from demo_pairs [OF this] obtain pairs where pairs: "pair_cells_up obs demo_cells = Inr pairs" by blast
  have "verify_campaign demo_env cross_world cross_entries ''/c'' ''go'' demo_pin demo_pin =
      Inr \<lparr>xr_pairs = pairs, xr_original = os\<rparr>"
    by (simp only: verify_campaign_def then_ok_def need_def sum.case if_True demo_pins files digests decoded planned demo_declared
        demo_listed demo_distinct(2) demo_preflight snap demo_prepared demo_reproduced cells pairs prod.case simp_thms)
  then show ?thesis by blast
qed

theorem verified_campaign_exact_witness:
  "\<exists>rep. verify_campaign demo_env cross_world cross_entries ''/c'' ''go'' demo_pin demo_pin = Inr rep \<and>
    map xp_cell (xr_pairs rep) = filter paired_cell demo_cells"
proof -
  obtain rep where v: "verify_campaign demo_env cross_world cross_entries ''/c'' ''go'' demo_pin demo_pin = Inr rep"
    using demo_verified by blast
  have "strict_decode (xe_plan demo_env) cross_plan_kind (xe_lexer demo_env data) = Some p \<Longrightarrow> p = demo_plan" for data p
    using strict_decode_typed by (fastforce simp: demo_env_def)
  moreover have "cp_invocations demo_plan = demo_cells" by (simp add: demo_plan_def)
  ultimately show ?thesis using v verified_campaign_exact [OF v] by metis
qed

end
