(* ===== verification/Run.thy ===== *)
theory Run
  imports Select Vocabulary Scan_Scope Coefficient Diff Baseline Report
begin

text \<open>
  \<open>Run\<close> of \<open>internal/runner/runner.go\<close>: the orchestration of one scan, from the options to
  the exit code. Everything outside the repository is collected in a record; the result is
  the exit code, what was written to standard output, the messages on standard error, one
  constructor for each print of the code, and the files after the run.
\<close>

section \<open>Options, surroundings and results\<close>

record options =
  op_patterns :: "string list"
  op_checks :: string
  op_max_level :: level
  op_tests :: bool
  op_fix :: bool
  op_diff :: bool
  op_json :: bool
  op_sarif :: bool
  op_config_path :: string
  op_exit_zero :: bool
  op_baseline :: string
  op_write_baseline :: bool
  op_include_generated :: bool
  op_exclude :: "string list"

record world =
  w_config :: config_env
  w_ids :: id_env
  w_json :: json_codec
  w_artifacts :: artifact_codec
  w_ordinary :: "string list \<Rightarrow> bool \<Rightarrow> string + loaded_package list"
  w_strict :: "string list \<Rightarrow> bool \<Rightarrow> scope_observation"
  w_evidence :: evid_env
  w_run :: run_env
  w_patch :: patch_env
  w_baseline :: baseline_env
  w_generated :: "string \<Rightarrow> bool"
  w_sort :: "finding list \<Rightarrow> finding list"
  w_mkdir :: "string \<Rightarrow> bool"
  w_writable :: "string \<Rightarrow> bool"
  w_version :: string

datatype evidence_error =
    Invalid_closure closure_error
  | Closure_outside string
  | Invalid_codegen read_error
  | Codegen_outside string

datatype message =
    Exclusive_modes
  | Config_message config_message
  | Unknown_selector string
  | Starved string
  | Load_failed string
  | Package_error string
  | Evidence_failed evidence_error
  | Analyzer_failed string
  | Generated_skipped nat
  | Excluded_findings nat
  | Baseline_required
  | Evidence_warnings string
  | Baseline_unwritable
  | Baseline_unusable baseline_error
  | Wrote_baseline nat
  | Suppressed nat
  | Fix_summary nat nat nat

datatype standard_output =
    Silent
  | Text_report string
  | Json_report "json_finding list"
  | Sarif_report sarif_log
  | Patch string

record run_result =
  rr_code :: int
  rr_stdout :: standard_output
  rr_stderr :: "message list"
  rr_files :: files

section \<open>Stages\<close>

text \<open>
  A stage crashes (a panic of an analyzer or of a slice), stops the run with exit code 2, or
  goes on with a value; the messages are accumulated.
\<close>

datatype 'a stage = Crash | Stop "message list" | Go 'a "message list"

definition and_then :: "'a stage \<Rightarrow> ('a \<Rightarrow> 'b stage) \<Rightarrow> 'b stage" where
  "and_then s f =
     (case s of
        Crash \<Rightarrow> Crash
      | Stop ms \<Rightarrow> Stop ms
      | Go x ms \<Rightarrow> (case f x of Crash \<Rightarrow> Crash | Stop ns \<Rightarrow> Stop (ms @ ns) | Go y ns \<Rightarrow> Go y (ms @ ns)))"

definition with_defaults :: "options \<Rightarrow> options" where
  "with_defaults opts =
     (let opts = (if op_patterns opts = [] then opts\<lparr>op_patterns := [''./...'']\<rparr> else opts) in
      if op_max_level opts = 0 then opts\<lparr>op_max_level := LevelAggressive\<rparr> else opts)"

text \<open>Configuration and selection.\<close>

definition prepare :: "world \<Rightarrow> check list \<Rightarrow> options \<Rightarrow> (check list \<times> config) stage" where
  "prepare w checks opts =
     (if op_diff opts \<and> op_fix opts then Stop [Exclusive_modes]
      else
        let ((cfg, cfg_path), config_messages) = load_config (w_config w) (op_config_path opts);
            messages = map Config_message config_messages
        in case select_checks checks (op_checks opts) (op_max_level opts) of
             Inl tok \<Rightarrow> Stop (messages @ [Unknown_selector tok])
           | Inr (enabled, explicit) \<Rightarrow>
               let (kept, warnings) = keep_fed (w_ids w) (w_json w) cfg cfg_path explicit enabled in
               Go (kept, cfg) (messages @ map Starved warnings))"

text \<open>Evidence for an absent package is an incomplete scan, not a clean result.\<close>

fun closure_evidence_error :: "json_codec \<Rightarrow> loaded_package list \<Rightarrow> string list \<Rightarrow> evidence_error option" where
  "closure_evidence_error J pkgs [] = None"
| "closure_evidence_error J pkgs (text # texts) =
     (case read_artifact J text of
        Inl err \<Rightarrow> Some (Invalid_closure err)
      | Inr g \<Rightarrow>
          if list_ex (\<lambda>p. lp_types_path p = Some (ev_package (gr_after g))) pkgs
          then closure_evidence_error J pkgs texts
          else Some (Closure_outside (ev_package (gr_after g))))"

fun coefficient_evidence_error ::
    "artifact_codec \<Rightarrow> loaded_package list \<Rightarrow> string list \<Rightarrow> evidence_error option" where
  "coefficient_evidence_error C pkgs [] = None"
| "coefficient_evidence_error C pkgs (text # texts) =
     (case read_evidence C text of
        Inl err \<Rightarrow> Some (Invalid_codegen err)
      | Inr a \<Rightarrow>
          if list_ex (\<lambda>p. lp_types_path p = Some (bb_package (at_build a))) pkgs
          then coefficient_evidence_error C pkgs texts
          else Some (Codegen_outside (bb_package (at_build a))))"

fun check_evidence ::
    "world \<Rightarrow> config \<Rightarrow> loaded_package list \<Rightarrow> check list \<Rightarrow> evidence_error option" where
  "check_evidence w cfg pkgs [] = None"
| "check_evidence w cfg pkgs (c # cs) =
     (case (if chk_id c = ''PS6130''
            then coefficient_evidence_error (w_artifacts w) pkgs (cfg_coefficient_address_artifacts cfg)
            else if chk_id c = ''PS6126''
            then closure_evidence_error (w_json w) pkgs (cfg_closure_environment_growth_artifacts cfg)
            else None) of
        Some err \<Rightarrow> Some err
      | None \<Rightarrow> check_evidence w cfg pkgs cs)"

definition load_packages ::
    "world \<Rightarrow> options \<Rightarrow> check list \<times> config \<Rightarrow> (check list \<times> loaded_package list \<times> scan_target option) stage" where
  "load_packages w opts = (\<lambda>(enabled, cfg).
     case load_for_checks (w_ids w) enabled (cfg_single_use_quantization_contracts cfg)
            (w_ordinary w (op_patterns opts) (op_tests opts))
            (load_scope_context (w_strict w (op_patterns opts) (op_tests opts))) of
       Inl err \<Rightarrow> Stop [Load_failed err]
     | Inr (pkgs, scope) \<Rightarrow>
         let errors = concat (map lp_errors pkgs) in
         if errors \<noteq> [] then Stop (map Package_error errors)
         else case check_evidence w cfg pkgs enabled of
           Some err \<Rightarrow> Stop [Evidence_failed err]
         | None \<Rightarrow> Go (enabled, pkgs, scope) [])"

text \<open>The analyzers, one after the other, over the whole graph or package by package.\<close>

fun check_packages ::
    "run_env \<Rightarrow> check \<Rightarrow> scan_target option \<Rightarrow> loaded_package list \<Rightarrow> finding list \<Rightarrow> run_failure + finding list" where
  "check_packages env c scope [] out = Inr out"
| "check_packages env c scope (pkg # pkgs) out =
     (case run_check_with_scope env c pkg None scope of
        Inl err \<Rightarrow> Inl err
      | Inr (current, _) \<Rightarrow> check_packages env c scope pkgs (out @ current))"

fun run_checks ::
    "run_env \<Rightarrow> loaded_package list \<Rightarrow> scan_target option \<Rightarrow> check list \<Rightarrow> finding list \<Rightarrow>
      run_failure + finding list" where
  "run_checks env pkgs scope [] out = Inr out"
| "run_checks env pkgs scope (c # cs) out =
     (case (if an_fact_types (chk_analyzer c) \<noteq> []
            then (case run_fact_check_with_scope env c pkgs scope of
                    Inl err \<Rightarrow> Inl err | Inr current \<Rightarrow> Inr (out @ current))
            else check_packages env c scope pkgs out) of
        Inl err \<Rightarrow> Inl err
      | Inr out \<Rightarrow> run_checks env pkgs scope cs out)"

definition analyze ::
    "world \<Rightarrow> check list \<times> loaded_package list \<times> scan_target option \<Rightarrow>
      (finding list \<times> loaded_package list \<times> evidence_metadata) stage" where
  "analyze w = (\<lambda>(enabled, pkgs, scope).
     let metadata = scan_evidence_metadata (w_evidence w) (map (\<lambda>p. Some (go_package.truncate p)) pkgs) in
     case run_checks (w_run w) pkgs scope enabled [] of
       Inl (Panicked _) \<Rightarrow> Crash
     | Inl (Failed msg) \<Rightarrow> Stop [Analyzer_failed msg]
     | Inr fs \<Rightarrow> Go (fs, pkgs, metadata) [])"

text \<open>Suppression, exclusion, order and duplicates.\<close>

definition select_findings :: "world \<Rightarrow> options \<Rightarrow> finding list \<Rightarrow> finding list \<times> message list" where
  "select_findings w opts fs =
     (let active = filter_ignored (pe_read (w_patch w)) fs;
          written = filter_generated (w_generated w) active (op_include_generated opts);
          generated = length active - length written;
          wanted = (if op_exclude opts \<noteq> [] then filter_excluded written (op_exclude opts) else written);
          excluded = length written - length wanted
      in (dedup (w_sort w wanted),
          (if \<not> op_include_generated opts \<and> generated > 0 then [Generated_skipped generated] else []) @
          (if excluded > 0 then [Excluded_findings excluded] else [])))"

definition scan :: "world \<Rightarrow> check list \<Rightarrow> options \<Rightarrow> (finding list \<times> loaded_package list \<times> evidence_metadata) stage" where
  "scan w checks opts =
     and_then (prepare w checks opts) (\<lambda>prepared.
     and_then (load_packages w opts prepared) (\<lambda>loaded.
     and_then (analyze w loaded) (\<lambda>(fs, pkgs, metadata).
       let (selected, messages) = select_findings w opts fs in Go (selected, pkgs, metadata) messages)))"

section \<open>Modes\<close>

definition module_packages :: "loaded_package list \<Rightarrow> go_package list" where
  "module_packages pkgs = map go_package.truncate pkgs"

text \<open>The report of a scan, with the findings that survived the baseline.\<close>

definition report :: "world \<Rightarrow> options \<Rightarrow> finding list \<Rightarrow> evidence_metadata \<Rightarrow> standard_output" where
  "report w opts fs metadata =
     (let wd = env_cwd (pe_os (w_patch w)) in
      if op_sarif opts then Sarif_report (emit_sarif (w_version w) wd fs metadata)
      else if op_json opts then Json_report (emit_json (rn_position (w_run w)) wd fs metadata)
      else Text_report (emit_text wd fs))"

definition write_mode ::
    "world \<Rightarrow> options \<Rightarrow> finding list \<Rightarrow> loaded_package list \<Rightarrow> evidence_metadata \<Rightarrow> run_result" where
  "write_mode w opts fs pkgs metadata =
     (let files = pe_read (w_patch w) in
      if op_baseline opts = [] then
        \<lparr>rr_code = 2, rr_stdout = Silent, rr_stderr = [Baseline_required], rr_files = files\<rparr>
      else
        let warned = [Evidence_warnings (emit_evidence_warnings (em_warnings metadata))] in
        case write_baseline (w_baseline w) (w_mkdir w) (w_writable w) (op_baseline opts) fs metadata
               (module_packages pkgs) files of
          None \<Rightarrow> \<lparr>rr_code = 2, rr_stdout = Silent, rr_stderr = warned @ [Baseline_unwritable], rr_files = files\<rparr>
        | Some files' \<Rightarrow>
            \<lparr>rr_code = 0, rr_stdout = Silent, rr_stderr = warned @ [Wrote_baseline (length fs)], rr_files = files'\<rparr>)"

definition apply_stage ::
    "world \<Rightarrow> options \<Rightarrow> finding list \<Rightarrow> loaded_package list \<Rightarrow> evidence_metadata \<Rightarrow>
      (finding list \<times> evidence_metadata) stage" where
  "apply_stage w opts fs pkgs metadata =
     (if op_baseline opts = [] then Go (fs, metadata) []
      else case apply_baseline (w_baseline w) (pe_read (w_patch w)) (op_baseline opts) fs metadata
                  (module_packages pkgs) of
        Inl err \<Rightarrow> Stop [Baseline_unusable err]
      | Inr (kept, suppressed, warnings) \<Rightarrow>
          Go (kept, metadata\<lparr>em_warnings := em_warnings metadata @ warnings\<rparr>)
             (if suppressed > 0 then [Suppressed suppressed] else []))"

definition exit_code :: "options \<Rightarrow> finding list \<Rightarrow> int" where
  "exit_code opts fs = (if fs \<noteq> [] \<and> \<not> op_exit_zero opts then 1 else 0)"

text \<open>The diff, or the fixes and the report; \<open>None\<close> is a panic.\<close>

definition finish :: "world \<Rightarrow> options \<Rightarrow> finding list \<Rightarrow> evidence_metadata \<Rightarrow> message list \<Rightarrow> run_result option" where
  "finish w opts fs metadata messages =
     (let files = pe_read (w_patch w);
          warned = messages @ [Evidence_warnings (emit_evidence_warnings (em_warnings metadata))]
      in if op_diff opts then
           (case diff_fixes (w_patch w) (op_exit_zero opts) fs of
              None \<Rightarrow> None
            | Some (text, code) \<Rightarrow>
                Some \<lparr>rr_code = code, rr_stdout = Patch text, rr_stderr = warned, rr_files = files\<rparr>)
         else if op_fix opts then
           (case apply_fixes (w_patch w) (w_writable w) fs of
              None \<Rightarrow> None
            | Some (files', n) \<Rightarrow>
                Some \<lparr>rr_code = exit_code opts fs, rr_stdout = report w opts fs metadata,
                  rr_stderr = warned @ [Fix_summary (n_applied n) (n_overlapping n) (n_failed n)], rr_files = files'\<rparr>)
         else
           Some \<lparr>rr_code = exit_code opts fs, rr_stdout = report w opts fs metadata, rr_stderr = warned,
             rr_files = files\<rparr>)"

definition run :: "world \<Rightarrow> check list \<Rightarrow> options \<Rightarrow> run_result option" where
  "run w checks options =
     (let opts = with_defaults options;
          stopped = \<lambda>messages. Some \<lparr>rr_code = 2, rr_stdout = Silent, rr_stderr = messages,
            rr_files = pe_read (w_patch w)\<rparr>
      in case scan w checks opts of
           Crash \<Rightarrow> None
         | Stop messages \<Rightarrow> stopped messages
         | Go (fs, pkgs, metadata) messages \<Rightarrow>
             if op_write_baseline opts then
               Some (let r = write_mode w opts fs pkgs metadata in r\<lparr>rr_stderr := messages @ rr_stderr r\<rparr>)
             else
               (case apply_stage w opts fs pkgs metadata of
                  Crash \<Rightarrow> None
                | Stop ns \<Rightarrow> stopped (messages @ ns)
                | Go (fs', metadata') ns \<Rightarrow> finish w opts fs' metadata' (messages @ ns)))"

end
