(* ===== verification/Run_Props.thy ===== *)
theory Run_Props
  imports Run Edits_Props Diff_Props Baseline_Props Evidence_Props
begin

text \<open>
  Properties of whole runs: which files a run may change, what the exit code says about the
  output, that the dry run predicts the fixing run, that a baseline silences the run it was
  written from, and which findings are reported.
\<close>

section \<open>Decomposition of a run\<close>

lemma run_cases:
  assumes "run w checks options = Some r"
  obtains (stopped) messages where
      "r = \<lparr>rr_code = 2, rr_stdout = Silent, rr_stderr = messages, rr_files = pe_read (w_patch w)\<rparr>"
  | (written) fs pkgs metadata messages where
      "scan w checks (with_defaults options) = Go (fs, pkgs, metadata) messages"
      "op_write_baseline (with_defaults options)"
      "r = (let r = write_mode w (with_defaults options) fs pkgs metadata in r\<lparr>rr_stderr := messages @ rr_stderr r\<rparr>)"
  | (finished) fs pkgs metadata messages fs' metadata' ns where
      "scan w checks (with_defaults options) = Go (fs, pkgs, metadata) messages"
      "\<not> op_write_baseline (with_defaults options)"
      "apply_stage w (with_defaults options) fs pkgs metadata = Go (fs', metadata') ns"
      "finish w (with_defaults options) fs' metadata' (messages @ ns) = Some r"
  using assms unfolding run_def Let_def by (auto split: stage.splits prod.splits if_splits)

lemma with_defaults_modes [simp]:
  "op_fix (with_defaults opts) = op_fix opts" "op_diff (with_defaults opts) = op_diff opts"
  "op_exit_zero (with_defaults opts) = op_exit_zero opts" "op_baseline (with_defaults opts) = op_baseline opts"
  "op_write_baseline (with_defaults opts) = op_write_baseline opts"
  "op_sarif (with_defaults opts) = op_sarif opts" "op_json (with_defaults opts) = op_json opts"
  by (simp_all add: with_defaults_def Let_def)

lemma and_then_Go: "and_then s f = Go y ms \<longleftrightarrow> (\<exists>x ks ns. s = Go x ks \<and> f x = Go y ns \<and> ms = ks @ ns)"
  by (auto simp: and_then_def split: stage.splits)

lemma scan_not_both:
  assumes "scan w checks opts = Go x ms"
  shows "\<not> (op_diff opts \<and> op_fix opts)"
  using assms by (auto simp: scan_def and_then_Go prepare_def)

lemma finish_cases:
  assumes "finish w opts fs metadata messages = Some r"
  obtains (diff) patch code where "op_diff opts" "diff_fixes (w_patch w) (op_exit_zero opts) fs = Some (patch, code)"
      "rr_code r = code" "rr_stdout r = Patch patch" "rr_files r = pe_read (w_patch w)"
  | (fixed) files n where "\<not> op_diff opts" "op_fix opts"
      "apply_fixes (w_patch w) (w_writable w) fs = Some (files, n)" "rr_code r = exit_code opts fs"
      "rr_stdout r = report w opts fs metadata" "rr_files r = files"
  | (reported) "\<not> op_diff opts" "\<not> op_fix opts" "rr_code r = exit_code opts fs"
      "rr_stdout r = report w opts fs metadata" "rr_files r = pe_read (w_patch w)"
  using assms unfolding finish_def Let_def by (auto split: if_splits option.splits prod.splits)

section \<open>Files\<close>

text \<open>
  C1: a run changes no file it should not change. A file whose contents are different
  afterwards is either the baseline file of a run that writes one, or, in a fixing run that
  neither writes a baseline nor prints a diff, a readable user source outside the caches and
  GOROOT that is not generated. A run that fails with exit code 2 changes nothing.
\<close>

theorem run_frame:
  assumes "run w checks options = Some r" and "rr_files r p \<noteq> pe_read (w_patch w) p"
  shows "rr_code r \<noteq> 2 \<and>
    (op_write_baseline options \<and> p = op_baseline options \<and> w_writable w p \<or>
     op_fix options \<and> \<not> op_write_baseline options \<and> \<not> op_diff options \<and>
       \<not> outside_work_tree (pe_os (w_patch w)) p \<and>
       (\<exists>src. pe_read (w_patch w) p = Some src \<and> \<not> is_generated_source src))"
  using assms(1)
proof (cases rule: run_cases)
  case (stopped messages)
  with assms(2) show ?thesis by simp
next
  case (written fs pkgs metadata messages)
  then show ?thesis
    using assms(2) by (auto simp: write_mode_def write_baseline_def Let_def split: if_splits option.splits)
next
  case (finished fs pkgs metadata messages fs' metadata' ns)
  from finished(4) show ?thesis
  proof (cases rule: finish_cases)
    case (diff patch code)
    with assms(2) show ?thesis by simp
  next
    case (fixed files n)
    with assms(2) have c: "files p \<noteq> pe_read (w_patch w) p" by simp
    from apply_fixes_frame [OF fixed(3) c] fixed finished(2) show ?thesis by (simp add: exit_code_def)
  next
    case reported
    with assms(2) show ?thesis by simp
  qed
qed

section \<open>The exit code\<close>

text \<open>What the output shows: a patch with text, or a report with at least one finding.\<close>

fun shows_something :: "standard_output \<Rightarrow> bool" where
  "shows_something Silent = False"
| "shows_something (Patch text) = (text \<noteq> [])"
| "shows_something (Text_report text) = (text \<noteq> [])"
| "shows_something (Json_report js) = (js \<noteq> [])"
| "shows_something (Sarif_report log) = (sl_results log \<noteq> [])"

lemma emit_text_Nil: "emit_text wd fs = [] \<longleftrightarrow> fs = []"
  by (cases fs) (simp_all add: emit_text_def finding_line_def)

lemma sarif_results: "length (snd (sarif_loop wd fs idx rules results)) = length results + length fs"
  by (induction fs arbitrary: idx rules results) (auto split: option.splits)

lemma report_shows: "shows_something (report w opts fs metadata) \<longleftrightarrow> fs \<noteq> []"
proof -
  let ?wd = "env_cwd (pe_os (w_patch w))"
  have "sl_results (emit_sarif (w_version w) ?wd fs metadata) = snd (sarif_loop ?wd fs (\<lambda>_. None) [] [])"
    by (simp add: emit_sarif_def split: prod.splits)
  moreover have "snd (sarif_loop ?wd fs (\<lambda>_. None) [] []) = [] \<longleftrightarrow> fs = []"
    using sarif_results [of ?wd fs "\<lambda>_. None" "[]" "[]"] by (metis add_0 length_0_conv list.size(3))
  ultimately show ?thesis by (simp add: report_def Let_def emit_text_Nil emit_json_def)
qed

lemma diff_fixes_code:
  assumes "diff_fixes env ez fs = Some (out, code)"
  shows "code = (if out \<noteq> [] \<and> \<not> ez then 1 else 0)"
proof -
  from assms obtain fls n where "patched_files env fs = Some (fls, n)"
    by (auto simp: diff_fixes_def split: option.splits)
  define changed where "changed = stable_sort (\<lambda>x y. str_compare (fst x) (fst y))
    (filter (\<lambda>(_, pf). pf_orig pf \<noteq> pf_fixed pf) fls)"
  have out: "out = concat (map (\<lambda>(path, pf). unified_diff (rel_path (env_cwd (pe_os env)) path)
      (pf_orig pf) (pf_fixed pf)) changed)"
    and code: "code = (if changed \<noteq> [] \<and> \<not> ez then 1 else 0)"
    using assms \<open>patched_files env fs = Some (fls, n)\<close> by (auto simp: diff_fixes_def changed_def Let_def)
  have "pf_orig pf \<noteq> pf_fixed pf" if "(q, pf) \<in> set changed" for q pf
    using that by (auto simp: changed_def)
  then have "out = [] \<longleftrightarrow> changed = []"
    unfolding out by (cases changed) (force simp: unified_diff_Nil)+
  with code show ?thesis by simp
qed

text \<open>
  C5: the exit code tells what the run printed. It is 2 only together with an empty
  output, and otherwise 1 exactly when the diff or the report has an entry and \<open>-exit-zero\<close>
  is not given.
\<close>

theorem run_exit_code:
  assumes "run w checks options = Some r"
  shows "(rr_code r = 2 \<and> rr_stdout r = Silent) \<or>
    rr_code r = (if shows_something (rr_stdout r) \<and> \<not> op_exit_zero options then 1 else 0)"
  using assms
proof (cases rule: run_cases)
  case (stopped messages)
  then show ?thesis by simp
next
  case (written fs pkgs metadata messages)
  then show ?thesis by (auto simp: write_mode_def Let_def split: option.splits)
next
  case (finished fs pkgs metadata messages fs' metadata' ns)
  from finished(4) show ?thesis
  proof (cases rule: finish_cases)
    case (diff patch code)
    then show ?thesis using diff_fixes_code [OF diff(2)] by simp
  next
    case (fixed files n)
    then show ?thesis by (simp add: exit_code_def report_shows)
  next
    case reported
    then show ?thesis by (simp add: exit_code_def report_shows)
  qed
qed

section \<open>The dry run\<close>

definition plain_mode :: "options \<Rightarrow> options" where
  "plain_mode opts = opts\<lparr>op_diff := False, op_fix := False, op_write_baseline := False\<rparr>"

text \<open>The scan does not depend on what is done with its findings.\<close>

lemma with_defaults_plain: "with_defaults (plain_mode opts) = plain_mode (with_defaults opts)"
  by (simp add: with_defaults_def plain_mode_def Let_def)

lemma scan_mode:
  assumes "\<not> (op_diff opts \<and> op_fix opts)"
  shows "scan w checks opts = scan w checks (plain_mode opts)"
proof -
  have p: "prepare w checks opts = prepare w checks (plain_mode opts)"
    using assms by (auto simp: prepare_def plain_mode_def)
  have l: "load_packages w opts = load_packages w (plain_mode opts)"
    by (simp add: load_packages_def plain_mode_def fun_eq_iff)
  have "select_findings w opts = select_findings w (plain_mode opts)"
    by (simp add: select_findings_def plain_mode_def fun_eq_iff Let_def)
  with p l show ?thesis by (simp add: scan_def)
qed

lemma apply_stage_mode: "apply_stage w (plain_mode opts) = apply_stage w opts"
  by (simp add: apply_stage_def plain_mode_def fun_eq_iff)

lemma diff_fixes_None: "diff_fixes env ez fs = None \<longleftrightarrow> apply_fixes env wr fs = None"
  by (auto simp: diff_fixes_def apply_fixes_def Let_def split: option.splits prod.splits)

text \<open>What a dry run and a fixing run of the same scan have in common.\<close>

definition predicts :: "files \<Rightarrow> run_result \<Rightarrow> run_result \<Rightarrow> bool" where
  "predicts files d f =
     (if rr_code d = 2 then f = d
      else rr_files d = files \<and> rr_code d = (if rr_files f \<noteq> files then 1 else 0) \<and>
        (case rr_stdout d of Patch patch \<Rightarrow> patch = [] \<longleftrightarrow> rr_files f = files | _ \<Rightarrow> False))"

lemma finish_predicts:
  assumes "\<And>p. w_writable w p" and "\<not> op_exit_zero d" and "op_diff d" and "op_fix f" and "\<not> op_diff f"
    and "op_exit_zero f = op_exit_zero d"
  shows "rel_option (predicts (pe_read (w_patch w))) (finish w d fs metadata ms) (finish w f fs metadata ms)"
proof (cases "diff_fixes (w_patch w) False fs")
  case None
  then show ?thesis
    using assms diff_fixes_None [of "w_patch w" False fs "w_writable w"]
    by (simp add: finish_def Let_def)
next
  case (Some r)
  obtain patch code where d: "diff_fixes (w_patch w) False fs = Some (patch, code)"
    using Some by (cases r) simp
  have wr: "w_writable w = (\<lambda>_. True)" using assms(1) by auto
  obtain files n where a: "apply_fixes (w_patch w) (\<lambda>_. True) fs = Some (files, n)"
    using Some diff_fixes_None [of "w_patch w" False fs "\<lambda>_. True"] by (cases "apply_fixes (w_patch w) (\<lambda>_. True) fs") auto
  from diff_predicts_fix [OF d a] show ?thesis
    using assms d a wr by (auto simp: finish_def Let_def predicts_def)
qed

text \<open>
  C3: \<open>-diff\<close> predicts \<open>-fix\<close>. With writable files, without \<open>-exit-zero\<close> and without \<open>-write-baseline\<close>, the two
  runs panic together and fail together with the same messages; otherwise the dry run changes
  no file, and it exits with 1 and prints a patch exactly when the fixing run changes a file.
\<close>

theorem run_diff_predicts:
  assumes "\<And>p. w_writable w p" and "\<not> op_exit_zero opts" and "\<not> op_write_baseline opts"
  shows "rel_option (predicts (pe_read (w_patch w)))
    (run w checks (opts\<lparr>op_diff := True, op_fix := False\<rparr>))
    (run w checks (opts\<lparr>op_diff := False, op_fix := True\<rparr>))"
proof -
  let ?d = "opts\<lparr>op_diff := True, op_fix := False\<rparr>" and ?f = "opts\<lparr>op_diff := False, op_fix := True\<rparr>"
  let ?wd = "with_defaults ?d" and ?wf = "with_defaults ?f"
  have same: "plain_mode ?wd = plain_mode ?wf"
    by (simp flip: with_defaults_plain) (simp add: plain_mode_def)
  have s: "scan w checks ?wd = scan w checks ?wf"
    by (subst (1 2) scan_mode) (simp_all add: same)
  have a: "apply_stage w ?wd = apply_stage w ?wf"
    using apply_stage_mode same by metis
  have p: "rel_option (predicts (pe_read (w_patch w))) (finish w ?wd fs m ms) (finish w ?wf fs m ms)" for fs m ms
    by (rule finish_predicts) (use assms in simp_all)
  show ?thesis
    using assms(3) p unfolding run_def Let_def s a
    by (auto simp: predicts_def split: stage.split)
qed

section \<open>The ratchet\<close>

lemma check_packages_all:
  assumes "\<And>pkg d. P (finding_of env c pkg d)"
  shows "check_packages env c scope pkgs out = Inr out' \<Longrightarrow> list_all P out \<Longrightarrow> list_all P out'"
proof (induction pkgs arbitrary: out)
  case (Cons pkg pkgs)
  then show ?case using run_check_all [of P, OF assms] by (auto split: sum.splits)
qed simp

lemma run_checks_all:
  assumes "\<And>c pkg d. c \<in> set checks \<Longrightarrow> P (finding_of env c pkg d)"
  shows "run_checks env pkgs scope checks out = Inr out' \<Longrightarrow> list_all P out \<Longrightarrow> list_all P out'"
  using assms
proof (induction checks arbitrary: out)
  case (Cons c cs)
  have c: "P (finding_of env c pkg d)" for pkg d using Cons.prems(3) by simp
  from Cons.prems(1) obtain mid where next_run: "run_checks env pkgs scope cs mid = Inr out'"
    and mid: "(if an_fact_types (chk_analyzer c) \<noteq> []
       then (case run_fact_check_with_scope env c pkgs scope of Inl err \<Rightarrow> Inl err | Inr current \<Rightarrow> Inr (out @ current))
       else check_packages env c scope pkgs out) = Inr mid"
    by (auto split: sum.splits)
  have "list_all P mid"
  proof (cases "an_fact_types (chk_analyzer c) \<noteq> []")
    case True
    with mid obtain current where "run_fact_check_with_scope env c pkgs scope = Inr current" "mid = out @ current"
      by (auto split: sum.splits)
    then show ?thesis
      using Cons.prems(2) fact_loop_all [of P, OF c]
      by (auto simp: run_fact_check_with_scope_def Let_def split: sum.splits)
  next
    case False
    with mid Cons.prems(2) show ?thesis using check_packages_all [of P, OF c] by auto
  qed
  with Cons.IH [OF next_run] Cons.prems(3) show ?case by simp
qed simp

definition rewritten :: "world \<Rightarrow> files \<Rightarrow> world" where
  "rewritten w files = w\<lparr>w_patch := (w_patch w)\<lparr>pe_read := files\<rparr>\<rparr>"

lemma rewritten_simps [simp]:
  "w_config (rewritten w files) = w_config w" "w_ids (rewritten w files) = w_ids w"
  "w_json (rewritten w files) = w_json w" "w_artifacts (rewritten w files) = w_artifacts w"
  "w_ordinary (rewritten w files) = w_ordinary w" "w_strict (rewritten w files) = w_strict w"
  "w_evidence (rewritten w files) = w_evidence w" "w_run (rewritten w files) = w_run w"
  "w_baseline (rewritten w files) = w_baseline w" "w_generated (rewritten w files) = w_generated w"
  "w_sort (rewritten w files) = w_sort w" "pe_read (w_patch (rewritten w files)) = files"
  by (simp_all add: rewritten_def)

lemma check_evidence_rewritten [simp]: "check_evidence (rewritten w files) cfg pkgs cs = check_evidence w cfg pkgs cs"
  by (induction cs) (simp_all cong: option.case_cong if_cong)

lemma covered_read:
  "rd (pos_filename (fnd_pos f)) = rd' (pos_filename (fnd_pos f)) \<Longrightarrow> covered rd f l = covered rd' f l"
  by (simp add: covered_def file_lines_def Let_def)

text \<open>A file no finding is in has no say in a scan.\<close>

lemma scan_rewritten:
  assumes "\<And>q. q \<noteq> path \<Longrightarrow> files q = pe_read (w_patch w) q"
    and "\<And>fset p. pos_filename (rn_position (w_run w) fset p) \<noteq> path"
  shows "scan (rewritten w files) checks opts = scan w checks opts"
proof -
  have "filter_ignored files fs = filter_ignored (pe_read (w_patch w)) fs"
    if "list_all (\<lambda>f. pos_filename (fnd_pos f) \<noteq> path) fs" for fs
    using that assms(1) covered_read [of files _ "pe_read (w_patch w)"]
    by (auto simp: filter_ignored_def list_all_iff intro!: filter_cong)
  then have select: "select_findings (rewritten w files) opts fs = select_findings w opts fs"
    if "list_all (\<lambda>f. pos_filename (fnd_pos f) \<noteq> path) fs" for fs
    using that by (simp add: select_findings_def)
  have found: "list_all (\<lambda>f. pos_filename (fnd_pos f) \<noteq> path) fs"
    if "analyze w loaded = Go (fs, pkgs, metadata) ms" for loaded fs pkgs metadata ms
    using that run_checks_all [of _ "\<lambda>f. pos_filename (fnd_pos f) \<noteq> path" "w_run w"] assms(2)
    by (auto simp: analyze_def finding_of_def Let_def split: prod.splits sum.splits run_failure.splits)
  have "and_then (analyze w loaded) (\<lambda>(fs, pkgs, metadata).
       let (selected, messages) = select_findings (rewritten w files) opts fs in Go (selected, pkgs, metadata) messages) =
     and_then (analyze w loaded) (\<lambda>(fs, pkgs, metadata).
       let (selected, messages) = select_findings w opts fs in Go (selected, pkgs, metadata) messages)" for loaded
    using found [of loaded] select by (simp add: and_then_def split: stage.split prod.split)
  moreover have "prepare (rewritten w files) = prepare w" "load_packages (rewritten w files) = load_packages w"
    "analyze (rewritten w files) = analyze w"
    unfolding prepare_def load_packages_def analyze_def rewritten_simps check_evidence_rewritten by (rule refl)+
  ultimately show ?thesis by (simp add: scan_def)
qed

lemma finish_Nil:
  "\<exists>r. finish w opts [] metadata ms = Some r \<and> rr_code r = 0 \<and> \<not> shows_something (rr_stdout r) \<and>
     rr_files r = pe_read (w_patch w)"
proof -
  have "patched_files (w_patch w) [] = Some ([], no_counts)"
    by (simp add: patched_files_def no_counts_def)
  then show ?thesis
    by (simp add: finish_def Let_def diff_fixes_def apply_fixes_def exit_code_def report_shows no_counts_def)
qed

text \<open>
  C4: the ratchet. When a run with \<open>-write-baseline\<close> succeeds and the file it writes
  decodes to what was encoded, the next run of the same configuration, with that file as its
  baseline and everything else unchanged, reports nothing and exits with 0, with or without
  \<open>-fix\<close>, \<open>-diff\<close> and the report formats; it changes no file. The baseline must not be one
  of the files the findings are in.
\<close>

theorem run_ratchet:
  assumes "scan w checks (with_defaults opts) = Go (fs, pkgs, metadata) ms"
    and "run w checks (opts\<lparr>op_write_baseline := True\<rparr>) = Some r" and "rr_code r = 0"
    and "let bf = baseline_of (w_baseline w) (op_baseline opts) fs metadata (module_packages pkgs) in
         bl_unmarshal (w_baseline w) (bl_marshal (w_baseline w) bf) = Some bf"
    and "\<And>fset p. pos_filename (rn_position (w_run w) fset p) \<noteq> op_baseline opts"
    and "\<not> op_write_baseline opts"
  shows "\<exists>r'. run (rewritten w (rr_files r)) checks opts = Some r' \<and> rr_code r' = 0 \<and>
    \<not> shows_something (rr_stdout r') \<and> rr_files r' = rr_files r"
proof -
  let ?o = "with_defaults opts" and ?o' = "with_defaults (opts\<lparr>op_write_baseline := True\<rparr>)"
  let ?w = "rewritten w (rr_files r)"
  have o: "?o' = ?o\<lparr>op_write_baseline := True\<rparr>" by (simp add: with_defaults_def Let_def)
  have "scan w checks ?o' = scan w checks ?o"
    using scan_not_both [OF assms(1)]
    by (subst (1 2) scan_mode) (simp_all add: o, simp add: plain_mode_def)
  with assms(1,2) have r: "r = (let r = write_mode w ?o' fs pkgs metadata in r\<lparr>rr_stderr := ms @ rr_stderr r\<rparr>)"
    by (simp add: run_def o)
  with assms(3) have path: "op_baseline opts \<noteq> []" and
    wr: "write_baseline (w_baseline w) (w_mkdir w) (w_writable w) (op_baseline opts) fs metadata
      (module_packages pkgs) (pe_read (w_patch w)) = Some (rr_files r)"
    by (auto simp: write_mode_def Let_def o split: if_splits option.splits)
  from wr obtain x where "rr_files r = (pe_read (w_patch w))(op_baseline opts \<mapsto> x)"
    by (auto simp: write_baseline_def split: if_splits dest: sym)
  then have "rr_files r q = pe_read (w_patch w) q" if "q \<noteq> op_baseline opts" for q
    using that by simp
  from scan_rewritten [OF this assms(5)] assms(1)
  have scan: "scan ?w checks ?o = Go (fs, pkgs, metadata) ms" by simp
  from baseline_roundtrip [OF assms(4) [unfolded Let_def] wr] obtain ws where
    "apply_baseline (w_baseline w) (rr_files r) (op_baseline opts) fs metadata (module_packages pkgs) =
       Inr ([], length fs, ws)" by blast
  then have "\<exists>m ns. apply_stage ?w ?o fs pkgs metadata = Go ([], m) ns"
    using path by (simp add: apply_stage_def rewritten_def)
  with scan assms(6) show ?thesis
    using finish_Nil [of ?w ?o] by (fastforce simp: run_def rewritten_def)
qed

section \<open>What is reported\<close>

text \<open>A finding the user asked to see.\<close>

definition reportable :: "world \<Rightarrow> options \<Rightarrow> finding \<Rightarrow> bool" where
  "reportable w opts f =
     (let file = pos_filename (fnd_pos f); line = pos_line (fnd_pos f); rd = pe_read (w_patch w) in
      \<not> covered rd f line \<and> \<not> covered rd f (line - 1) \<and>
      (op_include_generated opts \<or> \<not> w_generated w file) \<and> \<not> path_excluded file (op_exclude opts))"

lemma select_findings_eq:
  "fst (select_findings w opts fs) = dedup (w_sort w (filter (reportable w opts) fs))"
proof -
  have "(if op_exclude opts \<noteq> [] then filter_excluded fs' (op_exclude opts) else fs') =
      filter_excluded fs' (op_exclude opts)" for fs'
    by (simp add: filter_excluded_def)
  then show ?thesis
    by (simp add: select_findings_def Let_def ignored.pass_filter generated.pass_filter excluded.pass_filter
        reportable_def [abs_def] conj_ac)
qed

lemma keep_first_set: "set (keep_first key seen xs) \<subseteq> set xs"
  by (induction xs arbitrary: seen) auto

lemma sorted_wrt_subseq: "subseq xs ys \<Longrightarrow> sorted_wrt P ys \<Longrightarrow> sorted_wrt P xs"
  by (induction rule: list_emb.induct) (auto dest: list_emb_set)

lemma keep_fed_subset: "set (fst (keep_fed E J c path explicit chs)) \<subseteq> set chs"
  by (induction chs) (auto simp: Let_def split: prod.splits)

lemma prepare_subset:
  assumes "prepare w checks opts = Go (enabled, cfg) ms"
  shows "set enabled \<subseteq> set checks"
proof -
  obtain c path ns where c: "load_config (w_config w) (op_config_path opts) = ((c, path), ns)"
    by (metis surj_pair)
  from assms c obtain chosen explicit where s: "select_checks checks (op_checks opts) (op_max_level opts) = Inr (chosen, explicit)"
    and k: "enabled = fst (keep_fed (w_ids w) (w_json w) c path explicit chosen)"
    by (auto simp: prepare_def Let_def split: if_splits prod.splits sum.splits)
  from s have "set chosen \<subseteq> set checks"
    by (auto simp: select_checks_def Let_def split: sum.splits)
  with k keep_fed_subset show ?thesis by blast
qed

text \<open>
  What one check has to say about the packages of a scan, and whether it came to an end: an
  analyzer with facts once over the whole graph, any other one on each package by itself.
\<close>

definition check_reports :: "run_env \<Rightarrow> loaded_package list \<Rightarrow> scan_target option \<Rightarrow> check \<Rightarrow> finding list" where
  "check_reports env pkgs scope c =
     (if an_fact_types (chk_analyzer c) \<noteq> []
      then (case run_fact_check_with_scope env c pkgs scope of Inl _ \<Rightarrow> [] | Inr fs \<Rightarrow> fs)
      else concat (map (\<lambda>p. case run_check_with_scope env c p None scope of Inl _ \<Rightarrow> [] | Inr (fs, _) \<Rightarrow> fs) pkgs))"

definition check_completes :: "run_env \<Rightarrow> loaded_package list \<Rightarrow> scan_target option \<Rightarrow> check \<Rightarrow> bool" where
  "check_completes env pkgs scope c =
     (if an_fact_types (chk_analyzer c) \<noteq> []
      then \<not> isl (run_fact_check_with_scope env c pkgs scope)
      else list_all (\<lambda>p. \<not> isl (run_check_with_scope env c p None scope)) pkgs)"

lemma check_packages_iff:
  "check_packages env c scope pkgs out = Inr found \<longleftrightarrow>
     list_all (\<lambda>p. \<not> isl (run_check_with_scope env c p None scope)) pkgs \<and>
     found = out @ concat (map (\<lambda>p. case run_check_with_scope env c p None scope of Inl _ \<Rightarrow> [] | Inr (fs, _) \<Rightarrow> fs) pkgs)"
  by (induction pkgs arbitrary: out) (auto split: sum.splits)

lemma case_Inr_iff:
  assumes "\<And>y. x = Inr y \<longleftrightarrow> P \<and> y = r"
  shows "(case x of Inl e \<Rightarrow> Inl e | Inr y \<Rightarrow> f y) = Inr z \<longleftrightarrow> P \<and> f r = Inr z"
  using assms [of r] assms by (cases x) fastforce+

lemma run_check_iff:
  "(if an_fact_types (chk_analyzer c) \<noteq> []
    then (case run_fact_check_with_scope env c pkgs scope of Inl err \<Rightarrow> Inl err | Inr current \<Rightarrow> Inr (out @ current))
    else check_packages env c scope pkgs out) = Inr found \<longleftrightarrow>
     check_completes env pkgs scope c \<and> found = out @ check_reports env pkgs scope c"
  using check_packages_iff [of env c scope pkgs out found]
  by (auto simp: check_completes_def check_reports_def split: sum.splits)

lemma run_checks_iff:
  "run_checks env pkgs scope cs out = Inr found \<longleftrightarrow>
     list_all (check_completes env pkgs scope) cs \<and> found = out @ concat (map (check_reports env pkgs scope) cs)"
proof (induction cs arbitrary: out)
  case (Cons c cs)
  show ?case
    unfolding run_checks.simps(2) case_Inr_iff [OF run_check_iff] Cons.IH by auto
qed auto

text \<open>The checks of a scan: the selected ones whose vocabulary the configuration does not starve.\<close>

definition scan_checks :: "world \<Rightarrow> options \<Rightarrow> string set \<Rightarrow> check list \<Rightarrow> check list" where
  "scan_checks w opts explicit chosen =
     (let (cfg, path) = fst (load_config (w_config w) (op_config_path opts)) in
      fst (keep_fed (w_ids w) (w_json w) cfg path explicit chosen))"

definition scan_loads :: "world \<Rightarrow> options \<Rightarrow> check list \<Rightarrow> string + loaded_package list \<times> scan_target option" where
  "scan_loads w opts enabled =
     (let (cfg, path) = fst (load_config (w_config w) (op_config_path opts)) in
      load_for_checks (w_ids w) enabled (cfg_single_use_quantization_contracts cfg)
        (w_ordinary w (op_patterns opts) (op_tests opts))
        (load_scope_context (w_strict w (op_patterns opts) (op_tests opts))))"

lemma prepare_Go:
  assumes "prepare w checks opts = Go (enabled, cfg) ms"
  shows "\<exists>chosen explicit. select_checks checks (op_checks opts) (op_max_level opts) = Inr (chosen, explicit) \<and>
    enabled = scan_checks w opts explicit chosen \<and> cfg = fst (fst (load_config (w_config w) (op_config_path opts)))"
proof -
  obtain c path ns where "load_config (w_config w) (op_config_path opts) = ((c, path), ns)"
    by (metis surj_pair)
  with assms show ?thesis
    by (auto simp: prepare_def scan_checks_def Let_def split: if_splits prod.splits sum.splits)
qed

lemma scan_findings:
  assumes "scan w checks opts = Go (fs, pkgs, metadata) ms"
  obtains chosen explicit scope found where
    "select_checks checks (op_checks opts) (op_max_level opts) = Inr (chosen, explicit)"
    and "scan_loads w opts (scan_checks w opts explicit chosen) = Inr (pkgs, scope)"
    and "run_checks (w_run w) pkgs scope (scan_checks w opts explicit chosen) [] = Inr found"
    and "set (scan_checks w opts explicit chosen) \<subseteq> set checks"
    and "fs = dedup (w_sort w (filter (reportable w opts) found))"
proof -
  assume ret: "\<And>chosen explicit scope found.
      select_checks checks (op_checks opts) (op_max_level opts) = Inr (chosen, explicit) \<Longrightarrow>
      scan_loads w opts (scan_checks w opts explicit chosen) = Inr (pkgs, scope) \<Longrightarrow>
      run_checks (w_run w) pkgs scope (scan_checks w opts explicit chosen) [] = Inr found \<Longrightarrow>
      set (scan_checks w opts explicit chosen) \<subseteq> set checks \<Longrightarrow>
      fs = dedup (w_sort w (filter (reportable w opts) found)) \<Longrightarrow> thesis"
  from assms obtain prepared ps where p: "prepare w checks opts = Go prepared ps"
    by (auto simp: scan_def and_then_Go)
  obtain enabled cfg where prepared: "prepared = (enabled, cfg)" by (cases prepared)
  from p prepared obtain loaded ls where l: "load_packages w opts (enabled, cfg) = Go loaded ls"
    and rest: "\<exists>ns. and_then (analyze w loaded) (\<lambda>(fs, pkgs, metadata).
       let (selected, messages) = select_findings w opts fs in Go (selected, pkgs, metadata) messages) =
       Go (fs, pkgs, metadata) ns"
    using assms unfolding scan_def and_then_Go [of "prepare w checks opts"] and_then_Go [of "load_packages w opts _"]
    by fastforce
  then obtain x as ns where x: "analyze w loaded = Go x as"
    and g: "(\<lambda>(fs, pkgs, metadata).
       let (selected, messages) = select_findings w opts fs in Go (selected, pkgs, metadata) messages) x =
       Go (fs, pkgs, metadata) ns"
    unfolding and_then_Go by blast
  obtain found where a: "analyze w loaded = Go (found, pkgs, metadata) as" and f: "select_findings w opts found = (fs, ns)"
    using x g by (cases x) (auto split: prod.splits)
  from prepare_Go p prepared obtain chosen explicit where
      s: "select_checks checks (op_checks opts) (op_max_level opts) = Inr (chosen, explicit)"
    and e: "enabled = scan_checks w opts explicit chosen"
    and c: "cfg = fst (fst (load_config (w_config w) (op_config_path opts)))" by metis
  from l obtain pkgs' scope where loaded: "loaded = (enabled, pkgs', scope)"
    and o: "scan_loads w opts enabled = Inr (pkgs', scope)"
    by (auto simp: load_packages_def scan_loads_def c Let_def case_prod_unfold split: sum.splits if_splits option.splits)
  from a loaded have k: "pkgs' = pkgs" "run_checks (w_run w) pkgs scope enabled [] = Inr found"
    by (auto simp: analyze_def Let_def split: sum.splits run_failure.splits)
  have "fs = dedup (w_sort w (filter (reportable w opts) found))"
    using f select_findings_eq [of w opts found] by simp
  moreover have "set enabled \<subseteq> set checks" using prepare_subset p prepared by blast
  ultimately show thesis using ret s o k unfolding e by blast
qed

text \<open>
  C2: what a scan reports. The checks of the scan are those that the selectors and the level
  select and whose vocabulary is there; all of them run to their end on the loaded packages. The findings
  are in report order, no two have the same file, line, column and check, and each is one that a
  check of the scan reported, is not silenced by a directive on its line or the line above, and
  is in no excluded or unwanted generated file. Nothing else is lost: whatever one of the
  checks of the scan reports on the packages, and may be reported, is there, up to a duplicate of it.
\<close>

theorem run_reports:
  assumes "sorts (w_sort w) finding_cmp" and "scan w checks opts = Go (fs, pkgs, metadata) ms"
  shows "\<exists>chosen explicit scope.
    select_checks checks (op_checks opts) (op_max_level opts) = Inr (chosen, explicit) \<and>
    (let enabled = scan_checks w opts explicit chosen;
         found = concat (map (check_reports (w_run w) pkgs scope) enabled) in
     scan_loads w opts enabled = Inr (pkgs, scope) \<and> set enabled \<subseteq> set checks \<and>
     list_all (check_completes (w_run w) pkgs scope) enabled \<and>
     sorted_by finding_cmp fs \<and> distinct (map find_key fs) \<and>
     list_all (\<lambda>f. f \<in> set found \<and> reportable w opts f \<and> fnd_check f \<in> set enabled) fs \<and>
     list_all (\<lambda>f. \<not> reportable w opts f \<or> find_key f \<in> find_key ` set fs) found)"
proof -
  from scan_findings [OF assms(2)] obtain chosen explicit scope found where
      s: "select_checks checks (op_checks opts) (op_max_level opts) = Inr (chosen, explicit)"
    and l: "scan_loads w opts (scan_checks w opts explicit chosen) = Inr (pkgs, scope)"
    and r: "run_checks (w_run w) pkgs scope (scan_checks w opts explicit chosen) [] = Inr found"
    and e: "set (scan_checks w opts explicit chosen) \<subseteq> set checks"
    and fs: "fs = keep_first find_key {} (w_sort w (filter (reportable w opts) found))"
    by (metis dedup_def)
  let ?enabled = "scan_checks w opts explicit chosen"
  from r have k: "list_all (check_completes (w_run w) pkgs scope) ?enabled"
    and found: "concat (map (check_reports (w_run w) pkgs scope) ?enabled) = found"
    by (simp_all add: run_checks_iff)
  have order: "sorter (w_sort w) finding_cmp" using assms(1) by (simp add: sorter_def sorts_def)
  have sub: "subseq fs (w_sort w (filter (reportable w opts) found))"
    unfolding fs by (rule keep_first_subseq)
  have in_found: "set fs \<subseteq> set (filter (reportable w opts) found)"
    using keep_first_set [of find_key "{}" "w_sort w (filter (reportable w opts) found)"]
    unfolding fs sorter.sorter_set [OF order] .
  have checks: "list_all (\<lambda>f. fnd_check f \<in> set ?enabled) found"
    by (rule run_checks_all [OF _ r]) (auto simp: finding_of_def Let_def)
  have keys: "find_key ` set fs = find_key ` set (filter (reportable w opts) found)"
    unfolding fs by (simp add: keep_first_keys sorter.sorter_set [OF order])
  have "sorted_by finding_cmp fs"
    using sorter.sorter_sorted [OF order] sorted_wrt_subseq [OF sub] by (simp add: sorted_by_def)
  moreover have "distinct (map find_key fs)" unfolding fs by (rule keep_first_distinct)
  moreover have "list_all (\<lambda>f. f \<in> set found \<and> reportable w opts f \<and> fnd_check f \<in> set ?enabled) fs"
    using in_found checks by (auto simp: list_all_iff)
  moreover have "list_all (\<lambda>f. \<not> reportable w opts f \<or> find_key f \<in> find_key ` set fs) found"
    unfolding keys by (auto simp: list_all_iff)
  ultimately show ?thesis using s l e k by (intro exI [of _ chosen] exI [of _ explicit] exI [of _ scope]) (simp only: Let_def found simp_thms)
qed

section \<open>A concrete run\<close>

text \<open>One package with one file, and an analyzer that suggests one edit in it.\<close>

definition sample_source :: loaded_package where
  "sample_source = (sample_package ''p'')\<lparr>lp_fset := [\<lparr>tf_name = ''/w/a.go'', tf_base = 1, tf_size = 6\<rparr>]\<rparr>"

definition sample_analyzer :: run_env where
  "sample_analyzer =
     \<lparr>rn_code = (\<lambda>_ _. Report \<lparr>dg_pos = 2, dg_end = 3, dg_message = ''m'',
        dg_fixes = [\<lparr>fix_message = ''f'', fix_edits = [\<lparr>te_pos = 2, te_end = 3, te_new_text = ''XY''\<rparr>]\<rparr>]\<rparr> (Return None)),
      rn_gob = plain_gob,
      rn_position = (\<lambda>_ p. \<lparr>pos_filename = ''/w/a.go'', pos_offset = p - 1, pos_line = 1, pos_column = p\<rparr>),
      rn_visit = (\<lambda>ps. ps)\<rparr>"

definition sample_found :: evidence_metadata where
  "sample_found = scan_evidence_metadata sample_evid [Some (go_package.truncate sample_source)]"

definition sample_accepted :: baseline_file where
  "sample_accepted = baseline_of sample_bl ''/w/b.yml'' sample_findings sample_found (module_packages [sample_source])"

definition sample_world :: world where
  "sample_world =
     \<lparr>w_config = \<lparr>ce_os = sample_env, ce_read = (\<lambda>_. Some []), ce_exists = (\<lambda>_. True),
        ce_decode = (\<lambda>_. Some zero_config), ce_keys = (\<lambda>_. None)\<rparr>,
      w_ids = \<lparr>ie_letter = (\<lambda>_. False), ie_digit = (\<lambda>_. False), ie_import_path = (\<lambda>_. True)\<rparr>,
      w_json = \<lparr>js_decode = (\<lambda>_. None), js_next = (\<lambda>_. Json_eof), js_encode = (\<lambda>_. [])\<rparr>,
      w_artifacts = \<lparr>ac_decode = (\<lambda>_. None), ac_at_end = (\<lambda>_. True)\<rparr>,
      w_ordinary = (\<lambda>_ _. Inr [sample_source]),
      w_strict = (\<lambda>_ _. \<lparr>so_before_driver = False, so_before = None, so_load = Inr [sample_source],
        so_after = None, so_after_driver = False\<rparr>),
      w_evidence = sample_evid, w_run = sample_analyzer, w_patch = sample_patch_env ''abcdef'',
      w_baseline = \<lparr>bl_os = sample_env, bl_marshal = (\<lambda>bf. if bf = sample_accepted then ''b'' else ''c''),
        bl_unmarshal = (\<lambda>s. if s = ''b'' then Some sample_accepted else None), bl_sort = stable_sort module_cmp\<rparr>,
      w_generated = (\<lambda>_. False), w_sort = stable_sort finding_cmp, w_mkdir = (\<lambda>_. True),
      w_writable = (\<lambda>_. True), w_version = ''dev''\<rparr>"

definition sample_options :: options where
  "sample_options =
     \<lparr>op_patterns = [''./...''], op_checks = [], op_max_level = 3, op_tests = False, op_fix = False, op_diff = False,
      op_json = False, op_sarif = False, op_config_path = ''c.yml'', op_exit_zero = False, op_baseline = [],
      op_write_baseline = False, op_include_generated = False, op_exclude = []\<rparr>"

definition sample_checks :: "check list" where
  "sample_checks = [plain_check ''PS2005'' 1]"

lemma sample_world_simps [simp]:
  "w_run sample_world = sample_analyzer" "w_patch sample_world = sample_patch_env ''abcdef''"
  "w_sort sample_world = stable_sort finding_cmp" "w_writable sample_world = (\<lambda>_. True)"
  "w_evidence sample_world = sample_evid"
  by (simp_all add: sample_world_def)

lemma sample_prepare:
  assumes "\<not> (op_diff opts \<and> op_fix opts)" and "op_checks opts = []" and "op_max_level opts = 3"
    and "op_config_path opts = ''c.yml''"
  shows "prepare sample_world sample_checks opts = Go (sample_checks, zero_config) []"
proof -
  have c: "load_config (w_config sample_world) ''c.yml'' = ((zero_config, ''c.yml''), [])"
    by (simp add: load_config_def load_def unknown_keys_def sample_world_def)
  have s: "select_checks sample_checks [] 3 = Inr (sample_checks, {})"
    by (simp add: sample_checks_def plain_check_def) code_simp
  have k: "keep_fed (w_ids sample_world) (w_json sample_world) zero_config ''c.yml'' {} sample_checks = (sample_checks, [])"
    by (simp add: sample_checks_def plain_check_def missing_vocab_def fully_starved_def)
  show ?thesis using assms by (auto simp: prepare_def c s k)
qed

lemma sample_analyze:
  "analyze sample_world (sample_checks, [sample_source], None) = Go (sample_findings, [sample_source], sample_found) []"
  by (simp add: analyze_def sample_found_def sample_checks_def plain_check_def run_check_with_scope_def sample_analyzer_def
      finding_of_def sample_findings_def sample_finding_def sample_source_def)

lemma sample_ignored: "filter_ignored (pe_read (sample_patch_env ''abcdef'')) sample_findings = sample_findings"
proof -
  have "\<not> line_suppresses ''abcdef'' ''PS2005''" by code_simp
  moreover have "file_lines (pe_read (sample_patch_env ''abcdef'')) ''/w/a.go'' = [''abcdef'']"
    by (simp add: file_lines_def sample_patch_env_def)
  ultimately show ?thesis
    by (simp add: filter_ignored_def sample_findings_def sample_finding_def covered_def plain_check_def)
qed

lemma sample_generated: "filter_generated (w_generated sample_world) fs incl = fs"
  by (simp add: filter_generated_def sample_world_def)

lemma sample_scan:
  assumes "\<not> (op_diff opts \<and> op_fix opts)" and "op_checks opts = []" and "op_max_level opts = 3"
    and "op_config_path opts = ''c.yml''" and "op_exclude opts = []"
  shows "scan sample_world sample_checks opts = Go (sample_findings, [sample_source], sample_found) []"
proof -
  have l: "load_packages sample_world opts (sample_checks, zero_config) = Go (sample_checks, [sample_source], None) []"
    by (simp add: load_packages_def load_for_checks_def sample_world_def sample_checks_def plain_check_def
        sample_source_def sample_package_def)
  have s: "select_findings sample_world opts sample_findings = (sample_findings, [])"
    using assms(5) by (simp add: select_findings_def sample_ignored sample_generated)
        (simp add: dedup_def sample_findings_def)
  show ?thesis by (simp add: scan_def sample_prepare [OF assms(1-4)] and_then_def l sample_analyze s)
qed

definition sample_fixing :: options where
  "sample_fixing = sample_options\<lparr>op_fix := True\<rparr>"

lemma sample_fix_run:
  obtains r where "run sample_world sample_checks sample_fixing = Some r" and "rr_code r = 1"
    and "rr_files r = (pe_read (sample_patch_env ''abcdef''))(''/w/a.go'' \<mapsto> ''aXYcdef'')"
    and "rr_stdout r = report sample_world sample_fixing sample_findings sample_found"
proof -
  have d: "with_defaults sample_fixing = sample_fixing"
    by (simp add: with_defaults_def sample_fixing_def sample_options_def)
  have s: "scan sample_world sample_checks sample_fixing = Go (sample_findings, [sample_source], sample_found) []"
    by (rule sample_scan) (simp_all add: sample_fixing_def sample_options_def)
  have b: "op_baseline sample_fixing = []" "\<not> op_write_baseline sample_fixing" "op_fix sample_fixing"
    "\<not> op_diff sample_fixing" "\<not> op_exit_zero sample_fixing"
    by (simp_all add: sample_fixing_def sample_options_def)
  have "sample_findings \<noteq> []" by (simp add: sample_findings_def)
  then show ?thesis
    using that by (simp add: run_def d s apply_stage_def b finish_def sample_applied exit_code_def)
qed

theorem run_frame_witness:
  "\<exists>r. run sample_world sample_checks sample_fixing = Some r \<and> rr_code r \<noteq> 2 \<and>
     rr_files r ''/w/a.go'' = Some ''aXYcdef'' \<and> \<not> outside_work_tree sample_env ''/w/a.go''"
proof -
  obtain r where r: "run sample_world sample_checks sample_fixing = Some r"
    and f: "rr_files r = (pe_read (sample_patch_env ''abcdef''))(''/w/a.go'' \<mapsto> ''aXYcdef'')"
    by (rule sample_fix_run)
  have "rr_files r ''/w/a.go'' \<noteq> pe_read (w_patch sample_world) ''/w/a.go''"
    by (simp add: f sample_patch_env_def)
  from run_frame [OF r this] r f show ?thesis
    by (auto simp: sample_fixing_def sample_options_def sample_patch_env_def)
qed

theorem run_exit_code_witness:
  "\<exists>r. run sample_world sample_checks sample_fixing = Some r \<and>
     rr_code r = (if shows_something (rr_stdout r) then 1 else 0) \<and> shows_something (rr_stdout r)"
proof -
  obtain r where r: "run sample_world sample_checks sample_fixing = Some r" and c: "rr_code r = 1"
    by (rule sample_fix_run)
  from run_exit_code [OF r] c have "shows_something (rr_stdout r)" by (auto split: if_splits)
  with r c show ?thesis by auto
qed

theorem run_diff_predicts_witness:
  "\<exists>d. run sample_world sample_checks (sample_options\<lparr>op_diff := True, op_fix := False\<rparr>) = Some d \<and>
     rr_code d = 1 \<and> rr_files d = pe_read (sample_patch_env ''abcdef'')"
proof -
  have o: "sample_options\<lparr>op_diff := False, op_fix := True\<rparr> = sample_fixing"
    by (simp add: sample_fixing_def sample_options_def)
  obtain f where f: "run sample_world sample_checks sample_fixing = Some f" "rr_code f = 1"
    "rr_files f = (pe_read (sample_patch_env ''abcdef''))(''/w/a.go'' \<mapsto> ''aXYcdef'')"
    by (rule sample_fix_run)
  have c: "rr_files f \<noteq> pe_read (sample_patch_env ''abcdef'')"
    unfolding f(3) by (auto simp: sample_patch_env_def fun_eq_iff)
  have "rel_option (predicts (pe_read (w_patch sample_world)))
    (run sample_world sample_checks (sample_options\<lparr>op_diff := True, op_fix := False\<rparr>))
    (run sample_world sample_checks (sample_options\<lparr>op_diff := False, op_fix := True\<rparr>))"
    by (rule run_diff_predicts) (simp_all add: sample_options_def)
  then show ?thesis
    using f c unfolding o by (auto simp: predicts_def option_rel_Some2 split: if_splits)
qed

theorem run_ratchet_witness:
  "\<exists>r r'. run sample_world sample_checks (sample_options\<lparr>op_baseline := ''/w/b.yml'', op_write_baseline := True\<rparr>) = Some r \<and>
     rr_files r ''/w/b.yml'' = Some ''b'' \<and>
     run (rewritten sample_world (rr_files r)) sample_checks (sample_options\<lparr>op_baseline := ''/w/b.yml''\<rparr>) = Some r' \<and>
     rr_code r' = 0"
proof -
  let ?o = "sample_options\<lparr>op_baseline := ''/w/b.yml''\<rparr>"
  have d: "with_defaults ?o = ?o"
    "with_defaults (sample_options\<lparr>op_baseline := ''/w/b.yml'', op_write_baseline := True\<rparr>) =
     sample_options\<lparr>op_baseline := ''/w/b.yml'', op_write_baseline := True\<rparr>"
    by (simp_all add: with_defaults_def sample_options_def)
  have s: "scan sample_world sample_checks (with_defaults ?o) = Go (sample_findings, [sample_source], sample_found) []"
    "scan sample_world sample_checks (sample_options\<lparr>op_baseline := ''/w/b.yml'', op_write_baseline := True\<rparr>) =
     Go (sample_findings, [sample_source], sample_found) []"
    unfolding d by (rule sample_scan; simp add: sample_options_def)+
  have e: "bl_os (w_baseline sample_world) = bl_os sample_bl" "bl_sort (w_baseline sample_world) = bl_sort sample_bl"
    by (simp_all add: sample_world_def sample_bl_def)
  have b: "baseline_of (w_baseline sample_world) ''/w/b.yml'' sample_findings sample_found (module_packages [sample_source]) =
      sample_accepted"
    by (simp add: sample_accepted_def baseline_of_def e)
  have m: "bl_marshal (w_baseline sample_world) sample_accepted = ''b''"
    "bl_unmarshal (w_baseline sample_world) ''b'' = Some sample_accepted"
    by (simp_all add: sample_world_def)
  obtain r where r: "run sample_world sample_checks (?o\<lparr>op_write_baseline := True\<rparr>) = Some r" "rr_code r = 0"
    "rr_files r ''/w/b.yml'' = Some ''b''"
    using b m by (simp add: run_def d s write_mode_def)
      (simp add: sample_options_def write_baseline_def sample_world_def fits_slice_def sample_findings_def)
  have p: "\<And>fset p. pos_filename (rn_position (w_run sample_world) fset p) \<noteq> op_baseline ?o"
    by (simp add: sample_analyzer_def)
  have "\<exists>r'. run (rewritten sample_world (rr_files r)) sample_checks ?o = Some r' \<and> rr_code r' = 0 \<and>
    \<not> shows_something (rr_stdout r') \<and> rr_files r' = rr_files r"
    by (rule run_ratchet [OF s(1) r(1,2) _ p]) (simp_all add: b m, simp add: sample_options_def)
  with r show ?thesis by auto
qed

theorem run_reports_witness:
  "\<exists>fs. scan sample_world sample_checks sample_options = Go (fs, [sample_source], sample_found) [] \<and>
     sorted_by finding_cmp fs \<and> fs = sample_findings \<and>
     (\<exists>explicit scope. list_all (check_completes sample_analyzer [sample_source] scope)
       (scan_checks sample_world sample_options explicit sample_checks))"
proof -
  have s: "scan sample_world sample_checks sample_options = Go (sample_findings, [sample_source], sample_found) []"
    by (rule sample_scan) (simp_all add: sample_options_def)
  have c: "select_checks sample_checks (op_checks sample_options) (op_max_level sample_options) = Inr (sample_checks, {})"
    by (simp add: sample_checks_def plain_check_def sample_options_def) code_simp
  have "sorts (w_sort sample_world) finding_cmp" by (simp add: report.sorter_sorts)
  from run_reports [OF this s] s show ?thesis by (auto simp: c Let_def)
qed

end
