(* ===== verification/Spec2Isabelle.thy ===== *)
theory Spec2Isabelle
  imports Select Edits_Props Diff_Props Baseline_Props Evidence_Props Report Imports_Props Facts
    Contracts_Props Closure_Props Coefficient_Props Vocabulary_Props Scan_Scope Test_Parallel_Props Checks_Props Chain_Samples Campaign_Samples Crossover_Samples Run_Props
begin

text \<open>
  Verification of perfscan, a static analyser for Go that reports performance anti-patterns and
  rewrites some of them.

  A run (\<open>internal/runner\<close>) reads the configuration, selects checks, loads the packages, runs
  the analyzers, filters the findings, compares them with a baseline, and then reports them,
  prints a diff or rewrites files. The theories follow that pipeline. In each of them a Go struct is a \<open>record\<close>, a tagged value
  a \<open>datatype\<close>, an error a value of a sum type, a panic the value \<open>None\<close>, and a Go string,
  being a string of bytes, a \<open>char list\<close>. Names are those of the source in snake case.

  \<^bold>\<open>Foundations.\<close>
  \<^item> \<open>Prelude\<close>: comparison functions of Go, stable sorting, the locale \<open>sorter\<close> for code whose
    result must not depend on the order of equal elements, and list lemmas.
  \<^item> \<open>Go_Strings\<close>, \<open>Go_Path\<close>, \<open>Go_Text\<close>: what the program uses of \<open>strings\<close>, \<open>path\<close>,
    \<open>path/filepath\<close> (Unix, lexical), \<open>unicode/utf8\<close>, \<open>strconv\<close> and \<open>go/version\<close>. \<open>Go_Int\<close>: \<open>int\<close> and \<open>int64\<close> with their
    wrap-around, and the bound on the length of a slice.

  \<^bold>\<open>Checks and configuration.\<close>
  \<^item> \<open>Lint\<close>: \<open>lint/lint.go\<close>, the metadata of a check. \<open>Select\<close>: \<open>selectChecks\<close> and \<open>matchCheck\<close>,
    with the meaning of a selector as a declarative specification.
  \<^item> \<open>Config\<close>: the struct \<open>Config\<close> of package \<open>config\<close>, its compiled form \<open>Sets\<close>, loading and discovery.
  \<^item> \<open>Contract_Ids\<close>, \<open>Contracts_Lookup\<close>, \<open>Contracts_Calls\<close>, \<open>Contracts_Accelerator\<close>,
    \<open>Contracts_Workspace\<close>: one record per configured contract and one \<open>..._valid\<close> function per
    method \<open>Valid\<close>, with 64-bit arithmetic that wraps where the code's does. \<open>Contract_Policy\<close>: which
    contracts are usable; the locale \<open>claim_policy\<close> is what all fourteen counters share.
    \<open>Contract_Samples\<close> holds the concrete contracts of the witnesses.
  \<^item> \<open>Vocabulary\<close>: \<open>missingVocab\<close> and the loop of \<open>Run\<close> that drops checks whose vocabulary
    is empty. \<open>Vocabulary_Props\<close>, \<open>Contracts_Props\<close>: what these promise.

  \<^bold>\<open>Analyzers.\<close>
  \<^item> \<open>Go_Ast\<close>: syntax trees of \<open>go/ast\<close>, \<open>ast.Inspect\<close> and the inspector with its stacks. A node's identity is \<open>at_ref\<close>; a tree is \<open>proper\<close> when identities are distinct.
  \<^item> \<open>Ast_Util\<close>: \<open>internal/astutil\<close> (calls, loops and their bodies), and \<open>type_info\<close>, the
    record of the answers of \<open>go/types\<close> about objects, types and constants.
  \<^item> \<open>Checks_Loops\<close> (calls that must not be made in a loop), \<open>Checks_Access\<close> (access patterns and
    sorted prefixes), \<open>Checks_Nests\<close> (loop nests): the modelled checks PS1001 to PS1005, PS1009, PS2001, PS2131, PS2133, PS3001, PS3003,
    PS3034, PS3059, PS3060, PS3063, PS4002 and PS6004, one function per helper. \<open>Checks_Props\<close>: exactly which nodes they report.
  \<^item> \<open>Call_Chains\<close>: \<open>checks/callchain.go\<close> and \<open>checks/exprutil.go\<close>, the matchers of nested package calls (a run of the same function, a
    run of wrappers around a producer) and the editor of their fixes: which text goes, which imports go with it, and the guards that keep comments,
    imports and declarations intact. \<open>Checks_Chains\<close>: the checks PS5075, PS5077, PS5108, PS5111, PS5115 and PS5116, which report such calls.
  \<^item> \<open>Go_Library\<close>: the library functions these checks rewrite (\<open>Trim\<close>, \<open>ToValidUTF8\<close>, \<open>ValidString\<close>, \<open>Repeat\<close>, \<open>path.Clean\<close>) on
    arbitrary bytes, with their algebraic laws. \<open>Chain_Runs\<close>: a match is the complete run below a call. \<open>Chain_Values\<close>, \<open>Repeat_Values\<close>: expressions get
    values, and the rewrites keep them; the locale \<open>absorbing\<close> is the law a layer must have. \<open>Chain_Guards\<close>: the guards are exact.
    \<open>Chains_Props\<close>, \<open>Chain_Text\<close>: what is reported, and the text after the fix engine has carried a fix out. \<open>Chain_Samples\<close>: concrete chains.

  \<^bold>\<open>The run.\<close>
  \<^item> \<open>Facts\<close>: \<open>runCheckWithScope\<close>, \<open>runFactCheckWithScope\<close> and the fact store. The code of an
    analyzer is a script of fact operations and reports. \<open>Scan_Scope\<close>: the loader and the scope it observes.
  \<^item> \<open>Findings\<close>: ordering, de-duplication and the filters for ignore directives, generated files and
    excluded paths; the locale \<open>finding_pass\<close> is the contract of a filter. \<open>Report\<close>: text, JSON and SARIF.
  \<^item> \<open>Baseline\<close>, \<open>Evidence\<close>: \<open>baseline.go\<close> and \<open>evidence.go\<close>. The counts of a baseline
    are read from its file and their sums wrap around. \<open>Baseline_Props\<close>, \<open>Evidence_Props\<close>: what they promise.
  \<^item> \<open>Write_Guard\<close>, \<open>Edits\<close>, \<open>Imports\<close>, \<open>Diff\<close>: the guards against writing outside the work tree, the fix
    engine, the import passes after a fix and the unified diff.
  \<^item> \<open>Run\<close>: the composition, from the options to the exit code, the output and the file system. A stage is a
    value, a stop with messages or a crash. \<open>Run_Props\<close> states what a whole run does.

  \<^bold>\<open>Evidence tools.\<close>
  \<^item> \<open>Closure\<close>: \<open>internal/closureenv\<close>, the layout and the size class of closure environments.
    \<open>Coefficient\<close>: \<open>internal/coefficientcodegen\<close>, the decoder of ARM64 loads.
  \<^item> \<open>Worker_Pool\<close>, \<open>Test_Parallel\<close>: \<open>internal/testparallel\<close>; the goroutines are a step relation
    whose invariant, progress and termination are proved in \<open>Worker_Pool\<close>.
  \<^item> \<open>Allocation\<close>: \<open>benchmarkevidence\<close>, exact totals of benchmarks and paired differences. \<open>Snapshot\<close>: the retained sources of
    \<open>internal/allocationcampaign\<close> (\<open>unpack\<close>, \<open>exactTree\<close>, \<open>RetainSnapshot\<close>, \<open>VerifySnapshot\<close>) over a file system that is a list of files and directories.
    \<open>Strict_Json\<close>: \<open>uniqueJSON\<close>, \<open>requiredFields\<close> and \<open>decode\<close> over the tokens of \<open>encoding/json\<close>. \<open>Measure_Plan\<close>: the two predeclared
    matrices. \<open>Campaign\<close>: \<open>Verify\<close> of the allocation campaign with its samples, pairs and medians.
    \<open>Crossover_Data\<close>, \<open>Crossover\<close>: \<open>internal/crossover\<close>, observations, comparisons and \<open>VerifyCampaign\<close>. \<open>Campaign_Samples\<close> and
    \<open>Crossover_Samples\<close> are complete campaigns that verify.

  \<^bold>\<open>What the theorems show.\<close> The properties are the numbered texts of the theories \<open>..._Props\<close> and of a
  few component theories. Whole runs: frame of the file system, the report as exactly the findings of every selected check, agreement of
  \<open>-diff\<close> with \<open>-fix\<close>, the ratchet of baselines, exit codes. Fix engine: no panic, simultaneous
  replacement, maximality of the accepted fixes. Diff: the hunks apply, and keep a longest common subsequence. Selection,
  filters, baselines, imports: equivalence with declarative specifications. Contracts: no ambiguous role, no double claim,
  no wrapped sum where the code guards against it, and one place where it does not. Evidence: exact
  layouts, exact decoding, growth independent of the order of captures. Test runner: every test runs
  once, retries are bounded and hide nothing, goroutines return and the result is independent of the schedule.
  Campaigns: archives unpack their files and directories inside their directory and to exactly the committed tree, a retained snapshot verifies, strict decoding
  is exact but for the case of keys, schedules are complete, and a verified campaign reports exactly the planned pairs, each from its own files
  and with exact differences.
  Analyzers: which nodes are reported, that no node is reported twice, that checks with complementary conditions
  divide the code between them, and one statement a check overlooks. Nested calls: exactly the outermost runs are reported, a rewrite keeps
  the type and the value of the expression and its text is the text of the kept call, no fix orphans an import, and one
  fix that orphans a variable.
  Where the code does not do what its comments say, the theorem states what it does.

  \<^bold>\<open>Bounds and fuel.\<close> Loops are structural recursion or have a termination proof. The few functions with fuel
  (\<open>fields_fuel\<close> and the walks up a directory) are started with the length of their argument, which each round shortens. \<open>int\<close> is 64
  bits wide where an overflow can be reached, and unbounded where the values are lengths and positions of data in memory.

  \<^bold>\<open>Parameters.\<close> Code outside the repository is a parameter: the analyzers' access to
  \<open>golang.org/x/tools\<close>, the answers of \<open>go/types\<close>, the Go command, the file system, the environment, the clock, the YAML, JSON, gob and Mach-O codecs, \<open>go/parser\<close>
  and \<open>go/format\<close>, Unicode tables beyond ASCII, map iteration order and the order \<open>slices.SortFunc\<close> leaves equal
  elements in. What the theorems need of them is a named hypothesis, and the witnesses instantiate them.

  \<^bold>\<open>Not modelled.\<close> Most of the analyzers of package \<open>checks\<close>, which are programs over the syntax trees, type information and
  SSA form of the Go front end; the command line of \<open>main.go\<close> and the plugin, which only build the
  options of a run; the parts of the evidence tools that run compilers, benchmarks and tracers (\<open>Run\<close> of
  \<open>internal/allocationcampaign\<close>, \<open>RecordCampaign\<close> and the harness text of \<open>internal/crossover\<close>, \<open>traceevidence\<close>, the collectors of \<open>closureenv\<close> and
  \<open>coefficientcodegen\<close>) and the small commands around them.
\<close>

end
